(* ===== verification/Desk_Prelude.thy ===== *)
theory Desk_Prelude
  imports Complex_Main
begin

text \<open>
  What every component of the development shares: the values a TypeScript expression of static
  type \<open>unknown\<close> can hold, the result type of a function that may throw, the
  character classes of the grammars the desk checks with regular expressions, splitting and
  joining on a separator, and decimal numerals. The named theorem collections at the end of each
  section are what \<open>simp add:\<close> and \<open>auto simp:\<close> of the component
  theories use.

  Strings are \<open>string\<close>, lists of 8-bit characters. Every grammar of the desk is
  ASCII, so a code unit above 255 behaves like any character above 127: no class below contains
  it.
\<close>

named_theorems result_simps \<open>equations and inversions of the result type\<close>
named_theorems text_simps \<open>facts on splitting, joining and printing\<close>
named_theorems shape_simps \<open>consequences of the grammar predicates\<close>

section \<open>Values of type unknown\<close>

text \<open>
  A finite double is the rational it denotes (minus zero is not told apart from zero).
  \<open>Arr\<close> and \<open>Obj\<close> are JSON arrays and objects; the keys of an object
  are in insertion order.
\<close>

datatype jsnum = Fin rat | NaN | PosInf | NegInf

datatype jsval =
    Undefined
  | Null
  | Bool bool
  | Num jsnum
  | Str string
  | Arr "jsval list"
  | Obj "(string \<times> jsval) list"

text \<open>\<open>Number.isInteger\<close> and \<open>Number.isSafeInteger\<close>: the magnitude
  of a safe integer is at most \<open>2 ^ 53 - 1\<close>.\<close>

definition max_safe :: int where
  "max_safe = 9007199254740991"

definition int_jsnum :: "int \<Rightarrow> jsnum" where
  "int_jsnum i = Fin (of_int i)"

definition jsnum_int :: "jsnum \<Rightarrow> int option" where
  "jsnum_int x =
     (case x of Fin q \<Rightarrow> if of_int \<lfloor>q\<rfloor> = q then Some \<lfloor>q\<rfloor> else None | _ \<Rightarrow> None)"

definition is_integer :: "jsnum \<Rightarrow> bool" where
  "is_integer x \<longleftrightarrow> jsnum_int x \<noteq> None"

definition safe_int_of :: "jsval \<Rightarrow> int option" where
  "safe_int_of v =
     (case v of
        Num x \<Rightarrow> (case jsnum_int x of
                    Some i \<Rightarrow> if \<bar>i\<bar> \<le> max_safe then Some i else None
                  | None \<Rightarrow> None)
      | _ \<Rightarrow> None)"

definition int_jsval :: "int \<Rightarrow> jsval" where
  "int_jsval i = Num (int_jsnum i)"

lemma jsnum_int_int [simp]: "jsnum_int (int_jsnum i) = Some i"
  by (simp add: jsnum_int_def int_jsnum_def)

lemma jsnum_int_Some: "jsnum_int x = Some i \<longleftrightarrow> x = int_jsnum i"
  by (cases x) (auto simp: jsnum_int_def int_jsnum_def)

lemma int_jsnum_inject [simp]: "int_jsnum i = int_jsnum j \<longleftrightarrow> i = j"
  by (simp add: int_jsnum_def)

lemma int_jsval_inject [simp]: "int_jsval i = int_jsval j \<longleftrightarrow> i = j"
  by (simp add: int_jsval_def)

lemma safe_int_of_int [simp]:
  "safe_int_of (int_jsval i) = (if \<bar>i\<bar> \<le> max_safe then Some i else None)"
  by (simp add: safe_int_of_def int_jsval_def)

lemma safe_int_of_Some:
  "safe_int_of v = Some i \<longleftrightarrow> v = int_jsval i \<and> \<bar>i\<bar> \<le> max_safe"
  by (auto simp: safe_int_of_def int_jsval_def jsnum_int_Some split: jsval.splits option.splits if_splits)

lemma safe_int_of_range: "safe_int_of v = Some i \<Longrightarrow> \<bar>i\<bar> \<le> max_safe"
  by (simp add: safe_int_of_Some)

section \<open>Functions that may throw\<close>

type_synonym ('e, 'a) result = "'e + 'a"

definition bind_res :: "('e, 'a) result \<Rightarrow> ('a \<Rightarrow> ('e, 'b) result) \<Rightarrow> ('e, 'b) result" where
  "bind_res r f = (case r of Inl e \<Rightarrow> Inl e | Inr a \<Rightarrow> f a)"

definition throw_if :: "bool \<Rightarrow> 'e \<Rightarrow> ('e, unit) result" where
  "throw_if b e = (if b then Inl e else Inr ())"

definition or_throw :: "'a option \<Rightarrow> 'e \<Rightarrow> ('e, 'a) result" where
  "or_throw x e = (case x of None \<Rightarrow> Inl e | Some a \<Rightarrow> Inr a)"

text \<open>\<open>try\<close> with an empty \<open>catch\<close>: the error is forgotten.\<close>

definition caught :: "('e, 'a) result \<Rightarrow> 'a option" where
  "caught r = (case r of Inl e \<Rightarrow> None | Inr a \<Rightarrow> Some a)"

lemma bind_res_simps [simp, result_simps]:
  "bind_res (Inl e) f = Inl e"
  "bind_res (Inr a) f = f a"
  by (simp_all add: bind_res_def)

lemma bind_res_Inr_iff [result_simps]:
  "bind_res r f = Inr b \<longleftrightarrow> (\<exists>a. r = Inr a \<and> f a = Inr b)"
  by (cases r) simp_all

lemma bind_res_Inl_iff [result_simps]:
  "bind_res r f = Inl e \<longleftrightarrow> r = Inl e \<or> (\<exists>a. r = Inr a \<and> f a = Inl e)"
  by (cases r) simp_all

lemma throw_if_Inr_iff [result_simps]: "throw_if b e = Inr u \<longleftrightarrow> \<not> b"
  by (simp add: throw_if_def)

lemma throw_if_Inl_iff [result_simps]: "throw_if b e = Inl x \<longleftrightarrow> b \<and> x = e"
  by (auto simp: throw_if_def)

lemma throw_if_bool [simp]: "throw_if True e = Inl e" "throw_if False e = Inr ()"
  by (simp_all add: throw_if_def)

lemma or_throw_Inr_iff [result_simps]: "or_throw x e = Inr a \<longleftrightarrow> x = Some a"
  by (simp add: or_throw_def split: option.splits)

lemma or_throw_Inl_iff [result_simps]: "or_throw x e = Inl y \<longleftrightarrow> x = None \<and> y = e"
  by (auto simp: or_throw_def split: option.splits)

lemma or_throw_simps [simp]: "or_throw None e = Inl e" "or_throw (Some a) e = Inr a"
  by (simp_all add: or_throw_def)

lemma caught_simps [simp]: "caught (Inl e) = None" "caught (Inr a) = Some a"
  by (simp_all add: caught_def)

lemma caught_Some_iff [result_simps]: "caught r = Some a \<longleftrightarrow> r = Inr a"
  by (cases r) simp_all

section \<open>Character classes\<close>

definition digits :: string where
  "digits = ''0123456789''"

definition lower_hex :: string where
  "lower_hex = ''0123456789abcdef''"

definition lower_alnum :: string where
  "lower_alnum = ''abcdefghijklmnopqrstuvwxyz0123456789''"

definition alnum :: string where
  "alnum = ''ABCDEFGHIJKLMNOPQRSTUVWXYZabcdefghijklmnopqrstuvwxyz0123456789''"

definition base58_chars :: string where
  "base58_chars = ''123456789ABCDEFGHJKLMNPQRSTUVWXYZabcdefghijkmnopqrstuvwxyz''"

definition only :: "string \<Rightarrow> string \<Rightarrow> bool" where
  "only cls s \<longleftrightarrow> list_all (\<lambda>c. c \<in> set cls) s"

text \<open>\<open>/^0x[0-9a-f]{64}$/\<close>: tclk ids, contract ids, statements, swap ids.\<close>

definition hex32 :: "string \<Rightarrow> bool" where
  "hex32 s \<longleftrightarrow> length s = 66 \<and> take 2 s = ''0x'' \<and> only lower_hex (drop 2 s)"

text \<open>A string of \<open>lo\<close> to \<open>hi\<close> characters of one class:
  \<open>/^[cls]{lo,hi}$/\<close>.\<close>

definition run_of :: "string \<Rightarrow> nat \<Rightarrow> nat \<Rightarrow> string \<Rightarrow> bool" where
  "run_of cls lo hi s \<longleftrightarrow> lo \<le> length s \<and> length s \<le> hi \<and> only cls s"

lemma only_simps [simp]:
  "only cls []"
  "only cls (c # s) \<longleftrightarrow> c \<in> set cls \<and> only cls s"
  "only cls (s @ t) \<longleftrightarrow> only cls s \<and> only cls t"
  by (simp_all add: only_def)

lemma only_notin: "only cls s \<Longrightarrow> c \<notin> set cls \<Longrightarrow> c \<notin> set s"
  by (auto simp: only_def list_all_iff)

lemma only_mono: "only cls s \<Longrightarrow> set cls \<subseteq> set cls' \<Longrightarrow> only cls' s"
  by (auto simp: only_def list_all_iff)

lemma hex32_split: "hex32 s \<Longrightarrow> s = ''0x'' @ drop 2 s \<and> only lower_hex (drop 2 s)"
  by (metis append_take_drop_id hex32_def)

lemma hex32_only: "hex32 s \<Longrightarrow> only (CHR ''x'' # lower_hex) s"
proof -
  assume h: "hex32 s"
  have "only (CHR ''x'' # lower_hex) (drop 2 s)"
    by (rule only_mono [of lower_hex]) (use hex32_split [OF h] in auto)
  then have "only (CHR ''x'' # lower_hex) (''0x'' @ drop 2 s)"
    by (simp add: lower_hex_def)
  with hex32_split [OF h] show ?thesis by metis
qed

lemma hex32_notin [shape_simps]:
  assumes "hex32 s"
  shows "CHR ''|'' \<notin> set s" "CHR '':'' \<notin> set s" "CHR '' '' \<notin> set s"
  using only_notin [OF hex32_only [OF assms]] by (auto simp: lower_hex_def)

lemma hex32_length: "hex32 s \<Longrightarrow> length s = 66"
  by (simp add: hex32_def)

lemma hex32_nonempty: "hex32 s \<Longrightarrow> s \<noteq> []"
  by (auto simp: hex32_def)

section \<open>Splitting and joining\<close>

text \<open>\<open>s.split(d)\<close> for a one-character separator, and
  \<open>parts.join(d)\<close>.\<close>

fun split_on :: "char \<Rightarrow> string \<Rightarrow> string list" where
  "split_on d [] = [[]]"
| "split_on d (c # s) =
     (if c = d then [] # split_on d s
      else (case split_on d s of [] \<Rightarrow> [[c]] | p # ps \<Rightarrow> (c # p) # ps))"

fun join_with :: "char \<Rightarrow> string list \<Rightarrow> string" where
  "join_with d [] = []"
| "join_with d [p] = p"
| "join_with d (p # q # ps) = p @ d # join_with d (q # ps)"

lemma split_on_not_Nil [simp]: "split_on d s \<noteq> []"
  by (induction s) (auto split: list.splits)

lemma split_on_plain [text_simps]: "d \<notin> set s \<Longrightarrow> split_on d s = [s]"
  by (induction s) auto

lemma split_on_append [text_simps]:
  "d \<notin> set s \<Longrightarrow> split_on d (s @ d # t) = s # split_on d t"
  by (induction s) auto

lemma join_with_Cons: "join_with d ((c # p) # ps) = c # join_with d (p # ps)"
  by (cases ps) simp_all

lemma join_split [simp]: "join_with d (split_on d s) = s"
proof (induction s)
  case Nil
  show ?case by simp
next
  case (Cons c s)
  then show ?case
    by (cases "split_on d s" rule: list.exhaust) (auto simp: join_with_Cons)
qed

lemma split_on_parts: "p \<in> set (split_on d s) \<Longrightarrow> d \<notin> set p"
proof (induction s arbitrary: p)
  case Nil
  then show ?case by simp
next
  case (Cons c s)
  then show ?case
    by (cases "split_on d s") (auto split: if_splits)
qed

lemma split_join:
  "ps \<noteq> [] \<Longrightarrow> \<forall>p \<in> set ps. d \<notin> set p \<Longrightarrow> split_on d (join_with d ps) = ps"
  by (induction d ps rule: join_with.induct) (auto simp: text_simps)

lemma join_with_inject:
  assumes "join_with d ps = join_with d qs" "ps \<noteq> []" "qs \<noteq> []"
    and "\<forall>p \<in> set ps. d \<notin> set p" "\<forall>q \<in> set qs. d \<notin> set q"
  shows "ps = qs"
  using assms split_join by metis

section \<open>Decimal numerals\<close>

text \<open>\<open>String(n)\<close> for a non-negative integer, and \<open>Number(s)\<close> for a
  string of digits.\<close>

definition digit_char :: "nat \<Rightarrow> char" where
  "digit_char n = digits ! n"

definition char_digit :: "char \<Rightarrow> nat" where
  "char_digit c = of_char c - 48"

fun show_nat :: "nat \<Rightarrow> string" where
  "show_nat n = (if n < 10 then [digit_char n] else show_nat (n div 10) @ [digit_char (n mod 10)])"

declare show_nat.simps [simp del]

definition read_nat :: "string \<Rightarrow> nat" where
  "read_nat s = foldl (\<lambda>a c. 10 * a + char_digit c) 0 s"

text \<open>\<open>/^(0|[1-9][0-9]*)$/\<close> and \<open>/^[1-9][0-9]*$/\<close>.\<close>

definition positive_decimal :: "string \<Rightarrow> bool" where
  "positive_decimal s \<longleftrightarrow> (case s of [] \<Rightarrow> False | c # cs \<Rightarrow> c \<in> set ''123456789'' \<and> only digits cs)"

definition canonical_decimal :: "string \<Rightarrow> bool" where
  "canonical_decimal s \<longleftrightarrow> s = ''0'' \<or> positive_decimal s"

lemma digit_cases: "n < (10::nat) \<Longrightarrow>
  n = 0 \<or> n = 1 \<or> n = 2 \<or> n = 3 \<or> n = 4 \<or> n = 5 \<or> n = 6 \<or> n = 7 \<or> n = 8 \<or> n = 9"
  by auto

lemma char_digit_digit_char [simp]: "n < 10 \<Longrightarrow> char_digit (digit_char n) = n"
  using digit_cases [of n] by (auto simp: digit_char_def char_digit_def digits_def)

lemma digit_char_in_digits [simp]: "n < 10 \<Longrightarrow> digit_char n \<in> set digits"
  using digit_cases [of n] by (auto simp: digit_char_def digits_def)

lemma digit_char_positive: "n < 10 \<Longrightarrow> 0 < n \<Longrightarrow> digit_char n \<in> set ''123456789''"
  using digit_cases [of n] by (auto simp: digit_char_def digits_def)

lemma digit_char_char_digit [simp]: "c \<in> set digits \<Longrightarrow> digit_char (char_digit c) = c"
  by (auto simp: digit_char_def char_digit_def digits_def)

lemma char_digit_less [simp]: "c \<in> set digits \<Longrightarrow> char_digit c < 10"
  by (auto simp: char_digit_def digits_def)

lemma read_nat_snoc [simp]: "read_nat (s @ [c]) = 10 * read_nat s + char_digit c"
  by (simp add: read_nat_def)

lemma read_nat_show [simp, text_simps]: "read_nat (show_nat n) = n"
proof (induction n rule: show_nat.induct)
  case (1 n)
  show ?case
  proof (cases "n < 10")
    case True
    then show ?thesis by (simp add: show_nat.simps [of n] read_nat_def)
  next
    case False
    with 1 show ?thesis by (simp add: show_nat.simps [of n])
  qed
qed

lemma only_digits_show [simp, text_simps]: "only digits (show_nat n)"
proof (induction n rule: show_nat.induct)
  case (1 n)
  then show ?case by (cases "n < 10") (simp_all add: show_nat.simps [of n])
qed

lemma show_nat_inject [simp]: "show_nat m = show_nat n \<longleftrightarrow> m = n"
  by (metis read_nat_show)

lemma show_nat_nonempty [simp]: "show_nat n \<noteq> []"
  by (simp add: show_nat.simps [of n])

lemma positive_decimal_snoc:
  "positive_decimal s \<Longrightarrow> c \<in> set digits \<Longrightarrow> positive_decimal (s @ [c])"
  by (auto simp: positive_decimal_def split: list.splits)

lemma positive_decimal_show: "0 < n \<Longrightarrow> positive_decimal (show_nat n)"
proof (induction n rule: show_nat.induct)
  case (1 n)
  show ?case
  proof (cases "n < 10")
    case True
    with 1(2) show ?thesis
      using digit_char_positive [of n] by (simp add: show_nat.simps [of n] positive_decimal_def)
  next
    case False
    then have "0 < n div 10" by simp
    with False 1(1) show ?thesis
      by (simp add: show_nat.simps [of n] positive_decimal_snoc)
  qed
qed

lemma canonical_decimal_show [simp]: "canonical_decimal (show_nat n)"
proof (cases "n = 0")
  case True
  then show ?thesis
    by (simp add: show_nat.simps [of 0] canonical_decimal_def digit_char_def digits_def)
next
  case False
  then show ?thesis by (simp add: canonical_decimal_def positive_decimal_show)
qed

lemma positive_decimal_only: "positive_decimal s \<Longrightarrow> only digits s"
  by (auto simp: positive_decimal_def digits_def split: list.splits)

lemma canonical_decimal_only: "canonical_decimal s \<Longrightarrow> only digits s"
  using positive_decimal_only [of s] by (auto simp: canonical_decimal_def digits_def)

lemma positive_decimal_read: "positive_decimal s \<Longrightarrow> 0 < read_nat s"
proof (induction s rule: rev_induct)
  case Nil
  then show ?case by (simp add: positive_decimal_def)
next
  case (snoc c s)
  show ?case
  proof (cases s)
    case Nil
    with snoc.prems show ?thesis
      by (auto simp: positive_decimal_def read_nat_def char_digit_def)
  next
    case (Cons a as)
    with snoc.prems have "positive_decimal s" by (auto simp: positive_decimal_def)
    with snoc.IH show ?thesis by simp
  qed
qed

lemma show_nat_read_positive: "positive_decimal s \<Longrightarrow> show_nat (read_nat s) = s"
proof (induction s rule: rev_induct)
  case Nil
  then show ?case by (simp add: positive_decimal_def)
next
  case (snoc c s)
  show ?case
  proof (cases s)
    case Nil
    with snoc.prems have "c \<in> set digits" "c \<in> set ''123456789''"
      by (auto simp: positive_decimal_def digits_def)
    with Nil show ?thesis
      by (simp add: read_nat_def show_nat.simps [of "char_digit c"])
  next
    case (Cons a as)
    with snoc.prems have s: "positive_decimal s" and c: "c \<in> set digits"
      by (auto simp: positive_decimal_def)
    have big: "\<not> 10 * read_nat s + char_digit c < 10"
      using positive_decimal_read [OF s] by simp
    have "show_nat (read_nat (s @ [c])) = show_nat (read_nat s) @ [c]"
      using big c by (simp add: show_nat.simps [of "10 * read_nat s + char_digit c"])
    with snoc.IH [OF s] show ?thesis by simp
  qed
qed

lemma show_zero: "show_nat 0 = ''0''"
  by (simp add: show_nat.simps [of 0] digit_char_def digits_def)

lemma read_zero: "read_nat ''0'' = 0"
  by (simp add: read_nat_def char_digit_def)

lemma show_nat_read: "canonical_decimal s \<Longrightarrow> show_nat (read_nat s) = s"
  using show_nat_read_positive [of s]
  by (auto simp: canonical_decimal_def show_zero read_zero)

end
