(* ===== verification/Tclk.thy ===== *)
theory Tclk
  imports Desk_Prelude
begin

text \<open>
  The surface of \<open>@flop-labs/tclk\<close> that the desk uses. The library is a git
  submodule (\<open>vendor/tclk\<close>) whose files are not part of the repository, so nothing
  of it is defined here: its frames, records and contract states are records with the fields the
  desk reads, and its functions are the fields of the record \<open>tclk\<close>, an argument of
  every definition that calls them. A function that can throw returns an option. Status, role and
  lock kind are strings, as on the wire, so nothing is assumed about values the desk does not
  name. \<open>tclk_rails_ok\<close> and \<open>tclk_lock_ok\<close> state documented
  behaviour of the library that some theorems rest on.
\<close>

section \<open>Frames and records\<close>

record job =
  job_proto :: string
  job_id :: jsval
  job_context :: jsval

record offer_frame =
  of_id :: string
  of_from :: string
  of_role :: string
  of_lock :: string
  of_asset :: string
  of_amount :: string
  of_rails :: "string list"
  of_claimByMs :: int
  of_refundAfterMs :: int
  of_expiresMs :: int
  of_job :: "job option"

record accept_core =
  core_from :: string
  core_ref :: string
  core_statement :: string
  core_paymentKey :: "string option"
  core_nonce :: string

record accept_frame = accept_core +
  ac_contract :: string

datatype tclk_frame =
    OfferF offer_frame
  | AcceptF accept_frame
  | LockF string string
  | ReceiptF string "string option"
  | OtherF string

text \<open>A lock or receipt frame keeps its sender and its rail, any other frame its sender.\<close>

fun frame_from :: "tclk_frame \<Rightarrow> string" where
  "frame_from (OfferF f) = of_from f"
| "frame_from (AcceptF f) = core_from f"
| "frame_from (LockF from rail) = from"
| "frame_from (ReceiptF from rail) = from"
| "frame_from (OtherF from) = from"

record transcript_record =
  tr_room :: string
  tr_seq :: int
  tr_timestampMs :: int
  tr_sender :: string
  tr_nonce :: "string option"
  tr_signature :: "string option"
  tr_line :: string

record lock_terms =
  lt_contract :: string
  lt_lock :: string
  lt_statement :: string
  lt_amount :: string
  lt_asset :: string
  lt_payer :: string
  lt_payee :: string
  lt_claimByMs :: int
  lt_refundAfterMs :: int

section \<open>Contract states and folds\<close>

record contract_state =
  st_offer :: offer_frame
  st_status :: string
  st_contract :: "string option"
  st_statement :: "string option"
  st_payerDid :: "string option"
  st_payeeDid :: "string option"
  st_rail :: "string option"
  st_railRef :: "string option"
  st_secret :: "string option"

record fold_step =
  step_index :: nat
  step_seq :: int
  step_type :: string
  step_ok :: bool
  step_reason :: "string option"

record fold_result =
  fold_state :: "contract_state option"
  fold_steps :: "fold_step list"

record paper_record =
  pr_status :: string
  pr_lock :: string
  pr_statement :: string
  pr_refundAfterMs :: int
  pr_secret :: "string option"

section \<open>The library's functions\<close>

record tclk =
  normalizeRailId :: "string \<Rightarrow> string option"
  contractId :: "offer_frame \<Rightarrow> accept_core \<Rightarrow> string option"
  foldTranscript :: "transcript_record list \<Rightarrow> fold_result"
  lockTerms :: "contract_state \<Rightarrow> lock_terms option"
  dealRoom :: "string \<Rightarrow> string option"
  OFFER_ROOM :: string
  MAX_FRAME_CHARS :: nat
  tryDecodeFrame :: "string \<Rightarrow> tclk_frame option"
  verifyTranscriptRecord :: "transcript_record \<Rightarrow> bool"
  decodePaperRecord :: "string \<Rightarrow> paper_record option"
  verifySecret :: "string \<Rightarrow> string \<Rightarrow> string \<Rightarrow> bool"
  verifyHashPreimage :: "string \<Rightarrow> string \<Rightarrow> bool"
  sha256_text :: "string \<Rightarrow> string"

text \<open>
  \<open>sha256_text\<close> is \<open>bytesToHex(sha256(new TextEncoder().encode(text)))\<close> of
  the hash library, 64 lowercase hex digits.
\<close>

text \<open>
  Documented behaviour of the closed rail registry: a canonical id normalizes to itself, is not
  empty and is made of lowercase letters, digits, dots and dashes.
\<close>

definition rail_chars :: string where
  "rail_chars = ''abcdefghijklmnopqrstuvwxyz0123456789.-''"

definition tclk_rails_ok :: "tclk \<Rightarrow> bool" where
  "tclk_rails_ok T \<longleftrightarrow>
     (\<forall>r r'. normalizeRailId T r = Some r' \<longrightarrow>
        normalizeRailId T r' = Some r' \<and> r' \<noteq> [] \<and> only rail_chars r')"

lemma tclk_rails_okD:
  assumes "tclk_rails_ok T" "normalizeRailId T r = Some r'"
  shows "normalizeRailId T r' = Some r'" "r' \<noteq> []" "only rail_chars r'"
    "CHR ''|'' \<notin> set r'" "CHR '' '' \<notin> set r'"
proof -
  show a: "normalizeRailId T r' = Some r'" and "r' \<noteq> []" and o: "only rail_chars r'"
    using assms by (auto simp: tclk_rails_ok_def)
  show "CHR ''|'' \<notin> set r'" "CHR '' '' \<notin> set r'"
    using only_notin [OF o] by (auto simp: rail_chars_def)
qed

text \<open>
  Documented behaviour of \<open>lockTerms\<close>: it is defined on every state that an accept
  has reached (the machine then knows the contract id and both parties).
\<close>

definition past_accept :: "contract_state \<Rightarrow> bool" where
  "past_accept s \<longleftrightarrow>
     st_status s \<in> {''accepted'', ''locked'', ''claimed'', ''refunded''}"

definition tclk_lock_ok :: "tclk \<Rightarrow> bool" where
  "tclk_lock_ok T \<longleftrightarrow>
     (\<forall>rs s. fold_state (foldTranscript T rs) = Some s \<longrightarrow> past_accept s \<longrightarrow> lockTerms T s \<noteq> None)"

end
