(* ===== verification/Custom_Rails.thy ===== *)
theory Custom_Rails
  imports Tclk
begin

text \<open>
  \<open>src/rails/custom-rails.ts\<close> and \<open>src/rails/pin-text.ts\<close>. A registry of
  owner-namespaced rail ids is a value its caller builds and owns; what it admits is fixed when it
  is built. Here it is the association list of the ids and their CAIP-2 namespaces in
  configuration order, the content of the closure's private map.
\<close>

section \<open>Rail ids\<close>

definition SOL_RAIL_ID :: string where
  "SOL_RAIL_ID = ''trustcore.sol-htlc-v1''"

definition SOL_NAMESPACE :: string where
  "SOL_NAMESPACE = ''solana''"

definition lower :: string where
  "lower = ''abcdefghijklmnopqrstuvwxyz''"

text \<open>
  \<open>/^[a-z][a-z0-9]{1,31}\.[a-z][a-z0-9]*(?:-[a-z0-9]+)*-v[1-9][0-9]{0,3}$/\<close>. Only the
  separators of the pattern are dots or dashes, so the owner is the part before the one dot and
  the version is the last dash-separated segment of the name.
\<close>

definition version_segment :: "string \<Rightarrow> bool" where
  "version_segment s \<longleftrightarrow>
     (case s of [] \<Rightarrow> False
      | c # cs \<Rightarrow> c = CHR ''v'' \<and> positive_decimal cs \<and> length cs \<le> 4)"

definition name_segments :: "string list \<Rightarrow> bool" where
  "name_segments ps \<longleftrightarrow>
     2 \<le> length ps \<and> version_segment (last ps)
     \<and> hd ps \<noteq> [] \<and> hd (hd ps) \<in> set lower
     \<and> list_all (\<lambda>p. p \<noteq> [] \<and> only lower_alnum p) (butlast ps)"

definition CUSTOM_RAIL_ID :: "string \<Rightarrow> bool" where
  "CUSTOM_RAIL_ID s \<longleftrightarrow>
     (case split_on (CHR ''.'') s of
        [owner, name] \<Rightarrow>
          run_of lower_alnum 2 32 owner \<and> hd owner \<in> set lower
          \<and> name_segments (split_on (CHR ''-'') name)
      | _ \<Rightarrow> False)"

definition NAMESPACE_SHAPE :: "string \<Rightarrow> bool" where
  "NAMESPACE_SHAPE s \<longleftrightarrow> run_of (CHR ''-'' # lower_alnum) 3 8 s"

section \<open>Registries\<close>

type_synonym registry = "(string \<times> string) list"

record custom_rail_spec =
  spec_id :: jsval
  spec_namespace :: jsval

datatype rails_error =
    MalformedRailId jsval
  | MissingNamespace string
  | KnownToTclk string
  | DuplicateRailId string
  | UnregisteredRail string
  | NotAdmitted string

definition reg_has :: "registry \<Rightarrow> string \<Rightarrow> bool" where
  "reg_has R i \<longleftrightarrow> i \<in> set (map fst R)"

definition reg_namespaceOf :: "registry \<Rightarrow> string \<Rightarrow> string option" where
  "reg_namespaceOf R i = map_of R i"

definition reg_ids :: "registry \<Rightarrow> string list" where
  "reg_ids R = map fst R"

definition tclkKnows :: "tclk \<Rightarrow> string \<Rightarrow> bool" where
  "tclkKnows T i \<longleftrightarrow> normalizeRailId T i \<noteq> None"

text \<open>The loop of \<open>createCustomRailRegistry\<close>: one spec is checked against the
  map built so far and appended to it.\<close>

definition add_spec :: "tclk \<Rightarrow> registry \<Rightarrow> custom_rail_spec \<Rightarrow> (rails_error, registry) result" where
  "add_spec T byId spec =
     (case spec_id spec of
        Str i \<Rightarrow>
          if \<not> CUSTOM_RAIL_ID i then Inl (MalformedRailId (Str i))
          else (case spec_namespace spec of
                  Str ns \<Rightarrow>
                    if \<not> NAMESPACE_SHAPE ns then Inl (MissingNamespace i)
                    else if tclkKnows T i then Inl (KnownToTclk i)
                    else if reg_has byId i then Inl (DuplicateRailId i)
                    else Inr (byId @ [(i, ns)])
                | _ \<Rightarrow> Inl (MissingNamespace i))
      | v \<Rightarrow> Inl (MalformedRailId v))"

fun add_specs :: "tclk \<Rightarrow> registry \<Rightarrow> custom_rail_spec list \<Rightarrow> (rails_error, registry) result" where
  "add_specs T byId [] = Inr byId"
| "add_specs T byId (spec # specs) = bind_res (add_spec T byId spec) (\<lambda>m. add_specs T m specs)"

definition createCustomRailRegistry :: "tclk \<Rightarrow> custom_rail_spec list \<Rightarrow> (rails_error, registry) result" where
  "createCustomRailRegistry T specs = add_specs T [] specs"

definition createSolRailRegistry :: "tclk \<Rightarrow> (rails_error, registry) result" where
  "createSolRailRegistry T =
     createCustomRailRegistry T
       [\<lparr>spec_id = Str SOL_RAIL_ID, spec_namespace = Str SOL_NAMESPACE\<rparr>]"

definition normalizeRailIdWith :: "tclk \<Rightarrow> registry option \<Rightarrow> string \<Rightarrow> string option" where
  "normalizeRailIdWith T R v =
     (case R of
        Some reg \<Rightarrow> if reg_has reg v then Some v else normalizeRailId T v
      | None \<Rightarrow> normalizeRailId T v)"

definition requireAdmittedRailId :: "string \<Rightarrow> registry \<Rightarrow> (rails_error, string) result" where
  "requireAdmittedRailId i R = (if \<not> reg_has R i then Inl (NotAdmitted i) else Inr i)"

section \<open>What a registry built by the desk admits\<close>

definition registry_ok :: "tclk \<Rightarrow> registry \<Rightarrow> bool" where
  "registry_ok T R \<longleftrightarrow>
     distinct (map fst R)
     \<and> list_all (\<lambda>(i, ns). CUSTOM_RAIL_ID i \<and> NAMESPACE_SHAPE ns \<and> \<not> tclkKnows T i) R"

definition registry_opt_ok :: "tclk \<Rightarrow> registry option \<Rightarrow> bool" where
  "registry_opt_ok T R \<longleftrightarrow> (case R of None \<Rightarrow> True | Some reg \<Rightarrow> registry_ok T reg)"

lemma add_spec_ok: "add_spec T R s = Inr R' \<Longrightarrow> registry_ok T R \<Longrightarrow> registry_ok T R'"
  by (auto simp: add_spec_def registry_ok_def reg_has_def split: jsval.splits if_splits)

lemma add_specs_ok: "add_specs T R ss = Inr R' \<Longrightarrow> registry_ok T R \<Longrightarrow> registry_ok T R'"
  by (induction T R ss rule: add_specs.induct) (auto simp: result_simps dest: add_spec_ok)

lemma createCustomRailRegistry_ok: "createCustomRailRegistry T ss = Inr R \<Longrightarrow> registry_ok T R"
  unfolding createCustomRailRegistry_def
  by (erule add_specs_ok) (simp add: registry_ok_def)

lemma registry_ok_unknown: "registry_ok T R \<Longrightarrow> reg_has R i \<Longrightarrow> normalizeRailId T i = None"
  by (auto simp: registry_ok_def reg_has_def list_all_iff tclkKnows_def)

lemma registry_ok_custom: "registry_ok T R \<Longrightarrow> reg_has R i \<Longrightarrow> CUSTOM_RAIL_ID i"
  by (auto simp: registry_ok_def reg_has_def list_all_iff)

lemma version_segment_chars: "version_segment s \<Longrightarrow> only lower_alnum s"
  using only_mono [OF positive_decimal_only, of "tl s" lower_alnum]
  by (cases s) (auto simp: version_segment_def lower_alnum_def digits_def)

lemma only_join:
  "\<forall>p \<in> set ps. only cls p \<Longrightarrow> d \<in> set cls \<Longrightarrow> only cls (join_with d ps)"
  by (induction d ps rule: join_with.induct) auto

lemma name_segments_chars:
  assumes "name_segments ps"
  shows "only rail_chars (join_with (CHR ''-'') ps)"
proof (rule only_join)
  show "\<forall>p \<in> set ps. only rail_chars p"
  proof
    fix p assume "p \<in> set ps"
    then have "p \<in> set (butlast ps) \<or> p = last ps"
      by (metis append_butlast_last_id in_set_conv_decomp list.distinct(1) list.set_cases
          rotate1.simps(2) set_ConsD set_rotate1)
    then have "only lower_alnum p"
      using assms version_segment_chars by (auto simp: name_segments_def list_all_iff)
    then show "only rail_chars p"
      by (rule only_mono) (auto simp: lower_alnum_def rail_chars_def)
  qed
qed (simp add: rail_chars_def)

lemma custom_rail_id_chars: "CUSTOM_RAIL_ID s \<Longrightarrow> only rail_chars s \<and> s \<noteq> []"
proof -
  assume c: "CUSTOM_RAIL_ID s"
  then obtain owner name where sp: "split_on (CHR ''.'') s = [owner, name]"
    and o: "run_of lower_alnum 2 32 owner" and n: "name_segments (split_on (CHR ''-'') name)"
    by (auto simp: CUSTOM_RAIL_ID_def split: list.splits)
  have s: "s = owner @ CHR ''.'' # name"
    using join_split [of "CHR ''.''" s] by (simp add: sp)
  have "only rail_chars owner"
    by (rule only_mono [of lower_alnum]) (use o in \<open>auto simp: run_of_def lower_alnum_def rail_chars_def\<close>)
  moreover have "only rail_chars name"
    using name_segments_chars [OF n] by simp
  ultimately show ?thesis using s by (simp add: rail_chars_def)
qed

text \<open>With a registry the desk built, normalization keeps the laws of tclk's closed one.\<close>

lemma normalizeRailIdWith_laws:
  assumes "tclk_rails_ok T" "registry_opt_ok T R" "normalizeRailIdWith T R v = Some r"
  shows "normalizeRailIdWith T R r = Some r" "r \<noteq> []" "only rail_chars r"
    "CHR ''|'' \<notin> set r" "CHR '' '' \<notin> set r"
proof -
  have k: "normalizeRailIdWith T R r = Some r \<and> r \<noteq> [] \<and> only rail_chars r"
  proof (cases "\<exists>reg. R = Some reg \<and> reg_has reg v")
    case True
    then show ?thesis
      using assms registry_ok_custom custom_rail_id_chars
      by (auto simp: normalizeRailIdWith_def registry_opt_ok_def)
  next
    case False
    then have n: "normalizeRailId T v = Some r"
      using assms(3) by (auto simp: normalizeRailIdWith_def split: option.splits if_splits)
    then show ?thesis
      using tclk_rails_okD [OF assms(1) n] by (auto simp: normalizeRailIdWith_def split: option.splits)
  qed
  then show "normalizeRailIdWith T R r = Some r" "r \<noteq> []" and o: "only rail_chars r" by auto
  show "CHR ''|'' \<notin> set r" "CHR '' '' \<notin> set r"
    using only_notin [OF o] by (auto simp: rail_chars_def)
qed

section \<open>Quoting configured text in a refusal\<close>

text \<open>
  \<open>pin-text.ts\<close>: a refusal quotes a configured text only when it is short plain text;
  otherwise it prints a fixed sentence that holds no byte of the value.
\<close>

definition PIN_TEXT_SHAPE :: "string \<Rightarrow> bool" where
  "PIN_TEXT_SHAPE s \<longleftrightarrow> run_of (''_.:-'' @ alnum) 1 40 s"

definition ASSET_NAME_SHAPE :: "string \<Rightarrow> bool" where
  "ASSET_NAME_SHAPE s \<longleftrightarrow> run_of (''_-'' @ alnum) 1 32 s"

definition PINNED_VALUE_SHAPE :: "string \<Rightarrow> bool" where
  "PINNED_VALUE_SHAPE s \<longleftrightarrow> run_of alnum 16 128 s"

definition UNPLAIN_PIN_TEXT :: string where
  "UNPLAIN_PIN_TEXT = ''a pin name (or caip2) that is not a short plain text''"

definition UNPLAIN_ASSET_NAME :: string where
  "UNPLAIN_ASSET_NAME = ''an asset whose name is not a short plain name''"

definition UNPLAIN_PINNED_VALUE :: string where
  "UNPLAIN_PINNED_VALUE = ''a pinned value that is not a hash''"

definition quote :: char where
  "quote = CHR 0x22"

definition quotedAssetNameOrPlaceholder :: "jsval \<Rightarrow> string" where
  "quotedAssetNameOrPlaceholder v =
     (case v of Str s \<Rightarrow> if ASSET_NAME_SHAPE s then [quote] @ s @ [quote] else UNPLAIN_ASSET_NAME
      | _ \<Rightarrow> UNPLAIN_ASSET_NAME)"

definition quotedPinText :: "jsval \<Rightarrow> string option" where
  "quotedPinText v =
     (case v of Str s \<Rightarrow> if PIN_TEXT_SHAPE s then Some ([quote] @ s @ [quote]) else None
      | _ \<Rightarrow> None)"

definition quotedPinTextOrPlaceholder :: "jsval \<Rightarrow> string" where
  "quotedPinTextOrPlaceholder v =
     (case quotedPinText v of Some t \<Rightarrow> t | None \<Rightarrow> UNPLAIN_PIN_TEXT)"

definition shortPinnedValue :: "jsval \<Rightarrow> string" where
  "shortPinnedValue v =
     (case v of
        Str s \<Rightarrow> if PINNED_VALUE_SHAPE s then [quote] @ take 8 s @ ''...'' @ [quote] else UNPLAIN_PINNED_VALUE
      | _ \<Rightarrow> UNPLAIN_PINNED_VALUE)"

end
