(* ===== verification/Profile.thy ===== *)
theory Profile
  imports Custom_Rails
begin

text \<open>
  \<open>src/profile.ts\<close> and the profile part of \<open>src/types.ts\<close>: how the signed
  \<open>offer.job\<close> field declares an offer one leg of a swap. The two context grammars are
  printers that may throw and parsers that answer null, related by the interface
  \<open>wire_format\<close>, which the account lines, the proof fields and the NEAR references use
  as well.
\<close>

section \<open>The interface of a wire format\<close>

text \<open>
  A printer \<open>fmt\<close> that may refuse, a parser \<open>prs\<close> that answers
  \<open>None\<close> on anything else, and \<open>view\<close>, what the parser recovers of the printed
  value. \<open>ok\<close> is what the format relies on in its environment.
\<close>

locale wire_format =
  fixes ok :: "'c \<Rightarrow> bool"
    and fmt :: "'c \<Rightarrow> 'a \<Rightarrow> ('e, string) result"
    and prs :: "'c \<Rightarrow> string \<Rightarrow> 'b option"
    and view :: "'c \<Rightarrow> 'a \<Rightarrow> 'b"
  assumes parse_format: "ok c \<Longrightarrow> fmt c x = Inr s \<Longrightarrow> prs c s = Some (view c x)"
begin

lemma format_view_eq:
  "ok c \<Longrightarrow> fmt c x = Inr s \<Longrightarrow> fmt c y = Inr s \<Longrightarrow> view c x = view c y"
  by (metis option.inject parse_format)

lemma format_distinct:
  "ok c \<Longrightarrow> fmt c x = Inr s \<Longrightarrow> fmt c y = Inr t \<Longrightarrow> view c x \<noteq> view c y \<Longrightarrow> s \<noteq> t"
  using format_view_eq by blast

lemma format_never_rejected: "ok c \<Longrightarrow> prs c s = None \<Longrightarrow> fmt c x \<noteq> Inr s"
  using parse_format by fastforce

end

section \<open>Constants and grammars\<close>

definition SWAP_PROTO :: string where
  "SWAP_PROTO = ''swap''"

definition SWAP_ID_DOMAIN :: string where
  "SWAP_ID_DOMAIN = ''FLOP::swap::v1''"

definition FLOP_ASSET :: string where
  "FLOP_ASSET = ''FLOP''"

definition FLOP_RAIL :: string where
  "FLOP_RAIL = ''flop-htlc''"

definition FEE_BPS_MAX :: int where
  "FEE_BPS_MAX = 10000"

definition FEE_BPS_PATTERN :: "string \<Rightarrow> bool" where
  "FEE_BPS_PATTERN s \<longleftrightarrow>
     s = ''0'' \<or> (positive_decimal s \<and> length s \<le> 4) \<or> s = ''10000''"

definition DID :: "string \<Rightarrow> bool" where
  "DID s \<longleftrightarrow>
     length s = 56 \<and> take 12 s = ''did:key:z6Mk'' \<and> only base58_chars (drop 12 s)"

definition AMOUNT :: "string \<Rightarrow> bool" where
  "AMOUNT s \<longleftrightarrow> positive_decimal s"

definition ASSET :: "string \<Rightarrow> bool" where
  "ASSET s \<longleftrightarrow> run_of (''_-'' @ alnum) 1 32 s"

definition NONCE :: "string \<Rightarrow> bool" where
  "NONCE s \<longleftrightarrow> run_of lower_hex 8 64 s"

text \<open>The fields of a context without its \<open>leg\<close> tag, which is the constructor.\<close>

record leg_a_context =
  wantAsset :: string
  wantAmount :: string
  wantRail :: string
  feeBps :: int

record leg_b_context =
  legAOfferId :: string

datatype swap_context = CtxA leg_a_context | CtxB leg_b_context

datatype profile_error =
    BuyerNotDid
  | NonceNotHex
  | WantAssetBad
  | WantAmountBad
  | WantRailUnregistered
  | FeeBpsBad
  | LegAOfferIdBad

section \<open>Swap ids\<close>

definition swap_id_preimage :: "string \<Rightarrow> string \<Rightarrow> string" where
  "swap_id_preimage buyerDid nonce = join_with (CHR ''|'') [SWAP_ID_DOMAIN, buyerDid, nonce]"

definition swapId :: "tclk \<Rightarrow> string \<Rightarrow> string \<Rightarrow> (profile_error, string) result" where
  "swapId T buyerDid nonce =
     (if \<not> DID buyerDid then Inl BuyerNotDid
      else if \<not> NONCE nonce then Inl NonceNotHex
      else Inr (''0x'' @ sha256_text T (swap_id_preimage buyerDid nonce)))"

definition isSwapId :: "jsval \<Rightarrow> bool" where
  "isSwapId v = (case v of Str s \<Rightarrow> hex32 s | _ \<Rightarrow> False)"

section \<open>Contexts\<close>

text \<open>The argument of \<open>legAContext\<close>: the fee is optional and any number.\<close>

record leg_a_want =
  w_asset :: string
  w_amount :: string
  w_rail :: string
  w_feeBps :: "jsnum option"

definition fee_of_want :: "leg_a_want \<Rightarrow> jsnum" where
  "fee_of_want w = (case w_feeBps w of None \<Rightarrow> int_jsnum 0 | Some x \<Rightarrow> x)"

definition legAContext :: "tclk \<Rightarrow> leg_a_want \<Rightarrow> (profile_error, string) result" where
  "legAContext T w =
     (if \<not> ASSET (w_asset w) then Inl WantAssetBad
      else if \<not> AMOUNT (w_amount w) then Inl WantAmountBad
      else (case normalizeRailId T (w_rail w) of
              None \<Rightarrow> Inl WantRailUnregistered
            | Some rail \<Rightarrow>
                (case jsnum_int (fee_of_want w) of
                   None \<Rightarrow> Inl FeeBpsBad
                 | Some fee \<Rightarrow>
                     if fee < 0 \<or> FEE_BPS_MAX < fee then Inl FeeBpsBad
                     else Inr (join_with (CHR ''|'')
                            [''a'', w_asset w, w_amount w, rail, show_nat (nat fee)]))))"

definition legBContext :: "string \<Rightarrow> (profile_error, string) result" where
  "legBContext i = (if \<not> hex32 i then Inl LegAOfferIdBad else Inr (join_with (CHR ''|'') [''b'', i]))"

definition parse_leg_a :: "tclk \<Rightarrow> string \<Rightarrow> string \<Rightarrow> string \<Rightarrow> string option \<Rightarrow> leg_a_context option" where
  "parse_leg_a T asset amount rail fee =
     (if \<not> ASSET asset \<or> \<not> AMOUNT amount then None
      else (case normalizeRailId T rail of
              None \<Rightarrow> None
            | Some r \<Rightarrow>
                if r \<noteq> rail then None
                else (case fee of
                        None \<Rightarrow> Some \<lparr>wantAsset = asset, wantAmount = amount, wantRail = r, feeBps = 0\<rparr>
                      | Some f \<Rightarrow>
                          if \<not> FEE_BPS_PATTERN f then None
                          else Some \<lparr>wantAsset = asset, wantAmount = amount, wantRail = r,
                                      feeBps = int (read_nat f)\<rparr>)))"

definition parse_context_parts :: "tclk \<Rightarrow> string list \<Rightarrow> swap_context option" where
  "parse_context_parts T parts =
     (case parts of
        [tag, x] \<Rightarrow>
          if tag = ''b'' \<and> hex32 x then Some (CtxB \<lparr>legAOfferId = x\<rparr>) else None
      | [tag, asset, amount, rail] \<Rightarrow>
          if tag = ''a'' then map_option CtxA (parse_leg_a T asset amount rail None) else None
      | [tag, asset, amount, rail, fee] \<Rightarrow>
          if tag = ''a'' then map_option CtxA (parse_leg_a T asset amount rail (Some fee)) else None
      | _ \<Rightarrow> None)"

definition parseSwapContext :: "tclk \<Rightarrow> jsval \<Rightarrow> swap_context option" where
  "parseSwapContext T v =
     (case v of Str s \<Rightarrow> parse_context_parts T (split_on (CHR ''|'') s) | _ \<Rightarrow> None)"

definition parse_context_text :: "tclk \<Rightarrow> string \<Rightarrow> swap_context option" where
  "parse_context_text T s = parseSwapContext T (Str s)"

section \<open>Classifying and orienting an offer\<close>

definition classifySwapOffer :: "tclk \<Rightarrow> offer_frame \<Rightarrow> (string \<times> swap_context) option" where
  "classifySwapOffer T offer =
     (case of_job offer of
        None \<Rightarrow> None
      | Some job \<Rightarrow>
          if job_proto job \<noteq> SWAP_PROTO \<or> \<not> isSwapId (job_id job) then None
          else (case parseSwapContext T (job_context job) of
                  None \<Rightarrow> None
                | Some context \<Rightarrow>
                    (case job_id job of Str i \<Rightarrow> Some (i, context) | _ \<Rightarrow> None)))"

datatype orientation_reason =
    NotOpenedByPayer string
  | HashLocksOnly
  | OfferRailUnregistered
  | LegAPaysFlop
  | LegASettlesOnFlop
  | LegAWantsRail string
  | LegBPaysAsset string
  | LegBWithoutFlopRail
  | LegBAssetNotWanted string string
  | LegBAmountNotWanted string string
  | LegBRailUnregistered
  | LegBRailNotWanted "string list" string

text \<open>\<open>OrientationVerdict\<close>: \<open>None\<close> is \<open>{ ok: true }\<close>.\<close>

type_synonym verdict = "orientation_reason option"

text \<open>\<open>rails.map(f)\<close> for an \<open>f\<close> that may throw.\<close>

fun map_rails :: "(string \<Rightarrow> string option) \<Rightarrow> string list \<Rightarrow> string list option" where
  "map_rails f [] = Some []"
| "map_rails f (r # rs) =
     (case f r of None \<Rightarrow> None | Some x \<Rightarrow> map_option (Cons x) (map_rails f rs))"

definition checkOrientation :: "tclk \<Rightarrow> offer_frame \<Rightarrow> swap_context \<Rightarrow> registry option \<Rightarrow> verdict" where
  "checkOrientation T offer context R =
     (if of_role offer \<noteq> ''payer'' then Some (NotOpenedByPayer (of_role offer))
      else if of_lock offer \<noteq> ''hash'' then Some HashLocksOnly
      else (case map_rails (normalizeRailIdWith T R) (of_rails offer) of
              None \<Rightarrow> Some OfferRailUnregistered
            | Some rails \<Rightarrow>
                (case context of
                   CtxA a \<Rightarrow>
                     if of_asset offer = FLOP_ASSET then Some LegAPaysFlop
                     else if FLOP_RAIL \<in> set rails then Some LegASettlesOnFlop
                     else if wantRail a \<noteq> FLOP_RAIL then Some (LegAWantsRail (wantRail a))
                     else None
                 | CtxB b \<Rightarrow>
                     if of_asset offer \<noteq> FLOP_ASSET then Some (LegBPaysAsset (of_asset offer))
                     else if FLOP_RAIL \<notin> set rails then Some LegBWithoutFlopRail
                     else None)))"

definition checkLegBMatchesWant :: "tclk \<Rightarrow> offer_frame \<Rightarrow> leg_a_context \<Rightarrow> verdict" where
  "checkLegBMatchesWant T offerB want =
     (if of_asset offerB \<noteq> wantAsset want then Some (LegBAssetNotWanted (of_asset offerB) (wantAsset want))
      else if of_amount offerB \<noteq> wantAmount want
      then Some (LegBAmountNotWanted (of_amount offerB) (wantAmount want))
      else (case map_rails (normalizeRailId T) (of_rails offerB) of
              None \<Rightarrow> Some LegBRailUnregistered
            | Some rails \<Rightarrow>
                if wantRail want \<notin> set rails then Some (LegBRailNotWanted rails (wantRail want))
                else None))"

definition SELLER_CAPABILITY_TOKEN :: string where
  "SELLER_CAPABILITY_TOKEN = ''swap1:sell-flop''"

text \<open>\<open>note.split(/\s+/)\<close>: runs of white space separate; a leading or trailing run
  leaves an empty first or last part, which no token equals.\<close>

definition js_space :: "char \<Rightarrow> bool" where
  "js_space c \<longleftrightarrow> c \<in> {CHR 0x09, CHR 0x0A, CHR 0x0B, CHR 0x0C, CHR 0x0D, CHR 0x20, CHR 0xA0}"

function split_spaces :: "string \<Rightarrow> string list" where
  "split_spaces s =
     (case dropWhile (\<lambda>c. \<not> js_space c) s of
        [] \<Rightarrow> [s]
      | c # rest \<Rightarrow> takeWhile (\<lambda>c. \<not> js_space c) s # split_spaces (dropWhile js_space rest))"
  by pat_completeness auto
termination
proof (relation "measure length")
  fix s c rest
  assume "dropWhile (\<lambda>c. \<not> js_space c) s = c # rest"
  then have "Suc (length rest) \<le> length s"
    using length_dropWhile_le [of "\<lambda>c. \<not> js_space c" s] by simp
  then show "(dropWhile js_space rest, s) \<in> measure length"
    using length_dropWhile_le [of js_space rest] by simp
qed simp

declare split_spaces.simps [simp del]

definition hasSellerCapability :: "string \<Rightarrow> bool" where
  "hasSellerCapability note \<longleftrightarrow> SELLER_CAPABILITY_TOKEN \<in> set (split_spaces note)"

section \<open>The grammars are separated cleanly\<close>

lemma ASSET_chars: "ASSET s \<Longrightarrow> CHR ''|'' \<notin> set s"
  using only_notin [of "''_-'' @ alnum" s "CHR ''|''"] by (simp add: ASSET_def run_of_def alnum_def)

lemma decimal_chars: "only digits s \<Longrightarrow> CHR ''|'' \<notin> set s \<and> CHR '' '' \<notin> set s"
  using only_notin [of digits s "CHR ''|''"] only_notin [of digits s "CHR '' ''"]
  by (simp add: digits_def)

lemma AMOUNT_chars: "AMOUNT s \<Longrightarrow> CHR ''|'' \<notin> set s"
  using decimal_chars positive_decimal_only by (auto simp: AMOUNT_def)

lemma DID_chars: "DID s \<Longrightarrow> CHR ''|'' \<notin> set s"
proof -
  assume d: "DID s"
  have "CHR ''|'' \<notin> set (drop 12 s)"
    using only_notin [of base58_chars "drop 12 s" "CHR ''|''"] d by (simp add: DID_def base58_chars_def)
  moreover have "CHR ''|'' \<notin> set (take 12 s)" using d by (simp add: DID_def)
  ultimately show ?thesis by (metis Un_iff append_take_drop_id set_append)
qed

lemma NONCE_chars: "NONCE s \<Longrightarrow> CHR ''|'' \<notin> set s"
  using only_notin [of lower_hex s "CHR ''|''"] by (simp add: NONCE_def run_of_def lower_hex_def)

lemma show_nat_length: "n < 10 ^ Suc k \<Longrightarrow> length (show_nat n) \<le> Suc k"
proof (induction k arbitrary: n)
  case 0
  then show ?case by (simp add: show_nat.simps [of n])
next
  case (Suc k)
  have "n div 10 < 10 ^ Suc k" using Suc.prems by (simp add: less_mult_imp_div_less)
  then have "length (show_nat (n div 10)) \<le> Suc k" by (rule Suc.IH)
  then show ?case by (simp add: show_nat.simps [of n])
qed

lemma fee_pattern_show:
  assumes "0 \<le> f" "f \<le> FEE_BPS_MAX"
  shows "FEE_BPS_PATTERN (show_nat (nat f))"
proof (cases "f = FEE_BPS_MAX")
  case True
  have "show_nat (read_nat ''10000'') = ''10000''"
    by (rule show_nat_read) (simp add: canonical_decimal_def positive_decimal_def digits_def)
  then have "show_nat 10000 = ''10000''" by (simp add: read_nat_def char_digit_def)
  then show ?thesis by (simp add: True FEE_BPS_MAX_def FEE_BPS_PATTERN_def)
next
  case False
  then have small: "nat f < 10000" using assms by (simp add: FEE_BPS_MAX_def)
  show ?thesis
    using canonical_decimal_show [of "nat f"] show_nat_length [of "nat f" 3] small
    by (auto simp: FEE_BPS_PATTERN_def canonical_decimal_def)
qed

lemma fee_pattern_canonical: "FEE_BPS_PATTERN s \<Longrightarrow> canonical_decimal s"
  by (auto simp: FEE_BPS_PATTERN_def canonical_decimal_def positive_decimal_def digits_def)

lemma split_join_bar [text_simps]:
  "CHR ''|'' \<notin> set a \<Longrightarrow> CHR ''|'' \<notin> set b \<Longrightarrow>
     split_on (CHR ''|'') (join_with (CHR ''|'') [a, b]) = [a, b]"
  "CHR ''|'' \<notin> set a \<Longrightarrow> CHR ''|'' \<notin> set b \<Longrightarrow> CHR ''|'' \<notin> set c \<Longrightarrow> CHR ''|'' \<notin> set d
     \<Longrightarrow> CHR ''|'' \<notin> set e \<Longrightarrow>
     split_on (CHR ''|'') (join_with (CHR ''|'') [a, b, c, d, e]) = [a, b, c, d, e]"
  using split_join [of "[a, b]" "CHR ''|''"] split_join [of "[a, b, c, d, e]" "CHR ''|''"]
  by (simp_all del: join_with.simps)

section \<open>The contexts as wire formats\<close>

text \<open>What a reader recovers of a leg A context: the rail is the normalized one.\<close>

definition view_leg_a :: "tclk \<Rightarrow> leg_a_want \<Rightarrow> swap_context" where
  "view_leg_a T w =
     CtxA \<lparr>wantAsset = w_asset w, wantAmount = w_amount w,
           wantRail = the (normalizeRailId T (w_rail w)), feeBps = the (jsnum_int (fee_of_want w))\<rparr>"

lemma legAContext_Inr:
  assumes "legAContext T w = Inr s"
  obtains rail fee where "normalizeRailId T (w_rail w) = Some rail" "jsnum_int (fee_of_want w) = Some fee"
    "ASSET (w_asset w)" "AMOUNT (w_amount w)" "0 \<le> fee" "fee \<le> FEE_BPS_MAX"
    "s = join_with (CHR ''|'') [''a'', w_asset w, w_amount w, rail, show_nat (nat fee)]"
  using assms by (auto simp: legAContext_def split: if_splits option.splits)

lemma parse_legAContext:
  assumes "tclk_rails_ok T" "legAContext T w = Inr s"
  shows "parse_context_text T s = Some (view_leg_a T w)"
proof -
  from assms(2) obtain rail fee where
    n: "normalizeRailId T (w_rail w) = Some rail" and f: "jsnum_int (fee_of_want w) = Some fee"
    and a: "ASSET (w_asset w)" "AMOUNT (w_amount w)" and r: "0 \<le> fee" "fee \<le> FEE_BPS_MAX"
    and s: "s = join_with (CHR ''|'') [''a'', w_asset w, w_amount w, rail, show_nat (nat fee)]"
    by (rule legAContext_Inr)
  have "CHR ''|'' \<notin> set (show_nat (nat fee))" using decimal_chars by simp
  then have "split_on (CHR ''|'') s = [''a'', w_asset w, w_amount w, rail, show_nat (nat fee)]"
    unfolding s
    by (intro split_join_bar(2) tclk_rails_okD(4) [OF assms(1) n] ASSET_chars [OF a(1)] AMOUNT_chars [OF a(2)])
      simp_all
  then show ?thesis
    using tclk_rails_okD [OF assms(1) n] a fee_pattern_show [OF r] n f r
    by (simp add: parse_context_text_def parseSwapContext_def parse_context_parts_def parse_leg_a_def
        view_leg_a_def)
qed

interpretation leg_a_wire: wire_format tclk_rails_ok legAContext parse_context_text view_leg_a
  by unfold_locales (rule parse_legAContext)

interpretation leg_b_wire: wire_format "\<lambda>_. True" "\<lambda>_. legBContext" parse_context_text
  "\<lambda>_ i. CtxB \<lparr>legAOfferId = i\<rparr>"
  by unfold_locales
    (auto simp: legBContext_def parse_context_text_def parseSwapContext_def parse_context_parts_def
      text_simps shape_simps split: if_splits)

end
