(* ===== verification/Desk_Types.thy ===== *)
theory Desk_Types
  imports Profile
begin

text \<open>
  \<open>src/types.ts\<close>: the shapes shared by the fold, the board and the evidence readers.
  Every message the desk pushes into \<open>reasons\<close> is one constructor of \<open>reason\<close>
  carrying the values the message interpolates; the messages of the source are pairwise
  different texts, so two reasons are equal exactly when their texts are.
\<close>

section \<open>Statuses\<close>

datatype swap_status =
    Bid
  | Accepted
  | Paired
  | BLocked
  | ALocked
  | Revealed
  | Settled
  | RefundedA
  | RefundedB
  | Refunded
  | Abandoned
  | Unpaired
  | OrientationUnsupported

definition SWAP_TERMINAL_STATUSES :: "swap_status set" where
  "SWAP_TERMINAL_STATUSES = {Settled, Refunded, Abandoned, Unpaired, OrientationUnsupported}"

datatype settlement_view = SvNone | SvUnverified | SvUnfunded | SvFunded | SvClaimed | SvRefunded

datatype rail_status = RLocked | RClaimed | RRefunded

section \<open>Evidence\<close>

record lock_evidence =
  le_rail :: string
  le_ref :: string
  le_terms :: lock_terms
  le_railVerified :: "bool option"
  le_checkedAtMs :: int
  le_finalizedRef :: "string option"
  le_endpoint :: "string option"
  le_reason :: "string option"
  le_raw :: "string list option"

text \<open>The binding fields are options: the fold checks at run time that they are there. A field
  that is there with another type than the declared one is \<open>None\<close>.\<close>

record rail_observation =
  ob_status :: rail_status
  ob_final :: bool
  ob_checkedAtMs :: int
  ob_finalizedRef :: "string option"
  ob_transitionAtMs :: "int option"
  ob_rail :: "string option"
  ob_ref :: "string option"
  ob_contract :: "string option"
  ob_terms :: "lock_terms option"

record swap_evidence =
  ev_a :: "lock_evidence option"
  ev_b :: "lock_evidence option"
  ev_aRail :: "rail_observation option"
  ev_bRail :: "rail_observation option"

definition no_evidence :: swap_evidence where
  "no_evidence = \<lparr>ev_a = None, ev_b = None, ev_aRail = None, ev_bRail = None\<rparr>"

record leg_evidence =
  lg_lock :: lock_evidence
  lg_rail :: "rail_observation option"

text \<open>\<open>railBinding\<close>: the four binding fields, copied from the evidence of the same
  reader.\<close>

definition railBinding :: "string \<Rightarrow> string \<Rightarrow> lock_terms \<Rightarrow> rail_observation \<Rightarrow> rail_observation" where
  "railBinding rail ref terms ob =
     ob\<lparr>ob_rail := Some rail, ob_ref := Some ref, ob_contract := Some (lt_contract terms),
        ob_terms := Some terms\<rparr>"

section \<open>Reasons\<close>

datatype leg_label = LegA | LegB

datatype terms_field =
  FContract | FLock | FStatement | FAmount | FAsset | FPayer | FPayee | FClaimByMs | FRefundAfterMs

datatype binding_refusal =
    NoBinding
  | NoAcceptedLock
  | NoAcceptedPair
  | RailDiffers
  | RefDiffers
  | ContractDiffers
  | TermsDiffer terms_field

datatype reason =
    StepRejected leg_label int "string option"
  | ObservationIgnored leg_label binding_refusal
  | PaperRehearsal
  | LegANotOpen
  | OfferNotSwapLeg leg_label
  | OfferWrongContext leg_label
  | Unsupported orientation_reason
  | LegCancelled leg_label
  | LegARefundedNoLegB
  | LegAAdvancedNoLegB
  | SwapIdMismatch
  | ContextNamesOtherOffer
  | LegBBeforeAccept
  | LegBNotAccepted
  | PartiesMissing
  | PartiesDoNotCross
  | StatementsDiffer
  | LockOrderViolated
  | RefundFrameUncorroborated leg_label
  | RefundFrameConflicts leg_label rail_status bool
  | LegAClaimedRevealNotRecorded
  | LegARefundedAfterBClaimed
  | LegARefundedLegBClaimedUnproven
  | AwaitingFinality
  | SecretRevealedOnLegB
  | LegBNeverLocked
  | LegANeverLocked
  | LockUnverified leg_label
  | LockEvidenceOtherRailRef leg_label
  | LockTermsDiffer leg_label terms_field
  | SharedSwapId string nat

text \<open>\<open>CoordinationOnlyFlag\<close>: the basis is always the same text.\<close>

datatype coordination_only =
    LockOrderByVenueTs
  | PairedByRowOrder
  | PairedNoCrossing
  | AcceptByRowOrder leg_label

section \<open>Views, inputs and boards\<close>

record swap_view =
  sv_swapId :: "string option"
  sv_status :: swap_status
  sv_legAOfferId :: "string option"
  sv_legBOfferId :: "string option"
  sv_buyerDid :: "string option"
  sv_sellerDid :: "string option"
  sv_feeBps :: "int option"
  sv_legA :: "fold_result option"
  sv_legB :: "fold_result option"
  sv_pairKey :: "string option"
  sv_evidence :: swap_evidence
  sv_settlementA :: settlement_view
  sv_settlementB :: settlement_view
  sv_coordinationOnly :: "coordination_only list"
  sv_reasons :: "reason list"
  sv_secret :: "string option"

record swap_fold_input =
  in_legA :: "transcript_record list"
  in_legB :: "transcript_record list"
  in_evidence :: "swap_evidence option"
  in_nowMs :: int
  in_railRegistry :: "registry option"

datatype unpaired_reason = UnknownLegA | NotAccepterOfLegA | LegAAlreadyPaired

record board_input =
  bi_offers :: "transcript_record list"
  bi_dealRooms :: "string \<Rightarrow> transcript_record list option"
  bi_evidence :: "(string \<Rightarrow> leg_evidence option) option"
  bi_nowMs :: int
  bi_railRegistry :: "registry option"

record board =
  bd_swaps :: "swap_view list"
  bd_unpaired :: "(string \<times> unpaired_reason) list"

end
