(* ===== verification/Desk_Demo.thy ===== *)
theory Desk_Demo
  imports Desk_Types
begin

text \<open>
  One concrete instance of the library's functions and of a pair of offers, at which the
  witnesses evaluate theorems that take the library as a parameter. The machine of this instance
  reads the opening record's line for the offer and the last record's line for the status; nothing
  but the witnesses uses it.
\<close>

definition id32 :: "char \<Rightarrow> string" where
  "id32 c = ''0x'' @ replicate 64 c"

definition demo_buyer :: string where
  "demo_buyer = ''did:key:z6Mk'' @ replicate 44 (CHR ''b'')"

definition demo_seller :: string where
  "demo_seller = ''did:key:z6Mk'' @ replicate 44 (CHR ''s'')"

definition demo_offer_a :: offer_frame where
  "demo_offer_a =
     \<lparr>of_id = id32 (CHR ''a''), of_from = demo_buyer, of_role = ''payer'', of_lock = ''hash'',
      of_asset = ''USDC'', of_amount = ''5'', of_rails = [''evm-htlc''],
      of_claimByMs = 2000, of_refundAfterMs = 3000, of_expiresMs = 1000,
      of_job = Some \<lparr>job_proto = ''swap'', job_id = Str (id32 (CHR ''1'')),
                      job_context = Str ''a|FLOP|100|flop-htlc''\<rparr>\<rparr>"

definition demo_offer_b :: offer_frame where
  "demo_offer_b =
     \<lparr>of_id = id32 (CHR ''b''), of_from = demo_seller, of_role = ''payer'', of_lock = ''hash'',
      of_asset = ''FLOP'', of_amount = ''100'', of_rails = [''flop-htlc''],
      of_claimByMs = 5000, of_refundAfterMs = 6000, of_expiresMs = 1000,
      of_job = Some \<lparr>job_proto = ''swap'', job_id = Str (id32 (CHR ''1'')),
                      job_context = Str (''b|'' @ id32 (CHR ''a''))\<rparr>\<rparr>"

definition demo_contract :: "offer_frame \<Rightarrow> string" where
  "demo_contract o' = (if of_asset o' = ''FLOP'' then id32 (CHR ''d'') else id32 (CHR ''c''))"

definition demo_accept :: "offer_frame \<Rightarrow> string \<Rightarrow> accept_frame" where
  "demo_accept o' who =
     \<lparr>core_from = who, core_ref = of_id o', core_statement = id32 (CHR ''e''), core_paymentKey = None,
      core_nonce = ''n'', ac_contract = demo_contract o'\<rparr>"

definition demo_status :: "string \<Rightarrow> string" where
  "demo_status line =
     (if line \<in> {''accept'', ''accept A'', ''accept B''} then ''accepted'' else if line = ''lock'' then ''locked''
      else if line = ''reveal'' then ''claimed'' else if line = ''refund'' then ''refunded''
      else ''proposed'')"

definition demo_state :: "offer_frame \<Rightarrow> string \<Rightarrow> string \<Rightarrow> string \<Rightarrow> string \<Rightarrow> contract_state" where
  "demo_state o' payer payee rail status =
     (let past = (status \<noteq> ''proposed'')
      in \<lparr>st_offer = o', st_status = status,
          st_contract = (if past then Some (demo_contract o') else None),
          st_statement = (if past then Some (id32 (CHR ''e'')) else None),
          st_payerDid = (if past then Some payer else None),
          st_payeeDid = (if past then Some payee else None),
          st_rail = (if status = ''proposed'' \<or> status = ''accepted'' then None else Some rail),
          st_railRef = (if status = ''proposed'' \<or> status = ''accepted'' then None else Some (rail @ '':ref'')),
          st_secret = (if status = ''claimed'' then Some (id32 (CHR ''f'')) else None)\<rparr>)"

definition demo_fold :: "transcript_record list \<Rightarrow> fold_result" where
  "demo_fold rs =
     (case rs of
        [] \<Rightarrow> \<lparr>fold_state = None, fold_steps = []\<rparr>
      | r # _ \<Rightarrow>
          \<lparr>fold_state =
             (if tr_line r = ''offer A''
              then Some (demo_state demo_offer_a demo_buyer demo_seller ''evm-htlc'' (demo_status (tr_line (last rs))))
              else if tr_line r = ''offer B''
              then Some (demo_state demo_offer_b demo_seller demo_buyer ''flop-htlc'' (demo_status (tr_line (last rs))))
              else None),
           fold_steps = []\<rparr>)"

definition demo_lock_terms :: "contract_state \<Rightarrow> lock_terms option" where
  "demo_lock_terms s =
     (case (st_contract s, st_statement s, st_payerDid s, st_payeeDid s) of
        (Some c, Some h, Some payer, Some payee) \<Rightarrow>
          Some \<lparr>lt_contract = c, lt_lock = of_lock (st_offer s), lt_statement = h,
                lt_amount = of_amount (st_offer s), lt_asset = of_asset (st_offer s),
                lt_payer = payer, lt_payee = payee, lt_claimByMs = of_claimByMs (st_offer s),
                lt_refundAfterMs = of_refundAfterMs (st_offer s)\<rparr>
      | _ \<Rightarrow> None)"

definition demo_decode :: "string \<Rightarrow> tclk_frame option" where
  "demo_decode line =
     (if line = ''offer A'' then Some (OfferF demo_offer_a)
      else if line = ''offer B'' then Some (OfferF demo_offer_b)
      else if line = ''accept A'' then Some (AcceptF (demo_accept demo_offer_a demo_seller))
      else if line = ''accept B'' then Some (AcceptF (demo_accept demo_offer_b demo_buyer))
      else None)"

definition demo_tclk :: tclk where
  "demo_tclk =
     \<lparr>normalizeRailId = (\<lambda>r. if r \<in> {''flop-htlc'', ''evm-htlc'', ''paper''} then Some r else None),
      contractId = (\<lambda>o' c. Some (demo_contract o')),
      foldTranscript = demo_fold,
      lockTerms = demo_lock_terms,
      dealRoom = (\<lambda>c. Some (''mb-p-tclk-'' @ take 16 (drop 2 c))),
      OFFER_ROOM = ''tclk-offers'',
      MAX_FRAME_CHARS = 4000,
      tryDecodeFrame = demo_decode,
      verifyTranscriptRecord = (\<lambda>r. tr_signature r \<noteq> None),
      decodePaperRecord = (\<lambda>s. if s = ''locked note''
        then Some \<lparr>pr_status = ''locked'', pr_lock = ''hash'', pr_statement = id32 (CHR ''e''),
                   pr_refundAfterMs = 3000, pr_secret = None\<rparr> else None),
      verifySecret = (\<lambda>k h s. s = id32 (CHR ''f'')),
      verifyHashPreimage = (\<lambda>h s. s = id32 (CHR ''f'')),
      sha256_text = (\<lambda>t. replicate 64 (CHR ''9''))\<rparr>"

definition demo_terms_a :: lock_terms where
  "demo_terms_a =
     \<lparr>lt_contract = id32 (CHR ''c''), lt_lock = ''hash'', lt_statement = id32 (CHR ''e''), lt_amount = ''5'',
      lt_asset = ''USDC'', lt_payer = demo_buyer, lt_payee = demo_seller, lt_claimByMs = 2000,
      lt_refundAfterMs = 3000\<rparr>"

definition demo_terms_b :: lock_terms where
  "demo_terms_b =
     \<lparr>lt_contract = id32 (CHR ''d''), lt_lock = ''hash'', lt_statement = id32 (CHR ''e''), lt_amount = ''100'',
      lt_asset = ''FLOP'', lt_payer = demo_seller, lt_payee = demo_buyer, lt_claimByMs = 5000,
      lt_refundAfterMs = 6000\<rparr>"

definition demo_record :: "string \<Rightarrow> int \<Rightarrow> string \<Rightarrow> string \<Rightarrow> transcript_record" where
  "demo_record room n sender line =
     \<lparr>tr_room = room, tr_seq = n, tr_timestampMs = n, tr_sender = sender, tr_nonce = None,
      tr_signature = Some ''sig'', tr_line = line\<rparr>"

definition demo_observation :: "rail_status \<Rightarrow> string \<Rightarrow> lock_terms \<Rightarrow> int \<Rightarrow> rail_observation" where
  "demo_observation st rail terms t =
     \<lparr>ob_status = st, ob_final = True, ob_checkedAtMs = t, ob_finalizedRef = None,
      ob_transitionAtMs = Some t, ob_rail = Some rail, ob_ref = Some (rail @ '':ref''),
      ob_contract = Some (lt_contract terms), ob_terms = Some terms\<rparr>"

definition demo_lock :: "string \<Rightarrow> lock_terms \<Rightarrow> lock_evidence" where
  "demo_lock rail terms =
     \<lparr>le_rail = rail, le_ref = rail @ '':ref'', le_terms = terms, le_railVerified = Some True,
      le_checkedAtMs = 1, le_finalizedRef = None, le_endpoint = None, le_reason = None, le_raw = None\<rparr>"

text \<open>The hypotheses on the library hold of this instance.\<close>

lemma demo_rails_ok: "tclk_rails_ok demo_tclk"
  by (auto simp: tclk_rails_ok_def demo_tclk_def rail_chars_def)

lemma demo_lock_ok: "tclk_lock_ok demo_tclk"
  by (auto simp: tclk_lock_ok_def past_accept_def demo_tclk_def demo_fold_def demo_state_def
      demo_lock_terms_def Let_def split: list.splits if_splits)

end
