(* ===== verification/Paper_Evidence.thy ===== *)
theory Paper_Evidence
  imports Desk_Demo
begin

text \<open>
  \<open>src/paper-evidence.ts\<close>: the evidence adapter of tclk's \<open>paper\<close> rail, the
  rehearsal rail. A note body becomes a lock verdict and, when the record corroborates the terms,
  a rail observation bound to them.
\<close>

section \<open>Reading a note\<close>

definition PAPER_RAIL_ID :: string where
  "PAPER_RAIL_ID = ''paper''"

definition WARNING :: string where
  "WARNING = ''paper rail holds no value and a stranger can overwrite it''"

definition paperReason :: "string \<Rightarrow> string" where
  "paperReason base = base @ ''; '' @ WARNING"

definition newline :: char where
  "newline = CHR 0x0A"

text \<open>The last line that is not empty.\<close>

fun last_nonempty :: "string list \<Rightarrow> string option" where
  "last_nonempty [] = None"
| "last_nonempty (l # ls) =
     (case last_nonempty ls of Some x \<Rightarrow> Some x | None \<Rightarrow> if l \<noteq> [] then Some l else None)"

definition stripNoteBanner :: "jsval \<Rightarrow> string option" where
  "stripNoteBanner body =
     (case body of Str s \<Rightarrow> last_nonempty (split_on newline s) | _ \<Rightarrow> None)"

section \<open>Evidence of a note\<close>

record paper_result =
  pe_lock :: lock_evidence
  pe_rail :: "rail_observation option"

definition termsMatch :: "lock_terms \<Rightarrow> paper_record \<Rightarrow> bool" where
  "termsMatch terms rec \<longleftrightarrow>
     pr_lock rec = lt_lock terms \<and> pr_statement rec = lt_statement terms
     \<and> pr_refundAfterMs rec = lt_refundAfterMs terms"

text \<open>The statuses of a decoded record are the three of a rail; the decoder of tclk refuses
  any other, which is \<open>None\<close> here.\<close>

definition rail_status_of :: "string \<Rightarrow> rail_status option" where
  "rail_status_of s =
     (if s = ''locked'' then Some RLocked
      else if s = ''claimed'' then Some RClaimed
      else if s = ''refunded'' then Some RRefunded
      else None)"

definition paper_lock :: "lock_terms \<Rightarrow> int \<Rightarrow> string \<Rightarrow> bool option \<Rightarrow> string \<Rightarrow> lock_evidence" where
  "paper_lock terms checkedAtMs endpoint verified base =
     \<lparr>le_rail = PAPER_RAIL_ID, le_ref = lt_contract terms, le_terms = terms,
      le_railVerified = verified, le_checkedAtMs = checkedAtMs, le_finalizedRef = None,
      le_endpoint = Some endpoint, le_reason = Some (paperReason base), le_raw = None\<rparr>"

definition paperEvidence :: "tclk \<Rightarrow> lock_terms \<Rightarrow> string option \<Rightarrow> int \<Rightarrow> string \<Rightarrow> paper_result" where
  "paperEvidence T terms noteValue checkedAtMs endpoint =
     (case noteValue of
        None \<Rightarrow>
          \<lparr>pe_lock = paper_lock terms checkedAtMs endpoint None ''no paper record'', pe_rail = None\<rparr>
      | Some note \<Rightarrow>
     (case decodePaperRecord T note of
        None \<Rightarrow>
          \<lparr>pe_lock = paper_lock terms checkedAtMs endpoint None ''unreadable paper record'', pe_rail = None\<rparr>
      | Some rec \<Rightarrow>
          if \<not> termsMatch terms rec then
            \<lparr>pe_lock = paper_lock terms checkedAtMs endpoint (Some False)
                ''paper record terms differ from the contract'', pe_rail = None\<rparr>
          else if pr_status rec = ''claimed''
               \<and> \<not> verifySecret T (pr_lock rec) (pr_statement rec) (case pr_secret rec of Some x \<Rightarrow> x | None \<Rightarrow> [])
          then
            \<lparr>pe_lock = paper_lock terms checkedAtMs endpoint (Some False)
                ''claimed record's secret does not open the statement'', pe_rail = None\<rparr>
          else
            \<lparr>pe_lock = paper_lock terms checkedAtMs endpoint (Some (pr_status rec = ''locked''))
                (''paper record is '' @ pr_status rec),
             pe_rail =
               (case rail_status_of (pr_status rec) of
                  None \<Rightarrow> None
                | Some st \<Rightarrow>
                    Some (railBinding PAPER_RAIL_ID (lt_contract terms) terms
                      \<lparr>ob_status = st, ob_final = True, ob_checkedAtMs = checkedAtMs,
                       ob_finalizedRef = Some (''paper:sha256:'' @ sha256_text T note),
                       ob_transitionAtMs = None, ob_rail = None, ob_ref = None,
                       ob_contract = None, ob_terms = None\<rparr>))\<rparr>))"

lemma paperEvidence_base:
  "le_rail (pe_lock (paperEvidence T terms n t e)) = PAPER_RAIL_ID"
  "le_ref (pe_lock (paperEvidence T terms n t e)) = lt_contract terms"
  "le_terms (pe_lock (paperEvidence T terms n t e)) = terms"
  by (simp_all add: paperEvidence_def paper_lock_def split: option.split)

definition record_secret :: "paper_record \<Rightarrow> string" where
  "record_secret rec = (case pr_secret rec of Some x \<Rightarrow> x | None \<Rightarrow> [])"

lemma rail_status_of_Some:
  "rail_status_of s = Some st \<Longrightarrow> (s = ''claimed'' \<longleftrightarrow> st = RClaimed) \<and> (s = ''locked'' \<longleftrightarrow> st = RLocked)"
  by (auto simp: rail_status_of_def split: if_splits)

lemma paperEvidence_Some:
  assumes "pe_rail (paperEvidence T terms nv t e) = Some ob"
  obtains body rec st where "nv = Some body" "decodePaperRecord T body = Some rec" "termsMatch terms rec"
    "pr_status rec = ''claimed'' \<longrightarrow> verifySecret T (pr_lock rec) (pr_statement rec) (record_secret rec)"
    "rail_status_of (pr_status rec) = Some st" "ob_status ob = st"
    "ob_rail ob = Some PAPER_RAIL_ID" "ob_ref ob = Some (lt_contract terms)"
    "ob_contract ob = Some (lt_contract terms)" "ob_terms ob = Some terms"
    "le_railVerified (pe_lock (paperEvidence T terms nv t e)) = Some (pr_status rec = ''locked'')"
proof -
  obtain body where n: "nv = Some body"
    using assms by (cases nv) (simp_all add: paperEvidence_def)
  obtain rec where r: "decodePaperRecord T body = Some rec"
    using assms n by (cases "decodePaperRecord T body") (simp_all add: paperEvidence_def)
  have m: "termsMatch terms rec"
    using assms n r by (simp add: paperEvidence_def split: if_split_asm)
  have c: "\<not> (pr_status rec = ''claimed'' \<and> \<not> verifySecret T (pr_lock rec) (pr_statement rec) (record_secret rec))"
    using assms n r m unfolding record_secret_def
    by (simp add: paperEvidence_def del: de_Morgan_conj split: if_split_asm)
  obtain st where st: "rail_status_of (pr_status rec) = Some st"
    using assms n r m c unfolding record_secret_def
    by (cases "rail_status_of (pr_status rec)") (simp_all add: paperEvidence_def del: de_Morgan_conj)
  have "ob = railBinding PAPER_RAIL_ID (lt_contract terms) terms
      \<lparr>ob_status = st, ob_final = True, ob_checkedAtMs = t,
       ob_finalizedRef = Some (''paper:sha256:'' @ sha256_text T body), ob_transitionAtMs = None,
       ob_rail = None, ob_ref = None, ob_contract = None, ob_terms = None\<rparr>"
    and v: "le_railVerified (pe_lock (paperEvidence T terms nv t e)) = Some (pr_status rec = ''locked'')"
    using assms n r m c st unfolding record_secret_def
    by (simp_all add: paperEvidence_def paper_lock_def del: de_Morgan_conj)
  then show thesis
    using n r m c st by (intro that [of body rec st]) (simp_all add: railBinding_def)
qed

text \<open>A paper observation exists only for a record that decodes, matches the contract's
  lock kind, statement and refund time and, when it is claimed, opens the statement; it is bound
  to the very terms it was read for, and the lock verdict is positive only while the record is
  still locked.\<close>

theorem paper_observation_sound:
  assumes "pe_rail (paperEvidence T terms nv t e) = Some ob"
  shows "\<exists>body rec. nv = Some body \<and> decodePaperRecord T body = Some rec
    \<and> pr_lock rec = lt_lock terms \<and> pr_statement rec = lt_statement terms
    \<and> pr_refundAfterMs rec = lt_refundAfterMs terms
    \<and> ob_rail ob = Some PAPER_RAIL_ID \<and> ob_ref ob = Some (lt_contract terms)
    \<and> ob_contract ob = Some (lt_contract terms) \<and> ob_terms ob = Some terms
    \<and> (ob_status ob = RClaimed \<longrightarrow> verifySecret T (lt_lock terms) (lt_statement terms) (record_secret rec))
    \<and> (le_railVerified (pe_lock (paperEvidence T terms nv t e)) = Some True \<longleftrightarrow> ob_status ob = RLocked)"
proof -
  from assms obtain body rec st where k: "nv = Some body" "decodePaperRecord T body = Some rec"
    "termsMatch terms rec"
    and c: "pr_status rec = ''claimed'' \<longrightarrow> verifySecret T (pr_lock rec) (pr_statement rec) (record_secret rec)"
    and st: "rail_status_of (pr_status rec) = Some st" "ob_status ob = st"
    and b: "ob_rail ob = Some PAPER_RAIL_ID" "ob_ref ob = Some (lt_contract terms)"
      "ob_contract ob = Some (lt_contract terms)" "ob_terms ob = Some terms"
    and v: "le_railVerified (pe_lock (paperEvidence T terms nv t e)) = Some (pr_status rec = ''locked'')"
    by (rule paperEvidence_Some)
  show ?thesis
    by (rule exI [of _ body], rule exI [of _ rec])
      (use k c b v st rail_status_of_Some [OF st(1)] in \<open>auto simp: termsMatch_def\<close>)
qed

theorem paper_observation_sound_witness:
  "\<exists>ob. pe_rail (paperEvidence demo_tclk demo_terms_a (Some ''locked note'') 1 []) = Some ob
    \<and> ob_terms ob = Some demo_terms_a
    \<and> (le_railVerified (pe_lock (paperEvidence demo_tclk demo_terms_a (Some ''locked note'') 1 [])) = Some True
         \<longleftrightarrow> ob_status ob = RLocked)"
proof -
  have "pe_rail (paperEvidence demo_tclk demo_terms_a (Some ''locked note'') 1 []) \<noteq> None" by code_simp
  then obtain ob where ob: "pe_rail (paperEvidence demo_tclk demo_terms_a (Some ''locked note'') 1 []) = Some ob"
    by blast
  from paper_observation_sound [OF ob] ob show ?thesis by blast
qed

end
