(* ===== verification/Swap_Fold.thy ===== *)
theory Swap_Fold
  imports Paper_Evidence
begin

text \<open>
  \<open>src/swap.ts\<close>: the composite fold of two legs. The source builds one mutable view and
  returns from many places; here each stage takes the view so far and either returns it or hands
  it to the next stage, in the order of the source. \<open>None\<close> is an exception that leaves
  \<open>foldSwap\<close>: the only one possible is that of \<open>lockTerms\<close>.
\<close>

section \<open>Terms and accepts\<close>

definition offerAcceptLockTerms :: "offer_frame \<Rightarrow> accept_frame \<Rightarrow> lock_terms" where
  "offerAcceptLockTerms offer acc =
     (let offerIsPayer = (of_role offer = ''payer'')
      in \<lparr>lt_contract = ac_contract acc, lt_lock = of_lock offer, lt_statement = core_statement acc,
          lt_amount = of_amount offer, lt_asset = of_asset offer,
          lt_payer = (if offerIsPayer then of_from offer else core_from acc),
          lt_payee = (if offerIsPayer then core_from acc else of_from offer),
          lt_claimByMs = of_claimByMs offer, lt_refundAfterMs = of_refundAfterMs offer\<rparr>)"

definition LOCK_TERMS_FIELDS :: "terms_field list" where
  "LOCK_TERMS_FIELDS =
     [FContract, FLock, FStatement, FAmount, FAsset, FPayer, FPayee, FClaimByMs, FRefundAfterMs]"

fun field_differs :: "lock_terms \<Rightarrow> lock_terms \<Rightarrow> terms_field \<Rightarrow> bool" where
  "field_differs x y FContract \<longleftrightarrow> lt_contract x \<noteq> lt_contract y"
| "field_differs x y FLock \<longleftrightarrow> lt_lock x \<noteq> lt_lock y"
| "field_differs x y FStatement \<longleftrightarrow> lt_statement x \<noteq> lt_statement y"
| "field_differs x y FAmount \<longleftrightarrow> lt_amount x \<noteq> lt_amount y"
| "field_differs x y FAsset \<longleftrightarrow> lt_asset x \<noteq> lt_asset y"
| "field_differs x y FPayer \<longleftrightarrow> lt_payer x \<noteq> lt_payer y"
| "field_differs x y FPayee \<longleftrightarrow> lt_payee x \<noteq> lt_payee y"
| "field_differs x y FClaimByMs \<longleftrightarrow> lt_claimByMs x \<noteq> lt_claimByMs y"
| "field_differs x y FRefundAfterMs \<longleftrightarrow> lt_refundAfterMs x \<noteq> lt_refundAfterMs y"

definition lockTermsMismatch :: "lock_terms \<Rightarrow> lock_terms \<Rightarrow> terms_field option" where
  "lockTermsMismatch expected actual = List.find (field_differs expected actual) LOCK_TERMS_FIELDS"

text \<open>The core the contract id is derived from: the accept without its contract.\<close>

definition core_of :: "accept_frame \<Rightarrow> accept_core" where
  "core_of acc =
     \<lparr>core_from = core_from acc, core_ref = core_ref acc, core_statement = core_statement acc,
      core_paymentKey = core_paymentKey acc, core_nonce = core_nonce acc\<rparr>"

definition isGenuineAccept :: "tclk \<Rightarrow> offer_frame \<Rightarrow> accept_frame \<Rightarrow> bool" where
  "isGenuineAccept T offer acc =
     (if core_ref acc \<noteq> of_id offer \<or> core_from acc = of_from offer then False
      else (case contractId T offer (core_of acc) of
              None \<Rightarrow> False
            | Some c \<Rightarrow> ac_contract acc = c))"

definition pairKey :: "string \<Rightarrow> string \<Rightarrow> string \<Rightarrow> string" where
  "pairKey offerA legAContract legBContract =
     join_with (CHR ''|'') [offerA, legAContract, legBContract]"

section \<open>Evidence of a leg\<close>

text \<open>\<open>LockEvaluation\<close>: corroborated, or not with the reason to push, if it has one.\<close>

datatype lock_evaluation = Corroborated | Uncorroborated "reason option"

definition evaluateLock ::
    "lock_evidence option \<Rightarrow> lock_terms \<Rightarrow> leg_label \<Rightarrow> contract_state \<Rightarrow> lock_evaluation" where
  "evaluateLock evidence expected leg state =
     (case evidence of
        None \<Rightarrow> Uncorroborated None
      | Some e \<Rightarrow>
          if Some (le_rail e) \<noteq> st_rail state \<or> Some (le_ref e) \<noteq> st_railRef state
          then Uncorroborated (Some (LockEvidenceOtherRailRef leg))
          else (case lockTermsMismatch expected (le_terms e) of
                  Some field \<Rightarrow> Uncorroborated (Some (LockTermsDiffer leg field))
                | None \<Rightarrow>
                    if le_railVerified e \<noteq> Some True then Uncorroborated None else Corroborated))"

text \<open>\<open>bindObservation\<close>: the observation when it is bound to the leg's accepted lock,
  otherwise the refusal whose reason is pushed.\<close>

definition binding_refusal :: "tclk \<Rightarrow> contract_state option \<Rightarrow> rail_observation \<Rightarrow> binding_refusal option" where
  "binding_refusal T state ob =
     (case (ob_rail ob, ob_ref ob, ob_contract ob, ob_terms ob) of
        (Some rail, Some ref, Some contract, Some terms) \<Rightarrow>
          (case state of
             None \<Rightarrow> Some NoAcceptedLock
           | Some s \<Rightarrow>
               if st_rail s = None \<or> st_railRef s = None then Some NoAcceptedLock
               else (case lockTerms T s of
                       None \<Rightarrow> Some NoAcceptedPair
                     | Some expected \<Rightarrow>
                         if Some rail \<noteq> st_rail s then Some RailDiffers
                         else if Some ref \<noteq> st_railRef s then Some RefDiffers
                         else if contract \<noteq> lt_contract expected then Some ContractDiffers
                         else map_option TermsDiffer (lockTermsMismatch expected terms)))
      | _ \<Rightarrow> Some NoBinding)"

definition bindObservation ::
    "tclk \<Rightarrow> leg_label \<Rightarrow> contract_state option \<Rightarrow> rail_observation option
      \<Rightarrow> rail_observation option \<times> reason list" where
  "bindObservation T leg state observation =
     (case observation of
        None \<Rightarrow> (None, [])
      | Some ob \<Rightarrow>
          (case binding_refusal T state ob of
             None \<Rightarrow> (Some ob, [])
           | Some why \<Rightarrow> (None, [ObservationIgnored leg why])))"

fun rail_settlement :: "rail_status \<Rightarrow> settlement_view" where
  "rail_settlement RLocked = SvFunded"
| "rail_settlement RClaimed = SvClaimed"
| "rail_settlement RRefunded = SvRefunded"

definition settlementViewForLeg :: "lock_evidence option \<Rightarrow> rail_observation option \<Rightarrow> settlement_view" where
  "settlementViewForLeg evidence rail =
     (case rail of
        Some ob \<Rightarrow> rail_settlement (ob_status ob)
      | None \<Rightarrow>
          (case evidence of
             None \<Rightarrow> SvNone
           | Some e \<Rightarrow> if le_railVerified e = None then SvNone else SvUnverified))"

definition observed :: "rail_status \<Rightarrow> rail_observation option \<Rightarrow> bool" where
  "observed st rail \<longleftrightarrow> (case rail of None \<Rightarrow> False | Some ob \<Rightarrow> ob_status ob = st \<and> ob_final ob)"

definition refundedFold ::
    "leg_label \<Rightarrow> contract_state \<Rightarrow> rail_observation option \<Rightarrow> bool \<times> reason list" where
  "refundedFold leg state rail =
     (if st_status state \<noteq> ''refunded'' then (observed RRefunded rail, [])
      else if st_rail state = Some PAPER_RAIL_ID \<and> rail = None then (True, [])
      else if observed RRefunded rail then (True, [])
      else (False,
            [case rail of
               None \<Rightarrow> RefundFrameUncorroborated leg
             | Some ob \<Rightarrow> RefundFrameConflicts leg (ob_status ob) (ob_final ob)]))"

section \<open>Folds of the legs\<close>

definition foldLeg :: "tclk \<Rightarrow> transcript_record list \<Rightarrow> fold_result option" where
  "foldLeg T records = (if records = [] then None else Some (foldTranscript T records))"

definition state_of :: "fold_result option \<Rightarrow> contract_state option" where
  "state_of f = Option.bind f fold_state"

definition collectStepReasons :: "fold_result option \<Rightarrow> leg_label \<Rightarrow> reason list" where
  "collectStepReasons f leg =
     (case f of
        None \<Rightarrow> []
      | Some r \<Rightarrow>
          map (\<lambda>s. StepRejected leg (step_seq s) (step_reason s)) (filter (\<lambda>s. \<not> step_ok s) (fold_steps r)))"

definition lockTimestampMs :: "transcript_record list \<Rightarrow> fold_result option \<Rightarrow> int option" where
  "lockTimestampMs records f =
     (case f of
        None \<Rightarrow> None
      | Some r \<Rightarrow>
          (case List.find (\<lambda>s. step_type s = ''lock'' \<and> step_ok s) (fold_steps r) of
             None \<Rightarrow> None
           | Some s \<Rightarrow>
               if step_index s < length records then Some (tr_timestampMs (records ! step_index s))
               else None))"

definition lockOrderViolated ::
    "transcript_record list \<Rightarrow> fold_result option \<Rightarrow> transcript_record list \<Rightarrow> fold_result option \<Rightarrow> bool" where
  "lockOrderViolated legARecords legAFold legBRecords legBFold =
     (case (lockTimestampMs legARecords legAFold, lockTimestampMs legBRecords legBFold) of
        (Some a, Some b) \<Rightarrow> a < b
      | _ \<Rightarrow> False)"

section \<open>The fold\<close>

definition push :: "reason \<Rightarrow> swap_view \<Rightarrow> swap_view" where
  "push r v = v\<lparr>sv_reasons := sv_reasons v @ [r]\<rparr>"

definition pushes :: "reason list \<Rightarrow> swap_view \<Rightarrow> swap_view" where
  "pushes rs v = v\<lparr>sv_reasons := sv_reasons v @ rs\<rparr>"

definition at_status :: "swap_status \<Rightarrow> swap_view \<Rightarrow> swap_view" where
  "at_status s v = v\<lparr>sv_status := s\<rparr>"

text \<open>The last stages: leg B's lock, then leg A's.\<close>

definition fold_lock_a :: "tclk \<Rightarrow> int \<Rightarrow> contract_state \<Rightarrow> swap_view \<Rightarrow> swap_view option" where
  "fold_lock_a T nowMs a v =
     (if st_status a \<noteq> ''locked'' then
        if of_claimByMs (st_offer a) \<le> nowMs
        then Some (at_status Abandoned (push LegANeverLocked v))
        else Some (at_status BLocked v)
      else (case lockTerms T a of
              None \<Rightarrow> None
            | Some expected \<Rightarrow>
                (case evaluateLock (ev_a (sv_evidence v)) expected LegA a of
                   Uncorroborated why \<Rightarrow>
                     Some (at_status BLocked
                       (push (case why of Some r \<Rightarrow> r | None \<Rightarrow> LockUnverified LegA) v))
                 | Corroborated \<Rightarrow> Some (at_status ALocked v))))"

definition fold_locks :: "tclk \<Rightarrow> int \<Rightarrow> contract_state \<Rightarrow> contract_state \<Rightarrow> swap_view \<Rightarrow> swap_view option" where
  "fold_locks T nowMs a b v =
     (if st_status b \<noteq> ''locked'' then
        if of_expiresMs (st_offer a) \<le> nowMs
        then Some (at_status Abandoned (push LegBNeverLocked v))
        else Some (at_status Paired v)
      else (case lockTerms T b of
              None \<Rightarrow> None
            | Some expected \<Rightarrow>
                (case evaluateLock (ev_b (sv_evidence v)) expected LegB b of
                   Uncorroborated why \<Rightarrow>
                     Some (at_status Paired
                       (push (case why of Some r \<Rightarrow> r | None \<Rightarrow> LockUnverified LegB) v))
                 | Corroborated \<Rightarrow> fold_lock_a T nowMs a v)))"

definition with_secret :: "contract_state \<Rightarrow> swap_view \<Rightarrow> swap_view" where
  "with_secret s v = (case st_secret s of None \<Rightarrow> v | Some x \<Rightarrow> v\<lparr>sv_secret := Some x\<rparr>)"

text \<open>Claims: a reveal on leg A, then one on leg B.\<close>

definition fold_claims :: "tclk \<Rightarrow> int \<Rightarrow> contract_state \<Rightarrow> contract_state \<Rightarrow> swap_view \<Rightarrow> swap_view option" where
  "fold_claims T nowMs a b v =
     (if st_status a = ''claimed'' then
        (let v1 = with_secret a v
         in if st_status b = ''claimed'' then
              if observed RClaimed (ev_aRail (sv_evidence v)) \<and> observed RClaimed (ev_bRail (sv_evidence v))
              then Some (at_status Settled v1)
              else Some (at_status Revealed (push AwaitingFinality v1))
            else Some (at_status Revealed v1))
      else if st_status b = ''claimed'' then
        Some (at_status Revealed (push SecretRevealedOnLegB (with_secret b v)))
      else fold_locks T nowMs a b v)"

text \<open>The verdict of R3-9 and R4-3: leg B's claim is on a value-bearing rail and its chain time
  is before that of leg A's refund.\<close>

definition theft_proven :: "rail_observation option \<Rightarrow> rail_observation option \<Rightarrow> bool" where
  "theft_proven bClaim aRefund \<longleftrightarrow>
     (case (bClaim, aRefund) of
        (Some b, Some a) \<Rightarrow>
          ob_status b = RClaimed \<and> ob_final b \<and> ob_rail b \<noteq> Some PAPER_RAIL_ID
          \<and> ob_status a = RRefunded \<and> ob_final a
          \<and> (case (ob_transitionAtMs b, ob_transitionAtMs a) of
               (Some tb, Some ta) \<Rightarrow> tb < ta
             | _ \<Rightarrow> False)
      | _ \<Rightarrow> False)"

definition refunded_in :: "leg_label \<Rightarrow> contract_state \<Rightarrow> rail_observation option \<Rightarrow> bool" where
  "refunded_in leg s rail = fst (refundedFold leg s rail)"

definition refund_notes :: "contract_state \<Rightarrow> contract_state \<Rightarrow> swap_view \<Rightarrow> swap_view" where
  "refund_notes a b v =
     (let ev = sv_evidence v;
          v1 = pushes (snd (refundedFold LegB b (ev_bRail ev)))
                 (pushes (snd (refundedFold LegA a (ev_aRail ev))) v)
      in if observed RClaimed (ev_aRail ev) \<and> st_status a \<noteq> ''claimed'' \<and> \<not> refunded_in LegA a (ev_aRail ev)
         then push LegAClaimedRevealNotRecorded v1 else v1)"

definition refund_a_note :: "contract_state \<Rightarrow> swap_view \<Rightarrow> swap_view" where
  "refund_a_note b v =
     (let ev = sv_evidence v
      in if st_status b = ''claimed'' \<or> observed RClaimed (ev_bRail ev)
         then push (if theft_proven (ev_bRail ev) (ev_aRail ev) then LegARefundedAfterBClaimed
                    else LegARefundedLegBClaimedUnproven) v
         else v)"

definition fold_refunds :: "tclk \<Rightarrow> int \<Rightarrow> contract_state \<Rightarrow> contract_state \<Rightarrow> swap_view \<Rightarrow> swap_view option" where
  "fold_refunds T nowMs a b v =
     (let refundedA = refunded_in LegA a (ev_aRail (sv_evidence v));
          refundedB = refunded_in LegB b (ev_bRail (sv_evidence v));
          v2 = refund_notes a b v
      in if refundedA \<and> refundedB then Some (at_status Refunded v2)
         else if refundedA then Some (at_status RefundedA (refund_a_note b v2))
         else if refundedB then Some (at_status RefundedB v2)
         else fold_claims T nowMs a b v2)"

text \<open>Both legs accepted: parties and statements must cross, then the order of the locks and
  cancellations.\<close>

definition cross_notes :: "swap_fold_input \<Rightarrow> contract_state \<Rightarrow> swap_view \<Rightarrow> swap_view" where
  "cross_notes inp a v =
     (let v1 = v\<lparr>sv_buyerDid := st_payerDid a, sv_sellerDid := st_payeeDid a\<rparr>
      in if lockOrderViolated (in_legA inp) (sv_legA v) (in_legB inp) (sv_legB v)
         then (push LockOrderViolated v1)
                \<lparr>sv_coordinationOnly := sv_coordinationOnly v1 @ [LockOrderByVenueTs]\<rparr>
         else v1)"

definition fold_crossed ::
    "tclk \<Rightarrow> swap_fold_input \<Rightarrow> contract_state \<Rightarrow> contract_state \<Rightarrow> swap_view \<Rightarrow> swap_view option" where
  "fold_crossed T inp a b v =
     (if st_payerDid a = None \<or> st_payeeDid a = None \<or> st_payerDid b = None \<or> st_payeeDid b = None
      then Some (push PartiesMissing v)
      else if st_payerDid a \<noteq> st_payeeDid b \<or> st_payeeDid a \<noteq> st_payerDid b
      then Some (push PartiesDoNotCross v)
      else if st_statement a \<noteq> st_statement b then Some (push StatementsDiffer v)
      else if st_status a = ''cancelled'' \<or> st_status b = ''cancelled''
      then Some (at_status Abandoned
             (push (LegCancelled (if st_status a = ''cancelled'' then LegA else LegB)) (cross_notes inp a v)))
      else fold_refunds T (in_nowMs inp) a b (cross_notes inp a v))"

text \<open>Leg B's own offer against leg A's.\<close>

definition leg_b_notes :: "contract_state \<Rightarrow> contract_state \<Rightarrow> swap_view \<Rightarrow> swap_view" where
  "leg_b_notes a b v =
     (let v2 = v\<lparr>sv_sellerDid := Some (of_from (st_offer b))\<rparr>
      in (case (st_contract a, st_contract b) of
            (Some ca, Some cb) \<Rightarrow> v2\<lparr>sv_pairKey := Some (pairKey (of_id (st_offer a)) ca cb)\<rparr>
          | _ \<Rightarrow> v2))"

definition fold_paired ::
    "tclk \<Rightarrow> swap_fold_input \<Rightarrow> contract_state \<Rightarrow> contract_state \<Rightarrow> swap_view \<Rightarrow> swap_view option" where
  "fold_paired T inp a b v =
     (if st_status a = ''proposed'' then
        Some (at_status (if st_status b = ''proposed'' then Bid else Unpaired) (push LegBBeforeAccept v))
      else if st_status a = ''accepted'' \<and> st_status b = ''proposed'' then Some (at_status Accepted v)
      else if st_status b = ''proposed'' then Some (push LegBNotAccepted v)
      else fold_crossed T inp a b v)"

definition fold_leg_b ::
    "tclk \<Rightarrow> swap_fold_input \<Rightarrow> string \<Rightarrow> contract_state \<Rightarrow> contract_state \<Rightarrow> swap_view \<Rightarrow> swap_view option" where
  "fold_leg_b T inp sid a b v =
     (let offerB = st_offer b;
          v1 = v\<lparr>sv_legBOfferId := Some (of_id offerB)\<rparr>
      in (case classifySwapOffer T offerB of
            None \<Rightarrow> Some (push (OfferNotSwapLeg LegB) v1)
          | Some (_, CtxA _) \<Rightarrow> Some (push (OfferWrongContext LegB) v1)
          | Some (sid', CtxB ctx) \<Rightarrow>
              if sid' \<noteq> sid then Some (push SwapIdMismatch v1)
              else if legAOfferId ctx \<noteq> of_id (st_offer a) then Some (push ContextNamesOtherOffer v1)
              else (case checkOrientation T offerB (CtxB ctx) (in_railRegistry inp) of
                      Some why \<Rightarrow> Some (at_status OrientationUnsupported (push (Unsupported why) v1))
                    | None \<Rightarrow> fold_paired T inp a b (leg_b_notes a b v1))))"

text \<open>Leg A alone.\<close>

definition fold_without_b :: "contract_state \<Rightarrow> swap_view \<Rightarrow> swap_view" where
  "fold_without_b a v =
     (if st_status a = ''proposed'' then at_status Bid v
      else if st_status a = ''accepted'' then at_status Accepted (v\<lparr>sv_sellerDid := st_payeeDid a\<rparr>)
      else if st_status a = ''cancelled'' then at_status Abandoned (push (LegCancelled LegA) v)
      else if st_status a = ''refunded'' then
        (let v1 = pushes (snd (refundedFold LegA a (ev_aRail (sv_evidence v)))) v
         in if refunded_in LegA a (ev_aRail (sv_evidence v))
            then at_status RefundedA (push LegARefundedNoLegB v1)
            else push LegAAdvancedNoLegB v1)
      else push LegAAdvancedNoLegB v)"

definition fold_leg_a :: "tclk \<Rightarrow> swap_fold_input \<Rightarrow> swap_view \<Rightarrow> swap_view option" where
  "fold_leg_a T inp v =
     (case state_of (sv_legA v) of
        None \<Rightarrow> Some (push LegANotOpen v)
      | Some a \<Rightarrow>
          (let offerA = st_offer a;
               v1 = v\<lparr>sv_legAOfferId := Some (of_id offerA)\<rparr>
           in (case classifySwapOffer T offerA of
                 None \<Rightarrow> Some (push (OfferNotSwapLeg LegA) v1)
               | Some (_, CtxB _) \<Rightarrow> Some (push (OfferWrongContext LegA) v1)
               | Some (sid, CtxA ctx) \<Rightarrow>
                   (let v2 = v1\<lparr>sv_swapId := Some sid, sv_feeBps := Some (feeBps ctx)\<rparr>
                    in (case checkOrientation T offerA (CtxA ctx) (in_railRegistry inp) of
                          Some why \<Rightarrow> Some (at_status OrientationUnsupported (push (Unsupported why) v2))
                        | None \<Rightarrow>
                            (let v3 = v2\<lparr>sv_buyerDid := Some (of_from offerA)\<rparr>
                             in (case state_of (sv_legB v) of
                                   None \<Rightarrow> Some (fold_without_b a v3)
                                 | Some b \<Rightarrow> fold_leg_b T inp sid a b v3)))))))"

definition supplied :: "swap_fold_input \<Rightarrow> swap_evidence" where
  "supplied inp = (case in_evidence inp of None \<Rightarrow> no_evidence | Some e \<Rightarrow> e)"

definition is_paper :: "lock_evidence option \<Rightarrow> bool" where
  "is_paper e \<longleftrightarrow> (case e of None \<Rightarrow> False | Some l \<Rightarrow> le_rail l = PAPER_RAIL_ID)"

definition initial_view :: "tclk \<Rightarrow> swap_fold_input \<Rightarrow> swap_view" where
  "initial_view T inp =
     (let fA = foldLeg T (in_legA inp);
          fB = foldLeg T (in_legB inp);
          sup = supplied inp;
          (aRail, rA) = bindObservation T LegA (state_of fA) (ev_aRail sup);
          (bRail, rB) = bindObservation T LegB (state_of fB) (ev_bRail sup);
          ev = sup\<lparr>ev_aRail := aRail, ev_bRail := bRail\<rparr>;
          paper = (if is_paper (ev_a ev) \<or> is_paper (ev_b ev) then [PaperRehearsal] else [])
      in \<lparr>sv_swapId = None, sv_status = Unpaired, sv_legAOfferId = None, sv_legBOfferId = None,
          sv_buyerDid = None, sv_sellerDid = None, sv_feeBps = None, sv_legA = fA, sv_legB = fB,
          sv_pairKey = None, sv_evidence = ev,
          sv_settlementA = settlementViewForLeg (ev_a ev) aRail,
          sv_settlementB = settlementViewForLeg (ev_b ev) bRail,
          sv_coordinationOnly = [],
          sv_reasons = collectStepReasons fA LegA @ collectStepReasons fB LegB @ rA @ rB @ paper,
          sv_secret = None\<rparr>)"

definition foldSwap :: "tclk \<Rightarrow> swap_fold_input \<Rightarrow> swap_view option" where
  "foldSwap T inp = fold_leg_a T inp (initial_view T inp)"

section \<open>Terms, accepts and observations\<close>

lemma lockTermsMismatch_None: "lockTermsMismatch x y = None \<longleftrightarrow> x = y"
proof
  show "lockTermsMismatch x y = None \<Longrightarrow> x = y"
    by (simp add: lockTermsMismatch_def LOCK_TERMS_FIELDS_def split: if_splits)
  show "x = y \<Longrightarrow> lockTermsMismatch x y = None"
    by (simp add: lockTermsMismatch_def LOCK_TERMS_FIELDS_def)
qed

lemma lockTermsMismatch_Some: "lockTermsMismatch x y = Some f \<Longrightarrow> field_differs x y f"
  by (auto simp: lockTermsMismatch_def find_Some_iff)

text \<open>What a usable observation is: one bound to the leg's accepted lock in every field.\<close>

definition bound_to :: "tclk \<Rightarrow> contract_state option \<Rightarrow> rail_observation \<Rightarrow> bool" where
  "bound_to T state ob \<longleftrightarrow>
     (\<exists>s expected rail ref. state = Some s \<and> lockTerms T s = Some expected
        \<and> st_rail s = Some rail \<and> st_railRef s = Some ref
        \<and> ob_rail ob = Some rail \<and> ob_ref ob = Some ref
        \<and> ob_contract ob = Some (lt_contract expected) \<and> ob_terms ob = Some expected)"

lemma binding_refusal_None: "binding_refusal T state ob = None \<longleftrightarrow> bound_to T state ob"
proof (cases "ob_rail ob = None \<or> ob_ref ob = None \<or> ob_contract ob = None \<or> ob_terms ob = None \<or> state = None")
  case True
  then show ?thesis by (auto simp: binding_refusal_def bound_to_def split: option.splits)
next
  case False
  then obtain r f c t s where k: "ob_rail ob = Some r" "ob_ref ob = Some f" "ob_contract ob = Some c"
    "ob_terms ob = Some t" "state = Some s" by auto
  then show ?thesis
    by (auto simp: binding_refusal_def bound_to_def lockTermsMismatch_None split: option.splits)
qed

lemma bindObservation_Some:
  "fst (bindObservation T leg state observation) = Some ob \<longleftrightarrow> observation = Some ob \<and> bound_to T state ob"
  by (auto simp: bindObservation_def binding_refusal_None [symmetric] split: option.splits)

text \<open>What a corroborated lock is: the accepted rail, reference and all nine terms, confirmed by
  the rail itself.\<close>

definition lock_confirmed :: "tclk \<Rightarrow> contract_state \<Rightarrow> lock_evidence option \<Rightarrow> bool" where
  "lock_confirmed T s evidence \<longleftrightarrow>
     (\<exists>e. evidence = Some e \<and> st_rail s = Some (le_rail e) \<and> st_railRef s = Some (le_ref e)
        \<and> lockTerms T s = Some (le_terms e) \<and> le_railVerified e = Some True)"

lemma evaluateLock_Corroborated:
  "lockTerms T s = Some expected \<Longrightarrow>
     evaluateLock evidence expected leg s = Corroborated \<longleftrightarrow> lock_confirmed T s evidence"
  using lockTermsMismatch_None [THEN iffD2, OF refl, of expected]
  by (auto simp: evaluateLock_def lock_confirmed_def dest: lockTermsMismatch_None [THEN iffD1]
      split: option.splits)

lemma isGenuineAccept_iff:
  "isGenuineAccept T offer acc \<longleftrightarrow>
     core_ref acc = of_id offer \<and> core_from acc \<noteq> of_from offer
     \<and> contractId T offer (core_of acc) = Some (ac_contract acc)"
  by (auto simp: isGenuineAccept_def split: option.splits)

section \<open>What every stage keeps\<close>

text \<open>No stage changes the folds, the evidence or the settlement views of the view it is
  given, and none removes a reason.\<close>

definition same_base :: "swap_view \<Rightarrow> swap_view \<Rightarrow> bool" where
  "same_base v w \<longleftrightarrow>
     sv_legA w = sv_legA v \<and> sv_legB w = sv_legB v \<and> sv_evidence w = sv_evidence v
     \<and> sv_settlementA w = sv_settlementA v \<and> sv_settlementB w = sv_settlementB v
     \<and> set (sv_reasons v) \<subseteq> set (sv_reasons w)"

lemma same_base_trans: "same_base u v \<Longrightarrow> same_base v w \<Longrightarrow> same_base u w"
  by (auto simp: same_base_def)

lemma same_base_steps:
  "same_base v u \<Longrightarrow> same_base v (push r u)"
  "same_base v u \<Longrightarrow> same_base v (pushes rs u)"
  "same_base v u \<Longrightarrow> same_base v (at_status s u)"
  "same_base v u \<Longrightarrow> same_base v (u\<lparr>sv_legAOfferId := x\<rparr>)"
  "same_base v u \<Longrightarrow> same_base v (u\<lparr>sv_legBOfferId := x\<rparr>)"
  "same_base v u \<Longrightarrow> same_base v (u\<lparr>sv_buyerDid := x\<rparr>)"
  "same_base v u \<Longrightarrow> same_base v (u\<lparr>sv_sellerDid := x\<rparr>)"
  "same_base v u \<Longrightarrow> same_base v (u\<lparr>sv_pairKey := x\<rparr>)"
  "same_base v u \<Longrightarrow> same_base v (u\<lparr>sv_secret := x\<rparr>)"
  "same_base v u \<Longrightarrow> same_base v (u\<lparr>sv_coordinationOnly := cs\<rparr>)"
  "same_base v u \<Longrightarrow> same_base v (u\<lparr>sv_swapId := x, sv_feeBps := y\<rparr>)"
  by (auto simp: same_base_def push_def pushes_def at_status_def)

lemma same_base_refl: "same_base v v"
  by (simp add: same_base_def)

lemmas base_intros = same_base_refl same_base_steps

lemma same_base_notes:
  "same_base v u \<Longrightarrow> same_base v (with_secret c u)"
  "same_base v u \<Longrightarrow> same_base v (refund_notes a b u)"
  "same_base v u \<Longrightarrow> same_base v (refund_a_note b u)"
  "same_base v u \<Longrightarrow> same_base v (leg_b_notes a b u)"
  by (simp_all add: with_secret_def refund_notes_def refund_a_note_def leg_b_notes_def Let_def base_intros
      split: option.split)

lemma same_base_cross: "same_base v u \<Longrightarrow> same_base v (cross_notes inp a u)"
proof -
  assume b: "same_base v u"
  have "same_base v (u\<lparr>sv_buyerDid := x, sv_sellerDid := y\<rparr>)" for x y
    using b by (simp add: same_base_def)
  then show ?thesis by (simp add: cross_notes_def Let_def base_intros)
qed

lemmas stage_intros = base_intros same_base_notes same_base_cross

lemma fold_lock_a_base: "fold_lock_a T n a u = Some w \<Longrightarrow> same_base v u \<Longrightarrow> same_base v w"
  by (auto simp: fold_lock_a_def intro: stage_intros split: if_split_asm option.splits lock_evaluation.splits)

lemma fold_locks_base: "fold_locks T n a b u = Some w \<Longrightarrow> same_base v u \<Longrightarrow> same_base v w"
  by (auto simp: fold_locks_def intro: stage_intros fold_lock_a_base
      split: if_split_asm option.splits lock_evaluation.splits)

lemma fold_claims_base: "fold_claims T n a b u = Some w \<Longrightarrow> same_base v u \<Longrightarrow> same_base v w"
  by (auto simp: fold_claims_def Let_def intro: stage_intros fold_locks_base split: if_split_asm)

lemma fold_refunds_base: "fold_refunds T n a b u = Some w \<Longrightarrow> same_base v u \<Longrightarrow> same_base v w"
  by (auto simp: fold_refunds_def Let_def intro: stage_intros fold_claims_base split: if_split_asm)

lemma fold_crossed_base: "fold_crossed T inp a b u = Some w \<Longrightarrow> same_base v u \<Longrightarrow> same_base v w"
  by (auto simp: fold_crossed_def intro: stage_intros fold_refunds_base split: if_split_asm)

lemma fold_paired_base: "fold_paired T inp a b u = Some w \<Longrightarrow> same_base v u \<Longrightarrow> same_base v w"
  by (auto simp: fold_paired_def intro: stage_intros fold_crossed_base split: if_split_asm)

lemma fold_leg_b_base: "fold_leg_b T inp sid a b u = Some w \<Longrightarrow> same_base v u \<Longrightarrow> same_base v w"
  by (auto simp: fold_leg_b_def Let_def intro: stage_intros fold_paired_base
      split: if_split_asm option.splits prod.splits swap_context.splits)

lemma fold_without_b_base: "same_base v u \<Longrightarrow> same_base v (fold_without_b a u)"
  by (simp add: fold_without_b_def Let_def stage_intros)

lemma fold_leg_a_base: "fold_leg_a T inp v = Some w \<Longrightarrow> same_base v w"
proof -
  assume f: "fold_leg_a T inp v = Some w"
  have nested: "same_base v (v\<lparr>sv_legAOfferId := x, sv_swapId := y, sv_feeBps := z, sv_buyerDid := d\<rparr>)"
    "same_base v (v\<lparr>sv_legAOfferId := x, sv_swapId := y, sv_feeBps := z\<rparr>)" for x y z d
    by (simp_all add: same_base_def)
  from f show ?thesis
    by (auto simp: fold_leg_a_def Let_def
        intro: stage_intros nested fold_leg_b_base fold_without_b_base
        split: if_split_asm option.splits prod.splits swap_context.splits)
qed

lemma foldSwap_base: "foldSwap T inp = Some w \<Longrightarrow> same_base (initial_view T inp) w"
  unfolding foldSwap_def by (rule fold_leg_a_base)

section \<open>What each verdict rests on\<close>

text \<open>The abstract contract of a verdict over two accepted legs: which frames and which rail
  evidence it needs, whatever the order in which the fold looked at them.\<close>

fun verdict_ok :: "tclk \<Rightarrow> contract_state \<Rightarrow> contract_state \<Rightarrow> swap_evidence \<Rightarrow> swap_status \<Rightarrow> bool" where
  "verdict_ok T a b ev Paired \<longleftrightarrow> True"
| "verdict_ok T a b ev Abandoned \<longleftrightarrow> True"
| "verdict_ok T a b ev BLocked \<longleftrightarrow> st_status b = ''locked'' \<and> lock_confirmed T b (ev_b ev)"
| "verdict_ok T a b ev ALocked \<longleftrightarrow>
     st_status b = ''locked'' \<and> lock_confirmed T b (ev_b ev)
     \<and> st_status a = ''locked'' \<and> lock_confirmed T a (ev_a ev)"
| "verdict_ok T a b ev Revealed \<longleftrightarrow> st_status a = ''claimed'' \<or> st_status b = ''claimed''"
| "verdict_ok T a b ev Settled \<longleftrightarrow>
     st_status a = ''claimed'' \<and> st_status b = ''claimed''
     \<and> observed RClaimed (ev_aRail ev) \<and> observed RClaimed (ev_bRail ev)"
| "verdict_ok T a b ev Refunded \<longleftrightarrow> refunded_in LegA a (ev_aRail ev) \<and> refunded_in LegB b (ev_bRail ev)"
| "verdict_ok T a b ev RefundedA \<longleftrightarrow> refunded_in LegA a (ev_aRail ev) \<and> \<not> refunded_in LegB b (ev_bRail ev)"
| "verdict_ok T a b ev RefundedB \<longleftrightarrow> \<not> refunded_in LegA a (ev_aRail ev) \<and> refunded_in LegB b (ev_bRail ev)"
| "verdict_ok T a b ev st \<longleftrightarrow> False"

text \<open>The parties cross over one statement.\<close>

definition crossed :: "contract_state \<Rightarrow> contract_state \<Rightarrow> bool" where
  "crossed a b \<longleftrightarrow>
     (\<exists>buyer seller. st_payerDid a = Some buyer \<and> st_payeeDid b = Some buyer
        \<and> st_payeeDid a = Some seller \<and> st_payerDid b = Some seller)
     \<and> st_statement a = st_statement b"

text \<open>Leg B's signed offer names leg A's, under one swap id, and both are oriented.\<close>

definition oriented_pair :: "tclk \<Rightarrow> registry option \<Rightarrow> contract_state \<Rightarrow> contract_state \<Rightarrow> bool" where
  "oriented_pair T R a b \<longleftrightarrow>
     (\<exists>sid ctxA ctxB. classifySwapOffer T (st_offer a) = Some (sid, CtxA ctxA)
        \<and> classifySwapOffer T (st_offer b) = Some (sid, CtxB ctxB)
        \<and> legAOfferId ctxB = of_id (st_offer a)
        \<and> checkOrientation T (st_offer a) (CtxA ctxA) R = None
        \<and> checkOrientation T (st_offer b) (CtxB ctxB) R = None)"

lemma status_of_steps [simp]:
  "sv_status (at_status s v) = s" "sv_status (push r v) = sv_status v"
  "sv_status (pushes rs v) = sv_status v" "sv_status (with_secret c v) = sv_status v"
  "sv_status (refund_notes a b v) = sv_status v" "sv_status (refund_a_note b v) = sv_status v"
  "sv_status (cross_notes inp a v) = sv_status v" "sv_status (leg_b_notes a b v) = sv_status v"
  by (simp_all add: at_status_def push_def pushes_def with_secret_def refund_notes_def refund_a_note_def
      cross_notes_def leg_b_notes_def Let_def split: option.split)

lemma evidence_of_notes [simp]:
  "sv_evidence (at_status s v) = sv_evidence v" "sv_evidence (push r v) = sv_evidence v"
  "sv_evidence (pushes rs v) = sv_evidence v"
  "sv_evidence (with_secret c v) = sv_evidence v" "sv_evidence (refund_notes a b v) = sv_evidence v"
  "sv_evidence (cross_notes inp a v) = sv_evidence v" "sv_evidence (leg_b_notes a b v) = sv_evidence v"
  by (simp_all add: at_status_def push_def pushes_def with_secret_def refund_notes_def
      cross_notes_def leg_b_notes_def Let_def split: option.split)

lemma fold_lock_a_verdict:
  assumes "fold_lock_a T n a v = Some w" "st_status b = ''locked''" "lock_confirmed T b (ev_b (sv_evidence v))"
  shows "verdict_ok T a b (sv_evidence v) (sv_status w)"
  using assms
  by (auto simp: fold_lock_a_def evaluateLock_Corroborated split: if_split_asm option.splits lock_evaluation.splits)

lemma fold_locks_verdict:
  assumes "fold_locks T n a b v = Some w"
  shows "verdict_ok T a b (sv_evidence v) (sv_status w)"
proof (cases "st_status b = ''locked''")
  case False
  with assms show ?thesis by (auto simp: fold_locks_def split: if_split_asm)
next
  case True
  with assms obtain expected where e: "lockTerms T b = Some expected"
    by (auto simp: fold_locks_def split: option.splits)
  show ?thesis
  proof (cases "evaluateLock (ev_b (sv_evidence v)) expected LegB b")
    case Corroborated
    then have "lock_confirmed T b (ev_b (sv_evidence v))" using e by (simp add: evaluateLock_Corroborated)
    moreover have "fold_lock_a T n a v = Some w"
      using assms True e Corroborated by (simp add: fold_locks_def)
    ultimately show ?thesis using True by (intro fold_lock_a_verdict)
  next
    case (Uncorroborated why)
    with assms True e show ?thesis by (auto simp: fold_locks_def)
  qed
qed

lemma fold_claims_verdict:
  assumes "fold_claims T n a b v = Some w"
  shows "verdict_ok T a b (sv_evidence v) (sv_status w)"
proof (cases "st_status a = ''claimed'' \<or> st_status b = ''claimed''")
  case True
  with assms show ?thesis by (auto simp: fold_claims_def Let_def split: if_split_asm)
next
  case False
  with assms show ?thesis by (simp add: fold_claims_def fold_locks_verdict)
qed

lemma fold_refunds_verdict:
  assumes "fold_refunds T n a b v = Some w"
  shows "verdict_ok T a b (sv_evidence v) (sv_status w)"
proof (cases "refunded_in LegA a (ev_aRail (sv_evidence v)) \<or> refunded_in LegB b (ev_bRail (sv_evidence v))")
  case True
  with assms show ?thesis by (auto simp: fold_refunds_def Let_def split: if_split_asm)
next
  case False
  with assms have "fold_claims T n a b (refund_notes a b v) = Some w"
    by (simp add: fold_refunds_def Let_def)
  from fold_claims_verdict [OF this] show ?thesis by simp
qed

lemma fold_crossed_verdict:
  assumes "fold_crossed T inp a b v = Some w"
  shows "sv_status w = sv_status v \<or> (crossed a b \<and> verdict_ok T a b (sv_evidence v) (sv_status w))"
proof (cases "crossed a b")
  case True
  then have "w = at_status Abandoned (push (LegCancelled (if st_status a = ''cancelled'' then LegA else LegB)) (cross_notes inp a v))
    \<or> fold_refunds T (in_nowMs inp) a b (cross_notes inp a v) = Some w"
    using assms by (auto simp: fold_crossed_def crossed_def split: if_split_asm)
  then show ?thesis using True fold_refunds_verdict by fastforce
next
  case False
  with assms have "w \<in> {push PartiesMissing v, push PartiesDoNotCross v, push StatementsDiffer v}"
    by (auto simp: fold_crossed_def crossed_def split: if_split_asm)
  then show ?thesis by auto
qed

definition early :: "swap_status set" where
  "early = {Bid, Accepted, Unpaired, OrientationUnsupported}"

lemma fold_paired_verdict:
  assumes "fold_paired T inp a b v = Some w" "sv_status v = Unpaired"
  shows "sv_status w \<in> early \<or> (crossed a b \<and> verdict_ok T a b (sv_evidence v) (sv_status w))"
  using assms fold_crossed_verdict [of T inp a b v w]
  by (auto simp: fold_paired_def early_def split: if_split_asm)

lemma fold_leg_b_verdict:
  assumes "fold_leg_b T inp sid a b v = Some w" "sv_status v = Unpaired"
    and "classifySwapOffer T (st_offer a) = Some (sid, CtxA ctxA)"
    and "checkOrientation T (st_offer a) (CtxA ctxA) (in_railRegistry inp) = None"
  shows "sv_status w \<in> early \<or>
    (oriented_pair T (in_railRegistry inp) a b \<and> crossed a b \<and> verdict_ok T a b (sv_evidence v) (sv_status w))"
proof (cases "oriented_pair T (in_railRegistry inp) a b")
  case True
  then obtain ctx where "fold_paired T inp a b (leg_b_notes a b (v\<lparr>sv_legBOfferId := Some (of_id (st_offer b))\<rparr>)) = Some w"
    using assms by (auto simp: oriented_pair_def fold_leg_b_def Let_def)
  from fold_paired_verdict [OF this] show ?thesis using True assms(2) by simp
next
  case False
  then have "sv_status w = OrientationUnsupported \<or> sv_status w = sv_status v"
    using assms
    by (auto simp: oriented_pair_def fold_leg_b_def Let_def
        split: if_split_asm option.splits prod.splits swap_context.splits)
  then show ?thesis using assms(2) by (auto simp: early_def)
qed

lemma fold_without_b_status:
  "sv_status v = Unpaired \<Longrightarrow> sv_status (fold_without_b a v) \<notin> early \<Longrightarrow>
     sv_status (fold_without_b a v) = Abandoned
     \<or> (sv_status (fold_without_b a v) = RefundedA \<and> st_status a = ''refunded''
         \<and> refunded_in LegA a (ev_aRail (sv_evidence v)))"
  by (auto simp: fold_without_b_def Let_def early_def split: if_split_asm)

lemma initial_view_fields [simp]:
  "sv_status (initial_view T inp) = Unpaired"
  "sv_legA (initial_view T inp) = foldLeg T (in_legA inp)"
  "sv_legB (initial_view T inp) = foldLeg T (in_legB inp)"
  "ev_a (sv_evidence (initial_view T inp)) = ev_a (supplied inp)"
  "ev_b (sv_evidence (initial_view T inp)) = ev_b (supplied inp)"
  "ev_aRail (sv_evidence (initial_view T inp))
     = fst (bindObservation T LegA (state_of (foldLeg T (in_legA inp))) (ev_aRail (supplied inp)))"
  "ev_bRail (sv_evidence (initial_view T inp))
     = fst (bindObservation T LegB (state_of (foldLeg T (in_legB inp))) (ev_bRail (supplied inp)))"
  by (simp_all add: initial_view_def Let_def split: prod.split)

text \<open>The shape of every verdict of the fold.\<close>

lemma foldSwap_verdict:
  assumes "foldSwap T inp = Some w"
  obtains (early) "sv_status w \<in> early"
  | (alone) a where "state_of (sv_legA w) = Some a" "state_of (sv_legB w) = None"
      "sv_status w = Abandoned \<or> sv_status w = RefundedA \<and> st_status a = ''refunded''
         \<and> refunded_in LegA a (ev_aRail (sv_evidence w))"
  | (paired) a b where "state_of (sv_legA w) = Some a" "state_of (sv_legB w) = Some b"
      "oriented_pair T (in_railRegistry inp) a b" "crossed a b" "verdict_ok T a b (sv_evidence w) (sv_status w)"
proof -
  note base = foldSwap_base [OF assms]
  define v where "v = initial_view T inp"
  have ev: "sv_evidence w = sv_evidence v" "sv_legA w = sv_legA v" "sv_legB w = sv_legB v"
    using base by (simp_all add: same_base_def v_def)
  have f: "fold_leg_a T inp v = Some w" using assms by (simp add: foldSwap_def v_def)
  have st: "sv_status v = Unpaired" by (simp add: v_def)
  show thesis
  proof (cases "sv_status w \<in> early")
    case True
    then show ?thesis by (rule early)
  next
    case False
    then obtain a sid ctx where a: "state_of (sv_legA v) = Some a"
      and c: "classifySwapOffer T (st_offer a) = Some (sid, CtxA ctx)"
      and o: "checkOrientation T (st_offer a) (CtxA ctx) (in_railRegistry inp) = None"
      using f st
      by (fastforce simp: fold_leg_a_def Let_def early_def split: option.splits prod.splits swap_context.splits)
    define u where "u = v\<lparr>sv_legAOfferId := Some (of_id (st_offer a)), sv_swapId := Some sid,
      sv_feeBps := Some (feeBps ctx), sv_buyerDid := Some (of_from (st_offer a))\<rparr>"
    have u: "sv_status u = Unpaired" "sv_evidence u = sv_evidence v" using st by (simp_all add: u_def)
    show ?thesis
    proof (cases "state_of (sv_legB v)")
      case None
      then have "w = fold_without_b a u"
        using f a c o by (simp add: fold_leg_a_def Let_def u_def)
      then show ?thesis
        using alone [of a] fold_without_b_status [OF u(1), of a] False a None ev u by auto
    next
      case (Some b)
      then have "fold_leg_b T inp sid a b u = Some w"
        using f a c o by (simp add: fold_leg_a_def Let_def u_def)
      from fold_leg_b_verdict [OF this u(1) c o] False
      show ?thesis using paired [of a b] a Some ev u by auto
    qed
  qed
qed

section \<open>Totality and the clock\<close>

lemma fold_lock_a_total: "(st_status a = ''locked'' \<Longrightarrow> lockTerms T a \<noteq> None) \<Longrightarrow> fold_lock_a T n a v \<noteq> None"
  by (auto simp: fold_lock_a_def split: lock_evaluation.splits)

lemma fold_locks_total:
  assumes "st_status a = ''locked'' \<Longrightarrow> lockTerms T a \<noteq> None" "st_status b = ''locked'' \<Longrightarrow> lockTerms T b \<noteq> None"
  shows "fold_locks T n a b v \<noteq> None"
  using assms fold_lock_a_total [of a T n v] by (auto simp: fold_locks_def split: lock_evaluation.splits)

lemma fold_crossed_total:
  assumes "st_status a = ''locked'' \<Longrightarrow> lockTerms T a \<noteq> None" "st_status b = ''locked'' \<Longrightarrow> lockTerms T b \<noteq> None"
  shows "fold_crossed T inp a b v \<noteq> None"
  using fold_locks_total [OF assms] by (simp add: fold_crossed_def fold_refunds_def fold_claims_def Let_def)

lemma fold_leg_b_total:
  assumes "st_status a = ''locked'' \<Longrightarrow> lockTerms T a \<noteq> None" "st_status b = ''locked'' \<Longrightarrow> lockTerms T b \<noteq> None"
  shows "fold_leg_b T inp sid a b v \<noteq> None"
  using fold_crossed_total [OF assms]
  by (simp add: fold_leg_b_def fold_paired_def Let_def split: option.split swap_context.split prod.split)

lemma fold_leg_a_total:
  assumes "\<And>s. state_of (sv_legA v) = Some s \<Longrightarrow> st_status s = ''locked'' \<Longrightarrow> lockTerms T s \<noteq> None"
    and "\<And>s. state_of (sv_legB v) = Some s \<Longrightarrow> st_status s = ''locked'' \<Longrightarrow> lockTerms T s \<noteq> None"
  shows "fold_leg_a T inp v \<noteq> None"
  using assms fold_leg_b_total [of _ T]
  by (simp add: fold_leg_a_def Let_def split: option.split swap_context.split prod.split)

lemma locked_state_terms:
  assumes "tclk_lock_ok T" "state_of (foldLeg T records) = Some s" "st_status s = ''locked''"
  shows "lockTerms T s \<noteq> None"
  using assms unfolding tclk_lock_ok_def past_accept_def foldLeg_def state_of_def
  by (auto split: if_split_asm)

text \<open>Time passing can only abandon a swap that is still waiting for a lock.\<close>

definition later_view :: "swap_view \<Rightarrow> swap_view \<Rightarrow> bool" where
  "later_view w w' \<longleftrightarrow>
     w' = w \<or> (sv_status w \<in> {Paired, BLocked} \<and> sv_status w' = Abandoned \<and> same_base w w')"

lemma fold_lock_a_later:
  assumes "fold_lock_a T n a v = Some w" "n \<le> m"
  shows "\<exists>w'. fold_lock_a T m a v = Some w' \<and> later_view w w'"
  using assms
  by (auto simp: fold_lock_a_def later_view_def same_base_def at_status_def push_def split: if_split_asm)

lemma fold_locks_later:
  assumes "fold_locks T n a b v = Some w" "n \<le> m"
  shows "\<exists>w'. fold_locks T m a b v = Some w' \<and> later_view w w'"
proof (cases "st_status b = ''locked''")
  case False
  with assms show ?thesis
    by (auto simp: fold_locks_def later_view_def same_base_def at_status_def push_def split: if_split_asm)
next
  case True
  with assms show ?thesis
    using fold_lock_a_later [of T n a v w m]
    by (auto simp: fold_locks_def later_view_def split: option.splits lock_evaluation.splits)
qed

lemma fold_claims_later:
  "fold_claims T n a b v = Some w \<Longrightarrow> n \<le> m \<Longrightarrow> \<exists>w'. fold_claims T m a b v = Some w' \<and> later_view w w'"
  using fold_locks_later [of T n a b v w m] by (auto simp: fold_claims_def Let_def later_view_def)

lemma fold_refunds_later:
  "fold_refunds T n a b v = Some w \<Longrightarrow> n \<le> m \<Longrightarrow> \<exists>w'. fold_refunds T m a b v = Some w' \<and> later_view w w'"
  using fold_claims_later [of T n a b "refund_notes a b v" w m]
  by (auto simp: fold_refunds_def Let_def later_view_def)

lemma fold_crossed_later:
  assumes "fold_crossed T inp a b v = Some w" "in_nowMs inp \<le> m"
  shows "\<exists>w'. fold_crossed T (inp\<lparr>in_nowMs := m\<rparr>) a b v = Some w' \<and> later_view w w'"
proof -
  have "cross_notes (inp\<lparr>in_nowMs := m\<rparr>) a v = cross_notes inp a v" by (simp add: cross_notes_def)
  then show ?thesis
    using assms fold_refunds_later [of T "in_nowMs inp" a b "cross_notes inp a v" w m]
    by (auto simp: fold_crossed_def later_view_def split: if_split_asm)
qed

lemma fold_leg_b_later:
  assumes "fold_leg_b T inp sid a b v = Some w" "in_nowMs inp \<le> m"
  shows "\<exists>w'. fold_leg_b T (inp\<lparr>in_nowMs := m\<rparr>) sid a b v = Some w' \<and> later_view w w'"
proof -
  have "\<exists>w'. fold_paired T (inp\<lparr>in_nowMs := m\<rparr>) a b u = Some w' \<and> later_view w w'"
    if "fold_paired T inp a b u = Some w" for u
    using that fold_crossed_later [OF _ assms(2), of T a b u w]
    by (auto simp: fold_paired_def later_view_def split: if_split_asm)
  note p = this
  show ?thesis
  proof (cases "\<exists>ctx. classifySwapOffer T (st_offer b) = Some (sid, CtxB ctx)
      \<and> legAOfferId ctx = of_id (st_offer a)
      \<and> checkOrientation T (st_offer b) (CtxB ctx) (in_railRegistry inp) = None")
    case True
    then show ?thesis using assms(1) p by (auto simp: fold_leg_b_def Let_def)
  next
    case False
    then have "fold_leg_b T (inp\<lparr>in_nowMs := m\<rparr>) sid a b v = fold_leg_b T inp sid a b v"
      by (fastforce simp: fold_leg_b_def Let_def split: option.split prod.split swap_context.split)
    then show ?thesis using assms(1) by (simp add: later_view_def)
  qed
qed

lemma foldSwap_later:
  assumes "foldSwap T inp = Some w" "in_nowMs inp \<le> m"
  shows "\<exists>w'. foldSwap T (inp\<lparr>in_nowMs := m\<rparr>) = Some w' \<and> later_view w w'"
proof -
  have "initial_view T (inp\<lparr>in_nowMs := m\<rparr>) = initial_view T inp"
    by (simp add: initial_view_def supplied_def)
  moreover have "\<exists>w'. fold_leg_a T (inp\<lparr>in_nowMs := m\<rparr>) v = Some w' \<and> later_view w w'"
    if f: "fold_leg_a T inp v = Some w" for v
  proof (cases "\<exists>a sid ctx b. state_of (sv_legA v) = Some a \<and> state_of (sv_legB v) = Some b
      \<and> classifySwapOffer T (st_offer a) = Some (sid, CtxA ctx)
      \<and> checkOrientation T (st_offer a) (CtxA ctx) (in_railRegistry inp) = None")
    case True
    then show ?thesis
      using f fold_leg_b_later [OF _ assms(2), of T] by (auto simp: fold_leg_a_def Let_def)
  next
    case False
    then have "fold_leg_a T (inp\<lparr>in_nowMs := m\<rparr>) v = fold_leg_a T inp v"
      by (fastforce simp: fold_leg_a_def Let_def split: option.split prod.split swap_context.split)
    then show ?thesis using f by (simp add: later_view_def)
  qed
  ultimately show ?thesis using assms(1) by (simp add: foldSwap_def)
qed

section \<open>Verdicts do not depend on the reasons so far\<close>

definition quiet :: "swap_view \<Rightarrow> swap_view" where
  "quiet v = v\<lparr>sv_reasons := []\<rparr>"

lemma quiet_evidence: "quiet u = quiet v \<Longrightarrow> sv_evidence u = sv_evidence v"
  and quiet_legs: "quiet u = quiet v \<Longrightarrow> sv_legA u = sv_legA v" "quiet u = quiet v \<Longrightarrow> sv_legB u = sv_legB v"
  by (cases u; cases v; simp add: quiet_def)+

lemma quiet_steps:
  "quiet u = quiet v \<Longrightarrow> quiet (push r u) = quiet (push r' v)"
  "quiet u = quiet v \<Longrightarrow> quiet (pushes rs u) = quiet (pushes rs' v)"
  "quiet u = quiet v \<Longrightarrow> quiet (at_status s u) = quiet (at_status s v)"
  "quiet u = quiet v \<Longrightarrow> quiet (with_secret c u) = quiet (with_secret c v)"
  "quiet u = quiet v \<Longrightarrow> quiet (leg_b_notes a b u) = quiet (leg_b_notes a b v)"
  by (cases u; cases v; simp add: quiet_def push_def pushes_def at_status_def with_secret_def
      leg_b_notes_def Let_def split: option.split)+

lemma quiet_push: "quiet (push r u) = quiet u" "quiet (pushes rs u) = quiet u"
  by (simp_all add: quiet_def push_def pushes_def)

lemma quiet_refunds:
  "quiet (refund_notes a b u) = quiet u" "quiet (refund_a_note b u) = quiet u"
  by (simp_all add: refund_notes_def refund_a_note_def Let_def quiet_push)

lemma quiet_cross: "quiet u = quiet v \<Longrightarrow> quiet (cross_notes inp a u) = quiet (cross_notes inp a v)"
  by (cases u; cases v) (auto simp: quiet_def cross_notes_def push_def Let_def)

lemma fold_locks_quiet:
  "quiet u = quiet v \<Longrightarrow> map_option quiet (fold_locks T n a b u) = map_option quiet (fold_locks T n a b v)"
  using quiet_evidence [of u v] quiet_steps [of u v]
  by (auto simp: fold_locks_def fold_lock_a_def quiet_push intro!: quiet_steps
      split: option.split lock_evaluation.split)

lemma fold_claims_quiet:
  "quiet u = quiet v \<Longrightarrow> map_option quiet (fold_claims T n a b u) = map_option quiet (fold_claims T n a b v)"
  using quiet_evidence [of u v] fold_locks_quiet [of u v T n a b]
  by (auto simp: fold_claims_def Let_def intro!: quiet_steps)

lemma fold_refunds_quiet:
  assumes "quiet u = quiet v"
  shows "map_option quiet (fold_refunds T n a b u) = map_option quiet (fold_refunds T n a b v)"
  using assms quiet_evidence [OF assms] fold_claims_quiet [of "refund_notes a b u" "refund_notes a b v" T n a b]
  by (auto simp: fold_refunds_def Let_def quiet_refunds intro!: quiet_steps(3))

lemma fold_crossed_quiet:
  assumes "quiet u = quiet v"
  shows "map_option quiet (fold_crossed T inp a b u) = map_option quiet (fold_crossed T inp a b v)"
  using assms fold_refunds_quiet [OF quiet_cross [OF assms], of T "in_nowMs inp" a b inp a]
  by (auto simp: fold_crossed_def intro!: quiet_steps quiet_cross)

lemma fold_leg_b_quiet:
  assumes "quiet u = quiet v"
  shows "map_option quiet (fold_leg_b T inp sid a b u) = map_option quiet (fold_leg_b T inp sid a b v)"
proof -
  have p: "map_option quiet (fold_paired T inp a b x) = map_option quiet (fold_paired T inp a b y)"
    if "quiet x = quiet y" for x y
    using that fold_crossed_quiet [OF that, of T inp a b] by (auto simp: fold_paired_def intro!: quiet_steps)
  have b: "quiet (u\<lparr>sv_legBOfferId := i\<rparr>) = quiet (v\<lparr>sv_legBOfferId := i\<rparr>)" for i
    using assms by (cases u; cases v) (simp add: quiet_def)
  show ?thesis
    by (auto simp: fold_leg_b_def Let_def intro!: quiet_steps b p
        split: option.split prod.split swap_context.split)
qed

lemma fold_leg_a_quiet:
  assumes "quiet u = quiet v"
  shows "map_option quiet (fold_leg_a T inp u) = map_option quiet (fold_leg_a T inp v)"
proof -
  have q: "quiet (u\<lparr>sv_legAOfferId := i\<rparr>) = quiet (v\<lparr>sv_legAOfferId := i\<rparr>)"
    "quiet (u\<lparr>sv_legAOfferId := i, sv_swapId := j, sv_feeBps := k\<rparr>)
       = quiet (v\<lparr>sv_legAOfferId := i, sv_swapId := j, sv_feeBps := k\<rparr>)"
    "quiet (u\<lparr>sv_legAOfferId := i, sv_swapId := j, sv_feeBps := k, sv_buyerDid := d\<rparr>)
       = quiet (v\<lparr>sv_legAOfferId := i, sv_swapId := j, sv_feeBps := k, sv_buyerDid := d\<rparr>)" for i j k d
    using assms by (cases u; cases v; simp add: quiet_def)+
  have w: "quiet (fold_without_b a x) = quiet (fold_without_b a y)" if "quiet x = quiet y" for a x y
    using that quiet_evidence [OF that]
    by (cases x; cases y) (auto simp: fold_without_b_def Let_def quiet_def push_def pushes_def at_status_def)
  show ?thesis
    using assms quiet_legs [OF assms]
    by (auto simp: fold_leg_a_def Let_def intro!: quiet_steps q w fold_leg_b_quiet
        split: option.split prod.split swap_context.split)
qed

section \<open>Evidence reaching a verdict is bound\<close>

lemma evidence_bound:
  assumes "foldSwap T inp = Some w"
  shows "ev_aRail (sv_evidence w) = Some ob \<Longrightarrow>
      ev_aRail (supplied inp) = Some ob \<and> bound_to T (state_of (sv_legA w)) ob"
    and "ev_bRail (sv_evidence w) = Some ob \<Longrightarrow>
      ev_bRail (supplied inp) = Some ob \<and> bound_to T (state_of (sv_legB w)) ob"
    and "ev_a (sv_evidence w) = ev_a (supplied inp)" "ev_b (sv_evidence w) = ev_b (supplied inp)"
    and "sv_legA w = foldLeg T (in_legA inp)" "sv_legB w = foldLeg T (in_legB inp)"
  using foldSwap_base [OF assms] by (auto simp: same_base_def bindObservation_Some)

text \<open>A final observation of a status, bound to the leg it is used for.\<close>

definition final_bound :: "tclk \<Rightarrow> contract_state \<Rightarrow> rail_status \<Rightarrow> rail_observation option \<Rightarrow> bool" where
  "final_bound T s st observation \<longleftrightarrow>
     (\<exists>ob. observation = Some ob \<and> ob_status ob = st \<and> ob_final ob \<and> bound_to T (Some s) ob)"

lemma observed_final_bound:
  assumes "foldSwap T inp = Some w"
  shows "state_of (sv_legA w) = Some a \<Longrightarrow> observed st (ev_aRail (sv_evidence w)) \<Longrightarrow>
      final_bound T a st (ev_aRail (supplied inp))"
    and "state_of (sv_legB w) = Some b \<Longrightarrow> observed st (ev_bRail (sv_evidence w)) \<Longrightarrow>
      final_bound T b st (ev_bRail (supplied inp))"
  using evidence_bound(1,2) [OF assms]
  by (auto simp: observed_def final_bound_def split: option.splits)

lemma refunded_in_iff:
  "refunded_in leg s rail \<longleftrightarrow>
     observed RRefunded rail \<or> (st_status s = ''refunded'' \<and> st_rail s = Some PAPER_RAIL_ID \<and> rail = None)"
  by (auto simp: refunded_in_def refundedFold_def observed_def)

text \<open>Where the theft reason comes from: only the note on a refunded leg A pushes it.\<close>

definition accuses :: "swap_view \<Rightarrow> bool" where
  "accuses v \<longleftrightarrow> LegARefundedAfterBClaimed \<in> set (sv_reasons v)"

lemma refundedFold_accuses: "LegARefundedAfterBClaimed \<notin> set (snd (refundedFold leg s r))"
  by (simp add: refundedFold_def split: option.split)

lemma accuses_steps [simp]:
  "accuses (push r v) \<longleftrightarrow> accuses v \<or> r = LegARefundedAfterBClaimed"
  "accuses (pushes (snd (refundedFold leg s ob)) v) \<longleftrightarrow> accuses v"
  "accuses (at_status st v) \<longleftrightarrow> accuses v" "accuses (with_secret c v) \<longleftrightarrow> accuses v"
  "accuses (v\<lparr>sv_coordinationOnly := cs\<rparr>) \<longleftrightarrow> accuses v"
  "accuses (v\<lparr>sv_legBOfferId := x\<rparr>) \<longleftrightarrow> accuses v"
  "accuses (v\<lparr>sv_buyerDid := y\<rparr>) \<longleftrightarrow> accuses v" "accuses (v\<lparr>sv_sellerDid := y\<rparr>) \<longleftrightarrow> accuses v"
  "accuses (v\<lparr>sv_legAOfferId := x\<rparr>) \<longleftrightarrow> accuses v" "accuses (v\<lparr>sv_pairKey := x\<rparr>) \<longleftrightarrow> accuses v"
  "accuses (v\<lparr>sv_swapId := x\<rparr>) \<longleftrightarrow> accuses v" "accuses (v\<lparr>sv_feeBps := z\<rparr>) \<longleftrightarrow> accuses v"
  using refundedFold_accuses
  by (auto simp: accuses_def push_def pushes_def at_status_def with_secret_def split: option.split)

lemma accuses_update [simp]:
  "accuses (v\<lparr>sv_buyerDid := x, sv_sellerDid := y\<rparr>) \<longleftrightarrow> accuses v"
  "accuses (v\<lparr>sv_sellerDid := x, sv_pairKey := y\<rparr>) \<longleftrightarrow> accuses v"
  "accuses (v\<lparr>sv_legAOfferId := x, sv_swapId := y, sv_feeBps := z\<rparr>) \<longleftrightarrow> accuses v"
  "accuses (v\<lparr>sv_legAOfferId := x, sv_swapId := y, sv_feeBps := z, sv_buyerDid := d\<rparr>) \<longleftrightarrow> accuses v"
  by (simp_all add: accuses_def)

lemma accuses_notes [simp]:
  "accuses (refund_notes a b v) \<longleftrightarrow> accuses v" "accuses (cross_notes inp a v) \<longleftrightarrow> accuses v"
  "accuses (leg_b_notes a b v) \<longleftrightarrow> accuses v" "accuses (fold_without_b a v) \<longleftrightarrow> accuses v"
  by (simp_all add: refund_notes_def cross_notes_def leg_b_notes_def fold_without_b_def Let_def split: option.split)

lemma evaluateLock_accuses: "evaluateLock e x leg s \<noteq> Uncorroborated (Some LegARefundedAfterBClaimed)"
  by (simp add: evaluateLock_def split: option.split)

lemma fold_claims_accuses: "fold_claims T n a b v = Some w \<Longrightarrow> accuses w \<longleftrightarrow> accuses v"
  using evaluateLock_accuses
  by (auto simp: fold_claims_def fold_locks_def fold_lock_a_def Let_def
      split: if_split_asm option.splits lock_evaluation.splits)

lemma fold_refunds_accuses:
  "fold_refunds T n a b v = Some w \<Longrightarrow> accuses w \<Longrightarrow> \<not> accuses v \<Longrightarrow>
     sv_status w = RefundedA \<and> theft_proven (ev_bRail (sv_evidence v)) (ev_aRail (sv_evidence v))"
  using fold_claims_accuses [of T n a b "refund_notes a b v" w]
  by (auto simp: fold_refunds_def refund_a_note_def Let_def split: if_split_asm)

lemma fold_leg_b_accuses:
  assumes "fold_leg_b T inp sid a b v = Some w" "accuses w" "\<not> accuses v"
  shows "sv_status w = RefundedA \<and> theft_proven (ev_bRail (sv_evidence v)) (ev_aRail (sv_evidence v))"
proof -
  have "fold_paired T inp a b u = Some w \<Longrightarrow> \<not> accuses u \<Longrightarrow>
      sv_status w = RefundedA \<and> theft_proven (ev_bRail (sv_evidence u)) (ev_aRail (sv_evidence u))" for u
    using assms(2) fold_refunds_accuses [of T "in_nowMs inp" a b "cross_notes inp a u" w]
    by (auto simp: fold_paired_def fold_crossed_def split: if_split_asm)
  then show ?thesis
    using assms
    by (fastforce simp: fold_leg_b_def Let_def split: if_split_asm option.splits prod.splits swap_context.splits)
qed

lemma fold_leg_a_accuses:
  assumes "fold_leg_a T inp v = Some w" "accuses w" "\<not> accuses v"
  shows "sv_status w = RefundedA \<and> theft_proven (ev_bRail (sv_evidence v)) (ev_aRail (sv_evidence v))"
proof -
  obtain sid a b u where "fold_leg_b T inp sid a b u = Some w" "\<not> accuses u" "sv_evidence u = sv_evidence v"
    using assms
    by (fastforce simp: fold_leg_a_def Let_def split: if_split_asm option.splits prod.splits swap_context.splits)
  then show ?thesis using fold_leg_b_accuses assms(2) by metis
qed

lemma initial_view_accuses: "\<not> accuses (initial_view T inp)"
  by (auto simp: accuses_def initial_view_def Let_def collectStepReasons_def bindObservation_def
      split: prod.splits option.splits)

end
