(* ===== verification/Swap_Properties.thy ===== *)
theory Swap_Properties
  imports Swap_Fold
begin

text \<open>
  The properties of the composite fold: what each verdict of \<open>foldSwap\<close> rests on, which
  part of its input can change a verdict, and exactly when it answers which. Each witness evaluates the fold on
  the concrete pair of \<open>Desk_Demo\<close>.
\<close>

section \<open>Properties of the fold\<close>

text \<open>The concrete swap of the witnesses: its two transcripts end with the given lines.\<close>

definition demo_input :: "string \<Rightarrow> string \<Rightarrow> swap_evidence \<Rightarrow> swap_fold_input" where
  "demo_input lineA lineB ev =
     \<lparr>in_legA = [demo_record ''tclk-offers'' 1 demo_buyer ''offer A'', demo_record ''mb'' 3 demo_buyer lineA],
      in_legB = [demo_record ''tclk-offers'' 2 demo_seller ''offer B'', demo_record ''mb'' 4 demo_seller lineB],
      in_evidence = Some ev, in_nowMs = 500, in_railRegistry = None\<rparr>"

definition demo_evidence :: "rail_status \<Rightarrow> rail_status \<Rightarrow> int \<Rightarrow> int \<Rightarrow> swap_evidence" where
  "demo_evidence sa sb ta tb =
     \<lparr>ev_a = Some (demo_lock ''evm-htlc'' demo_terms_a), ev_b = Some (demo_lock ''flop-htlc'' demo_terms_b),
      ev_aRail = Some (demo_observation sa ''evm-htlc'' demo_terms_a ta),
      ev_bRail = Some (demo_observation sb ''flop-htlc'' demo_terms_b tb)\<rparr>"

text \<open>C1. A swap is reported settled only when both machines are claimed, the parties cross over
  one statement, and for each leg the caller supplied a final \<open>claimed\<close> observation that is
  bound, in its rail, reference, contract and all nine terms, to that leg's accepted lock.\<close>

theorem settled_sound:
  assumes "foldSwap T inp = Some w" "sv_status w = Settled"
  shows "\<exists>a b. state_of (foldLeg T (in_legA inp)) = Some a \<and> state_of (foldLeg T (in_legB inp)) = Some b
    \<and> st_status a = ''claimed'' \<and> st_status b = ''claimed'' \<and> crossed a b
    \<and> oriented_pair T (in_railRegistry inp) a b
    \<and> final_bound T a RClaimed (ev_aRail (supplied inp))
    \<and> final_bound T b RClaimed (ev_bRail (supplied inp))"
  using foldSwap_verdict [OF assms(1)] assms(2) observed_final_bound [OF assms(1)] evidence_bound(5,6) [OF assms(1)]
  by (cases rule: foldSwap_verdict [OF assms(1)]) (auto simp: early_def)

theorem settled_sound_witness:
  "sv_status (the (foldSwap demo_tclk (demo_input ''reveal'' ''reveal'' (demo_evidence RClaimed RClaimed 7 8)))) = Settled
   \<and> (\<exists>a. final_bound demo_tclk a RClaimed (Some (demo_observation RClaimed ''evm-htlc'' demo_terms_a 7)))"
proof -
  let ?i = "demo_input ''reveal'' ''reveal'' (demo_evidence RClaimed RClaimed 7 8)"
  have s: "map_option sv_status (foldSwap demo_tclk ?i) = Some Settled" by code_simp
  then obtain w where w: "foldSwap demo_tclk ?i = Some w" "sv_status w = Settled" by auto
  from settled_sound [OF w] show ?thesis
    using w by (auto simp: supplied_def demo_input_def demo_evidence_def)
qed

text \<open>C3. A lock counts only with evidence naming the accepted rail and reference, equal to the
  accepted terms in all nine fields and confirmed by the rail itself: for leg B in every verdict
  from b-locked on, and for leg A in a-locked.\<close>

theorem locked_sound:
  assumes "foldSwap T inp = Some w" "sv_status w = BLocked \<or> sv_status w = ALocked"
  shows "\<exists>a b. state_of (foldLeg T (in_legA inp)) = Some a \<and> state_of (foldLeg T (in_legB inp)) = Some b
    \<and> crossed a b \<and> st_status b = ''locked'' \<and> lock_confirmed T b (ev_b (supplied inp))
    \<and> (sv_status w = ALocked \<longrightarrow> st_status a = ''locked'' \<and> lock_confirmed T a (ev_a (supplied inp)))"
  using assms(2) evidence_bound(3-6) [OF assms(1)]
  by (cases rule: foldSwap_verdict [OF assms(1)]) (auto simp: early_def)

theorem locked_sound_witness:
  "sv_status (the (foldSwap demo_tclk (demo_input ''lock'' ''lock'' (demo_evidence RLocked RLocked 7 8)))) = ALocked
   \<and> (\<exists>a. lock_confirmed demo_tclk a (Some (demo_lock ''evm-htlc'' demo_terms_a)))"
proof -
  let ?i = "demo_input ''lock'' ''lock'' (demo_evidence RLocked RLocked 7 8)"
  have "map_option sv_status (foldSwap demo_tclk ?i) = Some ALocked" by code_simp
  then obtain w where w: "foldSwap demo_tclk ?i = Some w" "sv_status w = ALocked" by auto
  from locked_sound [OF w(1)] show ?thesis
    using w by (auto simp: supplied_def demo_input_def demo_evidence_def)
qed

text \<open>C2. A refund verdict needs, for each leg it names, a bound final \<open>refunded\<close>
  observation; only a leg on the paper rail that has no usable observation folds from its refund
  frame alone.\<close>

theorem refunded_sound:
  assumes "foldSwap T inp = Some w" "sv_status w \<in> {RefundedA, RefundedB, Refunded}"
  shows "(sv_status w \<noteq> RefundedB \<longrightarrow> (\<exists>a. state_of (foldLeg T (in_legA inp)) = Some a
      \<and> (final_bound T a RRefunded (ev_aRail (supplied inp))
         \<or> st_status a = ''refunded'' \<and> st_rail a = Some PAPER_RAIL_ID)))
    \<and> (sv_status w \<noteq> RefundedA \<longrightarrow> (\<exists>b. state_of (foldLeg T (in_legB inp)) = Some b
      \<and> (final_bound T b RRefunded (ev_bRail (supplied inp))
         \<or> st_status b = ''refunded'' \<and> st_rail b = Some PAPER_RAIL_ID)))"
  using assms(2) evidence_bound(5,6) [OF assms(1)] observed_final_bound [OF assms(1)]
  by (cases rule: foldSwap_verdict [OF assms(1)]) (auto simp: early_def refunded_in_iff)

theorem refunded_sound_witness:
  "\<exists>a. final_bound demo_tclk a RRefunded (Some (demo_observation RRefunded ''evm-htlc'' demo_terms_a 9))
     \<or> st_status a = ''refunded'' \<and> st_rail a = Some PAPER_RAIL_ID
       \<and> state_of (foldLeg demo_tclk (in_legA (demo_input ''refund'' ''reveal'' (demo_evidence RRefunded RClaimed 9 8)))) = Some a"
proof -
  let ?i = "demo_input ''refund'' ''reveal'' (demo_evidence RRefunded RClaimed 9 8)"
  have "map_option sv_status (foldSwap demo_tclk ?i) = Some RefundedA" by code_simp
  then obtain w where w: "foldSwap demo_tclk ?i = Some w" "sv_status w = RefundedA" by auto
  from refunded_sound [OF w(1)] w(2) show ?thesis
    by (auto simp: supplied_def demo_input_def demo_evidence_def)
qed

text \<open>The input with every unbound observation removed.\<close>

definition bound_only :: "tclk \<Rightarrow> swap_fold_input \<Rightarrow> swap_fold_input" where
  "bound_only T inp =
     inp\<lparr>in_evidence := Some ((supplied inp)
       \<lparr>ev_aRail := fst (bindObservation T LegA (state_of (foldLeg T (in_legA inp))) (ev_aRail (supplied inp))),
        ev_bRail := fst (bindObservation T LegB (state_of (foldLeg T (in_legB inp))) (ev_bRail (supplied inp)))\<rparr>)\<rparr>"

lemma bindObservation_idem:
  "fst (bindObservation T leg s (fst (bindObservation T leg s x))) = fst (bindObservation T leg s x)"
  by (auto simp: bindObservation_def split: option.splits)

lemma initial_view_bound_only: "quiet (initial_view T (bound_only T inp)) = quiet (initial_view T inp)"
  using bindObservation_idem [of T LegA "state_of (foldLeg T (in_legA inp))" "ev_aRail (supplied inp)"]
    bindObservation_idem [of T LegB "state_of (foldLeg T (in_legB inp))" "ev_bRail (supplied inp)"]
  by (simp add: initial_view_def bound_only_def supplied_def quiet_def Let_def case_prod_beta)

lemma fold_leg_a_reads: "fold_leg_a T (inp\<lparr>in_evidence := e\<rparr>) v = fold_leg_a T inp v"
proof -
  have p: "fold_paired T (inp\<lparr>in_evidence := e\<rparr>) a b u = fold_paired T inp a b u" for a b u
    by (simp add: fold_paired_def fold_crossed_def cross_notes_def)
  have "fold_leg_b T (inp\<lparr>in_evidence := e\<rparr>) sid a b u = fold_leg_b T inp sid a b u" for sid a b u
    by (simp add: fold_leg_b_def p Let_def split: option.split prod.split swap_context.split)
  then show ?thesis
    by (simp add: fold_leg_a_def Let_def split: option.split prod.split swap_context.split)
qed

text \<open>Non-interference: an observation that is not bound to its leg changes nothing but the
  list of reasons. The input with every unbound observation removed folds to the same view.\<close>

theorem unbound_observation_ignored:
  "map_option quiet (foldSwap T (bound_only T inp)) = map_option quiet (foldSwap T inp)"
proof -
  have "foldSwap T (bound_only T inp) = fold_leg_a T inp (initial_view T (bound_only T inp))"
    by (simp add: foldSwap_def bound_only_def fold_leg_a_reads)
  then show ?thesis
    using fold_leg_a_quiet [OF initial_view_bound_only, of T inp] by (simp add: foldSwap_def)
qed

text \<open>The clock can only abandon: a later fold of the same input is the same view, or an
  abandoned one of a swap that was still waiting for a lock. No lock, reveal, settlement or refund
  verdict is ever created or withdrawn by time passing.\<close>

theorem clock_only_abandons:
  assumes "foldSwap T inp = Some w" "in_nowMs inp \<le> m"
  shows "\<exists>w'. foldSwap T (inp\<lparr>in_nowMs := m\<rparr>) = Some w'
    \<and> (w' = w \<or> sv_status w \<in> {Paired, BLocked} \<and> sv_status w' = Abandoned
               \<and> sv_evidence w' = sv_evidence w \<and> sv_legA w' = sv_legA w \<and> sv_legB w' = sv_legB w)"
  using foldSwap_later [OF assms] by (fastforce simp: later_view_def same_base_def)

theorem clock_only_abandons_witness:
  "map_option sv_status (foldSwap demo_tclk (demo_input ''accept'' ''accept'' no_evidence)) = Some Paired
   \<and> (\<exists>w'. foldSwap demo_tclk ((demo_input ''accept'' ''accept'' no_evidence)\<lparr>in_nowMs := 1000\<rparr>) = Some w')"
proof -
  let ?i = "demo_input ''accept'' ''accept'' no_evidence"
  have s: "map_option sv_status (foldSwap demo_tclk ?i) = Some Paired" by code_simp
  then obtain w where w: "foldSwap demo_tclk ?i = Some w" by auto
  have "in_nowMs ?i \<le> 1000" by (simp add: demo_input_def)
  from clock_only_abandons [OF w this] s show ?thesis by auto
qed

text \<open>C38. The accusation that the Seller received neither leg is pushed only with proof: a bound
  final refund of leg A, and a bound final claim of leg B on a rail that holds value, whose chain
  time is earlier.\<close>

theorem theft_accusation_proven:
  assumes "foldSwap T inp = Some w" "LegARefundedAfterBClaimed \<in> set (sv_reasons w)"
  shows "sv_status w = RefundedA \<and> (\<exists>oa ob ta tb.
    ev_aRail (supplied inp) = Some oa \<and> bound_to T (state_of (foldLeg T (in_legA inp))) oa
    \<and> ob_status oa = RRefunded \<and> ob_final oa \<and> ob_transitionAtMs oa = Some ta
    \<and> ev_bRail (supplied inp) = Some ob \<and> bound_to T (state_of (foldLeg T (in_legB inp))) ob
    \<and> ob_status ob = RClaimed \<and> ob_final ob \<and> ob_rail ob \<noteq> Some PAPER_RAIL_ID
    \<and> ob_transitionAtMs ob = Some tb \<and> tb < ta)"
proof -
  have base: "sv_evidence (initial_view T inp) = sv_evidence w"
    using foldSwap_base [OF assms(1)] by (simp add: same_base_def)
  have "sv_status w = RefundedA \<and> theft_proven (ev_bRail (sv_evidence w)) (ev_aRail (sv_evidence w))"
    using fold_leg_a_accuses [of T inp "initial_view T inp" w] assms initial_view_accuses base
    by (simp add: foldSwap_def accuses_def)
  then show ?thesis
    using evidence_bound [OF assms(1)]
    by (auto simp: theft_proven_def split: option.splits)
qed

theorem theft_accusation_proven_witness:
  "\<exists>w. foldSwap demo_tclk (demo_input ''refund'' ''reveal'' (demo_evidence RRefunded RClaimed 9 8)) = Some w
     \<and> LegARefundedAfterBClaimed \<in> set (sv_reasons w) \<and> sv_status w = RefundedA"
proof -
  let ?i = "demo_input ''refund'' ''reveal'' (demo_evidence RRefunded RClaimed 9 8)"
  have "map_option (\<lambda>w. LegARefundedAfterBClaimed \<in> set (sv_reasons w)) (foldSwap demo_tclk ?i) = Some True"
    by code_simp
  then obtain w where w: "foldSwap demo_tclk ?i = Some w" "LegARefundedAfterBClaimed \<in> set (sv_reasons w)" by auto
  from theft_accusation_proven [OF w] w show ?thesis by blast
qed

text \<open>Pairing: every verdict past the bid stage that involves leg B is over two offers under
  one swap id, leg B naming leg A's offer, both oriented as the profile asks, and over two
  contracts whose parties cross on one statement.\<close>

theorem verdict_needs_crossing:
  assumes "foldSwap T inp = Some w"
    and "sv_status w \<in> {Paired, BLocked, ALocked, Revealed, Settled, RefundedB, Refunded}"
  shows "\<exists>a b. state_of (foldLeg T (in_legA inp)) = Some a \<and> state_of (foldLeg T (in_legB inp)) = Some b
    \<and> oriented_pair T (in_railRegistry inp) a b \<and> crossed a b"
  using assms(2) evidence_bound(5,6) [OF assms(1)]
  by (cases rule: foldSwap_verdict [OF assms(1)]) (auto simp: early_def)

theorem verdict_needs_crossing_witness:
  "\<exists>a b. state_of (foldLeg demo_tclk (in_legA (demo_input ''accept'' ''accept'' no_evidence))) = Some a
    \<and> state_of (foldLeg demo_tclk (in_legB (demo_input ''accept'' ''accept'' no_evidence))) = Some b \<and> crossed a b"
proof -
  let ?i = "demo_input ''accept'' ''accept'' no_evidence"
  have "map_option sv_status (foldSwap demo_tclk ?i) = Some Paired" by code_simp
  then obtain w where "foldSwap demo_tclk ?i = Some w" "sv_status w = Paired" by auto
  from verdict_needs_crossing [OF this(1)] this(2) show ?thesis by auto
qed

text \<open>The money view of a leg comes from rail evidence alone: it is \<open>claimed\<close> or
  \<open>refunded\<close> exactly when a bound observation of that status was supplied, whatever the frames
  say.\<close>

theorem settlement_view_from_rail:
  assumes "foldSwap T inp = Some w"
  shows "(sv_settlementA w = SvClaimed \<longleftrightarrow> (\<exists>ob. ev_aRail (supplied inp) = Some ob
            \<and> bound_to T (state_of (foldLeg T (in_legA inp))) ob \<and> ob_status ob = RClaimed))
    \<and> (sv_settlementB w = SvRefunded \<longleftrightarrow> (\<exists>ob. ev_bRail (supplied inp) = Some ob
            \<and> bound_to T (state_of (foldLeg T (in_legB inp))) ob \<and> ob_status ob = RRefunded))
    \<and> (ev_aRail (supplied inp) = None \<longrightarrow> sv_settlementA w \<in> {SvNone, SvUnverified})"
proof -
  let ?A = "fst (bindObservation T LegA (state_of (foldLeg T (in_legA inp))) (ev_aRail (supplied inp)))"
  let ?B = "fst (bindObservation T LegB (state_of (foldLeg T (in_legB inp))) (ev_bRail (supplied inp)))"
  have v: "sv_settlementA w = settlementViewForLeg (ev_a (supplied inp)) ?A"
    "sv_settlementB w = settlementViewForLeg (ev_b (supplied inp)) ?B"
    using foldSwap_base [OF assms] by (auto simp: same_base_def initial_view_def Let_def split: prod.splits)
  have s: "settlementViewForLeg e x = SvClaimed \<longleftrightarrow> (\<exists>ob. x = Some ob \<and> ob_status ob = RClaimed)"
    "settlementViewForLeg e x = SvRefunded \<longleftrightarrow> (\<exists>ob. x = Some ob \<and> ob_status ob = RRefunded)" for e x
    by (auto simp: settlementViewForLeg_def split: option.split elim: rail_settlement.elims)
  have n: "ev_aRail (supplied inp) = None \<Longrightarrow> ?A = None" by (simp add: bindObservation_def)
  show ?thesis
    unfolding v s bindObservation_Some using n by (auto simp: settlementViewForLeg_def split: option.split)
qed

theorem settlement_view_from_rail_witness:
  "\<exists>w. foldSwap demo_tclk (demo_input ''reveal'' ''reveal'' no_evidence) = Some w
     \<and> sv_settlementA w \<in> {SvNone, SvUnverified}"
proof -
  obtain w where w: "foldSwap demo_tclk (demo_input ''reveal'' ''reveal'' no_evidence) = Some w"
    using fold_leg_a_total [of "initial_view demo_tclk (demo_input ''reveal'' ''reveal'' no_evidence)" demo_tclk]
      locked_state_terms [OF demo_lock_ok] by (fastforce simp: foldSwap_def)
  from settlement_view_from_rail [OF w] show ?thesis
    using w by (auto simp: supplied_def demo_input_def no_evidence_def)
qed

text \<open>Pair keys are unique: two pairs of 32-byte ids with the same key are the same pair.\<close>

theorem pairKey_inject:
  assumes "hex32 o1" "hex32 a1" "hex32 b1" "hex32 o2" "hex32 a2" "hex32 b2"
    and "pairKey o1 a1 b1 = pairKey o2 a2 b2"
  shows "o1 = o2 \<and> a1 = a2 \<and> b1 = b2"
proof -
  have "[o1, a1, b1] = [o2, a2, b2]"
    by (rule join_with_inject [of "CHR ''|''"]) (use assms hex32_notin in \<open>auto simp: pairKey_def\<close>)
  then show ?thesis by simp
qed

theorem pairKey_inject_witness:
  "id32 (CHR ''a'') = id32 (CHR ''a'') \<and> hex32 (id32 (CHR ''a''))"
proof -
  have h: "hex32 (id32 (CHR ''a''))" by code_simp
  from pairKey_inject [OF h h h h h h refl] h show ?thesis by simp
qed

section \<open>The exact verdict\<close>

text \<open>A leg shows a refund by a bound final observation; on the paper rail, with no bound observation, by
  its frame.\<close>

definition refund_shown :: "tclk \<Rightarrow> contract_state \<Rightarrow> rail_observation option \<Rightarrow> bool" where
  "refund_shown T s observation \<longleftrightarrow> final_bound T s RRefunded observation
     \<or> st_status s = ''refunded'' \<and> st_rail s = Some PAPER_RAIL_ID
       \<and> (\<forall>ob. observation = Some ob \<longrightarrow> \<not> bound_to T (Some s) ob)"

lemma observed_bindObservation:
  "observed st (fst (bindObservation T leg (Some s) x)) \<longleftrightarrow> final_bound T s st x"
  using bindObservation_Some [of T leg "Some s" x]
  by (fastforce simp: observed_def final_bound_def split: option.splits)

lemma refunded_in_bindObservation:
  "refunded_in leg' s (fst (bindObservation T leg (Some s) x)) \<longleftrightarrow> refund_shown T s x"
proof -
  have "fst (bindObservation T leg (Some s) x) = None \<longleftrightarrow> (\<forall>ob. x = Some ob \<longrightarrow> \<not> bound_to T (Some s) ob)"
    using bindObservation_Some [of T leg "Some s" x] by (metis not_None_eq)
  then show ?thesis by (auto simp: refunded_in_iff refund_shown_def observed_bindObservation)
qed

lemma refund_not_claim:
  "refund_shown T s x \<Longrightarrow> st_status s = ''claimed'' \<Longrightarrow> \<not> final_bound T s RClaimed x"
  by (auto simp: refund_shown_def final_bound_def)

text \<open>The verdict over two accepted, crossing legs, from what was observed.\<close>

lemma fold_refunds_status:
  assumes "st_status a = ''locked'' \<Longrightarrow> lockTerms T a \<noteq> None" "st_status b = ''locked'' \<Longrightarrow> lockTerms T b \<noteq> None"
    and "rA = refunded_in LegA a (ev_aRail (sv_evidence v))" "rB = refunded_in LegB b (ev_bRail (sv_evidence v))"
    and "cA = lock_confirmed T a (ev_a (sv_evidence v))" "cB = lock_confirmed T b (ev_b (sv_evidence v))"
  shows "map_option sv_status (fold_refunds T now a b v) = Some
    (if rA then (if rB then Refunded else RefundedA)
     else if rB then RefundedB
     else if st_status a = ''claimed'' \<and> st_status b = ''claimed''
       \<and> observed RClaimed (ev_aRail (sv_evidence v)) \<and> observed RClaimed (ev_bRail (sv_evidence v)) then Settled
     else if st_status a = ''claimed'' \<or> st_status b = ''claimed'' then Revealed
     else if st_status b \<noteq> ''locked'' then (if of_expiresMs (st_offer a) \<le> now then Abandoned else Paired)
     else if \<not> cB then Paired
     else if st_status a \<noteq> ''locked'' then (if of_claimByMs (st_offer a) \<le> now then Abandoned else BLocked)
     else if cA then ALocked else BLocked)"
proof -
  have lockA: "map_option sv_status (fold_lock_a T now a u) = Some
      (if st_status a \<noteq> ''locked'' then (if of_claimByMs (st_offer a) \<le> now then Abandoned else BLocked)
       else if lock_confirmed T a (ev_a (sv_evidence u)) then ALocked else BLocked)" for u
  proof (cases "st_status a = ''locked''")
    case True
    then obtain expected where e: "lockTerms T a = Some expected" using assms(1) by blast
    show ?thesis
      using True e evaluateLock_Corroborated [OF e, of "ev_a (sv_evidence u)" LegA]
      by (cases "evaluateLock (ev_a (sv_evidence u)) expected LegA a") (simp_all add: fold_lock_a_def)
  qed (simp add: fold_lock_a_def)
  have locks: "map_option sv_status (fold_locks T now a b u) = Some
      (if st_status b \<noteq> ''locked'' then (if of_expiresMs (st_offer a) \<le> now then Abandoned else Paired)
       else if \<not> lock_confirmed T b (ev_b (sv_evidence u)) then Paired
       else if st_status a \<noteq> ''locked'' then (if of_claimByMs (st_offer a) \<le> now then Abandoned else BLocked)
       else if lock_confirmed T a (ev_a (sv_evidence u)) then ALocked else BLocked)" for u
  proof (cases "st_status b = ''locked''")
    case True
    then obtain expected where e: "lockTerms T b = Some expected" using assms(2) by blast
    note c = evaluateLock_Corroborated [OF e, of "ev_b (sv_evidence u)" LegB]
    show ?thesis
    proof (cases "evaluateLock (ev_b (sv_evidence u)) expected LegB b")
      case Corroborated
      then show ?thesis using c lockA [of u] True e by (simp add: fold_locks_def)
    next
      case (Uncorroborated why)
      then show ?thesis using c True e by (simp add: fold_locks_def)
    qed
  qed (simp add: fold_locks_def)
  define W where "W = (if st_status b \<noteq> ''locked'' then (if of_expiresMs (st_offer a) \<le> now then Abandoned else Paired)
     else if \<not> cB then Paired
     else if st_status a \<noteq> ''locked'' then (if of_claimByMs (st_offer a) \<le> now then Abandoned else BLocked)
     else if cA then ALocked else BLocked)"
  obtain z where z: "fold_locks T now a b (refund_notes a b v) = Some z" "sv_status z = W"
    using locks [of "refund_notes a b v"] assms(5,6) by (auto simp: W_def)
  show ?thesis
    unfolding W_def [symmetric] assms(3,4) by (simp add: fold_refunds_def fold_claims_def Let_def z)
qed

lemma foldSwap_crossed:
  assumes "state_of (foldLeg T (in_legA inp)) = Some a" "state_of (foldLeg T (in_legB inp)) = Some b"
    and "oriented_pair T (in_railRegistry inp) a b" "crossed a b"
    and "st_status a \<notin> {''proposed'', ''cancelled''}" "st_status b \<notin> {''proposed'', ''cancelled''}"
  shows "\<exists>v. foldSwap T inp = fold_refunds T (in_nowMs inp) a b v \<and> sv_evidence v = sv_evidence (initial_view T inp)"
proof -
  have c: "\<exists>v. fold_paired T inp a b u = fold_refunds T (in_nowMs inp) a b v \<and> sv_evidence v = sv_evidence u" for u
    using assms(4-6) by (auto simp: fold_paired_def fold_crossed_def crossed_def intro!: exI [of _ "cross_notes inp a u"])
  obtain sid ctxA ctxB where o: "classifySwapOffer T (st_offer a) = Some (sid, CtxA ctxA)"
    "classifySwapOffer T (st_offer b) = Some (sid, CtxB ctxB)" "legAOfferId ctxB = of_id (st_offer a)"
    "checkOrientation T (st_offer a) (CtxA ctxA) (in_railRegistry inp) = None"
    "checkOrientation T (st_offer b) (CtxB ctxB) (in_railRegistry inp) = None"
    using assms(3) by (auto simp: oriented_pair_def)
  have "\<exists>u. foldSwap T inp = fold_paired T inp a b u \<and> sv_evidence u = sv_evidence (initial_view T inp)"
    using assms(1,2) o by (auto simp: foldSwap_def fold_leg_a_def fold_leg_b_def Let_def)
  then show ?thesis using c by metis
qed

lemma verdict_table:
  assumes "tclk_lock_ok T" "state_of (foldLeg T (in_legA inp)) = Some a" "state_of (foldLeg T (in_legB inp)) = Some b"
    and "oriented_pair T (in_railRegistry inp) a b" "crossed a b"
    and "st_status a \<notin> {''proposed'', ''cancelled''}" "st_status b \<notin> {''proposed'', ''cancelled''}"
    and "rA = refund_shown T a (ev_aRail (supplied inp))" "rB = refund_shown T b (ev_bRail (supplied inp))"
    and "cA = (st_status a = ''locked'' \<and> lock_confirmed T a (ev_a (supplied inp)))"
    and "cB = (st_status b = ''locked'' \<and> lock_confirmed T b (ev_b (supplied inp)))"
    and "final = (st_status a = ''claimed'' \<and> st_status b = ''claimed'' \<and> final_bound T a RClaimed (ev_aRail (supplied inp)) \<and> final_bound T b RClaimed (ev_bRail (supplied inp)))"
    and "none = (\<not> rA \<and> \<not> rB \<and> st_status a \<noteq> ''claimed'' \<and> st_status b \<noteq> ''claimed'')"
  shows "\<exists>w. foldSwap T inp = Some w
    \<and> (sv_status w = Settled \<longleftrightarrow> final)
    \<and> (sv_status w = Refunded \<longleftrightarrow> rA \<and> rB) \<and> (sv_status w = RefundedA \<longleftrightarrow> rA \<and> \<not> rB)
    \<and> (sv_status w = RefundedB \<longleftrightarrow> \<not> rA \<and> rB)
    \<and> (sv_status w = Revealed \<longleftrightarrow> \<not> rA \<and> \<not> rB \<and> (st_status a = ''claimed'' \<or> st_status b = ''claimed'') \<and> \<not> final)
    \<and> (sv_status w = ALocked \<longleftrightarrow> none \<and> cA \<and> cB)
    \<and> (sv_status w = BLocked \<longleftrightarrow> none \<and> cB \<and> \<not> cA \<and> (st_status a = ''locked'' \<or> in_nowMs inp < of_claimByMs (st_offer a)))
    \<and> (sv_status w = Paired \<longleftrightarrow> none \<and> \<not> cB \<and> (st_status b = ''locked'' \<or> in_nowMs inp < of_expiresMs (st_offer a)))
    \<and> (sv_status w = Abandoned \<longleftrightarrow> none \<and> (if cB then st_status a \<noteq> ''locked'' \<and> of_claimByMs (st_offer a) \<le> in_nowMs inp
         else st_status b \<noteq> ''locked'' \<and> of_expiresMs (st_offer a) \<le> in_nowMs inp))"
proof -
  obtain v where v: "foldSwap T inp = fold_refunds T (in_nowMs inp) a b v" "sv_evidence v = sv_evidence (initial_view T inp)"
    using foldSwap_crossed [OF assms(2-7)] by blast
  have ev: "ev_a (sv_evidence v) = ev_a (supplied inp)" "ev_b (sv_evidence v) = ev_b (supplied inp)"
    "observed RClaimed (ev_aRail (sv_evidence v)) \<longleftrightarrow> final_bound T a RClaimed (ev_aRail (supplied inp))"
    "observed RClaimed (ev_bRail (sv_evidence v)) \<longleftrightarrow> final_bound T b RClaimed (ev_bRail (supplied inp))"
    "rA = refunded_in LegA a (ev_aRail (sv_evidence v))" "rB = refunded_in LegB b (ev_bRail (sv_evidence v))"
    unfolding v(2) by (simp_all add: assms(2,3,8,9) observed_bindObservation refunded_in_bindObservation)
  have no: "final \<Longrightarrow> \<not> rA \<and> \<not> rB"
    using refund_not_claim assms(8,9,12) by blast
  note s = fold_refunds_status [OF locked_state_terms [OF assms(1,2)] locked_state_terms [OF assms(1,3)] ev(5,6) refl refl,
      where now = "in_nowMs inp", unfolded ev(1-4)]
  obtain w where w: "foldSwap T inp = Some w" using s v(1) by auto
  show ?thesis
    by (rule exI [of _ w]) (use s v(1) w no in \<open>auto simp: assms(10-13) split: if_split_asm\<close>)
qed

text \<open>C39. The verdict is exact. Over two accepted legs whose parties cross and that are not cancelled, the
  fold returns, and each status is answered exactly when its condition on the two machines and on the supplied
  evidence holds: settled when both are claimed with a bound final claim each, a refund status when those legs
  show a refund, revealed on a claim short of that, a-locked and b-locked on confirmed locks, abandoned exactly
  when the awaited lock is missing at its deadline, paired otherwise. \<open>tclk_lock_ok\<close>: the library's
  machine has terms on the states an accept has reached.\<close>

theorem verdicts_exact:
  assumes "tclk_lock_ok T" "state_of (foldLeg T (in_legA inp)) = Some a" "state_of (foldLeg T (in_legB inp)) = Some b"
    and "oriented_pair T (in_railRegistry inp) a b" "crossed a b"
    and "st_status a \<notin> {''proposed'', ''cancelled''}" "st_status b \<notin> {''proposed'', ''cancelled''}"
  shows "let ev = supplied inp;
      rA = refund_shown T a (ev_aRail ev); rB = refund_shown T b (ev_bRail ev);
      claimedA = (st_status a = ''claimed''); claimedB = (st_status b = ''claimed'');
      lockedA = (st_status a = ''locked''); lockedB = (st_status b = ''locked'');
      cA = (lockedA \<and> lock_confirmed T a (ev_a ev)); cB = (lockedB \<and> lock_confirmed T b (ev_b ev));
      final = (claimedA \<and> claimedB \<and> final_bound T a RClaimed (ev_aRail ev) \<and> final_bound T b RClaimed (ev_bRail ev));
      waiting = (\<not> rA \<and> \<not> rB \<and> \<not> claimedA \<and> \<not> claimedB)
    in \<exists>w. foldSwap T inp = Some w
    \<and> (sv_status w = Settled \<longleftrightarrow> final)
    \<and> (sv_status w = Refunded \<longleftrightarrow> rA \<and> rB)
    \<and> (sv_status w = RefundedA \<longleftrightarrow> rA \<and> \<not> rB)
    \<and> (sv_status w = RefundedB \<longleftrightarrow> \<not> rA \<and> rB)
    \<and> (sv_status w = Revealed \<longleftrightarrow> \<not> rA \<and> \<not> rB \<and> (claimedA \<or> claimedB) \<and> \<not> final)
    \<and> (sv_status w = ALocked \<longleftrightarrow> waiting \<and> cA \<and> cB)
    \<and> (sv_status w = BLocked \<longleftrightarrow> waiting \<and> cB \<and> \<not> cA \<and> (lockedA \<or> in_nowMs inp < of_claimByMs (st_offer a)))
    \<and> (sv_status w = Paired \<longleftrightarrow> waiting \<and> \<not> cB \<and> (lockedB \<or> in_nowMs inp < of_expiresMs (st_offer a)))
    \<and> (sv_status w = Abandoned \<longleftrightarrow> waiting \<and> (if cB then \<not> lockedA \<and> of_claimByMs (st_offer a) \<le> in_nowMs inp
         else \<not> lockedB \<and> of_expiresMs (st_offer a) \<le> in_nowMs inp))"
  unfolding Let_def by (rule verdict_table [OF assms refl refl refl refl refl refl])

theorem verdicts_exact_witness:
  "map_option sv_status (foldSwap demo_tclk (demo_input ''lock'' ''lock'' (demo_evidence RLocked RLocked 7 8))) = Some ALocked"
proof -
  let ?i = "demo_input ''lock'' ''lock'' (demo_evidence RLocked RLocked 7 8)"
  define a where "a = the (state_of (foldLeg demo_tclk (in_legA ?i)))"
  define b where "b = the (state_of (foldLeg demo_tclk (in_legB ?i)))"
  have s: "state_of (foldLeg demo_tclk (in_legA ?i)) = Some a" "state_of (foldLeg demo_tclk (in_legB ?i)) = Some b"
    unfolding a_def b_def by code_simp+
  have "map_option sv_status (foldSwap demo_tclk ?i) = Some ALocked" by code_simp
  then obtain w where w: "foldSwap demo_tclk ?i = Some w" "sv_status w = ALocked" by auto
  have k: "oriented_pair demo_tclk (in_railRegistry ?i) a b" "crossed a b"
    using verdict_needs_crossing [OF w(1)] w(2) s by auto
  have l: "st_status a = ''locked''" "st_status b = ''locked''" unfolding a_def b_def by code_simp+
  from verdicts_exact [OF demo_lock_ok s k] l w show ?thesis by (simp add: Let_def)
qed

end
