(* ===== verification/Board.thy ===== *)
theory Board
  imports Swap_Fold "HOL-Library.Multiset"
begin

text \<open>
  \<open>src/board.ts\<close>: every authenticated offer of the offers room becomes a swap view or an
  unpaired leg B. The maps of the source that are iterated are lists in insertion order here, the
  others functions; a map entry that is absent reads as the empty list, which is how the source
  treats it. The object identity that the source compares (\<open>winner === candidate\<close>) is the
  position of a leg B candidate in the scan.
\<close>

section \<open>Authentication\<close>

record authed_accept =
  aa_record :: transcript_record
  aa_frame :: accept_frame

definition authenticate :: "tclk \<Rightarrow> transcript_record \<Rightarrow> (transcript_record \<times> tclk_frame) option" where
  "authenticate T record =
     (if tr_room record \<noteq> OFFER_ROOM T then None
      else if \<not> verifyTranscriptRecord T record then None
      else (case tryDecodeFrame T (tr_line record) of
              None \<Rightarrow> None
            | Some frame \<Rightarrow> if frame_from frame \<noteq> tr_sender record then None else Some (record, frame)))"

definition authenticateOffers :: "tclk \<Rightarrow> transcript_record list \<Rightarrow> (transcript_record \<times> tclk_frame) list" where
  "authenticateOffers T records = List.map_filter (authenticate T) records"

section \<open>The scan of the offers room\<close>

record leg_a_candidate =
  la_record :: transcript_record
  la_offer :: offer_frame
  la_swapId :: string
  la_context :: leg_a_context

record leg_b_candidate =
  lb_index :: nat
  lb_record :: transcript_record
  lb_offer :: offer_frame
  lb_swapId :: string
  lb_context :: leg_b_context

record scan =
  legAByOfferId :: "(string \<times> leg_a_candidate) list"
  legBCandidates :: "leg_b_candidate list"
  offersById :: "string \<Rightarrow> offer_frame option"
  acceptsByRef :: "string \<Rightarrow> authed_accept list"

definition empty_scan :: scan where
  "empty_scan = \<lparr>legAByOfferId = [], legBCandidates = [], offersById = (\<lambda>_. None), acceptsByRef = (\<lambda>_. [])\<rparr>"

definition scan_offer :: "tclk \<Rightarrow> transcript_record \<Rightarrow> offer_frame \<Rightarrow> scan \<Rightarrow> scan" where
  "scan_offer T record frame s =
     (let s1 = (if offersById s (of_id frame) = None
                then s\<lparr>offersById := (offersById s)(of_id frame := Some frame)\<rparr> else s)
      in (case classifySwapOffer T frame of
            None \<Rightarrow> s1
          | Some (sid, CtxA ctx) \<Rightarrow>
              if of_id frame \<in> fst ` set (legAByOfferId s1) then s1
              else s1\<lparr>legAByOfferId := legAByOfferId s1 @
                     [(of_id frame, \<lparr>la_record = record, la_offer = frame, la_swapId = sid, la_context = ctx\<rparr>)]\<rparr>
          | Some (sid, CtxB ctx) \<Rightarrow>
              s1\<lparr>legBCandidates := legBCandidates s1 @
                 [\<lparr>lb_index = length (legBCandidates s1), lb_record = record, lb_offer = frame,
                   lb_swapId = sid, lb_context = ctx\<rparr>]\<rparr>))"

definition scan_accept :: "tclk \<Rightarrow> transcript_record \<Rightarrow> accept_frame \<Rightarrow> scan \<Rightarrow> scan" where
  "scan_accept T record frame s =
     (case offersById s (core_ref frame) of
        None \<Rightarrow> s
      | Some offer \<Rightarrow>
          if \<not> isGenuineAccept T offer frame then s
          else s\<lparr>acceptsByRef := (acceptsByRef s)(core_ref frame :=
                 acceptsByRef s (core_ref frame) @ [\<lparr>aa_record = record, aa_frame = frame\<rparr>])\<rparr>)"

definition scan_step :: "tclk \<Rightarrow> scan \<Rightarrow> transcript_record \<times> tclk_frame \<Rightarrow> scan" where
  "scan_step T s rf =
     (case snd rf of
        OfferF frame \<Rightarrow> scan_offer T (fst rf) frame s
      | AcceptF frame \<Rightarrow> scan_accept T (fst rf) frame s
      | _ \<Rightarrow> s)"

definition scan_all :: "tclk \<Rightarrow> transcript_record list \<Rightarrow> scan" where
  "scan_all T offers = foldl (scan_step T) empty_scan (authenticateOffers T offers)"

section \<open>Choosing an accept and a leg B\<close>

text \<open>The accept of the counterparty if there is one, else the earliest; the flag says that the
  choice depended on the order of the export.\<close>

definition chooseAccept :: "authed_accept list \<Rightarrow> string option \<Rightarrow> authed_accept option \<times> bool" where
  "chooseAccept accepts counterparty =
     (case accepts of
        [] \<Rightarrow> (None, False)
      | first # _ \<Rightarrow>
          (case Option.bind counterparty (\<lambda>did. List.find (\<lambda>a. core_from (aa_frame a) = did) accepts) of
             Some own \<Rightarrow> (Some own, False)
           | None \<Rightarrow> (Some first, 1 < length accepts)))"

definition acceptSeqOf :: "authed_accept list \<Rightarrow> string \<Rightarrow> int option" where
  "acceptSeqOf accepts did =
     (case map (\<lambda>a. tr_seq (aa_record a)) (filter (\<lambda>a. core_from (aa_frame a) = did) accepts) of
        [] \<Rightarrow> None
      | x # xs \<Rightarrow> Some (foldl min x xs))"

definition buyer_accepted :: "scan \<Rightarrow> leg_a_candidate \<Rightarrow> leg_b_candidate \<Rightarrow> bool" where
  "buyer_accepted s legA candidate \<longleftrightarrow>
     list_ex (\<lambda>a. core_from (aa_frame a) = of_from (la_offer legA)) (acceptsByRef s (of_id (lb_offer candidate)))"

text \<open>One turn of the loop over the candidates: the crossing pair with its accept's position so
  far, and the first candidate of an accepter.\<close>

definition cross_step ::
    "scan \<Rightarrow> leg_a_candidate \<Rightarrow> authed_accept list
      \<Rightarrow> (leg_b_candidate \<times> int) option \<times> leg_b_candidate option \<Rightarrow> leg_b_candidate
      \<Rightarrow> (leg_b_candidate \<times> int) option \<times> leg_b_candidate option" where
  "cross_step s legA accepts acc candidate =
     (case acceptSeqOf accepts (of_from (lb_offer candidate)) of
        None \<Rightarrow> acc
      | Some n \<Rightarrow>
          (let (crossing, fallback) = acc;
               fallback' = (case fallback of None \<Rightarrow> Some candidate | Some f \<Rightarrow> Some f);
               earlier = (case crossing of None \<Rightarrow> True | Some (_, m) \<Rightarrow> n < m)
           in (if buyer_accepted s legA candidate \<and> earlier then Some (candidate, n) else crossing,
               fallback')))"

datatype pairing = ByAccepter | ByRowOrder | NoCrossing

definition choose_leg_b ::
    "scan \<Rightarrow> leg_a_candidate \<Rightarrow> authed_accept list \<Rightarrow> leg_b_candidate list
      \<Rightarrow> (leg_b_candidate \<times> pairing) option" where
  "choose_leg_b s legA accepts candidates =
     (case candidates of
        [] \<Rightarrow> None
      | first # _ \<Rightarrow>
          if accepts = [] then Some (first, ByRowOrder)
          else (case foldl (cross_step s legA accepts) (None, None) candidates of
                  (Some (c, _), _) \<Rightarrow> Some (c, ByAccepter)
                | (None, Some f) \<Rightarrow> Some (f, NoCrossing)
                | (None, None) \<Rightarrow> None))"

definition orderedLegB :: "scan \<Rightarrow> leg_b_candidate list" where
  "orderedLegB s = sort_key (\<lambda>c. tr_seq (lb_record c)) (legBCandidates s)"

definition candidatesByLegA :: "scan \<Rightarrow> string \<Rightarrow> leg_b_candidate list" where
  "candidatesByLegA s i = filter (\<lambda>c. legAOfferId (lb_context c) = i) (orderedLegB s)"

definition winner :: "scan \<Rightarrow> string \<Rightarrow> (leg_b_candidate \<times> pairing) option" where
  "winner s i =
     (case map_of (legAByOfferId s) i of
        None \<Rightarrow> None
      | Some legA \<Rightarrow> choose_leg_b s legA (acceptsByRef s i) (candidatesByLegA s i))"

definition unpaired_of :: "scan \<Rightarrow> leg_b_candidate \<Rightarrow> (string \<times> unpaired_reason) option" where
  "unpaired_of s candidate =
     (let i = legAOfferId (lb_context candidate); bid = of_id (lb_offer candidate)
      in if i \<notin> fst ` set (legAByOfferId s) then Some (bid, UnknownLegA)
         else (case winner s i of
                 Some (w, _) \<Rightarrow>
                   if lb_index w = lb_index candidate then None
                   else if tr_seq (lb_record w) < tr_seq (lb_record candidate) then Some (bid, LegAAlreadyPaired)
                   else if acceptsByRef s i \<noteq> []
                        \<and> \<not> list_ex (\<lambda>a. core_from (aa_frame a) = of_from (lb_offer candidate)) (acceptsByRef s i)
                   then Some (bid, NotAccepterOfLegA)
                   else Some (bid, LegAAlreadyPaired)
               | None \<Rightarrow>
                   if acceptsByRef s i \<noteq> []
                      \<and> \<not> list_ex (\<lambda>a. core_from (aa_frame a) = of_from (lb_offer candidate)) (acceptsByRef s i)
                   then Some (bid, NotAccepterOfLegA)
                   else Some (bid, LegAAlreadyPaired)))"

section \<open>The board\<close>

definition buildLegRecords ::
    "tclk \<Rightarrow> transcript_record \<Rightarrow> authed_accept option \<Rightarrow> (string \<Rightarrow> transcript_record list option)
      \<Rightarrow> transcript_record list option" where
  "buildLegRecords T offerRecord acc dealRooms =
     (case acc of
        None \<Rightarrow> Some [offerRecord]
      | Some a \<Rightarrow>
          (case dealRoom T (ac_contract (aa_frame a)) of
             None \<Rightarrow> None
           | Some room \<Rightarrow>
               Some ([offerRecord, aa_record a] @ (case dealRooms room of None \<Rightarrow> [] | Some rs \<Rightarrow> rs))))"

definition leg_evidence_of :: "(string \<Rightarrow> leg_evidence option) \<Rightarrow> string option \<Rightarrow> leg_evidence option" where
  "leg_evidence_of byContract contract = Option.bind contract byContract"

definition pairEvidence ::
    "(string \<Rightarrow> leg_evidence option) option \<Rightarrow> string option \<Rightarrow> string option \<Rightarrow> swap_evidence option" where
  "pairEvidence byContract contractA contractB =
     (case byContract of
        None \<Rightarrow> None
      | Some m \<Rightarrow>
          (let legA = leg_evidence_of m contractA; legB = leg_evidence_of m contractB
           in if legA = None \<and> legB = None then None
              else Some \<lparr>ev_a = map_option lg_lock legA, ev_b = map_option lg_lock legB,
                         ev_aRail = Option.bind legA lg_rail, ev_bRail = Option.bind legB lg_rail\<rparr>))"

definition contract_of :: "fold_result option \<Rightarrow> string option" where
  "contract_of f = Option.bind (state_of f) st_contract"

definition sameBuyerKey :: "leg_a_candidate \<Rightarrow> string" where
  "sameBuyerKey legA = of_from (la_offer legA) @ ''|'' @ la_swapId legA"

definition sharedCount :: "scan \<Rightarrow> leg_a_candidate \<Rightarrow> nat" where
  "sharedCount s legA = length (filter (\<lambda>(_, a). sameBuyerKey a = sameBuyerKey legA) (legAByOfferId s))"

definition flag_if :: "bool \<Rightarrow> coordination_only \<Rightarrow> swap_view \<Rightarrow> swap_view" where
  "flag_if b c v = (if b then v\<lparr>sv_coordinationOnly := sv_coordinationOnly v @ [c]\<rparr> else v)"

text \<open>The records of the two legs of one swap, with the two flags of the chosen accepts.\<close>

definition pair_records ::
    "tclk \<Rightarrow> board_input \<Rightarrow> scan \<Rightarrow> string \<Rightarrow> leg_a_candidate
      \<Rightarrow> (transcript_record list \<times> transcript_record list \<times> bool \<times> bool) option" where
  "pair_records T inp s i legA =
     (let legB = map_option fst (winner s i);
          choiceA = chooseAccept (acceptsByRef s i) (map_option (\<lambda>b. of_from (lb_offer b)) legB);
          choiceB = (case legB of
                       None \<Rightarrow> (None, False)
                     | Some b \<Rightarrow> chooseAccept (acceptsByRef s (of_id (lb_offer b))) (Some (of_from (la_offer legA))))
      in (case buildLegRecords T (la_record legA) (fst choiceA) (bi_dealRooms inp) of
            None \<Rightarrow> None
          | Some ra \<Rightarrow>
              (case (case legB of None \<Rightarrow> Some []
                       | Some b \<Rightarrow> buildLegRecords T (lb_record b) (fst choiceB) (bi_dealRooms inp)) of
                 None \<Rightarrow> None
               | Some rb \<Rightarrow> Some (ra, rb, snd choiceA, snd choiceB))))"

definition fold_pair ::
    "tclk \<Rightarrow> board_input \<Rightarrow> transcript_record list \<Rightarrow> transcript_record list \<Rightarrow> swap_evidence option
      \<Rightarrow> swap_view option" where
  "fold_pair T inp ra rb evidence =
     foldSwap T \<lparr>in_legA = ra, in_legB = rb, in_evidence = evidence, in_nowMs = bi_nowMs inp,
                 in_railRegistry = bi_railRegistry inp\<rparr>"

definition fold_with_evidence ::
    "tclk \<Rightarrow> board_input \<Rightarrow> transcript_record list \<Rightarrow> transcript_record list \<Rightarrow> swap_view option" where
  "fold_with_evidence T inp ra rb =
     (case fold_pair T inp ra rb None of
        None \<Rightarrow> None
      | Some bare \<Rightarrow>
          (case pairEvidence (bi_evidence inp) (contract_of (sv_legA bare)) (contract_of (sv_legB bare)) of
             None \<Rightarrow> Some bare
           | Some evidence \<Rightarrow> fold_pair T inp ra rb (Some evidence)))"

definition board_swap :: "tclk \<Rightarrow> board_input \<Rightarrow> scan \<Rightarrow> string \<times> leg_a_candidate \<Rightarrow> swap_view option" where
  "board_swap T inp s entry =
     (case pair_records T inp s (fst entry) (snd entry) of
        None \<Rightarrow> None
      | Some (ra, rb, byOrderA, byOrderB) \<Rightarrow>
          (case fold_with_evidence T inp ra rb of
             None \<Rightarrow> None
           | Some v \<Rightarrow>
               (let how = map_option snd (winner s (fst entry));
                    n = sharedCount s (snd entry);
                    v1 = (if 1 < n then push (SharedSwapId (la_swapId (snd entry)) n) v else v)
                in Some (flag_if byOrderB (AcceptByRowOrder LegB)
                     (flag_if byOrderA (AcceptByRowOrder LegA)
                     (flag_if (how = Some NoCrossing) PairedNoCrossing
                     (flag_if (how = Some ByRowOrder) PairedByRowOrder v1)))))))"

definition buildBoard :: "tclk \<Rightarrow> board_input \<Rightarrow> board option" where
  "buildBoard T inp =
     (let s = scan_all T (bi_offers inp)
      in (case those (map (board_swap T inp s) (legAByOfferId s)) of
            None \<Rightarrow> None
          | Some swaps \<Rightarrow>
              Some \<lparr>bd_swaps = swaps, bd_unpaired = List.map_filter (unpaired_of s) (orderedLegB s)\<rparr>))"

section \<open>What the scan collects\<close>

definition is_leg_a :: "tclk \<Rightarrow> transcript_record \<times> tclk_frame \<Rightarrow> string option" where
  "is_leg_a T rf =
     (case snd rf of
        OfferF f \<Rightarrow> (case classifySwapOffer T f of Some (_, CtxA _) \<Rightarrow> Some (of_id f) | _ \<Rightarrow> None)
      | _ \<Rightarrow> None)"

definition is_leg_b :: "tclk \<Rightarrow> transcript_record \<times> tclk_frame \<Rightarrow> bool" where
  "is_leg_b T rf \<longleftrightarrow>
     (case snd rf of
        OfferF f \<Rightarrow> (case classifySwapOffer T f of Some (_, CtxB _) \<Rightarrow> True | _ \<Rightarrow> False)
      | _ \<Rightarrow> False)"

text \<open>The invariant of the scan over the authenticated frames read so far.\<close>

definition leg_a_ok :: "tclk \<Rightarrow> (transcript_record \<times> tclk_frame) list \<Rightarrow> string \<times> leg_a_candidate \<Rightarrow> bool" where
  "leg_a_ok T xs e \<longleftrightarrow>
     of_id (la_offer (snd e)) = fst e
     \<and> (la_record (snd e), OfferF (la_offer (snd e))) \<in> set xs
     \<and> classifySwapOffer T (la_offer (snd e)) = Some (la_swapId (snd e), CtxA (la_context (snd e)))"

definition leg_b_ok :: "tclk \<Rightarrow> (transcript_record \<times> tclk_frame) list \<Rightarrow> leg_b_candidate \<Rightarrow> bool" where
  "leg_b_ok T xs c \<longleftrightarrow>
     (lb_record c, OfferF (lb_offer c)) \<in> set xs
     \<and> classifySwapOffer T (lb_offer c) = Some (lb_swapId c, CtxB (lb_context c))"

definition accept_ok ::
    "tclk \<Rightarrow> (transcript_record \<times> tclk_frame) list \<Rightarrow> string \<Rightarrow> authed_accept \<Rightarrow> bool" where
  "accept_ok T xs ref a \<longleftrightarrow>
     core_ref (aa_frame a) = ref \<and> (aa_record a, AcceptF (aa_frame a)) \<in> set xs
     \<and> (\<exists>r offer. (r, OfferF offer) \<in> set xs \<and> of_id offer = ref \<and> isGenuineAccept T offer (aa_frame a))"

definition offer_seen :: "(transcript_record \<times> tclk_frame) list \<Rightarrow> string \<Rightarrow> offer_frame \<Rightarrow> bool" where
  "offer_seen xs i offer \<longleftrightarrow> of_id offer = i \<and> (\<exists>r. (r, OfferF offer) \<in> set xs)"

definition scan_ok :: "tclk \<Rightarrow> (transcript_record \<times> tclk_frame) list \<Rightarrow> scan \<Rightarrow> bool" where
  "scan_ok T xs s \<longleftrightarrow>
     distinct (map fst (legAByOfferId s))
     \<and> (\<forall>e \<in> set (legAByOfferId s). leg_a_ok T xs e)
     \<and> fst ` set (legAByOfferId s) = set (List.map_filter (is_leg_a T) xs)
     \<and> map lb_index (legBCandidates s) = [0..<length (filter (is_leg_b T) xs)]
     \<and> (\<forall>c \<in> set (legBCandidates s). leg_b_ok T xs c)
     \<and> (\<forall>i offer. offersById s i = Some offer \<longrightarrow> offer_seen xs i offer)
     \<and> (\<forall>ref. \<forall>a \<in> set (acceptsByRef s ref). accept_ok T xs ref a)"

lemma ok_mono:
  "leg_a_ok T xs e \<Longrightarrow> leg_a_ok T (xs @ ys) e" "leg_b_ok T xs c \<Longrightarrow> leg_b_ok T (xs @ ys) c"
  "accept_ok T xs ref a \<Longrightarrow> accept_ok T (xs @ ys) ref a" "offer_seen xs i offer \<Longrightarrow> offer_seen (xs @ ys) i offer"
  by (auto simp: leg_a_ok_def leg_b_ok_def accept_ok_def offer_seen_def)

lemma map_filter_append: "List.map_filter f (xs @ ys) = List.map_filter f xs @ List.map_filter f ys"
  by (simp add: List.map_filter_def)

lemma map_filter_single: "List.map_filter f [x] = (case f x of None \<Rightarrow> [] | Some y \<Rightarrow> [y])"
  by (simp add: List.map_filter_def split: option.split)

text \<open>Frames of no interest leave the invariant alone.\<close>

lemma scan_ok_skip:
  "scan_ok T xs s \<Longrightarrow> is_leg_a T x = None \<Longrightarrow> \<not> is_leg_b T x \<Longrightarrow> scan_ok T (xs @ [x]) s"
  unfolding scan_ok_def
  by (auto simp: map_filter_append map_filter_single intro: ok_mono)

lemma scan_ok_accept:
  assumes "scan_ok T xs s"
  shows "scan_ok T (xs @ [(record, AcceptF frame)]) (scan_accept T record frame s)"
proof -
  have k: "scan_ok T (xs @ [(record, AcceptF frame)]) s"
    by (rule scan_ok_skip [OF assms]) (simp_all add: is_leg_a_def is_leg_b_def)
  show ?thesis
  proof (cases "\<exists>offer. offersById s (core_ref frame) = Some offer \<and> isGenuineAccept T offer frame")
    case True
    then obtain offer where o: "offersById s (core_ref frame) = Some offer" "isGenuineAccept T offer frame" by blast
    then have "accept_ok T (xs @ [(record, AcceptF frame)]) (core_ref frame) \<lparr>aa_record = record, aa_frame = frame\<rparr>"
      using assms by (fastforce simp: accept_ok_def scan_ok_def offer_seen_def)
    with o k show ?thesis by (simp add: scan_accept_def scan_ok_def)
  next
    case False
    with k show ?thesis by (auto simp: scan_accept_def split: option.split)
  qed
qed

lemma scan_ok_note_offer:
  assumes "scan_ok T xs s" "x = (record, OfferF frame)"
    and "s1 = (if offersById s (of_id frame) = None
                then s\<lparr>offersById := (offersById s)(of_id frame := Some frame)\<rparr> else s)"
  shows "legAByOfferId s1 = legAByOfferId s" "legBCandidates s1 = legBCandidates s" "acceptsByRef s1 = acceptsByRef s"
    "\<forall>i offer. offersById s1 i = Some offer \<longrightarrow> offer_seen (xs @ [x]) i offer"
  using assms by (auto simp: scan_ok_def ok_mono, auto simp: offer_seen_def)

lemma scan_ok_offer:
  assumes "scan_ok T xs s"
  shows "scan_ok T (xs @ [(record, OfferF frame)]) (scan_offer T record frame s)"
proof -
  define x where "x = (record, OfferF frame)"
  define s1 where "s1 = (if offersById s (of_id frame) = None
                then s\<lparr>offersById := (offersById s)(of_id frame := Some frame)\<rparr> else s)"
  note n = scan_ok_note_offer [OF assms x_def s1_def]
  have old: "\<forall>e \<in> set (legAByOfferId s). leg_a_ok T (xs @ [x]) e" "\<forall>c \<in> set (legBCandidates s). leg_b_ok T (xs @ [x]) c"
    "\<forall>ref. \<forall>a \<in> set (acceptsByRef s ref). accept_ok T (xs @ [x]) ref a" "distinct (map fst (legAByOfferId s))"
    "fst ` set (legAByOfferId s) = set (List.map_filter (is_leg_a T) xs)"
    "map lb_index (legBCandidates s) = [0..<length (filter (is_leg_b T) xs)]"
    using assms by (auto simp: scan_ok_def intro: ok_mono)
  have len: "length (legBCandidates s) = length (filter (is_leg_b T) xs)"
    using old(6) by (metis length_map length_upt minus_nat.diff_0)
  show ?thesis
  proof (cases "classifySwapOffer T frame")
    case None
    then have "is_leg_a T x = None" "\<not> is_leg_b T x" by (simp_all add: x_def is_leg_a_def is_leg_b_def)
    then show ?thesis
      using None n old by (simp add: scan_offer_def s1_def [symmetric] x_def [symmetric] scan_ok_def
          map_filter_append map_filter_single)
  next
    case (Some p)
    obtain sid ctx where p: "p = (sid, ctx)" by fastforce
    show ?thesis
    proof (cases ctx)
      case (CtxA c)
      then have "is_leg_a T x = Some (of_id frame)" "\<not> is_leg_b T x"
        using Some p by (simp_all add: x_def is_leg_a_def is_leg_b_def)
      moreover have "leg_a_ok T (xs @ [x])
          (of_id frame, \<lparr>la_record = record, la_offer = frame, la_swapId = sid, la_context = c\<rparr>)"
        using Some p CtxA by (simp add: leg_a_ok_def x_def)
      ultimately show ?thesis
        using Some p CtxA n old
        by (auto simp: scan_offer_def s1_def [symmetric] x_def [symmetric] scan_ok_def
            map_filter_append map_filter_single Let_def)
    next
      case (CtxB c)
      then have "is_leg_a T x = None" "is_leg_b T x"
        using Some p by (simp_all add: x_def is_leg_a_def is_leg_b_def)
      moreover have "leg_b_ok T (xs @ [x])
          \<lparr>lb_index = length (legBCandidates s), lb_record = record, lb_offer = frame, lb_swapId = sid, lb_context = c\<rparr>"
        using Some p CtxB by (simp add: leg_b_ok_def x_def)
      ultimately show ?thesis
        using Some p CtxB n old len
        by (simp add: scan_offer_def s1_def [symmetric] x_def [symmetric] scan_ok_def
            map_filter_append map_filter_single Let_def)
    qed
  qed
qed

lemma scan_step_ok:
  assumes "scan_ok T xs s"
  shows "scan_ok T (xs @ [rf]) (scan_step T s rf)"
proof (cases rf)
  case (Pair r f)
  then show ?thesis
    using assms scan_ok_offer scan_ok_accept scan_ok_skip [OF assms, of rf]
    by (cases f) (simp_all add: scan_step_def is_leg_a_def is_leg_b_def)
qed

lemma scan_foldl_ok: "scan_ok T xs (foldl (scan_step T) empty_scan xs)"
proof (induction xs rule: rev_induct)
  case Nil
  show ?case by (simp add: scan_ok_def empty_scan_def List.map_filter_def)
next
  case (snoc x xs)
  then show ?case by (simp add: scan_step_ok)
qed

lemma scan_all_ok: "scan_ok T (authenticateOffers T offers) (scan_all T offers)"
  by (simp add: scan_all_def scan_foldl_ok)

section \<open>The pairing rule\<close>

text \<open>A candidate that crosses: signed by an accepter of leg A, and accepted by leg A's own
  offerer. \<open>n\<close> is the position of its signer's earliest accept of leg A.\<close>

definition crosses_in ::
    "scan \<Rightarrow> leg_a_candidate \<Rightarrow> authed_accept list \<Rightarrow> leg_b_candidate list \<Rightarrow> leg_b_candidate \<Rightarrow> int \<Rightarrow> bool" where
  "crosses_in s legA accepts cs c n \<longleftrightarrow>
     c \<in> set cs \<and> acceptSeqOf accepts (of_from (lb_offer c)) = Some n \<and> buyer_accepted s legA c"

definition best_crossing ::
    "scan \<Rightarrow> leg_a_candidate \<Rightarrow> authed_accept list \<Rightarrow> leg_b_candidate list \<Rightarrow> (leg_b_candidate \<times> int) option \<Rightarrow> bool" where
  "best_crossing s legA accepts cs cr \<longleftrightarrow>
     (case cr of
        None \<Rightarrow> \<forall>c n. \<not> crosses_in s legA accepts cs c n
      | Some (w, m) \<Rightarrow> crosses_in s legA accepts cs w m
          \<and> (\<forall>c n. crosses_in s legA accepts cs c n \<longrightarrow> m \<le> n))"

definition fallback_ok :: "authed_accept list \<Rightarrow> leg_b_candidate list \<Rightarrow> leg_b_candidate option \<Rightarrow> bool" where
  "fallback_ok accepts cs fb \<longleftrightarrow>
     (case fb of
        None \<Rightarrow> \<forall>c \<in> set cs. acceptSeqOf accepts (of_from (lb_offer c)) = None
      | Some f \<Rightarrow> f \<in> set cs \<and> acceptSeqOf accepts (of_from (lb_offer f)) \<noteq> None)"

definition cross_inv ::
    "scan \<Rightarrow> leg_a_candidate \<Rightarrow> authed_accept list \<Rightarrow> leg_b_candidate list
      \<Rightarrow> (leg_b_candidate \<times> int) option \<times> leg_b_candidate option \<Rightarrow> bool" where
  "cross_inv s legA accepts cs acc \<longleftrightarrow>
     best_crossing s legA accepts cs (fst acc) \<and> fallback_ok accepts cs (snd acc)"

lemma crosses_in_snoc:
  "crosses_in s legA accepts (cs @ [x]) c n \<longleftrightarrow>
     crosses_in s legA accepts cs c n
     \<or> (c = x \<and> acceptSeqOf accepts (of_from (lb_offer x)) = Some n \<and> buyer_accepted s legA x)"
  by (auto simp: crosses_in_def)

lemma best_crossing_step:
  assumes "best_crossing s legA accepts cs cr" "acceptSeqOf accepts (of_from (lb_offer x)) = Some n"
  shows "best_crossing s legA accepts (cs @ [x])
    (if buyer_accepted s legA x \<and> (case cr of None \<Rightarrow> True | Some (_, m) \<Rightarrow> n < m) then Some (x, n) else cr)"
proof (cases cr)
  case None
  with assms show ?thesis by (simp add: best_crossing_def crosses_in_snoc)
next
  case (Some p)
  obtain w m where p: "p = (w, m)" by fastforce
  have old: "crosses_in s legA accepts cs w m" "\<And>c k. crosses_in s legA accepts cs c k \<Longrightarrow> m \<le> k"
    using assms(1) Some p by (auto simp: best_crossing_def)
  show ?thesis
  proof (cases "buyer_accepted s legA x \<and> n < m")
    case True
    then show ?thesis
      using Some p old(2) assms(2) by (fastforce simp: best_crossing_def crosses_in_snoc)
  next
    case False
    then have "buyer_accepted s legA x \<Longrightarrow> m \<le> n" by simp
    then show ?thesis
      using Some p old assms(2) False by (auto simp: best_crossing_def crosses_in_snoc)
  qed
qed

lemma cross_inv_step:
  assumes "cross_inv s legA accepts cs acc"
  shows "cross_inv s legA accepts (cs @ [x]) (cross_step s legA accepts acc x)"
proof (cases "acceptSeqOf accepts (of_from (lb_offer x))")
  case None
  then have "best_crossing s legA accepts (cs @ [x]) (fst acc)"
    using assms by (simp add: cross_inv_def best_crossing_def crosses_in_snoc split: option.splits prod.splits)
  moreover have "fallback_ok accepts (cs @ [x]) (snd acc)"
    using assms None by (auto simp: cross_inv_def fallback_ok_def split: option.splits)
  ultimately show ?thesis using None by (simp add: cross_inv_def cross_step_def)
next
  case (Some n)
  have b: "best_crossing s legA accepts cs (fst acc)" and f: "fallback_ok accepts cs (snd acc)"
    using assms by (simp_all add: cross_inv_def)
  have "fallback_ok accepts (cs @ [x]) (case snd acc of None \<Rightarrow> Some x | Some f \<Rightarrow> Some f)"
    using f Some by (auto simp: fallback_ok_def split: option.splits)
  with best_crossing_step [OF b Some] show ?thesis
    using Some by (simp add: cross_inv_def cross_step_def Let_def case_prod_beta)
qed

lemma cross_inv_foldl: "cross_inv s legA accepts cs (foldl (cross_step s legA accepts) (None, None) cs)"
proof (induction cs rule: rev_induct)
  case Nil
  show ?case by (simp add: cross_inv_def best_crossing_def fallback_ok_def crosses_in_def)
next
  case (snoc x xs)
  then show ?case by (simp add: cross_inv_step)
qed

lemma choose_leg_b_mem: "choose_leg_b s legA accepts cs = Some (w, how) \<Longrightarrow> w \<in> set cs"
  using cross_inv_foldl [of s legA accepts cs]
  by (cases "foldl (cross_step s legA accepts) (None, None) cs")
    (auto simp: choose_leg_b_def cross_inv_def best_crossing_def fallback_ok_def crosses_in_def
      simp del: foldl.simps split: list.splits if_split_asm option.splits)

lemma acceptSeqOf_Some: "acceptSeqOf accepts did = Some n \<Longrightarrow> \<exists>a \<in> set accepts. core_from (aa_frame a) = did"
proof -
  assume n: "acceptSeqOf accepts did = Some n"
  then have "filter (\<lambda>a. core_from (aa_frame a) = did) accepts \<noteq> []"
    by (auto simp: acceptSeqOf_def split: list.splits)
  then show ?thesis by (metis (mono_tags, lifting) filter_False)
qed

lemma choose_crossing:
  assumes "crosses_in s legA accepts cs c n"
  obtains w m where "choose_leg_b s legA accepts cs = Some (w, ByAccepter)"
    "crosses_in s legA accepts cs w m" "m \<le> n"
proof -
  have ne: "accepts \<noteq> []" "cs \<noteq> []"
    using assms acceptSeqOf_Some by (fastforce simp: crosses_in_def)+
  obtain cr fb where f: "foldl (cross_step s legA accepts) (None, None) cs = (cr, fb)" by fastforce
  have inv: "cross_inv s legA accepts cs (cr, fb)" using cross_inv_foldl [of s legA accepts cs] f by simp
  then obtain w m where w: "cr = Some (w, m)"
    using assms by (cases cr) (auto simp: cross_inv_def best_crossing_def)
  then have "crosses_in s legA accepts cs w m" "m \<le> n"
    using inv assms by (auto simp: cross_inv_def best_crossing_def)
  moreover have "choose_leg_b s legA accepts cs = Some (w, ByAccepter)"
    using ne f w by (cases cs) (simp_all add: choose_leg_b_def del: foldl.simps)
  ultimately show thesis using that by blast
qed

lemma winner_mem:
  "winner s i = Some (w, how) \<Longrightarrow> w \<in> set (legBCandidates s) \<and> legAOfferId (lb_context w) = i
     \<and> i \<in> fst ` set (legAByOfferId s)"
proof -
  assume w: "winner s i = Some (w, how)"
  then obtain legA where a: "map_of (legAByOfferId s) i = Some legA"
    and c: "choose_leg_b s legA (acceptsByRef s i) (candidatesByLegA s i) = Some (w, how)"
    by (cases "map_of (legAByOfferId s) i") (auto simp: winner_def)
  show ?thesis
    using choose_leg_b_mem [OF c] map_of_SomeD [OF a] by (force simp: candidatesByLegA_def orderedLegB_def)
qed

section \<open>The leg B offers and their positions\<close>

lemma unpaired_of_None:
  "unpaired_of s c = None \<longleftrightarrow>
     (\<exists>w how. winner s (legAOfferId (lb_context c)) = Some (w, how) \<and> lb_index w = lb_index c)"
  using winner_mem [of s "legAOfferId (lb_context c)"]
  by (auto simp: unpaired_of_def Let_def split: option.splits prod.splits)

lemma scan_step_leg_b:
  "map (\<lambda>c. (lb_record c, OfferF (lb_offer c))) (legBCandidates (scan_step T s x))
     = map (\<lambda>c. (lb_record c, OfferF (lb_offer c))) (legBCandidates s) @ filter (is_leg_b T) [x]"
  by (cases x; cases "snd x")
    (auto simp: scan_step_def scan_offer_def scan_accept_def is_leg_b_def Let_def
      split: option.split prod.split swap_context.split)

lemma scan_leg_b: "map (\<lambda>c. (lb_record c, OfferF (lb_offer c))) (legBCandidates (scan_all T offers))
    = filter (is_leg_b T) (authenticateOffers T offers)"
proof -
  have "map (\<lambda>c. (lb_record c, OfferF (lb_offer c))) (legBCandidates (foldl (scan_step T) empty_scan xs))
      = filter (is_leg_b T) xs" for xs
    by (induction xs rule: rev_induct) (simp_all add: scan_step_leg_b, simp add: empty_scan_def)
  then show ?thesis by (simp add: scan_all_def)
qed

text \<open>The candidate of a position of the scan.\<close>

lemma candidate_at:
  assumes "scan_ok T xs s"
  shows "c \<in> set (legBCandidates s) \<longleftrightarrow> lb_index c < length (legBCandidates s) \<and> legBCandidates s ! lb_index c = c"
    and "j < length (legBCandidates s) \<Longrightarrow> lb_index (legBCandidates s ! j) = j"
proof -
  have m: "map lb_index (legBCandidates s) = [0..<length (legBCandidates s)]"
    using assms by (metis length_map length_upt minus_nat.diff_0 scan_ok_def)
  show i: "lb_index (legBCandidates s ! j) = j" if "j < length (legBCandidates s)" for j
    using that arg_cong [OF m, of "\<lambda>xs. xs ! j"] by simp
  show "c \<in> set (legBCandidates s) \<longleftrightarrow> lb_index c < length (legBCandidates s) \<and> legBCandidates s ! lb_index c = c"
    using i by (auto simp: in_set_conv_nth)
qed

lemma unpaired_id: "unpaired_of s c = Some r \<Longrightarrow> fst r = of_id (lb_offer c)"
  by (auto simp: unpaired_of_def Let_def split: if_split_asm option.splits)

end
