(* ===== verification/Board_Properties.thy ===== *)
theory Board_Properties
  imports Board
begin

text \<open>
  The properties of the board: what may take part in it, that every offer appears once, which
  pair wins, that no swap sees another's evidence, and that it returns.
\<close>

section \<open>One swap of the board\<close>

lemma those_list_all2: "those (map f xs) = Some ys \<Longrightarrow> list_all2 (\<lambda>x y. f x = Some y) xs ys"
  by (induction xs arbitrary: ys) (auto split: option.splits)

lemma those_total: "\<forall>x \<in> set xs. f x \<noteq> None \<Longrightarrow> those (map f xs) \<noteq> None"
  by (induction xs) (auto split: option.splits)

lemma flag_if_fields [simp]:
  "sv_legA (flag_if b c v) = sv_legA v" "sv_legB (flag_if b c v) = sv_legB v"
  "sv_evidence (flag_if b c v) = sv_evidence v" "sv_status (flag_if b c v) = sv_status v"
  by (simp_all add: flag_if_def)

lemma push_legs [simp]: "sv_legA (push r v) = sv_legA v" "sv_legB (push r v) = sv_legB v"
  by (simp_all add: push_def)

lemma fold_pair_legs:
  assumes "fold_pair T inp ra rb e = Some v"
  shows "sv_legA v = foldLeg T ra" "sv_legB v = foldLeg T rb"
    "ev_a (sv_evidence v) = (case e of None \<Rightarrow> None | Some x \<Rightarrow> ev_a x)"
    "ev_b (sv_evidence v) = (case e of None \<Rightarrow> None | Some x \<Rightarrow> ev_b x)"
    "ev_aRail (sv_evidence v) = Some ob \<Longrightarrow> (case e of None \<Rightarrow> None | Some x \<Rightarrow> ev_aRail x) = Some ob"
    "ev_bRail (sv_evidence v) = Some ob \<Longrightarrow> (case e of None \<Rightarrow> None | Some x \<Rightarrow> ev_bRail x) = Some ob"
  using evidence_bound [OF assms [unfolded fold_pair_def]]
  by (auto simp: supplied_def no_evidence_def split: option.splits)

text \<open>Evidence of a leg found under the contract id its own fold accepted.\<close>

definition own_evidence :: "board_input \<Rightarrow> fold_result option \<Rightarrow> leg_evidence \<Rightarrow> bool" where
  "own_evidence inp f e \<longleftrightarrow> (\<exists>m c. bi_evidence inp = Some m \<and> contract_of f = Some c \<and> m c = Some e)"

lemma fold_with_evidence_sound:
  assumes "fold_with_evidence T inp ra rb = Some v"
  shows "sv_legA v = foldLeg T ra" "sv_legB v = foldLeg T rb"
    "ev_a (sv_evidence v) = Some l \<Longrightarrow> \<exists>e. own_evidence inp (sv_legA v) e \<and> lg_lock e = l"
    "ev_b (sv_evidence v) = Some l \<Longrightarrow> \<exists>e. own_evidence inp (sv_legB v) e \<and> lg_lock e = l"
    "ev_aRail (sv_evidence v) = Some ob \<Longrightarrow> \<exists>e. own_evidence inp (sv_legA v) e \<and> lg_rail e = Some ob"
    "ev_bRail (sv_evidence v) = Some ob \<Longrightarrow> \<exists>e. own_evidence inp (sv_legB v) e \<and> lg_rail e = Some ob"
proof -
  from assms obtain bare where b: "fold_pair T inp ra rb None = Some bare"
    by (cases "fold_pair T inp ra rb None") (simp_all add: fold_with_evidence_def)
  note legs = fold_pair_legs(1,2) [OF b]
  let ?pe = "pairEvidence (bi_evidence inp) (contract_of (sv_legA bare)) (contract_of (sv_legB bare))"
  have v: "fold_pair T inp ra rb ?pe = Some v"
    using assms b by (cases ?pe) (simp_all add: fold_with_evidence_def)
  note k = fold_pair_legs [OF v]
  have same: "sv_legA bare = sv_legA v" "sv_legB bare = sv_legB v" using legs k by simp_all
  show "sv_legA v = foldLeg T ra" "sv_legB v = foldLeg T rb" by (fact k)+
  show "ev_a (sv_evidence v) = Some l \<Longrightarrow> \<exists>e. own_evidence inp (sv_legA v) e \<and> lg_lock e = l"
    "ev_b (sv_evidence v) = Some l \<Longrightarrow> \<exists>e. own_evidence inp (sv_legB v) e \<and> lg_lock e = l"
    using k(3,4) by (auto simp: pairEvidence_def leg_evidence_of_def own_evidence_def same Let_def
        split: option.splits if_split_asm bind_splits)
  show "ev_aRail (sv_evidence v) = Some ob \<Longrightarrow> \<exists>e. own_evidence inp (sv_legA v) e \<and> lg_rail e = Some ob"
    "ev_bRail (sv_evidence v) = Some ob \<Longrightarrow> \<exists>e. own_evidence inp (sv_legB v) e \<and> lg_rail e = Some ob"
    using k(5,6) [of ob] by (auto simp: pairEvidence_def leg_evidence_of_def own_evidence_def same Let_def
        split: option.splits if_split_asm bind_splits)
qed

lemma buildLegRecords_not_Nil: "buildLegRecords T r a d = Some rs \<Longrightarrow> rs \<noteq> []"
  by (auto simp: buildLegRecords_def split: option.splits)

lemma board_swap_cases:
  assumes "board_swap T inp s e = Some v"
  obtains ra rb x y u where "pair_records T inp s (fst e) (snd e) = Some (ra, rb, x, y)"
    "fold_with_evidence T inp ra rb = Some u"
    "sv_legA v = sv_legA u" "sv_legB v = sv_legB u" "sv_evidence v = sv_evidence u" "sv_status v = sv_status u"
  using assms by (auto simp: board_swap_def Let_def split: option.splits prod.splits)

lemma board_swap_leg_b:
  assumes "board_swap T inp s e = Some v"
  shows "winner s (fst e) \<noteq> None \<longleftrightarrow> sv_legB v \<noteq> None"
proof -
  from assms obtain ra rb x y u where p: "pair_records T inp s (fst e) (snd e) = Some (ra, rb, x, y)"
    and f: "fold_with_evidence T inp ra rb = Some u" and v: "sv_legB v = sv_legB u"
    by (rule board_swap_cases)
  have "rb \<noteq> [] \<longleftrightarrow> winner s (fst e) \<noteq> None"
    using p buildLegRecords_not_Nil
    by (auto simp: pair_records_def Let_def split: option.splits)
  then show ?thesis
    using fold_with_evidence_sound(2) [OF f] v by (auto simp: foldLeg_def)
qed

lemma buildBoard_Some:
  assumes "buildBoard T inp = Some bd"
  shows "list_all2 (\<lambda>e v. board_swap T inp (scan_all T (bi_offers inp)) e = Some v)
      (legAByOfferId (scan_all T (bi_offers inp))) (bd_swaps bd)"
    "bd_unpaired bd = List.map_filter (unpaired_of (scan_all T (bi_offers inp))) (orderedLegB (scan_all T (bi_offers inp)))"
  using assms by (auto simp: buildBoard_def Let_def dest: those_list_all2 split: option.splits)

lemma board_swap_folds:
  assumes "board_swap T inp s (i, legA) = Some v"
  shows "\<exists>rs. sv_legA v = foldLeg T (la_record legA # rs)"
    "sv_legB v = None \<longleftrightarrow> winner s i = None"
    "winner s i = Some (w, how) \<Longrightarrow> \<exists>rs. sv_legB v = foldLeg T (lb_record w # rs)"
proof -
  from assms obtain ra rb x y u where p: "pair_records T inp s i legA = Some (ra, rb, x, y)"
    and f: "fold_with_evidence T inp ra rb = Some u" and v: "sv_legA v = sv_legA u" "sv_legB v = sv_legB u"
    by (auto elim: board_swap_cases)
  show "\<exists>rs. sv_legA v = foldLeg T (la_record legA # rs)"
    "winner s i = Some (w, how) \<Longrightarrow> \<exists>rs. sv_legB v = foldLeg T (lb_record w # rs)"
    using p unfolding v fold_with_evidence_sound(1,2) [OF f]
    by (auto simp: pair_records_def buildLegRecords_def Let_def split: option.splits)
  show "sv_legB v = None \<longleftrightarrow> winner s i = None" using board_swap_leg_b [OF assms] by auto
qed

text \<open>The fold is that of a room whose first record is \<open>r\<close>.\<close>

definition opened_by :: "tclk \<Rightarrow> fold_result option \<Rightarrow> transcript_record \<Rightarrow> bool" where
  "opened_by T f r \<longleftrightarrow> (\<exists>rs. f = foldLeg T (r # rs))"

text \<open>The authenticated leg B offers, and the ids one of them carries: its own and that of the leg A offer it
  names.\<close>

definition leg_b_offers :: "tclk \<Rightarrow> board_input \<Rightarrow> (transcript_record \<times> tclk_frame) list" where
  "leg_b_offers T inp = filter (is_leg_b T) (authenticateOffers T (bi_offers inp))"

definition leg_b_ids :: "tclk \<Rightarrow> transcript_record \<times> tclk_frame \<Rightarrow> string \<times> string" where
  "leg_b_ids T rf =
     (case snd rf of
        OfferF f \<Rightarrow> (case classifySwapOffer T f of Some (_, CtxB ctx) \<Rightarrow> (of_id f, legAOfferId ctx) | _ \<Rightarrow> ([], []))
      | _ \<Rightarrow> ([], []))"

lemma leg_b_at:
  assumes "s = scan_all T (bi_offers inp)" "j < length (legBCandidates s)" "c = legBCandidates s ! j"
  shows "leg_b_offers T inp ! j = (lb_record c, OfferF (lb_offer c))"
    "leg_b_ids T (leg_b_offers T inp ! j) = (of_id (lb_offer c), legAOfferId (lb_context c))"
proof -
  show j: "leg_b_offers T inp ! j = (lb_record c, OfferF (lb_offer c))"
    using scan_leg_b [of T "bi_offers inp"] assms by (metis leg_b_offers_def nth_map)
  have "leg_b_ok T (authenticateOffers T (bi_offers inp)) c"
    using scan_all_ok [of T "bi_offers inp"] assms by (simp add: scan_ok_def)
  then show "leg_b_ids T (leg_b_offers T inp ! j) = (of_id (lb_offer c), legAOfferId (lb_context c))"
    by (simp add: j leg_b_ids_def leg_b_ok_def)
qed

lemma leg_b_length: "length (leg_b_offers T inp) = length (legBCandidates (scan_all T (bi_offers inp)))"
  using scan_leg_b [of T "bi_offers inp"] by (metis leg_b_offers_def length_map)

text \<open>The position of the leg B offer that is paired with the k-th leg A offer.\<close>

definition paired_at :: "scan \<Rightarrow> nat \<Rightarrow> nat option" where
  "paired_at s k = map_option (\<lambda>p. lb_index (fst p)) (winner s (fst (legAByOfferId s ! k)))"

lemma paired_at_Some:
  assumes "scan_ok T xs s" "paired_at s k = Some j"
  obtains w how where "winner s (fst (legAByOfferId s ! k)) = Some (w, how)" "j < length (legBCandidates s)"
    "w = legBCandidates s ! j" "legAOfferId (lb_context w) = fst (legAByOfferId s ! k)"
proof -
  obtain w how where w: "winner s (fst (legAByOfferId s ! k)) = Some (w, how)" "j = lb_index w"
    using assms(2) by (auto simp: paired_at_def)
  have m: "w \<in> set (legBCandidates s)" "legAOfferId (lb_context w) = fst (legAByOfferId s ! k)"
    using winner_mem [OF w(1)] by blast+
  from candidate_at(1) [OF assms(1), THEN iffD1, OF m(1)] show thesis
    by (intro that [OF w(1) _ _ m(2)]) (simp_all only: w(2))
qed

lemma paired_iff:
  assumes "scan_ok T xs s" "j < length (legBCandidates s)"
  shows "unpaired_of s (legBCandidates s ! j) = None \<longleftrightarrow> (\<exists>k < length (legAByOfferId s). paired_at s k = Some j)"
    (is "?l \<longleftrightarrow> ?r")
proof
  let ?i = "legAOfferId (lb_context (legBCandidates s ! j))"
  assume ?l
  then obtain w how where w: "winner s ?i = Some (w, how)" "lb_index w = j"
    using candidate_at(2) [OF assms] by (auto simp: unpaired_of_None)
  then obtain k where "k < length (legAByOfferId s)" "fst (legAByOfferId s ! k) = ?i"
    using winner_mem [OF w(1)] by (fastforce simp: in_set_conv_nth)
  with w show ?r by (auto simp: paired_at_def)
next
  assume ?r
  then obtain k where "paired_at s k = Some j" by blast
  from assms(1) this show ?l
    by (rule paired_at_Some) (use candidate_at(2) [OF assms] in \<open>auto simp: unpaired_of_None\<close>)
qed

lemma unpaired_ids:
  assumes "scan_ok T xs s"
  shows "mset (map fst (List.map_filter (unpaired_of s) (orderedLegB s)))
    = mset (map (\<lambda>j. of_id (lb_offer (legBCandidates s ! j)))
        (filter (\<lambda>j. \<forall>k < length (legAByOfferId s). paired_at s k \<noteq> Some j) [0..<length (legBCandidates s)]))"
proof -
  let ?P = "\<lambda>c. unpaired_of s c \<noteq> None" and ?cs = "legBCandidates s"
  have "map fst (List.map_filter (unpaired_of s) cs) = map (\<lambda>c. of_id (lb_offer c)) (filter ?P cs)" for cs
    by (induction cs) (auto simp: List.map_filter_def unpaired_id)
  then have "mset (map fst (List.map_filter (unpaired_of s) (orderedLegB s)))
      = image_mset (\<lambda>c. of_id (lb_offer c)) (filter_mset ?P (mset (orderedLegB s)))" by simp
  also have "\<dots> = image_mset (\<lambda>c. of_id (lb_offer c)) (filter_mset ?P (mset ?cs))" by (simp add: orderedLegB_def)
  also have "\<dots> = mset (map (\<lambda>c. of_id (lb_offer c)) (filter ?P (map ((!) ?cs) [0..<length ?cs])))"
    by (simp add: map_nth)
  also have "filter ?P (map ((!) ?cs) [0..<length ?cs])
      = map ((!) ?cs) (filter (\<lambda>j. \<forall>k < length (legAByOfferId s). paired_at s k \<noteq> Some j) [0..<length ?cs])"
    using paired_iff [OF assms] by (fastforce simp: filter_map intro!: arg_cong [of _ _ "map _"] filter_cong)
  finally show ?thesis by (simp add: o_def)
qed

lemma chooseAccept_own:
  assumes "acceptSeqOf accepts did = Some n \<or> (\<exists>a \<in> set accepts. core_from (aa_frame a) = did)"
  shows "\<exists>a \<in> set accepts. core_from (aa_frame a) = did \<and> chooseAccept accepts (Some did) = (Some a, False)"
proof -
  have "\<exists>a \<in> set accepts. core_from (aa_frame a) = did" using assms acceptSeqOf_Some by blast
  then obtain a where a: "List.find (\<lambda>a. core_from (aa_frame a) = did) accepts = Some a"
    by (metis (mono_tags, lifting) find_None_iff not_None_eq)
  then have "a \<in> set accepts" "core_from (aa_frame a) = did" by (auto simp: find_Some_iff)
  then show ?thesis using a by (intro bexI [of _ a]) (auto simp: chooseAccept_def simp del: find.simps split: list.split)
qed

section \<open>Properties of the board\<close>

text \<open>The concrete room of the witnesses: both offers and both accepts.\<close>

definition demo_room :: "transcript_record list" where
  "demo_room =
     [demo_record ''tclk-offers'' 1 demo_buyer ''offer A'', demo_record ''tclk-offers'' 2 demo_seller ''accept A'',
      demo_record ''tclk-offers'' 3 demo_seller ''offer B'', demo_record ''tclk-offers'' 4 demo_buyer ''accept B'']"

definition demo_board :: board_input where
  "demo_board =
     \<lparr>bi_offers = demo_room, bi_dealRooms = (\<lambda>_. None),
      bi_evidence = Some (\<lambda>c. if c = id32 (CHR ''c'')
        then Some \<lparr>lg_lock = demo_lock ''evm-htlc'' demo_terms_a, lg_rail = None\<rparr> else None),
      bi_nowMs = 500, bi_railRegistry = None\<rparr>"

text \<open>Only authenticated records count: removing every record of another room, with no
  valid signature, no decodable frame or a forged sender leaves the board as it is.\<close>

theorem board_ignores_unauthenticated:
  "buildBoard T (inp\<lparr>bi_offers := filter (\<lambda>r. authenticate T r \<noteq> None) (bi_offers inp)\<rparr>) = buildBoard T inp"
proof -
  have a: "authenticateOffers T (filter (\<lambda>r. authenticate T r \<noteq> None) rs) = authenticateOffers T rs" for rs
    by (induction rs) (simp_all add: authenticateOffers_def List.map_filter_def)
  then have s: "scan_all T (filter (\<lambda>r. authenticate T r \<noteq> None) (bi_offers inp)) = scan_all T (bi_offers inp)"
    by (simp add: scan_all_def)
  have "fold_pair T (inp\<lparr>bi_offers := x\<rparr>) = fold_pair T inp" for x
    by (simp add: fold_pair_def fun_eq_iff)
  then have f: "fold_with_evidence T (inp\<lparr>bi_offers := x\<rparr>) = fold_with_evidence T inp" for x
    by (simp add: fold_with_evidence_def fun_eq_iff split: option.split)
  have "pair_records T (inp\<lparr>bi_offers := x\<rparr>) = pair_records T inp" for x
    by (simp add: pair_records_def fun_eq_iff Let_def split: option.split)
  then have "board_swap T (inp\<lparr>bi_offers := x\<rparr>) st e = board_swap T inp st e" for x st e
    by (simp add: board_swap_def f split: option.split prod.split)
  then have b: "board_swap T (inp\<lparr>bi_offers := x\<rparr>) = board_swap T inp" for x
    by (simp add: fun_eq_iff)
  show ?thesis by (simp add: buildBoard_def s b del: not_None_eq)
qed

text \<open>C8. Every offer once. The board has exactly one swap for each distinct id of an authenticated leg A
  offer, folded from an authenticated offer of that id. Each swap without a leg B is paired with no position of
  the list of authenticated leg B offers, and each swap with one is paired with a position of its own, whose
  offer names that leg A offer and opens the leg B that was folded. The unpaired list holds, with
  multiplicity, the ids of exactly the leg B offers at the other positions.\<close>

theorem board_conserves_offers:
  assumes "buildBoard T inp = Some bd"
  shows "\<exists>ids paired. distinct ids
    \<and> set ids = set (List.map_filter (is_leg_a T) (authenticateOffers T (bi_offers inp)))
    \<and> length (bd_swaps bd) = length ids
    \<and> (\<forall>k < length ids. \<exists>rf. rf \<in> set (authenticateOffers T (bi_offers inp)) \<and> is_leg_a T rf = Some (ids ! k)
         \<and> opened_by T (sv_legA (bd_swaps bd ! k)) (fst rf))
    \<and> (\<forall>k < length ids. case paired k of
           None \<Rightarrow> sv_legB (bd_swaps bd ! k) = None
         | Some j \<Rightarrow> j < length (leg_b_offers T inp) \<and> snd (leg_b_ids T (leg_b_offers T inp ! j)) = ids ! k
             \<and> opened_by T (sv_legB (bd_swaps bd ! k)) (fst (leg_b_offers T inp ! j)))
    \<and> (\<forall>k < length ids. \<forall>k' < length ids. paired k \<noteq> None \<and> paired k = paired k' \<longrightarrow> k = k')
    \<and> mset (map fst (bd_unpaired bd)) = mset (map (\<lambda>j. fst (leg_b_ids T (leg_b_offers T inp ! j)))
        (filter (\<lambda>j. \<forall>k < length ids. paired k \<noteq> Some j) [0..<length (leg_b_offers T inp)]))"
proof -
  define s where "s = scan_all T (bi_offers inp)"
  have ok: "scan_ok T (authenticateOffers T (bi_offers inp)) s" by (simp add: s_def scan_all_ok)
  have all: "list_all2 (\<lambda>e v. board_swap T inp s e = Some v) (legAByOfferId s) (bd_swaps bd)"
    and un: "bd_unpaired bd = List.map_filter (unpaired_of s) (orderedLegB s)"
    using buildBoard_Some [OF assms] by (simp_all add: s_def)
  let ?ids = "map fst (legAByOfferId s)"
  have d: "distinct ?ids" "set ?ids = set (List.map_filter (is_leg_a T) (authenticateOffers T (bi_offers inp)))"
    using ok by (simp_all add: scan_ok_def)
  have swap: "board_swap T inp s (fst (legAByOfferId s ! k), snd (legAByOfferId s ! k)) = Some (bd_swaps bd ! k)"
    if "k < length ?ids" for k
    using list_all2_nthD [OF all, of k] that by simp
  have a: "\<exists>rf. rf \<in> set (authenticateOffers T (bi_offers inp)) \<and> is_leg_a T rf = Some (?ids ! k)
      \<and> opened_by T (sv_legA (bd_swaps bd ! k)) (fst rf)" if k: "k < length ?ids" for k
  proof -
    have "leg_a_ok T (authenticateOffers T (bi_offers inp)) (legAByOfferId s ! k)"
      using ok k by (simp add: scan_ok_def)
    then show ?thesis
      using board_swap_folds(1) [OF swap [OF k]] k
      by (intro exI [of _ "(la_record (snd (legAByOfferId s ! k)), OfferF (la_offer (snd (legAByOfferId s ! k))))"])
        (simp add: leg_a_ok_def is_leg_a_def opened_by_def)
  qed
  have b: "case paired_at s k of None \<Rightarrow> sv_legB (bd_swaps bd ! k) = None
      | Some j \<Rightarrow> j < length (leg_b_offers T inp) \<and> snd (leg_b_ids T (leg_b_offers T inp ! j)) = ?ids ! k
          \<and> opened_by T (sv_legB (bd_swaps bd ! k)) (fst (leg_b_offers T inp ! j))" if k: "k < length ?ids" for k
  proof (cases "paired_at s k")
    case None
    then show ?thesis using board_swap_folds(2) [OF swap [OF k]] by (simp add: paired_at_def)
  next
    case (Some j)
    from paired_at_Some [OF ok Some] obtain w how where w: "winner s (fst (legAByOfferId s ! k)) = Some (w, how)"
      "j < length (legBCandidates s)" "w = legBCandidates s ! j" "legAOfferId (lb_context w) = fst (legAByOfferId s ! k)" .
    then show ?thesis
      using Some board_swap_folds(3) [OF swap [OF k] w(1)] leg_b_at [OF s_def w(2,3)] leg_b_length [of T inp] k
      by (simp add: opened_by_def s_def [symmetric])
  qed
  have inj: "k = k'" if h: "k < length ?ids" "k' < length ?ids" "paired_at s k \<noteq> None \<and> paired_at s k = paired_at s k'" for k k'
  proof -
    obtain j where j: "paired_at s k = Some j" "paired_at s k' = Some j" using h(3) by (metis not_None_eq)
    have "?ids ! k = ?ids ! k'"
      using h(1,2) by (rule_tac paired_at_Some [OF ok j(1)], rule_tac paired_at_Some [OF ok j(2)]) simp
    then show ?thesis using nth_eq_iff_index_eq [OF d(1)] h(1,2) by blast
  qed
  have "fst (leg_b_ids T (leg_b_offers T inp ! j)) = of_id (lb_offer (legBCandidates s ! j))"
    if "j < length (legBCandidates s)" for j using leg_b_at(2) [OF s_def that refl] by simp
  then have u: "mset (map fst (bd_unpaired bd)) = mset (map (\<lambda>j. fst (leg_b_ids T (leg_b_offers T inp ! j)))
        (filter (\<lambda>j. \<forall>k < length ?ids. paired_at s k \<noteq> Some j) [0..<length (leg_b_offers T inp)]))"
    unfolding un unpaired_ids [OF ok] leg_b_length s_def [symmetric]
    by (intro arg_cong [of _ _ mset]) simp
  show ?thesis
    by (rule exI [of _ ?ids], rule exI [of _ "paired_at s"], intro conjI allI impI, rule d(1), rule d(2),
        simp add: list_all2_lengthD [OF all], erule a, erule b, rule inj, assumption+, rule u)
qed

theorem board_conserves_offers_witness:
  "\<exists>bd. buildBoard demo_tclk demo_board = Some bd \<and> length (bd_swaps bd) = 1 \<and> bd_unpaired bd = []"
proof -
  have "map_option (\<lambda>bd. (bd_unpaired bd, map (\<lambda>v. sv_legB v \<noteq> None) (bd_swaps bd))) (buildBoard demo_tclk demo_board) = Some ([], [True])"
    by code_simp
  then obtain bd where b: "buildBoard demo_tclk demo_board = Some bd" "bd_unpaired bd = []" "length (bd_swaps bd) = 1"
    by (auto dest: arg_cong [of _ _ length])
  from board_conserves_offers [OF b(1)] b show ?thesis by blast
qed

text \<open>C6. A stranger cannot displace the real pair. As soon as one leg B crosses a leg A (its signer accepted
  leg A, and leg A's own offerer accepted it), the swap of the board for that leg A is folded over a leg B that
  crosses too, no crossing leg B's signer having accepted leg A earlier, and over the two accepts that make it
  cross: leg A's by that leg B's signer, leg B's by leg A's offerer.\<close>

theorem crossing_pair_wins:
  assumes "buildBoard T inp = Some bd" "s = scan_all T (bi_offers inp)"
    and "k < length (legAByOfferId s)" "legAByOfferId s ! k = (i, legA)"
    and "crosses_in s legA (acceptsByRef s i) (candidatesByLegA s i) c n"
  shows "\<exists>w m a b ra rb. crosses_in s legA (acceptsByRef s i) (candidatesByLegA s i) w m \<and> m \<le> n
    \<and> a \<in> set (acceptsByRef s i) \<and> core_from (aa_frame a) = of_from (lb_offer w)
    \<and> b \<in> set (acceptsByRef s (of_id (lb_offer w))) \<and> core_from (aa_frame b) = of_from (la_offer legA)
    \<and> sv_legA (bd_swaps bd ! k) = foldLeg T (la_record legA # aa_record a # ra)
    \<and> sv_legB (bd_swaps bd ! k) = foldLeg T (lb_record w # aa_record b # rb)"
proof -
  have "distinct (map fst (legAByOfferId s))" using scan_all_ok [of T "bi_offers inp"] by (simp add: assms(2) scan_ok_def)
  then have "map_of (legAByOfferId s) i = Some legA"
    using assms(3,4) by (metis map_of_is_SomeI nth_mem)
  with choose_crossing [OF assms(5)] obtain w m where w: "winner s i = Some (w, ByAccepter)"
    "crosses_in s legA (acceptsByRef s i) (candidatesByLegA s i) w m" "m \<le> n"
    by (metis option.simps(5) winner_def)
  obtain a where a: "a \<in> set (acceptsByRef s i)" "core_from (aa_frame a) = of_from (lb_offer w)"
    "chooseAccept (acceptsByRef s i) (Some (of_from (lb_offer w))) = (Some a, False)"
    using chooseAccept_own w(2) unfolding crosses_in_def by blast
  obtain b where b: "b \<in> set (acceptsByRef s (of_id (lb_offer w)))" "core_from (aa_frame b) = of_from (la_offer legA)"
    "chooseAccept (acceptsByRef s (of_id (lb_offer w))) (Some (of_from (la_offer legA))) = (Some b, False)"
    using chooseAccept_own [of "acceptsByRef s (of_id (lb_offer w))" "of_from (la_offer legA)"] w(2)
    by (auto simp: crosses_in_def buyer_accepted_def list_ex_iff)
  have "board_swap T inp s (i, legA) = Some (bd_swaps bd ! k)"
    using list_all2_nthD [OF buildBoard_Some(1) [OF assms(1)], of k] assms(2-4) by simp
  then obtain ra rb x y u where p: "pair_records T inp s i legA = Some (ra, rb, x, y)"
    and f: "fold_with_evidence T inp ra rb = Some u"
    and v: "sv_legA (bd_swaps bd ! k) = sv_legA u" "sv_legB (bd_swaps bd ! k) = sv_legB u"
    by (auto elim: board_swap_cases)
  have "\<exists>rs. ra = la_record legA # aa_record a # rs" "\<exists>rs. rb = lb_record w # aa_record b # rs"
    using p w(1) a(3) b(3) by (auto simp: pair_records_def buildLegRecords_def Let_def split: option.splits)
  then show ?thesis using w(2,3) a(1,2) b(1,2) v fold_with_evidence_sound(1,2) [OF f] by metis
qed

theorem crossing_pair_wins_witness:
  "\<exists>bd (w :: leg_b_candidate) (b :: authed_accept) rb. buildBoard demo_tclk demo_board = Some bd
     \<and> sv_legB (hd (bd_swaps bd)) = foldLeg demo_tclk (lb_record w # aa_record b # rb)"
proof -
  define s where "s = scan_all demo_tclk (bi_offers demo_board)"
  let ?i = "id32 (CHR ''a'')" and ?A = "snd (hd (legAByOfferId s))" and ?c = "hd (candidatesByLegA s (id32 (CHR ''a'')))"
  have "map_option (\<lambda>bd. bd_swaps bd \<noteq> []) (buildBoard demo_tclk demo_board) = Some True" by code_simp
  then obtain bd where bd: "buildBoard demo_tclk demo_board = Some bd" "bd_swaps bd \<noteq> []" by auto
  have a: "0 < length (legAByOfferId s)" "legAByOfferId s ! 0 = (?i, ?A)"
    unfolding s_def by code_simp+
  have c: "?c \<in> set (candidatesByLegA s ?i)" "acceptSeqOf (acceptsByRef s ?i) (of_from (lb_offer ?c)) = Some 2"
    "buyer_accepted s ?A ?c" unfolding s_def by code_simp+
  have "crosses_in s ?A (acceptsByRef s ?i) (candidatesByLegA s ?i) ?c 2"
    unfolding crosses_in_def using c by blast
  note k = crossing_pair_wins [OF bd(1) s_def a this, folded hd_conv_nth [OF bd(2)]]
  then have "\<exists>(w :: leg_b_candidate) (b :: authed_accept) rb. sv_legB (hd (bd_swaps bd)) = foldLeg demo_tclk (lb_record w # aa_record b # rb)"
    by blast
  with bd(1) show ?thesis by blast
qed

text \<open>Every accept the board works with is genuine: an authenticated frame, not signed by the
  offerer, whose contract is the id the library derives from an authenticated offer and that
  accept's own core.\<close>

theorem board_accepts_genuine:
  assumes "a \<in> set (acceptsByRef (scan_all T offers) ref)"
  shows "\<exists>r offer. (r, OfferF offer) \<in> set (authenticateOffers T offers) \<and> of_id offer = ref
    \<and> (aa_record a, AcceptF (aa_frame a)) \<in> set (authenticateOffers T offers)
    \<and> core_ref (aa_frame a) = ref \<and> core_from (aa_frame a) \<noteq> of_from offer
    \<and> contractId T offer (core_of (aa_frame a)) = Some (ac_contract (aa_frame a))"
proof -
  have "accept_ok T (authenticateOffers T offers) ref a"
    using scan_all_ok [of T offers] assms by (simp add: scan_ok_def)
  then show ?thesis unfolding accept_ok_def isGenuineAccept_iff by blast
qed

theorem board_accepts_genuine_witness:
  "\<exists>a. a \<in> set (acceptsByRef (scan_all demo_tclk demo_room) (id32 (CHR ''a'')))
     \<and> core_ref (aa_frame a) = id32 (CHR ''a'')"
proof -
  let ?as = "acceptsByRef (scan_all demo_tclk demo_room) (id32 (CHR ''a''))"
  have "?as \<noteq> []" by code_simp
  then have h: "hd ?as \<in> set ?as" by simp
  from board_accepts_genuine [OF h] h show ?thesis by blast
qed

text \<open>C7. Evidence isolation: whatever evidence a swap of the board was folded with, each piece of
  it was filed under the contract id that this very leg's own fold accepted.\<close>

theorem board_evidence_isolated:
  assumes "buildBoard T inp = Some bd" "v \<in> set (bd_swaps bd)"
  shows "(\<forall>l. ev_a (sv_evidence v) = Some l \<longrightarrow> (\<exists>e. own_evidence inp (sv_legA v) e \<and> lg_lock e = l))
    \<and> (\<forall>l. ev_b (sv_evidence v) = Some l \<longrightarrow> (\<exists>e. own_evidence inp (sv_legB v) e \<and> lg_lock e = l))
    \<and> (\<forall>ob. ev_aRail (sv_evidence v) = Some ob \<longrightarrow> (\<exists>e. own_evidence inp (sv_legA v) e \<and> lg_rail e = Some ob))
    \<and> (\<forall>ob. ev_bRail (sv_evidence v) = Some ob \<longrightarrow> (\<exists>e. own_evidence inp (sv_legB v) e \<and> lg_rail e = Some ob))"
proof -
  obtain k where k: "k < length (bd_swaps bd)" "bd_swaps bd ! k = v"
    using assms(2) by (auto simp: in_set_conv_nth)
  obtain e where "board_swap T inp (scan_all T (bi_offers inp)) e = Some v"
    using list_all2_nthD2 [OF buildBoard_Some(1) [OF assms(1)] k(1)] k(2) by auto
  then obtain ra rb u where f: "fold_with_evidence T inp ra rb = Some u"
    and v: "sv_legA v = sv_legA u" "sv_legB v = sv_legB u" "sv_evidence v = sv_evidence u"
    by (auto elim: board_swap_cases)
  show ?thesis unfolding v using fold_with_evidence_sound(3-6) [OF f] by blast
qed

theorem board_evidence_isolated_witness:
  "\<exists>bd v l e. buildBoard demo_tclk demo_board = Some bd \<and> v \<in> set (bd_swaps bd)
     \<and> ev_a (sv_evidence v) = Some l \<and> own_evidence demo_board (sv_legA v) e \<and> lg_lock e = l"
proof -
  have "map_option (\<lambda>bd. bd_swaps bd \<noteq> [] \<and> ev_a (sv_evidence (hd (bd_swaps bd))) \<noteq> None) (buildBoard demo_tclk demo_board)
      = Some True"
    by code_simp
  then obtain bd l where b: "buildBoard demo_tclk demo_board = Some bd" "bd_swaps bd \<noteq> []"
    "ev_a (sv_evidence (hd (bd_swaps bd))) = Some l" by auto
  then have "hd (bd_swaps bd) \<in> set (bd_swaps bd)" by simp
  from board_evidence_isolated [OF b(1) this] b this show ?thesis by blast
qed

text \<open>Documented behaviour of \<open>dealRoom\<close>: it is defined on every contract id the library
  derives.\<close>

definition tclk_rooms_ok :: "tclk \<Rightarrow> bool" where
  "tclk_rooms_ok T \<longleftrightarrow> (\<forall>offer core c. contractId T offer core = Some c \<longrightarrow> dealRoom T c \<noteq> None)"

lemma chooseAccept_mem: "chooseAccept accepts did = (Some a, b) \<Longrightarrow> a \<in> set accepts"
proof -
  have f: "List.find P xs = Some x \<Longrightarrow> x \<in> set xs" for P and xs :: "authed_accept list" and x
    by (auto simp: find_Some_iff)
  assume "chooseAccept accepts did = (Some a, b)"
  then show ?thesis
    by (auto simp: chooseAccept_def simp del: find.simps dest!: f split: list.splits option.splits bind_splits)
qed

text \<open>The board always returns: no set of rooms, forged, malformed or reordered, makes it
  throw.\<close>

theorem buildBoard_total:
  assumes "tclk_lock_ok T" "tclk_rooms_ok T"
  shows "\<exists>bd. buildBoard T inp = Some bd"
proof -
  define s where "s = scan_all T (bi_offers inp)"
  have room: "dealRoom T (ac_contract (aa_frame a)) \<noteq> None" if "a \<in> set (acceptsByRef s ref)" for a ref
  proof -
    have "accept_ok T (authenticateOffers T (bi_offers inp)) ref a"
      using that scan_all_ok [of T "bi_offers inp"] by (simp add: scan_ok_def s_def)
    then show ?thesis
      using assms(2) unfolding accept_ok_def isGenuineAccept_iff tclk_rooms_ok_def by blast
  qed
  have rec: "buildLegRecords T r (fst (chooseAccept (acceptsByRef s ref) did)) d \<noteq> None" for r ref did d
    using room chooseAccept_mem
    by (cases "chooseAccept (acceptsByRef s ref) did") (fastforce simp: buildLegRecords_def split: option.split)
  have "\<exists>w. foldSwap T x = Some w" for x
    using fold_leg_a_total [of "initial_view T x" T x] locked_state_terms [OF assms(1)] by (auto simp: foldSwap_def)
  then have tot: "fold_with_evidence T inp ra rb \<noteq> None" for ra rb
    by (auto simp: fold_with_evidence_def fold_pair_def split: option.split)
  have "board_swap T inp s e \<noteq> None" for e
    by (auto simp: board_swap_def pair_records_def Let_def buildLegRecords_def [of T _ None] rec tot
        split: option.split prod.split)
  then show ?thesis using those_total [of "legAByOfferId s" "board_swap T inp s"]
    by (auto simp: buildBoard_def s_def [symmetric] Let_def)
qed

theorem buildBoard_total_witness: "\<exists>bd. buildBoard demo_tclk demo_board = Some bd"
proof -
  have "tclk_rooms_ok demo_tclk" by (simp add: tclk_rooms_ok_def demo_tclk_def)
  from buildBoard_total [OF demo_lock_ok this] show ?thesis .
qed

end
