(* ===== verification/Account_Proof.thy ===== *)
theory Account_Proof
  imports Profile Desk_Demo
begin

text \<open>
  \<open>src/rails/account-proof.ts\<close>: the message a chain key signs to prove that a party
  controls an account, the proof field of a line, the two verifiers that need nothing but a
  library call, and the decision on one line's proof. The cryptography (viem, noble, base58) and
  the two verifiers of other files (\<open>bip322\<close>, \<open>nep413\<close>) are the fields of the record
  \<open>proof_lib\<close>; bytes are naturals below 256.
\<close>

section \<open>Hexadecimal\<close>

definition hex_value :: "char \<Rightarrow> nat" where
  "hex_value c = (if c \<in> set digits then of_char c - 48 else of_char c - 87)"

definition hex_char :: "nat \<Rightarrow> char" where
  "hex_char n = lower_hex ! n"

fun hex_pairs :: "string \<Rightarrow> nat list option" where
  "hex_pairs [] = Some []"
| "hex_pairs [c] = None"
| "hex_pairs (c # d # s) =
     (if c \<in> set lower_hex \<and> d \<in> set lower_hex
      then map_option (Cons (16 * hex_value c + hex_value d)) (hex_pairs s) else None)"

definition hexToBytes :: "string \<Rightarrow> nat list option" where
  "hexToBytes s = (if s = [] then None else hex_pairs s)"

definition bytesToHex :: "nat list \<Rightarrow> string" where
  "bytesToHex bs = concat (map (\<lambda>b. [hex_char (b div 16), hex_char (b mod 16)]) bs)"

definition big_endian :: "nat list \<Rightarrow> int" where
  "big_endian bs = foldl (\<lambda>n b. 256 * n + int b) 0 bs"

text \<open>\<open>toLowerCase\<close> on ASCII.\<close>

definition lower_char :: "char \<Rightarrow> char" where
  "lower_char c = (if 65 \<le> (of_char c :: nat) \<and> (of_char c :: nat) \<le> 90 then char_of (of_char c + 32 :: nat) else c)"

definition toLowerCase :: "string \<Rightarrow> string" where
  "toLowerCase s = map lower_char s"

section \<open>The signed message\<close>

definition ACCOUNT_PROOF_MESSAGE_PREFIX :: string where
  "ACCOUNT_PROOF_MESSAGE_PREFIX = ''FLOP::swap::account-proof::v1''"

definition RAIL_PROOF_SCHEMES :: "string \<Rightarrow> string list option" where
  "RAIL_PROOF_SCHEMES rail =
     (if rail = ''evm-htlc'' then Some [''eip191'']
      else if rail = ''btc-htlc'' then Some [''bip322'']
      else if rail = ''near-htlc'' then Some [''nep413'']
      else None)"

definition DID_SHAPE :: "string \<Rightarrow> bool" where
  "DID_SHAPE s \<longleftrightarrow>
     (case split_on (CHR '':'') s of
        d # m # rest \<Rightarrow>
          d = ''did'' \<and> m \<noteq> [] \<and> only lower_alnum m \<and> rest \<noteq> []
          \<and> join_with (CHR '':'') rest \<noteq> [] \<and> only (''._%:-'' @ alnum) (join_with (CHR '':'') rest)
      | _ \<Rightarrow> False)"

definition ACCOUNT_SHAPE :: "string \<Rightarrow> bool" where
  "ACCOUNT_SHAPE s \<longleftrightarrow>
     (case split_on (CHR '':'') s of
        [ns, reference, address] \<Rightarrow>
          run_of (''-'' @ lower_alnum) 3 8 ns \<and> run_of (''-_'' @ alnum) 1 32 reference
          \<and> run_of (''-._%'' @ alnum) 1 128 address
      | _ \<Rightarrow> False)"

record proof_message_input =
  pm_did :: string
  pm_contract :: string
  pm_railId :: string
  pm_account :: string

datatype proof_message_error =
    MalformedDid string
  | MalformedContract string
  | UnregisteredRailId string
  | NonCanonicalRailId string string
  | MalformedAccount string

definition buildAccountProofMessage ::
    "tclk \<Rightarrow> registry option \<Rightarrow> proof_message_input \<Rightarrow> (proof_message_error, string) result" where
  "buildAccountProofMessage T R i =
     (if \<not> DID_SHAPE (pm_did i) then Inl (MalformedDid (pm_did i))
      else if \<not> hex32 (pm_contract i) then Inl (MalformedContract (pm_contract i))
      else (case normalizeRailIdWith T R (pm_railId i) of
              None \<Rightarrow> Inl (UnregisteredRailId (pm_railId i))
            | Some railId \<Rightarrow>
                if railId \<noteq> pm_railId i then Inl (NonCanonicalRailId (pm_railId i) railId)
                else if \<not> ACCOUNT_SHAPE (pm_account i) then Inl (MalformedAccount (pm_account i))
                else Inr (join_with (CHR ''|'')
                       [ACCOUNT_PROOF_MESSAGE_PREFIX, pm_did i, pm_contract i, railId, pm_account i])))"

section \<open>The proof field\<close>

record account_proof =
  ap_scheme :: string
  ap_signature :: string
  ap_publicKey :: "string option"

datatype proof_field_error = BadScheme | BadSignature | BadPublicKey

definition SCHEME_SHAPE :: "string \<Rightarrow> bool" where
  "SCHEME_SHAPE s \<longleftrightarrow>
     (case s of [] \<Rightarrow> False
      | c # cs \<Rightarrow> c \<in> set lower_alnum \<and> length cs \<le> 15 \<and> only (''-'' @ lower_alnum) cs)"

definition SIGNATURE_SHAPE :: "string \<Rightarrow> bool" where
  "SIGNATURE_SHAPE s \<longleftrightarrow> run_of (''+/=_.-'' @ alnum) 1 2048 s"

definition KEY_SHAPE :: "string \<Rightarrow> bool" where
  "KEY_SHAPE s \<longleftrightarrow> run_of ('':+/=_.-'' @ alnum) 1 256 s"

definition formatProofField :: "account_proof \<Rightarrow> (proof_field_error, string) result" where
  "formatProofField p =
     (if \<not> SCHEME_SHAPE (ap_scheme p) then Inl BadScheme
      else if \<not> SIGNATURE_SHAPE (ap_signature p) then Inl BadSignature
      else if (case ap_publicKey p of None \<Rightarrow> False | Some k \<Rightarrow> \<not> KEY_SHAPE k) then Inl BadPublicKey
      else Inr (ap_scheme p @ '':'' @ ap_signature p
                @ (case ap_publicKey p of None \<Rightarrow> [] | Some k \<Rightarrow> '' '' @ k)))"

text \<open>The text is cut at its first colon, which must not be its first character.\<close>

definition parseProofTokens :: "string \<Rightarrow> string option \<Rightarrow> account_proof option" where
  "parseProofTokens schemeAndSignature key =
     (case split_on (CHR '':'') schemeAndSignature of
        scheme # rest \<Rightarrow>
          if rest = [] \<or> scheme = [] then None
          else (let signature = join_with (CHR '':'') rest
                in if \<not> SCHEME_SHAPE scheme \<or> \<not> SIGNATURE_SHAPE signature then None
                   else if (case key of None \<Rightarrow> False | Some k \<Rightarrow> \<not> KEY_SHAPE k) then None
                   else Some \<lparr>ap_scheme = scheme, ap_signature = signature, ap_publicKey = key\<rparr>)
      | [] \<Rightarrow> None)"

section \<open>Verifiers\<close>

record proof_context =
  pc_message :: string
  pc_railId :: string
  pc_caip2 :: string
  pc_subject :: string
  pc_proof :: account_proof

record proof_lib =
  hashMessage :: "string \<Rightarrow> string"
  recoverPublicKey :: "nat list \<Rightarrow> nat \<Rightarrow> nat list \<Rightarrow> nat list option"
  publicKeyToAddress :: "string \<Rightarrow> string option"
  base58_decode :: "string \<Rightarrow> nat list option"
  base58_encode :: "nat list \<Rightarrow> string"
  ed25519_verify :: "nat list \<Rightarrow> string \<Rightarrow> nat list \<Rightarrow> bool option"
  isAddress :: "string \<Rightarrow> bool"
  bip322_verify :: "proof_context \<Rightarrow> bool"
  nep413_verify :: "proof_context \<Rightarrow> bool"

definition SECP256K1_HALF_ORDER :: int where
  "SECP256K1_HALF_ORDER = 0x7fffffffffffffffffffffffffffffff5d576e7357a4501ddfe92f46681b20a0"

text \<open>\<open>recoverPublicKey\<close> answers the uncompressed point; \<open>None\<close> in it, in
  \<open>publicKeyToAddress\<close> or in \<open>ed25519_verify\<close> is an exception, caught as a refusal.\<close>

definition eip191Verifier :: "proof_lib \<Rightarrow> proof_context \<Rightarrow> bool" where
  "eip191Verifier L ctx =
     (case hexToBytes (ap_signature (pc_proof ctx)) of
        None \<Rightarrow> False
      | Some sig \<Rightarrow>
          if length sig \<noteq> 65 \<or> ap_publicKey (pc_proof ctx) \<noteq> None then False
          else (let v = sig ! 64
                in if v \<noteq> 27 \<and> v \<noteq> 28 then False
                   else if SECP256K1_HALF_ORDER < big_endian (take 32 (drop 32 sig)) then False
                   else (case hexToBytes (drop 2 (hashMessage L (pc_message ctx))) of
                           None \<Rightarrow> False
                         | Some digest \<Rightarrow>
                             (case recoverPublicKey L (take 64 sig) (v - 27) digest of
                                None \<Rightarrow> False
                              | Some point \<Rightarrow>
                                  (case publicKeyToAddress L (''0x'' @ bytesToHex point) of
                                     None \<Rightarrow> False
                                   | Some recovered \<Rightarrow>
                                       toLowerCase recovered = toLowerCase (pc_subject ctx))))))"

definition solana_shape :: "string \<Rightarrow> bool" where
  "solana_shape s \<longleftrightarrow> run_of base58_chars 32 44 s"

text \<open>A subject of the base58 shape that base58 refuses throws, which is a refusal too.\<close>

definition ed25519Verifier :: "proof_lib \<Rightarrow> proof_context \<Rightarrow> bool" where
  "ed25519Verifier L ctx =
     (case hexToBytes (ap_signature (pc_proof ctx)) of
        None \<Rightarrow> False
      | Some sig \<Rightarrow>
          if length sig \<noteq> 64 then False
          else if solana_shape (pc_subject ctx) \<and> base58_decode L (pc_subject ctx) = None then False
          else (let addressKey =
                      (if solana_shape (pc_subject ctx)
                       then (case base58_decode L (pc_subject ctx) of
                               Some k \<Rightarrow> if length k = 32 then Some k else None | None \<Rightarrow> None)
                       else None);
                    key = (case ap_publicKey (pc_proof ctx) of
                             None \<Rightarrow> addressKey
                           | Some t \<Rightarrow>
                               (case hexToBytes t of
                                  None \<Rightarrow> None
                                | Some k \<Rightarrow>
                                    if length k \<noteq> 32 then None
                                    else if addressKey \<noteq> None
                                         \<and> bytesToHex (the addressKey) \<noteq> bytesToHex k then None
                                    else Some k))
                in (case key of
                      None \<Rightarrow> False
                    | Some k \<Rightarrow> ed25519_verify L sig (pc_message ctx) k = Some True)))"

text \<open>A verifier registry maps a scheme to its verifier.\<close>

type_synonym verifiers = "string \<Rightarrow> (proof_context \<Rightarrow> bool) option"

definition DEFAULT_PROOF_VERIFIERS :: "proof_lib \<Rightarrow> verifiers" where
  "DEFAULT_PROOF_VERIFIERS L scheme =
     (if scheme = ''eip191'' then Some (eip191Verifier L)
      else if scheme = ''bip322'' then Some (bip322_verify L)
      else if scheme = ''nep413'' then Some (nep413_verify L)
      else if scheme = ''ed25519'' then Some (ed25519Verifier L)
      else None)"

section \<open>The decision on one line's proof\<close>

record required_policy =
  rp_verifiers :: "verifiers option"
  rp_allowedSchemes :: "string list option"

datatype proof_policy = Required required_policy | LegacyUnproven

datatype proof_refusal =
    NoProof
  | SchemeNotAccepted string string
  | NoVerifier string
  | MessageRefused proof_message_error
  | ProofDoesNotVerify

record line_proof_args =
  lp_did :: string
  lp_contract :: string
  lp_railId :: string
  lp_caip2 :: string
  lp_account :: string
  lp_subject :: string
  lp_proof :: "account_proof option"

definition checkLineProof ::
    "tclk \<Rightarrow> proof_lib \<Rightarrow> registry option \<Rightarrow> required_policy \<Rightarrow> line_proof_args \<Rightarrow> proof_refusal option" where
  "checkLineProof T L R policy args =
     (case lp_proof args of
        None \<Rightarrow> Some NoProof
      | Some proof \<Rightarrow>
          (let allowed = (case rp_allowedSchemes policy of
                            Some ss \<Rightarrow> ss
                          | None \<Rightarrow> (case RAIL_PROOF_SCHEMES (lp_railId args) of Some ss \<Rightarrow> ss | None \<Rightarrow> []))
           in if ap_scheme proof \<notin> set allowed then Some (SchemeNotAccepted (ap_scheme proof) (lp_railId args))
              else (case (case rp_verifiers policy of Some vs \<Rightarrow> vs | None \<Rightarrow> DEFAULT_PROOF_VERIFIERS L) (ap_scheme proof) of
                      None \<Rightarrow> Some (NoVerifier (ap_scheme proof))
                    | Some verify \<Rightarrow>
                        (case buildAccountProofMessage T R
                                \<lparr>pm_did = lp_did args, pm_contract = lp_contract args,
                                 pm_railId = lp_railId args, pm_account = lp_account args\<rparr> of
                           Inl e \<Rightarrow> Some (MessageRefused e)
                         | Inr message \<Rightarrow>
                             if verify \<lparr>pc_message = message, pc_railId = lp_railId args, pc_caip2 = lp_caip2 args,
                                        pc_subject = lp_subject args, pc_proof = proof\<rparr>
                             then None else Some ProofDoesNotVerify))))"

section \<open>Shapes and separators\<close>

lemma DID_SHAPE_chars:
  assumes "DID_SHAPE s"
  shows "CHR ''|'' \<notin> set s" "CHR '' '' \<notin> set s"
proof -
  obtain m rest where sp: "split_on (CHR '':'') s = ''did'' # m # rest" "rest \<noteq> []"
    and m: "only lower_alnum m" and r: "only (''._%:-'' @ alnum) (join_with (CHR '':'') rest)"
    using assms by (auto simp: DID_SHAPE_def split: list.splits)
  have s: "s = ''did:'' @ m @ CHR '':'' # join_with (CHR '':'') rest"
    using join_split [of "CHR '':''" s] sp by (cases rest) simp_all
  have "only (''._%:-'' @ alnum) s"
    using only_mono [OF m, of "''._%:-'' @ alnum"] r unfolding s by (simp add: alnum_def lower_alnum_def)
  then show "CHR ''|'' \<notin> set s" "CHR '' '' \<notin> set s"
    using only_notin [of "''._%:-'' @ alnum" s] by (auto simp: alnum_def)
qed

lemma run_of_mono: "run_of cls lo hi s \<Longrightarrow> set cls \<subseteq> set cls' \<Longrightarrow> only cls' s"
  by (auto simp: run_of_def intro: only_mono)

lemma ACCOUNT_SHAPE_chars:
  assumes "ACCOUNT_SHAPE s"
  shows "CHR ''|'' \<notin> set s"
proof -
  obtain n r a where sp: "split_on (CHR '':'') s = [n, r, a]"
    and k: "run_of (''-'' @ lower_alnum) 3 8 n" "run_of (''-_'' @ alnum) 1 32 r" "run_of (''-._%'' @ alnum) 1 128 a"
    using assms by (auto simp: ACCOUNT_SHAPE_def split: list.splits)
  let ?c = "''-._%:'' @ alnum"
  have s: "s = n @ CHR '':'' # r @ CHR '':'' # a"
    using join_split [of "CHR '':''" s] sp by simp
  have "only ?c n" by (rule run_of_mono [OF k(1)]) (auto simp: alnum_def lower_alnum_def)
  moreover have "only ?c r" by (rule run_of_mono [OF k(2)]) auto
  moreover have "only ?c a" by (rule run_of_mono [OF k(3)]) auto
  ultimately have "only ?c s" unfolding s by simp
  then show ?thesis using only_notin [of ?c s] by (auto simp: alnum_def)
qed

lemma prefix_chars: "CHR ''|'' \<notin> set ACCOUNT_PROOF_MESSAGE_PREFIX"
  by (simp add: ACCOUNT_PROOF_MESSAGE_PREFIX_def)

lemma buildAccountProofMessage_Inr:
  assumes "buildAccountProofMessage T R i = Inr m"
  shows "DID_SHAPE (pm_did i)" "hex32 (pm_contract i)" "normalizeRailIdWith T R (pm_railId i) = Some (pm_railId i)"
    "ACCOUNT_SHAPE (pm_account i)"
    "m = join_with (CHR ''|'') [ACCOUNT_PROOF_MESSAGE_PREFIX, pm_did i, pm_contract i, pm_railId i, pm_account i]"
  using assms by (auto simp: buildAccountProofMessage_def split: if_split_asm option.splits)

lemma proof_message_parts:
  assumes "tclk_rails_ok T" "registry_opt_ok T R" "buildAccountProofMessage T R i = Inr m"
  shows "\<forall>p \<in> set [ACCOUNT_PROOF_MESSAGE_PREFIX, pm_did i, pm_contract i, pm_railId i, pm_account i].
    CHR ''|'' \<notin> set p"
  using buildAccountProofMessage_Inr [OF assms(3)] prefix_chars DID_SHAPE_chars hex32_notin ACCOUNT_SHAPE_chars
    normalizeRailIdWith_laws(4) [OF assms(1,2)]
  by auto

section \<open>The proof field as a wire format\<close>

lemma SCHEME_SHAPE_chars:
  assumes "SCHEME_SHAPE s"
  shows "s \<noteq> []" "CHR '':'' \<notin> set s" "CHR '' '' \<notin> set s"
proof -
  obtain c cs where s: "s = c # cs" "c \<in> set lower_alnum" "only (''-'' @ lower_alnum) cs"
    using assms by (cases s) (auto simp: SCHEME_SHAPE_def)
  then have "only (''-'' @ lower_alnum) s" by simp
  then show "s \<noteq> []" "CHR '':'' \<notin> set s" "CHR '' '' \<notin> set s"
    using s only_notin [of "''-'' @ lower_alnum" s] by (auto simp: lower_alnum_def)
qed

lemma SIGNATURE_SHAPE_chars:
  assumes "SIGNATURE_SHAPE s"
  shows "s \<noteq> []" "CHR '':'' \<notin> set s" "CHR '' '' \<notin> set s"
proof -
  have o: "only (''+/=_.-'' @ alnum) s" using assms by (simp add: SIGNATURE_SHAPE_def run_of_def)
  show "CHR '':'' \<notin> set s" "CHR '' '' \<notin> set s"
    by (rule only_notin [OF o]; simp add: alnum_def)+
  show "s \<noteq> []" using assms by (auto simp: SIGNATURE_SHAPE_def run_of_def)
qed

lemma KEY_SHAPE_chars: "KEY_SHAPE s \<Longrightarrow> s \<noteq> [] \<and> CHR '' '' \<notin> set s"
  using only_notin [of "'':+/=_.-'' @ alnum" s "CHR '' ''"] by (auto simp: KEY_SHAPE_def run_of_def alnum_def)

text \<open>How a line reads the field: one or two tokens.\<close>

definition parse_proof_field :: "string \<Rightarrow> account_proof option" where
  "parse_proof_field s =
     (case split_on (CHR '' '') s of
        [x] \<Rightarrow> parseProofTokens x None
      | [x, k] \<Rightarrow> parseProofTokens x (Some k)
      | _ \<Rightarrow> None)"

lemma formatProofField_Inr:
  assumes "formatProofField p = Inr s"
  shows "SCHEME_SHAPE (ap_scheme p)" "SIGNATURE_SHAPE (ap_signature p)"
    "\<And>k. ap_publicKey p = Some k \<Longrightarrow> KEY_SHAPE k"
    "s = ap_scheme p @ '':'' @ ap_signature p @ (case ap_publicKey p of None \<Rightarrow> [] | Some k \<Rightarrow> '' '' @ k)"
  using assms by (auto simp: formatProofField_def split: if_split_asm option.splits)

lemma parseProofTokens_format:
  assumes "SCHEME_SHAPE a" "SIGNATURE_SHAPE b" "\<And>k. key = Some k \<Longrightarrow> KEY_SHAPE k"
  shows "parseProofTokens (a @ '':'' @ b) key = Some \<lparr>ap_scheme = a, ap_signature = b, ap_publicKey = key\<rparr>"
proof -
  have "split_on (CHR '':'') (a @ CHR '':'' # b) = [a, b]"
    using SCHEME_SHAPE_chars(2) [OF assms(1)] SIGNATURE_SHAPE_chars(2) [OF assms(2)] by (simp add: text_simps)
  then show ?thesis
    using assms SCHEME_SHAPE_chars(1) [OF assms(1)] by (simp add: parseProofTokens_def split: option.split)
qed

lemma split_proof_field:
  assumes "formatProofField p = Inr s"
  shows "split_on (CHR '' '') s = (ap_scheme p @ '':'' @ ap_signature p)
    # (case ap_publicKey p of None \<Rightarrow> [] | Some k \<Rightarrow> [k])"
proof -
  note k = formatProofField_Inr [OF assms]
  have x: "CHR '' '' \<notin> set (ap_scheme p @ '':'' @ ap_signature p)"
    using SCHEME_SHAPE_chars [OF k(1)] SIGNATURE_SHAPE_chars [OF k(2)] by simp
  show ?thesis
  proof (cases "ap_publicKey p")
    case None
    then show ?thesis using k(4) x split_on_plain by simp
  next
    case (Some key)
    then have s: "s = (ap_scheme p @ '':'' @ ap_signature p) @ CHR '' '' # key" using k(4) by simp
    show ?thesis
      unfolding s using split_on_append [OF x, of key] KEY_SHAPE_chars [OF k(3) [OF Some]] Some
      by (simp add: split_on_plain)
  qed
qed

lemma parse_formatProofField:
  assumes "formatProofField p = Inr s"
  shows "parse_proof_field s = Some p"
  using split_proof_field [OF assms] formatProofField_Inr [OF assms]
    parseProofTokens_format [of "ap_scheme p" "ap_signature p" "ap_publicKey p"]
  by (cases "ap_publicKey p") (simp_all add: parse_proof_field_def)

interpretation proof_wire: wire_format "\<lambda>_. True" "\<lambda>_. formatProofField" "\<lambda>_. parse_proof_field" "\<lambda>_ p. p"
  by unfold_locales (rule parse_formatProofField)

section \<open>A proof that counts\<close>

text \<open>What a line's proof establishes when it is not refused.\<close>

definition proves ::
    "tclk \<Rightarrow> proof_lib \<Rightarrow> registry option \<Rightarrow> required_policy \<Rightarrow> line_proof_args \<Rightarrow> bool" where
  "proves T L R policy args \<longleftrightarrow>
     (\<exists>p verify message. lp_proof args = Some p
        \<and> ap_scheme p \<in> set (case rp_allowedSchemes policy of
              Some ss \<Rightarrow> ss
            | None \<Rightarrow> (case RAIL_PROOF_SCHEMES (lp_railId args) of Some ss \<Rightarrow> ss | None \<Rightarrow> []))
        \<and> (case rp_verifiers policy of Some vs \<Rightarrow> vs | None \<Rightarrow> DEFAULT_PROOF_VERIFIERS L) (ap_scheme p) = Some verify
        \<and> buildAccountProofMessage T R \<lparr>pm_did = lp_did args, pm_contract = lp_contract args,
              pm_railId = lp_railId args, pm_account = lp_account args\<rparr> = Inr message
        \<and> verify \<lparr>pc_message = message, pc_railId = lp_railId args, pc_caip2 = lp_caip2 args,
              pc_subject = lp_subject args, pc_proof = p\<rparr>)"

lemma checkLineProof_None: "checkLineProof T L R policy args = None \<longleftrightarrow> proves T L R policy args"
  by (auto simp: checkLineProof_def proves_def Let_def split: option.splits sum.splits if_split_asm)

section \<open>Properties of the proof\<close>

text \<open>A signed message names one claim: two messages with the same bytes bind the same DID,
  contract, rail and account, so a proof made for one leg can never be read for another.\<close>

theorem proof_message_injective:
  assumes "tclk_rails_ok T" "registry_opt_ok T R"
    and "buildAccountProofMessage T R i = Inr m" "buildAccountProofMessage T R j = Inr m"
  shows "pm_did i = pm_did j \<and> pm_contract i = pm_contract j \<and> pm_railId i = pm_railId j
    \<and> pm_account i = pm_account j"
proof -
  have "[ACCOUNT_PROOF_MESSAGE_PREFIX, pm_did i, pm_contract i, pm_railId i, pm_account i]
      = [ACCOUNT_PROOF_MESSAGE_PREFIX, pm_did j, pm_contract j, pm_railId j, pm_account j]"
    by (rule join_with_inject [of "CHR ''|''"])
      (use buildAccountProofMessage_Inr(5) [OF assms(3)] buildAccountProofMessage_Inr(5) [OF assms(4)]
        proof_message_parts [OF assms(1,2,3)] proof_message_parts [OF assms(1,2,4)] in auto)
  then show ?thesis by simp
qed

definition demo_message_input :: proof_message_input where
  "demo_message_input =
     \<lparr>pm_did = ''did:key:z6Mkabc'', pm_contract = id32 (CHR ''c''), pm_railId = ''evm-htlc'',
      pm_account = ''eip155:31337:0x'' @ replicate 40 (CHR ''a'')\<rparr>"

theorem proof_message_injective_witness:
  "\<exists>m. buildAccountProofMessage demo_tclk None demo_message_input = Inr m
     \<and> pm_did demo_message_input = pm_did demo_message_input"
proof -
  have "case buildAccountProofMessage demo_tclk None demo_message_input of Inl _ \<Rightarrow> False | Inr _ \<Rightarrow> True"
    by code_simp
  then obtain m where m: "buildAccountProofMessage demo_tclk None demo_message_input = Inr m"
    by (auto split: sum.splits)
  have "registry_opt_ok demo_tclk None" by (simp add: registry_opt_ok_def)
  from proof_message_injective [OF demo_rails_ok this m m] m show ?thesis by blast
qed

text \<open>An accepted EVM proof is canonical: 65 bytes with no key token, a recovery byte of 27 or
  28, an \<open>s\<close> in the lower half of the group order (so the malleable twin is refused) and a
  recovered address equal to the line's.\<close>

theorem eip191_accepts_canonical_only:
  assumes "eip191Verifier L ctx"
  shows "\<exists>sig digest point recovered. hexToBytes (ap_signature (pc_proof ctx)) = Some sig
    \<and> length sig = 65 \<and> ap_publicKey (pc_proof ctx) = None
    \<and> (sig ! 64 = 27 \<or> sig ! 64 = 28) \<and> big_endian (take 32 (drop 32 sig)) \<le> SECP256K1_HALF_ORDER
    \<and> hexToBytes (drop 2 (hashMessage L (pc_message ctx))) = Some digest
    \<and> recoverPublicKey L (take 64 sig) (sig ! 64 - 27) digest = Some point
    \<and> publicKeyToAddress L (''0x'' @ bytesToHex point) = Some recovered
    \<and> toLowerCase recovered = toLowerCase (pc_subject ctx)"
proof -
  obtain sig where s: "hexToBytes (ap_signature (pc_proof ctx)) = Some sig"
    using assms by (cases "hexToBytes (ap_signature (pc_proof ctx))") (simp_all add: eip191Verifier_def)
  have shape: "length sig = 65" "ap_publicKey (pc_proof ctx) = None" "sig ! 64 = 27 \<or> sig ! 64 = 28"
    "\<not> SECP256K1_HALF_ORDER < big_endian (take 32 (drop 32 sig))"
    using assms by (simp_all add: eip191Verifier_def s Let_def split: if_split_asm)
  then have rest: "case hexToBytes (drop 2 (hashMessage L (pc_message ctx))) of None \<Rightarrow> False
    | Some digest \<Rightarrow> (case recoverPublicKey L (take 64 sig) (sig ! 64 - 27) digest of None \<Rightarrow> False
    | Some point \<Rightarrow> (case publicKeyToAddress L (''0x'' @ bytesToHex point) of None \<Rightarrow> False
    | Some recovered \<Rightarrow> toLowerCase recovered = toLowerCase (pc_subject ctx)))"
    using assms unfolding eip191Verifier_def s Let_def by (simp only: option.case if_False if_True split: if_split_asm)
  then obtain digest point recovered where
    "hexToBytes (drop 2 (hashMessage L (pc_message ctx))) = Some digest"
    "recoverPublicKey L (take 64 sig) (sig ! 64 - 27) digest = Some point"
    "publicKeyToAddress L (''0x'' @ bytesToHex point) = Some recovered"
    "toLowerCase recovered = toLowerCase (pc_subject ctx)"
    by (simp only: split: option.split_asm)
  with s shape show ?thesis by (intro exI conjI) (assumption | simp add: not_less)+
qed

definition demo_proof_lib :: proof_lib where
  "demo_proof_lib =
     \<lparr>hashMessage = (\<lambda>m. ''0x01''), recoverPublicKey = (\<lambda>s v d. Some [4]),
      publicKeyToAddress = (\<lambda>p. Some (''0x'' @ replicate 40 (CHR ''A''))),
      base58_decode = (\<lambda>s. Some (replicate 32 0)), base58_encode = (\<lambda>bs. replicate 32 (CHR ''1'')),
      ed25519_verify = (\<lambda>sig m k. Some True),
      isAddress = (\<lambda>s. length s = 42 \<and> take 2 s = ''0x'' \<and> only lower_hex (drop 2 s)),
      bip322_verify = (\<lambda>c. False), nep413_verify = (\<lambda>c. False)\<rparr>"

definition demo_proof :: account_proof where
  "demo_proof = \<lparr>ap_scheme = ''eip191'', ap_signature = replicate 128 (CHR ''0'') @ ''1b'', ap_publicKey = None\<rparr>"

definition demo_context :: proof_context where
  "demo_context =
     \<lparr>pc_message = ''m'', pc_railId = ''evm-htlc'', pc_caip2 = ''eip155:31337'',
      pc_subject = ''0x'' @ replicate 40 (CHR ''a''), pc_proof = demo_proof\<rparr>"

theorem eip191_accepts_canonical_only_witness:
  "eip191Verifier demo_proof_lib demo_context \<and> ap_publicKey demo_proof = None"
proof -
  have v: "eip191Verifier demo_proof_lib demo_context" by code_simp
  have p: "pc_proof demo_context = demo_proof" by (simp add: demo_context_def)
  from eip191_accepts_canonical_only [OF v] v show ?thesis unfolding p by blast
qed

end
