(* ===== verification/Account_Line.thy ===== *)
theory Account_Line
  imports Account_Proof
begin

text \<open>
  \<open>src/rails/account-line.ts\<close>: the account line and the pubkey line of a deal room, and the
  two folds that resolve at most one account or key per party. The two folds of the source are one
  loop with two parsers and are one definition with a parser argument here.
\<close>

section \<open>Chain address grammars\<close>

definition RAIL_NAMESPACES :: "string \<Rightarrow> string option" where
  "RAIL_NAMESPACES rail =
     (if rail = ''evm-htlc'' then Some ''eip155''
      else if rail = ''btc-htlc'' then Some ''bip122''
      else if rail = ''near-htlc'' then Some ''near''
      else None)"

definition namespaceForRail :: "registry option \<Rightarrow> string \<Rightarrow> string option" where
  "namespaceForRail R railId =
     (case RAIL_NAMESPACES railId of
        Some ns \<Rightarrow> Some ns
      | None \<Rightarrow> Option.bind R (\<lambda>reg. reg_namespaceOf reg railId))"

definition CAIP2_REFERENCE :: "string \<Rightarrow> bool" where
  "CAIP2_REFERENCE s \<longleftrightarrow> run_of (''-'' @ alnum) 1 32 s"

definition CAIP10_ADDRESS :: "string \<Rightarrow> bool" where
  "CAIP10_ADDRESS s \<longleftrightarrow> run_of (''-.%'' @ alnum) 1 128 s"

text \<open>\<open>/^(?=.{2,64}$)[a-z0-9]+(?:[-_.][a-z0-9]+)*$/\<close>: a separator stands between two
  characters that are none.\<close>

fun segments_ok :: "bool \<Rightarrow> string \<Rightarrow> bool" where
  "segments_ok after [] \<longleftrightarrow> after"
| "segments_ok after (c # s) \<longleftrightarrow>
     (if c \<in> set lower_alnum then segments_ok True s
      else c \<in> set ''-_.'' \<and> after \<and> segments_ok False s)"

definition NEAR_ACCOUNT_ID :: "string \<Rightarrow> bool" where
  "NEAR_ACCOUNT_ID s \<longleftrightarrow> 2 \<le> length s \<and> length s \<le> 64 \<and> segments_ok False s"

definition validateEip155Address :: "proof_lib \<Rightarrow> string \<Rightarrow> string \<Rightarrow> string option" where
  "validateEip155Address L reference address =
     (if \<not> canonical_decimal reference then None
      else if \<not> isAddress L address then None
      else Some (toLowerCase address))"

definition validateGenericCaip10 :: "string \<Rightarrow> string \<Rightarrow> string option" where
  "validateGenericCaip10 reference address =
     (if \<not> CAIP2_REFERENCE reference then None
      else if \<not> CAIP10_ADDRESS address then None
      else Some address)"

definition validateNearAccountId :: "string \<Rightarrow> string \<Rightarrow> string option" where
  "validateNearAccountId reference address =
     (if \<not> CAIP2_REFERENCE reference then None
      else if \<not> NEAR_ACCOUNT_ID address then None
      else Some address)"

definition validateSolanaAddress :: "proof_lib \<Rightarrow> string \<Rightarrow> string \<Rightarrow> string option" where
  "validateSolanaAddress L reference address =
     (if \<not> CAIP2_REFERENCE reference then None
      else if \<not> solana_shape address then None
      else (case base58_decode L address of
              None \<Rightarrow> None
            | Some bytes \<Rightarrow>
                if length bytes \<noteq> 32 \<or> base58_encode L bytes \<noteq> address then None else Some address))"

definition validateChainAddress :: "proof_lib \<Rightarrow> string \<Rightarrow> string \<Rightarrow> string \<Rightarrow> string option" where
  "validateChainAddress L namespace reference address =
     (if namespace = ''eip155'' then validateEip155Address L reference address
      else if namespace = ''near'' then validateNearAccountId reference address
      else if namespace = ''solana'' then validateSolanaAddress L reference address
      else validateGenericCaip10 reference address)"

section \<open>The account line\<close>

record line_input =
  li_railId :: string
  li_caip2 :: string
  li_subject :: string
  li_proof :: "account_proof option"

text \<open>\<open>ParsedAccountLine\<close> and \<open>ParsedPubkeyLine\<close>: the subject is the address or the
  key.\<close>

record parsed_line =
  pl_railId :: string
  pl_caip2 :: string
  pl_subject :: string
  pl_proof :: "account_proof option"

datatype line_error =
    RailUnregistered string
  | RailNotCanonical string string
  | RailWithoutNamespace string
  | MalformedCaip2 string
  | NamespaceMismatch string string
  | SubjectInvalid string string
  | ProofFieldError proof_field_error
  | LineTooLong nat

text \<open>The optional trailing field.\<close>

definition proof_suffix :: "account_proof option \<Rightarrow> (line_error, string) result" where
  "proof_suffix p =
     (case p of
        None \<Rightarrow> Inr []
      | Some x \<Rightarrow>
          (case formatProofField x of
             Inl e \<Rightarrow> Inl (ProofFieldError e)
           | Inr field \<Rightarrow> Inr ('' proof '' @ field)))"

text \<open>\<open>caip2.split(":")\<close> into a namespace and a reference, neither empty.\<close>

definition caip2_parts :: "string \<Rightarrow> (string \<times> string) option" where
  "caip2_parts c =
     (case split_on (CHR '':'') c of
        [ns, reference] \<Rightarrow> if ns = [] \<or> reference = [] then None else Some (ns, reference)
      | _ \<Rightarrow> None)"

definition capped :: "tclk \<Rightarrow> string \<Rightarrow> (line_error, string) result" where
  "capped T line = (if MAX_FRAME_CHARS T < length line then Inl (LineTooLong (length line)) else Inr line)"

definition formatAccountLine ::
    "tclk \<Rightarrow> proof_lib \<Rightarrow> registry option \<Rightarrow> line_input \<Rightarrow> (line_error, string) result" where
  "formatAccountLine T L R i =
     (case normalizeRailIdWith T R (li_railId i) of
        None \<Rightarrow> Inl (RailUnregistered (li_railId i))
      | Some railId \<Rightarrow>
          if railId \<noteq> li_railId i then Inl (RailNotCanonical (li_railId i) railId)
          else (case namespaceForRail R railId of
                  None \<Rightarrow> Inl (RailWithoutNamespace railId)
                | Some namespace \<Rightarrow>
                    (case caip2_parts (li_caip2 i) of
                       None \<Rightarrow> Inl (MalformedCaip2 (li_caip2 i))
                     | Some (ns, reference) \<Rightarrow>
                         if ns \<noteq> namespace then Inl (NamespaceMismatch ns namespace)
                         else (case validateChainAddress L namespace reference (li_subject i) of
                                 None \<Rightarrow> Inl (SubjectInvalid (li_subject i) reference)
                               | Some address \<Rightarrow>
                                   bind_res (proof_suffix (li_proof i)) (\<lambda>suffix.
                                     capped T (join_with (CHR '' '') [''swap1'', ''account'', railId,
                                       join_with (CHR '':'') [ns, reference, address]] @ suffix))))))"

text \<open>\<open>\S+\<close> tokens separated by single spaces.\<close>

definition token :: "string \<Rightarrow> bool" where
  "token s \<longleftrightarrow> s \<noteq> [] \<and> list_all (\<lambda>c. \<not> js_space c) s"

definition line_tokens :: "string \<Rightarrow> string list option" where
  "line_tokens line =
     (let ts = split_on (CHR '' '') line in if list_all token ts then Some ts else None)"

text \<open>The tail of a line: nothing, or \<open>proof\<close> with one or two tokens. \<open>None\<close> is a
  malformed tail, which makes the line malformed.\<close>

definition trailing_proof :: "string list \<Rightarrow> account_proof option option" where
  "trailing_proof rest =
     (case rest of
        [] \<Rightarrow> Some None
      | [p, x] \<Rightarrow> if p = ''proof'' then map_option Some (parseProofTokens x None) else None
      | [p, x, k] \<Rightarrow> if p = ''proof'' then map_option Some (parseProofTokens x (Some k)) else None
      | _ \<Rightarrow> None)"

definition parse_account_body ::
    "tclk \<Rightarrow> proof_lib \<Rightarrow> registry option \<Rightarrow> string \<Rightarrow> string \<Rightarrow> account_proof option \<Rightarrow> parsed_line option" where
  "parse_account_body T L R railToken caipToken proof =
     (case normalizeRailIdWith T R railToken of
        None \<Rightarrow> None
      | Some railId \<Rightarrow>
          if railId \<noteq> railToken then None
          else (case namespaceForRail R railId of
                  None \<Rightarrow> None
                | Some namespace \<Rightarrow>
                    (case split_on (CHR '':'') caipToken of
                       [ns, reference, address] \<Rightarrow>
                         if ns \<noteq> namespace then None
                         else (case validateChainAddress L namespace reference address of
                                 None \<Rightarrow> None
                               | Some a \<Rightarrow>
                                   Some \<lparr>pl_railId = railId, pl_caip2 = join_with (CHR '':'') [ns, reference],
                                         pl_subject = a, pl_proof = proof\<rparr>)
                     | _ \<Rightarrow> None)))"

definition parseAccountLine ::
    "tclk \<Rightarrow> proof_lib \<Rightarrow> registry option \<Rightarrow> string \<Rightarrow> parsed_line option" where
  "parseAccountLine T L R line =
     (case line_tokens line of
        Some (a # b # railToken # caipToken # rest) \<Rightarrow>
          if a \<noteq> ''swap1'' \<or> b \<noteq> ''account'' then None
          else if MAX_FRAME_CHARS T < length line then None
          else (case trailing_proof rest of
                  None \<Rightarrow> None
                | Some proof \<Rightarrow> parse_account_body T L R railToken caipToken proof)
      | _ \<Rightarrow> None)"

section \<open>The pubkey line\<close>

definition PUBKEY_RAIL_NAMESPACES :: "string \<Rightarrow> string option" where
  "PUBKEY_RAIL_NAMESPACES rail = (if rail = ''btc-htlc'' then Some ''bip122'' else None)"

definition BIP122_REFERENCE :: "string \<Rightarrow> bool" where
  "BIP122_REFERENCE s \<longleftrightarrow> run_of lower_hex 32 32 s"

definition PUBKEY_SHAPE :: "string \<Rightarrow> bool" where
  "PUBKEY_SHAPE s \<longleftrightarrow>
     (case s of z # t # rest \<Rightarrow> z = CHR ''0'' \<and> t \<in> set ''23'' \<and> run_of lower_hex 64 64 rest | _ \<Rightarrow> False)"

definition validatePubkeyForNamespace :: "string \<Rightarrow> string \<Rightarrow> string \<Rightarrow> string option" where
  "validatePubkeyForNamespace namespace reference pubkey =
     (if namespace \<noteq> ''bip122'' then None
      else if \<not> BIP122_REFERENCE reference then None
      else if \<not> PUBKEY_SHAPE pubkey then None
      else Some pubkey)"

definition formatPubkeyLine :: "tclk \<Rightarrow> line_input \<Rightarrow> (line_error, string) result" where
  "formatPubkeyLine T i =
     (case normalizeRailId T (li_railId i) of
        None \<Rightarrow> Inl (RailUnregistered (li_railId i))
      | Some railId \<Rightarrow>
          if railId \<noteq> li_railId i then Inl (RailNotCanonical (li_railId i) railId)
          else (case PUBKEY_RAIL_NAMESPACES railId of
                  None \<Rightarrow> Inl (RailWithoutNamespace railId)
                | Some namespace \<Rightarrow>
                    (case caip2_parts (li_caip2 i) of
                       None \<Rightarrow> Inl (MalformedCaip2 (li_caip2 i))
                     | Some (ns, reference) \<Rightarrow>
                         if ns \<noteq> namespace then Inl (NamespaceMismatch ns namespace)
                         else (case validatePubkeyForNamespace namespace reference (li_subject i) of
                                 None \<Rightarrow> Inl (SubjectInvalid (li_subject i) reference)
                               | Some pubkey \<Rightarrow>
                                   bind_res (proof_suffix (li_proof i)) (\<lambda>suffix.
                                     capped T (join_with (CHR '' '') [''swap1'', ''pubkey'', railId,
                                       join_with (CHR '':'') [ns, reference], pubkey] @ suffix))))))"

definition parse_pubkey_body ::
    "tclk \<Rightarrow> string \<Rightarrow> string \<Rightarrow> string \<Rightarrow> account_proof option \<Rightarrow> parsed_line option" where
  "parse_pubkey_body T railToken caipToken pubkeyToken proof =
     (case normalizeRailId T railToken of
        None \<Rightarrow> None
      | Some railId \<Rightarrow>
          if railId \<noteq> railToken then None
          else (case PUBKEY_RAIL_NAMESPACES railId of
                  None \<Rightarrow> None
                | Some namespace \<Rightarrow>
                    (case caip2_parts caipToken of
                       None \<Rightarrow> None
                     | Some (ns, reference) \<Rightarrow>
                         if ns \<noteq> namespace then None
                         else (case validatePubkeyForNamespace namespace reference pubkeyToken of
                                 None \<Rightarrow> None
                               | Some pubkey \<Rightarrow>
                                   Some \<lparr>pl_railId = railId, pl_caip2 = join_with (CHR '':'') [ns, reference],
                                         pl_subject = pubkey, pl_proof = proof\<rparr>))))"

definition parsePubkeyLine :: "tclk \<Rightarrow> string \<Rightarrow> parsed_line option" where
  "parsePubkeyLine T line =
     (case line_tokens line of
        Some (a # b # railToken # caipToken # pubkeyToken # rest) \<Rightarrow>
          if a \<noteq> ''swap1'' \<or> b \<noteq> ''pubkey'' then None
          else if MAX_FRAME_CHARS T < length line then None
          else (case trailing_proof rest of
                  None \<Rightarrow> None
                | Some proof \<Rightarrow> parse_pubkey_body T railToken caipToken pubkeyToken proof)
      | _ \<Rightarrow> None)"

section \<open>Proof messages of a line\<close>

datatype message_error = LineRefused line_error | NoMessage | MessageError proof_message_error

definition message_of_line ::
    "tclk \<Rightarrow> registry option \<Rightarrow> string \<Rightarrow> string \<Rightarrow> parsed_line option \<Rightarrow> (message_error, string) result" where
  "message_of_line T R did contract parsed =
     (case parsed of
        None \<Rightarrow> Inl NoMessage
      | Some p \<Rightarrow>
          (case buildAccountProofMessage T R
                  \<lparr>pm_did = did, pm_contract = contract, pm_railId = pl_railId p,
                   pm_account = join_with (CHR '':'') [pl_caip2 p, pl_subject p]\<rparr> of
             Inl e \<Rightarrow> Inl (MessageError e)
           | Inr m \<Rightarrow> Inr m))"

definition accountProofMessage ::
    "tclk \<Rightarrow> proof_lib \<Rightarrow> registry option \<Rightarrow> string \<Rightarrow> string \<Rightarrow> line_input \<Rightarrow> (message_error, string) result" where
  "accountProofMessage T L R did contract i =
     (case formatAccountLine T L R (i\<lparr>li_proof := None\<rparr>) of
        Inl e \<Rightarrow> Inl (LineRefused e)
      | Inr line \<Rightarrow> message_of_line T R did contract (parseAccountLine T L R line))"

definition pubkeyProofMessage ::
    "tclk \<Rightarrow> string \<Rightarrow> string \<Rightarrow> line_input \<Rightarrow> (message_error, string) result" where
  "pubkeyProofMessage T did contract i =
     (case formatPubkeyLine T (i\<lparr>li_proof := None\<rparr>) of
        Inl e \<Rightarrow> Inl (LineRefused e)
      | Inr line \<Rightarrow> message_of_line T None did contract (parsePubkeyLine T line))"

section \<open>Resolving the parties\<close>

record resolve_input =
  ri_contract :: string
  ri_payerDid :: string
  ri_payeeDid :: string
  ri_rail :: string
  ri_caip2 :: string
  ri_beforeSeq :: "int option"
  ri_proof :: proof_policy
  ri_railRegistry :: "registry option"

datatype role = Payer | Payee

datatype line_reason =
    RailNotRegistered string
  | NotAContractId string
  | OtherRail string string
  | OtherChain string string
  | NotProven string proof_refusal
  | ConflictingLines role string

text \<open>What one record contributes: nothing, a reason, or an identity of its sender.\<close>

datatype verdict_line = Skip | Note line_reason | Count string

definition check_args :: "resolve_input \<Rightarrow> string \<Rightarrow> string \<Rightarrow> parsed_line \<Rightarrow> line_proof_args" where
  "check_args i rail sender p =
     \<lparr>lp_did = sender, lp_contract = ri_contract i, lp_railId = rail, lp_caip2 = ri_caip2 i,
      lp_account = join_with (CHR '':'') [pl_caip2 p, pl_subject p], lp_subject = pl_subject p,
      lp_proof = pl_proof p\<rparr>"

definition line_verdict ::
    "tclk \<Rightarrow> proof_lib \<Rightarrow> (string \<Rightarrow> parsed_line option) \<Rightarrow> (parsed_line \<Rightarrow> string) \<Rightarrow> resolve_input
      \<Rightarrow> string \<Rightarrow> string \<Rightarrow> transcript_record \<Rightarrow> verdict_line" where
  "line_verdict T L parse identity i rail room r =
     (if (case ri_beforeSeq i of None \<Rightarrow> False | Some n \<Rightarrow> n \<le> tr_seq r) then Skip
      else if \<not> verifyTranscriptRecord T r then Skip
      else if tr_room r \<noteq> room then Skip
      else (case parse (tr_line r) of
              None \<Rightarrow> Skip
            | Some p \<Rightarrow>
                if pl_railId p \<noteq> rail then Note (OtherRail (tr_sender r) (pl_railId p))
                else if pl_caip2 p \<noteq> ri_caip2 i then Note (OtherChain (tr_sender r) (pl_caip2 p))
                else if tr_sender r \<noteq> ri_payerDid i \<and> tr_sender r \<noteq> ri_payeeDid i then Skip
                else (case ri_proof i of
                        LegacyUnproven \<Rightarrow> Count (identity p)
                      | Required policy \<Rightarrow>
                          (case checkLineProof T L (ri_railRegistry i) policy (check_args i rail (tr_sender r) p) of
                             Some why \<Rightarrow> Note (NotProven (tr_sender r) why)
                           | None \<Rightarrow> Count (identity p)))))"

record seen_lines =
  seen :: "string \<Rightarrow> string list"
  seen_reasons :: "line_reason list"

definition seen_step ::
    "(transcript_record \<Rightarrow> verdict_line) \<Rightarrow> seen_lines \<Rightarrow> transcript_record \<Rightarrow> seen_lines" where
  "seen_step verdict s r =
     (case verdict r of
        Skip \<Rightarrow> s
      | Note why \<Rightarrow> s\<lparr>seen_reasons := seen_reasons s @ [why]\<rparr>
      | Count x \<Rightarrow>
          if x \<in> set (seen s (tr_sender r)) then s
          else s\<lparr>seen := (seen s)(tr_sender r := seen s (tr_sender r) @ [x])\<rparr>)"

definition seen_all :: "(transcript_record \<Rightarrow> verdict_line) \<Rightarrow> transcript_record list \<Rightarrow> seen_lines" where
  "seen_all verdict rs = foldl (seen_step verdict) \<lparr>seen = (\<lambda>_. []), seen_reasons = []\<rparr> rs"

definition resolve_did :: "seen_lines \<Rightarrow> string \<Rightarrow> role \<Rightarrow> string option \<times> line_reason list" where
  "resolve_did s did role' =
     (case seen s did of
        [] \<Rightarrow> (None, [])
      | [x] \<Rightarrow> (Some x, [])
      | _ \<Rightarrow> (None, [ConflictingLines role' did]))"

record resolved =
  rs_payer :: "string option"
  rs_payee :: "string option"
  rs_reasons :: "line_reason list"

definition resolve_lines ::
    "tclk \<Rightarrow> proof_lib \<Rightarrow> (string \<Rightarrow> parsed_line option) \<Rightarrow> (parsed_line \<Rightarrow> string) \<Rightarrow> string option
      \<Rightarrow> transcript_record list \<Rightarrow> resolve_input \<Rightarrow> resolved" where
  "resolve_lines T L parse identity normalized records i =
     (case normalized of
        None \<Rightarrow> \<lparr>rs_payer = None, rs_payee = None, rs_reasons = [RailNotRegistered (ri_rail i)]\<rparr>
      | Some rail \<Rightarrow>
          (case dealRoom T (ri_contract i) of
             None \<Rightarrow> \<lparr>rs_payer = None, rs_payee = None, rs_reasons = [NotAContractId (ri_contract i)]\<rparr>
           | Some room \<Rightarrow>
               (let s = seen_all (line_verdict T L parse identity i rail room) records;
                    (payer, r1) = resolve_did s (ri_payerDid i) Payer;
                    (payee, r2) = resolve_did s (ri_payeeDid i) Payee
                in \<lparr>rs_payer = payer, rs_payee = payee, rs_reasons = seen_reasons s @ r1 @ r2\<rparr>)))"

definition resolvePubkeys :: "tclk \<Rightarrow> proof_lib \<Rightarrow> transcript_record list \<Rightarrow> resolve_input \<Rightarrow> resolved" where
  "resolvePubkeys T L records i =
     resolve_lines T L (parsePubkeyLine T) pl_subject (normalizeRailId T (ri_rail i)) records
       (i\<lparr>ri_railRegistry := None\<rparr>)"

text \<open>An account's identity includes the key of its proof under a required policy, after a
  newline, which no address contains.\<close>

definition nl :: char where
  "nl = CHR 0x0A"

definition account_identity :: "proof_policy \<Rightarrow> parsed_line \<Rightarrow> string" where
  "account_identity policy p =
     (case policy of
        LegacyUnproven \<Rightarrow> pl_subject p
      | Required _ \<Rightarrow>
          (case Option.bind (pl_proof p) ap_publicKey of
             None \<Rightarrow> pl_subject p
           | Some k \<Rightarrow> pl_subject p @ [nl] @ k))"

record resolved_accounts =
  ra_payer :: "string option"
  ra_payee :: "string option"
  ra_payerKey :: "string option"
  ra_payeeKey :: "string option"
  ra_reasons :: "line_reason list"

definition address_of :: "string option \<Rightarrow> string option" where
  "address_of x = map_option (\<lambda>s. hd (split_on nl s)) x"

definition key_of :: "string option \<Rightarrow> string option" where
  "key_of x = Option.bind x (\<lambda>s. case split_on nl s of _ # k # _ \<Rightarrow> Some k | _ \<Rightarrow> None)"

definition resolveAccounts :: "tclk \<Rightarrow> proof_lib \<Rightarrow> transcript_record list \<Rightarrow> resolve_input \<Rightarrow> resolved_accounts" where
  "resolveAccounts T L records i =
     (let r = resolve_lines T L (parseAccountLine T L (ri_railRegistry i)) (account_identity (ri_proof i))
                (normalizeRailIdWith T (ri_railRegistry i) (ri_rail i)) records i
      in \<lparr>ra_payer = address_of (rs_payer r), ra_payee = address_of (rs_payee r),
          ra_payerKey = key_of (rs_payer r), ra_payeeKey = key_of (rs_payee r), ra_reasons = rs_reasons r\<rparr>)"

section \<open>The Solana leg\<close>

definition SOL_PROOF_SCHEMES :: "string list" where
  "SOL_PROOF_SCHEMES = [''ed25519'']"

definition formatSolAccountLine ::
    "tclk \<Rightarrow> proof_lib \<Rightarrow> registry \<Rightarrow> string \<Rightarrow> string \<Rightarrow> account_proof option \<Rightarrow> (line_error, string) result" where
  "formatSolAccountLine T L R caip2 address proof =
     formatAccountLine T L (Some R)
       \<lparr>li_railId = SOL_RAIL_ID, li_caip2 = caip2, li_subject = address, li_proof = proof\<rparr>"

definition sol_policy :: "proof_policy option \<Rightarrow> proof_policy" where
  "sol_policy p =
     (case p of
        None \<Rightarrow> Required \<lparr>rp_verifiers = None, rp_allowedSchemes = Some SOL_PROOF_SCHEMES\<rparr>
      | Some (Required r) \<Rightarrow>
          (if rp_allowedSchemes r = None then Required (r\<lparr>rp_allowedSchemes := Some SOL_PROOF_SCHEMES\<rparr>)
           else Required r)
      | Some LegacyUnproven \<Rightarrow> LegacyUnproven)"

definition resolveSolAccounts ::
    "tclk \<Rightarrow> proof_lib \<Rightarrow> registry \<Rightarrow> proof_policy option \<Rightarrow> transcript_record list \<Rightarrow> resolve_input \<Rightarrow> resolved_accounts" where
  "resolveSolAccounts T L R policy records i =
     resolveAccounts T L records
       (i\<lparr>ri_rail := SOL_RAIL_ID, ri_railRegistry := Some R, ri_proof := sol_policy policy\<rparr>)"

section \<open>Tokens\<close>

definition no_space :: "string \<Rightarrow> bool" where
  "no_space cls \<longleftrightarrow> list_all (\<lambda>c. \<not> js_space c) cls"

lemma token_only: "only cls s \<Longrightarrow> no_space cls \<Longrightarrow> s \<noteq> [] \<Longrightarrow> token s"
  by (auto simp: token_def no_space_def only_def list_all_iff)

lemma token_notin: "token s \<Longrightarrow> CHR '' '' \<notin> set s"
  by (auto simp: token_def list_all_iff js_space_def)

lemma token_append: "token s \<Longrightarrow> token t \<Longrightarrow> token (s @ CHR '':'' # t)"
  by (auto simp: token_def js_space_def)

lemma no_space_classes:
  "no_space (''-'' @ alnum)" "no_space (''-.%'' @ alnum)" "no_space digits" "no_space lower_hex"
  "no_space rail_chars" "no_space base58_chars" "no_space (''-_.'' @ lower_alnum)" "no_space (''-'' @ lower_alnum)"
  "no_space (''+/=_.-'' @ alnum)" "no_space ('':+/=_.-'' @ alnum)" "no_space (lower_hex @ ''xABCDEF'')"
  by code_simp+

lemma line_tokens_join: "list_all token ts \<Longrightarrow> ts \<noteq> [] \<Longrightarrow> line_tokens (join_with (CHR '' '') ts) = Some ts"
  using split_join [of ts "CHR '' ''"] token_notin by (auto simp: line_tokens_def list_all_iff)

lemma join_with_append:
  "xs \<noteq> [] \<Longrightarrow> ys \<noteq> [] \<Longrightarrow> join_with d (xs @ ys) = join_with d xs @ d # join_with d ys"
  by (induction d xs rule: join_with.induct) (auto simp: neq_Nil_conv)

text \<open>The tail of a printed line reads back as the proof it was printed from.\<close>

lemma proof_suffix_reads:
  assumes "proof_suffix p = Inr suffix" "xs \<noteq> []"
  obtains rest where "join_with (CHR '' '') xs @ suffix = join_with (CHR '' '') (xs @ rest)"
    "list_all token rest" "trailing_proof rest = Some p"
proof (cases p)
  case None
  then show ?thesis using assms that [of "[]"] by (simp add: proof_suffix_def trailing_proof_def)
next
  case (Some x)
  then obtain field where f: "formatProofField x = Inr field" and s: "suffix = '' proof '' @ field"
    using assms(1) by (auto simp: proof_suffix_def split: sum.splits)
  note k = formatProofField_Inr [OF f]
  let ?head = "ap_scheme x @ '':'' @ ap_signature x"
  define rest where "rest = ''proof'' # ?head # (case ap_publicKey x of None \<Rightarrow> [] | Some key \<Rightarrow> [key])"
  have "join_with (CHR '' '') (tl rest) = field"
    using split_proof_field [OF f] join_split [of "CHR '' ''" field] by (simp add: rest_def)
  then have "join_with (CHR '' '') rest = ''proof '' @ field"
    by (cases "tl rest") (simp_all add: rest_def)
  then have j: "join_with (CHR '' '') xs @ suffix = join_with (CHR '' '') (xs @ rest)"
    using join_with_append [OF assms(2), of rest "CHR '' ''"] by (simp add: rest_def s)
  have "token (ap_scheme x)"
  proof -
    obtain c cs where "ap_scheme x = c # cs" "c \<in> set lower_alnum" "only (''-'' @ lower_alnum) cs"
      using k(1) by (cases "ap_scheme x") (auto simp: SCHEME_SHAPE_def)
    then show ?thesis using token_only [of "''-'' @ lower_alnum" "ap_scheme x"] no_space_classes by simp
  qed
  moreover have "token (ap_signature x)"
    by (rule token_only [OF _ no_space_classes(9)]) (use k(2) in \<open>auto simp: SIGNATURE_SHAPE_def run_of_def\<close>)
  moreover have "token key" if "ap_publicKey x = Some key" for key
    by (rule token_only [OF _ no_space_classes(10)]) (use k(3) [OF that] in \<open>auto simp: KEY_SHAPE_def run_of_def\<close>)
  moreover have "token ''proof''" by code_simp
  ultimately have t: "list_all token rest"
    using token_append [of "ap_scheme x" "ap_signature x"] by (auto simp: rest_def split: option.split)
  have "parseProofTokens ?head (ap_publicKey x) = Some x"
    using parseProofTokens_format [OF k(1,2), of "ap_publicKey x"] k(3) by simp
  then have "trailing_proof rest = Some p"
    by (cases "ap_publicKey x") (simp_all add: trailing_proof_def rest_def Some)
  with j t show ?thesis by (rule that)
qed

section \<open>Addresses\<close>

text \<open>Documented behaviour of viem's \<open>isAddress\<close>: an address is \<open>0x\<close> and 40 hex digits, and
  the spelling in lowercase of an address is an address.\<close>

definition viem_ok :: "proof_lib \<Rightarrow> bool" where
  "viem_ok L \<longleftrightarrow>
     (\<forall>a. isAddress L a \<longrightarrow> length a = 42 \<and> only (lower_hex @ ''xABCDEF'') a \<and> isAddress L (toLowerCase a))"

lemma lower_char_idem [simp]: "lower_char (lower_char c) = lower_char c"
  by (simp add: lower_char_def)

lemma toLowerCase_idem [simp]: "toLowerCase (toLowerCase a) = toLowerCase a"
  by (simp add: toLowerCase_def)

lemma segments_ok_only: "segments_ok b s \<Longrightarrow> only (''-_.'' @ lower_alnum) s"
  by (induction b s rule: segments_ok.induct) (auto split: if_splits)

definition good_part :: "string \<Rightarrow> bool" where
  "good_part s \<longleftrightarrow> token s \<and> CHR '':'' \<notin> set s"

definition plain_class :: "string \<Rightarrow> bool" where
  "plain_class cls \<longleftrightarrow> no_space cls \<and> CHR '':'' \<notin> set cls"

lemma plain_classes:
  "plain_class (''-'' @ alnum)" "plain_class (''-.%'' @ alnum)" "plain_class digits"
  "plain_class base58_chars" "plain_class (''-_.'' @ lower_alnum)" "plain_class (''-'' @ lower_alnum)"
  "plain_class (lower_hex @ ''xABCDEF'')"
  by code_simp+

lemma good_part_only: "only cls s \<Longrightarrow> s \<noteq> [] \<Longrightarrow> plain_class cls \<Longrightarrow> good_part s"
  using token_only only_notin by (auto simp: good_part_def plain_class_def)

lemma run_of_part: "run_of cls (Suc lo) hi s \<Longrightarrow> plain_class cls \<Longrightarrow> good_part s"
  by (rule good_part_only) (auto simp: run_of_def)

lemma CAIP2_REFERENCE_part: "CAIP2_REFERENCE s \<Longrightarrow> good_part s"
  using run_of_part [OF _ plain_classes(1), of 0 32 s] by (simp add: CAIP2_REFERENCE_def)

lemma CAIP10_ADDRESS_part: "CAIP10_ADDRESS s \<Longrightarrow> good_part s"
  using run_of_part [OF _ plain_classes(2), of 0 128 s] by (simp add: CAIP10_ADDRESS_def)

lemma NEAR_ACCOUNT_ID_part: "NEAR_ACCOUNT_ID s \<Longrightarrow> good_part s"
  by (rule good_part_only [OF _ _ plain_classes(5)])
    (auto simp del: append_Cons simp: NEAR_ACCOUNT_ID_def dest: segments_ok_only)

lemma canonical_decimal_part: "canonical_decimal s \<Longrightarrow> good_part s"
  by (rule good_part_only [OF canonical_decimal_only _ plain_classes(3)])
    (auto simp: canonical_decimal_def positive_decimal_def)

lemma solana_part: "solana_shape s \<Longrightarrow> good_part s"
  using run_of_part [OF _ plain_classes(4), of 31 44 s] by (simp add: solana_shape_def)

lemma address_part: "viem_ok L \<Longrightarrow> isAddress L a \<Longrightarrow> good_part a"
  by (rule good_part_only [OF _ _ plain_classes(7)]) (auto simp del: append_Cons simp: viem_ok_def)

text \<open>A validated address is in normal form and its parts are plain tokens.\<close>

lemma validateChainAddress_Some:
  assumes "viem_ok L" "validateChainAddress L ns reference a = Some a'"
  shows "good_part reference" "good_part a'" "validateChainAddress L ns reference a' = Some a'"
proof -
  have "good_part reference \<and> good_part a' \<and> validateChainAddress L ns reference a' = Some a'"
  proof (cases "ns = ''eip155''")
    case True
    then have k: "canonical_decimal reference" "isAddress L a" "a' = toLowerCase a"
      using assms(2) by (auto simp: validateChainAddress_def validateEip155Address_def split: if_split_asm)
    then have "isAddress L a'" using assms(1) by (simp add: viem_ok_def)
    then show ?thesis
      using k True canonical_decimal_part address_part [OF assms(1)]
      by (simp add: validateChainAddress_def validateEip155Address_def)
  next
    case False
    then show ?thesis
      using assms(2) CAIP2_REFERENCE_part CAIP10_ADDRESS_part NEAR_ACCOUNT_ID_part solana_part
      by (auto simp: validateChainAddress_def validateNearAccountId_def validateSolanaAddress_def
          validateGenericCaip10_def split: if_split_asm option.splits)
  qed
  then show "good_part reference" "good_part a'" "validateChainAddress L ns reference a' = Some a'" by auto
qed

lemma caip2_parts_Some: "caip2_parts c = Some (ns, r) \<Longrightarrow> c = ns @ CHR '':'' # r \<and> ns \<noteq> [] \<and> CHR '':'' \<notin> set ns"
proof -
  assume "caip2_parts c = Some (ns, r)"
  then have sp: "split_on (CHR '':'') c = [ns, r]" "ns \<noteq> []"
    by (auto simp: caip2_parts_def split: list.splits if_split_asm)
  then have "c = ns @ CHR '':'' # r" using join_split [of "CHR '':''" c] by simp
  moreover have "CHR '':'' \<notin> set ns" using split_on_parts [of ns "CHR '':''" c] sp by simp
  ultimately show ?thesis using sp by simp
qed

lemma namespaceForRail_part:
  assumes "registry_opt_ok T R" "namespaceForRail R rail = Some ns"
  shows "good_part ns"
proof (cases "RAIL_NAMESPACES rail")
  case (Some x)
  then have "ns \<in> {''eip155'', ''bip122'', ''near''}"
    using assms(2) by (auto simp: namespaceForRail_def RAIL_NAMESPACES_def split: if_split_asm)
  then show ?thesis by (auto simp: good_part_def token_def js_space_def)
next
  case None
  then obtain reg where "R = Some reg" "map_of reg rail = Some ns"
    using assms(2) by (auto simp: namespaceForRail_def reg_namespaceOf_def split: bind_splits)
  then have "NAMESPACE_SHAPE ns"
    using assms(1) by (auto simp: registry_opt_ok_def registry_ok_def list_all_iff dest: map_of_SomeD)
  then show ?thesis
    using run_of_part [OF _ plain_classes(6), of 2 8 ns] by (simp add: NAMESPACE_SHAPE_def)
qed

section \<open>The lines as wire formats\<close>

text \<open>What a reader recovers of an account line: the address in its normal form.\<close>

definition normal_address :: "proof_lib \<Rightarrow> line_input \<Rightarrow> string" where
  "normal_address L i =
     (case caip2_parts (li_caip2 i) of
        None \<Rightarrow> li_subject i
      | Some (ns, reference) \<Rightarrow>
          (case validateChainAddress L ns reference (li_subject i) of None \<Rightarrow> li_subject i | Some a \<Rightarrow> a))"

definition view_account :: "proof_lib \<Rightarrow> line_input \<Rightarrow> parsed_line" where
  "view_account L i =
     \<lparr>pl_railId = li_railId i, pl_caip2 = li_caip2 i, pl_subject = normal_address L i, pl_proof = li_proof i\<rparr>"

definition view_pubkey :: "line_input \<Rightarrow> parsed_line" where
  "view_pubkey i =
     \<lparr>pl_railId = li_railId i, pl_caip2 = li_caip2 i, pl_subject = li_subject i, pl_proof = li_proof i\<rparr>"

type_synonym line_env = "tclk \<times> proof_lib \<times> registry option"

definition line_env_ok :: "line_env \<Rightarrow> bool" where
  "line_env_ok c \<longleftrightarrow>
     (case c of (T, L, R) \<Rightarrow> tclk_rails_ok T \<and> registry_opt_ok T R \<and> viem_ok L)"

definition format_account :: "line_env \<Rightarrow> line_input \<Rightarrow> (line_error, string) result" where
  "format_account c i = (case c of (T, L, R) \<Rightarrow> formatAccountLine T L R i)"

definition parse_account :: "line_env \<Rightarrow> string \<Rightarrow> parsed_line option" where
  "parse_account c s = (case c of (T, L, R) \<Rightarrow> parseAccountLine T L R s)"

lemma rail_token: "only rail_chars r \<Longrightarrow> r \<noteq> [] \<Longrightarrow> token r"
  using token_only no_space_classes(5) by blast

lemma formatAccountLine_Inr:
  assumes "formatAccountLine T L R i = Inr line"
  obtains ns reference address suffix where "normalizeRailIdWith T R (li_railId i) = Some (li_railId i)"
    "namespaceForRail R (li_railId i) = Some ns" "caip2_parts (li_caip2 i) = Some (ns, reference)"
    "validateChainAddress L ns reference (li_subject i) = Some address" "proof_suffix (li_proof i) = Inr suffix"
    "line = join_with (CHR '' '') [''swap1'', ''account'', li_railId i, join_with (CHR '':'') [ns, reference, address]] @ suffix"
    "\<not> MAX_FRAME_CHARS T < length line"
  using assms unfolding formatAccountLine_def
  by (auto simp: result_simps capped_def simp del: join_with.simps split: option.splits if_split_asm prod.splits)

lemma split_three:
  "CHR '':'' \<notin> set a \<Longrightarrow> CHR '':'' \<notin> set b \<Longrightarrow> CHR '':'' \<notin> set c \<Longrightarrow>
     split_on (CHR '':'') (join_with (CHR '':'') [a, b, c]) = [a, b, c]"
  using split_join [of "[a, b, c]" "CHR '':''"] by simp

lemma parse_formatAccountLine:
  assumes ok: "tclk_rails_ok T" "registry_opt_ok T R" "viem_ok L" and f: "formatAccountLine T L R i = Inr line"
  shows "parseAccountLine T L R line = Some (view_account L i)"
proof -
  obtain ns reference address suffix where n: "normalizeRailIdWith T R (li_railId i) = Some (li_railId i)"
    and m: "namespaceForRail R (li_railId i) = Some ns" and c: "caip2_parts (li_caip2 i) = Some (ns, reference)"
    and v: "validateChainAddress L ns reference (li_subject i) = Some address" and p: "proof_suffix (li_proof i) = Inr suffix"
    and l: "line = join_with (CHR '' '') [''swap1'', ''account'', li_railId i, join_with (CHR '':'') [ns, reference, address]] @ suffix"
    and cap: "\<not> MAX_FRAME_CHARS T < length line"
    using f by (rule formatAccountLine_Inr)
  let ?caip = "join_with (CHR '':'') [ns, reference, address]"
  obtain rest where j: "line = join_with (CHR '' '') ([''swap1'', ''account'', li_railId i, ?caip] @ rest)"
    and t: "list_all token rest" and tp: "trailing_proof rest = Some (li_proof i)"
    using proof_suffix_reads [OF p, of "[''swap1'', ''account'', li_railId i, ?caip]"] l by auto
  note parts = namespaceForRail_part [OF ok(2) m] validateChainAddress_Some [OF ok(3) v]
  have "token ?caip" using parts by (simp add: good_part_def token_append)
  moreover have "token (li_railId i)" using normalizeRailIdWith_laws [OF ok(1,2) n] rail_token by blast
  moreover have "token ''swap1''" "token ''account''" by code_simp+
  ultimately have lt: "line_tokens line = Some ([''swap1'', ''account'', li_railId i, ?caip] @ rest)"
    unfolding j using t by (intro line_tokens_join) simp_all
  have "parse_account_body T L R (li_railId i) ?caip (li_proof i) = Some (view_account L i)"
    using n m parts split_three [of ns reference address] c v caip2_parts_Some [OF c]
    by (simp add: parse_account_body_def view_account_def normal_address_def good_part_def)
  then show ?thesis using lt tp cap by (simp add: parseAccountLine_def)
qed

lemma formatPubkeyLine_Inr:
  assumes "formatPubkeyLine T i = Inr line"
  obtains reference suffix where "normalizeRailId T (li_railId i) = Some (li_railId i)"
    "PUBKEY_RAIL_NAMESPACES (li_railId i) = Some ''bip122''" "caip2_parts (li_caip2 i) = Some (''bip122'', reference)"
    "BIP122_REFERENCE reference" "PUBKEY_SHAPE (li_subject i)" "proof_suffix (li_proof i) = Inr suffix"
    "line = join_with (CHR '' '') [''swap1'', ''pubkey'', li_railId i, join_with (CHR '':'') [''bip122'', reference], li_subject i] @ suffix"
    "\<not> MAX_FRAME_CHARS T < length line"
  using assms unfolding formatPubkeyLine_def
  by (auto simp: result_simps capped_def validatePubkeyForNamespace_def PUBKEY_RAIL_NAMESPACES_def
      simp del: join_with.simps split: option.splits if_split_asm prod.splits)

lemma parse_formatPubkeyLine:
  assumes ok: "tclk_rails_ok T" and f: "formatPubkeyLine T i = Inr line"
  shows "parsePubkeyLine T line = Some (view_pubkey i)"
proof -
  obtain reference suffix where n: "normalizeRailId T (li_railId i) = Some (li_railId i)"
    and m: "PUBKEY_RAIL_NAMESPACES (li_railId i) = Some ''bip122''" and c: "caip2_parts (li_caip2 i) = Some (''bip122'', reference)"
    and r: "BIP122_REFERENCE reference" and k: "PUBKEY_SHAPE (li_subject i)" and p: "proof_suffix (li_proof i) = Inr suffix"
    and l: "line = join_with (CHR '' '') [''swap1'', ''pubkey'', li_railId i, join_with (CHR '':'') [''bip122'', reference], li_subject i] @ suffix"
    and cap: "\<not> MAX_FRAME_CHARS T < length line"
    using f by (rule formatPubkeyLine_Inr)
  let ?caip = "join_with (CHR '':'') [''bip122'', reference]"
  obtain rest where j: "line = join_with (CHR '' '') ([''swap1'', ''pubkey'', li_railId i, ?caip, li_subject i] @ rest)"
    and t: "list_all token rest" and tp: "trailing_proof rest = Some (li_proof i)"
    using proof_suffix_reads [OF p, of "[''swap1'', ''pubkey'', li_railId i, ?caip, li_subject i]"] l by auto
  have "token reference"
    by (rule token_only [OF _ no_space_classes(4)]) (use r in \<open>auto simp: BIP122_REFERENCE_def run_of_def\<close>)
  moreover have "token ''bip122''" by code_simp
  ultimately have "token ?caip" using token_append [of "''bip122''" reference] by simp
  moreover have "token (li_subject i)"
    by (rule token_only [OF _ no_space_classes(4)])
      (use k in \<open>auto simp: PUBKEY_SHAPE_def run_of_def lower_hex_def split: list.splits\<close>)
  moreover have "token (li_railId i)" using tclk_rails_okD [OF ok n] rail_token by blast
  moreover have "token ''swap1''" "token ''pubkey''" by code_simp+
  ultimately have lt: "line_tokens line = Some ([''swap1'', ''pubkey'', li_railId i, ?caip, li_subject i] @ rest)"
    unfolding j using t by (intro line_tokens_join) simp_all
  have cc: "li_caip2 i = ?caip" using caip2_parts_Some [OF c] by simp
  have "parse_pubkey_body T (li_railId i) ?caip (li_subject i) (li_proof i) = Some (view_pubkey i)"
    using n m c r k
    by (simp add: parse_pubkey_body_def view_pubkey_def validatePubkeyForNamespace_def cc [symmetric] del: join_with.simps)
  then show ?thesis using lt tp cap by (simp add: parsePubkeyLine_def)
qed

interpretation account_wire: wire_format line_env_ok format_account parse_account
  "\<lambda>c. view_account (fst (snd c))"
  by unfold_locales
    (auto simp: line_env_ok_def format_account_def parse_account_def split: prod.splits intro: parse_formatAccountLine)

interpretation pubkey_wire: wire_format tclk_rails_ok formatPubkeyLine parsePubkeyLine "\<lambda>_. view_pubkey"
  by unfold_locales (rule parse_formatPubkeyLine)

end
