(* ===== verification/Account_Properties.thy ===== *)
theory Account_Properties
  imports Account_Line
begin

text \<open>
  The properties of the account and pubkey lines: a posted line reads back as what was posted, a
  resolved account was claimed and proven by its own party in the right room before the lock, and
  nothing about the resolution depends on the order in which the venue lists the records.
\<close>

section \<open>What the folds collect\<close>

lemma seen_all_set:
  "set (seen (seen_all v rs) did) = {x. \<exists>r \<in> set rs. tr_sender r = did \<and> v r = Count x}
   \<and> distinct (seen (seen_all v rs) did)"
proof (induction rs rule: rev_induct)
  case Nil
  show ?case by (simp add: seen_all_def)
next
  case (snoc r rs)
  have "seen_all v (rs @ [r]) = seen_step v (seen_all v rs) r" by (simp add: seen_all_def)
  with snoc show ?case by (cases "v r") (auto simp: seen_step_def)
qed

lemma resolve_did_Some:
  assumes "distinct (seen s did)"
  shows "fst (resolve_did s did role') = Some x \<longleftrightarrow> set (seen s did) = {x}"
proof -
  consider "seen s did = []" | y where "seen s did = [y]" | y z zs where "seen s did = y # z # zs"
    by (metis list.exhaust)
  then show ?thesis using assms by cases (auto simp: resolve_did_def)
qed

text \<open>The identity a party resolves to is the only one its counted lines claim.\<close>

definition claims :: "(transcript_record \<Rightarrow> verdict_line) \<Rightarrow> transcript_record list \<Rightarrow> string \<Rightarrow> string set" where
  "claims v rs did = {x. \<exists>r \<in> set rs. tr_sender r = did \<and> v r = Count x}"

lemma resolve_claims: "fst (resolve_did (seen_all v rs) did role') = Some x \<longleftrightarrow> claims v rs did = {x}"
  using resolve_did_Some [of "seen_all v rs" did role' x] seen_all_set [of v rs did] by (simp add: claims_def)

lemma resolve_lines_Some:
  "rs_payer (resolve_lines T L parse identity n rs i) = Some x \<longleftrightarrow>
     (\<exists>rail room. n = Some rail \<and> dealRoom T (ri_contract i) = Some room
        \<and> claims (line_verdict T L parse identity i rail room) rs (ri_payerDid i) = {x})"
  "rs_payee (resolve_lines T L parse identity n rs i) = Some x \<longleftrightarrow>
     (\<exists>rail room. n = Some rail \<and> dealRoom T (ri_contract i) = Some room
        \<and> claims (line_verdict T L parse identity i rail room) rs (ri_payeeDid i) = {x})"
  by (auto simp: resolve_lines_def Let_def case_prod_beta resolve_claims split: option.split)

text \<open>What a line that counts under a required policy is.\<close>

definition counted ::
    "tclk \<Rightarrow> proof_lib \<Rightarrow> (string \<Rightarrow> parsed_line option) \<Rightarrow> resolve_input \<Rightarrow> required_policy
      \<Rightarrow> string \<Rightarrow> string \<Rightarrow> transcript_record \<Rightarrow> parsed_line \<Rightarrow> bool" where
  "counted T L parse i policy rail room r p \<longleftrightarrow>
     (\<forall>n. ri_beforeSeq i = Some n \<longrightarrow> tr_seq r < n) \<and> verifyTranscriptRecord T r \<and> tr_room r = room
     \<and> parse (tr_line r) = Some p \<and> pl_railId p = rail \<and> pl_caip2 p = ri_caip2 i
     \<and> proves T L (ri_railRegistry i) policy (check_args i rail (tr_sender r) p)"

lemma line_verdict_Count:
  assumes "ri_proof i = Required policy"
  shows "line_verdict T L parse identity i rail room r = Count x \<Longrightarrow>
    \<exists>p. counted T L parse i policy rail room r p \<and> x = identity p"
  using assms
  by (auto simp: line_verdict_def counted_def checkLineProof_None not_le split: option.splits if_split_asm)

lemma line_verdict_counted:
  assumes "ri_proof i = Required policy" "tr_sender r = ri_payeeDid i \<or> tr_sender r = ri_payerDid i"
    and c: "counted T L parse i policy rail room r p"
  shows "line_verdict T L parse identity i rail room r = Count (identity p)"
proof -
  have p: "checkLineProof T L (ri_railRegistry i) policy (check_args i rail (tr_sender r) p) = None"
    using c by (simp add: counted_def checkLineProof_None)
  show ?thesis
    using c assms(1,2)
    by (auto simp: counted_def line_verdict_def p split: option.splits)
qed

lemma parse_account_no_nl:
  assumes "viem_ok L" "parseAccountLine T L R line = Some p"
  shows "nl \<notin> set (pl_subject p)"
proof -
  obtain ns reference a where v: "validateChainAddress L ns reference a = Some (pl_subject p)"
    using assms(2)
    by (auto simp: parseAccountLine_def parse_account_body_def split: option.splits list.splits if_split_asm)
  have "good_part (pl_subject p)" by (rule validateChainAddress_Some(2) [OF assms(1) v])
  then show ?thesis by (auto simp: good_part_def token_def list_all_iff js_space_def nl_def)
qed

lemma address_of_identity:
  "nl \<notin> set (pl_subject p) \<Longrightarrow> address_of (Some (account_identity policy p)) = Some (pl_subject p)"
  by (auto simp: address_of_def account_identity_def text_simps split: proof_policy.split option.split bind_split)

section \<open>Properties of the lines\<close>

text \<open>An account line reads back as what was posted: the parser recovers the rail, the chain,
  the address in its normal form and the proof, so two lines with the same text claim the same.\<close>

theorem account_line_roundtrip:
  assumes "tclk_rails_ok T" "registry_opt_ok T R" "viem_ok L" "formatAccountLine T L R i = Inr line"
  shows "parseAccountLine T L R line
    = Some \<lparr>pl_railId = li_railId i, pl_caip2 = li_caip2 i, pl_subject = normal_address L i, pl_proof = li_proof i\<rparr>"
  using account_wire.parse_format [of "(T, L, R)" i line] assms
  by (simp add: line_env_ok_def format_account_def parse_account_def view_account_def)

definition demo_line_input :: line_input where
  "demo_line_input =
     \<lparr>li_railId = ''evm-htlc'', li_caip2 = ''eip155:31337'', li_subject = ''0x'' @ replicate 40 (CHR ''a''),
      li_proof = Some demo_proof\<rparr>"

lemma demo_viem_ok: "viem_ok demo_proof_lib"
proof -
  have low: "map lower_char s = s" if "only lower_hex s" for s
    using that by (induction s) (auto simp: lower_hex_def lower_char_def)
  have "length a = 42 \<and> only (lower_hex @ ''xABCDEF'') a \<and> toLowerCase a = a"
    if "length a = 42" "take 2 a = ''0x''" "only lower_hex (drop 2 a)" for a
  proof -
    have a: "a = ''0x'' @ drop 2 a" using that by (metis append_take_drop_id)
    have "toLowerCase (''0x'' @ drop 2 a) = ''0x'' @ drop 2 a"
      using low [OF that(3)] by (simp add: toLowerCase_def lower_char_def)
    moreover have "only (lower_hex @ ''xABCDEF'') (''0x'' @ drop 2 a)"
      using only_mono [OF that(3), of "lower_hex @ ''xABCDEF''"] by (simp add: lower_hex_def)
    ultimately show ?thesis using a that(1) by metis
  qed
  then show ?thesis by (auto simp: viem_ok_def demo_proof_lib_def)
qed

theorem account_line_roundtrip_witness:
  "\<exists>line. formatAccountLine demo_tclk demo_proof_lib None demo_line_input = Inr line
     \<and> parseAccountLine demo_tclk demo_proof_lib None line \<noteq> None"
proof -
  have "case formatAccountLine demo_tclk demo_proof_lib None demo_line_input of Inl _ \<Rightarrow> False | Inr _ \<Rightarrow> True"
    by code_simp
  then obtain line where l: "formatAccountLine demo_tclk demo_proof_lib None demo_line_input = Inr line"
    by (auto split: sum.splits)
  have "registry_opt_ok demo_tclk None" by (simp add: registry_opt_ok_def)
  from account_line_roundtrip [OF demo_rails_ok this demo_viem_ok l] l show ?thesis by simp
qed

text \<open>A pubkey line reads back as what was posted.\<close>

theorem pubkey_line_roundtrip:
  assumes "tclk_rails_ok T" "formatPubkeyLine T i = Inr line"
  shows "parsePubkeyLine T line
    = Some \<lparr>pl_railId = li_railId i, pl_caip2 = li_caip2 i, pl_subject = li_subject i, pl_proof = li_proof i\<rparr>"
  using pubkey_wire.parse_format [OF assms] by (simp add: view_pubkey_def)

definition btc_tclk :: tclk where
  "btc_tclk = demo_tclk\<lparr>normalizeRailId := (\<lambda>r. if r = ''btc-htlc'' then Some r else None)\<rparr>"

theorem pubkey_line_roundtrip_witness:
  "\<exists>i line. formatPubkeyLine btc_tclk i = Inr line \<and> parsePubkeyLine btc_tclk line \<noteq> None"
proof -
  let ?i = "\<lparr>li_railId = ''btc-htlc'', li_caip2 = ''bip122:'' @ replicate 32 (CHR ''a''),
    li_subject = ''02'' @ replicate 64 (CHR ''b''), li_proof = None\<rparr>"
  have "case formatPubkeyLine btc_tclk ?i of Inl _ \<Rightarrow> False | Inr _ \<Rightarrow> True" by code_simp
  then obtain line where l: "formatPubkeyLine btc_tclk ?i = Inr line" by (auto split: sum.splits)
  have "tclk_rails_ok btc_tclk" by (auto simp: tclk_rails_ok_def btc_tclk_def demo_tclk_def rail_chars_def)
  from pubkey_line_roundtrip [OF this l] l show ?thesis by auto
qed

text \<open>C20. A resolved payee address was claimed by the payee itself: a verified record of that sender
  in the leg's own deal room, before the cut, with a line for this rail and chain naming exactly
  this address, whose proof verifies over the message binding that DID, contract, rail and
  account. Every other line of the payee that counts names the same address.\<close>

theorem resolved_account_sound:
  assumes "viem_ok L" "ri_proof i = Required policy"
    and "ra_payee (resolveAccounts T L records i) = Some addr"
  shows "\<exists>rail room r p. normalizeRailIdWith T (ri_railRegistry i) (ri_rail i) = Some rail
    \<and> dealRoom T (ri_contract i) = Some room \<and> r \<in> set records \<and> tr_sender r = ri_payeeDid i
    \<and> counted T L (parseAccountLine T L (ri_railRegistry i)) i policy rail room r p \<and> pl_subject p = addr
    \<and> (\<forall>r' p'. r' \<in> set records \<longrightarrow> tr_sender r' = ri_payeeDid i \<longrightarrow>
         counted T L (parseAccountLine T L (ri_railRegistry i)) i policy rail room r' p' \<longrightarrow> pl_subject p' = addr)"
proof -
  let ?parse = "parseAccountLine T L (ri_railRegistry i)" and ?id = "account_identity (ri_proof i)"
  obtain x where x: "rs_payee (resolve_lines T L ?parse ?id
      (normalizeRailIdWith T (ri_railRegistry i) (ri_rail i)) records i) = Some x"
    and a: "address_of (Some x) = Some addr"
    using assms(3) by (auto simp: resolveAccounts_def Let_def address_of_def)
  then obtain rail room where rr: "normalizeRailIdWith T (ri_railRegistry i) (ri_rail i) = Some rail"
      "dealRoom T (ri_contract i) = Some room"
    and c: "claims (line_verdict T L ?parse ?id i rail room) records (ri_payeeDid i) = {x}"
    by (auto simp: resolve_lines_Some)
  have ident: "address_of (Some (?id p)) = Some (pl_subject p)"
    if "counted T L ?parse i policy rail room r p" for r p
    using that address_of_identity parse_account_no_nl [OF assms(1)] by (auto simp: counted_def)
  obtain r where r: "r \<in> set records" "tr_sender r = ri_payeeDid i"
    "line_verdict T L ?parse ?id i rail room r = Count x"
    using c by (auto simp: claims_def)
  obtain p where p: "counted T L ?parse i policy rail room r p" "x = ?id p"
    using line_verdict_Count [OF assms(2) r(3)] by blast
  have "pl_subject p' = addr" if "r' \<in> set records" "tr_sender r' = ri_payeeDid i"
    "counted T L ?parse i policy rail room r' p'" for r' p'
  proof -
    have "line_verdict T L ?parse ?id i rail room r' = Count (?id p')"
      using line_verdict_counted [OF assms(2) disjI1] that by blast
    then have "?id p' = x" using c that by (auto simp: claims_def)
    then show ?thesis using ident [OF that(3)] a by simp
  qed
  then show ?thesis using rr r p ident [OF p(1)] a by (intro exI conjI) auto
qed

definition demo_resolve :: resolve_input where
  "demo_resolve =
     \<lparr>ri_contract = id32 (CHR ''c''), ri_payerDid = demo_buyer, ri_payeeDid = demo_seller, ri_rail = ''evm-htlc'',
      ri_caip2 = ''eip155:31337'', ri_beforeSeq = Some 10,
      ri_proof = Required \<lparr>rp_verifiers = None, rp_allowedSchemes = None\<rparr>, ri_railRegistry = None\<rparr>"

definition demo_account_line :: string where
  "demo_account_line =
     (case formatAccountLine demo_tclk demo_proof_lib None demo_line_input of Inr l \<Rightarrow> l | Inl _ \<Rightarrow> [])"

definition demo_account_records :: "transcript_record list" where
  "demo_account_records =
     [demo_record (''mb-p-tclk-'' @ replicate 16 (CHR ''c'')) 3 demo_seller demo_account_line,
      demo_record (''mb-p-tclk-'' @ replicate 16 (CHR ''c'')) 11 demo_seller ''late'']"

theorem resolved_account_sound_witness:
  "\<exists>r \<in> set demo_account_records. tr_sender r = demo_seller
     \<and> ra_payee (resolveAccounts demo_tclk demo_proof_lib demo_account_records demo_resolve)
         = Some (''0x'' @ replicate 40 (CHR ''a''))"
proof -
  have a: "ra_payee (resolveAccounts demo_tclk demo_proof_lib demo_account_records demo_resolve)
      = Some (''0x'' @ replicate 40 (CHR ''a''))" by code_simp
  have p: "ri_proof demo_resolve = Required \<lparr>rp_verifiers = None, rp_allowedSchemes = None\<rparr>"
    and d: "ri_payeeDid demo_resolve = demo_seller"
    by (simp_all add: demo_resolve_def)
  from resolved_account_sound [OF demo_viem_ok p a] a show ?thesis unfolding d by blast
qed

text \<open>The resolution does not depend on the venue: two listings with the same records, in any
  order and with any repetition, resolve to the same accounts and keys.\<close>

theorem resolution_order_independent:
  assumes "set records = set records'"
  shows "ra_payer (resolveAccounts T L records i) = ra_payer (resolveAccounts T L records' i)
    \<and> ra_payee (resolveAccounts T L records i) = ra_payee (resolveAccounts T L records' i)
    \<and> ra_payerKey (resolveAccounts T L records i) = ra_payerKey (resolveAccounts T L records' i)
    \<and> ra_payeeKey (resolveAccounts T L records i) = ra_payeeKey (resolveAccounts T L records' i)
    \<and> rs_payer (resolvePubkeys T L records i) = rs_payer (resolvePubkeys T L records' i)
    \<and> rs_payee (resolvePubkeys T L records i) = rs_payee (resolvePubkeys T L records' i)"
proof -
  have c: "claims v records did = claims v records' did" for v did
    using assms by (simp add: claims_def)
  have eq: "a = b" if "\<And>x. a = Some x \<longleftrightarrow> b = Some x" for a b :: "string option"
    using that by (metis option.exhaust)
  have "rs_payer (resolve_lines T L parse identity n records j) = rs_payer (resolve_lines T L parse identity n records' j)"
    "rs_payee (resolve_lines T L parse identity n records j) = rs_payee (resolve_lines T L parse identity n records' j)"
    for parse identity n j
    by (rule eq, simp add: resolve_lines_Some c)+
  then show ?thesis by (simp add: resolveAccounts_def resolvePubkeys_def Let_def)
qed

theorem resolution_order_independent_witness:
  "ra_payee (resolveAccounts demo_tclk demo_proof_lib (rev demo_account_records) demo_resolve)
     = ra_payee (resolveAccounts demo_tclk demo_proof_lib demo_account_records demo_resolve)"
  using resolution_order_independent [of "rev demo_account_records" demo_account_records] by simp

text \<open>Nothing posted at or after the accepted lock can change who is paid: appending such
  records to a listing gives the same resolution, reasons included.\<close>

theorem late_lines_change_nothing:
  assumes "ri_beforeSeq i = Some n" "\<forall>r \<in> set late. n \<le> tr_seq r"
  shows "resolveAccounts T L (records @ late) i = resolveAccounts T L records i
    \<and> resolvePubkeys T L (records @ late) i = resolvePubkeys T L records i"
proof -
  have "seen_all (line_verdict T L parse identity j rail room) (records @ late)
      = seen_all (line_verdict T L parse identity j rail room) records"
    if "ri_beforeSeq j = Some n" for parse identity rail room j
    using assms(2)
    by (induction late rule: rev_induct)
      (simp_all add: seen_all_def seen_step_def line_verdict_def that flip: append_assoc)
  then have "resolve_lines T L parse identity rail (records @ late) j = resolve_lines T L parse identity rail records j"
    if "ri_beforeSeq j = Some n" for parse identity rail j
    using that by (simp add: resolve_lines_def split: option.split)
  then show ?thesis
    using assms(1) by (simp add: resolveAccounts_def resolvePubkeys_def)
qed

theorem late_lines_change_nothing_witness:
  "resolveAccounts demo_tclk demo_proof_lib (take 1 demo_account_records @ drop 1 demo_account_records) demo_resolve
     = resolveAccounts demo_tclk demo_proof_lib (take 1 demo_account_records) demo_resolve"
proof -
  have b: "ri_beforeSeq demo_resolve = Some 10" by (simp add: demo_resolve_def)
  have l: "\<forall>r \<in> set (drop 1 demo_account_records). 10 \<le> tr_seq r"
    by (simp add: demo_account_records_def demo_record_def)
  show ?thesis using late_lines_change_nothing [OF b l] by blast
qed

end
