(* ===== verification/Profile_Properties.thy ===== *)
theory Profile_Properties
  imports Profile Desk_Demo
begin

text \<open>
  Properties of the offer profile and of rail registries: the two context grammars round trip in
  both directions, a swap id names one buyer and nonce, no offer is both legs, and a registry
  admits what it was configured with and changes nothing else.
\<close>

section \<open>Contexts\<close>

text \<open>A context the desk prints reads back as what was said: the wanted asset and amount, the
  wanted rail in its normal form and the fee for leg A, the leg A offer id for leg B.\<close>

theorem swap_context_roundtrip:
  assumes "tclk_rails_ok T"
  shows "(\<forall>w s. legAContext T w = Inr s \<longrightarrow>
            (\<exists>rail fee. normalizeRailId T (w_rail w) = Some rail \<and> jsnum_int (fee_of_want w) = Some fee
               \<and> parseSwapContext T (Str s)
                   = Some (CtxA \<lparr>wantAsset = w_asset w, wantAmount = w_amount w, wantRail = rail, feeBps = fee\<rparr>)))
    \<and> (\<forall>i s. legBContext i = Inr s \<longrightarrow> parseSwapContext T (Str s) = Some (CtxB \<lparr>legAOfferId = i\<rparr>))"
proof (intro conjI allI impI)
  fix w s
  assume l: "legAContext T w = Inr s"
  have p: "parseSwapContext T (Str s) = Some (view_leg_a T w)"
    using leg_a_wire.parse_format [OF assms l] by (simp add: parse_context_text_def)
  obtain rail fee where n: "normalizeRailId T (w_rail w) = Some rail" "jsnum_int (fee_of_want w) = Some fee"
    using l by (rule legAContext_Inr)
  show "\<exists>rail fee. normalizeRailId T (w_rail w) = Some rail \<and> jsnum_int (fee_of_want w) = Some fee
      \<and> parseSwapContext T (Str s)
          = Some (CtxA \<lparr>wantAsset = w_asset w, wantAmount = w_amount w, wantRail = rail, feeBps = fee\<rparr>)"
    using p n by (intro exI [of _ rail] exI [of _ fee]) (simp add: view_leg_a_def)
next
  fix i s
  assume "legBContext i = Inr s"
  then show "parseSwapContext T (Str s) = Some (CtxB \<lparr>legAOfferId = i\<rparr>)"
    using leg_b_wire.parse_format [OF TrueI] by (simp add: parse_context_text_def)
qed

definition demo_want :: leg_a_want where
  "demo_want = \<lparr>w_asset = ''FLOP'', w_amount = ''100'', w_rail = ''flop-htlc'', w_feeBps = None\<rparr>"

theorem swap_context_roundtrip_witness:
  "\<exists>s. legAContext demo_tclk demo_want = Inr s \<and> parseSwapContext demo_tclk (Str s) \<noteq> None"
proof -
  have "case legAContext demo_tclk demo_want of Inl _ \<Rightarrow> False | Inr _ \<Rightarrow> True" by code_simp
  then obtain s where "legAContext demo_tclk demo_want = Inr s" by (auto split: sum.splits)
  with swap_context_roundtrip [OF demo_rails_ok] show ?thesis by blast
qed

lemma parse_leg_a_Some:
  assumes "parse_leg_a T asset amount rail fee = Some a"
  shows "ASSET asset" "AMOUNT amount" "normalizeRailId T rail = Some rail" "wantAsset a = asset"
    "wantAmount a = amount" "wantRail a = rail"
    "case fee of None \<Rightarrow> feeBps a = 0 | Some f \<Rightarrow> FEE_BPS_PATTERN f \<and> feeBps a = int (read_nat f)"
  using assms by (auto simp: parse_leg_a_def split: if_splits option.splits)

definition want_of :: "leg_a_context \<Rightarrow> leg_a_want" where
  "want_of a = \<lparr>w_asset = wantAsset a, w_amount = wantAmount a, w_rail = wantRail a,
                w_feeBps = Some (int_jsnum (feeBps a))\<rparr>"

lemma read_nat_bound: "only digits s \<Longrightarrow> read_nat s < 10 ^ length s"
proof (induction s rule: rev_induct)
  case Nil
  show ?case by (simp add: read_nat_def)
next
  case (snoc c s)
  then have "read_nat s < 10 ^ length s" "char_digit c < 10" by simp_all
  then show ?case by simp
qed

lemma fee_read:
  assumes "FEE_BPS_PATTERN f"
  shows "int (read_nat f) \<le> FEE_BPS_MAX" "show_nat (read_nat f) = f"
proof -
  show "show_nat (read_nat f) = f" by (rule show_nat_read [OF fee_pattern_canonical [OF assms]])
  have small: "read_nat f < 10000" if "only digits f" "length f \<le> 4"
  proof -
    have "(10::nat) ^ length f \<le> 10 ^ 4" by (rule power_increasing [OF that(2)]) simp
    then show ?thesis using read_nat_bound [OF that(1)] by simp
  qed
  show "int (read_nat f) \<le> FEE_BPS_MAX"
    using assms small positive_decimal_only [of f]
    by (auto simp: FEE_BPS_PATTERN_def FEE_BPS_MAX_def read_nat_def char_digit_def)
qed

lemma legAContext_want_of:
  assumes "ASSET (wantAsset a)" "AMOUNT (wantAmount a)" "normalizeRailId T (wantRail a) = Some (wantRail a)"
    and "feeBps a = int n" "int n \<le> FEE_BPS_MAX"
  shows "legAContext T (want_of a)
    = Inr (join_with (CHR ''|'') [''a'', wantAsset a, wantAmount a, wantRail a, show_nat n])"
  using assms by (simp add: legAContext_def want_of_def fee_of_want_def)

lemma parse_context_parts_cases:
  assumes "parse_context_parts T parts = Some c"
  obtains (b) i where "parts = [''b'', i]" "hex32 i" "c = CtxB \<lparr>legAOfferId = i\<rparr>"
  | (a4) asset amount rail a where "parts = [''a'', asset, amount, rail]"
      "parse_leg_a T asset amount rail None = Some a" "c = CtxA a"
  | (a5) asset amount rail fee a where "parts = [''a'', asset, amount, rail, fee]"
      "parse_leg_a T asset amount rail (Some fee) = Some a" "c = CtxA a"
  using assms unfolding parse_context_parts_def
  by (auto split: list.splits if_split_asm)

text \<open>C40. Contexts are canonical: every context the reader accepts is the desk's own printing of
  what was read, except that a leg A context may leave a zero fee out. No second spelling of a
  field, an amount or a fee is accepted.\<close>

theorem parsed_context_canonical:
  assumes "parseSwapContext T v = Some c"
  shows "\<exists>s. v = Str s \<and>
    (case c of
       CtxA a \<Rightarrow> legAContext T (want_of a) = Inr s
         \<or> feeBps a = 0 \<and> legAContext T (want_of a) = Inr (s @ ''|0'')
     | CtxB b \<Rightarrow> legBContext (legAOfferId b) = Inr s)"
proof -
  obtain s where v: "v = Str s" and p: "parse_context_parts T (split_on (CHR ''|'') s) = Some c"
    using assms by (auto simp: parseSwapContext_def split: jsval.splits)
  have j: "s = join_with (CHR ''|'') (split_on (CHR ''|'') s)" by simp
  from p show ?thesis
  proof (cases rule: parse_context_parts_cases)
    case (b i)
    then show ?thesis using v j by (intro exI [of _ s]) (simp add: legBContext_def)
  next
    case (a4 asset amount rail a)
    note k = parse_leg_a_Some [OF a4(2)]
    have "legAContext T (want_of a) = Inr (s @ ''|0'')"
      using legAContext_want_of [of a T 0] k j a4(1)
      by (simp add: FEE_BPS_MAX_def show_nat.simps [of 0] digit_char_def digits_def)
    then show ?thesis using v a4(3) k by simp
  next
    case (a5 asset amount rail fee a)
    note k = parse_leg_a_Some [OF a5(2)]
    have f: "FEE_BPS_PATTERN fee" "feeBps a = int (read_nat fee)" using k(7) by simp_all
    have "legAContext T (want_of a) = Inr s"
      using legAContext_want_of [of a T "read_nat fee"] fee_read [OF f(1)] f(2) k j a5(1) by simp
    then show ?thesis using v a5(3) by simp
  qed
qed

theorem parsed_context_canonical_witness:
  "\<exists>c. parseSwapContext demo_tclk (Str ''a|FLOP|100|flop-htlc'') = Some (CtxA c)
     \<and> (legAContext demo_tclk (want_of c) = Inr ''a|FLOP|100|flop-htlc''
        \<or> legAContext demo_tclk (want_of c) = Inr (''a|FLOP|100|flop-htlc'' @ ''|0''))"
proof -
  let ?c = "\<lparr>wantAsset = ''FLOP'', wantAmount = ''100'', wantRail = ''flop-htlc'', feeBps = 0\<rparr>"
  have "parseSwapContext demo_tclk (Str ''a|FLOP|100|flop-htlc'') = Some (CtxA ?c)" by code_simp
  from this parsed_context_canonical [OF this] show ?thesis
    by (intro exI [of _ ?c]) (simp only: jsval.inject swap_context.case, blast)
qed

section \<open>Swap ids\<close>

text \<open>A swap id names one buyer and one nonce: where the hash does not collide on the two
  preimages, equal ids come from the same buyer DID and the same nonce. No separator can move
  between the fields of the preimage.\<close>

theorem swap_id_binds:
  assumes "swapId T b n = Inr i" "swapId T b' n' = Inr i"
    and "sha256_text T (swap_id_preimage b n) = sha256_text T (swap_id_preimage b' n')
      \<Longrightarrow> swap_id_preimage b n = swap_id_preimage b' n'"
  shows "b = b' \<and> n = n'"
proof -
  have k: "DID b" "NONCE n" "i = ''0x'' @ sha256_text T (swap_id_preimage b n)"
    "DID b'" "NONCE n'" "i = ''0x'' @ sha256_text T (swap_id_preimage b' n')"
    using assms(1,2) by (simp_all add: swapId_def split: if_split_asm)
  have "sha256_text T (swap_id_preimage b n) = sha256_text T (swap_id_preimage b' n')"
    using k(3) k(6) by (simp only: same_append_eq)
  then have "swap_id_preimage b n = swap_id_preimage b' n'" by (rule assms(3))
  then have "[SWAP_ID_DOMAIN, b, n] = [SWAP_ID_DOMAIN, b', n']"
    unfolding swap_id_preimage_def
    by (rule join_with_inject) (use k(1,2,4,5) DID_chars NONCE_chars in \<open>auto simp: SWAP_ID_DOMAIN_def\<close>)
  then show ?thesis by simp
qed

definition plain_hash_tclk :: tclk where
  "plain_hash_tclk = demo_tclk\<lparr>sha256_text := (\<lambda>t. t)\<rparr>"

theorem swap_id_binds_witness:
  "\<exists>i. swapId plain_hash_tclk demo_buyer ''00c0ffee'' = Inr i
     \<and> (\<forall>b n. swapId plain_hash_tclk b n = Inr i \<longrightarrow> b = demo_buyer)"
proof -
  have "case swapId plain_hash_tclk demo_buyer ''00c0ffee'' of Inl _ \<Rightarrow> False | Inr _ \<Rightarrow> True" by code_simp
  then obtain i where i: "swapId plain_hash_tclk demo_buyer ''00c0ffee'' = Inr i" by (auto split: sum.splits)
  have inj: "sha256_text plain_hash_tclk x = sha256_text plain_hash_tclk y \<Longrightarrow> x = y" for x y
    by (simp add: plain_hash_tclk_def)
  show ?thesis
    using swap_id_binds [OF _ i inj] i by blast
qed

section \<open>Orientation\<close>

text \<open>No offer is both legs: the offers oriented as leg A and those oriented as leg B are
  disjoint, whatever contexts and registries they are checked under; both are opened by the payer
  under a hash lock, leg A asks for FLOP on the FLOP rail without offering FLOP or that rail, and
  leg B pays FLOP on it.\<close>

theorem orientation_exclusive:
  assumes "checkOrientation T offer c R = None"
  shows "of_role offer = ''payer'' \<and> of_lock offer = ''hash''
    \<and> (\<exists>rails. map_rails (normalizeRailIdWith T R) (of_rails offer) = Some rails
         \<and> (case c of
              CtxA a \<Rightarrow> of_asset offer \<noteq> FLOP_ASSET \<and> FLOP_RAIL \<notin> set rails \<and> wantRail a = FLOP_RAIL
            | CtxB b \<Rightarrow> of_asset offer = FLOP_ASSET \<and> FLOP_RAIL \<in> set rails))
    \<and> (case c of
         CtxA a \<Rightarrow> (\<forall>b R'. checkOrientation T offer (CtxB b) R' \<noteq> None)
       | CtxB b \<Rightarrow> (\<forall>a R'. checkOrientation T offer (CtxA a) R' \<noteq> None))"
  using assms
  by (cases c) (auto simp: checkOrientation_def split: if_split_asm option.splits)

theorem orientation_exclusive_witness:
  "checkOrientation demo_tclk demo_offer_b (CtxB \<lparr>legAOfferId = id32 (CHR ''a'')\<rparr>) None = None
   \<and> (\<forall>a R'. checkOrientation demo_tclk demo_offer_b (CtxA a) R' \<noteq> None)"
proof -
  have "checkOrientation demo_tclk demo_offer_b (CtxB \<lparr>legAOfferId = id32 (CHR ''a'')\<rparr>) None = None" by code_simp
  from orientation_exclusive [OF this] this show ?thesis by simp
qed

section \<open>Rail registries\<close>

lemma add_specs_ids:
  "add_specs T R ss = Inr R' \<Longrightarrow> \<exists>new. R' = R @ new \<and> map Str (map fst new) = map spec_id ss
     \<and> map Str (map snd new) = map spec_namespace ss"
proof (induction T R ss rule: add_specs.induct)
  case (1 T R)
  then show ?case by simp
next
  case (2 T R s ss)
  obtain m where m: "add_spec T R s = Inr m" "add_specs T m ss = Inr R'"
    using "2.prems" by (auto simp: result_simps)
  obtain i ns where k: "spec_id s = Str i" "spec_namespace s = Str ns" "m = R @ [(i, ns)]"
    using m(1) by (auto simp: add_spec_def split: jsval.splits if_split_asm)
  obtain new where "R' = m @ new" "map Str (map fst new) = map spec_id ss"
    "map Str (map snd new) = map spec_namespace ss"
    using "2.IH" [OF m(2)] by blast
  then show ?case using k by (intro exI [of _ "(i, ns) # new"]) simp
qed

text \<open>A registry admits exactly the configured ids, in order and once each, answers the
  configured namespace for each of them, and never shadows tclk: every id tclk knows normalizes
  with the registry as it does without.\<close>

theorem registry_admits_configured:
  assumes "createCustomRailRegistry T specs = Inr R"
  shows "map Str (reg_ids R) = map spec_id specs \<and> distinct (reg_ids R)
    \<and> (\<forall>spec \<in> set specs. \<exists>i ns. spec = \<lparr>spec_id = Str i, spec_namespace = Str ns\<rparr>
          \<and> CUSTOM_RAIL_ID i \<and> reg_namespaceOf R i = Some ns \<and> requireAdmittedRailId i R = Inr i)
    \<and> (\<forall>v. normalizeRailIdWith T (Some R) v = (if Str v \<in> spec_id ` set specs then Some v else normalizeRailId T v))
    \<and> (\<forall>v. tclkKnows T v \<longrightarrow> normalizeRailIdWith T (Some R) v = normalizeRailId T v)"
proof -
  have ok: "registry_ok T R" using createCustomRailRegistry_ok [OF assms] .
  have f: "map Str (map fst R) = map spec_id specs" and sn: "map Str (map snd R) = map spec_namespace specs"
    using add_specs_ids [OF assms [unfolded createCustomRailRegistry_def]] by auto
  have d: "distinct (map fst R)" using ok by (simp add: registry_ok_def)
  have "Str ` fst ` set R = spec_id ` set specs"
    using arg_cong [OF f, of set] by (simp add: image_image)
  then have has: "reg_has R v \<longleftrightarrow> Str v \<in> spec_id ` set specs" for v
    unfolding reg_has_def by (metis (no_types, lifting) image_iff jsval.inject(3) list.set_map)
  have len: "length R = length specs" using arg_cong [OF f, of length] by simp
  have spec: "\<exists>i ns. spec = \<lparr>spec_id = Str i, spec_namespace = Str ns\<rparr>
      \<and> CUSTOM_RAIL_ID i \<and> reg_namespaceOf R i = Some ns \<and> requireAdmittedRailId i R = Inr i"
    if s: "spec \<in> set specs" for spec
  proof -
    obtain k where k: "k < length specs" "spec = specs ! k" using s by (metis in_set_conv_nth)
    have e: "spec_id spec = Str (fst (R ! k))" "spec_namespace spec = Str (snd (R ! k))"
      using arg_cong [OF f, of "\<lambda>l. l ! k"] arg_cong [OF sn, of "\<lambda>l. l ! k"] k len by simp_all
    have m: "R ! k \<in> set R" using k len by simp
    have "map_of R (fst (R ! k)) = Some (snd (R ! k))" using d m by simp
    moreover have h: "reg_has R (fst (R ! k))" using m by (simp add: reg_has_def)
    ultimately show ?thesis
      using e registry_ok_custom [OF ok h]
      by (intro exI [of _ "fst (R ! k)"] exI [of _ "snd (R ! k)"])
        (cases spec, simp add: reg_namespaceOf_def requireAdmittedRailId_def)
  qed
  have "normalizeRailIdWith T (Some R) v = normalizeRailId T v" if "tclkKnows T v" for v
    using registry_ok_unknown [OF ok, of v] that by (auto simp: normalizeRailIdWith_def tclkKnows_def)
  then show ?thesis
    using f d spec has by (auto simp: reg_ids_def normalizeRailIdWith_def)
qed

theorem registry_admits_configured_witness:
  "\<exists>R. createSolRailRegistry demo_tclk = Inr R \<and> reg_namespaceOf R SOL_RAIL_ID = Some SOL_NAMESPACE"
proof -
  have "case createSolRailRegistry demo_tclk of Inl _ \<Rightarrow> False | Inr _ \<Rightarrow> True" by code_simp
  then obtain R where R: "createSolRailRegistry demo_tclk = Inr R" by (auto split: sum.splits)
  from registry_admits_configured [OF this [unfolded createSolRailRegistry_def]] R show ?thesis by auto
qed

end
