(* ===== verification/Js_Numbers.thy ===== *)
theory Js_Numbers
  imports Desk_Prelude
begin

text \<open>
  Arithmetic of TypeScript numbers, as far as the deadline rules use it: sums, products and
  quotients of safe integers, rounded to the nearest double (53 significant bits, ties to even).
  Operands are safe integers, so every exact result is below \<open>2 ^ 106\<close> in magnitude and,
  when it is not zero, above \<open>2 ^ -53\<close>: neither overflow nor the subnormal range is
  reached, and the exponent is left unbounded. The lemmas say where this arithmetic agrees with
  that of the integers.
\<close>

section \<open>Rounding to 53 bits\<close>

definition pow2 :: "int \<Rightarrow> rat" where
  "pow2 e = (if 0 \<le> e then 2 ^ nat e else 1 / 2 ^ nat (- e))"

fun bits :: "nat \<Rightarrow> nat" where
  "bits n = (if n = 0 then 0 else Suc (bits (n div 2)))"

declare bits.simps [simp del]

text \<open>The binary exponent of a positive rational: \<open>pow2 e \<le> q < pow2 (e + 1)\<close>.\<close>

definition exponent_of :: "rat \<Rightarrow> int" where
  "exponent_of q =
     (let (n, d) = quotient_of q; k = int (bits (nat n)) - int (bits (nat d))
      in if pow2 k \<le> q then k else k - 1)"

definition round_even :: "rat \<Rightarrow> int" where
  "round_even x =
     (let f = \<lfloor>x\<rfloor>; r = x - of_int f
      in if r < 1 / 2 then f else if 1 / 2 < r then f + 1 else if even f then f else f + 1)"

definition ulp :: "rat \<Rightarrow> rat" where
  "ulp q = pow2 (exponent_of q - 52)"

definition fl :: "rat \<Rightarrow> rat" where
  "fl q = (if q = 0 then 0
           else sgn q * of_int (round_even (\<bar>q\<bar> / ulp \<bar>q\<bar>)) * ulp \<bar>q\<bar>)"

lemma pow2_pos [simp]: "0 < pow2 e"
  by (simp add: pow2_def)

lemma pow2_nonzero [simp]: "pow2 e \<noteq> 0"
  using pow2_pos [of e] by linarith

lemma pow2_powi: "pow2 e = 2 powi e"
  by (simp add: pow2_def power_int_def field_simps)

lemma pow2_add: "pow2 (a + b) = pow2 a * pow2 b"
  by (simp add: pow2_powi power_int_add)

lemma pow2_mono: "a \<le> b \<Longrightarrow> pow2 a \<le> pow2 b"
  by (simp add: pow2_powi power_int_increasing)

lemma pow2_less_cancel: "pow2 a < pow2 b \<Longrightarrow> a < b"
  using pow2_mono [of b a] by linarith

lemma bits_bounds: "0 < n \<Longrightarrow> 2 ^ (bits n - 1) \<le> n \<and> n < 2 ^ bits n"
proof (induction n rule: bits.induct)
  case (1 n)
  show ?case
  proof (cases "n = 1")
    case True
    then show ?thesis by (simp add: bits.simps [of "Suc 0"] bits.simps [of 0])
  next
    case False
    with 1 have half: "2 ^ (bits (n div 2) - 1) \<le> n div 2" "n div 2 < 2 ^ bits (n div 2)"
      by simp_all
    have b: "bits n = Suc (bits (n div 2))" using 1(2) by (simp add: bits.simps [of n])
    have pos: "0 < bits (n div 2)" using False 1(2) by (simp add: bits.simps [of "n div 2"])
    then have "(2::nat) ^ bits (n div 2) = 2 * 2 ^ (bits (n div 2) - 1)"
      by (metis One_nat_def Suc_pred power_Suc)
    moreover have "2 * (n div 2) \<le> n" "n < 2 * (n div 2) + 2" by simp_all
    ultimately show ?thesis using half b by simp linarith
  qed
qed

lemma bits_rat:
  assumes "0 < n"
  shows "pow2 (int (bits n) - 1) \<le> of_nat n" "of_nat n < pow2 (int (bits n))"
proof -
  have pos: "0 < bits n" using assms by (simp add: bits.simps [of n])
  have "(2::rat) ^ (bits n - 1) = of_nat (2 ^ (bits n - 1))" by simp
  also have "\<dots> \<le> of_nat n" using bits_bounds [OF assms] of_nat_le_iff by blast
  finally show "pow2 (int (bits n) - 1) \<le> of_nat n"
    using pos by (simp add: pow2_def nat_diff_distrib)
  have "(of_nat n :: rat) < of_nat (2 ^ bits n)" using bits_bounds [OF assms] of_nat_less_iff by blast
  then show "of_nat n < pow2 (int (bits n))" by (simp add: pow2_def)
qed

lemma exponent_of_bounds:
  assumes "0 < q"
  shows "pow2 (exponent_of q) \<le> q" "q < pow2 (exponent_of q + 1)"
proof -
  obtain n d where nd: "quotient_of q = (n, d)" by (cases "quotient_of q")
  have d: "0 < d" using quotient_of_denom_pos [OF nd] .
  have q: "q = of_int n / of_int d" using quotient_of_div [OF nd] .
  have n: "0 < n" using assms d by (simp add: q zero_less_divide_iff)
  define k where "k = int (bits (nat n)) - int (bits (nat d))"
  have lo_n: "pow2 (int (bits (nat n)) - 1) \<le> of_int n" and hi_n: "of_int n < pow2 (int (bits (nat n)))"
    using bits_rat [of "nat n"] n by auto
  have lo_d: "pow2 (int (bits (nat d)) - 1) \<le> of_int d" and hi_d: "of_int d < pow2 (int (bits (nat d)))"
    using bits_rat [of "nat d"] d by auto
  have rd: "(0::rat) < of_int d" using d by simp
  have "q < pow2 (k + 1)"
  proof -
    have "pow2 (int (bits (nat n))) = pow2 (k + 1) * pow2 (int (bits (nat d)) - 1)"
      by (simp add: pow2_add [symmetric] k_def)
    also have "\<dots> \<le> pow2 (k + 1) * of_int d"
      using lo_d by simp
    finally have "of_int n < pow2 (k + 1) * of_int d" using hi_n by linarith
    then show ?thesis using rd by (simp add: q pos_divide_less_eq)
  qed
  moreover have "pow2 (k - 1) \<le> q"
  proof -
    have "pow2 (k - 1) * of_int d \<le> pow2 (k - 1) * pow2 (int (bits (nat d)))"
      using hi_d by simp
    also have "\<dots> = pow2 (int (bits (nat n)) - 1)"
      by (simp add: pow2_add [symmetric] k_def)
    finally show ?thesis using lo_n rd by (simp add: q pos_le_divide_eq)
  qed
  moreover have "exponent_of q = (if pow2 k \<le> q then k else k - 1)"
    by (simp add: exponent_of_def nd k_def)
  ultimately show "pow2 (exponent_of q) \<le> q" "q < pow2 (exponent_of q + 1)" by auto
qed

lemma round_even_error: "\<bar>of_int (round_even x) - x\<bar> \<le> 1 / 2"
proof -
  have "of_int \<lfloor>x\<rfloor> \<le> x" "x < of_int \<lfloor>x\<rfloor> + 1" by linarith+
  then show ?thesis
    unfolding round_even_def Let_def by (auto simp: abs_le_iff)
qed

lemma round_even_int [simp]: "round_even (of_int i) = i"
  by (simp add: round_even_def)

lemma fl_error: "\<bar>fl q - q\<bar> \<le> \<bar>q\<bar> / 2 ^ 53"
proof (cases "q = 0")
  case True
  then show ?thesis by (simp add: fl_def)
next
  case False
  define a where "a = \<bar>q\<bar>"
  define u where "u = ulp a"
  have a: "0 < a" and u: "0 < u" using False by (simp_all add: a_def u_def ulp_def)
  have q: "q = sgn q * a" by (simp add: a_def sgn_mult_abs)
  have "fl q - q = sgn q * ((of_int (round_even (a / u)) - a / u) * u)"
    using False u by (subst (2) q) (simp add: fl_def a_def [symmetric] u_def [symmetric] algebra_simps)
  then have "\<bar>fl q - q\<bar> = \<bar>of_int (round_even (a / u)) - a / u\<bar> * u"
    using False u by (simp add: abs_mult abs_sgn_eq)
  also have "\<dots> \<le> 1 / 2 * u"
    using round_even_error [of "a / u"] u by simp
  also have "\<dots> = pow2 (exponent_of a) / 2 ^ 53"
  proof -
    have "pow2 (exponent_of a) = u * pow2 52"
      by (simp add: u_def ulp_def pow2_add [symmetric])
    then show ?thesis by (simp add: pow2_def)
  qed
  also have "\<dots> \<le> a / 2 ^ 53"
    using exponent_of_bounds(1) [OF a] by (simp add: divide_right_mono)
  finally show ?thesis by (simp add: a_def)
qed

text \<open>Every integer up to the safe bound is a double.\<close>

lemma fl_of_int:
  assumes "\<bar>i\<bar> \<le> max_safe"
  shows "fl (of_int i) = of_int i"
proof (cases "i = 0")
  case True
  then show ?thesis by (simp add: fl_def)
next
  case False
  define e where "e = exponent_of (of_int \<bar>i\<bar>)"
  have pos: "0 < (of_int \<bar>i\<bar> :: rat)" using False by simp
  have "pow2 e \<le> of_int \<bar>i\<bar>" using exponent_of_bounds(1) [OF pos] by (simp add: e_def)
  moreover have "(of_int \<bar>i\<bar> :: rat) < pow2 53"
  proof -
    have "(of_int \<bar>i\<bar> :: rat) \<le> of_int max_safe" using assms of_int_le_iff by blast
    then show ?thesis by (simp add: max_safe_def pow2_def)
  qed
  ultimately have "e \<le> 52" using pow2_less_cancel [of e 53] by simp
  then have "of_int \<bar>i\<bar> / pow2 (e - 52) = (of_int (\<bar>i\<bar> * 2 ^ nat (52 - e)) :: rat)"
    by (simp add: pow2_def)
  then have "round_even (of_int \<bar>i\<bar> / pow2 (e - 52)) = \<bar>i\<bar> * 2 ^ nat (52 - e)"
    by (simp only: round_even_int)
  moreover have "of_int (\<bar>i\<bar> * 2 ^ nat (52 - e)) * pow2 (e - 52) = (of_int \<bar>i\<bar> :: rat)"
    using \<open>e \<le> 52\<close> by (simp add: pow2_def)
  ultimately have "fl (of_int i) = sgn (of_int i) * of_int \<bar>i\<bar>"
    using False by (simp add: fl_def ulp_def e_def mult.assoc)
  then show ?thesis by (simp only: of_int_abs sgn_mult_abs)
qed

section \<open>The operations\<close>

definition js_add :: "rat \<Rightarrow> rat \<Rightarrow> rat" where
  "js_add x y = fl (x + y)"

definition js_sub :: "rat \<Rightarrow> rat \<Rightarrow> rat" where
  "js_sub x y = fl (x - y)"

definition js_mul :: "rat \<Rightarrow> rat \<Rightarrow> rat" where
  "js_mul x y = fl (x * y)"

definition js_div :: "rat \<Rightarrow> rat \<Rightarrow> rat" where
  "js_div x y = fl (x / y)"

text \<open>\<open>Math.ceil\<close> of a double is a double.\<close>

definition js_ceil :: "rat \<Rightarrow> rat" where
  "js_ceil x = of_int \<lceil>x\<rceil>"

lemma js_add_int [simp]:
  "\<bar>i + j\<bar> \<le> max_safe \<Longrightarrow> js_add (of_int i) (of_int j) = of_int (i + j)"
  by (simp add: js_add_def fl_of_int flip: of_int_add)

lemma js_sub_int [simp]:
  "\<bar>i - j\<bar> \<le> max_safe \<Longrightarrow> js_sub (of_int i) (of_int j) = of_int (i - j)"
  by (simp add: js_sub_def fl_of_int flip: of_int_diff)

lemma js_mul_int [simp]:
  "\<bar>i * j\<bar> \<le> max_safe \<Longrightarrow> js_mul (of_int i) (of_int j) = of_int (i * j)"
  by (simp add: js_mul_def fl_of_int flip: of_int_mult)

text \<open>
  The rounded quotient of two integers has the ceiling of the exact quotient: the rounding error
  is below one part in the denominator, and an exact quotient that is no integer is at least that
  far from one.
\<close>

lemma js_ceil_div:
  assumes n: "\<bar>n\<bar> \<le> max_safe" and d: "0 < d"
  shows "js_ceil (js_div (of_int n) (of_int d)) = of_int \<lceil>(of_int n / of_int d :: rat)\<rceil>"
proof -
  define q where "q = (of_int n / of_int d :: rat)"
  have rd: "(0::rat) < of_int d" using d by simp
  have err: "\<bar>fl q - q\<bar> < 1 / of_int d"
  proof -
    have "(of_int \<bar>n\<bar> :: rat) \<le> of_int max_safe" using n of_int_le_iff by blast
    then have "(of_int \<bar>n\<bar> :: rat) < 2 ^ 53" by (simp add: max_safe_def)
    then have "\<bar>q\<bar> / 2 ^ 53 < 1 / of_int d"
      using rd by (simp add: q_def divide_simps)
    with fl_error [of q] show ?thesis by linarith
  qed
  have "\<lceil>fl q\<rceil> = \<lceil>q\<rceil>"
  proof (cases "d dvd n")
    case True
    then obtain c where c: "n = d * c" by (elim dvdE)
    then have qc: "q = of_int c" using d by (simp add: q_def)
    have "\<bar>c\<bar> \<le> \<bar>n\<bar>" using c d by (simp add: abs_mult mult_le_cancel_right1)
    then have "fl q = of_int c" using n qc by (simp add: fl_of_int)
    then show ?thesis using qc by simp
  next
    case False
    define k where "k = n div d"
    have m: "n = d * k + n mod d" "0 < n mod d" "n mod d < d"
      using d False by (auto simp: k_def dvd_eq_mod_eq_0 order_le_neq_trans)
    have q_eq: "q = of_int k + of_int (n mod d) / of_int d"
      using m(1) rd by (simp add: q_def add_divide_eq_iff mult.commute flip: of_int_mult of_int_add)
    have lo: "of_int k + 1 / of_int d \<le> q"
    proof -
      have "(1::rat) \<le> of_int (n mod d)" using m(2) by simp
      then show ?thesis using rd q_eq by (simp add: divide_right_mono)
    qed
    have hi: "q + 1 / of_int d \<le> of_int k + 1"
    proof -
      have "(of_int (n mod d) + 1 :: rat) \<le> of_int d" using m(3) by (simp flip: of_int_add add: zless_imp_add1_zle)
      then have "(of_int (n mod d) + 1) / of_int d \<le> (1::rat)" using rd by simp
      then show ?thesis using q_eq by (simp add: add_divide_distrib)
    qed
    have "\<lceil>fl q\<rceil> = k + 1" "\<lceil>q\<rceil> = k + 1"
      using err lo hi rd by (auto simp: ceiling_eq_iff abs_less_iff)
    then show ?thesis by simp
  qed
  then show ?thesis by (simp add: js_ceil_def js_div_def q_def)
qed

end
