(* ===== verification/Deadlines.thy ===== *)
theory Deadlines
  imports Js_Numbers Tclk
begin

text \<open>
  \<open>src/deadlines.ts\<close>: the arithmetic of the three deadline rules. The operands of the
  source are TypeScript numbers that nothing has validated, so they are values of type
  \<open>jsval\<close> here, validated by the code's own predicates, and the arithmetic after
  validation is that of doubles (\<open>Js_Numbers\<close>). A violation text is one constructor
  that carries the values it prints.
\<close>

section \<open>Data\<close>

record deadline_policy =
  minRevealWindowMs :: jsval
  finalityAMs :: jsval
  flopMarginPercent :: jsval
  flopMaxFinalityStallBlocks :: jsval
  flopFinalityLagBlocks :: jsval
  flopBlockMs :: jsval

text \<open>An offer argument: an object with the three deadlines, or something that is no
  object. The same for the policy.\<close>

record leg_deadlines =
  d_claimByMs :: jsval
  d_refundAfterMs :: jsval
  d_expiresMs :: jsval

datatype leg_arg = Leg leg_deadlines | NoLeg jsval

datatype policy_arg = Policy deadline_policy | NoPolicy jsval

datatype violation =
    LockTimeBad jsval
  | LegNotObject string jsval
  | LegClaimByBad string jsval
  | LegRefundAfterBad string jsval
  | LegExpiresBad string jsval
  | LegClaimNotBeforeRefund string int int
  | PolicyNotObject jsval
  | PolicyFieldBad string string jsval
  | Rule1 rat int int rat
  | Rule2 int rat int rat
  | Rule3 rat rat rat rat rat rat rat
  | Rule3Failed deadlines_error
and deadlines_error =
    TOtherBad rat
  | MarginBad rat
  | StallBad rat
  | LagBad rat
  | FromBad rat
  | ToBad rat
  | BlockBad rat

record deadline_check =
  dc_ok :: bool
  dc_violations :: "violation list"
  requiredBRefundAfterMs :: jsnum
  requiredBClaimByMs :: jsnum
  tOtherBlocks :: jsnum
  tFlopBlocks :: jsnum
  requiredTFlopBlocks :: jsnum

definition DEFAULT_POLICY_EXAMPLE :: deadline_policy where
  "DEFAULT_POLICY_EXAMPLE =
     \<lparr>minRevealWindowMs = int_jsval (30 * 60 * 1000),
      finalityAMs = int_jsval (10 * 60 * 1000),
      flopMarginPercent = int_jsval 20,
      flopMaxFinalityStallBlocks = int_jsval 3600,
      flopFinalityLagBlocks = int_jsval 0,
      flopBlockMs = int_jsval 1000\<rparr>"

section \<open>The arithmetic helpers\<close>

definition isSafeInt :: "rat \<Rightarrow> bool" where
  "isSafeInt q \<longleftrightarrow> of_int \<lfloor>q\<rfloor> = q \<and> \<bar>q\<bar> \<le> of_int max_safe"

definition timelockSymmetryMinimumBlocks ::
    "rat \<Rightarrow> rat \<Rightarrow> rat \<Rightarrow> rat \<Rightarrow> (deadlines_error, rat) result" where
  "timelockSymmetryMinimumBlocks tOther marginPercent maxStall lag =
     (if \<not> isSafeInt tOther \<or> tOther < 0 then Inl (TOtherBad tOther)
      else if \<not> isSafeInt marginPercent \<or> marginPercent < 0 then Inl (MarginBad marginPercent)
      else if \<not> isSafeInt maxStall \<or> maxStall < 0 then Inl (StallBad maxStall)
      else if \<not> isSafeInt lag \<or> lag < 0 then Inl (LagBad lag)
      else (let percentMargin = js_ceil (js_div (js_mul tOther marginPercent) 100);
                finalityMargin = js_add maxStall lag
            in Inr (js_add tOther (max percentMargin finalityMargin))))"

definition blocksBetween :: "rat \<Rightarrow> rat \<Rightarrow> rat \<Rightarrow> (deadlines_error, rat) result" where
  "blocksBetween fromMs toMs blockMs =
     (if \<not> isSafeInt fromMs then Inl (FromBad fromMs)
      else if \<not> isSafeInt toMs then Inl (ToBad toMs)
      else if \<not> isSafeInt blockMs \<or> blockMs \<le> 0 then Inl (BlockBad blockMs)
      else Inr (js_ceil (js_div (js_sub toMs fromMs) blockMs)))"

section \<open>Validation\<close>

text \<open>\<open>isPositiveSafeInt\<close> and \<open>isNonNegativeSafeInt\<close>, with the number a
  passing value holds.\<close>

definition positive_safe :: "jsval \<Rightarrow> int option" where
  "positive_safe v = (case safe_int_of v of Some i \<Rightarrow> if 0 < i then Some i else None | None \<Rightarrow> None)"

definition nonneg_safe :: "jsval \<Rightarrow> int option" where
  "nonneg_safe v = (case safe_int_of v of Some i \<Rightarrow> if 0 \<le> i then Some i else None | None \<Rightarrow> None)"

definition unless :: "bool \<Rightarrow> violation \<Rightarrow> violation list" where
  "unless b v = (if b then [] else [v])"

text \<open>The violations \<open>checkLegInvariants\<close> appends; it answers true exactly when it
  appends none.\<close>

definition checkLegInvariants :: "string \<Rightarrow> leg_arg \<Rightarrow> violation list" where
  "checkLegInvariants label leg =
     (case leg of
        NoLeg v \<Rightarrow> [LegNotObject label v]
      | Leg l \<Rightarrow>
          (let vs = unless (positive_safe (d_claimByMs l) \<noteq> None) (LegClaimByBad label (d_claimByMs l))
                  @ unless (positive_safe (d_refundAfterMs l) \<noteq> None) (LegRefundAfterBad label (d_refundAfterMs l))
                  @ unless (positive_safe (d_expiresMs l) \<noteq> None) (LegExpiresBad label (d_expiresMs l))
           in if vs \<noteq> [] then vs
              else (case (positive_safe (d_claimByMs l), positive_safe (d_refundAfterMs l)) of
                      (Some c, Some r) \<Rightarrow> unless (c < r) (LegClaimNotBeforeRefund label c r)
                    | _ \<Rightarrow> vs)))"

definition checkPolicy :: "policy_arg \<Rightarrow> violation list" where
  "checkPolicy policy =
     (case policy of
        NoPolicy v \<Rightarrow> [PolicyNotObject v]
      | Policy p \<Rightarrow>
          unless (nonneg_safe (minRevealWindowMs p) \<noteq> None)
            (PolicyFieldBad ''minRevealWindowMs'' ''non-negative'' (minRevealWindowMs p))
        @ unless (nonneg_safe (finalityAMs p) \<noteq> None)
            (PolicyFieldBad ''finalityAMs'' ''non-negative'' (finalityAMs p))
        @ unless (nonneg_safe (flopMarginPercent p) \<noteq> None)
            (PolicyFieldBad ''flopMarginPercent'' ''non-negative'' (flopMarginPercent p))
        @ unless (nonneg_safe (flopMaxFinalityStallBlocks p) \<noteq> None)
            (PolicyFieldBad ''flopMaxFinalityStallBlocks'' ''non-negative'' (flopMaxFinalityStallBlocks p))
        @ unless (nonneg_safe (flopFinalityLagBlocks p) \<noteq> None)
            (PolicyFieldBad ''flopFinalityLagBlocks'' ''non-negative'' (flopFinalityLagBlocks p))
        @ unless (positive_safe (flopBlockMs p) \<noteq> None)
            (PolicyFieldBad ''flopBlockMs'' ''positive'' (flopBlockMs p)))"

section \<open>The composite check\<close>

text \<open>The validated operands of the rules.\<close>

record operands =
  o_lock :: int
  o_refundA :: int
  o_claimB :: int
  o_refundB :: int
  o_reveal :: int
  o_finalityA :: int
  o_margin :: int
  o_stall :: int
  o_lag :: int
  o_block :: int

definition operands_of :: "leg_deadlines \<Rightarrow> leg_deadlines \<Rightarrow> jsval \<Rightarrow> deadline_policy \<Rightarrow> operands" where
  "operands_of a b lockTime p =
     \<lparr>o_lock = the (safe_int_of lockTime),
      o_refundA = the (safe_int_of (d_refundAfterMs a)),
      o_claimB = the (safe_int_of (d_claimByMs b)),
      o_refundB = the (safe_int_of (d_refundAfterMs b)),
      o_reveal = the (safe_int_of (minRevealWindowMs p)),
      o_finalityA = the (safe_int_of (finalityAMs p)),
      o_margin = the (safe_int_of (flopMarginPercent p)),
      o_stall = the (safe_int_of (flopMaxFinalityStallBlocks p)),
      o_lag = the (safe_int_of (flopFinalityLagBlocks p)),
      o_block = the (safe_int_of (flopBlockMs p))\<rparr>"

text \<open>The \<open>try\<close> block of rule 3. The four results are assigned one after the other,
  so a throw leaves the later ones NaN; the violation is reported and nothing propagates.\<close>

definition rule3_of :: "operands \<Rightarrow> violation list \<times> jsnum \<times> jsnum \<times> jsnum \<times> jsnum" where
  "rule3_of o' =
     (case blocksBetween (of_int (o_lock o')) (of_int (o_refundA o')) (of_int (o_block o')) of
        Inl e \<Rightarrow> ([Rule3Failed e], NaN, NaN, NaN, NaN)
      | Inr tOther \<Rightarrow>
     (case blocksBetween (of_int (o_lock o')) (of_int (o_refundB o')) (of_int (o_block o')) of
        Inl e \<Rightarrow> ([Rule3Failed e], Fin tOther, NaN, NaN, NaN)
      | Inr tFlop \<Rightarrow>
     (case timelockSymmetryMinimumBlocks tOther (of_int (o_margin o')) (of_int (o_stall o')) (of_int (o_lag o')) of
        Inl e \<Rightarrow> ([Rule3Failed e], Fin tOther, Fin tFlop, NaN, NaN)
      | Inr required \<Rightarrow>
          (let refundB = js_add (of_int (o_lock o')) (js_mul required (of_int (o_block o')))
           in (unless (\<not> tFlop < required)
                 (Rule3 tFlop required tOther (of_int (o_margin o')) (of_int (o_stall o'))
                    (of_int (o_lag o')) refundB),
               Fin tOther, Fin tFlop, Fin required, Fin refundB)))))"

definition rules_of :: "operands \<Rightarrow> deadline_check" where
  "rules_of o' =
     (let claimB = js_add (of_int (o_refundA o')) (of_int (o_finalityA o'));
          window = js_sub (of_int (o_refundA o')) (of_int (o_lock o'));
          v1 = unless (\<not> window < of_int (o_reveal o'))
                 (Rule1 window (o_refundA o') (o_lock o') (of_int (o_reveal o')));
          v2 = unless (\<not> of_int (o_claimB o') < claimB)
                 (Rule2 (o_claimB o') claimB (o_refundA o') (of_int (o_finalityA o')));
          (v3, tOther, tFlop, required, refundB) = rule3_of o'
      in \<lparr>dc_ok = (v1 @ v2 @ v3 = []), dc_violations = v1 @ v2 @ v3,
          requiredBRefundAfterMs = refundB, requiredBClaimByMs = Fin claimB,
          tOtherBlocks = tOther, tFlopBlocks = tFlop, requiredTFlopBlocks = required\<rparr>)"

definition unresolved :: "violation list \<Rightarrow> deadline_check" where
  "unresolved vs =
     \<lparr>dc_ok = False, dc_violations = vs, requiredBRefundAfterMs = NaN, requiredBClaimByMs = NaN,
      tOtherBlocks = NaN, tFlopBlocks = NaN, requiredTFlopBlocks = NaN\<rparr>"

definition checkSwapDeadlines :: "leg_arg \<Rightarrow> leg_arg \<Rightarrow> jsval \<Rightarrow> policy_arg \<Rightarrow> deadline_check" where
  "checkSwapDeadlines legA legB lockTime policy =
     (let vLock = unless (positive_safe lockTime \<noteq> None) (LockTimeBad lockTime);
          vA = checkLegInvariants ''legA'' legA;
          vB = checkLegInvariants ''legB'' legB;
          vP = checkPolicy policy;
          violations = vLock @ vA @ vB @ vP
      in if violations \<noteq> [] then unresolved violations
         else (case (legA, legB, policy) of
                 (Leg a, Leg b, Policy p) \<Rightarrow> rules_of (operands_of a b lockTime p)
               | _ \<Rightarrow> unresolved violations))"

text \<open>The deadlines of a frame the tclk decoder validated, as an argument.\<close>

definition leg_of_offer :: "offer_frame \<Rightarrow> leg_arg" where
  "leg_of_offer f =
     Leg \<lparr>d_claimByMs = int_jsval (of_claimByMs f), d_refundAfterMs = int_jsval (of_refundAfterMs f),
          d_expiresMs = int_jsval (of_expiresMs f)\<rparr>"

section \<open>Validated operands\<close>

lemma isSafeInt_int [simp]: "isSafeInt (of_int i) \<longleftrightarrow> \<bar>i\<bar> \<le> max_safe"
  by (simp add: isSafeInt_def flip: of_int_abs)

lemma positive_safe_Some: "positive_safe v = Some i \<longleftrightarrow> v = int_jsval i \<and> 0 < i \<and> i \<le> max_safe"
  by (auto simp: positive_safe_def safe_int_of_Some split: option.splits if_splits)

lemma nonneg_safe_Some: "nonneg_safe v = Some i \<longleftrightarrow> v = int_jsval i \<and> 0 \<le> i \<and> i \<le> max_safe"
  by (auto simp: nonneg_safe_def safe_int_of_Some split: option.splits if_splits)

lemma unless_Nil [simp]: "unless b v = [] \<longleftrightarrow> b"
  by (simp add: unless_def)

definition leg_ok :: "leg_deadlines \<Rightarrow> int \<Rightarrow> int \<Rightarrow> bool" where
  "leg_ok l c r \<longleftrightarrow>
     positive_safe (d_claimByMs l) = Some c \<and> positive_safe (d_refundAfterMs l) = Some r
     \<and> positive_safe (d_expiresMs l) \<noteq> None \<and> c < r"

definition policy_ok :: "deadline_policy \<Rightarrow> bool" where
  "policy_ok p \<longleftrightarrow>
     nonneg_safe (minRevealWindowMs p) \<noteq> None \<and> nonneg_safe (finalityAMs p) \<noteq> None
     \<and> nonneg_safe (flopMarginPercent p) \<noteq> None \<and> nonneg_safe (flopMaxFinalityStallBlocks p) \<noteq> None
     \<and> nonneg_safe (flopFinalityLagBlocks p) \<noteq> None \<and> positive_safe (flopBlockMs p) \<noteq> None"

lemma checkLegInvariants_Nil:
  "checkLegInvariants label leg = [] \<longleftrightarrow> (\<exists>l c r. leg = Leg l \<and> leg_ok l c r)"
  by (cases leg) (auto simp: checkLegInvariants_def leg_ok_def Let_def)

lemma checkPolicy_Nil: "checkPolicy policy = [] \<longleftrightarrow> (\<exists>p. policy = Policy p \<and> policy_ok p)"
  by (cases policy) (auto simp: checkPolicy_def policy_ok_def)

lemma positive_safe_of: "positive_safe v = Some i \<Longrightarrow> safe_int_of v = Some i"
  by (auto simp: positive_safe_Some)

lemma nonneg_safe_of: "nonneg_safe v = Some i \<Longrightarrow> safe_int_of v = Some i"
  by (auto simp: nonneg_safe_Some)

text \<open>Everything the fundamentals of the check establish before the rules are evaluated.\<close>

definition operands_ok :: "operands \<Rightarrow> bool" where
  "operands_ok o' \<longleftrightarrow>
     0 < o_lock o' \<and> o_lock o' \<le> max_safe \<and> 0 < o_refundA o' \<and> o_refundA o' \<le> max_safe
     \<and> 0 < o_claimB o' \<and> o_claimB o' < o_refundB o' \<and> o_refundB o' \<le> max_safe
     \<and> 0 \<le> o_reveal o' \<and> o_reveal o' \<le> max_safe \<and> 0 \<le> o_finalityA o' \<and> o_finalityA o' \<le> max_safe
     \<and> 0 \<le> o_margin o' \<and> o_margin o' \<le> max_safe \<and> 0 \<le> o_stall o' \<and> o_stall o' \<le> max_safe
     \<and> 0 \<le> o_lag o' \<and> o_lag o' \<le> max_safe \<and> 0 < o_block o' \<and> o_block o' \<le> max_safe"

lemma operands_of_ok:
  assumes "positive_safe t \<noteq> None" "leg_ok a ca ra" "leg_ok b cb rb" "policy_ok p"
  shows "operands_ok (operands_of a b t p)"
  using assms
  by (auto simp: operands_ok_def operands_of_def leg_ok_def policy_ok_def positive_safe_Some nonneg_safe_Some)

lemma checkSwapDeadlines_cases:
  obtains (bad) vs where "vs \<noteq> []" "checkSwapDeadlines legA legB t policy = unresolved vs"
  | (good) a b p ca ra cb rb where "legA = Leg a" "legB = Leg b" "policy = Policy p"
      "leg_ok a ca ra" "leg_ok b cb rb" "policy_ok p" "positive_safe t \<noteq> None"
      "checkSwapDeadlines legA legB t policy = rules_of (operands_of a b t p)"
proof -
  define vs where "vs = unless (positive_safe t \<noteq> None) (LockTimeBad t) @ checkLegInvariants ''legA'' legA
    @ checkLegInvariants ''legB'' legB @ checkPolicy policy"
  show thesis
  proof (cases "vs = []")
    case False
    then show ?thesis
      by (intro bad [of vs]) (auto simp: checkSwapDeadlines_def vs_def Let_def)
  next
    case True
    then obtain a ca ra b cb rb p where k: "legA = Leg a" "leg_ok a ca ra" "legB = Leg b" "leg_ok b cb rb"
      "policy = Policy p" "policy_ok p" "positive_safe t \<noteq> None"
      by (auto simp: vs_def checkLegInvariants_Nil checkPolicy_Nil)
    then show ?thesis
      using True by (intro good [of a b p ca ra cb rb]) (simp_all add: checkSwapDeadlines_def vs_def)
  qed
qed

lemma rules_of_ok_iff: "dc_ok (rules_of o') \<longleftrightarrow> dc_violations (rules_of o') = []"
  by (simp add: rules_of_def Let_def split: prod.splits)

section \<open>The rules over the integers\<close>

text \<open>Yellow paper R10.2 and rules 1 to 3, over unbounded integers.\<close>

definition blocks_up :: "int \<Rightarrow> int \<Rightarrow> int" where
  "blocks_up ms block = \<lceil>(of_int ms / of_int block :: rat)\<rceil>"

definition r10_2_minimum :: "int \<Rightarrow> int \<Rightarrow> int \<Rightarrow> int \<Rightarrow> int" where
  "r10_2_minimum tOther margin stall lag =
     tOther + max \<lceil>(of_int (tOther * margin) / 100 :: rat)\<rceil> (stall + lag)"

definition rules_hold :: "operands \<Rightarrow> bool" where
  "rules_hold o' \<longleftrightarrow>
     o_reveal o' \<le> o_refundA o' - o_lock o'
     \<and> o_refundA o' + o_finalityA o' \<le> o_claimB o'
     \<and> r10_2_minimum (blocks_up (o_refundA o' - o_lock o') (o_block o'))
          (o_margin o') (o_stall o') (o_lag o')
        \<le> blocks_up (o_refundB o' - o_lock o') (o_block o')"

text \<open>Operands for which no intermediate result leaves the safe integers. With millisecond
  clocks and policies of hours and percents the sums are far below the bound.\<close>

definition exact_range :: "operands \<Rightarrow> bool" where
  "exact_range o' \<longleftrightarrow>
     o_refundA o' + o_finalityA o' \<le> max_safe
     \<and> \<bar>o_refundA o' - o_lock o'\<bar> * (o_margin o' + 1) + o_stall o' + o_lag o' \<le> max_safe"

lemma blocks_up_bounds:
  assumes "0 < block" "0 \<le> ms"
  shows "0 \<le> blocks_up ms block" "blocks_up ms block \<le> ms"
proof -
  have "(of_int ms / of_int block :: rat) \<le> of_int ms"
    using assms by (simp add: divide_le_eq mult_le_cancel_left1)
  then show "blocks_up ms block \<le> ms" by (simp add: blocks_up_def ceiling_le_iff)
  have "(0::rat) \<le> of_int ms / of_int block" using assms by simp
  then show "0 \<le> blocks_up ms block" unfolding blocks_up_def by linarith
qed

lemma blocks_up_negative:
  assumes "0 < block" "ms < 0"
  shows "blocks_up ms block \<le> 0"
proof -
  have "(of_int ms / of_int block :: rat) \<le> 0" using assms by (simp add: divide_le_0_iff)
  then show ?thesis by (simp add: blocks_up_def ceiling_le_iff)
qed

lemma blocksBetween_exact:
  assumes "0 < t" "t \<le> max_safe" "0 < r" "r \<le> max_safe" "0 < b" "b \<le> max_safe"
  shows "blocksBetween (of_int t) (of_int r) (of_int b) = Inr (of_int (blocks_up (r - t) b))"
  using assms js_ceil_div [of "r - t" b]
  by (simp add: blocksBetween_def blocks_up_def flip: of_int_diff)

lemma percent_bound:
  assumes "0 \<le> (t::int)" "0 \<le> m"
  shows "\<lceil>(of_int (t * m) / 100 :: rat)\<rceil> \<le> t * m" "0 \<le> \<lceil>(of_int (t * m) / 100 :: rat)\<rceil>"
proof -
  have nn: "(0::rat) \<le> of_int (t * m)" using assms by (simp add: mult_nonneg_nonneg)
  then have "(of_int (t * m) / 100 :: rat) \<le> of_int (t * m)" by linarith
  then show "\<lceil>(of_int (t * m) / 100 :: rat)\<rceil> \<le> t * m" by (simp only: ceiling_le_iff)
  show "0 \<le> \<lceil>(of_int (t * m) / 100 :: rat)\<rceil>" using nn by linarith
qed

lemma timelock_exact:
  assumes "0 \<le> t" "0 \<le> m" "0 \<le> s" "0 \<le> l" "t * (m + 1) + s + l \<le> max_safe" "m \<le> max_safe"
  shows "timelockSymmetryMinimumBlocks (of_int t) (of_int m) (of_int s) (of_int l)
         = Inr (of_int (r10_2_minimum t m s l))"
proof -
  have tm: "0 \<le> t * m" using assms by simp
  have sum: "t + t * m + s + l \<le> max_safe" using assms(5) by (simp add: distrib_left)
  define c where "c = \<lceil>(of_int (t * m) / 100 :: rat)\<rceil>"
  have c: "0 \<le> c" "c \<le> t * m" using percent_bound [OF assms(1,2)] by (simp_all add: c_def)
  have "js_ceil (js_div (js_mul (of_int t) (of_int m)) 100) = of_int c"
    using js_ceil_div [of "t * m" 100] assms tm sum by (simp add: c_def)
  moreover have "js_add (of_int s) (of_int l) = of_int (s + l)"
    using assms(1-4) tm sum by (intro js_add_int) linarith
  moreover have "js_add (of_int t) (of_int (max c (s + l))) = of_int (t + max c (s + l))"
    using assms c tm sum by (intro js_add_int) auto
  moreover have "t \<le> max_safe" "s \<le> max_safe" "l \<le> max_safe"
    using assms(1-4) tm sum by linarith+
  moreover have "r10_2_minimum t m s l = t + max c (s + l)"
    by (simp add: r10_2_minimum_def c_def)
  ultimately show ?thesis
    using assms(1-4,6)
    by (simp add: timelockSymmetryMinimumBlocks_def of_int_max [symmetric]
        del: of_int_max of_int_add js_add_int)
qed

text \<open>Rule 1 makes the clock of leg A non-negative, the case in which rule 3 cannot throw.\<close>

lemma rules_of_iff:
  assumes ok: "operands_ok o'" and ex: "exact_range o'"
  shows "dc_ok (rules_of o') \<longleftrightarrow> rules_hold o'"
proof -
  let ?w = "o_refundA o' - o_lock o'"
  have window: "js_sub (of_int (o_refundA o')) (of_int (o_lock o')) = of_int ?w"
    using ok by (intro js_sub_int) (auto simp: operands_ok_def)
  have claim: "js_add (of_int (o_refundA o')) (of_int (o_finalityA o')) = of_int (o_refundA o' + o_finalityA o')"
    using ok ex by (intro js_add_int) (auto simp: operands_ok_def exact_range_def)
  have other: "blocksBetween (of_int (o_lock o')) (of_int (o_refundA o')) (of_int (o_block o'))
      = Inr (of_int (blocks_up ?w (o_block o')))"
    using ok by (intro blocksBetween_exact) (auto simp: operands_ok_def)
  have flop: "blocksBetween (of_int (o_lock o')) (of_int (o_refundB o')) (of_int (o_block o'))
      = Inr (of_int (blocks_up (o_refundB o' - o_lock o') (o_block o')))"
    using ok by (intro blocksBetween_exact) (auto simp: operands_ok_def)
  show ?thesis
  proof (cases "o_reveal o' \<le> ?w")
    case False
    then show ?thesis
      by (auto simp: rules_of_def rules_hold_def window Let_def simp del: of_int_diff split: prod.splits)
  next
    case True
    then have w: "0 \<le> ?w" using ok by (auto simp: operands_ok_def)
    have t: "0 \<le> blocks_up ?w (o_block o')" "blocks_up ?w (o_block o') \<le> ?w"
      using blocks_up_bounds [of "o_block o'" ?w] ok w by (auto simp: operands_ok_def)
    have "blocks_up ?w (o_block o') * (o_margin o' + 1) \<le> ?w * (o_margin o' + 1)"
      using t(2) ok by (intro mult_right_mono) (auto simp: operands_ok_def)
    then have "blocks_up ?w (o_block o') * (o_margin o' + 1) + o_stall o' + o_lag o' \<le> max_safe"
      using ex w by (auto simp: exact_range_def)
    then have req: "timelockSymmetryMinimumBlocks (of_int (blocks_up ?w (o_block o'))) (of_int (o_margin o'))
        (of_int (o_stall o')) (of_int (o_lag o'))
        = Inr (of_int (r10_2_minimum (blocks_up ?w (o_block o')) (o_margin o') (o_stall o') (o_lag o')))"
      using t(1) ok by (intro timelock_exact) (auto simp: operands_ok_def)
    show ?thesis
      using True
      by (simp add: rules_of_def rules_hold_def window claim rule3_of_def other flop req Let_def
          not_less del: of_int_diff of_int_add)
  qed
qed

section \<open>What a passing check guarantees\<close>

lemma js_add_lower:
  assumes "0 \<le> i" "0 \<le> j" "i \<le> max_safe" "j \<le> max_safe"
  shows "of_int i \<le> js_add (of_int i) (of_int j)"
proof (cases "i + j \<le> max_safe")
  case True
  then have "js_add (of_int i) (of_int j) = of_int (i + j)" using assms by (intro js_add_int) simp
  then show ?thesis using assms by (simp only: of_int_le_iff)
next
  case False
  define q where "q = (of_int (i + j) :: rat)"
  have "(of_int (max_safe + 1) :: rat) \<le> q" unfolding q_def of_int_le_iff using False by simp
  then have big: "2 ^ 53 \<le> q" by (simp add: max_safe_def)
  have "\<bar>fl q - q\<bar> \<le> q / 2 ^ 53" using fl_error [of q] big by simp
  then have "q - q / 2 ^ 53 \<le> fl q" by linarith
  moreover have "2 ^ 53 - 1 \<le> q - q / 2 ^ 53" using big by simp
  moreover have "(of_int i :: rat) \<le> of_int max_safe" unfolding of_int_le_iff by (rule assms(3))
  ultimately show ?thesis by (simp add: js_add_def q_def max_safe_def)
qed

lemma rules_of_order:
  assumes ok: "operands_ok o'" and pass: "dc_ok (rules_of o')"
  shows "o_lock o' + o_reveal o' \<le> o_refundA o'" "o_refundA o' \<le> o_claimB o'"
proof -
  have w: "js_sub (of_int (o_refundA o')) (of_int (o_lock o')) = of_int (o_refundA o' - o_lock o')"
    using ok by (intro js_sub_int) (auto simp: operands_ok_def)
  have v: "\<not> js_sub (of_int (o_refundA o')) (of_int (o_lock o')) < of_int (o_reveal o')"
    "\<not> of_int (o_claimB o') < js_add (of_int (o_refundA o')) (of_int (o_finalityA o'))"
    using pass by (auto simp: rules_of_def Let_def split: prod.splits)
  show "o_lock o' + o_reveal o' \<le> o_refundA o'" using v(1) unfolding w of_int_less_iff by simp
  have "(of_int (o_refundA o') :: rat) \<le> js_add (of_int (o_refundA o')) (of_int (o_finalityA o'))"
    using ok by (intro js_add_lower) (auto simp: operands_ok_def)
  with v(2) have "(of_int (o_refundA o') :: rat) \<le> of_int (o_claimB o')" by linarith
  then show "o_refundA o' \<le> o_claimB o'" by simp
qed

lemma checkSwapDeadlines_rules:
  assumes "dc_ok (checkSwapDeadlines legA legB t policy)"
  obtains a b p ca ra cb rb where "legA = Leg a" "legB = Leg b" "policy = Policy p"
    "leg_ok a ca ra" "leg_ok b cb rb" "policy_ok p" "positive_safe t \<noteq> None"
    "checkSwapDeadlines legA legB t policy = rules_of (operands_of a b t p)"
  using checkSwapDeadlines_cases [of legA legB t policy] assms
  by (metis deadline_check.select_convs(1) unresolved_def)

lemma checkSwapDeadlines_good:
  assumes "leg_ok a ca ra" "leg_ok b cb rb" "policy_ok p" "positive_safe t \<noteq> None"
  shows "checkSwapDeadlines (Leg a) (Leg b) t (Policy p) = rules_of (operands_of a b t p)"
proof -
  have "checkLegInvariants ''legA'' (Leg a) = []" "checkLegInvariants ''legB'' (Leg b) = []"
    "checkPolicy (Policy p) = []"
    using assms by (auto simp: checkLegInvariants_Nil checkPolicy_Nil)
  then show ?thesis using assms by (simp add: checkSwapDeadlines_def unless_def)
qed

lemma blocks_up_less: "0 < b \<Longrightarrow> b * blocks_up x b < x + b"
proof -
  assume b: "0 < b"
  have "of_int (blocks_up x b) < of_int x / of_int b + (1::rat)"
    unfolding blocks_up_def by linarith
  then have "(of_int (b * blocks_up x b) :: rat) < of_int (x + b)"
    using b by (simp add: field_simps)
  then show ?thesis by (simp only: of_int_less_iff)
qed

lemma blocks_up_ge: "0 < b \<Longrightarrow> x \<le> b * blocks_up x b"
proof -
  assume b: "0 < b"
  have "of_int x / of_int b \<le> (of_int (blocks_up x b) :: rat)"
    unfolding blocks_up_def by linarith
  then have "(of_int x :: rat) \<le> of_int (b * blocks_up x b)"
    using b by (simp add: field_simps)
  then show ?thesis by (simp only: of_int_le_iff)
qed

section \<open>Properties of the deadline check\<close>

text \<open>A pair of legs the example policy admits.\<close>

definition demo_leg_a :: leg_deadlines where
  "demo_leg_a = \<lparr>d_claimByMs = int_jsval 3600000, d_refundAfterMs = int_jsval 5400000, d_expiresMs = int_jsval 1800000\<rparr>"

definition demo_leg_b :: leg_deadlines where
  "demo_leg_b = \<lparr>d_claimByMs = int_jsval 7200000, d_refundAfterMs = int_jsval 10800000, d_expiresMs = int_jsval 2400000\<rparr>"

definition demo_operands :: operands where
  "demo_operands = operands_of demo_leg_a demo_leg_b (int_jsval 600000) DEFAULT_POLICY_EXAMPLE"

lemma deadline_check_passes:
  assumes "leg_ok a ca ra" "leg_ok b cb rb" "policy_ok p" "positive_safe t \<noteq> None"
    and "exact_range (operands_of a b t p)" "rules_hold (operands_of a b t p)"
  shows "dc_ok (checkSwapDeadlines (Leg a) (Leg b) t (Policy p))"
  using rules_of_iff [OF operands_of_ok [OF assms(4,1,2,3)] assms(5)] assms
  by (simp add: checkSwapDeadlines_good)

lemma demo_operands_eq:
  "demo_operands =
     \<lparr>o_lock = 600000, o_refundA = 5400000, o_claimB = 7200000, o_refundB = 10800000,
      o_reveal = 1800000, o_finalityA = 600000, o_margin = 20, o_stall = 3600, o_lag = 0, o_block = 1000\<rparr>"
  by (simp add: demo_operands_def operands_of_def demo_leg_a_def demo_leg_b_def DEFAULT_POLICY_EXAMPLE_def
      max_safe_def)

lemma demo_exact: "exact_range demo_operands"
  by (simp add: exact_range_def demo_operands_eq max_safe_def)

lemma demo_check_passes:
  "dc_ok (checkSwapDeadlines (Leg demo_leg_a) (Leg demo_leg_b) (int_jsval 600000) (Policy DEFAULT_POLICY_EXAMPLE))"
proof (rule deadline_check_passes)
  show "leg_ok demo_leg_a 3600000 5400000" "leg_ok demo_leg_b 7200000 10800000" "policy_ok DEFAULT_POLICY_EXAMPLE"
    by (simp_all add: leg_ok_def policy_ok_def demo_leg_a_def demo_leg_b_def DEFAULT_POLICY_EXAMPLE_def
        positive_safe_def nonneg_safe_def max_safe_def)
  show "positive_safe (int_jsval 600000) \<noteq> None" by (simp add: positive_safe_def max_safe_def)
  show "exact_range (operands_of demo_leg_a demo_leg_b (int_jsval 600000) DEFAULT_POLICY_EXAMPLE)"
    using demo_exact by (simp add: demo_operands_def)
  have "rules_hold demo_operands"
    by (simp add: rules_hold_def demo_operands_eq blocks_up_def r10_2_minimum_def)
  then show "rules_hold (operands_of demo_leg_a demo_leg_b (int_jsval 600000) DEFAULT_POLICY_EXAMPLE)"
    by (simp add: demo_operands_def)
qed

text \<open>C5. For operands whose sums and margin product stay among the safe integers, the check over doubles accepts
  exactly the inputs that are well formed and satisfy rules 1 to 3 of the yellow paper over the
  integers: no rounding error and no intermediate throw changes a verdict.\<close>

theorem deadline_check_exact:
  assumes "exact_range (operands_of a b t p)"
  shows "dc_ok (checkSwapDeadlines (Leg a) (Leg b) t (Policy p)) \<longleftrightarrow>
    (\<exists>ca ra. leg_ok a ca ra) \<and> (\<exists>cb rb. leg_ok b cb rb) \<and> policy_ok p \<and> positive_safe t \<noteq> None
    \<and> rules_hold (operands_of a b t p)"
    (is "?l \<longleftrightarrow> ?r")
proof
  assume pass: ?l
  then obtain ca ra cb rb where k: "leg_ok a ca ra" "leg_ok b cb rb" "policy_ok p" "positive_safe t \<noteq> None"
    and r: "checkSwapDeadlines (Leg a) (Leg b) t (Policy p) = rules_of (operands_of a b t p)"
    by (auto elim: checkSwapDeadlines_rules)
  have "rules_hold (operands_of a b t p)"
    using pass rules_of_iff [OF operands_of_ok [OF k(4,1,2,3)] assms] by (simp add: r)
  with k show ?r by blast
next
  assume ?r
  then obtain ca ra cb rb where k: "leg_ok a ca ra" "leg_ok b cb rb" "policy_ok p"
    "positive_safe t \<noteq> None" "rules_hold (operands_of a b t p)" by blast
  then show ?l using assms deadline_check_passes by blast
qed

theorem deadline_check_exact_witness:
  "rules_hold demo_operands \<and> policy_ok DEFAULT_POLICY_EXAMPLE"
  using deadline_check_exact [OF demo_exact [unfolded demo_operands_def]] demo_check_passes
  by (simp add: demo_operands_def)

text \<open>C4. Atomicity ordering, for every input and without any bound on it: a pair of offers
  that passes the check orders the four deadlines as claim A, refund A, claim B, refund B, and
  leaves the reveal window between lock and refund A.\<close>

theorem deadline_check_orders_legs:
  assumes "dc_ok (checkSwapDeadlines legA legB t policy)"
  shows "\<exists>a b p lock ca ra cb rb w. legA = Leg a \<and> legB = Leg b \<and> policy = Policy p
    \<and> t = int_jsval lock \<and> d_claimByMs a = int_jsval ca \<and> d_refundAfterMs a = int_jsval ra
    \<and> d_claimByMs b = int_jsval cb \<and> d_refundAfterMs b = int_jsval rb
    \<and> minRevealWindowMs p = int_jsval w
    \<and> 0 < lock \<and> 0 \<le> w \<and> lock + w \<le> ra \<and> 0 < ca \<and> ca < ra \<and> ra \<le> cb \<and> cb < rb"
proof -
  from assms obtain a b p ca ra cb rb where k: "legA = Leg a" "legB = Leg b" "policy = Policy p"
    "leg_ok a ca ra" "leg_ok b cb rb" "policy_ok p" "positive_safe t \<noteq> None"
    and r: "checkSwapDeadlines legA legB t policy = rules_of (operands_of a b t p)"
    by (rule checkSwapDeadlines_rules)
  obtain lock w where lw: "positive_safe t = Some lock" "nonneg_safe (minRevealWindowMs p) = Some w"
    using k by (auto simp: policy_ok_def)
  have ord: "o_lock (operands_of a b t p) + o_reveal (operands_of a b t p) \<le> o_refundA (operands_of a b t p)"
    "o_refundA (operands_of a b t p) \<le> o_claimB (operands_of a b t p)"
    using rules_of_order [OF operands_of_ok [OF k(7,4,5,6)]] assms r by auto
  show ?thesis
    by (rule exI [of _ a], rule exI [of _ b], rule exI [of _ p], rule exI [of _ lock], rule exI [of _ ca],
        rule exI [of _ ra], rule exI [of _ cb], rule exI [of _ rb], rule exI [of _ w])
      (use k lw ord in \<open>auto simp: operands_of_def leg_ok_def positive_safe_Some nonneg_safe_Some\<close>)
qed

theorem deadline_check_orders_legs_witness:
  "\<exists>ca ra cb rb. d_claimByMs demo_leg_a = int_jsval ca \<and> d_refundAfterMs demo_leg_a = int_jsval ra
    \<and> d_claimByMs demo_leg_b = int_jsval cb \<and> d_refundAfterMs demo_leg_b = int_jsval rb
    \<and> ca < ra \<and> ra \<le> cb \<and> cb < rb"
  using deadline_check_orders_legs [OF demo_check_passes] by blast

text \<open>Rule 3 in wall-clock terms: with exact arithmetic, a passing check keeps the FLOP leg
  locked past leg A's refund by the finality margin and by the percentage margin, each up to
  less than one block.\<close>

theorem deadline_check_flop_margin:
  assumes "exact_range (operands_of a b t p)"
    and "dc_ok (checkSwapDeadlines (Leg a) (Leg b) t (Policy p))"
    and "os = operands_of a b t p"
  shows "o_refundA os + o_block os * (o_stall os + o_lag os) < o_refundB os + o_block os
    \<and> 100 * (o_refundA os - o_lock os) + (o_refundA os - o_lock os) * o_margin os
           < 100 * (o_refundB os - o_lock os + o_block os)"
proof -
  obtain ca ra cb rb where k: "leg_ok a ca ra" "leg_ok b cb rb" "policy_ok p" "positive_safe t \<noteq> None"
    and h: "rules_hold os"
    using assms unfolding deadline_check_exact [OF assms(1)] assms(3) by blast
  have ok: "operands_ok os" unfolding assms(3) by (rule operands_of_ok [OF k(4,1,2,3)])
  define tO where "tO = blocks_up (o_refundA os - o_lock os) (o_block os)"
  define tF where "tF = blocks_up (o_refundB os - o_lock os) (o_block os)"
  have b: "0 < o_block os" and m: "0 \<le> o_margin os" using ok by (simp_all add: operands_ok_def)
  have lo: "o_refundA os - o_lock os \<le> o_block os * tO" unfolding tO_def by (rule blocks_up_ge [OF b])
  have hi: "o_block os * tF < o_refundB os - o_lock os + o_block os"
    unfolding tF_def by (rule blocks_up_less [OF b])
  have min: "r10_2_minimum tO (o_margin os) (o_stall os) (o_lag os) \<le> tF"
    using h by (simp add: rules_hold_def tO_def tF_def)
  then have "tO + (o_stall os + o_lag os) \<le> tF" by (auto simp: r10_2_minimum_def)
  then have "o_block os * (tO + (o_stall os + o_lag os)) \<le> o_block os * tF"
    using b by simp
  with lo hi have stall: "o_refundA os + o_block os * (o_stall os + o_lag os) < o_refundB os + o_block os"
    by (simp add: distrib_left)
  define c where "c = \<lceil>(of_int (tO * o_margin os) / 100 :: rat)\<rceil>"
  have "tO + c \<le> tF"
    using min by (simp add: r10_2_minimum_def c_def max_def split: if_splits)
  moreover have "tO * o_margin os \<le> 100 * c"
  proof -
    have "(of_int (tO * o_margin os) / 100 :: rat) \<le> of_int c" unfolding c_def by linarith
    then have "(of_int (tO * o_margin os) :: rat) \<le> of_int (100 * c)" by (simp only: of_int_mult)
    then show ?thesis by (simp only: of_int_le_iff)
  qed
  ultimately have "100 * tO + tO * o_margin os \<le> 100 * tF" by linarith
  then have "tO * (100 + o_margin os) \<le> 100 * tF" by (simp add: algebra_simps)
  then have "o_block os * (tO * (100 + o_margin os)) \<le> o_block os * (100 * tF)"
    using b by (simp only: mult_le_cancel_left_pos)
  moreover have "(o_refundA os - o_lock os) * (100 + o_margin os) \<le> (o_block os * tO) * (100 + o_margin os)"
    using lo m by (intro mult_right_mono) auto
  ultimately have "100 * (o_refundA os - o_lock os) + (o_refundA os - o_lock os) * o_margin os
           < 100 * (o_refundB os - o_lock os + o_block os)"
    using hi by (simp add: algebra_simps)
  with stall show ?thesis ..
qed

theorem deadline_check_flop_margin_witness:
  "o_refundA demo_operands + o_block demo_operands * (o_stall demo_operands + o_lag demo_operands)
     < o_refundB demo_operands + o_block demo_operands"
  using deadline_check_flop_margin [OF demo_exact [unfolded demo_operands_def] demo_check_passes
      demo_operands_def]
  by blast

end
