(* ===== verification/Desk_Bytes.thy ===== *)
theory Desk_Bytes
  imports Desk_Prelude "HOL-Library.Word"
begin

text \<open>
  Byte arrays (\<open>Uint8Array\<close>, \<open>Buffer\<close>) as lists of 8-bit words, the
  conversions between text and bytes, and fixed-width little-endian integers. The interface
  \<open>prefix_code\<close> says that an encoder's outputs can be told apart even when more bytes
  follow; the record encoders are built from such codes, and what is built from them is one.
\<close>

type_synonym bytes = "8 word list"

section \<open>Text and bytes\<close>

text \<open>\<open>latin1\<close>: one byte per character.\<close>

definition char_byte :: "char \<Rightarrow> 8 word" where
  "char_byte c = word_of_nat (of_char c)"

definition byte_char :: "8 word \<Rightarrow> char" where
  "byte_char b = char_of (unat b)"

definition to_latin1 :: "string \<Rightarrow> bytes" where
  "to_latin1 s = map char_byte s"

definition of_latin1 :: "bytes \<Rightarrow> string" where
  "of_latin1 bs = map byte_char bs"

lemma byte_char_char_byte [simp]: "byte_char (char_byte c) = c"
proof -
  have "(of_char c :: nat) < 256" by simp
  then have "unat (word_of_nat (of_char c) :: 8 word) = of_char c"
    by (simp add: unat_of_nat)
  then show ?thesis by (simp add: byte_char_def char_byte_def)
qed

lemma byte_less_256 [simp]: "unat (b :: 8 word) < 256"
  using unsigned_less [of b] by simp

lemma char_byte_byte_char [simp]: "char_byte (byte_char b) = b"
  by (simp add: byte_char_def char_byte_def)

lemma of_to_latin1 [simp]: "of_latin1 (to_latin1 s) = s"
  by (simp add: of_latin1_def to_latin1_def o_def)

lemma to_of_latin1 [simp]: "to_latin1 (of_latin1 bs) = bs"
  by (simp add: of_latin1_def to_latin1_def o_def)

lemma to_latin1_inject [simp]: "to_latin1 s = to_latin1 t \<longleftrightarrow> s = t"
  by (metis of_to_latin1)

lemma to_latin1_append [simp]: "to_latin1 (s @ t) = to_latin1 s @ to_latin1 t"
  by (simp add: to_latin1_def)

lemma length_to_latin1 [simp]: "length (to_latin1 s) = length s"
  by (simp add: to_latin1_def)

lemma of_latin1_append [simp]: "of_latin1 (a @ b) = of_latin1 a @ of_latin1 b"
  by (simp add: of_latin1_def)

text \<open>\<open>TextEncoder\<close> on characters of 8 bits: a character above 127 takes two
  bytes.\<close>

definition utf8_char :: "char \<Rightarrow> bytes" where
  "utf8_char c =
     (let n = of_char c :: nat
      in if n < 128 then [word_of_nat n] else [word_of_nat (192 + n div 64), word_of_nat (128 + n mod 64)])"

definition utf8 :: "string \<Rightarrow> bytes" where
  "utf8 s = concat (map utf8_char s)"

text \<open>A fatal \<open>TextDecoder\<close> on the encodings of such characters; \<open>None\<close> is
  its exception, and here also any text with a character beyond 8 bits.\<close>

fun of_utf8 :: "bytes \<Rightarrow> string option" where
  "of_utf8 [] = Some []"
| "of_utf8 (a # bs) =
     (if unat a < 128 then map_option (Cons (char_of (unat a))) (of_utf8 bs)
      else (case bs of
              [] \<Rightarrow> None
            | b # rest \<Rightarrow>
                if (unat a = 194 \<or> unat a = 195) \<and> 128 \<le> unat b \<and> unat b < 192
                then map_option (Cons (char_of ((unat a - 192) * 64 + (unat b - 128)))) (of_utf8 rest)
                else None))"

lemma unat_byte [simp]: "n < 256 \<Longrightarrow> unat (word_of_nat n :: 8 word) = n"
  by (simp add: unat_of_nat)

lemma of_utf8_char: "of_utf8 (utf8_char c @ bs) = map_option (Cons c) (of_utf8 bs)"
proof (cases "(of_char c :: nat) < 128")
  case True
  then show ?thesis by (simp add: utf8_char_def)
next
  case False
  define n where "n = (of_char c :: nat)"
  have n: "128 \<le> n" "n < 256" using False by (simp_all add: n_def)
  have d: "n div 64 = 2 \<or> n div 64 = 3" using n by linarith
  have m: "n mod 64 < 64" by simp
  have v: "(192 + n div 64 - 192) * 64 + (128 + n mod 64 - 128) = n" by simp
  have "utf8_char c = [word_of_nat (192 + n div 64), word_of_nat (128 + n mod 64)]"
    using n by (simp add: utf8_char_def n_def [symmetric] Let_def)
  moreover have "unat (word_of_nat (192 + n div 64) :: 8 word) = 192 + n div 64"
    "unat (word_of_nat (128 + n mod 64) :: 8 word) = 128 + n mod 64"
    using d m by (auto simp del: of_nat_add)
  moreover have "char_of n = c" by (simp add: n_def)
  ultimately show ?thesis using d m v by (simp add: del: of_nat_add)
qed

lemma of_utf8_utf8 [simp]: "of_utf8 (utf8 s) = Some s"
proof (induction s)
  case Nil
  show ?case by (simp add: utf8_def)
next
  case (Cons c s)
  have "utf8 (c # s) = utf8_char c @ utf8 s" by (simp add: utf8_def)
  then show ?case using Cons by (simp add: of_utf8_char)
qed

lemma utf8_inject [simp]: "utf8 s = utf8 t \<longleftrightarrow> s = t"
  by (metis of_utf8_utf8 option.inject)

text \<open>A fatal \<open>TextDecoder\<close> drops a byte order mark.\<close>

definition decode_text :: "bytes \<Rightarrow> string option" where
  "decode_text bs = of_utf8 (if take 3 bs = [0xEF, 0xBB, 0xBF] then drop 3 bs else bs)"

lemma utf8_first: "take 1 (utf8 (c # s)) \<noteq> [0xEF]"
proof (cases "of_char c < (128 :: nat)")
  case True
  have "word_of_nat (of_char c) \<noteq> (0xEF :: 8 word)"
  proof
    assume "word_of_nat (of_char c) = (0xEF :: 8 word)"
    then have "unat (word_of_nat (of_char c) :: 8 word) = unat (0xEF :: 8 word)" by simp
    then show False using True by simp
  qed
  then show ?thesis using True by (simp add: utf8_def utf8_char_def)
next
  case False
  define n where "n = (of_char c :: nat)"
  have "n mod 256 = n" by (simp add: n_def)
  then have "n < 256" by (metis mod_less_divisor zero_less_numeral)
  then have n: "192 + n div 64 < 196" by simp
  have "word_of_nat (192 + n div 64) \<noteq> (0xEF :: 8 word)"
  proof
    assume eq: "word_of_nat (192 + n div 64) = (0xEF :: 8 word)"
    have u: "unat (word_of_nat (192 + n div 64) :: 8 word) = 192 + n div 64"
      by (rule unat_byte) (use n in simp)
    show False using arg_cong [OF eq, of unat] n unfolding u by simp
  qed
  then show ?thesis using False by (simp add: utf8_def utf8_char_def n_def [symmetric] Let_def)
qed

lemma decode_utf8 [simp]: "decode_text (utf8 s) = Some s"
proof (cases s)
  case Nil
  then show ?thesis by (simp add: decode_text_def utf8_def)
next
  case (Cons c t)
  have "take 3 (utf8 s) \<noteq> [0xEF, 0xBB, 0xBF]"
  proof
    assume "take 3 (utf8 s) = [0xEF, 0xBB, 0xBF]"
    then have "take 1 (take 3 (utf8 s)) = [0xEF]" by simp
    then show False using utf8_first [of c t] Cons by simp
  qed
  then show ?thesis by (simp add: decode_text_def)
qed

section \<open>Little-endian integers\<close>

fun le_bytes :: "nat \<Rightarrow> nat \<Rightarrow> bytes" where
  "le_bytes 0 n = []"
| "le_bytes (Suc k) n = word_of_nat (n mod 256) # le_bytes k (n div 256)"

fun le_value :: "bytes \<Rightarrow> nat" where
  "le_value [] = 0"
| "le_value (b # bs) = unat b + 256 * le_value bs"

lemma length_le_bytes [simp]: "length (le_bytes k n) = k"
  by (induction k arbitrary: n) simp_all

lemma le_value_bytes [simp]: "n < 256 ^ k \<Longrightarrow> le_value (le_bytes k n) = n"
proof (induction k arbitrary: n)
  case 0
  then show ?case by simp
next
  case (Suc k)
  have "n div 256 < 256 ^ k" using Suc.prems by (simp add: less_mult_imp_div_less mult.commute)
  then show ?case using Suc.IH by simp
qed

lemma le_value_bound: "le_value bs < 256 ^ length bs"
proof (induction bs)
  case Nil
  then show ?case by simp
next
  case (Cons b bs)
  have "unat b < 256" by simp
  then show ?case using Cons by (simp del: byte_less_256)
qed

lemma le_bytes_value [simp]: "le_bytes (length bs) (le_value bs) = bs"
proof (induction bs)
  case Nil
  then show ?case by simp
next
  case (Cons b bs)
  have "unat b < 256" by simp
  then show ?case using Cons by (simp del: byte_less_256)
qed

lemma le_bytes_inject: "m < 256 ^ k \<Longrightarrow> n < 256 ^ k \<Longrightarrow> le_bytes k m = le_bytes k n \<Longrightarrow> m = n"
  by (metis le_value_bytes)

section \<open>Codes that can be followed by more bytes\<close>

locale prefix_code =
  fixes enc :: "'a \<Rightarrow> ('e, bytes) result"
  assumes determined: "enc x = Inr a \<Longrightarrow> enc y = Inr b \<Longrightarrow> a @ r = b @ s \<Longrightarrow> x = y \<and> r = s"
begin

lemma code_inject: "enc x = Inr a \<Longrightarrow> enc y = Inr a \<Longrightarrow> x = y"
  using determined [where r = "[]" and s = "[]"] by simp

lemma code_rest: "enc x = Inr a \<Longrightarrow> enc y = Inr b \<Longrightarrow> a @ r = b @ s \<Longrightarrow> r = s"
  using determined by blast

end

text \<open>Encoding the elements of a list one after the other, the first refusal first.\<close>

fun enc_all :: "('a \<Rightarrow> ('e, bytes) result) \<Rightarrow> 'a list \<Rightarrow> ('e, bytes) result" where
  "enc_all enc [] = Inr []"
| "enc_all enc (x # xs) = bind_res (enc x) (\<lambda>a. bind_res (enc_all enc xs) (\<lambda>b. Inr (a @ b)))"

context prefix_code
begin

lemma enc_all_determined:
  assumes "enc_all enc xs = Inr a" "enc_all enc ys = Inr b" "length xs = length ys" "a @ r = b @ s"
  shows "xs = ys \<and> r = s"
  using assms
proof (induction xs ys arbitrary: a b rule: list_induct2')
  case (4 x xs y ys)
  obtain a1 a2 where a: "enc x = Inr a1" "enc_all enc xs = Inr a2" "a = a1 @ a2"
    using "4.prems"(1) by (auto simp: result_simps)
  obtain b1 b2 where b: "enc y = Inr b1" "enc_all enc ys = Inr b2" "b = b1 @ b2"
    using "4.prems"(2) by (auto simp: result_simps)
  have "x = y \<and> a2 @ r = b2 @ s"
    using determined [OF a(1) b(1)] "4.prems"(4) a(3) b(3) by simp
  with "4.IH" [OF a(2) b(2)] "4.prems"(3) show ?case by simp
qed simp_all

end

end
