(* ===== verification/Btc_Script.thy ===== *)
theory Btc_Script
  imports Js_Numbers Desk_Bytes
begin

text \<open>
  \<open>src/rails/btc-script.ts\<close>: the Bitcoin HTLC script builder, the claim and refund PSBT
  builders, the size bound of a spend and the byte comparison. The encoders of
  \<open>@scure/btc-signer\<close> are the fields of the record \<open>btc_lib\<close>; a function of
  it that can throw returns an option. What a builder hands to the library is a record, so a theorem
  can speak about the transaction that is encoded.
\<close>

unbundle bit_operations_syntax

section \<open>Constants\<close>

definition BIP65_THRESHOLD :: int where
  "BIP65_THRESHOLD = 500000000"

definition MAX_LOCKTIME :: int where
  "MAX_LOCKTIME = 0x7fffffff"

record btc_network =
  net_bech32 :: string
  net_pubKeyHash :: int
  net_scriptHash :: int
  net_wif :: int

definition BTC_REGTEST_NETWORK :: btc_network where
  "BTC_REGTEST_NETWORK = \<lparr>net_bech32 = ''bcrt'', net_pubKeyHash = 111, net_scriptHash = 196, net_wif = 239\<rparr>"

definition BTC_SIGNET_NETWORK :: btc_network where
  "BTC_SIGNET_NETWORK = \<lparr>net_bech32 = ''tb'', net_pubKeyHash = 111, net_scriptHash = 196, net_wif = 239\<rparr>"

definition COMPRESSED_PUBKEY_LENGTH :: nat where
  "COMPRESSED_PUBKEY_LENGTH = 33"

definition HASH_LENGTH :: nat where
  "HASH_LENGTH = 32"

datatype btc_error =
    NotCompressedPubkey string
  | RefundAfterNotInteger
  | RefundAfterNotSeconds
  | LocktimeNotAbove int
  | LocktimeTooLarge int
  | HashLockLength
  | LocktimeOutOfRange
  | PreimageLength
  | FeeNotPositive
  | FeeNotBelowAmount
  | BadAddress string
  | WitnessScriptLengthBad
  | DestinationScriptLengthBad
  | LibraryThrew

section \<open>Transactions as the library gets them\<close>

datatype script_item = Push bytes | Op string | ScriptNum int

record bip32_derivation =
  bd_fingerprint :: int
  bd_path :: "int list"

record funding_utxo =
  utxo_txid :: string
  utxo_vout :: int
  utxo_script :: bytes
  utxo_amountSats :: int

record tx_input =
  in_txid :: string
  in_index :: int
  in_witnessUtxo :: "int \<times> bytes"
  in_witnessScript :: bytes
  in_bip32Derivation :: "(bytes \<times> bip32_derivation) list"
  in_sha256 :: "(bytes \<times> bytes) list"
  in_sequence :: int

record tx_request =
  tx_version :: int
  tx_lockTime :: int
  tx_inputs :: "tx_input list"
  tx_outputs :: "(bytes \<times> int) list"

record btc_lib =
  script_encode :: "script_item list \<Rightarrow> bytes"
  p2wsh :: "bytes \<Rightarrow> btc_network \<Rightarrow> bytes \<times> string"
  address_script :: "string \<Rightarrow> btc_network \<Rightarrow> bytes option"
  to_psbt :: "tx_request \<Rightarrow> bytes option"

text \<open>
  Documented behaviour of the script encoder, for the items this build passes it: an opcode is one
  byte, a push of at most 75 bytes has a one-byte prefix, a number from 1 to 16 is an opcode and a
  larger positive number is a push of its minimal script number, which has a spare sign bit.
\<close>

function script_num_bytes :: "nat \<Rightarrow> nat" where
  "script_num_bytes n = (if n < 128 then 1 else Suc (script_num_bytes (n div 256)))"
  by pat_completeness auto
termination by (relation "measure id") auto

declare script_num_bytes.simps [simp del]

fun item_bytes :: "script_item \<Rightarrow> nat" where
  "item_bytes (Push bs) = 1 + length bs"
| "item_bytes (Op name) = 1"
| "item_bytes (ScriptNum n) = (if 1 \<le> n \<and> n \<le> 16 then 1 else 1 + script_num_bytes (nat n))"

definition item_usual :: "script_item \<Rightarrow> bool" where
  "item_usual i \<longleftrightarrow> (case i of Push bs \<Rightarrow> length bs \<le> 75 | Op name \<Rightarrow> True | ScriptNum n \<Rightarrow> 0 < n)"

definition script_encode_ok :: "btc_lib \<Rightarrow> bool" where
  "script_encode_ok B \<longleftrightarrow>
     (\<forall>items. list_all item_usual items \<longrightarrow> length (script_encode B items) = sum_list (map item_bytes items))"

section \<open>The locktime\<close>

definition assertCompressedPubkey :: "string \<Rightarrow> bytes \<Rightarrow> (btc_error, unit) result" where
  "assertCompressedPubkey label pubkey =
     throw_if (length pubkey \<noteq> COMPRESSED_PUBKEY_LENGTH \<or> (hd pubkey \<noteq> 0x02 \<and> hd pubkey \<noteq> 0x03))
       (NotCompressedPubkey label)"

text \<open>\<open>%\<close> on doubles is the exact remainder of the truncated quotient, with the sign of
  the dividend.\<close>

definition js_trunc :: "rat \<Rightarrow> int" where
  "js_trunc x = (if 0 \<le> x then \<lfloor>x\<rfloor> else \<lceil>x\<rceil>)"

definition js_rem :: "rat \<Rightarrow> rat \<Rightarrow> rat" where
  "js_rem x y = x - y * of_int (js_trunc (x / y))"

definition locktimeFromRefundAfterMs :: "jsnum \<Rightarrow> (btc_error, int) result" where
  "locktimeFromRefundAfterMs refundAfterMs =
     (case jsnum_int refundAfterMs of
        None \<Rightarrow> Inl RefundAfterNotInteger
      | Some ms \<Rightarrow>
          if js_rem (of_int ms) 1000 \<noteq> 0 then Inl RefundAfterNotSeconds
          else (let t = \<lfloor>js_div (of_int ms) 1000\<rfloor>
                in if \<not> BIP65_THRESHOLD < t then Inl (LocktimeNotAbove t)
                   else if MAX_LOCKTIME < t then Inl (LocktimeTooLarge t)
                   else Inr t))"

section \<open>The script\<close>

record htlc_params =
  hp_hashLock :: bytes
  hp_payeePubkey :: bytes
  hp_payerPubkey :: bytes
  hp_locktime :: jsnum

record htlc_script =
  hs_witnessScript :: bytes
  hs_scriptPubKey :: bytes
  hs_address :: string
  hs_locktime :: int

text \<open>The locktime guard the script builder and the refund builder share.\<close>

definition valid_locktime :: "jsnum \<Rightarrow> int option" where
  "valid_locktime x =
     (case jsnum_int x of
        None \<Rightarrow> None
      | Some t \<Rightarrow> if \<not> BIP65_THRESHOLD < t \<or> MAX_LOCKTIME < t then None else Some t)"

definition htlc_items :: "bytes \<Rightarrow> bytes \<Rightarrow> bytes \<Rightarrow> int \<Rightarrow> script_item list" where
  "htlc_items payee payer hashLock locktime =
     [Push payee, Op ''CHECKSIG'', Op ''NOTIF'', Push payer, Op ''CHECKSIGVERIFY'', ScriptNum locktime,
      Op ''CHECKLOCKTIMEVERIFY'', Op ''ELSE'', Op ''SIZE'', ScriptNum 32, Op ''EQUALVERIFY'', Op ''SHA256'',
      Push hashLock, Op ''EQUAL'', Op ''ENDIF'']"

definition buildHtlcScript :: "btc_lib \<Rightarrow> htlc_params \<Rightarrow> btc_network \<Rightarrow> (btc_error, htlc_script) result" where
  "buildHtlcScript B p network =
     bind_res (assertCompressedPubkey ''payeePubkey'' (hp_payeePubkey p)) (\<lambda>_.
     bind_res (assertCompressedPubkey ''payerPubkey'' (hp_payerPubkey p)) (\<lambda>_.
     bind_res (throw_if (length (hp_hashLock p) \<noteq> HASH_LENGTH) HashLockLength) (\<lambda>_.
     bind_res (or_throw (valid_locktime (hp_locktime p)) LocktimeOutOfRange) (\<lambda>t.
       let witnessScript = script_encode B (htlc_items (hp_payeePubkey p) (hp_payerPubkey p) (hp_hashLock p) t);
           (script, address) = p2wsh B witnessScript network
       in Inr \<lparr>hs_witnessScript = witnessScript, hs_scriptPubKey = script, hs_address = address,
               hs_locktime = t\<rparr>))))"

definition scriptPubKeyForAddress :: "btc_lib \<Rightarrow> string \<Rightarrow> btc_network \<Rightarrow> (btc_error, bytes) result" where
  "scriptPubKeyForAddress B address network = or_throw (address_script B address network) (BadAddress address)"

section \<open>The spending transactions\<close>

record claim_params =
  cp_utxo :: funding_utxo
  cp_witnessScript :: bytes
  cp_hashLock :: bytes
  cp_preimage :: bytes
  cp_payeePubkey :: bytes
  cp_payeeDerivation :: bip32_derivation
  cp_destination :: bytes
  cp_feeSats :: int

record refund_params =
  rf_utxo :: funding_utxo
  rf_witnessScript :: bytes
  rf_locktime :: jsnum
  rf_payerPubkey :: bytes
  rf_payerDerivation :: bip32_derivation
  rf_destination :: bytes
  rf_feeSats :: int

definition fee_guards :: "int \<Rightarrow> funding_utxo \<Rightarrow> (btc_error, unit) result" where
  "fee_guards feeSats utxo =
     bind_res (throw_if (feeSats \<le> 0) FeeNotPositive) (\<lambda>_.
       throw_if (utxo_amountSats utxo \<le> feeSats) FeeNotBelowAmount)"

definition spend_tx ::
    "funding_utxo \<Rightarrow> int \<Rightarrow> bytes \<Rightarrow> bytes \<times> bip32_derivation \<Rightarrow> (bytes \<times> bytes) list \<Rightarrow> bytes \<Rightarrow> int \<Rightarrow> tx_request" where
  "spend_tx utxo lockTime witnessScript derivation preimages destination feeSats =
     \<lparr>tx_version = 2, tx_lockTime = lockTime,
      tx_inputs =
        [\<lparr>in_txid = utxo_txid utxo, in_index = utxo_vout utxo,
          in_witnessUtxo = (utxo_amountSats utxo, utxo_script utxo), in_witnessScript = witnessScript,
          in_bip32Derivation = [derivation], in_sha256 = preimages, in_sequence = 0xfffffffe\<rparr>],
      tx_outputs = [(destination, utxo_amountSats utxo - feeSats)]\<rparr>"

definition claim_tx :: "claim_params \<Rightarrow> tx_request" where
  "claim_tx p =
     spend_tx (cp_utxo p) 0 (cp_witnessScript p) (cp_payeePubkey p, cp_payeeDerivation p)
       [(cp_hashLock p, cp_preimage p)] (cp_destination p) (cp_feeSats p)"

definition refund_tx :: "refund_params \<Rightarrow> int \<Rightarrow> tx_request" where
  "refund_tx p t =
     spend_tx (rf_utxo p) t (rf_witnessScript p) (rf_payerPubkey p, rf_payerDerivation p)
       [] (rf_destination p) (rf_feeSats p)"

definition buildClaimPsbt :: "btc_lib \<Rightarrow> claim_params \<Rightarrow> (btc_error, bytes) result" where
  "buildClaimPsbt B p =
     bind_res (assertCompressedPubkey ''payeePubkey'' (cp_payeePubkey p)) (\<lambda>_.
     bind_res (throw_if (length (cp_preimage p) \<noteq> HASH_LENGTH) PreimageLength) (\<lambda>_.
     bind_res (throw_if (length (cp_hashLock p) \<noteq> HASH_LENGTH) HashLockLength) (\<lambda>_.
     bind_res (fee_guards (cp_feeSats p) (cp_utxo p)) (\<lambda>_.
       or_throw (to_psbt B (claim_tx p)) LibraryThrew))))"

definition buildRefundPsbt :: "btc_lib \<Rightarrow> refund_params \<Rightarrow> (btc_error, bytes) result" where
  "buildRefundPsbt B p =
     bind_res (assertCompressedPubkey ''payerPubkey'' (rf_payerPubkey p)) (\<lambda>_.
     bind_res (or_throw (valid_locktime (rf_locktime p)) LocktimeOutOfRange) (\<lambda>t.
     bind_res (fee_guards (rf_feeSats p) (rf_utxo p)) (\<lambda>_.
       or_throw (to_psbt B (refund_tx p t)) LibraryThrew)))"

section \<open>The size of a spend\<close>

datatype spend_branch = Claim | Refund

definition MAX_WITNESS_SIGNATURE_BYTES :: int where
  "MAX_WITNESS_SIGNATURE_BYTES = 73"

definition compactSizeBytes :: "int \<Rightarrow> int" where
  "compactSizeBytes n = (if n < 0xfd then 1 else if n \<le> 0xffff then 3 else 5)"

definition witness_item_bytes :: "int \<Rightarrow> int" where
  "witness_item_bytes n = compactSizeBytes n + n"

definition witness_items :: "spend_branch \<Rightarrow> int list" where
  "witness_items branch =
     (case branch of Claim \<Rightarrow> [int HASH_LENGTH, MAX_WITNESS_SIGNATURE_BYTES] | Refund \<Rightarrow> [MAX_WITNESS_SIGNATURE_BYTES, 0])"

text \<open>The sums are of safe integers and far below the safe bound for every script this build
  makes, so they are sums of integers here; only the argument checks see other numbers.\<close>

definition htlcSpendVsizeBound :: "spend_branch \<Rightarrow> jsnum \<Rightarrow> jsnum \<Rightarrow> (btc_error, int) result" where
  "htlcSpendVsizeBound branch witnessScriptLength destinationScriptLength =
     (case safe_int_of (Num witnessScriptLength) of
        None \<Rightarrow> Inl WitnessScriptLengthBad
      | Some w \<Rightarrow>
          if w \<le> 0 then Inl WitnessScriptLengthBad
          else (case safe_int_of (Num destinationScriptLength) of
                  None \<Rightarrow> Inl DestinationScriptLengthBad
                | Some d \<Rightarrow>
                    if d \<le> 0 then Inl DestinationScriptLengthBad
                    else (let baseBytes = 4 + 1 + (32 + 4 + 1 + 4) + 1 + (8 + compactSizeBytes d + d) + 4;
                              items = witness_items branch;
                              witnessBytes = compactSizeBytes (int (length items) + 1)
                                + sum_list (map witness_item_bytes items) + witness_item_bytes w
                          in Inr \<lceil>(of_int (4 * baseBytes + 2 + witnessBytes) / 4 :: rat)\<rceil>)))"

section \<open>Comparing bytes\<close>

fun diff_bytes :: "8 word \<Rightarrow> bytes \<Rightarrow> bytes \<Rightarrow> 8 word" where
  "diff_bytes diff (a # as) (b # bs) = diff_bytes (diff OR (a XOR b)) as bs"
| "diff_bytes diff as bs = diff"

definition bytesEqual :: "bytes \<Rightarrow> bytes \<Rightarrow> bool" where
  "bytesEqual a b = (if length a \<noteq> length b then False else diff_bytes 0 a b = 0)"

section \<open>Lemmas\<close>

lemma js_rem_int_zero: "js_rem (of_int ms) 1000 = 0 \<longleftrightarrow> 1000 dvd ms"
proof
  assume "js_rem (of_int ms) 1000 = 0"
  then have "(of_int ms :: rat) = of_int (1000 * js_trunc (of_int ms / 1000))"
    by (simp add: js_rem_def)
  then have "ms = 1000 * js_trunc (of_int ms / 1000)" by (simp only: of_int_eq_iff)
  then show "1000 dvd ms" by (rule dvdI)
next
  assume "1000 dvd ms"
  then obtain k where "ms = 1000 * k" by (rule dvdE)
  then show "js_rem (of_int ms) 1000 = 0" by (simp add: js_rem_def js_trunc_def)
qed

text \<open>Dividing a whole number of thousands is exact below the safe bound and stays out of the
  locktime range above it.\<close>

lemma fl_locktime:
  "BIP65_THRESHOLD < \<lfloor>fl (of_int k)\<rfloor> \<and> \<lfloor>fl (of_int k)\<rfloor> \<le> MAX_LOCKTIME
     \<longleftrightarrow> BIP65_THRESHOLD < k \<and> k \<le> MAX_LOCKTIME"
proof (cases "\<bar>k\<bar> \<le> max_safe")
  case True
  then show ?thesis by (simp add: fl_of_int)
next
  case False
  have "\<bar>of_int k\<bar> / 2 ^ 53 \<le> (\<bar>of_int k\<bar> / 2 :: rat)" by simp
  with fl_error have "\<bar>fl (of_int k) - of_int k\<bar> \<le> \<bar>of_int k\<bar> / 2" by (rule order_trans)
  then have e: "fl (of_int k) - of_int k \<le> \<bar>of_int k\<bar> / 2" "of_int k - fl (of_int k) \<le> \<bar>of_int k\<bar> / 2"
    by (simp_all only: abs_le_iff minus_diff_eq)
  show ?thesis
  proof (cases "0 \<le> k")
    case True
    then have "\<bar>of_int k\<bar> = (of_int k :: rat)" by simp
    with e have "of_int k / 2 \<le> fl (of_int k)" by linarith
    moreover have "(of_int (2 * (MAX_LOCKTIME + 1)) :: rat) \<le> of_int k"
      using False True by (simp only: of_int_le_iff) (simp add: max_safe_def MAX_LOCKTIME_def)
    ultimately have "(of_int (MAX_LOCKTIME + 1) :: rat) \<le> fl (of_int k)" by simp
    then have "MAX_LOCKTIME + 1 \<le> \<lfloor>fl (of_int k)\<rfloor>" by (simp only: le_floor_iff)
    moreover have "MAX_LOCKTIME < k" using False True by (simp add: max_safe_def MAX_LOCKTIME_def)
    ultimately show ?thesis by linarith
  next
    case neg: False
    then have "\<bar>of_int k\<bar> = - (of_int k :: rat)" "(of_int k :: rat) < 0" by simp_all
    with e have "fl (of_int k) \<le> 0" by linarith
    then have "\<lfloor>fl (of_int k)\<rfloor> \<le> 0" by simp
    then show ?thesis using neg by (simp add: BIP65_THRESHOLD_def)
  qed
qed

lemma js_div_1000 [simp]: "js_div (1000 * of_int k) 1000 = fl (of_int k)"
  by (simp add: js_div_def)

lemma js_rem_1000 [simp]: "js_rem (1000 * of_int k) 1000 = 0"
  using js_rem_int_zero [of "1000 * k"] by simp

lemma floor_fl_locktime: "BIP65_THRESHOLD < k \<Longrightarrow> k \<le> MAX_LOCKTIME \<Longrightarrow> \<lfloor>fl (of_int k)\<rfloor> = k"
  by (simp add: fl_of_int BIP65_THRESHOLD_def MAX_LOCKTIME_def max_safe_def)

lemma locktime_of_seconds:
  "BIP65_THRESHOLD < t \<Longrightarrow> t \<le> MAX_LOCKTIME \<Longrightarrow> locktimeFromRefundAfterMs (int_jsnum (1000 * t)) = Inr t"
  by (simp add: locktimeFromRefundAfterMs_def floor_fl_locktime)

lemma valid_locktime_Some:
  "valid_locktime x = Some t \<longleftrightarrow> x = int_jsnum t \<and> BIP65_THRESHOLD < t \<and> t \<le> MAX_LOCKTIME"
  by (auto simp: valid_locktime_def jsnum_int_Some split: option.splits if_splits)

lemma script_num_bytes_locktime:
  assumes "BIP65_THRESHOLD < t" "t \<le> MAX_LOCKTIME"
  shows "script_num_bytes (nat t) = 4"
proof -
  have n: "500000000 < nat t" "nat t \<le> 2147483647"
    using assms by (simp_all add: BIP65_THRESHOLD_def MAX_LOCKTIME_def)
  have step: "script_num_bytes m = Suc (script_num_bytes (m div 256))" if "128 \<le> m" for m
    using that by (simp add: script_num_bytes.simps [of m])
  have last: "script_num_bytes m = 1" if "m < 128" for m
    using that by (simp add: script_num_bytes.simps [of m])
  have d: "nat t div 256 div 256 div 256 < 128" "128 \<le> nat t div 256 div 256" "128 \<le> nat t div 256"
    using n by (simp_all flip: div_mult2_eq)
  show ?thesis
    using n step [of "nat t"] step [OF d(3)] step [OF d(2)] last [OF d(1)] by simp
qed

lemma buildHtlcScript_Inr:
  assumes "buildHtlcScript B p network = Inr s"
  obtains "length (hp_payeePubkey p) = 33" "length (hp_payerPubkey p) = 33" "length (hp_hashLock p) = 32"
    "hp_locktime p = int_jsnum (hs_locktime s)" "BIP65_THRESHOLD < hs_locktime s" "hs_locktime s \<le> MAX_LOCKTIME"
    "hs_witnessScript s = script_encode B
       (htlc_items (hp_payeePubkey p) (hp_payerPubkey p) (hp_hashLock p) (hs_locktime s))"
    "(hs_scriptPubKey s, hs_address s) = p2wsh B (hs_witnessScript s) network"
  using assms
  by (auto simp: buildHtlcScript_def assertCompressedPubkey_def COMPRESSED_PUBKEY_LENGTH_def HASH_LENGTH_def
      result_simps valid_locktime_Some Let_def split_beta)

lemma htlc_items_bytes:
  assumes "length payee = 33" "length payer = 33" "length hashLock = 32"
    and "BIP65_THRESHOLD < t" "t \<le> MAX_LOCKTIME"
  shows "list_all item_usual (htlc_items payee payer hashLock t)"
    "sum_list (map item_bytes (htlc_items payee payer hashLock t)) = 118"
  using assms script_num_bytes_locktime [OF assms(4,5)]
  by (simp_all add: htlc_items_def item_usual_def BIP65_THRESHOLD_def script_num_bytes.simps [of 32])

lemma diff_bytes_zero:
  "length a = length b \<Longrightarrow> diff_bytes d a b = 0 \<longleftrightarrow> d = 0 \<and> a = b"
proof (induction d a b rule: diff_bytes.induct)
  case (1 d a as b bs)
  have "d OR (a XOR b) = 0 \<longleftrightarrow> d = 0 \<and> a = b"
    by (metis bit.disj_zero_right or_eq_0_iff xor_self_eq word_bw_assocs(3) xor.right_neutral)
  with 1 show ?case by auto
qed auto

section \<open>Properties\<close>

text \<open>A refund time becomes a locktime exactly when it is a whole number of seconds strictly
  above the height threshold and within the range a wallet can sign for, and the locktime is that
  number of seconds; no rounding of the division admits or moves one.\<close>

theorem locktime_exact:
  "locktimeFromRefundAfterMs x = Inr t \<longleftrightarrow>
     x = int_jsnum (1000 * t) \<and> BIP65_THRESHOLD < t \<and> t \<le> MAX_LOCKTIME"
proof (cases "jsnum_int x")
  case None
  then show ?thesis using jsnum_int_Some [of x "1000 * t"] by (auto simp: locktimeFromRefundAfterMs_def)
next
  case (Some ms)
  then have x: "x = int_jsnum ms" by (simp add: jsnum_int_Some)
  show ?thesis
  proof (cases "1000 dvd ms")
    case False
    then show ?thesis using Some x by (auto simp: locktimeFromRefundAfterMs_def js_rem_int_zero)
  next
    case True
    then obtain k where k: "ms = 1000 * k" by (rule dvdE)
    have "locktimeFromRefundAfterMs x = Inr t \<longleftrightarrow>
        \<lfloor>fl (of_int k)\<rfloor> = t \<and> BIP65_THRESHOLD < \<lfloor>fl (of_int k)\<rfloor> \<and> \<lfloor>fl (of_int k)\<rfloor> \<le> MAX_LOCKTIME"
      using Some k by (auto simp: locktimeFromRefundAfterMs_def Let_def split: if_split_asm)
    then show ?thesis
      unfolding fl_locktime using floor_fl_locktime [of k] x k by auto
  qed
qed

text \<open>Every script the builder accepts is 118 bytes long, the constant the fee rule rests on:
  the locktime is always a four-byte script number and no accepted key or hash is longer.\<close>

theorem htlc_script_length:
  assumes "script_encode_ok B" "buildHtlcScript B p network = Inr s"
  shows "length (hs_witnessScript s) = 118
    \<and> locktimeFromRefundAfterMs (int_jsnum (1000 * hs_locktime s)) = Inr (hs_locktime s)"
  using assms(2)
proof (rule buildHtlcScript_Inr)
  assume k: "length (hp_payeePubkey p) = 33" "length (hp_payerPubkey p) = 33" "length (hp_hashLock p) = 32"
    "BIP65_THRESHOLD < hs_locktime s" "hs_locktime s \<le> MAX_LOCKTIME"
    and w: "hs_witnessScript s = script_encode B
       (htlc_items (hp_payeePubkey p) (hp_payerPubkey p) (hp_hashLock p) (hs_locktime s))"
  have "length (hs_witnessScript s) = 118"
    using assms(1) htlc_items_bytes [OF k] by (simp add: w script_encode_ok_def)
  then show ?thesis
    using locktime_of_seconds k by simp
qed

text \<open>An encoder with the documented sizes.\<close>

fun demo_encode_item :: "script_item \<Rightarrow> bytes" where
  "demo_encode_item (Push bs) = of_nat (length bs) # bs"
| "demo_encode_item (Op name) = [0xac]"
| "demo_encode_item (ScriptNum n) =
     (if 1 \<le> n \<and> n \<le> 16 then [of_int (80 + n)]
      else of_nat (script_num_bytes (nat n)) # le_bytes (script_num_bytes (nat n)) (nat n))"

definition demo_btc_lib :: btc_lib where
  "demo_btc_lib =
     \<lparr>script_encode = (\<lambda>items. concat (map demo_encode_item items)),
      p2wsh = (\<lambda>s n. (0x00 # 0x20 # replicate 32 (of_nat (length s)), net_bech32 n @ ''1q'')),
      address_script = (\<lambda>a n. if a = ''tb1q'' then Some (replicate 22 1) else None),
      to_psbt = (\<lambda>tx. Some (concat (map (\<lambda>i. in_witnessScript i) (tx_inputs tx))))\<rparr>"

lemma demo_encode_ok: "script_encode_ok demo_btc_lib"
proof -
  have "length (demo_encode_item i) = item_bytes i" for i by (cases i) simp_all
  then show ?thesis
    by (simp add: script_encode_ok_def demo_btc_lib_def length_concat o_def)
qed

definition demo_htlc :: htlc_params where
  "demo_htlc =
     \<lparr>hp_hashLock = replicate 32 7, hp_payeePubkey = 2 # replicate 32 1, hp_payerPubkey = 3 # replicate 32 1,
      hp_locktime = int_jsnum 1700000000\<rparr>"

definition demo_script :: htlc_script where
  "demo_script =
     (let ws = script_encode demo_btc_lib
            (htlc_items (hp_payeePubkey demo_htlc) (hp_payerPubkey demo_htlc) (hp_hashLock demo_htlc) 1700000000)
      in \<lparr>hs_witnessScript = ws, hs_scriptPubKey = fst (p2wsh demo_btc_lib ws BTC_SIGNET_NETWORK),
          hs_address = snd (p2wsh demo_btc_lib ws BTC_SIGNET_NETWORK), hs_locktime = 1700000000\<rparr>)"

lemma demo_htlc_builds: "buildHtlcScript demo_btc_lib demo_htlc BTC_SIGNET_NETWORK = Inr demo_script"
  by (simp add: buildHtlcScript_def demo_htlc_def demo_script_def assertCompressedPubkey_def
      COMPRESSED_PUBKEY_LENGTH_def HASH_LENGTH_def valid_locktime_def BIP65_THRESHOLD_def MAX_LOCKTIME_def
      Let_def split_beta)

theorem htlc_script_length_witness: "length (hs_witnessScript demo_script) = 118"
  using htlc_script_length [OF demo_encode_ok demo_htlc_builds] by blast

text \<open>A refund is built only for the time its script enforces: with the locktime of the script,
  the transaction's own lock time is the script's, its sequence is not final, so the chain checks it,
  it spends exactly the funding output and its one output pays the destination everything but a
  positive fee.\<close>

theorem refund_matches_script:
  assumes "buildHtlcScript B p network = Inr s" "rf_locktime q = hp_locktime p"
    and "buildRefundPsbt B q = Inr psbt"
  shows "\<exists>tx i. to_psbt B tx = Some psbt \<and> tx_lockTime tx = hs_locktime s \<and> tx_inputs tx = [i]
    \<and> in_sequence i < 0xffffffff \<and> in_txid i = utxo_txid (rf_utxo q) \<and> in_index i = utxo_vout (rf_utxo q)
    \<and> in_witnessUtxo i = (utxo_amountSats (rf_utxo q), utxo_script (rf_utxo q)) \<and> in_sha256 i = []
    \<and> (\<exists>v. tx_outputs tx = [(rf_destination q, v)] \<and> 0 < v \<and> v < utxo_amountSats (rf_utxo q)
         \<and> v + rf_feeSats q = utxo_amountSats (rf_utxo q))"
  using assms(1)
proof (rule buildHtlcScript_Inr)
  assume t: "hp_locktime p = int_jsnum (hs_locktime s)"
  have "to_psbt B (refund_tx q (hs_locktime s)) = Some psbt"
    "0 < rf_feeSats q" "rf_feeSats q < utxo_amountSats (rf_utxo q)"
    using assms(2,3) t by (auto simp: buildRefundPsbt_def fee_guards_def result_simps valid_locktime_Some)
  then show ?thesis
    by (intro exI [of _ "refund_tx q (hs_locktime s)"]) (simp add: refund_tx_def spend_tx_def)
qed

definition demo_refund :: refund_params where
  "demo_refund =
     \<lparr>rf_utxo = \<lparr>utxo_txid = ''00'', utxo_vout = 0, utxo_script = [], utxo_amountSats = 9000\<rparr>,
      rf_witnessScript = [], rf_locktime = int_jsnum 1700000000, rf_payerPubkey = 3 # replicate 32 1,
      rf_payerDerivation = \<lparr>bd_fingerprint = 1, bd_path = []\<rparr>, rf_destination = replicate 22 1, rf_feeSats = 1000\<rparr>"

theorem refund_matches_script_witness:
  "\<exists>tx psbt. buildRefundPsbt demo_btc_lib demo_refund = Inr psbt \<and> to_psbt demo_btc_lib tx = Some psbt
     \<and> tx_lockTime tx = hs_locktime demo_script"
proof -
  have b: "buildRefundPsbt demo_btc_lib demo_refund = Inr []"
    by (simp add: buildRefundPsbt_def demo_refund_def assertCompressedPubkey_def fee_guards_def demo_btc_lib_def
        COMPRESSED_PUBKEY_LENGTH_def valid_locktime_def BIP65_THRESHOLD_def MAX_LOCKTIME_def refund_tx_def spend_tx_def)
  have l: "rf_locktime demo_refund = hp_locktime demo_htlc" by (simp add: demo_refund_def demo_htlc_def)
  from refund_matches_script [OF demo_htlc_builds l b] b show ?thesis by blast
qed

text \<open>The branch-free comparison of two byte strings answers true exactly for equal ones.\<close>

theorem bytesEqual_iff: "bytesEqual a b \<longleftrightarrow> a = b"
  by (auto simp: bytesEqual_def diff_bytes_zero)

end
