(* ===== verification/Btc_Fees.thy ===== *)
theory Btc_Fees
  imports Btc_Script
begin

text \<open>
  The fee rule of \<open>src/rails/btc-htlc.ts\<close>: what a network pays for a spend, how an
  estimate of the node becomes a rate, the fee of one claim or refund, and the smallest amounts the
  desk locks. Amounts in satoshis are BigInts in the code and \<open>int\<close> here; rates and
  sizes are numbers.
\<close>

section \<open>Constants\<close>

definition DEFAULT_FEE_SATS :: int where
  "DEFAULT_FEE_SATS = 1000"

definition DUST_LIMIT_SATS :: int where
  "DUST_LIMIT_SATS = 546"

definition MIN_LOCKABLE_MARGIN_SATS :: int where
  "MIN_LOCKABLE_MARGIN_SATS = 500"

definition BTC_MIN_LOCKABLE_SATS :: int where
  "BTC_MIN_LOCKABLE_SATS = DEFAULT_FEE_SATS + DUST_LIMIT_SATS + MIN_LOCKABLE_MARGIN_SATS"

record btc_fee_rule =
  fr_confTarget :: int
  fr_estimateMode :: string
  fr_floorSatPerKvB :: int
  fr_capSatPerKvB :: int
  fr_floorFeeSats :: int

definition BTC_SIGNET_FEE_TARGET_BLOCKS :: int where
  "BTC_SIGNET_FEE_TARGET_BLOCKS = 6"

definition BTC_SIGNET_FEE_FLOOR_SAT_PER_VB :: int where
  "BTC_SIGNET_FEE_FLOOR_SAT_PER_VB = 8"

definition BTC_SIGNET_FEE_CAP_SAT_PER_VB :: int where
  "BTC_SIGNET_FEE_CAP_SAT_PER_VB = 50"

definition BTC_SIGNET_FEE_RULE :: btc_fee_rule where
  "BTC_SIGNET_FEE_RULE =
     \<lparr>fr_confTarget = BTC_SIGNET_FEE_TARGET_BLOCKS, fr_estimateMode = ''conservative'',
      fr_floorSatPerKvB = BTC_SIGNET_FEE_FLOOR_SAT_PER_VB * 1000,
      fr_capSatPerKvB = BTC_SIGNET_FEE_CAP_SAT_PER_VB * 1000, fr_floorFeeSats = DEFAULT_FEE_SATS\<rparr>"

datatype fee_error =
    NoFeeRule string
  | NoMinLockable string
  | FeeRateBad
  | VsizeBad
  | SpendUnaffordable int int int int int

text \<open>\<open>None\<close> is the code's null: regtest has no rule and makes no estimate call.\<close>

definition btcFeeRuleFor :: "string \<Rightarrow> (fee_error, btc_fee_rule option) result" where
  "btcFeeRuleFor network =
     (if network = ''regtest'' then Inr None
      else if network = ''signet'' then Inr (Some BTC_SIGNET_FEE_RULE)
      else Inl (NoFeeRule network))"

section \<open>Rates and fees\<close>

text \<open>\<open>Math.round\<close>: the nearest integer, a half upwards.\<close>

definition js_round :: "rat \<Rightarrow> rat" where
  "js_round x = of_int \<lfloor>x + 1 / 2\<rfloor>"

definition clamp_rate :: "btc_fee_rule \<Rightarrow> int \<Rightarrow> int" where
  "clamp_rate rule rate = min (max rate (fr_floorSatPerKvB rule)) (fr_capSatPerKvB rule)"

definition feerate_of :: "jsval \<Rightarrow> jsval" where
  "feerate_of answer =
     (case answer of
        Obj kvs \<Rightarrow> (case map_of kvs ''feerate'' of Some v \<Rightarrow> v | None \<Rightarrow> Undefined)
      | _ \<Rightarrow> Undefined)"

text \<open>A product beyond the range of doubles is no safe integer either, so it is the cap like the
  infinity it is in the code.\<close>

definition feeRateFromEstimate :: "btc_fee_rule \<Rightarrow> jsval \<Rightarrow> int" where
  "feeRateFromEstimate rule answer =
     (case feerate_of answer of
        Num (Fin feerate) \<Rightarrow>
          if feerate \<le> 0 then fr_floorSatPerKvB rule
          else (let satPerKvB = js_round (js_mul feerate 100000000)
                in if \<not> \<bar>satPerKvB\<bar> \<le> of_int max_safe then fr_capSatPerKvB rule
                   else clamp_rate rule \<lfloor>satPerKvB\<rfloor>)
      | _ \<Rightarrow> fr_floorSatPerKvB rule)"

definition spendFeeSatsFor :: "btc_fee_rule \<Rightarrow> jsnum \<Rightarrow> jsnum \<Rightarrow> int \<Rightarrow> (fee_error, int) result" where
  "spendFeeSatsFor rule rateSatPerKvB vsize fundingAmountSats =
     (case safe_int_of (Num rateSatPerKvB) of
        None \<Rightarrow> Inl FeeRateBad
      | Some r \<Rightarrow>
          if r \<le> 0 then Inl FeeRateBad
          else (case safe_int_of (Num vsize) of
                  None \<Rightarrow> Inl VsizeBad
                | Some v \<Rightarrow>
                    if v \<le> 0 then Inl VsizeBad
                    else (let rate = clamp_rate rule r;
                              estimate = (rate * v + 999) div 1000;
                              fee = (if estimate < fr_floorFeeSats rule then fr_floorFeeSats rule else estimate)
                          in if fundingAmountSats - DUST_LIMIT_SATS < fee
                             then Inl (SpendUnaffordable fundingAmountSats fee DUST_LIMIT_SATS v rate)
                             else Inr fee)))"

section \<open>The smallest lockable amounts\<close>

definition BTC_HTLC_WITNESS_SCRIPT_BYTES :: int where
  "BTC_HTLC_WITNESS_SCRIPT_BYTES = 118"

definition BTC_MAX_DESTINATION_SCRIPT_BYTES :: int where
  "BTC_MAX_DESTINATION_SCRIPT_BYTES = 34"

text \<open>The module constant calls the size bound, which does not throw on these two lengths.\<close>

definition BTC_SIGNET_MAX_SPEND_FEE_SATS :: int where
  "BTC_SIGNET_MAX_SPEND_FEE_SATS =
     (case htlcSpendVsizeBound Claim (int_jsnum BTC_HTLC_WITNESS_SCRIPT_BYTES) (int_jsnum BTC_MAX_DESTINATION_SCRIPT_BYTES) of
        Inr v \<Rightarrow> (fr_capSatPerKvB BTC_SIGNET_FEE_RULE * v + 999) div 1000
      | Inl _ \<Rightarrow> 0)"

definition BTC_SIGNET_MIN_LOCKABLE_SATS :: int where
  "BTC_SIGNET_MIN_LOCKABLE_SATS = BTC_SIGNET_MAX_SPEND_FEE_SATS + DUST_LIMIT_SATS + MIN_LOCKABLE_MARGIN_SATS"

definition btcMinLockableSatsFor :: "string \<Rightarrow> (fee_error, int) result" where
  "btcMinLockableSatsFor network =
     (if network = ''regtest'' then Inr BTC_MIN_LOCKABLE_SATS
      else if network = ''signet'' then Inr BTC_SIGNET_MIN_LOCKABLE_SATS
      else Inl (NoMinLockable network))"

section \<open>Lemmas\<close>

lemmas fee_consts = DEFAULT_FEE_SATS_def DUST_LIMIT_SATS_def MIN_LOCKABLE_MARGIN_SATS_def
  BTC_SIGNET_FEE_FLOOR_SAT_PER_VB_def BTC_SIGNET_FEE_CAP_SAT_PER_VB_def BTC_SIGNET_FEE_TARGET_BLOCKS_def

lemma signet_rule [simp]:
  "fr_floorSatPerKvB BTC_SIGNET_FEE_RULE = 8000" "fr_capSatPerKvB BTC_SIGNET_FEE_RULE = 50000"
  "fr_floorFeeSats BTC_SIGNET_FEE_RULE = 1000"
  by (simp_all add: BTC_SIGNET_FEE_RULE_def fee_consts)

lemma vsize_bound_value:
  assumes "0 < w" "w \<le> 252" "0 < d" "d \<le> 252"
  shows "htlcSpendVsizeBound br (int_jsnum w) (int_jsnum d)
    = Inr \<lceil>(of_int (242 + 4 * d + (case br of Claim \<Rightarrow> 109 | Refund \<Rightarrow> 77) + w) / 4 :: rat)\<rceil>"
  using assms
  by (cases br) (simp_all add: htlcSpendVsizeBound_def safe_int_of_def compactSizeBytes_def witness_items_def
      witness_item_bytes_def HASH_LENGTH_def MAX_WITNESS_SIGNATURE_BYTES_def Let_def max_safe_def add.assoc)

lemma max_spend_fee: "BTC_SIGNET_MAX_SPEND_FEE_SATS = 7600"
proof -
  have "htlcSpendVsizeBound Claim (int_jsnum BTC_HTLC_WITNESS_SCRIPT_BYTES) (int_jsnum BTC_MAX_DESTINATION_SCRIPT_BYTES)
    = Inr 152"
    using vsize_bound_value [of 118 34 Claim] ceiling_unique [of 152 "605 / 4 :: rat"]
    by (simp add: BTC_HTLC_WITNESS_SCRIPT_BYTES_def BTC_MAX_DESTINATION_SCRIPT_BYTES_def)
  then show ?thesis by (simp add: BTC_SIGNET_MAX_SPEND_FEE_SATS_def)
qed

lemma min_lockable: "BTC_SIGNET_MIN_LOCKABLE_SATS = 8646"
  by (simp add: BTC_SIGNET_MIN_LOCKABLE_SATS_def max_spend_fee fee_consts)

lemma vsize_range:
  assumes "htlcSpendVsizeBound br (int_jsnum 118) (int_jsnum d) = Inr v" "0 < d" "d \<le> 34"
  shows "110 \<le> v \<and> v \<le> 152"
proof -
  define weight where "weight = 242 + 4 * d + (case br of Claim \<Rightarrow> 109 | Refund \<Rightarrow> 77) + (118::int)"
  have "Inr v = (Inr \<lceil>(of_int weight / 4 :: rat)\<rceil> :: (btc_error, int) result)"
    unfolding assms(1) [symmetric] weight_def by (rule vsize_bound_value) (use assms(2,3) in simp_all)
  then have v: "v = \<lceil>(of_int weight / 4 :: rat)\<rceil>" by simp
  have "440 \<le> weight" "weight \<le> 608" using assms(2,3) by (auto simp: weight_def split: spend_branch.split)
  then have "(440 :: rat) \<le> of_int weight" "of_int weight \<le> (608 :: rat)" by simp_all
  then show ?thesis unfolding v by (simp add: le_ceiling_iff ceiling_le_iff)
qed

lemma estimate_range: "8000 \<le> feeRateFromEstimate BTC_SIGNET_FEE_RULE a \<and> feeRateFromEstimate BTC_SIGNET_FEE_RULE a \<le> 50000"
  by (auto simp: feeRateFromEstimate_def clamp_rate_def Let_def split: jsval.splits jsnum.splits)

lemma spendFee_Inr:
  assumes "0 < r" "r \<le> max_safe" "0 < v" "v \<le> max_safe"
  shows "spendFeeSatsFor rule (int_jsnum r) (int_jsnum v) amount =
    (let fee = max ((clamp_rate rule r * v + 999) div 1000) (fr_floorFeeSats rule)
     in if amount - DUST_LIMIT_SATS < fee then Inl (SpendUnaffordable amount fee DUST_LIMIT_SATS v (clamp_rate rule r))
        else Inr fee)"
  using assms by (simp add: spendFeeSatsFor_def safe_int_of_def Let_def max_def not_less)

section \<open>Properties\<close>

text \<open>C21. A leg the lock guard accepts can always be spent: whatever the node answers for an
  estimate, and whichever branch and destination of at most 34 bytes is chosen, the size bound of
  the built script exists, the fee is never refused, it lies between 1,000 and 7,600 satoshis, and
  the output stays at least the margin above the dust limit.\<close>

theorem accepted_leg_is_spendable:
  assumes "script_encode_ok B" "buildHtlcScript B p network = Inr s"
    and "btcMinLockableSatsFor ''signet'' = Inr m" "m \<le> amount"
    and "0 < length destination" "int (length destination) \<le> BTC_MAX_DESTINATION_SCRIPT_BYTES"
  shows "\<exists>v fee. htlcSpendVsizeBound br (int_jsnum (int (length (hs_witnessScript s))))
        (int_jsnum (int (length destination))) = Inr v
    \<and> spendFeeSatsFor BTC_SIGNET_FEE_RULE (int_jsnum (feeRateFromEstimate BTC_SIGNET_FEE_RULE answer))
        (int_jsnum v) amount = Inr fee
    \<and> DEFAULT_FEE_SATS \<le> fee \<and> fee \<le> BTC_SIGNET_MAX_SPEND_FEE_SATS
    \<and> DUST_LIMIT_SATS + MIN_LOCKABLE_MARGIN_SATS \<le> amount - fee"
proof -
  have len: "length (hs_witnessScript s) = 118"
    using assms(2)
  proof (rule buildHtlcScript_Inr)
    assume k: "length (hp_payeePubkey p) = 33" "length (hp_payerPubkey p) = 33" "length (hp_hashLock p) = 32"
      "BIP65_THRESHOLD < hs_locktime s" "hs_locktime s \<le> MAX_LOCKTIME"
      and w: "hs_witnessScript s = script_encode B
         (htlc_items (hp_payeePubkey p) (hp_payerPubkey p) (hp_hashLock p) (hs_locktime s))"
    show ?thesis using assms(1) htlc_items_bytes [OF k] by (simp add: w script_encode_ok_def)
  qed
  define d where "d = int (length destination)"
  define r where "r = feeRateFromEstimate BTC_SIGNET_FEE_RULE answer"
  have d: "0 < d" "d \<le> 34" using assms(5,6) by (simp_all add: d_def BTC_MAX_DESTINATION_SCRIPT_BYTES_def)
  have r: "8000 \<le> r" "r \<le> 50000" using estimate_range by (simp_all add: r_def)
  obtain v where v: "htlcSpendVsizeBound br (int_jsnum 118) (int_jsnum d) = Inr v"
    using vsize_bound_value [of 118 d br] d by simp
  have vr: "110 \<le> v" "v \<le> 152" using vsize_range [OF v d] by simp_all
  define estimate where "estimate = (r * v + 999) div 1000"
  have "r * v \<le> 50000 * 152" using r vr by (intro mult_mono) simp_all
  then have e: "estimate \<le> 7600" by (simp add: estimate_def)
  have amount: "8646 \<le> amount" using assms(3,4) by (simp add: btcMinLockableSatsFor_def min_lockable)
  have "clamp_rate BTC_SIGNET_FEE_RULE r = r" using r by (simp add: clamp_rate_def)
  then have "spendFeeSatsFor BTC_SIGNET_FEE_RULE (int_jsnum r) (int_jsnum v) amount = Inr (max estimate 1000)"
    using spendFee_Inr [of r v BTC_SIGNET_FEE_RULE amount] r vr e amount
    by (simp add: max_safe_def estimate_def [symmetric] fee_consts Let_def)
  then show ?thesis
    using v e amount
    by (intro exI [of _ v] exI [of _ "max estimate 1000"])
      (simp add: len d_def [symmetric] r_def [symmetric] max_spend_fee fee_consts)
qed

theorem accepted_leg_is_spendable_witness:
  "\<exists>v fee. htlcSpendVsizeBound Claim (int_jsnum (int (length (hs_witnessScript demo_script)))) (int_jsnum 22) = Inr v
     \<and> spendFeeSatsFor BTC_SIGNET_FEE_RULE (int_jsnum (feeRateFromEstimate BTC_SIGNET_FEE_RULE (Obj [(''feerate'', Num NaN)])))
         (int_jsnum v) 9000 = Inr fee \<and> 1000 \<le> fee"
proof -
  have m: "btcMinLockableSatsFor ''signet'' = Inr 8646" "(8646::int) \<le> 9000"
    by (simp_all add: btcMinLockableSatsFor_def min_lockable)
  have d: "0 < length (replicate 22 (1 :: 8 word))"
    "int (length (replicate 22 (1 :: 8 word))) \<le> BTC_MAX_DESTINATION_SCRIPT_BYTES"
    by (simp_all add: BTC_MAX_DESTINATION_SCRIPT_BYTES_def)
  from accepted_leg_is_spendable [OF demo_encode_ok demo_htlc_builds m d, of Claim "Obj [(''feerate'', Num NaN)]"]
  show ?thesis by (auto simp: DEFAULT_FEE_SATS_def)
qed

text \<open>A spend pays the rule's own fee or is refused: a returned fee is the ceiling of rate times
  size at the clamped rate, or the floor where that is lower, never cut to fit the amount, and the
  output keeps at least the dust limit. A refusal names the fee that did not fit.\<close>

theorem spend_fee_never_cut:
  assumes "safe_int_of (Num rate) = Some r" "0 < r" "safe_int_of (Num vsize) = Some v" "0 < v"
  shows "case spendFeeSatsFor rule rate vsize amount of
      Inr fee \<Rightarrow> clamp_rate rule r * v \<le> 1000 * fee \<and> fr_floorFeeSats rule \<le> fee
        \<and> (1000 * fee < clamp_rate rule r * v + 1000 \<or> fee = fr_floorFeeSats rule) \<and> DUST_LIMIT_SATS \<le> amount - fee
    | Inl e \<Rightarrow> (\<exists>fee. e = SpendUnaffordable amount fee DUST_LIMIT_SATS v (clamp_rate rule r)
        \<and> clamp_rate rule r * v \<le> 1000 * fee \<and> amount - fee < DUST_LIMIT_SATS)"
proof -
  have c: "n \<le> 1000 * ((n + 999) div 1000) \<and> 1000 * ((n + 999) div 1000) < n + 1000" for n :: int by linarith
  define estimate where "estimate = (clamp_rate rule r * v + 999) div 1000"
  have e: "clamp_rate rule r * v \<le> 1000 * estimate" "1000 * estimate < clamp_rate rule r * v + 1000"
    using c [of "clamp_rate rule r * v"] by (simp_all add: estimate_def)
  show ?thesis
    using e assms by (simp add: spendFeeSatsFor_def Let_def estimate_def [symmetric])
qed

theorem spend_fee_never_cut_witness:
  "\<exists>fee. spendFeeSatsFor BTC_SIGNET_FEE_RULE (int_jsnum 30000) (int_jsnum 137) 2046
     = Inl (SpendUnaffordable 2046 fee DUST_LIMIT_SATS 137 30000)"
proof -
  have h: "safe_int_of (Num (int_jsnum 30000)) = Some 30000" "(0::int) < 30000"
    "safe_int_of (Num (int_jsnum 137)) = Some 137" "(0::int) < 137"
    by (simp_all add: safe_int_of_def max_safe_def)
  have "spendFeeSatsFor BTC_SIGNET_FEE_RULE (int_jsnum 30000) (int_jsnum 137) 2046
      = Inl (SpendUnaffordable 2046 4110 546 137 30000)"
    by (simp add: spendFee_Inr max_safe_def clamp_rate_def fee_consts)
  with spend_fee_never_cut [OF h, of 2046] show ?thesis by (auto simp: DUST_LIMIT_SATS_def)
qed

end
