(* ===== verification/Client_Policy.thy ===== *)
theory Client_Policy
  imports Deadlines Btc_Fees
begin

text \<open>
  \<open>src/client/policy.ts\<close>: the deadline policies a rail's flows run under, pinned as
  constants and selected by chain id or network name, the known-good deadline sets and the bound on
  a chain clock. A policy is the deadline policy extended by the rail's own fields, as in the
  source, where it spreads \<open>DEFAULT_POLICY_EXAMPLE\<close>.
\<close>

section \<open>The policies\<close>

record rail_policy = deadline_policy +
  claimInclusionMarginMs :: int

record evm_policy = rail_policy +
  blockTimeMs :: int

record signet_policy = rail_policy +
  policy_fee :: btc_fee_rule

definition EVM_LOCAL_POLICY :: evm_policy where
  "EVM_LOCAL_POLICY =
     \<lparr>minRevealWindowMs = int_jsval (45 * 60000), finalityAMs = int_jsval (20 * 60000),
      flopMarginPercent = flopMarginPercent DEFAULT_POLICY_EXAMPLE,
      flopMaxFinalityStallBlocks = flopMaxFinalityStallBlocks DEFAULT_POLICY_EXAMPLE,
      flopFinalityLagBlocks = flopFinalityLagBlocks DEFAULT_POLICY_EXAMPLE,
      flopBlockMs = flopBlockMs DEFAULT_POLICY_EXAMPLE,
      claimInclusionMarginMs = 5 * 60000, blockTimeMs = 1000\<rparr>"

definition BASE_SEPOLIA_POLICY :: evm_policy where
  "BASE_SEPOLIA_POLICY =
     \<lparr>minRevealWindowMs = int_jsval (45 * 60000), finalityAMs = int_jsval (80 * 60000),
      flopMarginPercent = flopMarginPercent DEFAULT_POLICY_EXAMPLE,
      flopMaxFinalityStallBlocks = flopMaxFinalityStallBlocks DEFAULT_POLICY_EXAMPLE,
      flopFinalityLagBlocks = flopFinalityLagBlocks DEFAULT_POLICY_EXAMPLE,
      flopBlockMs = flopBlockMs DEFAULT_POLICY_EXAMPLE,
      claimInclusionMarginMs = 10 * 60000, blockTimeMs = 2000\<rparr>"

definition BTC_LOCAL_POLICY :: rail_policy where
  "BTC_LOCAL_POLICY =
     \<lparr>minRevealWindowMs = int_jsval (60 * 60000), finalityAMs = int_jsval (3 * 60 * 60000),
      flopMarginPercent = flopMarginPercent DEFAULT_POLICY_EXAMPLE,
      flopMaxFinalityStallBlocks = flopMaxFinalityStallBlocks DEFAULT_POLICY_EXAMPLE,
      flopFinalityLagBlocks = flopFinalityLagBlocks DEFAULT_POLICY_EXAMPLE,
      flopBlockMs = flopBlockMs DEFAULT_POLICY_EXAMPLE,
      claimInclusionMarginMs = 60 * 60000\<rparr>"

definition BTC_SIGNET_POLICY :: signet_policy where
  "BTC_SIGNET_POLICY =
     \<lparr>minRevealWindowMs = int_jsval (60 * 60000), finalityAMs = int_jsval (3 * 60 * 60000),
      flopMarginPercent = flopMarginPercent DEFAULT_POLICY_EXAMPLE,
      flopMaxFinalityStallBlocks = flopMaxFinalityStallBlocks DEFAULT_POLICY_EXAMPLE,
      flopFinalityLagBlocks = flopFinalityLagBlocks DEFAULT_POLICY_EXAMPLE,
      flopBlockMs = flopBlockMs DEFAULT_POLICY_EXAMPLE,
      claimInclusionMarginMs = 60 * 60000, policy_fee = BTC_SIGNET_FEE_RULE\<rparr>"

definition NEAR_LOCAL_POLICY :: rail_policy where
  "NEAR_LOCAL_POLICY =
     \<lparr>minRevealWindowMs = int_jsval (45 * 60000), finalityAMs = int_jsval (20 * 60000),
      flopMarginPercent = flopMarginPercent DEFAULT_POLICY_EXAMPLE,
      flopMaxFinalityStallBlocks = flopMaxFinalityStallBlocks DEFAULT_POLICY_EXAMPLE,
      flopFinalityLagBlocks = flopFinalityLagBlocks DEFAULT_POLICY_EXAMPLE,
      flopBlockMs = flopBlockMs DEFAULT_POLICY_EXAMPLE,
      claimInclusionMarginMs = 5 * 60000\<rparr>"

definition SOL_LOCAL_POLICY :: rail_policy where
  "SOL_LOCAL_POLICY =
     \<lparr>minRevealWindowMs = int_jsval (45 * 60000), finalityAMs = int_jsval (20 * 60000),
      flopMarginPercent = flopMarginPercent DEFAULT_POLICY_EXAMPLE,
      flopMaxFinalityStallBlocks = flopMaxFinalityStallBlocks DEFAULT_POLICY_EXAMPLE,
      flopFinalityLagBlocks = flopFinalityLagBlocks DEFAULT_POLICY_EXAMPLE,
      flopBlockMs = flopBlockMs DEFAULT_POLICY_EXAMPLE,
      claimInclusionMarginMs = 5 * 60000\<rparr>"

definition LOCK_SETTLE_ALLOWANCE_MS :: int where
  "LOCK_SETTLE_ALLOWANCE_MS = 10 * 60000"

section \<open>Selecting a policy\<close>

text \<open>The error shows the chain id only when it is a safe integer.\<close>

datatype policy_error = EvmPolicyUnavailable "int option" | BtcPolicyUnavailable string

definition evm_policy_unavailable :: "jsval \<Rightarrow> policy_error" where
  "evm_policy_unavailable chainId = EvmPolicyUnavailable (safe_int_of chainId)"

definition evmLocalPolicyFor :: "jsval \<Rightarrow> (policy_error, evm_policy) result" where
  "evmLocalPolicyFor chainId =
     (if chainId = int_jsval 31337 then Inr EVM_LOCAL_POLICY
      else if chainId = int_jsval 84532 then Inr BASE_SEPOLIA_POLICY
      else Inl (evm_policy_unavailable chainId))"

text \<open>The two Bitcoin policies have the shape the caller asks for; the fee of the signet policy
  is only where a reader of the policy finds it.\<close>

definition btcLocalPolicyFor :: "string \<Rightarrow> (policy_error, rail_policy) result" where
  "btcLocalPolicyFor network =
     (if network = ''regtest'' then Inr BTC_LOCAL_POLICY
      else if network = ''signet'' then Inr (rail_policy.truncate BTC_SIGNET_POLICY)
      else Inl (BtcPolicyUnavailable network))"

section \<open>Known-good deadlines\<close>

record leg_minutes =
  claimByMin :: int
  refundAfterMin :: int
  expiresMin :: int

record deadline_minutes =
  dm_legA :: leg_minutes
  dm_legB :: leg_minutes

definition KNOWN_GOOD_31337 :: deadline_minutes where
  "KNOWN_GOOD_31337 =
     \<lparr>dm_legA = \<lparr>claimByMin = 60, refundAfterMin = 90, expiresMin = 30\<rparr>,
      dm_legB = \<lparr>claimByMin = 120, refundAfterMin = 180, expiresMin = 40\<rparr>\<rparr>"

definition KNOWN_GOOD_84532 :: deadline_minutes where
  "KNOWN_GOOD_84532 =
     \<lparr>dm_legA = \<lparr>claimByMin = 115, refundAfterMin = 135, expiresMin = 30\<rparr>,
      dm_legB = \<lparr>claimByMin = 225, refundAfterMin = 285, expiresMin = 40\<rparr>\<rparr>"

definition knownGoodDeadlinesFor :: "jsval \<Rightarrow> (policy_error, deadline_minutes) result" where
  "knownGoodDeadlinesFor chainId =
     (if chainId = int_jsval 31337 then Inr KNOWN_GOOD_31337
      else if chainId = int_jsval 84532 then Inr KNOWN_GOOD_84532
      else Inl (evm_policy_unavailable chainId))"

section \<open>The chain clock\<close>

definition SOL_CHAIN_CLOCK_SKEW_MS :: int where
  "SOL_CHAIN_CLOCK_SKEW_MS = 60000"

text \<open>\<open>Math.abs(x - y)\<close> and \<open>\<le>\<close> on numbers; a comparison with NaN
  is false, so an unreadable clock is a problem.\<close>

fun js_gap :: "jsnum \<Rightarrow> jsnum \<Rightarrow> jsnum" where
  "js_gap (Fin x) (Fin y) = Fin \<bar>js_sub x y\<bar>"
| "js_gap NaN y = NaN"
| "js_gap x NaN = NaN"
| "js_gap PosInf PosInf = NaN"
| "js_gap NegInf NegInf = NaN"
| "js_gap x y = PosInf"

fun js_le :: "jsnum \<Rightarrow> jsnum \<Rightarrow> bool" where
  "js_le (Fin x) (Fin y) \<longleftrightarrow> x \<le> y"
| "js_le NaN y \<longleftrightarrow> False"
| "js_le x NaN \<longleftrightarrow> False"
| "js_le x PosInf \<longleftrightarrow> True"
| "js_le NegInf y \<longleftrightarrow> True"
| "js_le x y \<longleftrightarrow> False"

text \<open>The values the refusal text prints.\<close>

datatype clock_problem = ClocksDiffer jsnum jsnum jsnum jsnum

definition chainClockProblem :: "jsnum \<Rightarrow> jsnum \<Rightarrow> jsnum \<Rightarrow> clock_problem option" where
  "chainClockProblem chainMs localMs boundMs =
     (let gap = js_gap chainMs localMs
      in if js_le gap boundMs then None else Some (ClocksDiffer chainMs localMs gap boundMs))"

section \<open>The known-good sets under their policies\<close>

definition minutes_after :: "int \<Rightarrow> int \<Rightarrow> int" where
  "minutes_after start m = start + m * 60000"

definition leg_at :: "int \<Rightarrow> leg_minutes \<Rightarrow> leg_deadlines" where
  "leg_at start l =
     \<lparr>d_claimByMs = int_jsval (minutes_after start (claimByMin l)),
      d_refundAfterMs = int_jsval (minutes_after start (refundAfterMin l)),
      d_expiresMs = int_jsval (minutes_after start (expiresMin l))\<rparr>"

lemma blocks_up_shift: "blocks_up (x + 1000 * k) 1000 = blocks_up x 1000 + k"
proof -
  have "(of_int (x + 1000 * k) / of_int 1000 :: rat) = of_int x / of_int 1000 + of_int k"
    by (simp add: add_divide_distrib)
  then show ?thesis unfolding blocks_up_def by (simp only: ceiling_add_of_int)
qed

lemma leg_at_ok:
  assumes "0 < start" "start \<le> max_safe - 100000000" "0 \<le> expiresMin l" "expiresMin l \<le> 1000"
    "0 \<le> claimByMin l" "claimByMin l < refundAfterMin l" "refundAfterMin l \<le> 1000"
  shows "leg_ok (leg_at start l) (minutes_after start (claimByMin l)) (minutes_after start (refundAfterMin l))"
  using assms by (simp add: leg_ok_def leg_at_def minutes_after_def positive_safe_def)

text \<open>A stall allowance of an hour of one-second blocks outweighs the margin on every leg A of at
  most five hours.\<close>

lemma rule3_by_stall:
  assumes "b = a + 1000 * k" "3600 \<le> k" "0 \<le> a" "a \<le> 18000 * 1000"
  shows "r10_2_minimum (blocks_up a 1000) 20 3600 0 \<le> blocks_up b 1000"
proof -
  have "blocks_up a 1000 \<le> 18000"
    using assms(4) by (simp add: blocks_up_def ceiling_le_iff)
  then have "(of_int (blocks_up a 1000 * 20) / 100 :: rat) \<le> of_int 3600"
    by (simp add: field_simps)
  then have "\<lceil>(of_int (blocks_up a 1000 * 20) / 100 :: rat)\<rceil> \<le> 3600" by (simp only: ceiling_le_iff)
  then show ?thesis
    using assms by (simp add: r10_2_minimum_def blocks_up_shift)
qed

definition known_good :: "evm_policy \<Rightarrow> deadline_minutes \<Rightarrow> bool" where
  "known_good p m \<longleftrightarrow>
     (p = EVM_LOCAL_POLICY \<and> m = KNOWN_GOOD_31337) \<or> (p = BASE_SEPOLIA_POLICY \<and> m = KNOWN_GOOD_84532)"

lemmas policy_defs = EVM_LOCAL_POLICY_def BASE_SEPOLIA_POLICY_def DEFAULT_POLICY_EXAMPLE_def
  KNOWN_GOOD_31337_def KNOWN_GOOD_84532_def

lemma known_good_for:
  "evmLocalPolicyFor c = Inr p \<Longrightarrow> knownGoodDeadlinesFor c = Inr m \<Longrightarrow> known_good p m"
  by (auto simp: evmLocalPolicyFor_def knownGoodDeadlinesFor_def known_good_def split: if_split_asm)

lemma known_good_policy_ok: "known_good p m \<Longrightarrow> policy_ok (deadline_policy.truncate p)"
  by (auto simp: known_good_def policy_ok_def policy_defs deadline_policy.defs nonneg_safe_def positive_safe_def
      max_safe_def)

text \<open>The operands of the check in minutes of the sets and the finality budget \<open>f\<close> of
  the policy.\<close>

definition known_operands :: "int \<Rightarrow> int \<Rightarrow> int \<Rightarrow> int \<Rightarrow> int \<Rightarrow> int \<Rightarrow> operands" where
  "known_operands start lock refundA claimB refundB f =
     \<lparr>o_lock = lock, o_refundA = minutes_after start refundA, o_claimB = minutes_after start claimB,
      o_refundB = minutes_after start refundB, o_reveal = 2700000, o_finalityA = f * 60000, o_margin = 20,
      o_stall = 3600, o_lag = 0, o_block = 1000\<rparr>"

lemma known_operands_hold:
  assumes "0 < start" "start \<le> max_safe - 100000000" "start \<le> lock" "lock \<le> start + 600000"
    and "55 \<le> refundA" "refundA + f \<le> claimB" "claimB \<le> refundB" "refundA + 60 \<le> refundB" "refundA + f \<le> 300" "0 \<le> f"
  shows "exact_range (known_operands start lock refundA claimB refundB f)"
    "rules_hold (known_operands start lock refundA claimB refundB f)"
proof -
  define x where "x = minutes_after start refundA - lock"
  have x: "2700000 \<le> x" "x \<le> 18000000" using assms by (simp_all add: x_def minutes_after_def)
  have "minutes_after start refundA + f * 60000 \<le> max_safe"
    using assms by (simp add: minutes_after_def)
  moreover have "\<bar>x\<bar> * 21 + 3600 \<le> max_safe" using x by (simp add: max_safe_def)
  ultimately show "exact_range (known_operands start lock refundA claimB refundB f)"
    by (simp add: exact_range_def known_operands_def x_def)
  have "r10_2_minimum (blocks_up x 1000) 20 3600 0 \<le> blocks_up (minutes_after start refundB - lock) 1000"
    by (rule rule3_by_stall [of _ _ "(refundB - refundA) * 60"])
      (use x assms in \<open>simp_all add: x_def minutes_after_def algebra_simps\<close>)
  then show "rules_hold (known_operands start lock refundA claimB refundB f)"
    using x assms by (simp add: rules_hold_def known_operands_def x_def minutes_after_def)
qed

lemma known_good_operands:
  assumes "known_good p m" "0 < start" "start \<le> max_safe - 100000000" "start \<le> lock" "lock \<le> start + 600000"
  shows "\<exists>refundA claimB refundB f. operands_of (leg_at start (dm_legA m)) (leg_at start (dm_legB m))
      (int_jsval lock) (deadline_policy.truncate p) = known_operands start lock refundA claimB refundB f
    \<and> 55 \<le> refundA \<and> refundA + f \<le> claimB \<and> claimB \<le> refundB \<and> refundA + 60 \<le> refundB
    \<and> refundA + f \<le> 300 \<and> 0 \<le> f"
proof (cases rule: disjE [OF assms(1) [unfolded known_good_def], case_names local sepolia])
  case local
  then show ?thesis
    using assms(2-5)
    by - (rule exI [of _ 90], rule exI [of _ 120], rule exI [of _ 180], rule exI [of _ 20],
        simp add: operands_of_def known_operands_def leg_at_def minutes_after_def policy_defs
          deadline_policy.defs)
next
  case sepolia
  then show ?thesis
    using assms(2-5)
    by - (rule exI [of _ 135], rule exI [of _ 225], rule exI [of _ 285], rule exI [of _ 80],
        simp add: operands_of_def known_operands_def leg_at_def minutes_after_def policy_defs
          deadline_policy.defs)
qed

lemma known_good_rules:
  assumes "known_good p m" "0 < start" "start \<le> max_safe - 100000000" "start \<le> lock"
    "lock \<le> start + LOCK_SETTLE_ALLOWANCE_MS"
  shows "exact_range (operands_of (leg_at start (dm_legA m)) (leg_at start (dm_legB m)) (int_jsval lock)
           (deadline_policy.truncate p))"
    "rules_hold (operands_of (leg_at start (dm_legA m)) (leg_at start (dm_legB m)) (int_jsval lock)
           (deadline_policy.truncate p))"
proof -
  have l: "lock \<le> start + 600000" using assms(5) by (simp add: LOCK_SETTLE_ALLOWANCE_MS_def)
  show "exact_range (operands_of (leg_at start (dm_legA m)) (leg_at start (dm_legB m)) (int_jsval lock)
           (deadline_policy.truncate p))"
    "rules_hold (operands_of (leg_at start (dm_legA m)) (leg_at start (dm_legB m)) (int_jsval lock)
           (deadline_policy.truncate p))"
    using known_good_operands [OF assms(1-4) l] known_operands_hold [OF assms(2-4) l] by metis+
qed

section \<open>Properties\<close>

text \<open>On both EVM chains the known-good deadline set passes the deadline check under that
  chain's own policy, for every start of a run and every lock within the ten minutes the runner
  allows it; the claim deadline of leg A leaves the claim margin before its refund time, and a lock
  made in that window still has the finality budget and the settle allowance before it.\<close>

theorem known_good_deadlines_pass:
  assumes "evmLocalPolicyFor c = Inr p" "knownGoodDeadlinesFor c = Inr m"
    and "0 < start" "start \<le> max_safe - 100000000" "start \<le> lock" "lock \<le> start + LOCK_SETTLE_ALLOWANCE_MS"
  shows "dc_ok (checkSwapDeadlines (Leg (leg_at start (dm_legA m))) (Leg (leg_at start (dm_legB m)))
        (int_jsval lock) (Policy (deadline_policy.truncate p)))
    \<and> minutes_after start (claimByMin (dm_legA m)) + claimInclusionMarginMs p
        \<le> minutes_after start (refundAfterMin (dm_legA m))
    \<and> (\<exists>f. finalityAMs p = int_jsval f
         \<and> lock + f + LOCK_SETTLE_ALLOWANCE_MS \<le> minutes_after start (claimByMin (dm_legA m)))"
proof -
  have g: "known_good p m" using assms(1,2) by (rule known_good_for)
  have s: "positive_safe (int_jsval lock) \<noteq> None"
    using assms(3-6) by (simp add: positive_safe_def LOCK_SETTLE_ALLOWANCE_MS_def)
  have a: "leg_ok (leg_at start (dm_legA m)) (minutes_after start (claimByMin (dm_legA m)))
      (minutes_after start (refundAfterMin (dm_legA m)))"
    by (rule leg_at_ok) (use assms(3,4) g in \<open>auto simp: known_good_def policy_defs\<close>)
  have b: "leg_ok (leg_at start (dm_legB m)) (minutes_after start (claimByMin (dm_legB m)))
      (minutes_after start (refundAfterMin (dm_legB m)))"
    by (rule leg_at_ok) (use assms(3,4) g in \<open>auto simp: known_good_def policy_defs\<close>)
  note pass = deadline_check_passes [OF a b known_good_policy_ok [OF g] s known_good_rules [OF g assms(3-6)]]
  show ?thesis
    using pass g assms(5,6)
    by (auto simp: known_good_def policy_defs minutes_after_def LOCK_SETTLE_ALLOWANCE_MS_def)
qed

theorem known_good_deadlines_pass_witness:
  "dc_ok (checkSwapDeadlines (Leg (leg_at 1700000000000 (dm_legA KNOWN_GOOD_84532)))
     (Leg (leg_at 1700000000000 (dm_legB KNOWN_GOOD_84532))) (int_jsval 1700000300000)
     (Policy (deadline_policy.truncate BASE_SEPOLIA_POLICY)))"
proof -
  have h: "evmLocalPolicyFor (int_jsval 84532) = Inr BASE_SEPOLIA_POLICY"
    "knownGoodDeadlinesFor (int_jsval 84532) = Inr KNOWN_GOOD_84532"
    "(0::int) < 1700000000000" "(1700000000000::int) \<le> max_safe - 100000000"
    "(1700000000000::int) \<le> 1700000300000" "(1700000300000::int) \<le> 1700000000000 + LOCK_SETTLE_ALLOWANCE_MS"
    by (simp_all add: evmLocalPolicyFor_def knownGoodDeadlinesFor_def max_safe_def LOCK_SETTLE_ALLOWANCE_MS_def)
  show ?thesis using known_good_deadlines_pass [OF h] by blast
qed

text \<open>The clock check agrees with the distance of the two clocks: for clocks a safe
  distance apart it answers no problem exactly when they differ by at most the bound, and
  a clock that is no number never passes.\<close>

theorem chain_clock_exact:
  assumes "\<bar>a - b\<bar> \<le> max_safe"
  shows "(chainClockProblem (int_jsnum a) (int_jsnum b) (int_jsnum n) = None \<longleftrightarrow> \<bar>a - b\<bar> \<le> n)
    \<and> chainClockProblem NaN x y \<noteq> None \<and> chainClockProblem x NaN y \<noteq> None"
proof -
  have "js_sub (of_int a) (of_int b) = of_int (a - b)" using assms by (rule js_sub_int)
  then have "js_gap (int_jsnum a) (int_jsnum b) = int_jsnum \<bar>a - b\<bar>"
    by (simp add: int_jsnum_def)
  moreover have "js_le (int_jsnum i) (int_jsnum j) \<longleftrightarrow> i \<le> j" for i j by (simp add: int_jsnum_def)
  moreover have "js_gap x NaN = NaN" by (cases x) simp_all
  ultimately show ?thesis
    by (simp add: chainClockProblem_def Let_def)
qed

theorem chain_clock_exact_witness:
  "chainClockProblem (int_jsnum 1700000000000) (int_jsnum 1700000061000) (int_jsnum SOL_CHAIN_CLOCK_SKEW_MS) \<noteq> None"
proof -
  have d: "\<bar>1700000000000 - 1700000061000 :: int\<bar> \<le> max_safe" by (simp add: max_safe_def)
  show ?thesis
    using chain_clock_exact [OF d, of SOL_CHAIN_CLOCK_SKEW_MS NaN NaN] by (simp add: SOL_CHAIN_CLOCK_SKEW_MS_def)
qed

end
