(* ===== verification/Near_Borsh.thy ===== *)
theory Near_Borsh
  imports Desk_Bytes
begin

text \<open>
  \<open>src/rails/near-borsh.ts\<close>: the borsh writer for the NEAR transactions of the leg, the
  reader of a signed transaction's header and the builder of a signed transaction. A writer method
  that may throw answers the bytes it appends; the writer's chunks are their concatenation. sha256,
  base58 and the signer are parameters.
\<close>

section \<open>The writer\<close>

datatype borsh_error =
    U8OutOfRange int
  | U32OutOfRange int
  | U64OutOfRange int
  | U128OutOfRange int
  | PublicKeyLength
  | SignatureLength
  | BlockHashLength
  | SignedTooShort
  | SignerIdLength
  | SignerIdNotUtf8
  | KeyNotEd25519
  | SignatureNotEd25519
  | SignerReturned nat

definition writeU8 :: "int \<Rightarrow> (borsh_error, bytes) result" where
  "writeU8 v = (if v < 0 \<or> 0xff < v then Inl (U8OutOfRange v) else Inr [word_of_nat (nat v)])"

definition writeU32 :: "int \<Rightarrow> (borsh_error, bytes) result" where
  "writeU32 v = (if v < 0 \<or> 0xffffffff < v then Inl (U32OutOfRange v) else Inr (le_bytes 4 (nat v)))"

definition writeU64 :: "int \<Rightarrow> (borsh_error, bytes) result" where
  "writeU64 v = (if v < 0 \<or> 0xffffffffffffffff < v then Inl (U64OutOfRange v) else Inr (le_bytes 8 (nat v)))"

text \<open>The loop over sixteen bytes takes the low byte and shifts; it is \<open>le_bytes\<close>.\<close>

definition writeU128 :: "int \<Rightarrow> (borsh_error, bytes) result" where
  "writeU128 v = (if v < 0 \<or> 2 ^ 128 - 1 < v then Inl (U128OutOfRange v) else Inr (le_bytes 16 (nat v)))"

definition writeByteVec :: "bytes \<Rightarrow> (borsh_error, bytes) result" where
  "writeByteVec bs = bind_res (writeU32 (int (length bs))) (\<lambda>n. Inr (n @ bs))"

definition writeString :: "string \<Rightarrow> (borsh_error, bytes) result" where
  "writeString s = writeByteVec (utf8 s)"

section \<open>The structures\<close>

text \<open>A key or signature is its raw bytes: the only key type is ED25519.\<close>

definition writePublicKey :: "bytes \<Rightarrow> (borsh_error, bytes) result" where
  "writePublicKey key =
     (if length key \<noteq> 32 then Inl PublicKeyLength else bind_res (writeU8 0) (\<lambda>t. Inr (t @ key)))"

definition writeSignature :: "bytes \<Rightarrow> (borsh_error, bytes) result" where
  "writeSignature sig =
     (if length sig \<noteq> 64 then Inl SignatureLength else bind_res (writeU8 0) (\<lambda>t. Inr (t @ sig)))"

record function_call_permission =
  fc_allowance :: "int option"
  fc_receiverId :: string
  fc_methodNames :: "string list"

datatype near_key_permission = FullAccess | FunctionCallKey function_call_permission

datatype near_action =
    CreateAccount
  | DeployContract bytes
  | FunctionCall string bytes int int
  | Transfer int
  | AddKey bytes int near_key_permission
  | DeleteKey bytes

definition writeAllowance :: "int option \<Rightarrow> (borsh_error, bytes) result" where
  "writeAllowance a =
     (case a of
        None \<Rightarrow> writeU8 0
      | Some v \<Rightarrow> bind_res (writeU8 1) (\<lambda>t. bind_res (writeU128 v) (\<lambda>x. Inr (t @ x))))"

definition writePermission :: "near_key_permission \<Rightarrow> (borsh_error, bytes) result" where
  "writePermission p =
     (case p of
        FullAccess \<Rightarrow> writeU8 1
      | FunctionCallKey fc \<Rightarrow>
          bind_res (writeU8 0) (\<lambda>t.
          bind_res (writeAllowance (fc_allowance fc)) (\<lambda>a.
          bind_res (writeString (fc_receiverId fc)) (\<lambda>r.
          bind_res (writeU32 (int (length (fc_methodNames fc)))) (\<lambda>n.
          bind_res (enc_all writeString (fc_methodNames fc)) (\<lambda>ms.
            Inr (t @ a @ r @ n @ ms)))))))"

definition writeAction :: "near_action \<Rightarrow> (borsh_error, bytes) result" where
  "writeAction action =
     (case action of
        CreateAccount \<Rightarrow> writeU8 0
      | DeployContract code \<Rightarrow>
          bind_res (writeU8 1) (\<lambda>t. bind_res (writeByteVec code) (\<lambda>c. Inr (t @ c)))
      | FunctionCall methodName args gas deposit \<Rightarrow>
          bind_res (writeU8 2) (\<lambda>t.
          bind_res (writeString methodName) (\<lambda>m.
          bind_res (writeByteVec args) (\<lambda>a.
          bind_res (writeU64 gas) (\<lambda>g.
          bind_res (writeU128 deposit) (\<lambda>d. Inr (t @ m @ a @ g @ d))))))
      | Transfer deposit \<Rightarrow>
          bind_res (writeU8 3) (\<lambda>t. bind_res (writeU128 deposit) (\<lambda>d. Inr (t @ d)))
      | AddKey key nonce permission \<Rightarrow>
          bind_res (writeU8 5) (\<lambda>t.
          bind_res (writePublicKey key) (\<lambda>k.
          bind_res (writeU64 nonce) (\<lambda>n.
          bind_res (writePermission permission) (\<lambda>p. Inr (t @ k @ n @ p)))))
      | DeleteKey key \<Rightarrow>
          bind_res (writeU8 6) (\<lambda>t. bind_res (writePublicKey key) (\<lambda>k. Inr (t @ k))))"

record near_transaction =
  nt_signerId :: string
  nt_publicKey :: bytes
  nt_nonce :: int
  nt_receiverId :: string
  nt_blockHash :: bytes
  nt_actions :: "near_action list"

definition encodeTransactionV0 :: "near_transaction \<Rightarrow> (borsh_error, bytes) result" where
  "encodeTransactionV0 tx =
     (if length (nt_blockHash tx) \<noteq> 32 then Inl BlockHashLength
      else
        bind_res (writeString (nt_signerId tx)) (\<lambda>s.
        bind_res (writePublicKey (nt_publicKey tx)) (\<lambda>k.
        bind_res (writeU64 (nt_nonce tx)) (\<lambda>n.
        bind_res (writeString (nt_receiverId tx)) (\<lambda>r.
        bind_res (writeU32 (int (length (nt_actions tx)))) (\<lambda>c.
        bind_res (enc_all writeAction (nt_actions tx)) (\<lambda>as.
          Inr (s @ k @ n @ r @ nt_blockHash tx @ c @ as))))))))"

record near_signed =
  ns_transaction :: near_transaction
  ns_signature :: bytes

definition encodeSignedTransaction :: "near_signed \<Rightarrow> (borsh_error, bytes) result" where
  "encodeSignedTransaction stx =
     bind_res (encodeTransactionV0 (ns_transaction stx)) (\<lambda>tx.
     bind_res (writeSignature (ns_signature stx)) (\<lambda>sig. Inr (tx @ sig)))"

record near_lib =
  near_sha256 :: "bytes \<Rightarrow> bytes"
  near_base58 :: "bytes \<Rightarrow> string"

definition transactionHashBytes :: "near_lib \<Rightarrow> near_transaction \<Rightarrow> (borsh_error, bytes) result" where
  "transactionHashBytes N tx = bind_res (encodeTransactionV0 tx) (\<lambda>b. Inr (near_sha256 N b))"

section \<open>Reading the header of a signed transaction\<close>

record near_header =
  nh_signerId :: string
  nh_publicKey :: bytes
  nh_nonce :: int
  nh_txHash :: string

definition SIGNATURE_BYTES :: nat where
  "SIGNATURE_BYTES = 1 + 64"

definition decodeSignedTransactionHeader :: "near_lib \<Rightarrow> bytes \<Rightarrow> (borsh_error, near_header) result" where
  "decodeSignedTransactionHeader N bs =
     (if length bs < 4 + 1 + 33 + 8 + SIGNATURE_BYTES then Inl SignedTooShort
      else (let idLength = le_value (take 4 bs)
            in if idLength = 0 \<or> 64 < idLength \<or> length bs - SIGNATURE_BYTES < 4 + idLength + 33 + 8
               then Inl SignerIdLength
               else (case of_utf8 (take idLength (drop 4 bs)) of
                       None \<Rightarrow> Inl SignerIdNotUtf8
                     | Some signerId \<Rightarrow>
                         (let rest = drop (4 + idLength) bs
                          in if hd rest \<noteq> 0 then Inl KeyNotEd25519
                             else if bs ! (length bs - SIGNATURE_BYTES) \<noteq> 0 then Inl SignatureNotEd25519
                             else Inr \<lparr>nh_signerId = signerId, nh_publicKey = take 32 (drop 1 rest),
                                       nh_nonce = int (le_value (take 8 (drop 33 rest))),
                                       nh_txHash = near_base58 N (near_sha256 N (take (length bs - SIGNATURE_BYTES) bs))\<rparr>))))"

section \<open>Building a signed transaction\<close>

record near_built =
  nb_signed :: near_signed
  nb_txBytes :: bytes
  nb_hash :: bytes
  nb_signedBytes :: bytes
  nb_txHashBase58 :: string

definition buildSignedTransaction ::
    "near_lib \<Rightarrow> near_transaction \<Rightarrow> (bytes \<Rightarrow> bytes) \<Rightarrow> (borsh_error, near_built) result" where
  "buildSignedTransaction N tx sign =
     bind_res (encodeTransactionV0 tx) (\<lambda>txBytes.
       let hash = near_sha256 N txBytes;
           signatureData = sign hash
       in if length signatureData \<noteq> 64 then Inl (SignerReturned (length signatureData))
          else (let stx = \<lparr>ns_transaction = tx, ns_signature = signatureData\<rparr>
                in bind_res (encodeSignedTransaction stx) (\<lambda>signedBytes.
                     Inr \<lparr>nb_signed = stx, nb_txBytes = txBytes, nb_hash = hash, nb_signedBytes = signedBytes,
                          nb_txHashBase58 = near_base58 N hash\<rparr>)))"

section \<open>Every field is a prefix code\<close>

lemma le_prefix:
  assumes "m < 256 ^ k" "n < 256 ^ k" "le_bytes k m @ r = le_bytes k n @ s"
  shows "m = n \<and> r = s"
proof -
  have "le_bytes k m = le_bytes k n \<and> r = s" using assms(3) by simp
  then show ?thesis using le_bytes_inject assms(1,2) by blast
qed

lemma uint_prefix:
  assumes "0 \<le> x" "x < 256 ^ k" "0 \<le> y" "y < 256 ^ k" "le_bytes k (nat x) @ r = le_bytes k (nat y) @ s"
  shows "x = y \<and> r = s"
proof -
  have "nat x < 256 ^ k" "nat y < 256 ^ k"
    using assms(1-4) by (simp_all add: nat_less_iff)
  from le_prefix [OF this assms(5)] assms(1,3) show ?thesis by (auto simp: eq_nat_nat_iff)
qed

interpretation u8: prefix_code writeU8
proof
  fix x y a b and r s :: bytes
  assume k: "writeU8 x = Inr a" "writeU8 y = Inr b" "a @ r = b @ s"
  have w: "unat (word_of_nat (nat v) :: 8 word) = nat v" if "0 \<le> v" "v \<le> 0xff" for v
    by (rule unat_byte) (use that in linarith)
  have b: "0 \<le> x" "x \<le> 0xff" "0 \<le> y" "y \<le> 0xff"
    using k(1,2) by (auto simp: writeU8_def split: if_splits)
  have "(word_of_nat (nat x) :: 8 word) = word_of_nat (nat y)" and r: "r = s"
    using k b by (auto simp: writeU8_def)
  then have "nat x = nat y" using w b by metis
  then show "x = y \<and> r = s" using b r by simp
qed

interpretation u32: prefix_code writeU32
  by unfold_locales (auto simp: writeU32_def dest!: uint_prefix [where k = 4, rotated 4] split: if_splits)

interpretation u64: prefix_code writeU64
  by unfold_locales (auto simp: writeU64_def dest!: uint_prefix [where k = 8, rotated 4] split: if_splits)

interpretation u128: prefix_code writeU128
  by unfold_locales (auto simp: writeU128_def dest!: uint_prefix [where k = 16, rotated 4] split: if_splits)

lemma writeU8_tag [simp]: "0 \<le> v \<Longrightarrow> v \<le> 0xff \<Longrightarrow> writeU8 v = Inr [word_of_nat (nat v)]"
  by (simp add: writeU8_def)

interpretation byte_vec: prefix_code writeByteVec
proof
  fix x y a b r s :: bytes
  assume k: "writeByteVec x = Inr a" "writeByteVec y = Inr b" "a @ r = b @ s"
  obtain m n where m: "writeU32 (int (length x)) = Inr m" "a = m @ x"
    and n: "writeU32 (int (length y)) = Inr n" "b = n @ y"
    using k(1,2) by (auto simp: writeByteVec_def result_simps)
  have "int (length x) = int (length y) \<and> x @ r = y @ s"
    using u32.determined [OF m(1) n(1)] k(3) m(2) n(2) by simp
  then show "x = y \<and> r = s" by auto
qed

interpretation borsh_string: prefix_code writeString
proof
  fix x y :: string and a b r s :: bytes
  assume "writeString x = Inr a" "writeString y = Inr b" "a @ r = b @ s"
  from byte_vec.determined [OF this [unfolded writeString_def]] show "x = y \<and> r = s" by simp
qed

interpretation public_key: prefix_code writePublicKey
  by unfold_locales (auto simp: writePublicKey_def split: if_splits)

interpretation signature: prefix_code writeSignature
  by unfold_locales (auto simp: writeSignature_def split: if_splits)

interpretation allowance: prefix_code writeAllowance
proof
  fix x y :: "int option" and a b r s :: bytes
  assume k: "writeAllowance x = Inr a" "writeAllowance y = Inr b" "a @ r = b @ s"
  show "x = y \<and> r = s"
  proof (cases x; cases y)
    fix v w
    assume x: "x = Some v" and y: "y = Some w"
    obtain m n where m: "writeU128 v = Inr m" "a = 1 # m" and n: "writeU128 w = Inr n" "b = 1 # n"
      using k(1,2) by (auto simp: x y writeAllowance_def result_simps)
    show ?thesis using u128.determined [OF m(1) n(1)] k(3) m(2) n(2) x y by auto
  qed (use k in \<open>auto simp: writeAllowance_def result_simps\<close>)
qed

interpretation permission: prefix_code writePermission
proof
  fix x y a b and r s :: bytes
  assume k: "writePermission x = Inr a" "writePermission y = Inr b" "a @ r = b @ s"
  show "x = y \<and> r = s"
  proof (cases x; cases y)
    fix f g
    assume x: "x = FunctionCallKey f" and y: "y = FunctionCallKey g"
    obtain a1 a2 a3 a4 where a: "writeAllowance (fc_allowance f) = Inr a1" "writeString (fc_receiverId f) = Inr a2"
      "writeU32 (int (length (fc_methodNames f))) = Inr a3" "enc_all writeString (fc_methodNames f) = Inr a4"
      "a = 0 # a1 @ a2 @ a3 @ a4"
      using k(1) by (auto simp: x writePermission_def result_simps)
    obtain b1 b2 b3 b4 where b: "writeAllowance (fc_allowance g) = Inr b1" "writeString (fc_receiverId g) = Inr b2"
      "writeU32 (int (length (fc_methodNames g))) = Inr b3" "enc_all writeString (fc_methodNames g) = Inr b4"
      "b = 0 # b1 @ b2 @ b3 @ b4"
      using k(2) by (auto simp: y writePermission_def result_simps)
    have e: "a1 @ (a2 @ a3 @ a4 @ r) = b1 @ (b2 @ b3 @ b4 @ s)" using k(3) a(5) b(5) by simp
    from allowance.determined [OF a(1) b(1) e]
    have e1: "fc_allowance f = fc_allowance g" "a2 @ (a3 @ a4 @ r) = b2 @ (b3 @ b4 @ s)" by simp_all
    from borsh_string.determined [OF a(2) b(2) e1(2)]
    have e2: "fc_receiverId f = fc_receiverId g" "a3 @ (a4 @ r) = b3 @ (b4 @ s)" by simp_all
    from u32.determined [OF a(3) b(3) e2(2)]
    have e3: "length (fc_methodNames f) = length (fc_methodNames g)" "a4 @ r = b4 @ s" by simp_all
    from borsh_string.enc_all_determined [OF a(4) b(4) e3]
    show "x = y \<and> r = s" using e1 e2 x y by simp
  qed (use k in \<open>auto simp: writePermission_def result_simps\<close>)
qed

text \<open>The first byte of an action is the tag of its constructor.\<close>

fun action_tag :: "near_action \<Rightarrow> 8 word" where
  "action_tag CreateAccount = 0"
| "action_tag (DeployContract code) = 1"
| "action_tag (FunctionCall methodName args gas deposit) = 2"
| "action_tag (Transfer deposit) = 3"
| "action_tag (AddKey key nonce perm) = 5"
| "action_tag (DeleteKey key) = 6"

lemma writeAction_tag: "writeAction x = Inr a \<Longrightarrow> \<exists>rest. a = action_tag x # rest"
  by (cases x) (auto simp: writeAction_def result_simps)

lemma function_call_determined:
  assumes a: "writeAction (FunctionCall m u g d) = Inr a" and b: "writeAction (FunctionCall m' u' g' d') = Inr b"
    and e: "a @ r = b @ s"
  shows "m = m' \<and> u = u' \<and> g = g' \<and> d = d' \<and> r = s"
proof -
  obtain a1 a2 a3 a4 where a: "writeString m = Inr a1" "writeByteVec u = Inr a2" "writeU64 g = Inr a3"
    "writeU128 d = Inr a4" "a = 2 # a1 @ a2 @ a3 @ a4"
    using a by (auto simp: writeAction_def result_simps)
  obtain b1 b2 b3 b4 where b: "writeString m' = Inr b1" "writeByteVec u' = Inr b2" "writeU64 g' = Inr b3"
    "writeU128 d' = Inr b4" "b = 2 # b1 @ b2 @ b3 @ b4"
    using b by (auto simp: writeAction_def result_simps)
  have e: "a1 @ (a2 @ a3 @ a4 @ r) = b1 @ (b2 @ b3 @ b4 @ s)" using e a(5) b(5) by simp
  from borsh_string.determined [OF a(1) b(1) e]
  have e1: "m = m'" "a2 @ (a3 @ a4 @ r) = b2 @ (b3 @ b4 @ s)" by simp_all
  from byte_vec.determined [OF a(2) b(2) e1(2)]
  have e2: "u = u'" "a3 @ (a4 @ r) = b3 @ (b4 @ s)" by simp_all
  from u64.determined [OF a(3) b(3) e2(2)] have e3: "g = g'" "a4 @ r = b4 @ s" by simp_all
  from u128.determined [OF a(4) b(4) e3(2)] e1 e2 e3 show ?thesis by simp
qed

lemma add_key_determined:
  assumes a: "writeAction (AddKey k n p) = Inr a" and b: "writeAction (AddKey k' n' p') = Inr b"
    and e: "a @ r = b @ s"
  shows "k = k' \<and> n = n' \<and> p = p' \<and> r = s"
proof -
  obtain a1 a2 a3 where a: "writePublicKey k = Inr a1" "writeU64 n = Inr a2" "writePermission p = Inr a3"
    "a = 5 # a1 @ a2 @ a3"
    using a by (auto simp: writeAction_def result_simps)
  obtain b1 b2 b3 where b: "writePublicKey k' = Inr b1" "writeU64 n' = Inr b2" "writePermission p' = Inr b3"
    "b = 5 # b1 @ b2 @ b3"
    using b by (auto simp: writeAction_def result_simps)
  have e: "a1 @ (a2 @ a3 @ r) = b1 @ (b2 @ b3 @ s)" using e a(4) b(4) by simp
  from public_key.determined [OF a(1) b(1) e] have e1: "k = k'" "a2 @ (a3 @ r) = b2 @ (b3 @ s)" by simp_all
  from u64.determined [OF a(2) b(2) e1(2)] have e2: "n = n'" "a3 @ r = b3 @ s" by simp_all
  from permission.determined [OF a(3) b(3) e2(2)] e1 e2 show ?thesis by simp
qed

text \<open>A tag byte in front of one field.\<close>

lemma tagged_determined:
  assumes p: "prefix_code enc"
    and x: "bind_res (enc x) (\<lambda>c. Inr (t # c)) = Inr a" and y: "bind_res (enc y) (\<lambda>c. Inr (t # c)) = Inr b"
    and e: "a @ r = b @ s"
  shows "x = y \<and> r = s"
proof -
  obtain u v where u: "enc x = Inr u" "a = t # u" and v: "enc y = Inr v" "b = t # v"
    using x y by (auto simp: result_simps)
  show ?thesis using prefix_code.determined [OF p u(1) v(1)] e u(2) v(2) by simp
qed

lemmas action_fields =
  tagged_determined [OF byte_vec.prefix_code_axioms] tagged_determined [OF u128.prefix_code_axioms]
  tagged_determined [OF public_key.prefix_code_axioms]

interpretation near_action: prefix_code writeAction
proof
  fix x y a b and r s :: bytes
  assume k: "writeAction x = Inr a" "writeAction y = Inr b" "a @ r = b @ s"
  have t: "action_tag x = action_tag y" using writeAction_tag [OF k(1)] writeAction_tag [OF k(2)] k(3) by auto
  show "x = y \<and> r = s"
  proof (cases x)
    case CreateAccount
    then show ?thesis using k t by (cases y) (simp_all add: writeAction_def)
  next
    case (DeployContract c)
    then obtain c' where "y = DeployContract c'" using t by (cases y) simp_all
    with DeployContract k show ?thesis by (auto simp: writeAction_def dest: action_fields)
  next
    case (FunctionCall m u g d)
    then obtain m' u' g' d' where "y = FunctionCall m' u' g' d'" using t by (cases y) simp_all
    with FunctionCall k show ?thesis by (auto dest: function_call_determined)
  next
    case (Transfer d)
    then obtain d' where "y = Transfer d'" using t by (cases y) simp_all
    with Transfer k show ?thesis by (auto simp: writeAction_def dest: action_fields)
  next
    case (AddKey key n p)
    then obtain k' n' p' where "y = AddKey k' n' p'" using t by (cases y) simp_all
    with AddKey k show ?thesis by (auto dest: add_key_determined)
  next
    case (DeleteKey key)
    then obtain k' where "y = DeleteKey k'" using t by (cases y) simp_all
    with DeleteKey k show ?thesis by (auto simp: writeAction_def dest: action_fields)
  qed
qed

section \<open>Transactions\<close>

lemma encodeTransactionV0_parts:
  assumes "encodeTransactionV0 tx = Inr b"
  obtains s k n r c acts where "length (nt_blockHash tx) = 32" "writeString (nt_signerId tx) = Inr s"
    "writePublicKey (nt_publicKey tx) = Inr k" "writeU64 (nt_nonce tx) = Inr n" "writeString (nt_receiverId tx) = Inr r"
    "writeU32 (int (length (nt_actions tx))) = Inr c" "enc_all writeAction (nt_actions tx) = Inr acts"
    "b = s @ k @ n @ r @ nt_blockHash tx @ c @ acts"
  using assms by (auto simp: encodeTransactionV0_def result_simps split: if_splits)

lemma transaction_determined:
  assumes a: "encodeTransactionV0 x = Inr a" and b: "encodeTransactionV0 y = Inr b" and e: "a @ u = b @ v"
  shows "x = y \<and> u = v"
proof -
  obtain a1 a2 a3 a4 a5 a6 where x: "length (nt_blockHash x) = 32" "writeString (nt_signerId x) = Inr a1"
    "writePublicKey (nt_publicKey x) = Inr a2" "writeU64 (nt_nonce x) = Inr a3" "writeString (nt_receiverId x) = Inr a4"
    "writeU32 (int (length (nt_actions x))) = Inr a5" "enc_all writeAction (nt_actions x) = Inr a6"
    "a = a1 @ a2 @ a3 @ a4 @ nt_blockHash x @ a5 @ a6"
    using a by (rule encodeTransactionV0_parts)
  obtain b1 b2 b3 b4 b5 b6 where y: "length (nt_blockHash y) = 32" "writeString (nt_signerId y) = Inr b1"
    "writePublicKey (nt_publicKey y) = Inr b2" "writeU64 (nt_nonce y) = Inr b3" "writeString (nt_receiverId y) = Inr b4"
    "writeU32 (int (length (nt_actions y))) = Inr b5" "enc_all writeAction (nt_actions y) = Inr b6"
    "b = b1 @ b2 @ b3 @ b4 @ nt_blockHash y @ b5 @ b6"
    using b by (rule encodeTransactionV0_parts)
  have "a1 @ (a2 @ a3 @ a4 @ nt_blockHash x @ a5 @ a6 @ u) = b1 @ (b2 @ b3 @ b4 @ nt_blockHash y @ b5 @ b6 @ v)"
    using e x(8) y(8) by simp
  from borsh_string.determined [OF x(2) y(2) this]
  have e1: "nt_signerId x = nt_signerId y"
    "a2 @ (a3 @ a4 @ nt_blockHash x @ a5 @ a6 @ u) = b2 @ (b3 @ b4 @ nt_blockHash y @ b5 @ b6 @ v)" by simp_all
  from public_key.determined [OF x(3) y(3) e1(2)]
  have e2: "nt_publicKey x = nt_publicKey y"
    "a3 @ (a4 @ nt_blockHash x @ a5 @ a6 @ u) = b3 @ (b4 @ nt_blockHash y @ b5 @ b6 @ v)" by simp_all
  from u64.determined [OF x(4) y(4) e2(2)]
  have e3: "nt_nonce x = nt_nonce y"
    "a4 @ (nt_blockHash x @ a5 @ a6 @ u) = b4 @ (nt_blockHash y @ b5 @ b6 @ v)" by simp_all
  from borsh_string.determined [OF x(5) y(5) e3(2)]
  have e4: "nt_receiverId x = nt_receiverId y"
    "nt_blockHash x = nt_blockHash y" "a5 @ (a6 @ u) = b5 @ (b6 @ v)" using x(1) y(1) by auto
  from u32.determined [OF x(6) y(6) e4(3)]
  have e5: "length (nt_actions x) = length (nt_actions y)" "a6 @ u = b6 @ v" by simp_all
  from near_action.enc_all_determined [OF x(7) y(7) e5] e1 e2 e3 e4 show ?thesis by simp
qed

interpretation transaction: prefix_code encodeTransactionV0
  by unfold_locales (rule transaction_determined)

text \<open>The bytes that are hashed and signed fix the transaction: two transactions with the same
  encoding have the same signer, key, nonce, receiver, block hash and list of actions, in the same
  order and with the same gas, deposits, arguments and permissions.\<close>

theorem transaction_bytes_inject:
  assumes "encodeTransactionV0 x = Inr b" "encodeTransactionV0 y = Inr b"
  shows "x = y"
  using assms by (rule transaction.code_inject)

text \<open>What the reader of the header finds in the bytes of a transaction.\<close>

lemma writeString_bytes:
  "writeString s = Inr a \<Longrightarrow> a = le_bytes 4 (length (utf8 s)) @ utf8 s \<and> length (utf8 s) < 256 ^ 4"
  by (auto simp: writeString_def writeByteVec_def writeU32_def result_simps split: if_splits)

lemma encodeSigned_layout:
  assumes "encodeSignedTransaction stx = Inr bs"
  obtains t where "encodeTransactionV0 (ns_transaction stx) = Inr t" "bs = t @ 0 # ns_signature stx"
    "length (ns_signature stx) = 64"
  using assms by (auto simp: encodeSignedTransaction_def writeSignature_def result_simps split: if_splits)

lemma transaction_layout:
  assumes "encodeTransactionV0 tx = Inr t"
  obtains rest where
    "t = le_bytes 4 (length (utf8 (nt_signerId tx))) @ utf8 (nt_signerId tx) @ 0 # nt_publicKey tx
           @ le_bytes 8 (nat (nt_nonce tx)) @ rest"
    "length (utf8 (nt_signerId tx)) < 256 ^ 4" "length (nt_publicKey tx) = 32"
    "0 \<le> nt_nonce tx" "nat (nt_nonce tx) < 256 ^ 8"
proof -
  obtain s k n r c acts where p: "length (nt_blockHash tx) = 32" "writeString (nt_signerId tx) = Inr s"
    "writePublicKey (nt_publicKey tx) = Inr k" "writeU64 (nt_nonce tx) = Inr n" "writeString (nt_receiverId tx) = Inr r"
    "writeU32 (int (length (nt_actions tx))) = Inr c" "enc_all writeAction (nt_actions tx) = Inr acts"
    "t = s @ k @ n @ r @ nt_blockHash tx @ c @ acts"
    using assms by (rule encodeTransactionV0_parts)
  have "k = 0 # nt_publicKey tx" "length (nt_publicKey tx) = 32"
    using p(3) by (auto simp: writePublicKey_def split: if_splits)
  moreover have "n = le_bytes 8 (nat (nt_nonce tx))" "0 \<le> nt_nonce tx" "nat (nt_nonce tx) < 256 ^ 8"
    using p(4) by (auto simp: writeU64_def nat_less_iff split: if_splits)
  ultimately show ?thesis
    using that writeString_bytes [OF p(2)] p(8) by simp
qed

lemma decode_layout:
  assumes t: "t = le_bytes 4 (length (utf8 sid)) @ utf8 sid @ 0 # key @ le_bytes 8 n @ rest"
    and l: "1 \<le> length (utf8 sid)" "length (utf8 sid) \<le> 64" "length key = 32" "n < 256 ^ 8" "length sig = 64"
  shows "decodeSignedTransactionHeader N (t @ 0 # sig)
    = Inr \<lparr>nh_signerId = sid, nh_publicKey = key, nh_nonce = int n, nh_txHash = near_base58 N (near_sha256 N t)\<rparr>"
proof -
  have v: "le_value (le_bytes 4 (length (utf8 sid))) = length (utf8 sid)" using l(2) by simp
  have m: "le_value (le_bytes 8 n) = n" using l(4) by (rule le_value_bytes)
  have len: "length t = 4 + length (utf8 sid) + 33 + 8 + length rest" using t l(3) by simp
  have p1: "take 4 (t @ 0 # sig) = le_bytes 4 (length (utf8 sid))" by (simp add: t)
  have p2: "take (length (utf8 sid)) (drop 4 (t @ 0 # sig)) = utf8 sid" by (simp add: t)
  have p3: "drop (4 + length (utf8 sid)) (t @ 0 # sig) = 0 # key @ le_bytes 8 n @ rest @ 0 # sig"
    by (simp add: t)
  have p4: "(t @ 0 # sig) ! (length (t @ 0 # sig) - 65) = 0" and p5: "take (length (t @ 0 # sig) - 65) (t @ 0 # sig) = t"
    using l(5) by simp_all
  show ?thesis
    unfolding decodeSignedTransactionHeader_def SIGNATURE_BYTES_def Let_def p1 p2 v p3
    using l len m p4 p5 by (auto simp del: length_0_conv length_greater_0_conv simp flip: length_0_conv)
qed

text \<open>C34. The header a resuming caller reads from recorded bytes is the one of the transaction that
  was built: for a signer id of 1 to 64 bytes the reader accepts the signed bytes and returns the
  signer, key and nonce of the transaction and the very hash that was recorded before sending.\<close>

theorem header_of_built:
  assumes "buildSignedTransaction N tx sign = Inr built"
    and "1 \<le> length (utf8 (nt_signerId tx))" "length (utf8 (nt_signerId tx)) \<le> 64"
  shows "decodeSignedTransactionHeader N (nb_signedBytes built)
    = Inr \<lparr>nh_signerId = nt_signerId tx, nh_publicKey = nt_publicKey tx, nh_nonce = nt_nonce tx,
           nh_txHash = nb_txHashBase58 built\<rparr>"
proof -
  obtain t where t: "encodeTransactionV0 tx = Inr t" "nb_txHashBase58 built = near_base58 N (near_sha256 N t)"
    "nb_signedBytes built = t @ 0 # sign (near_sha256 N t)" "length (sign (near_sha256 N t)) = 64"
    using assms(1)
    by (auto simp: buildSignedTransaction_def result_simps Let_def split: if_splits elim!: encodeSigned_layout)
  obtain rest where r: "t = le_bytes 4 (length (utf8 (nt_signerId tx))) @ utf8 (nt_signerId tx) @ 0 # nt_publicKey tx
      @ le_bytes 8 (nat (nt_nonce tx)) @ rest" "length (nt_publicKey tx) = 32" "0 \<le> nt_nonce tx" "nat (nt_nonce tx) < 256 ^ 8"
    using t(1) by (rule transaction_layout)
  show ?thesis
    using decode_layout [OF r(1) assms(2,3) r(2,4) t(4)] t r(3) by simp
qed

text \<open>A transfer by a signer with a short name.\<close>

definition demo_near_tx :: near_transaction where
  "demo_near_tx =
     \<lparr>nt_signerId = ''alice.near'', nt_publicKey = replicate 32 7, nt_nonce = 41, nt_receiverId = ''htlc.near'',
      nt_blockHash = replicate 32 9, nt_actions = [Transfer 5, CreateAccount]\<rparr>"

definition demo_near_lib :: near_lib where
  "demo_near_lib = \<lparr>near_sha256 = take 32, near_base58 = of_latin1\<rparr>"

lemma demo_near_encodes: "\<exists>b. encodeTransactionV0 demo_near_tx = Inr b"
  by (simp add: encodeTransactionV0_def demo_near_tx_def writeString_def writeByteVec_def writeU32_def
      writePublicKey_def writeU64_def writeAction_def writeU128_def utf8_def utf8_char_def)

theorem transaction_bytes_inject_witness:
  "\<exists>b. encodeTransactionV0 demo_near_tx = Inr b \<and> (\<forall>y. encodeTransactionV0 y = Inr b \<longrightarrow> demo_near_tx = y)"
  using demo_near_encodes transaction_bytes_inject by blast

theorem header_of_built_witness:
  "\<exists>built. buildSignedTransaction demo_near_lib demo_near_tx (\<lambda>h. replicate 64 1) = Inr built
     \<and> decodeSignedTransactionHeader demo_near_lib (nb_signedBytes built)
       = Inr \<lparr>nh_signerId = ''alice.near'', nh_publicKey = replicate 32 7, nh_nonce = 41,
              nh_txHash = nb_txHashBase58 built\<rparr>"
proof -
  obtain b where b: "encodeTransactionV0 demo_near_tx = Inr b" using demo_near_encodes ..
  obtain built where k: "buildSignedTransaction demo_near_lib demo_near_tx (\<lambda>h. replicate 64 1) = Inr built"
    by (simp add: buildSignedTransaction_def b encodeSignedTransaction_def writeSignature_def Let_def)
  have l: "length (utf8 (nt_signerId demo_near_tx)) = 10"
    by (simp add: demo_near_tx_def utf8_def utf8_char_def)
  from header_of_built [OF k] l
  have "decodeSignedTransactionHeader demo_near_lib (nb_signedBytes built)
      = Inr \<lparr>nh_signerId = nt_signerId demo_near_tx, nh_publicKey = nt_publicKey demo_near_tx,
             nh_nonce = nt_nonce demo_near_tx, nh_txHash = nb_txHashBase58 built\<rparr>" by simp
  then show ?thesis using k by (auto simp: demo_near_tx_def)
qed

end
