(* ===== verification/Near_Ref.thy ===== *)
theory Near_Ref
  imports Account_Line
begin

text \<open>
  \<open>src/rails/near-ref.ts\<close>: the reference of a NEAR lock, a hash lock and the payer's
  account id. The account grammar is the one of the account line.
\<close>

definition NEAR_HASH_LOCK_SHAPE :: "string \<Rightarrow> bool" where
  "NEAR_HASH_LOCK_SHAPE s \<longleftrightarrow> hex32 s"

record near_ref =
  nr_hashLock :: string
  nr_payer :: string

datatype near_ref_error = HashLockBad | PayerBad | RefBad

definition formatNearRef :: "string \<Rightarrow> string \<Rightarrow> (near_ref_error, string) result" where
  "formatNearRef hashLock payer =
     (if \<not> NEAR_HASH_LOCK_SHAPE hashLock then Inl HashLockBad
      else if \<not> NEAR_ACCOUNT_ID payer then Inl PayerBad
      else Inr (join_with (CHR '':'') [hashLock, payer]))"

text \<open>\<open>indexOf(":")\<close>, where \<open>None\<close> is minus one.\<close>

fun index_of :: "char \<Rightarrow> string \<Rightarrow> nat option" where
  "index_of c [] = None"
| "index_of c (x # s) = (if x = c then Some 0 else map_option Suc (index_of c s))"

definition parseNearRef :: "jsval \<Rightarrow> near_ref option" where
  "parseNearRef ref =
     (case ref of
        Str s \<Rightarrow>
          (let colon = index_of (CHR '':'') s
           in if colon \<noteq> Some 66 then None
              else (let hashLock = take 66 s; payer = drop 67 s
                    in if \<not> NEAR_HASH_LOCK_SHAPE hashLock \<or> \<not> NEAR_ACCOUNT_ID payer then None
                       else Some \<lparr>nr_hashLock = hashLock, nr_payer = payer\<rparr>))
      | _ \<Rightarrow> None)"

definition requireNearRef :: "string \<Rightarrow> (near_ref_error, near_ref) result" where
  "requireNearRef ref = or_throw (parseNearRef (Str ref)) RefBad"

lemma index_of_append: "c \<notin> set a \<Longrightarrow> index_of c (a @ c # b) = Some (length a)"
  by (induction a) auto

lemma index_of_Some: "index_of c s = Some n \<Longrightarrow> s = take n s @ c # drop (Suc n) s"
  by (induction s arbitrary: n) (auto split: if_splits)

lemma parse_formatNearRef:
  assumes "formatNearRef h p = Inr s"
  shows "parseNearRef (Str s) = Some \<lparr>nr_hashLock = h, nr_payer = p\<rparr>"
proof -
  have k: "hex32 h" "NEAR_ACCOUNT_ID p" "s = h @ CHR '':'' # p"
    using assms by (auto simp: formatNearRef_def NEAR_HASH_LOCK_SHAPE_def split: if_splits)
  have len: "length h = 66" using k(1) by (rule hex32_length)
  have "index_of (CHR '':'') s = Some 66"
    using index_of_append [OF hex32_notin(2) [OF k(1)]] k(3) len by simp
  then show ?thesis
    using k len by (simp add: parseNearRef_def NEAR_HASH_LOCK_SHAPE_def)
qed

lemma format_parseNearRef:
  assumes "parseNearRef v = Some r"
  shows "\<exists>s. v = Str s \<and> formatNearRef (nr_hashLock r) (nr_payer r) = Inr s"
proof -
  obtain s where s: "v = Str s" using assms by (cases v) (auto simp: parseNearRef_def)
  have k: "index_of (CHR '':'') s = Some 66" "NEAR_HASH_LOCK_SHAPE (take 66 s)" "NEAR_ACCOUNT_ID (drop 67 s)"
    "r = \<lparr>nr_hashLock = take 66 s, nr_payer = drop 67 s\<rparr>"
    using assms by (auto simp: parseNearRef_def s Let_def split: if_splits)
  have "s = take 66 s @ CHR '':'' # drop 67 s" using index_of_Some [OF k(1)] by simp
  then show ?thesis using s k by (simp add: formatNearRef_def)
qed

interpretation near_ref_wire: wire_format "\<lambda>_. True" "\<lambda>_ x. formatNearRef (fst x) (snd x)"
  "\<lambda>_ s. parseNearRef (Str s)" "\<lambda>_ x. \<lparr>nr_hashLock = fst x, nr_payer = snd x\<rparr>"
  by unfold_locales (auto dest: parse_formatNearRef)

end
