(* ===== verification/Json_Text.thy ===== *)
theory Json_Text
  imports Js_Numbers "HOL-Library.AList" "HOL-Library.Char_ord" "HOL-Library.List_Lexorder"
begin

text \<open>
  The two functions of the language that turn values into text and back: \<open>JSON.stringify\<close>
  of a primitive, the key-sorted form \<open>canonical\<close> the flow records are hashed in
  (\<open>src/client/flow-record.ts\<close>), and \<open>JSON.parse\<close>. Characters have 8 bits here:
  an escape that names a code unit above 255 is outside the model and the parser answers
  \<open>None\<close>, as for a syntax error. The parser runs on fuel, twice the length of its input, and
  \<open>json_fuel\<close> shows that no further fuel changes its answer.
\<close>

section \<open>Numbers\<close>

definition pow10 :: "int \<Rightarrow> rat" where
  "pow10 e = (if 0 \<le> e then 10 ^ nat e else 1 / 10 ^ nat (- e))"

text \<open>The double nearest to a rational, with the limited exponents of the format.\<close>

definition js_number :: "rat \<Rightarrow> jsnum" where
  "js_number q =
     (if \<bar>q\<bar> < pow2 (- 1022) then Fin (of_int (round_even (q * pow2 1074)) * pow2 (- 1074))
      else if pow2 1024 \<le> \<bar>fl q\<bar> then (if 0 < q then PosInf else NegInf)
      else Fin (fl q))"

definition show_int :: "int \<Rightarrow> string" where
  "show_int i = (if i < 0 then CHR ''-'' # show_nat (nat (- i)) else show_nat (nat i))"

text \<open>\<open>Number::toString\<close> of a positive double: the fewest digits that denote it, the closest
  of them, and the position of the point (the value is \<open>0.digits\<close> times that power of ten).\<close>

definition digits_of_length :: "rat \<Rightarrow> int \<Rightarrow> nat \<Rightarrow> (string \<times> int) option" where
  "digits_of_length q n k =
     (let x = q * pow10 (int k - n); f = \<lfloor>x\<rfloor>;
          ok = (\<lambda>s. js_number (of_int s * pow10 (n - int k)) = Fin q);
          cs = List.filter ok (if x - of_int f \<le> 1 / 2 then [f, f + 1] else [f + 1, f])
      in case cs of
           [] \<Rightarrow> None
         | s # _ \<Rightarrow> (let d = show_nat (nat s) in Some (d, n + int (length d) - int k)))"

definition decimal_point :: "rat \<Rightarrow> int" where
  "decimal_point q = hd (List.filter (\<lambda>n. q < pow10 n) [- 330 .. 310] @ [310])"

definition shortest_digits :: "rat \<Rightarrow> string \<times> int" where
  "shortest_digits q =
     (case List.map_filter (digits_of_length q (decimal_point q)) [1..<18] of
        [] \<Rightarrow> (''0'', 1)
      | (d, n) # _ \<Rightarrow> (rev (dropWhile (\<lambda>c. c = CHR ''0'') (rev d)), n))"

definition positive_text :: "rat \<Rightarrow> string" where
  "positive_text q =
     (let (d, n) = shortest_digits q; k = int (length d)
      in if k \<le> n \<and> n \<le> 21 then d @ replicate (nat (n - k)) (CHR ''0'')
         else if 0 < n \<and> n \<le> 21 then take (nat n) d @ CHR ''.'' # drop (nat n) d
         else if - 6 < n \<and> n \<le> 0 then ''0.'' @ replicate (nat (- n)) (CHR ''0'') @ d
         else (let e = n - 1; sgn = (if e < 0 then ''e-'' else ''e+'')
               in (if k = 1 then d else take 1 d @ CHR ''.'' # drop 1 d) @ sgn @ show_nat (nat \<bar>e\<bar>)))"

text \<open>\<open>JSON.stringify\<close> of a number. A safe integer prints as its decimal digits.\<close>

definition number_text :: "jsnum \<Rightarrow> string" where
  "number_text x =
     (case x of
        Fin q \<Rightarrow>
          (case safe_int_of (Num x) of
             Some i \<Rightarrow> show_int i
           | None \<Rightarrow> if q < 0 then CHR ''-'' # positive_text (- q) else positive_text q)
      | _ \<Rightarrow> ''null'')"

section \<open>Strings\<close>

abbreviation (input) QUOTE :: char where "QUOTE \<equiv> CHR 0x22"
abbreviation (input) BACKSLASH :: char where "BACKSLASH \<equiv> CHR 0x5C"

definition short_escapes :: "(char \<times> char) list" where
  "short_escapes =
     [(QUOTE, QUOTE), (BACKSLASH, BACKSLASH), (CHR 0x08, CHR ''b''), (CHR 0x09, CHR ''t''),
      (CHR 0x0A, CHR ''n''), (CHR 0x0C, CHR ''f''), (CHR 0x0D, CHR ''r'')]"

definition quote_char :: "char \<Rightarrow> string" where
  "quote_char c =
     (case map_of short_escapes c of
        Some e \<Rightarrow> [BACKSLASH, e]
      | None \<Rightarrow>
          (let n = of_char c :: nat
           in if n < 32 then [BACKSLASH, CHR ''u'', CHR ''0'', CHR ''0'', lower_hex ! (n div 16), lower_hex ! (n mod 16)]
              else [c]))"

definition string_text :: "string \<Rightarrow> string" where
  "string_text s = QUOTE # concat (map quote_char s) @ [QUOTE]"

definition hex_digit :: "char \<Rightarrow> nat option" where
  "hex_digit c =
     (let n = of_char c :: nat
      in if c \<in> set digits then Some (n - 48)
         else if c \<in> set ''abcdef'' then Some (n - 87)
         else if c \<in> set ''ABCDEF'' then Some (n - 55) else None)"

definition hex_unit :: "string \<Rightarrow> char option" where
  "hex_unit s =
     (case map hex_digit s of
        [Some a, Some b, Some c, Some d] \<Rightarrow> if a = 0 \<and> b = 0 then Some (char_of (16 * c + d)) else None
      | _ \<Rightarrow> None)"

definition unescape :: "char \<Rightarrow> char option" where
  "unescape e = (if e = CHR ''/'' then Some e else map_of (map (\<lambda>(a, b). (b, a)) short_escapes) e)"

text \<open>The characters of a string after its opening quote, and what follows the closing one.\<close>

function json_chars :: "string \<Rightarrow> (string \<times> string) option" where
  "json_chars [] = None"
| "json_chars (c # s) =
     (if c = QUOTE then Some ([], s)
      else if c = BACKSLASH then
        (case s of
           [] \<Rightarrow> None
         | e # t \<Rightarrow>
             if e = CHR ''u'' then
               (case hex_unit (take 4 t) of
                  None \<Rightarrow> None
                | Some x \<Rightarrow> map_option (apfst (Cons x)) (json_chars (drop 4 t)))
             else (case unescape e of
                     None \<Rightarrow> None
                   | Some x \<Rightarrow> map_option (apfst (Cons x)) (json_chars t)))
      else if (of_char c :: nat) < 32 then None
      else map_option (apfst (Cons c)) (json_chars s))"
  by pat_completeness auto
termination by (relation "measure length") auto

section \<open>Printing with sorted keys\<close>

function canonical :: "jsval \<Rightarrow> string" where
  "canonical Undefined = []"
| "canonical Null = ''null''"
| "canonical (Bool b) = (if b then ''true'' else ''false'')"
| "canonical (Num x) = number_text x"
| "canonical (Str s) = string_text s"
| "canonical (Arr xs) = CHR ''['' # join_with (CHR '','') (map canonical xs) @ [CHR '']'']"
| "canonical (Obj kvs) =
     CHR ''{'' # join_with (CHR '','')
       (map (\<lambda>(k, t). string_text k @ CHR '':'' # t)
         (sort_key fst (map (\<lambda>(k, v). (k, canonical v)) (List.filter (\<lambda>(k, v). v \<noteq> Undefined) kvs))))
     @ [CHR ''}'']"
  by pat_completeness auto
termination
proof (relation "measure size", goal_cases)
  case 1
  then show ?case by simp
next
  case (2 xs z)
  then show ?case by (induction xs) auto
next
  case (3 kvs z k v)
  then show ?case by (induction kvs) (auto split: if_splits)
qed

section \<open>Parsing\<close>

definition json_ws :: "string \<Rightarrow> string" where
  "json_ws s = dropWhile (\<lambda>c. c \<in> {CHR '' '', CHR 0x09, CHR 0x0A, CHR 0x0D}) s"

definition is_digit :: "char \<Rightarrow> bool" where
  "is_digit c \<longleftrightarrow> c \<in> set digits"

definition json_fraction :: "string \<Rightarrow> (string \<times> string) option" where
  "json_fraction s =
     (if take 1 s = ''.'' then
        (let t = drop 1 s
         in if takeWhile is_digit t = [] then None else Some (takeWhile is_digit t, dropWhile is_digit t))
      else Some ([], s))"

definition json_exponent :: "string \<Rightarrow> (int \<times> string) option" where
  "json_exponent s =
     (if take 1 s = ''e'' \<or> take 1 s = ''E'' then
        (let t = drop 1 s;
             neg = (take 1 t = ''-'');
             u = (if neg \<or> take 1 t = ''+'' then drop 1 t else t);
             ds = takeWhile is_digit u
         in if ds = [] then None
            else Some (if neg then - int (read_nat ds) else int (read_nat ds), dropWhile is_digit u))
      else Some (0, s))"

definition json_number :: "string \<Rightarrow> (jsval \<times> string) option" where
  "json_number s =
     (let neg = (take 1 s = ''-''); t = (if neg then drop 1 s else s); ds = takeWhile is_digit t
      in if \<not> canonical_decimal ds then None
         else (case json_fraction (dropWhile is_digit t) of
                 None \<Rightarrow> None
               | Some (fs, u) \<Rightarrow>
                   (case json_exponent u of
                      None \<Rightarrow> None
                    | Some (e, r) \<Rightarrow>
                        (let q = of_nat (read_nat (ds @ fs)) * pow10 (e - int (length fs))
                         in Some (Num (js_number (if neg then - q else q)), r)))))"

definition json_word :: "string \<Rightarrow> (jsval \<times> string) option" where
  "json_word s =
     (if take 4 s = ''true'' then Some (Bool True, drop 4 s)
      else if take 5 s = ''false'' then Some (Bool False, drop 5 s)
      else if take 4 s = ''null'' then Some (Null, drop 4 s)
      else json_number s)"

text \<open>A repeated key keeps its first place and its last value.\<close>

definition obj_of :: "(string \<times> jsval) list \<Rightarrow> jsval" where
  "obj_of kvs = Obj (foldl (\<lambda>m (k, v). AList.update k v m) [] kvs)"

fun json_value :: "nat \<Rightarrow> string \<Rightarrow> (jsval \<times> string) option"
  and json_items :: "nat \<Rightarrow> string \<Rightarrow> (jsval list \<times> string) option"
  and json_members :: "nat \<Rightarrow> string \<Rightarrow> ((string \<times> jsval) list \<times> string) option" where
  "json_value 0 s = None"
| "json_value (Suc n) s =
     (let u = json_ws s; t = drop 1 u
      in if take 1 u = [QUOTE] then map_option (apfst Str) (json_chars t)
         else if take 1 u = ''['' then
           (if take 1 (json_ws t) = '']'' then Some (Arr [], drop 1 (json_ws t))
            else map_option (apfst Arr) (json_items n t))
         else if take 1 u = ''{'' then
           (if take 1 (json_ws t) = ''}'' then Some (Obj [], drop 1 (json_ws t))
            else map_option (apfst obj_of) (json_members n t))
         else json_word u)"
| "json_items 0 s = None"
| "json_items (Suc n) s =
     (case json_value n s of
        None \<Rightarrow> None
      | Some (v, r) \<Rightarrow>
          (let u = json_ws r
           in if take 1 u = '','' then map_option (apfst (Cons v)) (json_items n (drop 1 u))
              else if take 1 u = '']'' then Some ([v], drop 1 u) else None))"
| "json_members 0 s = None"
| "json_members (Suc n) s =
     (let u = json_ws s
      in if take 1 u \<noteq> [QUOTE] then None
         else (case json_chars (drop 1 u) of
                 None \<Rightarrow> None
               | Some (k, r) \<Rightarrow>
                   (let w = json_ws r
                    in if take 1 w \<noteq> '':'' then None
                       else (case json_value n (drop 1 w) of
                               None \<Rightarrow> None
                             | Some (v, x) \<Rightarrow>
                                 (let y = json_ws x
                                  in if take 1 y = '','' then map_option (apfst (Cons (k, v))) (json_members n (drop 1 y))
                                     else if take 1 y = ''}'' then Some ([(k, v)], drop 1 y) else None)))))"

definition json_parse :: "string \<Rightarrow> jsval option" where
  "json_parse s =
     (case json_value (2 * length s + 2) s of
        None \<Rightarrow> None
      | Some (v, r) \<Rightarrow> if json_ws r = [] then Some v else None)"

section \<open>The parser reads back what was printed\<close>

lemma hex_digit_lower: "m < 16 \<Longrightarrow> hex_digit (lower_hex ! m) = Some m"
proof -
  assume "m < 16"
  then have "m \<in> set [0..<16]" by simp
  then show ?thesis by (auto simp: upt_rec hex_digit_def lower_hex_def digits_def)
qed

lemma four: "take 4 (a # b # c # d # t) = [a, b, c, d]" "drop 4 (a # b # c # d # t) = t"
  by (simp_all add: eval_nat_numeral)

lemma short_escapes_unescape: "map_of short_escapes c = Some e \<Longrightarrow> e \<noteq> CHR ''u'' \<and> unescape e = Some c"
  by (auto simp: short_escapes_def unescape_def split: if_splits)

lemma json_chars_quote_char: "json_chars (quote_char c @ t) = map_option (apfst (Cons c)) (json_chars t)"
proof (cases "map_of short_escapes c")
  case (Some e)
  then show ?thesis using short_escapes_unescape [OF Some] by (simp add: quote_char_def)
next
  case None
  define n where "n = (of_char c :: nat)"
  have c: "c \<noteq> QUOTE" "c \<noteq> BACKSLASH" using None by (auto simp: short_escapes_def split: if_splits)
  show ?thesis
  proof (cases "n < 32")
    case True
    then have d: "n div 16 < 16" "n mod 16 < 16" by simp_all
    have "hex_digit (CHR ''0'') = Some 0" by (simp add: hex_digit_def digits_def)
    then have "hex_unit [CHR ''0'', CHR ''0'', lower_hex ! (n div 16), lower_hex ! (n mod 16)] = Some c"
      using hex_digit_lower [OF d(1)] hex_digit_lower [OF d(2)] by (simp add: hex_unit_def n_def)
    then show ?thesis
      using None True by (simp add: quote_char_def n_def [symmetric] Let_def four)
  next
    case False
    then show ?thesis using None c by (simp add: quote_char_def n_def [symmetric])
  qed
qed

lemma json_chars_string: "json_chars (concat (map quote_char s) @ QUOTE # r) = Some (s, r)"
proof (induction s)
  case (Cons c s)
  then show ?case by (simp add: json_chars_quote_char)
qed simp

definition ends_number :: "string \<Rightarrow> bool" where
  "ends_number r \<longleftrightarrow> r = [] \<or> (\<not> is_digit (hd r) \<and> hd r \<notin> set ''.eE'')"

lemma ends_number_simps [simp]:
  "ends_number []" "ends_number (CHR '','' # r)" "ends_number (CHR '']'' # r)" "ends_number (CHR ''}'' # r)"
  by (simp_all add: ends_number_def is_digit_def digits_def)

lemma json_takeWhile_digits:
  assumes "only digits ds" "ends_number r"
  shows "takeWhile is_digit (ds @ r) = ds" "dropWhile is_digit (ds @ r) = r"
proof -
  have d: "\<And>c. c \<in> set ds \<Longrightarrow> is_digit c"
    using assms(1) by (auto simp: only_def list_all_iff is_digit_def)
  have r: "takeWhile is_digit r = []" "dropWhile is_digit r = r"
    using assms(2) by (cases r; simp add: ends_number_def)+
  show "takeWhile is_digit (ds @ r) = ds" using d r by (simp add: takeWhile_append2)
  show "dropWhile is_digit (ds @ r) = r" using d r by (simp add: dropWhile_append2)
qed

lemma js_number_int: "\<bar>i\<bar> \<le> max_safe \<Longrightarrow> js_number (of_int i) = int_jsnum i"
proof (cases "i = 0")
  case True
  then show ?thesis
    using round_even_int [of 0] pow2_pos [of "- 1022"] by (simp add: js_number_def int_jsnum_def)
next
  case False
  assume i: "\<bar>i\<bar> \<le> max_safe"
  have one: "(1 :: rat) \<le> \<bar>of_int i\<bar>" using False by (simp flip: of_int_abs)
  have "pow2 (- 1022) \<le> pow2 0" by (rule pow2_mono) simp
  then have low: "\<not> \<bar>of_int i\<bar> < pow2 (- 1022)" using one by (simp add: pow2_def [of 0])
  have "(of_int \<bar>i\<bar> :: rat) \<le> of_int max_safe" using i by (simp only: of_int_le_iff)
  also have "\<dots> < pow2 53" by (simp add: max_safe_def pow2_def)
  also have "\<dots> \<le> pow2 1024" by (rule pow2_mono) simp
  finally have high: "\<not> pow2 1024 \<le> \<bar>of_int i\<bar>" by simp
  show ?thesis using low high fl_of_int [OF i] by (simp add: js_number_def int_jsnum_def)
qed

lemma pow10_0 [simp]: "pow10 0 = 1"
  by (simp add: pow10_def)

lemma show_nat_digit: "c \<in> set (show_nat n) \<Longrightarrow> c \<in> set digits"
  using only_digits_show [of n] by (auto simp: only_def list_all_iff)

lemma show_nat_head: "\<exists>c t. show_nat n = c # t \<and> c \<in> set digits"
  using show_nat_nonempty [of n] show_nat_digit [of _ n] by (cases "show_nat n") auto

lemma json_number_int:
  assumes i: "\<bar>i\<bar> \<le> max_safe" and r: "ends_number r"
  shows "json_number (show_int i @ r) = Some (Num (int_jsnum i), r)"
proof -
  obtain c t where h: "show_nat (nat i) = c # t" "c \<in> set digits" using show_nat_head by blast
  have minus: "take 1 (show_int i @ r) = ''-'' \<longleftrightarrow> i < 0"
    using h by (auto simp: show_int_def digits_def)
  have body: "(if i < 0 then drop 1 (show_int i @ r) else show_int i @ r) = show_nat (nat \<bar>i\<bar>) @ r"
    by (simp add: show_int_def)
  have "take 1 r \<noteq> ''.''" "take 1 r \<noteq> ''e''" "take 1 r \<noteq> ''E''"
    using r by (cases r; simp add: ends_number_def)+
  then have ends: "json_fraction r = Some ([], r)" "json_exponent r = Some (0, r)"
    by (simp_all add: json_fraction_def json_exponent_def)
  have val: "(if i < 0 then - (of_nat (nat \<bar>i\<bar>) :: rat) else of_nat (nat \<bar>i\<bar>)) = of_int i"
    by auto
  show ?thesis
    unfolding json_number_def Let_def minus body json_takeWhile_digits [OF only_digits_show r]
    using ends val js_number_int [OF i] by simp
qed

lemma json_ws_keep [simp]:
  "c \<notin> {CHR '' '', CHR 0x09, CHR 0x0A, CHR 0x0D} \<Longrightarrow> json_ws (c # s) = c # s"
  by (simp add: json_ws_def)

fun wf_json :: "jsval \<Rightarrow> bool" where
  "wf_json Undefined = False"
| "wf_json (Num x) = (safe_int_of (Num x) \<noteq> None)"
| "wf_json (Arr xs) = (\<forall>x \<in> set xs. wf_json x)"
| "wf_json (Obj kvs) = (sorted (map fst kvs) \<and> distinct (map fst kvs) \<and> (\<forall>kv \<in> set kvs. wf_json (snd kv)))"
| "wf_json v = True"

text \<open>A value that a printer writes so that the parser reads it back: safe integers, no
  \<open>undefined\<close>, and keys the printer leaves in their order.\<close>

fun wf_with :: "(string list \<Rightarrow> bool) \<Rightarrow> jsval \<Rightarrow> bool" where
  "wf_with keys Undefined = False"
| "wf_with keys (Num x) = (safe_int_of (Num x) \<noteq> None)"
| "wf_with keys (Arr xs) = (\<forall>x \<in> set xs. wf_with keys x)"
| "wf_with keys (Obj kvs) = (keys (map fst kvs) \<and> (\<forall>kv \<in> set kvs. wf_with keys (snd kv)))"
| "wf_with keys v = True"

definition sorted_keys :: "string list \<Rightarrow> bool" where
  "sorted_keys ks \<longleftrightarrow> sorted ks \<and> distinct ks"

lemma wf_json_with: "wf_json v = wf_with sorted_keys v"
  by (induction v rule: wf_json.induct) (simp_all add: sorted_keys_def)

abbreviation (input) member_text :: "(jsval \<Rightarrow> string) \<Rightarrow> string \<times> jsval \<Rightarrow> string" where
  "member_text pr \<equiv> \<lambda>(k, v). string_text k @ CHR '':'' # pr v"

lemma canonical_obj:
  assumes "wf_json (Obj kvs)"
  shows "canonical (Obj kvs) =
    CHR ''{'' # join_with (CHR '','') (map (\<lambda>(k, v). string_text k @ CHR '':'' # canonical v) kvs) @ [CHR ''}'']"
proof -
  have all: "List.filter (\<lambda>(k, v). v \<noteq> Undefined) kvs = kvs"
    using assms by (auto simp: filter_id_conv)
  have "map fst (map (\<lambda>(k, v). (k, canonical v)) kvs) = map fst kvs" by (simp add: o_def split_def)
  then have "sort_key fst (map (\<lambda>(k, v). (k, canonical v)) kvs) = map (\<lambda>(k, v). (k, canonical v)) kvs"
    using assms by (simp only: sort_key_id_if_sorted wf_json.simps)
  then show ?thesis by (simp only: canonical.simps all) (simp add: o_def split_def)
qed

lemma show_int_head: "\<exists>c t. show_int i = c # t \<and> (c = CHR ''-'' \<or> c \<in> set digits)"
  using show_nat_head [of "nat i"] by (auto simp: show_int_def)

lemma number_text_safe:
  assumes "safe_int_of (Num x) = Some i"
  shows "number_text x = show_int i" "x = int_jsnum i" "\<bar>i\<bar> \<le> max_safe"
proof -
  show x: "x = int_jsnum i" "\<bar>i\<bar> \<le> max_safe"
    using assms by (auto simp: safe_int_of_Some int_jsval_def)
  show "number_text x = show_int i"
    using assms x by (simp add: number_text_def int_jsnum_def)
qed

lemma json_value_string: "json_value (Suc n) (string_text s @ r) = Some (Str s, r)"
  using json_chars_string [of s r] by (simp add: string_text_def)

lemma json_value_number:
  assumes i: "\<bar>i\<bar> \<le> max_safe" and r: "ends_number r"
  shows "json_value (Suc n) (show_int i @ r) = Some (Num (int_jsnum i), r)"
proof -
  obtain c t where c: "show_int i = c # t" "c = CHR ''-'' \<or> c \<in> set digits"
    using show_int_head by blast
  have "json_ws (c # t @ r) = c # t @ r" using c(2) by (auto simp: digits_def)
  moreover have "c \<notin> {QUOTE, CHR ''['', CHR ''{'', CHR ''t'', CHR ''f'', CHR ''n''}"
    using c(2) by (auto simp: digits_def)
  ultimately have "json_value (Suc n) (show_int i @ r) = json_number (show_int i @ r)"
    using c(1) by (auto simp: json_word_def eval_nat_numeral)
  then show ?thesis using json_number_int [OF i r] by simp
qed

lemma join_Cons: "join_with d (p # ps) = p @ (if ps = [] then [] else d # join_with d ps)"
  by (cases ps) simp_all

lemma update_fresh: "k \<notin> fst ` set m \<Longrightarrow> AList.update k v m = m @ [(k, v)]"
  by (induction m) auto

lemma obj_of_distinct:
  assumes "distinct (map fst kvs)"
  shows "obj_of kvs = Obj kvs"
proof -
  have "foldl (\<lambda>m (k, v). AList.update k v m) m kvs = m @ kvs"
    if "distinct (map fst kvs)" "fst ` set m \<inter> fst ` set kvs = {}" for m
    using that
  proof (induction kvs arbitrary: m)
    case (Cons kv kvs)
    then show ?case by (cases kv) (auto simp: update_fresh)
  qed simp
  from this [of "[]"] show ?thesis using assms by (simp add: obj_of_def)
qed

text \<open>What the parser relies on of a printer, whatever order it keeps the keys in.\<close>

locale json_printer =
  fixes pr :: "jsval \<Rightarrow> string" and keys :: "string list \<Rightarrow> bool"
  assumes keys_distinct: "keys ks \<Longrightarrow> distinct ks"
    and pr_null: "pr Null = ''null''"
    and pr_bool: "pr (Bool b) = (if b then ''true'' else ''false'')"
    and pr_num: "pr (Num x) = number_text x"
    and pr_str: "pr (Str s) = string_text s"
    and pr_arr: "wf_with keys (Arr xs) \<Longrightarrow> pr (Arr xs) = CHR ''['' # join_with (CHR '','') (map pr xs) @ [CHR '']'']"
    and pr_obj: "wf_with keys (Obj kvs) \<Longrightarrow>
      pr (Obj kvs) = CHR ''{'' # join_with (CHR '','') (map (member_text pr) kvs) @ [CHR ''}'']"
begin

lemma pr_head:
  assumes "wf_with keys v"
  shows "\<exists>c t. pr v = c # t \<and> c \<notin> {CHR '' '', CHR 0x09, CHR 0x0A, CHR 0x0D} \<and> c \<noteq> CHR '']''"
proof (cases v)
  case (Num x)
  then obtain i where "safe_int_of (Num x) = Some i" using assms by auto
  then have "pr v = show_int i" using Num number_text_safe(1) pr_num by simp
  then show ?thesis using show_int_head [of i] by (auto simp: digits_def)
qed (use assms in \<open>auto simp: string_text_def pr_null pr_bool pr_str pr_arr pr_obj\<close>)

lemma items_print:
  assumes "\<And>v n r. v \<in> set xs \<Longrightarrow> ends_number r \<Longrightarrow> 2 * length (pr v) \<le> n \<Longrightarrow> json_value n (pr v @ r) = Some (v, r)"
    and "xs \<noteq> []" and "\<forall>v \<in> set xs. pr v \<noteq> []"
    and "2 * length (join_with (CHR '','') (map pr xs)) < n"
  shows "json_items n (join_with (CHR '','') (map pr xs) @ CHR '']'' # r) = Some (xs, r)"
  using assms
proof (induction xs arbitrary: n)
  case (Cons v xs)
  then obtain m where n: "n = Suc m" by (cases n) auto
  have ne: "0 < length (pr v)" using Cons.prems(3) by simp
  show ?case
  proof (cases "xs = []")
    case True
    have "json_value m (pr v @ CHR '']'' # r) = Some (v, CHR '']'' # r)"
      by (rule Cons.prems(1)) (use Cons.prems(4) True n in auto)
    then show ?thesis using True n by simp
  next
    case False
    let ?rest = "join_with (CHR '','') (map pr xs) @ CHR '']'' # r"
    have l: "2 * (length (pr v) + Suc (length (join_with (CHR '','') (map pr xs)))) < Suc m"
      using Cons.prems(4) False n by (simp add: join_Cons)
    have "json_value m (pr v @ CHR '','' # ?rest) = Some (v, CHR '','' # ?rest)"
      by (rule Cons.prems(1)) (use l in auto)
    moreover have "json_items m ?rest = Some (xs, r)"
      by (rule Cons.IH [OF Cons.prems(1)]) (use l False Cons.prems(3) in auto)
    ultimately show ?thesis using False n by (simp add: join_Cons)
  qed
qed simp

lemma members_print:
  assumes "\<And>v n r. v \<in> snd ` set kvs \<Longrightarrow> ends_number r \<Longrightarrow> 2 * length (pr v) \<le> n \<Longrightarrow> json_value n (pr v @ r) = Some (v, r)"
    and "kvs \<noteq> []"
    and "2 * length (join_with (CHR '','') (map (member_text pr) kvs)) < n"
  shows "json_members n (join_with (CHR '','') (map (member_text pr) kvs) @ CHR ''}'' # r) = Some (kvs, r)"
  using assms
proof (induction kvs arbitrary: n)
  case (Cons kv kvs)
  obtain k v where kv: "kv = (k, v)" by (cases kv)
  obtain m where n: "n = Suc m" using Cons.prems(3) by (cases n) auto
  let ?tail = "(if kvs = [] then CHR ''}'' # r else CHR '','' # join_with (CHR '','') (map (member_text pr) kvs) @ CHR ''}'' # r)"
  have l: "2 * (length (string_text k) + Suc (length (pr v))) \<le> m"
    using Cons.prems(3) kv n by (simp add: join_Cons split: if_splits)
  have v: "json_value m (pr v @ ?tail) = Some (v, ?tail)"
    by (rule Cons.prems(1)) (use kv l in auto)
  have chars: "json_chars (drop 1 (string_text k @ CHR '':'' # pr v @ ?tail)) = Some (k, CHR '':'' # pr v @ ?tail)"
    using json_chars_string [of k "CHR '':'' # pr v @ ?tail"] by (simp add: string_text_def)
  have whole: "join_with (CHR '','') (map (member_text pr) (kv # kvs)) @ CHR ''}'' # r = string_text k @ CHR '':'' # pr v @ ?tail"
    using kv by (simp add: join_Cons)
  have rest: "kvs \<noteq> [] \<Longrightarrow> json_members m (join_with (CHR '','') (map (member_text pr) kvs) @ CHR ''}'' # r) = Some (kvs, r)"
    by (rule Cons.IH [OF Cons.prems(1)]) (use Cons.prems(3) kv n in \<open>auto simp: join_Cons\<close>)
  have q: "json_ws (string_text k @ s) = string_text k @ s" "take 1 (string_text k @ s) = [QUOTE]" for s
    by (simp_all add: string_text_def)
  show ?case
    unfolding whole n json_members.simps Let_def q chars using v rest kv by (simp add: q chars)
qed simp

lemma value_print:
  "wf_with keys v \<Longrightarrow> ends_number r \<Longrightarrow> 2 * length (pr v) \<le> n \<Longrightarrow> json_value n (pr v @ r) = Some (v, r)"
proof (induction v arbitrary: n r)
  case Null
  then show ?case by (cases n) (auto simp: pr_null json_word_def eval_nat_numeral)
next
  case (Bool b)
  then show ?case by (cases n) (auto simp: pr_bool json_word_def eval_nat_numeral split: if_splits)
next
  case (Num x)
  then obtain i where i: "safe_int_of (Num x) = Some i" by auto
  have "0 < length (show_int i)" using show_int_head [of i] by auto
  then obtain m where "n = Suc m" using Num.prems(3) number_text_safe(1) [OF i] by (cases n) (auto simp: pr_num)
  then show ?case
    using json_value_number [of i r m] Num.prems(2) number_text_safe [OF i] by (simp add: pr_num)
next
  case (Str s)
  then show ?case using json_value_string by (cases n) (auto simp: pr_str string_text_def)
next
  case (Arr xs)
  obtain m where n: "n = Suc m" using Arr.prems(3) pr_arr [OF Arr.prems(1)] by (cases n) auto
  have wf: "\<forall>v \<in> set xs. wf_with keys v" using Arr.prems(1) by simp
  show ?case
  proof (cases "xs = []")
    case True
    then show ?thesis using n pr_arr [OF Arr.prems(1)] by simp
  next
    case False
    then obtain v vs where xs: "xs = v # vs" by (cases xs) auto
    obtain c t where c: "pr v = c # t" "c \<notin> {CHR '' '', CHR 0x09, CHR 0x0A, CHR 0x0D}" "c \<noteq> CHR '']''"
      using pr_head [of v] wf xs by auto
    have "json_items m (join_with (CHR '','') (map pr xs) @ CHR '']'' # r) = Some (xs, r)"
    proof (rule items_print)
      show "\<forall>v \<in> set xs. pr v \<noteq> []" using pr_head wf by fastforce
      show "2 * length (join_with (CHR '','') (map pr xs)) < m" using Arr.prems(3) n pr_arr [OF Arr.prems(1)] by simp
    qed (use Arr.IH wf False in auto)
    then show ?thesis using n xs c pr_arr [OF Arr.prems(1)] by (simp add: join_Cons)
  qed
next
  case (Obj kvs)
  obtain m where n: "n = Suc m" using Obj.prems(3) pr_obj [OF Obj.prems(1)] by (cases n) auto
  show ?case
  proof (cases "kvs = []")
    case True
    then show ?thesis using n pr_obj [OF Obj.prems(1)] by simp
  next
    case False
    have "json_members m (join_with (CHR '','') (map (member_text pr) kvs) @ CHR ''}'' # r) = Some (kvs, r)"
    proof (rule members_print)
      show "2 * length (join_with (CHR '','') (map (member_text pr) kvs)) < m"
        using Obj.prems(3) n unfolding pr_obj [OF Obj.prems(1)] by simp
    next
      fix v n' r'
      assume "v \<in> snd ` set kvs" "ends_number r'" "2 * length (pr v) \<le> n'"
      then show "json_value n' (pr v @ r') = Some (v, r')"
        using Obj.IH Obj.prems(1) by (auto simp: snds.simps)
    qed (rule False)
    moreover have "obj_of kvs = Obj kvs" using obj_of_distinct keys_distinct Obj.prems(1) by simp
    moreover obtain k v ks where "kvs = (k, v) # ks" using False by (cases kvs) auto
    ultimately show ?thesis
      using n unfolding pr_obj [OF Obj.prems(1)] by (simp add: join_Cons string_text_def)
  qed
qed simp

lemma parse_print: "wf_with keys v \<Longrightarrow> json_parse (pr v) = Some v"
  using value_print [of v "[]" "2 * length (pr v) + 2"] by (simp add: json_parse_def json_ws_def)

end

interpretation canonical_json: json_printer canonical sorted_keys
proof unfold_locales
  fix kvs
  assume "wf_with sorted_keys (Obj kvs)"
  then show "canonical (Obj kvs) = CHR ''{'' # join_with (CHR '','') (map (member_text canonical) kvs) @ [CHR ''}'']"
    by (intro canonical_obj) (simp only: wf_json_with)
qed (simp_all add: sorted_keys_def)

lemma json_parse_canonical: "wf_json v \<Longrightarrow> json_parse (canonical v) = Some v"
  by (simp only: wf_json_with canonical_json.parse_print)

lemma json_parse_members:
  assumes "kvs \<noteq> []" "distinct (map fst kvs)" "\<forall>kv \<in> set kvs. wf_json (snd kv)"
  shows "json_parse (CHR ''{'' # join_with (CHR '','') (map (member_text canonical) kvs) @ ''}'') = Some (Obj kvs)"
proof -
  let ?body = "join_with (CHR '','') (map (member_text canonical) kvs)"
  have "json_members (2 * length (CHR ''{'' # ?body @ ''}'') + 1) (?body @ CHR ''}'' # []) = Some (kvs, [])"
    by (rule canonical_json.members_print) (use assms in \<open>auto intro: canonical_json.value_print simp: wf_json_with\<close>)
  moreover obtain k v ks where "kvs = (k, v) # ks" using assms(1) by (cases kvs) auto
  then have "json_ws (?body @ ''}'') = ?body @ ''}''" "take 1 (?body @ ''}'') = [QUOTE]"
    by (simp_all add: join_Cons string_text_def)
  ultimately show ?thesis
    using obj_of_distinct [OF assms(2)] by (simp add: json_parse_def json_ws_def del: json_members.simps json_items.simps)
qed

section \<open>The fuel is enough\<close>

lemma json_ws_length: "length (json_ws s) \<le> length s"
  by (simp add: json_ws_def length_dropWhile_le)

lemma json_chars_length: "json_chars s = Some (x, r) \<Longrightarrow> length r < length s"
proof (induction s arbitrary: x r rule: json_chars.induct)
  case (2 c s)
  then show ?case by (auto split: if_splits list.splits option.splits) fastforce+
qed simp

lemma take1_Cons: "take 1 u = [c] \<Longrightarrow> u = c # drop 1 u"
  by (cases u) simp_all

lemma take1_length: "take 1 u = [c] \<Longrightarrow> 0 < length u"
  by (cases u) simp_all

lemma json_number_length:
  assumes "json_number s = Some (v, r)"
  shows "length r < length s"
proof -
  define t where "t = (if take 1 s = ''-'' then drop 1 s else s)"
  have t: "length t \<le> length s" by (simp add: t_def)
  obtain fs u where d: "canonical_decimal (takeWhile is_digit t)"
    and f: "json_fraction (dropWhile is_digit t) = Some (fs, u)"
    and e: "\<exists>e. json_exponent u = Some (e, r)"
    using assms by (auto simp: json_number_def Let_def t_def split: if_splits option.splits prod.splits)
  have "takeWhile is_digit t \<noteq> []" using d by (auto simp: canonical_decimal_def positive_decimal_def)
  then have a: "length (dropWhile is_digit t) < length t"
    by (metis append_Nil length_append length_dropWhile_le order_le_less self_append_conv2 takeWhile_dropWhile_id nat_less_le add_cancel_right_left length_0_conv)
  have b: "length u \<le> length (dropWhile is_digit t)"
    using f length_dropWhile_le [of is_digit "drop 1 (dropWhile is_digit t)"]
    by (auto simp: json_fraction_def Let_def split: if_splits)
  have c: "length r \<le> length u"
    using e length_dropWhile_le [of is_digit "drop 1 (drop 1 u)"] length_dropWhile_le [of is_digit "drop 1 u"]
    by (auto simp: json_exponent_def Let_def split: if_splits)
  show ?thesis using t a b c by simp
qed

lemma json_word_length: "json_word s = Some (v, r) \<Longrightarrow> length r < length s"
  using json_number_length [of s v r]
  by (cases s) (auto simp: json_word_def split: if_splits)

lemma json_lengths:
  "json_value n s = Some (v, r) \<Longrightarrow> length r < length s"
  "json_items n s = Some (vs, r) \<Longrightarrow> length r < length s"
  "json_members n s = Some (kvs, r) \<Longrightarrow> length r < length s"
proof (induction n s and n s and n s arbitrary: v r and vs r and kvs r rule: json_value_json_items_json_members.induct)
  case (2 n s)
  let ?u = "json_ws s"
  have u: "length ?u \<le> length s" by (rule json_ws_length)
  have w: "length (json_ws (drop 1 ?u)) \<le> length (drop 1 ?u)" by (rule json_ws_length)
  from "2.prems" consider
      (chars) x where "take 1 ?u = [QUOTE]" "json_chars (drop 1 ?u) = Some (x, r)"
    | (none) c where "take 1 ?u = [c]" "r = drop 1 (json_ws (drop 1 ?u))"
    | (items) xs where "take 1 ?u = ''[''" "take 1 (json_ws (drop 1 ?u)) \<noteq> '']''" "json_items n (drop 1 ?u) = Some (xs, r)"
    | (members) ms where "take 1 ?u = ''{''" "take 1 (json_ws (drop 1 ?u)) \<noteq> ''}''" "json_members n (drop 1 ?u) = Some (ms, r)"
    | (word) "json_word ?u = Some (v, r)"
    by (auto simp: Let_def split: if_splits)
  then show ?case
  proof cases
    case chars
    then show ?thesis using json_chars_length [of "drop 1 ?u"] u by fastforce
  next
    case none
    then have "0 < length ?u" by (simp only: take1_length)
    then show ?thesis using none(2) u w by (simp del: length_greater_0_conv)
  next
    case items
    then have "length r < length (drop 1 ?u)" using "2.IH"(1) [of ?u "drop 1 ?u" xs r] by auto
    then show ?thesis using u by simp
  next
    case members
    then have "length r < length (drop 1 ?u)" using "2.IH"(2) [of ?u "drop 1 ?u" ms r] by auto
    then show ?thesis using u by simp
  next
    case word
    then show ?thesis using json_word_length [of ?u v r] u by simp
  qed
next
  case (4 n s)
  obtain x y where v: "json_value n s = Some (x, y)" using "4.prems" by (auto split: option.splits)
  have y: "length y < length s" using "4.IH"(1) [OF v] .
  have ws: "length (json_ws y) \<le> length y" by (rule json_ws_length)
  from "4.prems" v consider "r = drop 1 (json_ws y)"
    | ws where "take 1 (json_ws y) = '',''" "json_items n (drop 1 (json_ws y)) = Some (ws, r)"
    by (auto simp: Let_def split: if_splits)
  then show ?case
  proof cases
    case 1
    then show ?thesis using y ws by simp
  next
    case (2 zs)
    then have "length r < length (drop 1 (json_ws y))" using "4.IH"(2) [OF v refl refl] by blast
    then show ?thesis using y ws by simp
  qed
next
  case (6 n s)
  let ?u = "json_ws s"
  have u: "length ?u \<le> length s" by (rule json_ws_length)
  obtain k a x y where k: "json_chars (drop 1 ?u) = Some (k, a)" and q: "take 1 ?u = [QUOTE]"
    and c: "take 1 (json_ws a) = '':''" and v: "json_value n (drop 1 (json_ws a)) = Some (x, y)"
    using "6.prems" by (auto simp: Let_def split: if_splits option.splits prod.splits)
  have a: "length a < length (drop 1 ?u)" using json_chars_length [OF k] .
  have ws: "length (json_ws a) \<le> length a" "length (json_ws y) \<le> length y" by (rule json_ws_length)+
  have y: "length y < length (drop 1 (json_ws a))"
    using "6.IH"(1) [OF refl _ k refl refl _ v] q c by simp
  from "6.prems" k q c v consider "r = drop 1 (json_ws y)"
    | ms where "take 1 (json_ws y) = '',''" "json_members n (drop 1 (json_ws y)) = Some (ms, r)"
    by (auto simp: Let_def split: if_splits)
  then show ?case
  proof cases
    case 1
    then show ?thesis using u a ws y by simp
  next
    case (2 ms)
    then have "length r < length (drop 1 (json_ws y))"
      using "6.IH"(2) [OF refl _ k refl refl _ v refl refl] q c by simp
    then show ?thesis using u a ws y by simp
  qed
qed simp_all

lemma json_fuel_step:
  "2 * length s < n \<Longrightarrow> json_value (Suc n) s = json_value n s"
  "2 * length s + 1 < n \<Longrightarrow> json_items (Suc n) s = json_items n s"
  "2 * length s + 1 < n \<Longrightarrow> json_members (Suc n) s = json_members n s"
proof (induction n s and n s and n s rule: json_value_json_items_json_members.induct)
  case (2 n s)
  let ?u = "json_ws s"
  have u: "length ?u \<le> length s" by (rule json_ws_length)
  have d: "2 * length (drop 1 ?u) + 1 < n" if "take 1 ?u = [c]" for c
    using take1_length [OF that] u "2.prems" unfolding length_drop by linarith
  have "json_items (Suc n) (drop 1 ?u) = json_items n (drop 1 ?u)"
    if "take 1 ?u = ''[''" "take 1 (json_ws (drop 1 ?u)) \<noteq> '']''"
    by (rule "2.IH"(1) [OF refl refl _ _ _ d]) (use that in auto)
  moreover have "json_members (Suc n) (drop 1 ?u) = json_members n (drop 1 ?u)"
    if "take 1 ?u = ''{''" "take 1 (json_ws (drop 1 ?u)) \<noteq> ''}''"
    by (rule "2.IH"(2) [OF refl refl _ _ _ _ d]) (use that in auto)
  ultimately show ?case
    unfolding json_value.simps(2) [of "Suc n" s] json_value.simps(2) [of n s] Let_def
    by (simp del: json_value.simps json_items.simps json_members.simps One_nat_def)
next
  case (4 n s)
  have v: "json_value (Suc n) s = json_value n s" using 4 by simp
  show ?case
  proof (cases "json_value n s")
    case None
    then show ?thesis unfolding json_items.simps(2) [of "Suc n" s] json_items.simps(2) [of n s] v by simp
  next
    case (Some p)
    obtain x y where p: "p = (x, y)" by (cases p)
    have y: "length (json_ws y) < length s" using json_lengths(1) [of n s x y] Some p json_ws_length [of y] by simp
    have "json_items (Suc n) (drop 1 (json_ws y)) = json_items n (drop 1 (json_ws y))" if "take 1 (json_ws y) = '',''"
    proof (rule "4.IH"(2) [OF Some p [symmetric] refl that])
      show "2 * length (drop 1 (json_ws y)) + 1 < n"
        using y "4.prems" take1_length [OF that] unfolding length_drop by linarith
    qed
    then show ?thesis
      unfolding json_items.simps(2) [of "Suc n" s] json_items.simps(2) [of n s] v Some p by (simp add: Let_def)
  qed
next
  case (6 n s)
  let ?u = "json_ws s"
  have u: "length ?u \<le> length s" by (rule json_ws_length)
  show ?case
  proof (cases "take 1 ?u = [QUOTE]")
    case False
    then show ?thesis unfolding json_members.simps(2) [of "Suc n" s] json_members.simps(2) [of n s] by (simp add: Let_def)
  next
    case q: True
    show ?thesis
    proof (cases "json_chars (drop 1 ?u)")
      case None
      then show ?thesis unfolding json_members.simps(2) [of "Suc n" s] json_members.simps(2) [of n s] by (simp add: Let_def)
    next
      case (Some ka)
      obtain k a where ka: "ka = (k, a)" by (cases ka)
      have a: "length (json_ws a) < length ?u"
        using json_chars_length [of "drop 1 ?u" k a] Some ka json_ws_length [of a] by simp
      have v: "json_value (Suc n) (drop 1 (json_ws a)) = json_value n (drop 1 (json_ws a))" if "take 1 (json_ws a) = '':''"
      proof (rule "6.IH"(1) [OF refl _ Some ka [symmetric] refl])
        show "2 * length (drop 1 (json_ws a)) < n"
          using a u "6.prems" unfolding length_drop by linarith
      qed (use q that in auto)
      have m: "json_members (Suc n) (drop 1 (json_ws y)) = json_members n (drop 1 (json_ws y))"
        if "take 1 (json_ws a) = '':''" "json_value n (drop 1 (json_ws a)) = Some (x, y)" "take 1 (json_ws y) = '',''" for x y
      proof (rule "6.IH"(2) [OF refl _ Some ka [symmetric] refl _ that(2) refl refl])
        have "length (json_ws y) < length (drop 1 (json_ws a))"
          using json_lengths(1) [OF that(2)] json_ws_length [of y] by simp
        then show "2 * length (drop 1 (json_ws y)) + 1 < n"
          using a u "6.prems" unfolding length_drop by linarith
      qed (use q that in auto)
      show ?thesis
        unfolding json_members.simps(2) [of "Suc n" s] json_members.simps(2) [of n s] Let_def Some ka
        using v m
        by (cases "take 1 (json_ws a) = '':''"; cases "json_value n (drop 1 (json_ws a))")
          (auto simp del: json_value.simps json_members.simps One_nat_def)
    qed
  qed
qed simp_all

lemma json_fuel: "2 * length s < n \<Longrightarrow> n \<le> m \<Longrightarrow> json_value m s = json_value n s"
proof (induction m)
  case (Suc m)
  then show ?case
    by (cases "n = Suc m") (simp_all add: json_fuel_step(1) del: json_value.simps)
qed simp

end
