(* ===== verification/Flow_Store.thy ===== *)
theory Flow_Store
  imports Desk_Bytes "HOL-Library.AList" "HOL-Library.Char_ord" "HOL-Library.List_Lexorder"
begin

text \<open>
  \<open>src/client/flow-store.ts\<close>, first part: the errors, the key grammar, the interface
  of a store and the in-memory store. A store keeps bytes under keys, and a save is a
  compare-and-swap on the digest of what is stored. The interface is the locale
  \<open>cas_store\<close>; the in-memory store is its first interpretation. The digest
  (\<open>flowDigest\<close>, sha256 in hex) is a parameter \<open>H\<close>.
\<close>

section \<open>Errors\<close>

datatype corrupt_reason =
    NoHeaderLine
  | UnknownFormat string
  | UnrecognisedHeader
  | PayloadLength nat string
  | PayloadDigest

datatype lock_reason = HeldByOther | StaleLeft | LockLost | LockUnreadable

datatype mem_fault = Reject | CommitThenThrow

datatype errno = ENOENT | EEXIST | EPERM | EACCES | EBUSY | EINVAL | ENOTSUP | ENOSYS | EIO | OtherCode string

datatype store_error =
    FlowStoreCorruptError string corrupt_reason
  | FlowStoreKeyError string
  | FlowStorePathError string
  | FlowStoreBadExpected string
  | FlowRecordStaleError string string "string option"
  | FlowRecordExistsError string
  | FlowStoreLockedError string string "nat option" lock_reason
  | FlowStoreFaultError nat mem_fault string
  | FlowStoreBadFaultNumber
  | IoError errno

section \<open>Keys\<close>

datatype flow_role = BuyerRole | SellerRole

fun role_name :: "flow_role \<Rightarrow> string" where
  "role_name BuyerRole = ''buyer''"
| "role_name SellerRole = ''seller''"

definition KEY_ID_SHAPE :: "string \<Rightarrow> bool" where
  "KEY_ID_SHAPE s \<longleftrightarrow> hex32 s"

definition role_of :: "string \<Rightarrow> flow_role option" where
  "role_of r = (if r = ''buyer'' then Some BuyerRole else if r = ''seller'' then Some SellerRole else None)"

text \<open>\<open>FLOW_KEY_PATTERN\<close>: a role, a colon, an id.\<close>

definition FLOW_KEY_PATTERN :: "string \<Rightarrow> (flow_role \<times> string) option" where
  "FLOW_KEY_PATTERN key =
     (case split_on (CHR '':'') key of
        [r, sid] \<Rightarrow> (case role_of r of
                     Some role \<Rightarrow> if KEY_ID_SHAPE sid then Some (role, sid) else None
                   | None \<Rightarrow> None)
      | _ \<Rightarrow> None)"

definition flowKey :: "flow_role \<Rightarrow> string \<Rightarrow> (store_error, string) result" where
  "flowKey role sid =
     (let key = join_with (CHR '':'') [role_name role, sid]
      in if \<not> KEY_ID_SHAPE sid then Inl (FlowStoreKeyError key) else Inr key)"

definition parseFlowKey :: "string \<Rightarrow> (store_error, flow_role \<times> string) result" where
  "parseFlowKey key = or_throw (FLOW_KEY_PATTERN key) (FlowStoreKeyError key)"

definition SHA256_HEX :: "string \<Rightarrow> bool" where
  "SHA256_HEX s \<longleftrightarrow> run_of lower_hex 64 64 s"

definition checkExpected :: "string \<Rightarrow> string option \<Rightarrow> (store_error, unit) result" where
  "checkExpected key expected =
     throw_if (case expected of None \<Rightarrow> False | Some e \<Rightarrow> \<not> SHA256_HEX e) (FlowStoreBadExpected key)"

definition valid_key :: "string \<Rightarrow> bool" where
  "valid_key key \<longleftrightarrow> FLOW_KEY_PATTERN key \<noteq> None"

lemma role_of_name [simp]: "role_of (role_name role) = Some role"
  by (cases role) (simp_all add: role_of_def)

lemma role_of_Some: "role_of r = Some role \<longleftrightarrow> r = role_name role"
  by (cases role) (auto simp: role_of_def)

lemma role_name_inject [simp]: "role_name a = role_name b \<longleftrightarrow> a = b"
  by (cases a; cases b) simp_all

lemma role_name_chars [simp]: "CHR '':'' \<notin> set (role_name r)" "CHR ''-'' \<notin> set (role_name r)"
  by (cases r; simp)+

lemma FLOW_KEY_PATTERN_Some:
  "FLOW_KEY_PATTERN key = Some (role, sid) \<longleftrightarrow> hex32 sid \<and> key = role_name role @ CHR '':'' # sid"
proof
  assume "FLOW_KEY_PATTERN key = Some (role, sid)"
  then have s: "split_on (CHR '':'') key = [role_name role, sid]" and i: "hex32 sid"
    by (auto simp: FLOW_KEY_PATTERN_def KEY_ID_SHAPE_def role_of_Some split: list.splits option.splits if_splits)
  from join_split [of "CHR '':''" key] show "hex32 sid \<and> key = role_name role @ CHR '':'' # sid"
    using i by (simp add: s)
next
  assume k: "hex32 sid \<and> key = role_name role @ CHR '':'' # sid"
  then have "split_on (CHR '':'') key = [role_name role, sid]"
    using hex32_notin(2) [of sid] by (simp add: text_simps)
  then show "FLOW_KEY_PATTERN key = Some (role, sid)"
    using k by (simp add: FLOW_KEY_PATTERN_def KEY_ID_SHAPE_def)
qed

lemma parse_flowKey: "flowKey role sid = Inr key \<Longrightarrow> parseFlowKey key = Inr (role, sid)"
  by (auto simp: flowKey_def parseFlowKey_def KEY_ID_SHAPE_def FLOW_KEY_PATTERN_Some Let_def result_simps
      split: if_splits)

lemma flowKey_parse: "parseFlowKey key = Inr (role, sid) \<Longrightarrow> flowKey role sid = Inr key"
  by (simp add: flowKey_def parseFlowKey_def KEY_ID_SHAPE_def FLOW_KEY_PATTERN_Some result_simps)

lemma parseFlowKey_valid: "parseFlowKey key = Inr x \<Longrightarrow> valid_key key"
  by (simp add: parseFlowKey_def valid_key_def result_simps)

lemma valid_key_parse: "valid_key key \<Longrightarrow> \<exists>x. parseFlowKey key = Inr x"
  by (auto simp: parseFlowKey_def valid_key_def)

section \<open>The interface\<close>

text \<open>The compare of the compare-and-swap: what the caller last saw against what is stored.\<close>

definition cas_matches :: "(bytes \<Rightarrow> string) \<Rightarrow> bytes option \<Rightarrow> string option \<Rightarrow> bool" where
  "cas_matches H current expected =
     (case expected of
        None \<Rightarrow> current = None
      | Some e \<Rightarrow> (case current of None \<Rightarrow> False | Some b \<Rightarrow> H b = e))"

text \<open>The refusal that reports a failed compare.\<close>

definition cas_refusal :: "(bytes \<Rightarrow> string) \<Rightarrow> string \<Rightarrow> bytes option \<Rightarrow> string option \<Rightarrow> store_error" where
  "cas_refusal H key current expected =
     (case expected of
        None \<Rightarrow> FlowRecordExistsError key
      | Some e \<Rightarrow> FlowRecordStaleError key e (map_option H current))"

definition is_cas_refusal :: "store_error \<Rightarrow> bool" where
  "is_cas_refusal x = (case x of FlowRecordExistsError k \<Rightarrow> True | FlowRecordStaleError k e a \<Rightarrow> True | _ \<Rightarrow> False)"

text \<open>A run of saves, by any number of writers.\<close>

fun run_saves ::
    "('s \<Rightarrow> string \<Rightarrow> bytes \<Rightarrow> string option \<Rightarrow> (store_error, unit) result \<times> 's) \<Rightarrow> 's
      \<Rightarrow> (string \<times> bytes \<times> string option) list \<Rightarrow> 's" where
  "run_saves sv s [] = s"
| "run_saves sv s ((k, b, e) # ops) = run_saves sv (snd (sv s k b e)) ops"

locale cas_store =
  fixes H :: "bytes \<Rightarrow> string"
    and fits :: "bytes \<Rightarrow> bool"
    and inv :: "'s \<Rightarrow> bool"
    and content :: "'s \<Rightarrow> string \<Rightarrow> bytes option"
    and load :: "'s \<Rightarrow> string \<Rightarrow> (store_error, bytes option) result"
    and save :: "'s \<Rightarrow> string \<Rightarrow> bytes \<Rightarrow> string option \<Rightarrow> (store_error, unit) result \<times> 's"
  assumes save_inv: "inv s \<Longrightarrow> fits b \<Longrightarrow> inv (snd (save s k b e))"
    and load_content: "inv s \<Longrightarrow> load s k = Inr c \<Longrightarrow> c = content s k"
    and save_ok: "inv s \<Longrightarrow> fits b \<Longrightarrow> save s k b e = (Inr (), s') \<Longrightarrow>
      cas_matches H (content s k) e \<and> content s' = (content s)(k := Some b)"
    and save_refused: "inv s \<Longrightarrow> fits b \<Longrightarrow> save s k b e = (Inl x, s') \<Longrightarrow>
      content s' = content s \<or>
      cas_matches H (content s k) e \<and> content s' = (content s)(k := Some b)"
begin

lemma saves_inv: "inv s \<Longrightarrow> \<forall>op \<in> set ops. fits (fst (snd op)) \<Longrightarrow> inv (run_saves save s ops)"
proof (induction ops arbitrary: s)
  case (Cons op ops)
  then show ?case by (cases op) (simp add: save_inv)
qed simp

lemma save_cases:
  assumes "inv s" "fits b"
  shows "content (snd (save s k b e)) = content s \<or> content (snd (save s k b e)) = (content s)(k := Some b)"
  using save_ok [OF assms, of k e "snd (save s k b e)"] save_refused [OF assms, of k e _ "snd (save s k b e)"]
  by (cases "save s k b e"; cases "fst (save s k b e)") auto

lemma save_other: "inv s \<Longrightarrow> fits b \<Longrightarrow> k' \<noteq> k \<Longrightarrow> content (snd (save s k b e)) k' = content s k'"
  using save_cases [of s b k e] by auto

text \<open>A key that holds something never becomes empty again, and never goes back to a digest that
  no later save brings.\<close>

lemma saves_digest:
  assumes "inv s" "content s k = Some b" "H b \<noteq> d" "\<forall>op \<in> set ops. fits (fst (snd op)) \<and> (fst op = k \<longrightarrow> H (fst (snd op)) \<noteq> d)"
  shows "\<exists>b'. content (run_saves save s ops) k = Some b' \<and> H b' \<noteq> d"
  using assms
proof (induction ops arbitrary: s b)
  case Nil
  then show ?case by simp
next
  case (Cons op ops)
  obtain k' b' e where op: "op = (k', b', e)" by (cases op)
  let ?s = "snd (save s k' b' e)"
  have i: "inv ?s" using Cons.prems save_inv by (simp add: op)
  have "\<exists>c. content ?s k = Some c \<and> H c \<noteq> d"
    using save_cases [OF \<open>inv s\<close>, of b' k' e] Cons.prems by (cases "k' = k") (auto simp: op)
  then obtain c where "content ?s k = Some c" "H c \<noteq> d" by blast
  from Cons.IH [OF i this] Cons.prems(4) show ?case by (simp add: op)
qed

lemma saves_present:
  assumes "inv s" "content s k \<noteq> None" "\<forall>op \<in> set ops. fits (fst (snd op))"
  shows "content (run_saves save s ops) k \<noteq> None"
  using assms
proof (induction ops arbitrary: s)
  case Nil
  then show ?case by simp
next
  case (Cons op ops)
  obtain k' b' e where op: "op = (k', b', e)" by (cases op)
  have "content (snd (save s k' b' e)) k \<noteq> None"
    using save_cases [OF \<open>inv s\<close>, of b' k' e] Cons.prems by (auto simp: op)
  with Cons.IH [OF save_inv [OF \<open>inv s\<close>]] Cons.prems show ?case by (simp add: op)
qed

text \<open>After a save went through, a second writer that still expects what the first one replaced is
  refused, however many other saves lie between, as long as none of them brings the old digest
  back.\<close>

lemma no_lost_update:
  assumes "inv s" "save s k b e = (Inr (), s')" "fits b" "fits b'" "\<forall>op \<in> set ops. fits (fst (snd op))"
    and "\<And>d. e = Some d \<Longrightarrow> H b \<noteq> d \<and> (\<forall>op \<in> set ops. fst op = k \<longrightarrow> H (fst (snd op)) \<noteq> d)"
  shows "fst (save (run_saves save s' ops) k b' e) \<noteq> Inr ()"
proof
  assume ok: "fst (save (run_saves save s' ops) k b' e) = Inr ()"
  have i: "inv s'" using save_inv [OF assms(1,3), of k e] assms(2) by simp
  have c: "content s' k = Some b" using save_ok [OF assms(1,3,2)] by simp
  have m: "cas_matches H (content (run_saves save s' ops) k) e"
    using save_ok [OF saves_inv [OF i assms(5)] assms(4), of k e] ok by (metis prod.collapse)
  show False
  proof (cases e)
    case None
    with m saves_present [OF i _ assms(5), of k] c show False by (simp add: cas_matches_def)
  next
    case (Some d)
    with assms(5,6) saves_digest [OF i c, of d ops] m show False by (auto simp: cas_matches_def)
  qed
qed

end

section \<open>The in-memory store\<close>

datatype save_outcome = SavedOk | Faulted mem_fault | RefusedStale | RefusedExists

record save_record =
  sr_n :: nat
  sr_key :: string
  sr_bytes :: bytes
  sr_outcome :: save_outcome

record mem_store =
  ms_values :: "(string \<times> bytes) list"
  ms_log :: "save_record list"
  ms_byNumber :: "(nat \<times> mem_fault) list"
  ms_predicate :: "(nat \<Rightarrow> string \<Rightarrow> bytes \<Rightarrow> mem_fault option) option"

definition new_mem_store :: mem_store where
  "new_mem_store = \<lparr>ms_values = [], ms_log = [], ms_byNumber = [], ms_predicate = None\<rparr>"

definition saveCount :: "mem_store \<Rightarrow> nat" where
  "saveCount s = length (ms_log s)"

definition failSave :: "mem_store \<Rightarrow> jsnum \<Rightarrow> mem_fault \<Rightarrow> (store_error, mem_store) result" where
  "failSave s n mode =
     (case jsnum_int n of
        None \<Rightarrow> Inl FlowStoreBadFaultNumber
      | Some i \<Rightarrow> if i < 1 then Inl FlowStoreBadFaultNumber
                  else Inr (s\<lparr>ms_byNumber := AList.update (nat i) mode (ms_byNumber s)\<rparr>))"

definition failSaveWhen :: "mem_store \<Rightarrow> (nat \<Rightarrow> string \<Rightarrow> bytes \<Rightarrow> mem_fault option) \<Rightarrow> mem_store" where
  "failSaveWhen s p = s\<lparr>ms_predicate := Some p\<rparr>"

definition clearFaults :: "mem_store \<Rightarrow> mem_store" where
  "clearFaults s = s\<lparr>ms_byNumber := [], ms_predicate := None\<rparr>"

definition mem_load :: "mem_store \<Rightarrow> string \<Rightarrow> (store_error, bytes option) result" where
  "mem_load s key = bind_res (parseFlowKey key) (\<lambda>_. Inr (map_of (ms_values s) key))"

definition mem_fault_of :: "mem_store \<Rightarrow> nat \<Rightarrow> string \<Rightarrow> bytes \<Rightarrow> mem_fault option" where
  "mem_fault_of s n key bs =
     (case map_of (ms_byNumber s) n of
        Some fault \<Rightarrow> Some fault
      | None \<Rightarrow> (case ms_predicate s of None \<Rightarrow> None | Some p \<Rightarrow> p n key bs))"

definition log_as :: "mem_store \<Rightarrow> nat \<Rightarrow> string \<Rightarrow> bytes \<Rightarrow> save_outcome \<Rightarrow> mem_store" where
  "log_as s n key bs oc =
     s\<lparr>ms_log := ms_log s @ [\<lparr>sr_n = n, sr_key = key, sr_bytes = bs, sr_outcome = oc\<rparr>]\<rparr>"

definition mem_commit :: "mem_store \<Rightarrow> nat \<Rightarrow> string \<Rightarrow> bytes \<Rightarrow> mem_fault option \<Rightarrow> (store_error, unit) result \<times> mem_store" where
  "mem_commit s n key bs fault =
     (let logged = log_as s n key bs (case fault of None \<Rightarrow> SavedOk | Some f \<Rightarrow> Faulted f);
          stored = logged\<lparr>ms_values := AList.update key bs (ms_values logged)\<rparr>
      in (if fault = Some CommitThenThrow then Inl (FlowStoreFaultError n CommitThenThrow key) else Inr (), stored))"

definition mem_save ::
    "(bytes \<Rightarrow> string) \<Rightarrow> mem_store \<Rightarrow> string \<Rightarrow> bytes \<Rightarrow> string option \<Rightarrow> (store_error, unit) result \<times> mem_store" where
  "mem_save H s key bs expected =
     (case bind_res (parseFlowKey key) (\<lambda>_. checkExpected key expected) of
        Inl x \<Rightarrow> (Inl x, s)
      | Inr _ \<Rightarrow>
          (let n = length (ms_log s) + 1;
               fault = mem_fault_of s n key bs
           in if fault = Some Reject
              then (Inl (FlowStoreFaultError n Reject key), log_as s n key bs (Faulted Reject))
              else (let current = map_of (ms_values s) key
                    in case expected of
                         None \<Rightarrow> if current \<noteq> None then (Inl (FlowRecordExistsError key), log_as s n key bs RefusedExists)
                                 else mem_commit s n key bs fault
                       | Some e \<Rightarrow>
                           (case current of
                              None \<Rightarrow> (Inl (FlowRecordStaleError key e None), log_as s n key bs RefusedStale)
                            | Some c \<Rightarrow> if H c \<noteq> e then (Inl (FlowRecordStaleError key e (Some (H c))), log_as s n key bs RefusedStale)
                                        else mem_commit s n key bs fault))))"

definition mem_list :: "mem_store \<Rightarrow> string list" where
  "mem_list s = sort (map fst (ms_values s))"

definition mem_inv :: "mem_store \<Rightarrow> bool" where
  "mem_inv s \<longleftrightarrow> distinct (map fst (ms_values s)) \<and> (\<forall>k \<in> set (map fst (ms_values s)). valid_key k)"

definition mem_content :: "mem_store \<Rightarrow> string \<Rightarrow> bytes option" where
  "mem_content s = map_of (ms_values s)"

lemma mem_content_simps [simp]:
  "mem_content (log_as s n k b oc) = mem_content s"
  "mem_inv (log_as s n k b oc) = mem_inv s"
  by (simp_all add: mem_content_def mem_inv_def log_as_def)

lemma mem_commit_snd [simp]:
  "mem_content (snd (mem_commit s n k b f)) = (mem_content s)(k := Some b)"
  by (simp add: mem_commit_def mem_content_def log_as_def Let_def update_conv')

lemma mem_commit_content: "mem_commit s n k b f = (r, s') \<Longrightarrow> mem_content s' = (mem_content s)(k := Some b)"
  by (metis mem_commit_snd snd_conv)

lemma mem_commit_inv: "mem_inv s \<Longrightarrow> valid_key k \<Longrightarrow> mem_inv (snd (mem_commit s n k b f))"
  by (auto simp: mem_inv_def mem_commit_def log_as_def Let_def distinct_update dom_update)

lemma mem_commit_fst: "fst (mem_commit s n k b f) = Inl x \<Longrightarrow> \<not> is_cas_refusal x"
  by (auto simp: mem_commit_def Let_def is_cas_refusal_def split: if_splits)

text \<open>The four ways a save can go.\<close>

lemma mem_save_cases:
  obtains (bad) x where "mem_save H s k b e = (Inl x, s)" "\<not> is_cas_refusal x"
  | (faulted) n where "mem_save H s k b e = (Inl (FlowStoreFaultError n Reject k), log_as s n k b (Faulted Reject))" "valid_key k"
  | (refused) n oc where "mem_save H s k b e = (Inl (cas_refusal H k (mem_content s k) e), log_as s n k b oc)"
      "\<not> cas_matches H (mem_content s k) e" "valid_key k"
  | (commit) n f where "mem_save H s k b e = mem_commit s n k b f" "cas_matches H (mem_content s k) e" "valid_key k"
proof (cases "bind_res (parseFlowKey k) (\<lambda>_. checkExpected k e)")
  case (Inl x)
  then have "\<not> is_cas_refusal x"
    by (auto simp: result_simps parseFlowKey_def checkExpected_def is_cas_refusal_def)
  with Inl bad show thesis by (simp add: mem_save_def)
next
  case (Inr u)
  then have v: "valid_key k" by (auto simp: result_simps intro: parseFlowKey_valid)
  let ?n = "length (ms_log s) + 1"
  show thesis
  proof (cases "mem_fault_of s ?n k b = Some Reject")
    case True
    with Inr v faulted [of ?n] show thesis by (simp add: mem_save_def)
  next
    case False
    show thesis
    proof (cases "cas_matches H (mem_content s k) e")
      case True
      with False Inr v commit [of ?n "mem_fault_of s ?n k b"] show thesis
        by (auto simp: mem_save_def cas_matches_def mem_content_def split: option.splits)
    next
      case neg: False
      have "mem_save H s k b e = (Inl (cas_refusal H k (mem_content s k) e),
          log_as s ?n k b (if e = None then RefusedExists else RefusedStale))"
        using False neg Inr
        by (auto simp: mem_save_def cas_matches_def cas_refusal_def mem_content_def split: option.splits)
      with neg v refused show thesis by blast
    qed
  qed
qed

interpretation mem: cas_store H "\<lambda>_. True" mem_inv mem_content mem_load "mem_save H" for H
proof
  fix s k b e
  assume "mem_inv s"
  then show "mem_inv (snd (mem_save H s k b e))"
    by (cases rule: mem_save_cases [of H s k b e]) (simp_all add: mem_commit_inv)
next
  fix s k c
  assume "mem_load s k = Inr c"
  then show "c = mem_content s k" by (auto simp: mem_load_def mem_content_def result_simps)
next
  fix s k b e s'
  assume "mem_save H s k b e = (Inr (), s')"
  then show "cas_matches H (mem_content s k) e \<and> mem_content s' = (mem_content s)(k := Some b)"
    by (cases rule: mem_save_cases [of H s k b e]) (auto dest: mem_commit_content)
next
  fix s k b e x s'
  assume "mem_save H s k b e = (Inl x, s')"
  then show "mem_content s' = mem_content s
      \<or> cas_matches H (mem_content s k) e \<and> mem_content s' = (mem_content s)(k := Some b)"
    by (cases rule: mem_save_cases [of H s k b e]) (auto dest: mem_commit_content)
qed

lemma mem_refusal_stores_nothing:
  assumes m: "mem_save H s k b e = (Inl x, s')" and x: "is_cas_refusal x"
  shows "mem_content s' = mem_content s"
proof (cases rule: mem_save_cases [of H s k b e])
  case (commit n f)
  then have "fst (mem_commit s n k b f) = Inl x" using m by (metis fst_conv)
  with x mem_commit_fst show ?thesis by blast
qed (use m x in auto)

text \<open>No update is lost in the in-memory store: once a save that expected \<open>e\<close> went
  through, a later save under the same key that still expects \<open>e\<close> fails, whatever other
  saves, refusals and injected faults lie between, unless one of the saves put bytes with the
  expected digest back.\<close>

theorem mem_no_lost_update:
  assumes "mem_inv s" "mem_save H s k b e = (Inr (), s')"
    and "\<And>d. e = Some d \<Longrightarrow> H b \<noteq> d \<and> (\<forall>op \<in> set ops. fst op = k \<longrightarrow> H (fst (snd op)) \<noteq> d)"
  shows "\<exists>x. fst (mem_save H (run_saves (mem_save H) s' ops) k b' e) = Inl x"
  using mem.no_lost_update [OF assms(1,2) TrueI TrueI _ assms(3)] by (metis (full_types) obj_sumE old.unit.exhaust)

text \<open>Two flows on one record: both loaded the same bytes, the second to save is refused.\<close>

definition demo_hash :: "bytes \<Rightarrow> string" where
  "demo_hash bs = replicate 63 (CHR ''0'') @ (if bs = [1] then ''1'' else if bs = [2] then ''2'' else ''3'')"

definition demo_key :: string where
  "demo_key = ''buyer:0x'' @ replicate 64 (CHR ''a'')"

lemma only_replicate [simp]: "only cls (replicate n c) \<longleftrightarrow> n = 0 \<or> c \<in> set cls"
  by (auto simp: only_def list_all_iff)

lemma demo_key_valid [simp]: "FLOW_KEY_PATTERN demo_key = Some (BuyerRole, ''0x'' @ replicate 64 (CHR ''a''))"
  by (simp add: FLOW_KEY_PATTERN_Some demo_key_def hex32_def lower_hex_def)

lemma demo_expected [simp]: "checkExpected k (Some (demo_hash [1])) = Inr ()"
  by (simp add: checkExpected_def SHA256_HEX_def run_of_def demo_hash_def lower_hex_def)

theorem mem_no_lost_update_witness:
  "\<exists>s' x. mem_save demo_hash (new_mem_store\<lparr>ms_values := [(demo_key, [1])]\<rparr>) demo_key [2] (Some (demo_hash [1])) = (Inr (), s')
     \<and> fst (mem_save demo_hash (run_saves (mem_save demo_hash) s' []) demo_key [3] (Some (demo_hash [1]))) = Inl x"
proof -
  let ?s = "new_mem_store\<lparr>ms_values := [(demo_key, [1])]\<rparr>"
  have i: "mem_inv ?s" by (simp add: mem_inv_def valid_key_def)
  obtain s' where s': "mem_save demo_hash ?s demo_key [2] (Some (demo_hash [1])) = (Inr (), s')"
    by (simp add: mem_save_def parseFlowKey_def new_mem_store_def mem_fault_of_def mem_commit_def Let_def)
  from mem_no_lost_update [OF i s', of "[]"] s' show ?thesis
    by (auto simp: demo_hash_def)
qed

text \<open>The in-memory store is the compare-and-swap register of its interface: with a well-formed
  key and digest and no fault armed for the call, a save answers success exactly when the stored
  bytes are the expected ones and then stores the new ones, and otherwise refuses as stale or as
  existing and stores nothing; the call is logged either way.\<close>

theorem mem_save_refines:
  assumes "valid_key k" "checkExpected k e = Inr ()" "mem_fault_of s (length (ms_log s) + 1) k b = None"
  shows "fst (mem_save H s k b e)
      = (if cas_matches H (mem_content s k) e then Inr () else Inl (cas_refusal H k (mem_content s k) e))
    \<and> mem_content (snd (mem_save H s k b e))
      = (if cas_matches H (mem_content s k) e then (mem_content s)(k := Some b) else mem_content s)
    \<and> length (ms_log (snd (mem_save H s k b e))) = length (ms_log s) + 1"
proof -
  obtain x where x: "parseFlowKey k = Inr x" using valid_key_parse [OF assms(1)] ..
  note d = mem_save_def cas_matches_def cas_refusal_def x assms(2) assms(3) [simplified]
  show ?thesis
  proof (intro conjI)
    show "fst (mem_save H s k b e)
        = (if cas_matches H (mem_content s k) e then Inr () else Inl (cas_refusal H k (mem_content s k) e))"
      by (auto simp: d mem_content_def mem_commit_def Let_def split: option.splits)
    show "mem_content (snd (mem_save H s k b e))
        = (if cas_matches H (mem_content s k) e then (mem_content s)(k := Some b) else mem_content s)"
      by (auto simp: d mem_content_def [symmetric] split: option.splits)
    show "length (ms_log (snd (mem_save H s k b e))) = length (ms_log s) + 1"
      by (auto simp: d mem_commit_def log_as_def Let_def split: option.splits)
  qed
qed

theorem mem_save_refines_witness:
  "fst (mem_save demo_hash new_mem_store demo_key [1] None) = Inr ()"
proof -
  have "valid_key demo_key" "checkExpected demo_key None = Inr ()"
    "mem_fault_of new_mem_store (length (ms_log new_mem_store) + 1) demo_key [1] = None"
    by (simp_all add: valid_key_def checkExpected_def mem_fault_of_def new_mem_store_def)
  from mem_save_refines [OF this] show ?thesis
    by (simp add: cas_matches_def mem_content_def new_mem_store_def)
qed

end
