(* ===== verification/Flow_Types.thy ===== *)
theory Flow_Types
  imports Json_Text Flow_Store Account_Proof
begin

text \<open>
  \<open>src/client/flow-record.ts\<close>: the record one Buyer or Seller flow persists. The types,
  the record as JSON data, the strict reader (one definition per method of the class
  \<open>Reader\<close>), \<open>encodeFlowRecord\<close> and \<open>decodeFlowRecord\<close>, the ledger
  updates and the redaction. A failure carries the path of the field and a constructor for the
  message. The digest of \<open>node:crypto\<close> is the function \<open>H\<close> of
  \<open>Flow_Store\<close>; \<open>verifyHashPreimage\<close>, \<open>dealRoom\<close> and
  \<open>OFFER_ROOM\<close> are the library's.
\<close>

section \<open>Errors\<close>

datatype step = Fld string | Idx nat

type_synonym path = "step list"

datatype why =
    MustBeObject | IsRequired | NotAField
  | MustBeString | MustNotBeEmpty | TooLong | WrongShape | MustBeSingleLine
  | MustBeInt int | MustBeBoolean | MustBeArray | TooManyEntries | MustBeTrue
  | HoldsSecret | NotFrameLine | NotSlotText
  | BadMarkerKind | NotSafeInteger | BadEvent | BadChain bool | BadRole
  | EarlierThanCreated
  | NotLedgerKind | NotPostedBy string | KindTwice | MustBeOfferRoom | NotDealRoom | DigestOnly
  | RecordMustBeAbsent | NotOwnRecord
  | NotOpening | NotAttemptedAccept | SignatureTwice | BadOutcome | NeedsClaimAttempted
  | WithEvmHash | WithSolRecords | NeedsPublicSignature | NeedsLockedLegB | ClaimedAndRefunded
  | NeedsLockAttempted | NeedsAttempt | NeverLandedEvidence | NeedsRefundAttempted
  | NeverLandedRefund | NeverLandedClaim | NeedsLegBClaim | NeverLandedLegB | OwnAndAdopted

datatype record_fault =
    At path why
  | OverCap nat
  | BadUtf8 | BadJson | EnvelopeNotObject | BadEnvelope | SumMismatch
  | BadMarker

datatype ledger_kind =
    OfferA | AcceptA | OfferB | AcceptB | AccountA | LockA | LockB | RevealA | ReceiptA
  | RevealB | ReceiptB | RefundA | ReceiptRefundA | RefundB | ReceiptRefundB

datatype conflict = OtherText ledger_kind | NoEntry ledger_kind | LandedAt ledger_kind int int

datatype record_error =
    RecordCorrupt string record_fault
  | FlowRecordVersionError string jsval
  | FlowRecordMismatchError string string string
  | FlowRecordInvalidError string record_fault
  | FlowRecordConflictError conflict
  | DealRoomThrew string
  | StoreThrew store_error

type_synonym 'a parsed = "(record_error, 'a) result"

section \<open>Types\<close>

record frame_slot =
  slot_text :: string
  slot_record :: "transcript_record option"

record swap_frames =
  sf_offerA :: "frame_slot option"
  sf_acceptA :: "frame_slot option"
  sf_offerB :: "frame_slot option"
  sf_acceptB :: "frame_slot option"

fun kind_name :: "ledger_kind \<Rightarrow> string" where
  "kind_name OfferA = ''offer-a''"
| "kind_name AcceptA = ''accept-a''"
| "kind_name OfferB = ''offer-b''"
| "kind_name AcceptB = ''accept-b''"
| "kind_name AccountA = ''account-a''"
| "kind_name LockA = ''lock-a''"
| "kind_name LockB = ''lock-b''"
| "kind_name RevealA = ''reveal-a''"
| "kind_name ReceiptA = ''receipt-a''"
| "kind_name RevealB = ''reveal-b''"
| "kind_name ReceiptB = ''receipt-b''"
| "kind_name RefundA = ''refund-a''"
| "kind_name ReceiptRefundA = ''receipt-refund-a''"
| "kind_name RefundB = ''refund-b''"
| "kind_name ReceiptRefundB = ''receipt-refund-b''"

definition OFFER_ROOM_KINDS :: "ledger_kind list" where
  "OFFER_ROOM_KINDS = [OfferA, AcceptA, OfferB, AcceptB]"

definition BUYER_KINDS :: "ledger_kind list" where
  "BUYER_KINDS = [OfferA, AcceptB, AccountA, LockA, RevealB, ReceiptB, RefundA, ReceiptRefundA]"

definition SELLER_KINDS :: "ledger_kind list" where
  "SELLER_KINDS = [AcceptA, OfferB, AccountA, LockB, RevealA, ReceiptA, RefundB, ReceiptRefundB]"

definition ALL_KINDS :: "ledger_kind list" where
  "ALL_KINDS = BUYER_KINDS @ SELLER_KINDS"

text \<open>\<open>KIND_CONTRACT\<close>: the kinds of leg A's deal room.\<close>

definition of_leg_a :: "ledger_kind \<Rightarrow> bool" where
  "of_leg_a k \<longleftrightarrow> k \<in> {AccountA, LockA, RevealA, ReceiptA, RefundA, ReceiptRefundA}"

definition kind_of :: "string \<Rightarrow> ledger_kind option" where
  "kind_of s = List.find (\<lambda>k. kind_name k = s) ALL_KINDS"

record ledger_landed =
  ld_seq :: int
  ld_nonce :: "string option"
  ld_record :: "transcript_record option"

record ledger_entry =
  en_kind :: ledger_kind
  en_room :: string
  en_text :: string
  en_landed :: "ledger_landed option"

record rail_accounts =
  ra_payer :: "string option"
  ra_payee :: "string option"
  ra_payerKey :: "string option"
  ra_payeeKey :: "string option"

datatype marker_kind = BigintMarker | NumberMarker

record block_marker =
  bm_kind :: marker_kind
  bm_value :: string

datatype chain_event = LockedEvent | ClaimedEvent | RefundedEvent

text \<open>A field that may be absent or \<open>null\<close> has two options.\<close>

record write_evidence =
  we_ref :: string
  we_raw :: "string list"
  we_event :: "chain_event option"
  we_txHash :: "string option"
  we_blockNumber :: "string option"
  we_blockHash :: "string option option"
  we_logIndex :: "int option"
  we_txid :: "string option"
  we_blockHeight :: "int option option"
  we_rawTx :: "string option"
  we_claimedByAnotherTransaction :: bool

datatype lock_recovery =
    EvmRecovery string
  | BtcRecovery string string
  | NearRecovery string string
  | SolRecovery string string int "int option"

record rail_claim_record =
  rc_signature :: string
  rc_blockhash :: string
  rc_lastValidBlockHeight :: int
  rc_signedSlot :: "int option"

record claim_tx =
  ct_txid :: string
  ct_rawTx :: string
  ct_sent :: bool

record leg_b_deadlines =
  lb_claimByMs :: int
  lb_refundAfterMs :: int
  lb_expiresMs :: int

record flow_base =
  fr_swapId :: string
  fr_did :: string
  fr_railId :: string
  fr_caip2 :: string
  fr_deploymentId :: string
  fr_createdAtMs :: int
  fr_updatedAtMs :: int
  fr_revision :: int
  fr_frames :: swap_frames
  fr_contractB :: "string option"
  fr_lockTimeMs :: "int option"
  fr_legB :: "leg_b_deadlines option"
  fr_ledger :: "ledger_entry list"

datatype claim_outcome = OutcomeNone | OutcomeLanded | OutcomeFailedPublic

record account_text =
  at_address :: string
  at_text :: string

record leg_b_refund =
  lr_attempted :: bool
  lr_done :: bool
  lr_framesPosted :: bool

record seller_state =
  ss_contractA :: string
  ss_preimage :: string
  ss_statement :: string
  ss_attemptedAcceptB :: "string option"
  ss_lockedLegBContract :: "string option"
  ss_frozenLegAAccounts :: "rail_accounts option"
  ss_frozenLegARailRef :: "string option"
  ss_ownAccountLine :: "account_text option"
  ss_claimAttempted :: bool
  ss_claimFromBlock :: "block_marker option"
  ss_claimTxHash :: "string option"
  ss_claimTx :: "claim_tx option"
  ss_claimRecords :: "rail_claim_record list"
  ss_publicClaimSignature :: "string option"
  ss_neverLandedClaims :: int
  ss_claimOutcome :: claim_outcome
  ss_revealPosted :: bool
  ss_receiptPosted :: bool
  ss_legBRefund :: leg_b_refund
  ss_legBClaimSeen :: bool

record prepared_lock =
  pl_ref :: string
  pl_recovery :: "lock_recovery option"

record buyer_lock =
  bl_attempted :: bool
  bl_prepared :: "prepared_lock option"
  bl_fromBlock :: "block_marker option"
  bl_accounts :: "rail_accounts option"
  bl_hashLock :: "string option"
  bl_evidence :: "write_evidence option"
  bl_framePosted :: bool
  bl_neverLanded :: bool

record buyer_refund =
  br_attempted :: bool
  br_recovery :: "lock_recovery option"
  br_evidence :: "write_evidence option"
  br_framesPosted :: bool
  br_claimSeen :: bool

record buyer_state =
  bs_contractA :: "string option"
  bs_legBVerified :: bool
  bs_ownAccountLine :: "account_text option"
  bs_lock :: buyer_lock
  bs_legBClaimAttempted :: bool
  bs_legBClaimed :: bool
  bs_legBClaimAdopted :: bool
  bs_refund :: buyer_refund
  bs_refundNotes :: "string list"

datatype flow_record =
    SellerRecord (rec_base: flow_base) (rec_seller: seller_state)
  | BuyerRecord (rec_base: flow_base) (rec_buyer: buyer_state)

fun rec_role :: "flow_record \<Rightarrow> flow_role" where
  "rec_role (SellerRecord b s) = SellerRole"
| "rec_role (BuyerRecord b s) = BuyerRole"

fun rec_contractA :: "flow_record \<Rightarrow> string option" where
  "rec_contractA (SellerRecord b s) = Some (ss_contractA s)"
| "rec_contractA (BuyerRecord b s) = bs_contractA s"

fun with_base :: "flow_record \<Rightarrow> flow_base \<Rightarrow> flow_record" where
  "with_base (SellerRecord b s) b' = SellerRecord b' s"
| "with_base (BuyerRecord b s) b' = BuyerRecord b' s"

end
