(* ===== verification/Flow_Reader.thy ===== *)
theory Flow_Reader
  imports Flow_Types Tclk
begin

text \<open>
  \<open>src/client/flow-record.ts\<close>, the class \<open>Reader\<close> and \<open>parseRecord\<close>:
  the strict reader of a record. One definition per method, taking the reader (\<open>key\<close>,
  \<open>building\<close>) first; the order of the checks is the source's, so the first bad path is the
  one that is named.
\<close>

section \<open>Patterns\<close>

definition HEX_EVEN :: "string \<Rightarrow> bool" where
  "HEX_EVEN s \<longleftrightarrow> s \<noteq> [] \<and> even (length s) \<and> only lower_hex s"

definition RECORD_DID :: "string \<Rightarrow> bool" where
  "RECORD_DID s \<longleftrightarrow> take 9 s = ''did:key:z'' \<and> drop 9 s \<noteq> [] \<and> only base58_chars (drop 9 s)"

definition BASE64 :: "string \<Rightarrow> bool" where
  "BASE64 s \<longleftrightarrow>
     (let body = takeWhile (\<lambda>c. c \<noteq> CHR ''='') s; pad = dropWhile (\<lambda>c. c \<noteq> CHR ''='') s
      in body \<noteq> [] \<and> only (''+/'' @ alnum) body \<and> pad \<in> {[], ''='', ''==''})"

definition DIGITS :: "string \<Rightarrow> bool" where
  "DIGITS s \<longleftrightarrow> s \<noteq> [] \<and> only digits s"

text \<open>\<open>DIGEST_TEXT\<close>: \<open>sha256:\<close> and 64 hex digits.\<close>

definition DIGEST_TEXT :: "string \<Rightarrow> bool" where
  "DIGEST_TEXT s \<longleftrightarrow> take 7 s = ''sha256:'' \<and> SHA256_HEX (drop 7 s)"

definition any_hex :: string where
  "any_hex = ''0123456789abcdefABCDEF''"

text \<open>The maximal runs of hex digits of a text; \<open>HEX64_RUN\<close> matches those of length 64.\<close>

function hex_runs :: "string \<Rightarrow> string list" where
  "hex_runs [] = []"
| "hex_runs (c # s) =
     (if c \<in> set any_hex
      then (c # takeWhile (\<lambda>d. d \<in> set any_hex) s) # hex_runs (dropWhile (\<lambda>d. d \<in> set any_hex) s)
      else hex_runs s)"
  by pat_completeness auto
termination
  by (relation "measure length") (auto simp: less_Suc_eq_le length_dropWhile_le)

definition HEX64_RUN :: "string \<Rightarrow> string list" where
  "HEX64_RUN s = List.filter (\<lambda>r. length r = 64) (hex_runs s)"

definition MAX_TEXT :: nat where
  "MAX_TEXT = 8192"

definition MAX_FLOW_RECORD_BYTES :: nat where
  "MAX_FLOW_RECORD_BYTES = 1048576"

section \<open>The reader's basic methods\<close>

record reader =
  rd_key :: string
  rd_building :: bool

definition fail :: "reader \<Rightarrow> path \<Rightarrow> why \<Rightarrow> 'a parsed" where
  "fail r p w =
     (if rd_building r then Inl (FlowRecordInvalidError (rd_key r) (At p w))
      else Inl (RecordCorrupt (rd_key r) (At p w)))"

definition fail_if :: "reader \<Rightarrow> bool \<Rightarrow> path \<Rightarrow> why \<Rightarrow> unit parsed" where
  "fail_if r b p w = (if b then fail r p w else Inr ())"

type_synonym obj = "(string \<times> jsval) list"

text \<open>\<open>o.name\<close>, and \<open>name in o\<close>.\<close>

definition field_of :: "obj \<Rightarrow> string \<Rightarrow> jsval" where
  "field_of ob name = (case map_of ob name of None \<Rightarrow> Undefined | Some v \<Rightarrow> v)"

definition has :: "obj \<Rightarrow> string \<Rightarrow> bool" where
  "has ob name \<longleftrightarrow> map_of ob name \<noteq> None"

text \<open>\<open>Object.keys\<close>: the keys that are array indices come first, in ascending order.\<close>

definition array_index :: "string \<Rightarrow> bool" where
  "array_index k \<longleftrightarrow> canonical_decimal k \<and> read_nat k < 4294967295"

definition own_keys :: "obj \<Rightarrow> string list" where
  "own_keys ob =
     sort_key read_nat (List.filter array_index (map fst ob)) @ List.filter (\<lambda>k. \<not> array_index k) (map fst ob)"

definition rd_object :: "reader \<Rightarrow> jsval \<Rightarrow> path \<Rightarrow> string list \<Rightarrow> string list \<Rightarrow> obj parsed" where
  "rd_object r v p required optional =
     (case v of
        Obj ob \<Rightarrow>
          (case List.find (\<lambda>n. \<not> has ob n) required of
             Some n \<Rightarrow> fail r (p @ [Fld n]) IsRequired
           | None \<Rightarrow>
               (case List.find (\<lambda>n. n \<notin> set (required @ optional)) (own_keys ob) of
                  Some n \<Rightarrow> fail r (p @ [Fld n]) NotAField
                | None \<Rightarrow> Inr ob))
      | _ \<Rightarrow> fail r p MustBeObject)"

definition rd_string_opt :: "reader \<Rightarrow> jsval \<Rightarrow> path \<Rightarrow> (string \<Rightarrow> bool) \<Rightarrow> nat \<Rightarrow> bool \<Rightarrow> string parsed" where
  "rd_string_opt r v p pattern mx allowEmpty =
     (case v of
        Str s \<Rightarrow>
          bind_res (fail_if r (s = [] \<and> \<not> allowEmpty) p MustNotBeEmpty) (\<lambda>_.
          bind_res (fail_if r (mx < length s) p TooLong) (\<lambda>_.
          bind_res (fail_if r (\<not> pattern s) p WrongShape) (\<lambda>_. Inr s)))
      | _ \<Rightarrow> fail r p MustBeString)"

definition rd_string :: "reader \<Rightarrow> jsval \<Rightarrow> path \<Rightarrow> string parsed" where
  "rd_string r v p = rd_string_opt r v p (\<lambda>_. True) MAX_TEXT False"

definition rd_pattern :: "reader \<Rightarrow> jsval \<Rightarrow> path \<Rightarrow> (string \<Rightarrow> bool) \<Rightarrow> string parsed" where
  "rd_pattern r v p pattern = rd_string_opt r v p pattern MAX_TEXT False"

definition rd_short :: "reader \<Rightarrow> jsval \<Rightarrow> path \<Rightarrow> nat \<Rightarrow> string parsed" where
  "rd_short r v p mx = rd_string_opt r v p (\<lambda>_. True) mx False"

definition rd_line :: "reader \<Rightarrow> jsval \<Rightarrow> path \<Rightarrow> string parsed" where
  "rd_line r v p =
     bind_res (rd_string r v p) (\<lambda>s.
     bind_res (fail_if r (CHR 0x0A \<in> set s \<or> CHR 0x0D \<in> set s) p MustBeSingleLine) (\<lambda>_. Inr s))"

definition rd_int :: "reader \<Rightarrow> jsval \<Rightarrow> path \<Rightarrow> int \<Rightarrow> int parsed" where
  "rd_int r v p least =
     (case safe_int_of v of
        Some i \<Rightarrow> if i < least then fail r p (MustBeInt least) else Inr i
      | None \<Rightarrow> fail r p (MustBeInt least))"

definition rd_bool :: "reader \<Rightarrow> jsval \<Rightarrow> path \<Rightarrow> bool parsed" where
  "rd_bool r v p = (case v of Bool b \<Rightarrow> Inr b | _ \<Rightarrow> fail r p MustBeBoolean)"

definition rd_array :: "reader \<Rightarrow> jsval \<Rightarrow> path \<Rightarrow> nat \<Rightarrow> jsval list parsed" where
  "rd_array r v p mx =
     (case v of
        Arr xs \<Rightarrow> if mx < length xs then fail r p TooManyEntries else Inr xs
      | _ \<Rightarrow> fail r p MustBeArray)"

definition rd_nullable :: "reader \<Rightarrow> jsval \<Rightarrow> path \<Rightarrow> string option parsed" where
  "rd_nullable r v p =
     (if v = Null then Inr None
      else bind_res (rd_string_opt r v p (\<lambda>_. True) MAX_TEXT True) (\<lambda>s. Inr (Some s)))"

definition rd_optional :: "obj \<Rightarrow> string \<Rightarrow> (jsval \<Rightarrow> path \<Rightarrow> 'a parsed) \<Rightarrow> path \<Rightarrow> 'a option parsed" where
  "rd_optional ob name parse p =
     (case map_of ob name of
        None \<Rightarrow> Inr None
      | Some v \<Rightarrow> bind_res (parse v (p @ [Fld name])) (\<lambda>a. Inr (Some a)))"

text \<open>A flag that is \<open>true\<close> or absent.\<close>

definition rd_flag :: "reader \<Rightarrow> obj \<Rightarrow> string \<Rightarrow> path \<Rightarrow> bool parsed" where
  "rd_flag r ob name p =
     bind_res (rd_optional ob name (\<lambda>v q.
         bind_res (rd_bool r v q) (\<lambda>b. fail_if r (\<not> b) q MustBeTrue)) p)
       (\<lambda>x. Inr (x \<noteq> None))"

text \<open>\<open>items.map((item, i) => ...)\<close>, stopping at the first failure.\<close>

fun rd_each :: "(jsval \<Rightarrow> path \<Rightarrow> 'a parsed) \<Rightarrow> path \<Rightarrow> nat \<Rightarrow> jsval list \<Rightarrow> 'a list parsed" where
  "rd_each f p i [] = Inr []"
| "rd_each f p i (x # xs) =
     bind_res (f x (p @ [Idx i])) (\<lambda>y. bind_res (rd_each f p (Suc i) xs) (\<lambda>ys. Inr (y # ys)))"

text \<open>\<open>noPreimageOf\<close>: the places of the strings that hold a value opening the lock.\<close>

definition holds_preimage :: "tclk \<Rightarrow> string \<Rightarrow> string \<Rightarrow> bool" where
  "holds_preimage T hashLock s \<longleftrightarrow>
     (\<exists>run \<in> set (HEX64_RUN s). verifyHashPreimage T hashLock (''0x'' @ toLowerCase run))"

function secret_paths :: "(string \<Rightarrow> bool) \<Rightarrow> path \<Rightarrow> jsval \<Rightarrow> path list" where
  "secret_paths bad p (Str s) = (if bad s then [p] else [])"
| "secret_paths bad p (Arr xs) = concat (map (\<lambda>(i, x). secret_paths bad (p @ [Idx i]) x) (zip [0..<length xs] xs))"
| "secret_paths bad p (Obj ob) = concat (map (\<lambda>(k, x). secret_paths bad (p @ [Fld k]) x) ob)"
| "secret_paths bad p Undefined = []"
| "secret_paths bad p Null = []"
| "secret_paths bad p (Bool b) = []"
| "secret_paths bad p (Num n) = []"
  by pat_completeness auto
termination
proof (relation "measure (\<lambda>(bad, p, v). size v)", goal_cases)
  case 1
  then show ?case by simp
next
  case (2 bad p xs z i x)
  then have "x \<in> set xs" by (auto dest: set_zip_rightD)
  then show ?case by (induction xs) auto
next
  case (3 bad p ob z k x)
  then show ?case by (induction ob) auto
qed

definition noPreimageOf :: "tclk \<Rightarrow> reader \<Rightarrow> string \<Rightarrow> jsval \<Rightarrow> path \<Rightarrow> unit parsed" where
  "noPreimageOf T r hashLock v p =
     (case secret_paths (holds_preimage T hashLock) p v of
        [] \<Rightarrow> Inr ()
      | q # _ \<Rightarrow> fail r q HoldsSecret)"

section \<open>The parts of a record\<close>

definition rd_transcriptRecord :: "reader \<Rightarrow> jsval \<Rightarrow> path \<Rightarrow> transcript_record parsed" where
  "rd_transcriptRecord r v p =
     bind_res (rd_object r v p [''room'', ''seq'', ''timestampMs'', ''sender'', ''nonce'', ''signature'', ''line''] []) (\<lambda>ob.
     bind_res (rd_string r (field_of ob ''room'') (p @ [Fld ''room''])) (\<lambda>room.
     bind_res (rd_int r (field_of ob ''seq'') (p @ [Fld ''seq'']) 1) (\<lambda>sq.
     bind_res (rd_int r (field_of ob ''timestampMs'') (p @ [Fld ''timestampMs'']) 0) (\<lambda>ts.
     bind_res (rd_string r (field_of ob ''sender'') (p @ [Fld ''sender''])) (\<lambda>sender.
     bind_res (rd_nullable r (field_of ob ''nonce'') (p @ [Fld ''nonce''])) (\<lambda>nonce.
     bind_res (rd_nullable r (field_of ob ''signature'') (p @ [Fld ''signature''])) (\<lambda>sig.
     bind_res (rd_line r (field_of ob ''line'') (p @ [Fld ''line''])) (\<lambda>line.
       Inr \<lparr>tr_room = room, tr_seq = sq, tr_timestampMs = ts, tr_sender = sender, tr_nonce = nonce,
            tr_signature = sig, tr_line = line\<rparr>))))))))"

definition rd_frameSlot :: "reader \<Rightarrow> jsval \<Rightarrow> path \<Rightarrow> frame_slot parsed" where
  "rd_frameSlot r v p =
     bind_res (rd_object r v p [''text''] [''record'']) (\<lambda>ob.
     bind_res (rd_line r (field_of ob ''text'') (p @ [Fld ''text''])) (\<lambda>line.
     bind_res (fail_if r (take 6 line \<noteq> ''tclk1 '') (p @ [Fld ''text'']) NotFrameLine) (\<lambda>_.
     bind_res (rd_optional ob ''record'' (rd_transcriptRecord r) p) (\<lambda>rec.
     bind_res (fail_if r (case rec of None \<Rightarrow> False | Some t \<Rightarrow> tr_line t \<noteq> line)
                 (p @ [Fld ''record'', Fld ''line'']) NotSlotText) (\<lambda>_.
       Inr \<lparr>slot_text = line, slot_record = rec\<rparr>)))))"

definition rd_accounts :: "reader \<Rightarrow> jsval \<Rightarrow> path \<Rightarrow> rail_accounts parsed" where
  "rd_accounts r v p =
     bind_res (rd_object r v p [] [''payer'', ''payee'', ''payerKey'', ''payeeKey'']) (\<lambda>ob.
     bind_res (rd_optional ob ''payer'' (rd_string r) p) (\<lambda>a.
     bind_res (rd_optional ob ''payee'' (rd_string r) p) (\<lambda>b.
     bind_res (rd_optional ob ''payerKey'' (rd_string r) p) (\<lambda>c.
     bind_res (rd_optional ob ''payeeKey'' (rd_string r) p) (\<lambda>d.
       Inr \<lparr>ra_payer = a, ra_payee = b, ra_payerKey = c, ra_payeeKey = d\<rparr>)))))"

definition marker_kind_of :: "jsval \<Rightarrow> marker_kind option" where
  "marker_kind_of v =
     (if v = Str ''bigint'' then Some BigintMarker
      else if v = Str ''number'' then Some NumberMarker else None)"

definition rd_marker :: "reader \<Rightarrow> jsval \<Rightarrow> path \<Rightarrow> block_marker parsed" where
  "rd_marker r v p =
     bind_res (rd_object r v p [''kind'', ''value''] []) (\<lambda>ob.
       (case marker_kind_of (field_of ob ''kind'') of
          None \<Rightarrow> fail r (p @ [Fld ''kind'']) BadMarkerKind
        | Some k \<Rightarrow>
            bind_res (rd_string_opt r (field_of ob ''value'') (p @ [Fld ''value'']) DIGITS 80 False) (\<lambda>ds.
            bind_res (fail_if r (k = NumberMarker \<and> max_safe < int (read_nat ds)) (p @ [Fld ''value'']) NotSafeInteger) (\<lambda>_.
              Inr \<lparr>bm_kind = k, bm_value = ds\<rparr>))))"

definition chain_event_of :: "jsval \<Rightarrow> chain_event option" where
  "chain_event_of v =
     (if v = Str ''Locked'' then Some LockedEvent
      else if v = Str ''Claimed'' then Some ClaimedEvent
      else if v = Str ''Refunded'' then Some RefundedEvent else None)"

definition rd_event :: "reader \<Rightarrow> jsval \<Rightarrow> path \<Rightarrow> chain_event parsed" where
  "rd_event r v p = (case chain_event_of v of None \<Rightarrow> fail r p BadEvent | Some e \<Rightarrow> Inr e)"

text \<open>A field that may be \<open>null\<close>.\<close>

definition or_null :: "(jsval \<Rightarrow> path \<Rightarrow> 'a parsed) \<Rightarrow> jsval \<Rightarrow> path \<Rightarrow> 'a option parsed" where
  "or_null f v p = (if v = Null then Inr None else bind_res (f v p) (\<lambda>a. Inr (Some a)))"

text \<open>Here \<open>true\<close> is compared with \<open>===\<close>: another value, boolean or not, has the one message.\<close>

definition rd_true :: "reader \<Rightarrow> jsval \<Rightarrow> path \<Rightarrow> unit parsed" where
  "rd_true r v p = fail_if r (v \<noteq> Bool True) p MustBeTrue"

definition rd_evidence :: "reader \<Rightarrow> jsval \<Rightarrow> path \<Rightarrow> write_evidence parsed" where
  "rd_evidence r v p =
     bind_res (rd_object r v p [''ref'', ''raw'']
       [''event'', ''txHash'', ''blockNumber'', ''blockHash'', ''logIndex'', ''txid'', ''blockHeight'', ''rawTx'',
        ''claimedByAnotherTransaction'']) (\<lambda>ob.
     bind_res (rd_string r (field_of ob ''ref'') (p @ [Fld ''ref''])) (\<lambda>rf.
     bind_res (rd_array r (field_of ob ''raw'') (p @ [Fld ''raw'']) 1024) (\<lambda>items.
     bind_res (rd_each (rd_string r) (p @ [Fld ''raw'']) 0 items) (\<lambda>raw.
     bind_res (rd_optional ob ''event'' (rd_event r) p) (\<lambda>ev.
     bind_res (rd_optional ob ''txHash'' (rd_string r) p) (\<lambda>txh.
     bind_res (rd_optional ob ''blockNumber'' (\<lambda>v q. rd_string_opt r v q DIGITS 80 False) p) (\<lambda>bn.
     bind_res (rd_optional ob ''blockHash'' (or_null (rd_string r)) p) (\<lambda>bh.
     bind_res (rd_optional ob ''logIndex'' (\<lambda>v q. rd_int r v q 0) p) (\<lambda>li.
     bind_res (rd_optional ob ''txid'' (rd_string r) p) (\<lambda>tx.
     bind_res (rd_optional ob ''blockHeight'' (or_null (\<lambda>v q. rd_int r v q 0)) p) (\<lambda>hgt.
     bind_res (rd_optional ob ''rawTx'' (\<lambda>v q. rd_string_opt r v q HEX_EVEN MAX_FLOW_RECORD_BYTES False) p) (\<lambda>rtx.
     bind_res (rd_optional ob ''claimedByAnotherTransaction'' (rd_true r) p) (\<lambda>other.
       Inr \<lparr>we_ref = rf, we_raw = raw, we_event = ev, we_txHash = txh, we_blockNumber = bn,
            we_blockHash = bh, we_logIndex = li, we_txid = tx, we_blockHeight = hgt, we_rawTx = rtx,
            we_claimedByAnotherTransaction = (other \<noteq> None)\<rparr>)))))))))))))"

definition rd_recovery :: "reader \<Rightarrow> bool \<Rightarrow> jsval \<Rightarrow> path \<Rightarrow> lock_recovery parsed" where
  "rd_recovery r evmAllowed v p =
     (case v of
        Obj kvs \<Rightarrow>
          (let chain = field_of kvs ''chain'' in
           if chain = Str ''evm'' \<and> evmAllowed then
             bind_res (rd_object r v p [''chain'', ''txHash''] []) (\<lambda>ob.
             bind_res (rd_pattern r (field_of ob ''txHash'') (p @ [Fld ''txHash'']) hex32) (\<lambda>h. Inr (EvmRecovery h)))
           else if chain = Str ''btc'' then
             bind_res (rd_object r v p [''chain'', ''txid'', ''rawTx''] []) (\<lambda>ob.
             bind_res (rd_pattern r (field_of ob ''txid'') (p @ [Fld ''txid'']) SHA256_HEX) (\<lambda>tx.
             bind_res (rd_string_opt r (field_of ob ''rawTx'') (p @ [Fld ''rawTx'']) HEX_EVEN MAX_FLOW_RECORD_BYTES False) (\<lambda>raw.
               Inr (BtcRecovery tx raw))))
           else if chain = Str ''near'' then
             bind_res (rd_object r v p [''chain'', ''txHash'', ''signedTxBase64''] []) (\<lambda>ob.
             bind_res (rd_short r (field_of ob ''txHash'') (p @ [Fld ''txHash'']) 128) (\<lambda>h.
             bind_res (rd_string_opt r (field_of ob ''signedTxBase64'') (p @ [Fld ''signedTxBase64'']) BASE64 MAX_FLOW_RECORD_BYTES False) (\<lambda>b.
               Inr (NearRecovery h b))))
           else if chain = Str ''sol'' then
             bind_res (rd_object r v p [''chain'', ''signature'', ''blockhash'', ''lastValidBlockHeight''] [''signedSlot'']) (\<lambda>ob.
             bind_res (rd_optional ob ''signedSlot'' (\<lambda>v q. rd_int r v q 0) p) (\<lambda>slot.
             bind_res (rd_short r (field_of ob ''signature'') (p @ [Fld ''signature'']) 128) (\<lambda>sig.
             bind_res (rd_short r (field_of ob ''blockhash'') (p @ [Fld ''blockhash'']) 128) (\<lambda>bh.
             bind_res (rd_int r (field_of ob ''lastValidBlockHeight'') (p @ [Fld ''lastValidBlockHeight'']) 0) (\<lambda>h.
               Inr (SolRecovery sig bh h slot))))))
           else fail r (p @ [Fld ''chain'']) (BadChain evmAllowed))
      | _ \<Rightarrow> fail r p MustBeObject)"

definition rd_claimTx :: "reader \<Rightarrow> jsval \<Rightarrow> path \<Rightarrow> claim_tx parsed" where
  "rd_claimTx r v p =
     bind_res (rd_object r v p [''txid'', ''rawTx''] [''sent'']) (\<lambda>ob.
     bind_res (rd_flag r ob ''sent'' p) (\<lambda>sent.
     bind_res (rd_pattern r (field_of ob ''txid'') (p @ [Fld ''txid'']) SHA256_HEX) (\<lambda>tx.
     bind_res (rd_string_opt r (field_of ob ''rawTx'') (p @ [Fld ''rawTx'']) HEX_EVEN MAX_FLOW_RECORD_BYTES False) (\<lambda>raw.
       Inr \<lparr>ct_txid = tx, ct_rawTx = raw, ct_sent = sent\<rparr>))))"

definition rd_claimRecord :: "reader \<Rightarrow> jsval \<Rightarrow> path \<Rightarrow> rail_claim_record parsed" where
  "rd_claimRecord r v p =
     bind_res (rd_object r v p [''signature'', ''blockhash'', ''lastValidBlockHeight''] [''signedSlot'']) (\<lambda>ob.
     bind_res (rd_optional ob ''signedSlot'' (\<lambda>v q. rd_int r v q 0) p) (\<lambda>slot.
     bind_res (rd_short r (field_of ob ''signature'') (p @ [Fld ''signature'']) 128) (\<lambda>sig.
     bind_res (rd_short r (field_of ob ''blockhash'') (p @ [Fld ''blockhash'']) 128) (\<lambda>bh.
     bind_res (rd_int r (field_of ob ''lastValidBlockHeight'') (p @ [Fld ''lastValidBlockHeight'']) 0) (\<lambda>h.
       Inr \<lparr>rc_signature = sig, rc_blockhash = bh, rc_lastValidBlockHeight = h, rc_signedSlot = slot\<rparr>)))))"

definition rd_accountLine :: "reader \<Rightarrow> jsval \<Rightarrow> path \<Rightarrow> account_text parsed" where
  "rd_accountLine r v p =
     bind_res (rd_object r v p [''address'', ''text''] []) (\<lambda>ob.
     bind_res (rd_string r (field_of ob ''address'') (p @ [Fld ''address''])) (\<lambda>a.
     bind_res (rd_line r (field_of ob ''text'') (p @ [Fld ''text''])) (\<lambda>t.
       Inr \<lparr>at_address = a, at_text = t\<rparr>)))"

definition rd_legB :: "reader \<Rightarrow> jsval \<Rightarrow> path \<Rightarrow> leg_b_deadlines parsed" where
  "rd_legB r v p =
     bind_res (rd_object r v p [''claimByMs'', ''refundAfterMs'', ''expiresMs''] []) (\<lambda>ob.
     bind_res (rd_int r (field_of ob ''claimByMs'') (p @ [Fld ''claimByMs'']) 0) (\<lambda>a.
     bind_res (rd_int r (field_of ob ''refundAfterMs'') (p @ [Fld ''refundAfterMs'']) 0) (\<lambda>b.
     bind_res (rd_int r (field_of ob ''expiresMs'') (p @ [Fld ''expiresMs'']) 0) (\<lambda>c.
       Inr \<lparr>lb_claimByMs = a, lb_refundAfterMs = b, lb_expiresMs = c\<rparr>))))"

section \<open>The ledger\<close>

definition rd_landed ::
    "reader \<Rightarrow> string \<Rightarrow> bool \<Rightarrow> string \<Rightarrow> string \<Rightarrow> jsval \<Rightarrow> path \<Rightarrow> ledger_landed parsed" where
  "rd_landed r did digestOnly room line v p =
     bind_res (rd_object r v p [''seq'', ''nonce''] [''record'']) (\<lambda>ob.
     bind_res (rd_int r (field_of ob ''seq'') (p @ [Fld ''seq'']) 1) (\<lambda>sq.
     bind_res (rd_nullable r (field_of ob ''nonce'') (p @ [Fld ''nonce''])) (\<lambda>nonce.
     bind_res (rd_optional ob ''record'' (rd_transcriptRecord r) p) (\<lambda>rec.
     bind_res (case rec of
         None \<Rightarrow> Inr ()
       | Some t \<Rightarrow>
           bind_res (fail_if r digestOnly (p @ [Fld ''record'']) RecordMustBeAbsent) (\<lambda>_.
             fail_if r (tr_room t \<noteq> room \<or> tr_line t \<noteq> line \<or> tr_seq t \<noteq> sq \<or> tr_nonce t \<noteq> nonce \<or> tr_sender t \<noteq> did)
               (p @ [Fld ''record'']) NotOwnRecord)) (\<lambda>_.
       Inr \<lparr>ld_seq = sq, ld_nonce = nonce, ld_record = rec\<rparr>)))))"

definition allowed_kinds :: "flow_role \<Rightarrow> ledger_kind list" where
  "allowed_kinds role = (case role of BuyerRole \<Rightarrow> BUYER_KINDS | SellerRole \<Rightarrow> SELLER_KINDS)"

text \<open>Text of the reveal of leg B on the Buyer's record: a digest only.\<close>

definition digest_only :: "flow_role \<Rightarrow> ledger_kind \<Rightarrow> bool" where
  "digest_only role k \<longleftrightarrow> role = BuyerRole \<and> k = RevealB"

definition rd_room ::
    "tclk \<Rightarrow> reader \<Rightarrow> ledger_kind \<Rightarrow> string option \<Rightarrow> string option \<Rightarrow> string \<Rightarrow> path \<Rightarrow> unit parsed" where
  "rd_room T r k contractA contractB room p =
     (if k \<in> set OFFER_ROOM_KINDS then fail_if r (room \<noteq> OFFER_ROOM T) p MustBeOfferRoom
      else (case (if of_leg_a k then contractA else contractB) of
              None \<Rightarrow> Inr ()
            | Some c \<Rightarrow>
                (case dealRoom T c of
                   None \<Rightarrow> Inl (DealRoomThrew c)
                 | Some d \<Rightarrow> fail_if r (room \<noteq> d) p NotDealRoom)))"

definition rd_ledger_entry ::
    "tclk \<Rightarrow> reader \<Rightarrow> flow_role \<Rightarrow> string \<Rightarrow> string option \<Rightarrow> string option \<Rightarrow> ledger_kind list \<Rightarrow> jsval \<Rightarrow> path \<Rightarrow>
     ledger_entry parsed" where
  "rd_ledger_entry T r role did contractA contractB seen v p =
     bind_res (rd_object r v p [''kind'', ''room'', ''text''] [''landed'']) (\<lambda>ob.
     bind_res (rd_short r (field_of ob ''kind'') (p @ [Fld ''kind'']) 40) (\<lambda>name.
       (case kind_of name of
          None \<Rightarrow> fail r (p @ [Fld ''kind'']) NotLedgerKind
        | Some k \<Rightarrow>
            bind_res (fail_if r (k \<notin> set (allowed_kinds role)) (p @ [Fld ''kind'']) (NotPostedBy (role_name role))) (\<lambda>_.
            bind_res (fail_if r (k \<in> set seen) (p @ [Fld ''kind'']) KindTwice) (\<lambda>_.
            bind_res (rd_short r (field_of ob ''room'') (p @ [Fld ''room'']) 128) (\<lambda>room.
            bind_res (rd_room T r k contractA contractB room (p @ [Fld ''room''])) (\<lambda>_.
            bind_res (rd_line r (field_of ob ''text'') (p @ [Fld ''text''])) (\<lambda>line.
            bind_res (fail_if r (digest_only role k \<and> \<not> DIGEST_TEXT line) (p @ [Fld ''text'']) DigestOnly) (\<lambda>_.
            bind_res (rd_optional ob ''landed'' (rd_landed r did (digest_only role k) room line) p) (\<lambda>landed.
              Inr \<lparr>en_kind = k, en_room = room, en_text = line, en_landed = landed\<rparr>))))))))))"

fun rd_entries ::
    "tclk \<Rightarrow> reader \<Rightarrow> flow_role \<Rightarrow> string \<Rightarrow> string option \<Rightarrow> string option \<Rightarrow> path \<Rightarrow> ledger_kind list \<Rightarrow> nat \<Rightarrow>
     jsval list \<Rightarrow> ledger_entry list parsed" where
  "rd_entries T r role did cA cB p seen i [] = Inr []"
| "rd_entries T r role did cA cB p seen i (x # xs) =
     bind_res (rd_ledger_entry T r role did cA cB seen x (p @ [Idx i])) (\<lambda>e.
     bind_res (rd_entries T r role did cA cB p (en_kind e # seen) (Suc i) xs) (\<lambda>es. Inr (e # es)))"

definition parseLedger ::
    "tclk \<Rightarrow> reader \<Rightarrow> jsval \<Rightarrow> path \<Rightarrow> flow_role \<Rightarrow> string \<Rightarrow> string option \<Rightarrow> string option \<Rightarrow> ledger_entry list parsed" where
  "parseLedger T r v p role did cA cB =
     bind_res (rd_array r v p 64) (\<lambda>items. rd_entries T r role did cA cB p [] 0 items)"

section \<open>A Seller's part\<close>

definition claim_outcome_of :: "jsval \<Rightarrow> claim_outcome option" where
  "claim_outcome_of v =
     (if v = Str ''none'' then Some OutcomeNone
      else if v = Str ''landed'' then Some OutcomeLanded
      else if v = Str ''failed-public'' then Some OutcomeFailedPublic else None)"

text \<open>The first part of \<open>parseSeller\<close>: up to the rules between the claim's fields. The
  path of a record is \<open>record\<close>.\<close>

definition here :: "string \<Rightarrow> path" where
  "here name = [Fld ''record'', Fld name]"

definition ROOT :: path where
  "ROOT = [Fld ''record'']"

definition rd_secret :: "tclk \<Rightarrow> reader \<Rightarrow> obj \<Rightarrow> (string \<times> string) parsed" where
  "rd_secret T r ob =
     bind_res (rd_pattern r (field_of ob ''preimage'') (here ''preimage'') hex32) (\<lambda>preimage.
     bind_res (rd_pattern r (field_of ob ''statement'') (here ''statement'') hex32) (\<lambda>statement.
     bind_res (fail_if r (\<not> verifyHashPreimage T statement preimage) (here ''preimage'') NotOpening) (\<lambda>_.
       Inr (preimage, statement))))"

record claim_part =
  cp_attempted :: bool
  cp_fromBlock :: "block_marker option"
  cp_txHash :: "string option"
  cp_tx :: "claim_tx option"
  cp_records :: "rail_claim_record list"
  cp_public :: "string option"
  cp_outcome :: claim_outcome

definition rd_claim :: "reader \<Rightarrow> obj \<Rightarrow> claim_part parsed" where
  "rd_claim r ob =
     bind_res (rd_array r (field_of ob ''claimRecords'') (here ''claimRecords'') 64) (\<lambda>items.
     bind_res (rd_each (rd_claimRecord r) (here ''claimRecords'') 0 items) (\<lambda>records.
     bind_res (fail_if r (\<not> distinct (map rc_signature records)) (here ''claimRecords'') SignatureTwice) (\<lambda>_.
     bind_res (rd_optional ob ''publicClaimSignature'' (\<lambda>v q. rd_short r v q 128) ROOT) (\<lambda>pub.
       (case claim_outcome_of (field_of ob ''claimOutcome'') of
          None \<Rightarrow> fail r (here ''claimOutcome'') BadOutcome
        | Some outcome \<Rightarrow>
            bind_res (rd_bool r (field_of ob ''claimAttempted'') (here ''claimAttempted'')) (\<lambda>attempted.
            bind_res (fail_if r (outcome \<noteq> OutcomeNone \<and> \<not> attempted) (here ''claimOutcome'') NeedsClaimAttempted) (\<lambda>_.
            bind_res (rd_optional ob ''claimFromBlock'' (rd_marker r) ROOT) (\<lambda>from.
            bind_res (fail_if r (from \<noteq> None \<and> \<not> attempted) (here ''claimFromBlock'') NeedsClaimAttempted) (\<lambda>_.
            bind_res (rd_optional ob ''claimTxHash'' (\<lambda>v q. rd_pattern r v q hex32) ROOT) (\<lambda>txHash.
            bind_res (fail_if r (txHash \<noteq> None \<and> \<not> attempted) (here ''claimTxHash'') NeedsClaimAttempted) (\<lambda>_.
            bind_res (rd_optional ob ''claimTx'' (rd_claimTx r) ROOT) (\<lambda>tx.
            bind_res (fail_if r (tx \<noteq> None \<and> \<not> attempted) (here ''claimTx'') NeedsClaimAttempted) (\<lambda>_.
            bind_res (fail_if r (tx \<noteq> None \<and> txHash \<noteq> None) (here ''claimTx'') WithEvmHash) (\<lambda>_.
            bind_res (fail_if r (tx \<noteq> None \<and> records \<noteq> []) (here ''claimTx'') WithSolRecords) (\<lambda>_.
            bind_res (fail_if r (outcome = OutcomeFailedPublic \<and> pub = None) (here ''publicClaimSignature'') NeedsPublicSignature) (\<lambda>_.
              Inr \<lparr>cp_attempted = attempted, cp_fromBlock = from, cp_txHash = txHash, cp_tx = tx, cp_records = records,
                   cp_public = pub, cp_outcome = outcome\<rparr>))))))))))))))))"

definition parseSeller :: "tclk \<Rightarrow> reader \<Rightarrow> obj \<Rightarrow> string \<Rightarrow> flow_base \<Rightarrow> flow_record parsed" where
  "parseSeller T r ob contractA base =
     bind_res (rd_secret T r ob) (\<lambda>(preimage, statement).
     bind_res (rd_optional ob ''attemptedAcceptB'' (\<lambda>v q. rd_pattern r v q hex32) ROOT) (\<lambda>attemptedB.
     bind_res (rd_optional ob ''lockedLegBContract'' (\<lambda>v q. rd_pattern r v q hex32) ROOT) (\<lambda>lockedB.
     bind_res (fail_if r (lockedB \<noteq> None \<and> lockedB \<noteq> attemptedB) (here ''lockedLegBContract'') NotAttemptedAccept) (\<lambda>_.
     bind_res (rd_claim r ob) (\<lambda>claim.
     bind_res (rd_object r (field_of ob ''legBRefund'') (here ''legBRefund'') [''attempted'', ''done'', ''framesPosted''] []) (\<lambda>refund.
     bind_res (rd_flag r ob ''legBClaimSeen'' ROOT) (\<lambda>seen.
     bind_res (fail_if r (seen \<and> lockedB = None) (here ''legBClaimSeen'') NeedsLockedLegB) (\<lambda>_.
     bind_res (if seen then rd_bool r (field_of refund ''done'') (here ''legBRefund'' @ [Fld ''done'']) else Inr False) (\<lambda>d.
     bind_res (fail_if r d (here ''legBClaimSeen'') ClaimedAndRefunded) (\<lambda>_.
     bind_res (rd_optional ob ''frozenLegAAccounts'' (rd_accounts r) ROOT) (\<lambda>frozen.
     bind_res (rd_optional ob ''frozenLegARailRef'' (rd_string r) ROOT) (\<lambda>frozenRef.
     bind_res (rd_optional ob ''ownAccountLine'' (rd_accountLine r) ROOT) (\<lambda>own.
     bind_res (rd_int r (field_of ob ''neverLandedClaims'') (here ''neverLandedClaims'') 0) (\<lambda>never.
     bind_res (rd_bool r (field_of ob ''revealPosted'') (here ''revealPosted'')) (\<lambda>reveal.
     bind_res (rd_bool r (field_of ob ''receiptPosted'') (here ''receiptPosted'')) (\<lambda>receipt.
     bind_res (rd_bool r (field_of refund ''attempted'') (here ''legBRefund'' @ [Fld ''attempted''])) (\<lambda>rAttempted.
     bind_res (rd_bool r (field_of refund ''done'') (here ''legBRefund'' @ [Fld ''done''])) (\<lambda>rDone.
     bind_res (rd_bool r (field_of refund ''framesPosted'') (here ''legBRefund'' @ [Fld ''framesPosted''])) (\<lambda>rFrames.
       Inr (SellerRecord base
         \<lparr>ss_contractA = contractA, ss_preimage = preimage, ss_statement = statement,
          ss_attemptedAcceptB = attemptedB, ss_lockedLegBContract = lockedB,
          ss_frozenLegAAccounts = frozen, ss_frozenLegARailRef = frozenRef, ss_ownAccountLine = own,
          ss_claimAttempted = cp_attempted claim, ss_claimFromBlock = cp_fromBlock claim, ss_claimTxHash = cp_txHash claim,
          ss_claimTx = cp_tx claim, ss_claimRecords = cp_records claim, ss_publicClaimSignature = cp_public claim,
          ss_neverLandedClaims = never, ss_claimOutcome = cp_outcome claim, ss_revealPosted = reveal,
          ss_receiptPosted = receipt,
          ss_legBRefund = \<lparr>lr_attempted = rAttempted, lr_done = rDone, lr_framesPosted = rFrames\<rparr>,
          ss_legBClaimSeen = seen\<rparr>))))))))))))))))))))"

section \<open>A Buyer's part\<close>

definition rd_prepared :: "reader \<Rightarrow> jsval \<Rightarrow> path \<Rightarrow> prepared_lock parsed" where
  "rd_prepared r v p =
     bind_res (rd_object r v p [''ref''] [''recovery'']) (\<lambda>ob.
     bind_res (rd_optional ob ''recovery'' (rd_recovery r True) p) (\<lambda>rec.
     bind_res (rd_string r (field_of ob ''ref'') (p @ [Fld ''ref''])) (\<lambda>rf.
       Inr \<lparr>pl_ref = rf, pl_recovery = rec\<rparr>)))"

definition rd_lock :: "reader \<Rightarrow> obj \<Rightarrow> (bool \<Rightarrow> buyer_lock) parsed" where
  "rd_lock r ob =
     (let p = here ''lock'' in
     bind_res (rd_optional ob ''prepared'' (rd_prepared r) p) (\<lambda>prepared.
     bind_res (rd_optional ob ''fromBlock'' (rd_marker r) p) (\<lambda>from.
     bind_res (rd_optional ob ''accounts'' (rd_accounts r) p) (\<lambda>accounts.
     bind_res (rd_optional ob ''hashLock'' (\<lambda>v q. rd_pattern r v q hex32) p) (\<lambda>hashLock.
     bind_res (rd_optional ob ''evidence'' (rd_evidence r) p) (\<lambda>evidence.
     bind_res (rd_bool r (field_of ob ''attempted'') (p @ [Fld ''attempted''])) (\<lambda>attempted.
     bind_res (fail_if r (\<not> attempted \<and> (prepared \<noteq> None \<or> evidence \<noteq> None)) (p @ [Fld ''attempted'']) NeedsLockAttempted) (\<lambda>_.
     bind_res (rd_flag r ob ''neverLanded'' p) (\<lambda>never.
     bind_res (fail_if r (never \<and> \<not> attempted) (p @ [Fld ''neverLanded'']) NeedsAttempt) (\<lambda>_.
     bind_res (fail_if r (never \<and> evidence \<noteq> None) (p @ [Fld ''neverLanded'']) NeverLandedEvidence) (\<lambda>_.
       Inr (\<lambda>framePosted. \<lparr>bl_attempted = attempted, bl_prepared = prepared, bl_fromBlock = from, bl_accounts = accounts,
            bl_hashLock = hashLock, bl_evidence = evidence, bl_framePosted = framePosted, bl_neverLanded = never\<rparr>))))))))))))"

definition rd_refund :: "reader \<Rightarrow> obj \<Rightarrow> (bool \<Rightarrow> buyer_refund) parsed" where
  "rd_refund r ob =
     (let p = here ''refund'' in
     bind_res (rd_flag r ob ''claimSeen'' p) (\<lambda>seen.
     bind_res (rd_optional ob ''recovery'' (rd_recovery r False) p) (\<lambda>recovery.
     bind_res (rd_optional ob ''evidence'' (rd_evidence r) p) (\<lambda>evidence.
     bind_res (rd_bool r (field_of ob ''attempted'') (p @ [Fld ''attempted''])) (\<lambda>attempted.
     bind_res (fail_if r (\<not> attempted \<and> (recovery \<noteq> None \<or> evidence \<noteq> None)) (p @ [Fld ''attempted'']) NeedsRefundAttempted) (\<lambda>_.
       Inr (\<lambda>framesPosted. \<lparr>br_attempted = attempted, br_recovery = recovery, br_evidence = evidence,
            br_framesPosted = framesPosted, br_claimSeen = seen\<rparr>)))))))"

text \<open>The record without the last check of \<open>parseBuyer\<close>.\<close>

definition rd_buyer :: "reader \<Rightarrow> obj \<Rightarrow> string option \<Rightarrow> flow_base \<Rightarrow> flow_record parsed" where
  "rd_buyer r ob contractA base =
     bind_res (rd_optional ob ''ownAccountLine'' (rd_accountLine r) ROOT) (\<lambda>own.
     bind_res (rd_object r (field_of ob ''lock'') (here ''lock'') [''attempted'', ''framePosted'']
         [''prepared'', ''fromBlock'', ''accounts'', ''hashLock'', ''evidence'', ''neverLanded'']) (\<lambda>lockObject.
     bind_res (rd_lock r lockObject) (\<lambda>lock.
     bind_res (rd_object r (field_of ob ''refund'') (here ''refund'') [''attempted'', ''framesPosted'']
         [''recovery'', ''evidence'', ''claimSeen'']) (\<lambda>refundObject.
     bind_res (rd_refund r refundObject) (\<lambda>refund.
     bind_res (fail_if r (bl_neverLanded (lock False) \<and> br_evidence (refund False) \<noteq> None)
         (here ''lock'' @ [Fld ''neverLanded'']) NeverLandedRefund) (\<lambda>_.
     bind_res (fail_if r (bl_neverLanded (lock False) \<and> br_claimSeen (refund False))
         (here ''lock'' @ [Fld ''neverLanded'']) NeverLandedClaim) (\<lambda>_.
     bind_res (rd_bool r (field_of ob ''legBClaimAttempted'') (here ''legBClaimAttempted'')) (\<lambda>attempted.
     bind_res (rd_bool r (field_of ob ''legBClaimed'') (here ''legBClaimed'')) (\<lambda>claimed.
     bind_res (fail_if r (claimed \<and> \<not> attempted) (here ''legBClaimed'') NeedsLegBClaim) (\<lambda>_.
     bind_res (fail_if r (bl_neverLanded (lock False) \<and> claimed) (here ''lock'' @ [Fld ''neverLanded'']) NeverLandedLegB) (\<lambda>_.
     bind_res (rd_flag r ob ''legBClaimAdopted'' ROOT) (\<lambda>adopted.
     bind_res (fail_if r (adopted \<and> \<not> attempted) (here ''legBClaimAdopted'') NeedsLegBClaim) (\<lambda>_.
     bind_res (fail_if r (adopted \<and> claimed) (here ''legBClaimAdopted'') OwnAndAdopted) (\<lambda>_.
     bind_res (rd_bool r (field_of ob ''legBVerified'') (here ''legBVerified'')) (\<lambda>verified.
     bind_res (rd_bool r (field_of lockObject ''framePosted'') (here ''lock'' @ [Fld ''framePosted''])) (\<lambda>framePosted.
     bind_res (rd_bool r (field_of refundObject ''framesPosted'') (here ''refund'' @ [Fld ''framesPosted''])) (\<lambda>framesPosted.
     bind_res (rd_array r (field_of ob ''refundNotes'') (here ''refundNotes'') 64) (\<lambda>items.
     bind_res (rd_each (\<lambda>v q. rd_short r v q 1024) (here ''refundNotes'') 0 items) (\<lambda>notes.
       Inr (BuyerRecord base
         \<lparr>bs_contractA = contractA, bs_legBVerified = verified, bs_ownAccountLine = own, bs_lock = lock framePosted,
          bs_legBClaimAttempted = attempted, bs_legBClaimed = claimed, bs_legBClaimAdopted = adopted,
          bs_refund = refund framesPosted, bs_refundNotes = notes\<rparr>))))))))))))))))))))"

section \<open>The record as JSON\<close>

text \<open>
  \<open>JSON.parse(JSON.stringify(x))\<close> of the typed values: absent fields are left out. The keys
  are listed in sorted order, which the text of a record cannot show: \<open>canonical\<close> sorts, and
  the reader looks fields up by name. (Only which of several secrets \<open>noPreimageOf\<close> names
  depends on the order.)
\<close>

fun present :: "(string \<times> jsval option) list \<Rightarrow> obj" where
  "present [] = []"
| "present ((k, v) # fs) = (case v of None \<Rightarrow> present fs | Some x \<Rightarrow> (k, x) # present fs)"

definition obj :: "(string \<times> jsval option) list \<Rightarrow> jsval" where
  "obj fs = Obj (present fs)"

definition opt_str :: "string option \<Rightarrow> jsval option" where
  "opt_str = map_option Str"

definition null_str :: "string option \<Rightarrow> jsval" where
  "null_str x = (case x of None \<Rightarrow> Null | Some s \<Rightarrow> Str s)"

definition null_int :: "int option \<Rightarrow> jsval" where
  "null_int x = (case x of None \<Rightarrow> Null | Some i \<Rightarrow> int_jsval i)"

definition flag :: "bool \<Rightarrow> jsval option" where
  "flag b = (if b then Some (Bool True) else None)"

definition transcript_json :: "transcript_record \<Rightarrow> jsval" where
  "transcript_json t =
     obj [(''line'', Some (Str (tr_line t))), (''nonce'', Some (null_str (tr_nonce t))), (''room'', Some (Str (tr_room t))),
          (''sender'', Some (Str (tr_sender t))), (''seq'', Some (int_jsval (tr_seq t))),
          (''signature'', Some (null_str (tr_signature t))), (''timestampMs'', Some (int_jsval (tr_timestampMs t)))]"

definition slot_json :: "frame_slot \<Rightarrow> jsval" where
  "slot_json s = obj [(''record'', map_option transcript_json (slot_record s)), (''text'', Some (Str (slot_text s)))]"

definition frames_json :: "swap_frames \<Rightarrow> jsval" where
  "frames_json f =
     obj [(''acceptA'', map_option slot_json (sf_acceptA f)), (''acceptB'', map_option slot_json (sf_acceptB f)),
          (''offerA'', map_option slot_json (sf_offerA f)), (''offerB'', map_option slot_json (sf_offerB f))]"

definition accounts_json :: "rail_accounts \<Rightarrow> jsval" where
  "accounts_json a =
     obj [(''payee'', opt_str (ra_payee a)), (''payeeKey'', opt_str (ra_payeeKey a)),
          (''payer'', opt_str (ra_payer a)), (''payerKey'', opt_str (ra_payerKey a))]"

fun marker_name :: "marker_kind \<Rightarrow> string" where
  "marker_name BigintMarker = ''bigint''"
| "marker_name NumberMarker = ''number''"

definition marker_json :: "block_marker \<Rightarrow> jsval" where
  "marker_json m = obj [(''kind'', Some (Str (marker_name (bm_kind m)))), (''value'', Some (Str (bm_value m)))]"

fun event_name :: "chain_event \<Rightarrow> string" where
  "event_name LockedEvent = ''Locked''"
| "event_name ClaimedEvent = ''Claimed''"
| "event_name RefundedEvent = ''Refunded''"

definition evidence_json :: "write_evidence \<Rightarrow> jsval" where
  "evidence_json e =
     obj [(''blockHash'', map_option null_str (we_blockHash e)),
          (''blockHeight'', map_option null_int (we_blockHeight e)),
          (''blockNumber'', opt_str (we_blockNumber e)),
          (''claimedByAnotherTransaction'', flag (we_claimedByAnotherTransaction e)),
          (''event'', map_option (Str \<circ> event_name) (we_event e)),
          (''logIndex'', map_option int_jsval (we_logIndex e)),
          (''raw'', Some (Arr (map Str (we_raw e)))),
          (''rawTx'', opt_str (we_rawTx e)),
          (''ref'', Some (Str (we_ref e))),
          (''txHash'', opt_str (we_txHash e)),
          (''txid'', opt_str (we_txid e))]"

fun recovery_json :: "lock_recovery \<Rightarrow> jsval" where
  "recovery_json (EvmRecovery h) = obj [(''chain'', Some (Str ''evm'')), (''txHash'', Some (Str h))]"
| "recovery_json (BtcRecovery tx raw) =
     obj [(''chain'', Some (Str ''btc'')), (''rawTx'', Some (Str raw)), (''txid'', Some (Str tx))]"
| "recovery_json (NearRecovery h b) =
     obj [(''chain'', Some (Str ''near'')), (''signedTxBase64'', Some (Str b)), (''txHash'', Some (Str h))]"
| "recovery_json (SolRecovery sig bh h slot) =
     obj [(''blockhash'', Some (Str bh)), (''chain'', Some (Str ''sol'')), (''lastValidBlockHeight'', Some (int_jsval h)),
          (''signature'', Some (Str sig)), (''signedSlot'', map_option int_jsval slot)]"

definition claim_tx_json :: "claim_tx \<Rightarrow> jsval" where
  "claim_tx_json c =
     obj [(''rawTx'', Some (Str (ct_rawTx c))), (''sent'', flag (ct_sent c)), (''txid'', Some (Str (ct_txid c)))]"

definition claim_record_json :: "rail_claim_record \<Rightarrow> jsval" where
  "claim_record_json c =
     obj [(''blockhash'', Some (Str (rc_blockhash c))), (''lastValidBlockHeight'', Some (int_jsval (rc_lastValidBlockHeight c))),
          (''signature'', Some (Str (rc_signature c))), (''signedSlot'', map_option int_jsval (rc_signedSlot c))]"

definition account_line_json :: "account_text \<Rightarrow> jsval" where
  "account_line_json a = obj [(''address'', Some (Str (at_address a))), (''text'', Some (Str (at_text a)))]"

definition legB_json :: "leg_b_deadlines \<Rightarrow> jsval" where
  "legB_json l =
     obj [(''claimByMs'', Some (int_jsval (lb_claimByMs l))), (''expiresMs'', Some (int_jsval (lb_expiresMs l))),
          (''refundAfterMs'', Some (int_jsval (lb_refundAfterMs l)))]"

definition landed_json :: "ledger_landed \<Rightarrow> jsval" where
  "landed_json l =
     obj [(''nonce'', Some (null_str (ld_nonce l))), (''record'', map_option transcript_json (ld_record l)),
          (''seq'', Some (int_jsval (ld_seq l)))]"

definition entry_json :: "ledger_entry \<Rightarrow> jsval" where
  "entry_json e =
     obj [(''kind'', Some (Str (kind_name (en_kind e)))), (''landed'', map_option landed_json (en_landed e)),
          (''room'', Some (Str (en_room e))), (''text'', Some (Str (en_text e)))]"

fun outcome_name :: "claim_outcome \<Rightarrow> string" where
  "outcome_name OutcomeNone = ''none''"
| "outcome_name OutcomeLanded = ''landed''"
| "outcome_name OutcomeFailedPublic = ''failed-public''"

definition leg_b_refund_fields :: "leg_b_refund \<Rightarrow> (string \<times> jsval option) list" where
  "leg_b_refund_fields l =
    [(''attempted'', Some (Bool (lr_attempted l))), (''done'', Some (Bool (lr_done l))),
          (''framesPosted'', Some (Bool (lr_framesPosted l)))]"

definition leg_b_refund_json :: "leg_b_refund \<Rightarrow> jsval" where
  "leg_b_refund_json l = obj (leg_b_refund_fields l)"

definition prepared_json :: "prepared_lock \<Rightarrow> jsval" where
  "prepared_json q = obj [(''recovery'', map_option recovery_json (pl_recovery q)), (''ref'', Some (Str (pl_ref q)))]"

definition lock_fields :: "buyer_lock \<Rightarrow> (string \<times> jsval option) list" where
  "lock_fields l =
    [(''accounts'', map_option accounts_json (bl_accounts l)), (''attempted'', Some (Bool (bl_attempted l))),
          (''evidence'', map_option evidence_json (bl_evidence l)), (''framePosted'', Some (Bool (bl_framePosted l))),
          (''fromBlock'', map_option marker_json (bl_fromBlock l)), (''hashLock'', opt_str (bl_hashLock l)),
          (''neverLanded'', flag (bl_neverLanded l)), (''prepared'', map_option prepared_json (bl_prepared l))]"

definition lock_json :: "buyer_lock \<Rightarrow> jsval" where
  "lock_json l = obj (lock_fields l)"

definition refund_fields :: "buyer_refund \<Rightarrow> (string \<times> jsval option) list" where
  "refund_fields x =
    [(''attempted'', Some (Bool (br_attempted x))), (''claimSeen'', flag (br_claimSeen x)),
          (''evidence'', map_option evidence_json (br_evidence x)), (''framesPosted'', Some (Bool (br_framesPosted x))),
          (''recovery'', map_option recovery_json (br_recovery x))]"

definition refund_json :: "buyer_refund \<Rightarrow> jsval" where
  "refund_json x = obj (refund_fields x)"

text \<open>The record itself: \<open>v\<close> is always 1 and \<open>role\<close> is the constructor.\<close>

fun record_fields :: "flow_record \<Rightarrow> (string \<times> jsval option) list" where
  "record_fields (SellerRecord b s) =
     [(''attemptedAcceptB'', opt_str (ss_attemptedAcceptB s)), (''caip2'', Some (Str (fr_caip2 b))),
      (''claimAttempted'', Some (Bool (ss_claimAttempted s))), (''claimFromBlock'', map_option marker_json (ss_claimFromBlock s)),
      (''claimOutcome'', Some (Str (outcome_name (ss_claimOutcome s)))),
      (''claimRecords'', Some (Arr (map claim_record_json (ss_claimRecords s)))),
      (''claimTx'', map_option claim_tx_json (ss_claimTx s)), (''claimTxHash'', opt_str (ss_claimTxHash s)),
      (''contractA'', Some (Str (ss_contractA s))), (''contractB'', opt_str (fr_contractB b)),
      (''createdAtMs'', Some (int_jsval (fr_createdAtMs b))), (''deploymentId'', Some (Str (fr_deploymentId b))),
      (''did'', Some (Str (fr_did b))), (''frames'', Some (frames_json (fr_frames b))),
      (''frozenLegAAccounts'', map_option accounts_json (ss_frozenLegAAccounts s)),
      (''frozenLegARailRef'', opt_str (ss_frozenLegARailRef s)),
      (''ledger'', Some (Arr (map entry_json (fr_ledger b)))), (''legB'', map_option legB_json (fr_legB b)),
      (''legBClaimSeen'', flag (ss_legBClaimSeen s)), (''legBRefund'', Some (leg_b_refund_json (ss_legBRefund s))),
      (''lockTimeMs'', map_option int_jsval (fr_lockTimeMs b)), (''lockedLegBContract'', opt_str (ss_lockedLegBContract s)),
      (''neverLandedClaims'', Some (int_jsval (ss_neverLandedClaims s))),
      (''ownAccountLine'', map_option account_line_json (ss_ownAccountLine s)),
      (''preimage'', Some (Str (ss_preimage s))), (''publicClaimSignature'', opt_str (ss_publicClaimSignature s)),
      (''railId'', Some (Str (fr_railId b))), (''receiptPosted'', Some (Bool (ss_receiptPosted s))),
      (''revealPosted'', Some (Bool (ss_revealPosted s))), (''revision'', Some (int_jsval (fr_revision b))),
      (''role'', Some (Str ''seller'')), (''statement'', Some (Str (ss_statement s))), (''swapId'', Some (Str (fr_swapId b))),
      (''updatedAtMs'', Some (int_jsval (fr_updatedAtMs b))), (''v'', Some (int_jsval 1))]"
| "record_fields (BuyerRecord b s) =
     [(''caip2'', Some (Str (fr_caip2 b))), (''contractA'', opt_str (bs_contractA s)), (''contractB'', opt_str (fr_contractB b)),
      (''createdAtMs'', Some (int_jsval (fr_createdAtMs b))), (''deploymentId'', Some (Str (fr_deploymentId b))),
      (''did'', Some (Str (fr_did b))), (''frames'', Some (frames_json (fr_frames b))),
      (''ledger'', Some (Arr (map entry_json (fr_ledger b)))), (''legB'', map_option legB_json (fr_legB b)),
      (''legBClaimAdopted'', flag (bs_legBClaimAdopted s)), (''legBClaimAttempted'', Some (Bool (bs_legBClaimAttempted s))),
      (''legBClaimed'', Some (Bool (bs_legBClaimed s))), (''legBVerified'', Some (Bool (bs_legBVerified s))),
      (''lock'', Some (lock_json (bs_lock s))), (''lockTimeMs'', map_option int_jsval (fr_lockTimeMs b)),
      (''ownAccountLine'', map_option account_line_json (bs_ownAccountLine s)), (''railId'', Some (Str (fr_railId b))),
      (''refund'', Some (refund_json (bs_refund s))), (''refundNotes'', Some (Arr (map Str (bs_refundNotes s)))),
      (''revision'', Some (int_jsval (fr_revision b))), (''role'', Some (Str ''buyer'')), (''swapId'', Some (Str (fr_swapId b))),
      (''updatedAtMs'', Some (int_jsval (fr_updatedAtMs b))), (''v'', Some (int_jsval 1))]"

definition record_json :: "flow_record \<Rightarrow> jsval" where
  "record_json R = obj (record_fields R)"

section \<open>Reading a whole record\<close>

definition parseBuyer :: "tclk \<Rightarrow> reader \<Rightarrow> obj \<Rightarrow> string option \<Rightarrow> flow_base \<Rightarrow> flow_record parsed" where
  "parseBuyer T r ob contractA base =
     bind_res (rd_buyer r ob contractA base) (\<lambda>R.
     bind_res (case bl_hashLock (bs_lock (rec_buyer R)) of
         None \<Rightarrow> Inr ()
       | Some h \<Rightarrow> noPreimageOf T r h (record_json R) ROOT) (\<lambda>_. Inr R))"

definition COMMON_REQUIRED :: "string list" where
  "COMMON_REQUIRED = [''v'', ''role'', ''swapId'', ''did'', ''railId'', ''caip2'', ''deploymentId'', ''createdAtMs'',
     ''updatedAtMs'', ''revision'', ''frames'', ''ledger'']"

definition COMMON_OPTIONAL :: "string list" where
  "COMMON_OPTIONAL = [''contractB'', ''lockTimeMs'', ''legB'']"

definition SELLER_REQUIRED :: "string list" where
  "SELLER_REQUIRED = [''contractA'', ''preimage'', ''statement'', ''claimAttempted'', ''claimRecords'',
     ''neverLandedClaims'', ''claimOutcome'', ''revealPosted'', ''receiptPosted'', ''legBRefund'']"

definition SELLER_OPTIONAL :: "string list" where
  "SELLER_OPTIONAL = [''attemptedAcceptB'', ''lockedLegBContract'', ''frozenLegAAccounts'', ''frozenLegARailRef'',
     ''ownAccountLine'', ''publicClaimSignature'', ''claimFromBlock'', ''claimTxHash'', ''claimTx'', ''legBClaimSeen'']"

definition BUYER_REQUIRED :: "string list" where
  "BUYER_REQUIRED = [''legBVerified'', ''lock'', ''legBClaimAttempted'', ''legBClaimed'', ''refund'', ''refundNotes'']"

definition BUYER_OPTIONAL :: "string list" where
  "BUYER_OPTIONAL = [''contractA'', ''ownAccountLine'', ''legBClaimAdopted'']"

definition rd_frames :: "reader \<Rightarrow> jsval \<Rightarrow> path \<Rightarrow> swap_frames parsed" where
  "rd_frames r v p =
     bind_res (rd_object r v p [] [''offerA'', ''acceptA'', ''offerB'', ''acceptB'']) (\<lambda>ob.
     bind_res (rd_optional ob ''offerA'' (rd_frameSlot r) p) (\<lambda>a.
     bind_res (rd_optional ob ''acceptA'' (rd_frameSlot r) p) (\<lambda>b.
     bind_res (rd_optional ob ''offerB'' (rd_frameSlot r) p) (\<lambda>c.
     bind_res (rd_optional ob ''acceptB'' (rd_frameSlot r) p) (\<lambda>d.
       Inr \<lparr>sf_offerA = a, sf_acceptA = b, sf_offerB = c, sf_acceptB = d\<rparr>)))))"

definition rd_base :: "tclk \<Rightarrow> reader \<Rightarrow> flow_role \<Rightarrow> obj \<Rightarrow> (string option \<times> flow_base) parsed" where
  "rd_base T r role ob =
     bind_res (if field_of ob ''v'' \<noteq> int_jsval 1 then Inl (FlowRecordVersionError (rd_key r) (field_of ob ''v'')) else Inr ()) (\<lambda>_.
     bind_res (rd_pattern r (field_of ob ''swapId'') (here ''swapId'') hex32) (\<lambda>swap.
     bind_res (rd_int r (field_of ob ''createdAtMs'') (here ''createdAtMs'') 0) (\<lambda>created.
     bind_res (rd_int r (field_of ob ''updatedAtMs'') (here ''updatedAtMs'') 0) (\<lambda>updated.
     bind_res (fail_if r (updated < created) (here ''updatedAtMs'') EarlierThanCreated) (\<lambda>_.
     bind_res (rd_frames r (field_of ob ''frames'') (here ''frames'')) (\<lambda>frames.
     bind_res (rd_optional ob ''contractA'' (\<lambda>v q. rd_pattern r v q hex32) ROOT) (\<lambda>contractA.
     bind_res (rd_optional ob ''contractB'' (\<lambda>v q. rd_pattern r v q hex32) ROOT) (\<lambda>contractB.
     bind_res (rd_optional ob ''lockTimeMs'' (\<lambda>v q. rd_int r v q 0) ROOT) (\<lambda>lockTime.
     bind_res (rd_optional ob ''legB'' (rd_legB r) ROOT) (\<lambda>legB.
     bind_res (rd_pattern r (field_of ob ''did'') (here ''did'') RECORD_DID) (\<lambda>did.
     bind_res (parseLedger T r (field_of ob ''ledger'') (here ''ledger'') role did contractA contractB) (\<lambda>ledger.
     bind_res (rd_short r (field_of ob ''railId'') (here ''railId'') 128) (\<lambda>rail.
     bind_res (rd_short r (field_of ob ''caip2'') (here ''caip2'') 128) (\<lambda>caip2.
     bind_res (rd_short r (field_of ob ''deploymentId'') (here ''deploymentId'') 512) (\<lambda>deployment.
     bind_res (rd_int r (field_of ob ''revision'') (here ''revision'') 1) (\<lambda>revision.
       Inr (contractA,
         \<lparr>fr_swapId = swap, fr_did = did, fr_railId = rail, fr_caip2 = caip2, fr_deploymentId = deployment,
          fr_createdAtMs = created, fr_updatedAtMs = updated, fr_revision = revision, fr_frames = frames,
          fr_contractB = contractB, fr_lockTimeMs = lockTime, fr_legB = legB, fr_ledger = ledger\<rparr>)))))))))))))))))"

definition role_field :: "jsval \<Rightarrow> flow_role option" where
  "role_field v = (case v of Str s \<Rightarrow> role_of s | _ \<Rightarrow> None)"

definition parseRecord :: "tclk \<Rightarrow> jsval \<Rightarrow> string \<Rightarrow> bool \<Rightarrow> flow_record parsed" where
  "parseRecord T v key building =
     (let r = \<lparr>rd_key = key, rd_building = building\<rparr> in
      case v of
        Obj kvs \<Rightarrow>
          (case role_field (field_of kvs ''role'') of
             None \<Rightarrow> fail r (here ''role'') BadRole
           | Some SellerRole \<Rightarrow>
               bind_res (rd_object r v ROOT (COMMON_REQUIRED @ SELLER_REQUIRED) (COMMON_OPTIONAL @ SELLER_OPTIONAL)) (\<lambda>ob.
               bind_res (rd_base T r SellerRole ob) (\<lambda>(contractA, base).
                 (case contractA of
                    None \<Rightarrow> fail r (here ''contractA'') IsRequired
                  | Some c \<Rightarrow> parseSeller T r ob c base)))
           | Some BuyerRole \<Rightarrow>
               bind_res (rd_object r v ROOT (COMMON_REQUIRED @ BUYER_REQUIRED) (COMMON_OPTIONAL @ BUYER_OPTIONAL)) (\<lambda>ob.
               bind_res (rd_base T r BuyerRole ob) (\<lambda>(contractA, base).
                 parseBuyer T r ob contractA base)))
      | _ \<Rightarrow> fail r ROOT MustBeObject)"

end
