(* ===== verification/Flow_Readback.thy ===== *)
theory Flow_Readback
  imports Flow_Reader
begin

text \<open>
  The strict reader applied to the JSON form of a typed record answers that very record or
  refuses; and what it does not refuse is a value that prints and parses back. The relation
  \<open>reads\<close> has one rule for each method of the reader, and each part of the record is
  one chain of these rules.
\<close>

named_theorems reads_rules \<open>what a method of the reader answers on the JSON form of a value\<close>

section \<open>The rules\<close>

definition reads :: "'a parsed \<Rightarrow> 'a \<Rightarrow> bool \<Rightarrow> bool" where
  "reads m x P \<longleftrightarrow> (\<forall>y. m = Inr y \<longrightarrow> y = x \<and> P)"

lemma readsD: "reads m x P \<Longrightarrow> m = Inr y \<Longrightarrow> y = x \<and> P"
  by (simp add: reads_def)

lemma reads_bind: "reads m a Q \<Longrightarrow> (Q \<Longrightarrow> reads (k a) x P) \<Longrightarrow> reads (bind_res m k) x P"
  by (auto simp: reads_def bind_res_Inr_iff)

lemma reads_return: "x = y \<Longrightarrow> P \<Longrightarrow> reads (Inr x) y P"
  by (simp add: reads_def)

lemma reads_unit: "reads m () True"
  by (simp add: reads_def)

lemma reads_weaken: "reads m x Q \<Longrightarrow> (Q \<Longrightarrow> P) \<Longrightarrow> reads m x P"
  by (auto simp: reads_def)

lemma fail_not_Inr [simp]: "fail r p w \<noteq> Inr x"
  by (simp add: fail_def)

lemma fail_if_Inr_iff [result_simps]: "fail_if r b p w = Inr u \<longleftrightarrow> \<not> b"
  by (simp add: fail_if_def)

lemma reads_fail [reads_rules]: "reads (fail r p w) x P"
  by (simp add: reads_def)

lemma reads_fail_if [reads_rules]: "reads (fail_if r b p w) () (\<not> b)"
  by (simp add: reads_def fail_if_Inr_iff)

text \<open>A value printed and parsed is \<open>wf_json\<close>; an absent field is.\<close>

fun wf_opt :: "jsval option \<Rightarrow> bool" where
  "wf_opt None = True"
| "wf_opt (Some v) = wf_json v"

lemma present_keys: "map fst (present fs) = map fst (List.filter (\<lambda>f. snd f \<noteq> None) fs)"
  by (induction fs rule: present.induct) (auto split: option.splits)

lemma present_values: "(k, v) \<in> set (present fs) \<Longrightarrow> (k, Some v) \<in> set fs"
  by (induction fs rule: present.induct) (auto split: option.splits)

lemma wf_obj:
  assumes "successively (<) (map fst fs)" "list_all (wf_opt \<circ> snd) fs"
  shows "wf_json (obj fs)"
proof -
  have s: "sorted_wrt (<) (map fst fs)"
    using assms(1) successively_conv_sorted_wrt [of "(<) :: string \<Rightarrow> string \<Rightarrow> bool"] by (simp add: transp_on_less)
  have "sorted_wrt (<) (map fst (List.filter (\<lambda>f. snd f \<noteq> None) fs))"
    using s unfolding sorted_wrt_map by (rule sorted_wrt_filter)
  then have "sorted (map fst (present fs)) \<and> distinct (map fst (present fs))"
    unfolding present_keys strict_sorted_iff .
  moreover have "wf_json v" if "(k, v) \<in> set (present fs)" for k v
    using present_values [OF that] assms(2) by (fastforce simp: list_all_iff)
  ultimately show ?thesis by (auto simp: obj_def)
qed

definition first_of :: "'a option \<Rightarrow> 'a option \<Rightarrow> 'a option" where
  "first_of v w = (case v of None \<Rightarrow> w | Some x \<Rightarrow> Some x)"

lemma first_of_simps [simp]: "first_of v None = v" "first_of (Some x) w = Some x"
  by (cases v) (simp_all add: first_of_def)

lemma map_of_present:
  "map_of (present ((k, v) # fs)) n = (if n = k then first_of v (map_of (present fs) n) else map_of (present fs) n)"
  by (cases v) (auto simp: first_of_def)

lemma reads_object [reads_rules]: "reads (rd_object r (obj fs) p req opt) (present fs) True"
  by (simp add: reads_def rd_object_def obj_def split: option.splits)

lemma reads_string_opt [reads_rules]:
  "reads (rd_string_opt r (Str s) p pat mx e) s (length s \<le> mx \<and> pat s \<and> (e \<or> s \<noteq> []))"
  by (auto simp: reads_def rd_string_opt_def result_simps fail_if_Inr_iff)

lemma reads_string [reads_rules]: "reads (rd_string r (Str s) p) s True"
  "reads (rd_pattern r (Str s) p pat) s (pat s)" "reads (rd_short r (Str s) p mx) s True"
  using reads_string_opt unfolding reads_def rd_string_def rd_pattern_def rd_short_def by blast+

lemma reads_line [reads_rules]: "reads (rd_line r (Str s) p) s True"
  unfolding rd_line_def by ((rule reads_bind, rule reads_rules)+, rule reads_return, simp_all)

lemma reads_int [reads_rules]: "reads (rd_int r (int_jsval i) p l) i (wf_json (int_jsval i))"
  by (auto simp: reads_def rd_int_def int_jsval_def safe_int_of_def split: if_splits)

lemma reads_bool [reads_rules]: "reads (rd_bool r (Bool b) p) b True"
  by (simp add: reads_def rd_bool_def)

lemma reads_array [reads_rules]: "reads (rd_array r (Arr xs) p mx) xs True"
  by (simp add: reads_def rd_array_def)

lemma reads_nullable [reads_rules]: "reads (rd_nullable r (null_str x) p) x True"
  using reads_string_opt
  by (cases x) (auto simp: reads_def rd_nullable_def null_str_def result_simps)

lemma wf_null_str [simp]: "wf_json (null_str x)"
  by (cases x) (simp_all add: null_str_def)

lemma wf_opt_str [simp]: "wf_opt (opt_str x)"
  by (cases x) (simp_all add: opt_str_def)

lemma wf_flag [simp]: "wf_opt (flag b)"
  by (cases b) (simp_all add: flag_def)

definition rd_at :: "(jsval \<Rightarrow> path \<Rightarrow> 'a parsed) \<Rightarrow> jsval option \<Rightarrow> path \<Rightarrow> 'a option parsed" where
  "rd_at f w q = (case w of None \<Rightarrow> Inr None | Some v \<Rightarrow> bind_res (f v q) (\<lambda>a. Inr (Some a)))"

definition flag_at :: "reader \<Rightarrow> jsval option \<Rightarrow> path \<Rightarrow> bool parsed" where
  "flag_at r w q =
     bind_res (rd_at (\<lambda>v q. bind_res (rd_bool r v q) (\<lambda>b. fail_if r (\<not> b) q MustBeTrue)) w q) (\<lambda>x. Inr (x \<noteq> None))"

lemma rd_optional_at: "rd_optional ob k f p = rd_at f (map_of ob k) (p @ [Fld k])"
  by (simp add: rd_optional_def rd_at_def)

lemma rd_flag_at: "rd_flag r ob k p = flag_at r (map_of ob k) (p @ [Fld k])"
  by (simp add: rd_flag_def flag_at_def rd_optional_at)

lemma reads_at:
  "(\<And>v p. reads (f (enc v) p) v (wf_json (enc v))) \<Longrightarrow> reads (rd_at f (map_option enc x) q) x (wf_opt (map_option enc x))"
  by (cases x) (auto simp: reads_def rd_at_def result_simps)

lemma reads_at_str:
  "(\<And>v p. reads (f (Str v) p) v (Q v)) \<Longrightarrow> reads (rd_at f (opt_str x) q) x True"
  by (cases x) (auto simp: reads_def rd_at_def result_simps opt_str_def)

lemma reads_flag [reads_rules]: "reads (flag_at r (flag b) q) b True"
  by (cases b) (auto simp: reads_def flag_at_def rd_at_def rd_bool_def result_simps fail_if_Inr_iff flag_def)

declare present.simps [simp del]

lemmas lookup_simps = field_of_def map_of_present present.simps(1) rd_optional_at rd_flag_at

lemma reads_each:
  assumes "\<And>x p. x \<in> set xs \<Longrightarrow> reads (f (enc x) p) x (wf_json (enc x))"
  shows "reads (rd_each f p i (map enc xs)) xs (wf_json (Arr (map enc xs)))"
  using assms
proof (induction xs arbitrary: i)
  case (Cons x xs)
  then show ?case
    by (fastforce simp: reads_def result_simps)
qed (simp add: reads_def)

lemma reads_each_str: "(\<And>s p. reads (f (Str s) p) s True) \<Longrightarrow> reads (rd_each f p i (map Str xs)) xs True"
  using reads_each [of xs f Str p i] by (auto simp: reads_def)

lemma reads_obj:
  assumes "successively (<) (map fst fs)" "reads (k (present fs)) x (list_all (wf_opt \<circ> snd) fs)"
  shows "reads (bind_res (rd_object r (obj fs) p req opt) k) x (wf_json (obj fs))"
  by (rule reads_weaken [OF reads_bind [OF reads_object, of k fs, OF assms(2)]]) (rule wf_obj [OF assms(1)])

lemma case_obj:
  "(case obj fs of Undefined \<Rightarrow> a | Null \<Rightarrow> b | Bool x \<Rightarrow> c x | Num n \<Rightarrow> d n | Str s \<Rightarrow> e s | Arr xs \<Rightarrow> f xs | Obj kvs \<Rightarrow> g kvs)
   = g (present fs)"
  by (simp add: obj_def)

lemmas reads_fields = reads_at reads_at_str reads_each reads_each_str

section \<open>The parts\<close>

lemma reads_transcript [reads_rules]:
  "reads (rd_transcriptRecord r (transcript_json t) p) t (wf_json (transcript_json t))"
  unfolding rd_transcriptRecord_def transcript_json_def
  apply (rule reads_obj; simp add: lookup_simps)
  apply ((rule reads_bind, (rule reads_rules | rule reads_fields, rule reads_rules))+, rule reads_return; simp)
  done

lemma reads_slot [reads_rules]: "reads (rd_frameSlot r (slot_json s) p) s (wf_json (slot_json s))"
  unfolding rd_frameSlot_def slot_json_def
  apply (rule reads_obj; simp add: lookup_simps)
  apply ((rule reads_bind, (rule reads_rules | rule reads_fields, rule reads_rules))+, rule reads_return; simp)
  done

lemma reads_accounts [reads_rules]: "reads (rd_accounts r (accounts_json a) p) a (wf_json (accounts_json a))"
  unfolding rd_accounts_def accounts_json_def
  apply (rule reads_obj; simp add: lookup_simps)
  apply ((rule reads_bind, (rule reads_rules | rule reads_fields, rule reads_rules))+, rule reads_return; simp)
  done

lemma reads_claimTx [reads_rules]: "reads (rd_claimTx r (claim_tx_json c) p) c (wf_json (claim_tx_json c))"
  unfolding rd_claimTx_def claim_tx_json_def
  apply (rule reads_obj; simp add: lookup_simps)
  apply ((rule reads_bind, (rule reads_rules | rule reads_fields, rule reads_rules))+, rule reads_return; simp)
  done

lemma reads_claimRecord [reads_rules]: "reads (rd_claimRecord r (claim_record_json c) p) c (wf_json (claim_record_json c))"
  unfolding rd_claimRecord_def claim_record_json_def
  apply (rule reads_obj; simp add: lookup_simps)
  apply ((rule reads_bind, (rule reads_rules | rule reads_fields, rule reads_rules))+, rule reads_return; simp)
  done

lemma reads_accountLine [reads_rules]: "reads (rd_accountLine r (account_line_json a) p) a (wf_json (account_line_json a))"
  unfolding rd_accountLine_def account_line_json_def
  apply (rule reads_obj; simp add: lookup_simps)
  apply ((rule reads_bind, (rule reads_rules | rule reads_fields, rule reads_rules))+, rule reads_return; simp)
  done

lemma reads_legB [reads_rules]: "reads (rd_legB r (legB_json l) p) l (wf_json (legB_json l))"
  unfolding rd_legB_def legB_json_def
  apply (rule reads_obj; simp add: lookup_simps)
  apply ((rule reads_bind, (rule reads_rules | rule reads_fields, rule reads_rules))+, rule reads_return; simp)
  done


lemma marker_kind_of_name [simp]: "marker_kind_of (Str (marker_name k)) = Some k"
  by (cases k) (simp_all add: marker_kind_of_def)

lemma reads_marker [reads_rules]: "reads (rd_marker r (marker_json m) p) m (wf_json (marker_json m))"
  unfolding rd_marker_def marker_json_def
  apply (rule reads_obj; simp add: lookup_simps)
  apply ((rule reads_bind, (rule reads_rules | rule reads_fields, rule reads_rules))+, rule reads_return; simp)
  done

lemma reads_event [reads_rules]:
  "reads (rd_event r ((Str \<circ> event_name) e) p) e (wf_json ((Str \<circ> event_name) e))"
  by (cases e) (simp_all add: reads_def rd_event_def chain_event_of_def)

lemma reads_null_str [reads_rules]: "reads (or_null (rd_string r) (null_str x) p) x (wf_json (null_str x))"
  using reads_string(1) by (cases x) (auto simp: reads_def or_null_def null_str_def result_simps)

lemma reads_null_int [reads_rules]: "reads (or_null (\<lambda>v q. rd_int r v q l) (null_int x) p) x (wf_json (null_int x))"
  using reads_int by (cases x) (auto simp: reads_def or_null_def null_int_def result_simps int_jsval_def)

lemma reads_true_flag [reads_rules]: "reads (rd_at (rd_true r) (flag b) q) (if b then Some () else None) True"
  by (cases b) (simp_all add: reads_def rd_at_def flag_def rd_true_def fail_if_def)

lemma reads_evidence [reads_rules]: "reads (rd_evidence r (evidence_json e) p) e (wf_json (evidence_json e))"
  unfolding rd_evidence_def evidence_json_def
  apply (rule reads_obj; simp add: lookup_simps)
  apply ((rule reads_bind, (rule reads_rules | rule reads_fields, rule reads_rules))+, rule reads_return; simp)
  done

lemma reads_recovery: "reads (rd_recovery r ok (recovery_json x) p) x (wf_json (recovery_json x))"
proof (cases x)
  case (EvmRecovery h)
  have "reads (bind_res (rd_object r (recovery_json x) p [''chain'', ''txHash''] []) (\<lambda>ob.
      bind_res (rd_pattern r (field_of ob ''txHash'') (p @ [Fld ''txHash'']) hex32) (\<lambda>h. Inr (EvmRecovery h))))
    x (wf_json (recovery_json x))"
    unfolding EvmRecovery recovery_json.simps
    apply (rule reads_obj; simp add: lookup_simps)
    apply ((rule reads_bind, rule reads_rules)+, rule reads_return; simp)
    done
  then show ?thesis
    unfolding EvmRecovery recovery_json.simps rd_recovery_def case_obj Let_def
    by (simp add: map_of_present field_of_def [of "present fs" for fs] reads_fail)
next
  case (BtcRecovery tx raw)
  show ?thesis
    unfolding BtcRecovery recovery_json.simps rd_recovery_def case_obj Let_def
    apply (simp add: map_of_present field_of_def [of "present fs" for fs] split del: if_split)
    apply (rule reads_obj; simp add: lookup_simps)
    apply ((rule reads_bind, rule reads_rules)+, rule reads_return; simp)
    done
next
  case (NearRecovery h b)
  show ?thesis
    unfolding NearRecovery recovery_json.simps rd_recovery_def case_obj Let_def
    apply (simp add: map_of_present field_of_def [of "present fs" for fs] split del: if_split)
    apply (rule reads_obj; simp add: lookup_simps)
    apply ((rule reads_bind, rule reads_rules)+, rule reads_return; simp)
    done
next
  case (SolRecovery sig bh h slot)
  show ?thesis
    unfolding SolRecovery recovery_json.simps rd_recovery_def case_obj Let_def
    apply (simp add: map_of_present field_of_def [of "present fs" for fs] split del: if_split)
    apply (rule reads_obj; simp add: lookup_simps)
    apply ((rule reads_bind, (rule reads_rules | rule reads_fields, rule reads_rules))+, rule reads_return; simp)
    done
qed


lemmas reads_recovery' [reads_rules] = reads_recovery

lemma reads_prepared [reads_rules]: "reads (rd_prepared r (prepared_json q) p) q (wf_json (prepared_json q))"
  unfolding rd_prepared_def prepared_json_def
  apply (rule reads_obj; simp add: lookup_simps)
  apply ((rule reads_bind, (rule reads_rules | rule reads_fields, rule reads_rules))+, rule reads_return; simp)
  done

lemma reads_frames [reads_rules]: "reads (rd_frames r (frames_json f) p) f (wf_json (frames_json f))"
  unfolding rd_frames_def frames_json_def
  apply (rule reads_obj; simp add: lookup_simps)
  apply ((rule reads_bind, (rule reads_rules | rule reads_fields, rule reads_rules))+, rule reads_return; simp)
  done

section \<open>The ledger\<close>

lemma kind_of_name [simp]: "kind_of (kind_name k) = Some k"
  by (cases k) (simp_all add: kind_of_def ALL_KINDS_def BUYER_KINDS_def SELLER_KINDS_def)

lemma reads_landed [reads_rules]:
  "reads (rd_landed r did d room line (landed_json l) p) l (wf_json (landed_json l))"
  unfolding rd_landed_def landed_json_def
  apply (rule reads_obj; simp add: lookup_simps)
  apply ((rule reads_bind, (rule reads_rules | (rule reads_fields, rule reads_rules) | rule reads_unit))+, rule reads_return; simp)
  done

lemma reads_entry:
  "reads (rd_ledger_entry T r role did cA cB seen (entry_json e) p) e
     (wf_json (entry_json e) \<and> en_kind e \<notin> set seen \<and> en_kind e \<in> set (allowed_kinds role)
        \<and> (digest_only role (en_kind e) \<longrightarrow> DIGEST_TEXT (en_text e)))"
proof -
  have o: "wf_json (entry_json e) \<longleftrightarrow> wf_opt (map_option landed_json (en_landed e))"
  proof
    show "wf_json (entry_json e) \<Longrightarrow> wf_opt (map_option landed_json (en_landed e))"
      by (cases "en_landed e") (simp_all add: entry_json_def obj_def present.simps)
    show "wf_opt (map_option landed_json (en_landed e)) \<Longrightarrow> wf_json (entry_json e)"
      unfolding entry_json_def by (rule wf_obj; simp)
  qed
  show ?thesis
    unfolding rd_ledger_entry_def o unfolding entry_json_def
    apply (rule reads_bind [OF reads_object], simp add: lookup_simps)
    apply (rule reads_bind, rule reads_rules, simp add: lookup_simps)
    apply ((rule reads_bind, (rule reads_rules | (rule reads_fields, rule reads_rules) | rule reads_unit))+, rule reads_return; simp)
    done
qed

lemma reads_entries:
  "reads (rd_entries T r role did cA cB p seen i (map entry_json es)) es
     (wf_json (Arr (map entry_json es)) \<and> distinct (map en_kind es) \<and> set (map en_kind es) \<inter> set seen = {}
        \<and> (\<forall>e \<in> set es. en_kind e \<in> set (allowed_kinds role) \<and> (digest_only role (en_kind e) \<longrightarrow> DIGEST_TEXT (en_text e))))"
proof (induction es arbitrary: seen i)
  case (Cons e es)
  show ?case
    unfolding list.map rd_entries.simps
    by (rule reads_bind [OF reads_entry], rule reads_bind [OF Cons.IH], rule reads_return) auto
qed (simp add: reads_def)

definition ledger_ok :: "flow_role \<Rightarrow> ledger_entry list \<Rightarrow> bool" where
  "ledger_ok role es \<longleftrightarrow>
     distinct (map en_kind es) \<and>
     (\<forall>e \<in> set es. en_kind e \<in> set (allowed_kinds role) \<and> (digest_only role (en_kind e) \<longrightarrow> DIGEST_TEXT (en_text e)))"

lemma reads_ledger [reads_rules]:
  "reads (parseLedger T r (Arr (map entry_json es)) p role did cA cB) es
     (wf_json (Arr (map entry_json es)) \<and> ledger_ok role es)"
  unfolding parseLedger_def ledger_ok_def
  by (rule reads_bind [OF reads_array], rule reads_weaken [OF reads_entries]) simp

section \<open>The two roles\<close>

lemma claim_outcome_of_name [simp]: "claim_outcome_of (Str (outcome_name x)) = Some x"
  by (cases x) (simp_all add: claim_outcome_of_def)


text \<open>The fields of a record by name; the Seller's and the Buyer's lists are long, so each is
  looked up once here.\<close>

lemma record_keys: "successively (<) (map fst (record_fields R))"
  by (cases R) simp_all

lemma reads_secret [reads_rules]:
  "reads (rd_secret T r (present (record_fields (SellerRecord b s)))) (ss_preimage s, ss_statement s)
     (verifyHashPreimage T (ss_statement s) (ss_preimage s))"
  unfolding rd_secret_def record_fields.simps
  apply (simp add: lookup_simps)
  apply ((rule reads_bind, rule reads_rules)+, rule reads_return; simp)
  done

lemma reads_claim [reads_rules]:
  "reads (rd_claim r (present (record_fields (SellerRecord b s))))
     \<lparr>cp_attempted = ss_claimAttempted s, cp_fromBlock = ss_claimFromBlock s, cp_txHash = ss_claimTxHash s, cp_tx = ss_claimTx s,
      cp_records = ss_claimRecords s, cp_public = ss_publicClaimSignature s, cp_outcome = ss_claimOutcome s\<rparr>
     (wf_opt (map_option marker_json (ss_claimFromBlock s)) \<and> wf_opt (map_option claim_tx_json (ss_claimTx s)) \<and>
      wf_json (Arr (map claim_record_json (ss_claimRecords s))))"
  unfolding rd_claim_def record_fields.simps
  apply (simp add: lookup_simps del: wf_json.simps)
  apply (rule reads_bind, rule reads_rules)
  apply (rule reads_bind, rule reads_each, rule reads_rules)
  apply (rule reads_bind, rule reads_rules)
  apply (rule reads_bind, rule reads_at_str, rule reads_rules)
  apply (simp add: lookup_simps del: wf_json.simps)
  apply ((rule reads_bind, (rule reads_rules | rule reads_fields, rule reads_rules))+, rule reads_return; simp)
  done


lemma reads_if_bool:
  "reads (if b then rd_bool r (field_of (present (leg_b_refund_fields x)) ''done'') p else Inr False) (b \<and> lr_done x) True"
  by (cases b) (simp_all add: reads_def rd_bool_def leg_b_refund_fields_def lookup_simps)

lemma reads_seller:
  "reads (parseSeller T r (present (record_fields (SellerRecord b s))) (ss_contractA s) b) (SellerRecord b s)
     (verifyHashPreimage T (ss_statement s) (ss_preimage s) \<and>
      wf_opt (map_option marker_json (ss_claimFromBlock s)) \<and> wf_opt (map_option claim_tx_json (ss_claimTx s)) \<and>
      wf_json (Arr (map claim_record_json (ss_claimRecords s))) \<and> wf_opt (map_option accounts_json (ss_frozenLegAAccounts s)) \<and>
      wf_opt (map_option account_line_json (ss_ownAccountLine s)) \<and> wf_json (int_jsval (ss_neverLandedClaims s)))"
  unfolding parseSeller_def
  apply (rule reads_bind [OF reads_secret], simp only: prod.case)
  unfolding record_fields.simps
  apply (simp add: lookup_simps del: wf_json.simps)
  apply (rule reads_bind, rule reads_fields, rule reads_rules)
  apply (rule reads_bind, rule reads_fields, rule reads_rules)
  apply (rule reads_bind, rule reads_rules)
  apply (rule reads_bind, rule reads_claim [unfolded record_fields.simps])
  apply (simp only: leg_b_refund_json_def)
  apply (rule reads_bind [OF reads_object])
  apply (rule reads_bind, rule reads_rules)
  apply (rule reads_bind, rule reads_rules)
  apply (rule reads_bind, rule reads_if_bool)
  apply (simp add: lookup_simps leg_b_refund_fields_def del: wf_json.simps)
  apply ((rule reads_bind, (rule reads_rules | rule reads_fields, rule reads_rules))+, rule reads_return; simp)
  done

lemma reads_base:
  "reads (rd_base T r (rec_role R) (present (record_fields R))) (rec_contractA R, rec_base R)
     (wf_json (frames_json (fr_frames (rec_base R))) \<and> wf_opt (map_option legB_json (fr_legB (rec_base R))) \<and>
      wf_opt (map_option int_jsval (fr_lockTimeMs (rec_base R))) \<and> wf_json (int_jsval (fr_createdAtMs (rec_base R))) \<and>
      wf_json (int_jsval (fr_updatedAtMs (rec_base R))) \<and> wf_json (int_jsval (fr_revision (rec_base R))) \<and>
      wf_json (Arr (map entry_json (fr_ledger (rec_base R)))) \<and> ledger_ok (rec_role R) (fr_ledger (rec_base R)) \<and>
      hex32 (fr_swapId (rec_base R)) \<and> (\<forall>c. rec_contractA R = Some c \<longrightarrow> hex32 c))"
proof (cases R)
  case (SellerRecord b s)
  have c: "rd_optional ob ''contractA'' f p = rd_at f (opt_str (Some (ss_contractA s))) (p @ [Fld ''contractA''])"
    if "ob = present (record_fields R)" for ob f p
    unfolding that SellerRecord record_fields.simps by (simp add: lookup_simps opt_str_def)
  have hex: "reads (rd_at (\<lambda>v q. rd_pattern r v q hex32) (opt_str x) q) x (\<forall>c. x = Some c \<longrightarrow> hex32 c)" for x q
    by (cases x) (auto simp: reads_def rd_at_def opt_str_def result_simps rd_pattern_def rd_string_opt_def fail_if_Inr_iff)
  show ?thesis
    unfolding rd_base_def c [OF refl] unfolding SellerRecord record_fields.simps
    apply (simp add: lookup_simps del: wf_json.simps)
    apply ((rule reads_bind, (rule reads_rules hex | rule reads_fields, rule reads_rules))+, rule reads_return; simp)
    done
next
  case (BuyerRecord b s)
  have hex: "reads (rd_at (\<lambda>v q. rd_pattern r v q hex32) (opt_str x) q) x (\<forall>c. x = Some c \<longrightarrow> hex32 c)" for x q
    by (cases x) (auto simp: reads_def rd_at_def opt_str_def result_simps rd_pattern_def rd_string_opt_def fail_if_Inr_iff)
  show ?thesis
    unfolding rd_base_def BuyerRecord record_fields.simps
    apply (simp add: lookup_simps del: wf_json.simps)
    apply ((rule reads_bind, (rule reads_rules hex | rule reads_fields, rule reads_rules))+, rule reads_return; simp)
    done
qed


lemma reads_lock:
  "reads (rd_lock r (present (lock_fields l))) (\<lambda>posted. l\<lparr>bl_framePosted := posted\<rparr>) (wf_json (lock_json l))"
  unfolding lock_json_def
  apply (rule reads_weaken [where Q = "list_all (wf_opt \<circ> snd) (lock_fields l)"])
   apply (unfold rd_lock_def lock_fields_def)
   apply (simp add: lookup_simps Let_def)
   apply ((rule reads_bind, (rule reads_rules | rule reads_fields, rule reads_rules))+, rule reads_return)
    apply (rule ext, cases l, simp)
   apply simp
  apply (rule wf_obj; simp)
  done

lemma reads_refund:
  "reads (rd_refund r (present (refund_fields x))) (\<lambda>posted. x\<lparr>br_framesPosted := posted\<rparr>) (wf_json (refund_json x))"
  unfolding refund_json_def
  apply (rule reads_weaken [where Q = "list_all (wf_opt \<circ> snd) (refund_fields x)"])
   apply (unfold rd_refund_def refund_fields_def)
   apply (simp add: lookup_simps Let_def)
   apply ((rule reads_bind, (rule reads_rules | rule reads_fields, rule reads_rules))+, rule reads_return)
    apply (rule ext, cases x, simp)
   apply simp
  apply (rule wf_obj; simp)
  done

lemma reads_buyer:
  "reads (rd_buyer r (present (record_fields (BuyerRecord b s))) (bs_contractA s) b) (BuyerRecord b s)
     (wf_json (lock_json (bs_lock s)) \<and> wf_json (refund_json (bs_refund s)) \<and>
      wf_opt (map_option account_line_json (bs_ownAccountLine s)))"
  unfolding rd_buyer_def record_fields.simps
  apply (simp add: lookup_simps lock_json_def refund_json_def)
  apply (rule reads_bind, rule reads_fields, rule reads_rules)
  apply (rule reads_bind [OF reads_object])
  apply (rule reads_bind [OF reads_lock])
  apply (rule reads_bind [OF reads_object])
  apply (rule reads_bind [OF reads_refund])
  apply (simp add: lookup_simps lock_fields_def refund_fields_def)
  apply ((rule reads_bind, (rule reads_rules | rule reads_fields, rule reads_rules))+, rule reads_return;
      simp add: lock_json_def lock_fields_def refund_json_def refund_fields_def)
  done


lemma reads_noPreimage [reads_rules]:
  "reads (noPreimageOf T r h v p) () (secret_paths (holds_preimage T h) p v = [])"
  by (simp add: reads_def noPreimageOf_def split: list.splits)

lemma reads_parseBuyer:
  "reads (parseBuyer T r (present (record_fields (BuyerRecord b s))) (bs_contractA s) b) (BuyerRecord b s)
     (wf_json (lock_json (bs_lock s)) \<and> wf_json (refund_json (bs_refund s)) \<and>
      wf_opt (map_option account_line_json (bs_ownAccountLine s)) \<and>
      (\<forall>h. bl_hashLock (bs_lock s) = Some h \<longrightarrow>
         secret_paths (holds_preimage T h) ROOT (record_json (BuyerRecord b s)) = []))"
  unfolding parseBuyer_def
  apply (rule reads_bind [OF reads_buyer], simp only: flow_record.sel)
  apply (cases "bl_hashLock (bs_lock s)"; simp only: option.case)
   apply (rule reads_bind, rule reads_unit, rule reads_return; simp)
  apply (rule reads_bind, rule reads_rules, rule reads_return; simp)
  done

text \<open>What the reader guarantees of a record, whoever wrote it.\<close>

fun record_ok :: "tclk \<Rightarrow> flow_record \<Rightarrow> bool" where
  "record_ok T (SellerRecord b s) \<longleftrightarrow>
     hex32 (ss_contractA s) \<and> hex32 (fr_swapId b) \<and> ledger_ok SellerRole (fr_ledger b) \<and>
     verifyHashPreimage T (ss_statement s) (ss_preimage s)"
| "record_ok T (BuyerRecord b s) \<longleftrightarrow>
     hex32 (fr_swapId b) \<and> ledger_ok BuyerRole (fr_ledger b) \<and>
     (case bl_hashLock (bs_lock s) of
        None \<Rightarrow> True
      | Some h \<Rightarrow> secret_paths (holds_preimage T h) ROOT (record_json (BuyerRecord b s)) = [])"

lemma role_field_names [simp]: "role_field (Str ''seller'') = Some SellerRole" "role_field (Str ''buyer'') = Some BuyerRole"
  by (simp_all add: role_field_def role_of_def)

lemma wf_leg_b_refund: "wf_json (leg_b_refund_json x)"
  unfolding leg_b_refund_json_def leg_b_refund_fields_def by (rule wf_obj; simp)

lemma wf_strings: "wf_json (Arr (map Str xs))" "wf_json (int_jsval 1)"
  by (simp_all add: int_jsval_def safe_int_of_def max_safe_def)

lemma reads_record: "reads (parseRecord T (record_json R) key building) R (wf_json (record_json R) \<and> record_ok T R)"
proof (cases R)
  case (SellerRecord b s)
  define fs where "fs = record_fields R"
  have role: "field_of (present fs) ''role'' = Str ''seller''"
    unfolding fs_def SellerRecord record_fields.simps by (simp add: lookup_simps)
  have keys: "successively (<) (map fst fs)" unfolding fs_def by (rule record_keys)
  note base = reads_base [of T _ R, folded fs_def, unfolded SellerRecord rec_role.simps rec_contractA.simps flow_record.sel]
  note rest = reads_seller [of T _ b s, folded SellerRecord, folded fs_def]
  show ?thesis
    unfolding parseRecord_def record_json_def fs_def [symmetric] Let_def case_obj role role_field_names option.case flow_role.case
    apply (rule reads_bind [OF reads_object], rule reads_bind [OF base], simp only: prod.case option.case)
    apply (rule reads_weaken [OF rest])
    apply (rule conjI, rule wf_obj [OF keys])
    unfolding fs_def SellerRecord by (auto simp: wf_leg_b_refund wf_strings simp del: wf_json.simps(3))
next
  case (BuyerRecord b s)
  define fs where "fs = record_fields R"
  have role: "field_of (present fs) ''role'' = Str ''buyer''"
    unfolding fs_def BuyerRecord record_fields.simps by (simp add: lookup_simps)
  have keys: "successively (<) (map fst fs)" unfolding fs_def by (rule record_keys)
  note base = reads_base [of T _ R, folded fs_def, unfolded BuyerRecord rec_role.simps rec_contractA.simps flow_record.sel]
  note rest = reads_parseBuyer [of T _ b s, folded BuyerRecord, folded fs_def]
  show ?thesis
    unfolding parseRecord_def record_json_def fs_def [symmetric] Let_def case_obj role role_field_names option.case flow_role.case
    apply (rule reads_bind [OF reads_object], rule reads_bind [OF base], simp only: prod.case option.case)
    apply (rule reads_weaken [OF rest])
    apply (rule conjI, rule wf_obj [OF keys])
    unfolding fs_def BuyerRecord by (auto split: option.splits simp: record_json_def wf_strings simp del: wf_json.simps(3))
qed

lemma parse_own: "parseRecord T (record_json R) key building = Inr R' \<Longrightarrow> R' = R \<and> wf_json (record_json R) \<and> record_ok T R"
  by (rule readsD [OF reads_record])

end
