(* ===== verification/Flow_Record.thy ===== *)
theory Flow_Record
  imports Flow_Readback
begin

text \<open>
  \<open>src/client/flow-record.ts\<close>: building and updating a record, its key, the ledger, the
  redacted form, the comparison with what the runner supplied, and the bytes of a record
  (\<open>encodeFlowRecord\<close>, \<open>decodeFlowRecord\<close>). \<open>H\<close> is sha256 in hex over
  bytes.
\<close>

section \<open>Chain markers and evidence as data\<close>

datatype rail_block_marker = BigintBlock int | NumberBlock jsnum | OtherBlock

definition markerToJson :: "rail_block_marker \<Rightarrow> block_marker parsed" where
  "markerToJson m =
     (case m of
        BigintBlock i \<Rightarrow>
          if 0 \<le> i then Inr \<lparr>bm_kind = BigintMarker, bm_value = show_int i\<rparr> else Inl (FlowRecordInvalidError ''<record>'' BadMarker)
      | NumberBlock x \<Rightarrow>
          (case safe_int_of (Num x) of
             Some i \<Rightarrow> if 0 \<le> i then Inr \<lparr>bm_kind = NumberMarker, bm_value = show_int i\<rparr>
                       else Inl (FlowRecordInvalidError ''<record>'' BadMarker)
           | None \<Rightarrow> Inl (FlowRecordInvalidError ''<record>'' BadMarker))
      | OtherBlock \<Rightarrow> Inl (FlowRecordInvalidError ''<record>'' BadMarker))"

definition markerFromJson :: "block_marker \<Rightarrow> rail_block_marker" where
  "markerFromJson m =
     (case bm_kind m of
        BigintMarker \<Rightarrow> BigintBlock (int (read_nat (bm_value m)))
      | NumberMarker \<Rightarrow> NumberBlock (js_number (of_nat (read_nat (bm_value m)))))"

text \<open>A rail's evidence has its block number as a bigint; every other field is carried over.\<close>

record rail_write_evidence =
  rw_data :: write_evidence
  rw_blockNumber :: "int option"

definition evidenceToJson :: "rail_write_evidence \<Rightarrow> write_evidence" where
  "evidenceToJson e = (rw_data e)\<lparr>we_blockNumber := map_option show_int (rw_blockNumber e)\<rparr>"

definition evidenceFromJson :: "write_evidence \<Rightarrow> rail_write_evidence" where
  "evidenceFromJson w =
     \<lparr>rw_data = w, rw_blockNumber = map_option (\<lambda>d. int (read_nat d)) (we_blockNumber w)\<rparr>"

section \<open>Keys, construction and updates\<close>

definition lift_store :: "(store_error, 'a) result \<Rightarrow> 'a parsed" where
  "lift_store x = (case x of Inl e \<Rightarrow> Inl (StoreThrew e) | Inr a \<Rightarrow> Inr a)"

fun recordKey :: "flow_record \<Rightarrow> string parsed" where
  "recordKey (SellerRecord b s) = lift_store (flowKey SellerRole (ss_contractA s))"
| "recordKey (BuyerRecord b s) = lift_store (flowKey BuyerRole (fr_swapId b))"

definition describeKey :: "flow_record \<Rightarrow> string" where
  "describeKey R =
     (case recordKey R of
        Inr k \<Rightarrow> k
      | Inl _ \<Rightarrow> role_name (rec_role R) @ CHR '':'' # fr_swapId (rec_base R))"

definition checked :: "tclk \<Rightarrow> flow_record \<Rightarrow> flow_record parsed" where
  "checked T R = bind_res (parseRecord T (record_json R) (describeKey R) True) (\<lambda>_. Inr R)"

record new_record_init =
  ni_swapId :: string
  ni_did :: string
  ni_railId :: string
  ni_caip2 :: string
  ni_deploymentId :: string
  ni_nowMs :: int

definition railDeploymentId :: "string \<Rightarrow> string option \<Rightarrow> string" where
  "railDeploymentId rail deployment = (case deployment of Some d \<Rightarrow> d | None \<Rightarrow> ''rail:'' @ rail)"

definition new_base :: "new_record_init \<Rightarrow> flow_base" where
  "new_base i =
     \<lparr>fr_swapId = ni_swapId i, fr_did = ni_did i, fr_railId = ni_railId i, fr_caip2 = ni_caip2 i,
      fr_deploymentId = ni_deploymentId i, fr_createdAtMs = ni_nowMs i, fr_updatedAtMs = ni_nowMs i, fr_revision = 1,
      fr_frames = \<lparr>sf_offerA = None, sf_acceptA = None, sf_offerB = None, sf_acceptB = None\<rparr>,
      fr_contractB = None, fr_lockTimeMs = None, fr_legB = None, fr_ledger = []\<rparr>"

definition newBuyerRecord :: "tclk \<Rightarrow> new_record_init \<Rightarrow> flow_record parsed" where
  "newBuyerRecord T i =
     checked T (BuyerRecord (new_base i)
       \<lparr>bs_contractA = None, bs_legBVerified = False, bs_ownAccountLine = None,
        bs_lock = \<lparr>bl_attempted = False, bl_prepared = None, bl_fromBlock = None, bl_accounts = None, bl_hashLock = None,
          bl_evidence = None, bl_framePosted = False, bl_neverLanded = False\<rparr>,
        bs_legBClaimAttempted = False, bs_legBClaimed = False, bs_legBClaimAdopted = False,
        bs_refund = \<lparr>br_attempted = False, br_recovery = None, br_evidence = None, br_framesPosted = False, br_claimSeen = False\<rparr>,
        bs_refundNotes = []\<rparr>)"

definition newSellerRecord :: "tclk \<Rightarrow> new_record_init \<Rightarrow> string \<Rightarrow> string \<Rightarrow> string \<Rightarrow> flow_record parsed" where
  "newSellerRecord T i contractA preimage statement =
     checked T (SellerRecord (new_base i)
       \<lparr>ss_contractA = contractA, ss_preimage = preimage, ss_statement = statement, ss_attemptedAcceptB = None,
        ss_lockedLegBContract = None, ss_frozenLegAAccounts = None, ss_frozenLegARailRef = None, ss_ownAccountLine = None,
        ss_claimAttempted = False, ss_claimFromBlock = None, ss_claimTxHash = None, ss_claimTx = None, ss_claimRecords = [],
        ss_publicClaimSignature = None, ss_neverLandedClaims = 0, ss_claimOutcome = OutcomeNone, ss_revealPosted = False,
        ss_receiptPosted = False, ss_legBRefund = \<lparr>lr_attempted = False, lr_done = False, lr_framesPosted = False\<rparr>,
        ss_legBClaimSeen = False\<rparr>)"

text \<open>\<open>cloneFlowRecord\<close> is a copy of plain data: the identity here. \<open>revision\<close> is a
  double; the sum is exact below the safe bound, which the reader enforces on both sides.\<close>

definition bumped :: "flow_record \<Rightarrow> int \<Rightarrow> flow_record" where
  "bumped R nowMs =
     with_base R ((rec_base R)\<lparr>fr_revision := fr_revision (rec_base R) + 1,
       fr_updatedAtMs := max (fr_updatedAtMs (rec_base R)) nowMs\<rparr>)"

definition ledgerEntry :: "flow_record \<Rightarrow> ledger_kind \<Rightarrow> ledger_entry option" where
  "ledgerEntry R kind = List.find (\<lambda>e. en_kind e = kind) (fr_ledger (rec_base R))"

definition with_ledger :: "flow_record \<Rightarrow> ledger_entry list \<Rightarrow> flow_record" where
  "with_ledger R es = with_base R ((rec_base R)\<lparr>fr_ledger := es\<rparr>)"

definition withLedgerIntent :: "tclk \<Rightarrow> flow_record \<Rightarrow> ledger_kind \<Rightarrow> string \<Rightarrow> string \<Rightarrow> flow_record parsed" where
  "withLedgerIntent T R kind room line =
     (case ledgerEntry R kind of
        Some e \<Rightarrow>
          if en_room e \<noteq> room \<or> en_text e \<noteq> line then Inl (FlowRecordConflictError (OtherText kind)) else Inr R
      | None \<Rightarrow>
          checked T (with_ledger R (fr_ledger (rec_base R) @ [\<lparr>en_kind = kind, en_room = room, en_text = line, en_landed = None\<rparr>])))"

text \<open>Replaces the landed mark of the first entry of a kind.\<close>

fun set_landed :: "ledger_kind \<Rightarrow> ledger_landed \<Rightarrow> ledger_entry list \<Rightarrow> ledger_entry list" where
  "set_landed kind l [] = []"
| "set_landed kind l (e # es) = (if en_kind e = kind then e\<lparr>en_landed := Some l\<rparr> # es else e # set_landed kind l es)"

definition withLedgerLanded :: "tclk \<Rightarrow> flow_record \<Rightarrow> ledger_kind \<Rightarrow> ledger_landed \<Rightarrow> flow_record parsed" where
  "withLedgerLanded T R kind landed =
     (case ledgerEntry R kind of
        None \<Rightarrow> Inl (FlowRecordConflictError (NoEntry kind))
      | Some e \<Rightarrow>
          (case en_landed e of
             Some l \<Rightarrow>
               if ld_seq l \<noteq> ld_seq landed \<or> ld_nonce l \<noteq> ld_nonce landed
               then Inl (FlowRecordConflictError (LandedAt kind (ld_seq l) (ld_seq landed))) else Inr R
           | None \<Rightarrow> checked T (with_ledger R (set_landed kind landed (fr_ledger (rec_base R))))))"

section \<open>The redacted form\<close>

definition contains :: "string \<Rightarrow> string \<Rightarrow> bool" where
  "contains s part \<longleftrightarrow> (\<exists>i \<in> {0..length s}. take (length part) (drop i s) = part)"

definition REDACTED :: string where
  "REDACTED = ''[redacted]''"

definition mask :: "string \<Rightarrow> string \<Rightarrow> string" where
  "mask secret s = (if secret \<noteq> [] \<and> contains s secret then REDACTED else s)"

definition redact_entry :: "string \<Rightarrow> ledger_entry \<Rightarrow> ledger_entry" where
  "redact_entry secret e =
     e\<lparr>en_text := mask secret (en_text e),
       en_landed := map_option (\<lambda>l. l\<lparr>ld_record := map_option (\<lambda>t. t\<lparr>tr_line := mask secret (tr_line t)\<rparr>) (ld_record l)\<rparr>) (en_landed e)\<rparr>"

definition strip_0x :: "string \<Rightarrow> string" where
  "strip_0x s = (if take 2 s = ''0x'' then drop 2 s else s)"

fun redactFlowRecord :: "flow_record \<Rightarrow> flow_record" where
  "redactFlowRecord (BuyerRecord b s) = BuyerRecord b s"
| "redactFlowRecord (SellerRecord b s) =
     (let secret = strip_0x (ss_preimage s) in
      SellerRecord (b\<lparr>fr_ledger := map (redact_entry secret) (fr_ledger b)\<rparr>)
        (s\<lparr>ss_preimage := REDACTED,
           ss_claimTx := map_option (\<lambda>c. c\<lparr>ct_rawTx := mask secret (ct_rawTx c)\<rparr>) (ss_claimTx s)\<rparr>))"

section \<open>The runner's objects\<close>

record identity =
  id_role :: flow_role
  id_swapId :: "string option"
  id_did :: string
  id_railId :: string
  id_caip2 :: string
  id_deploymentId :: "string option"
  id_contractA :: "string option"
  id_contractB :: "string option"

definition compare_field :: "string \<Rightarrow> string option \<Rightarrow> string option \<Rightarrow> unit parsed" where
  "compare_field name want have =
     (case (want, have) of
        (Some w, Some h) \<Rightarrow> throw_if (w \<noteq> h) (FlowRecordMismatchError name w h)
      | _ \<Rightarrow> Inr ())"

definition checkRecordIdentity :: "flow_record \<Rightarrow> identity \<Rightarrow> unit parsed" where
  "checkRecordIdentity R i =
     (let b = rec_base R in
      bind_res (compare_field ''role'' (Some (role_name (id_role i))) (Some (role_name (rec_role R)))) (\<lambda>_.
      bind_res (compare_field ''swapId'' (id_swapId i) (Some (fr_swapId b))) (\<lambda>_.
      bind_res (compare_field ''did'' (Some (id_did i)) (Some (fr_did b))) (\<lambda>_.
      bind_res (compare_field ''railId'' (Some (id_railId i)) (Some (fr_railId b))) (\<lambda>_.
      bind_res (compare_field ''caip2'' (Some (id_caip2 i)) (Some (fr_caip2 b))) (\<lambda>_.
      bind_res (compare_field ''deploymentId'' (id_deploymentId i) (Some (fr_deploymentId b))) (\<lambda>_.
      bind_res (compare_field ''contractA'' (id_contractA i) (rec_contractA R)) (\<lambda>_.
        compare_field ''contractB'' (id_contractB i) (fr_contractB b)))))))))"

section \<open>The bytes of a record\<close>

definition sha256Hex :: "(bytes \<Rightarrow> string) \<Rightarrow> string \<Rightarrow> string" where
  "sha256Hex H s = H (utf8 s)"

definition record_text :: "(bytes \<Rightarrow> string) \<Rightarrow> string \<Rightarrow> string" where
  "record_text H body =
     CHR ''{'' # (QUOTE # ''v'' @ [QUOTE]) @ '':1,'' @ (QUOTE # ''sum'' @ [QUOTE]) @ '':'' @ (QUOTE # sha256Hex H body @ [QUOTE])
       @ '','' @ (QUOTE # ''record'' @ [QUOTE]) @ '':'' @ body @ ''}''"

definition encodeFlowRecord :: "tclk \<Rightarrow> (bytes \<Rightarrow> string) \<Rightarrow> flow_record \<Rightarrow> bytes parsed" where
  "encodeFlowRecord T H R =
     (let key = describeKey R; plain = record_json R in
      bind_res (parseRecord T plain key True) (\<lambda>_.
        let bs = utf8 (record_text H (canonical plain))
        in if MAX_FLOW_RECORD_BYTES < length bs then Inl (FlowRecordInvalidError key (OverCap (length bs))) else Inr bs))"

definition NO_KEY :: string where
  "NO_KEY = ''<record>''"

definition check_key :: "string \<Rightarrow> flow_record \<Rightarrow> unit parsed" where
  "check_key key R =
     (if key = NO_KEY then Inr ()
      else bind_res (lift_store (parseFlowKey key)) (\<lambda>(role, sid).
        if role \<noteq> rec_role R then Inl (FlowRecordMismatchError ''role'' (role_name role) (role_name (rec_role R)))
        else (case R of
                SellerRecord b s \<Rightarrow>
                  throw_if (sid \<noteq> ss_contractA s) (FlowRecordMismatchError ''contractA'' sid (ss_contractA s))
              | BuyerRecord b s \<Rightarrow>
                  throw_if (sid \<noteq> fr_swapId b) (FlowRecordMismatchError ''swapId'' sid (fr_swapId b)))))"

definition envelope_fields :: "string \<Rightarrow> jsval \<Rightarrow> obj parsed" where
  "envelope_fields key v =
     (case v of
        Obj outer \<Rightarrow>
          if field_of outer ''v'' \<noteq> int_jsval 1 then Inl (FlowRecordVersionError key (field_of outer ''v''))
          else if (\<exists>n \<in> fst ` set outer. n \<notin> {''v'', ''sum'', ''record''})
                 \<or> (case field_of outer ''sum'' of Str _ \<Rightarrow> False | _ \<Rightarrow> True) \<or> \<not> has outer ''record''
               then Inl (RecordCorrupt key BadEnvelope)
          else Inr outer
      | _ \<Rightarrow> Inl (RecordCorrupt key EnvelopeNotObject))"

definition inner_version :: "string \<Rightarrow> jsval \<Rightarrow> unit parsed" where
  "inner_version key v =
     (case v of
        Obj inner \<Rightarrow> throw_if (field_of inner ''v'' \<noteq> int_jsval 1) (FlowRecordVersionError key (field_of inner ''v''))
      | _ \<Rightarrow> Inr ())"

definition decodeFlowRecord :: "tclk \<Rightarrow> (bytes \<Rightarrow> string) \<Rightarrow> bytes \<Rightarrow> string \<Rightarrow> flow_record parsed" where
  "decodeFlowRecord T H bs key =
     bind_res (throw_if (MAX_FLOW_RECORD_BYTES < length bs) (RecordCorrupt key (OverCap (length bs)))) (\<lambda>_.
     bind_res (or_throw (decode_text bs) (RecordCorrupt key BadUtf8)) (\<lambda>s.
     bind_res (or_throw (json_parse s) (RecordCorrupt key BadJson)) (\<lambda>v.
     bind_res (envelope_fields key v) (\<lambda>outer.
     let inner = field_of outer ''record'' in
     bind_res (throw_if (Str (sha256Hex H (canonical inner)) \<noteq> field_of outer ''sum'') (RecordCorrupt key SumMismatch)) (\<lambda>_.
     bind_res (inner_version key inner) (\<lambda>_.
     bind_res (parseRecord T inner key False) (\<lambda>R.
     bind_res (check_key key R) (\<lambda>_. Inr R))))))))"

section \<open>Through a store\<close>

text \<open>The store's \<open>load\<close> and \<open>save\<close> are arguments: \<open>MemoryFlowStore\<close> or
  \<open>FileFlowStore\<close>.\<close>

definition loadFlowRecordWithDigest ::
    "tclk \<Rightarrow> (bytes \<Rightarrow> string) \<Rightarrow> (string \<Rightarrow> (store_error, bytes option) result) \<Rightarrow> flow_role \<Rightarrow> string \<Rightarrow>
     (flow_record \<times> string) option parsed" where
  "loadFlowRecordWithDigest T H load role sid =
     bind_res (lift_store (flowKey role sid)) (\<lambda>key.
     bind_res (lift_store (load key)) (\<lambda>b.
       (case b of
          None \<Rightarrow> Inr None
        | Some bs \<Rightarrow> bind_res (decodeFlowRecord T H bs key) (\<lambda>R. Inr (Some (R, H bs))))))"

definition loadFlowRecord ::
    "tclk \<Rightarrow> (bytes \<Rightarrow> string) \<Rightarrow> (string \<Rightarrow> (store_error, bytes option) result) \<Rightarrow> flow_role \<Rightarrow> string \<Rightarrow>
     flow_record option parsed" where
  "loadFlowRecord T H load role sid =
     bind_res (loadFlowRecordWithDigest T H load role sid) (\<lambda>x. Inr (map_option fst x))"

definition saveFlowRecord ::
    "tclk \<Rightarrow> (bytes \<Rightarrow> string) \<Rightarrow> (string \<Rightarrow> bytes \<Rightarrow> string option \<Rightarrow> 's \<Rightarrow> (store_error, unit) result \<times> 's) \<Rightarrow>
     's \<Rightarrow> flow_record \<Rightarrow> string option \<Rightarrow> string parsed \<times> 's" where
  "saveFlowRecord T H save st R expected =
     (case encodeFlowRecord T H R of
        Inl e \<Rightarrow> (Inl e, st)
      | Inr bs \<Rightarrow>
          (case recordKey R of
             Inl e \<Rightarrow> (Inl e, st)
           | Inr key \<Rightarrow>
               (case save key bs expected st of
                  (Inl e, st') \<Rightarrow> (Inl (StoreThrew e), st')
                | (Inr u, st') \<Rightarrow> (Inr (H bs), st'))))"

end
