(* ===== verification/Flow_Journal.thy ===== *)
theory Flow_Journal
  imports Flow_Record
begin

text \<open>
  \<open>src/client/flow-resume.ts\<close>: the journal a Buyer or Seller flow keeps its one record
  through. A journal holds the record as last made durable and saves the next one by
  compare-and-swap; it posts a frame only after the frame's text is durable in the ledger. The
  asynchronous methods are cut at their awaits: \<open>commit\<close> is one turn of the queue
  \<open>tail\<close> (nothing else changes the journal's record, and the record is adopted when the
  save resolves), and \<open>ensurePosted\<close> is the phases of an attempt. The store is the
  arguments \<open>sv\<close>, \<open>ld\<close> and \<open>ls\<close>; the answers of the venue and of the
  clock are arguments of the steps.
\<close>

section \<open>Errors\<close>

datatype slot_fault =
    NotOfferFrame | NotAcceptFrame | SlotNotAuthentic | SlotOtherSender

datatype flow_error =
    Rec record_error
  | SaveFailed string flow_error
  | EarlierSaveRefused string flow_error
  | FlowNotFoundError string
  | SlotCorrupt string string slot_fault
  | LandedNotAuthentic string ledger_kind
  | InFlight ledger_kind
  | SwapExpiredError string int bool
  | Thrown string

type_synonym 'a flows = "(flow_error, 'a) result"

definition rec_res :: "'a parsed \<Rightarrow> 'a flows" where
  "rec_res x = (case x of Inl e \<Rightarrow> Inl (Rec e) | Inr a \<Rightarrow> Inr a)"

text \<open>\<open>error instanceof FlowStoreWriteFailedError\<close>: the class and its subclasses.\<close>

fun store_write_failed :: "store_error \<Rightarrow> bool" where
  "store_write_failed (FlowRecordStaleError k e a) = True"
| "store_write_failed (FlowRecordExistsError k) = True"
| "store_write_failed (FlowStoreLockedError k p i r) = True"
| "store_write_failed (FlowStoreFaultError n m k) = True"
| "store_write_failed _ = False"

fun is_write_failed :: "flow_error \<Rightarrow> bool" where
  "is_write_failed (Rec (StoreThrew x)) = store_write_failed x"
| "is_write_failed (SaveFailed k e) = True"
| "is_write_failed (EarlierSaveRefused k e) = True"
| "is_write_failed _ = False"

fun is_invalid :: "flow_error \<Rightarrow> bool" where
  "is_invalid (Rec (FlowRecordInvalidError k f)) = True"
| "is_invalid _ = False"

section \<open>Slots and the ledger\<close>

datatype slot = SlotOfferA | SlotAcceptA | SlotOfferB | SlotAcceptB

fun slot_of :: "swap_frames \<Rightarrow> slot \<Rightarrow> frame_slot option" where
  "slot_of f SlotOfferA = sf_offerA f"
| "slot_of f SlotAcceptA = sf_acceptA f"
| "slot_of f SlotOfferB = sf_offerB f"
| "slot_of f SlotAcceptB = sf_acceptB f"

fun fill_slot :: "swap_frames \<Rightarrow> slot \<Rightarrow> frame_slot \<Rightarrow> swap_frames" where
  "fill_slot f SlotOfferA s = f\<lparr>sf_offerA := Some s\<rparr>"
| "fill_slot f SlotAcceptA s = f\<lparr>sf_acceptA := Some s\<rparr>"
| "fill_slot f SlotOfferB s = f\<lparr>sf_offerB := Some s\<rparr>"
| "fill_slot f SlotAcceptB s = f\<lparr>sf_acceptB := Some s\<rparr>"

text \<open>\<open>recordToJson\<close> and \<open>recordFromJson\<close> copy the seven fields of a record, so both
  forms are \<open>transcript_record\<close>; the same holds of the accounts.\<close>

definition digestOfText :: "(bytes \<Rightarrow> string) \<Rightarrow> string \<Rightarrow> string" where
  "digestOfText H s = ''sha256:'' @ sha256Hex H s"

definition ledgerLanded :: "flow_record \<Rightarrow> ledger_kind \<Rightarrow> bool" where
  "ledgerLanded R kind = (case ledgerEntry R kind of None \<Rightarrow> False | Some e \<Rightarrow> en_landed e \<noteq> None)"

definition offerFromSlot :: "tclk \<Rightarrow> string \<Rightarrow> string \<Rightarrow> frame_slot option \<Rightarrow> offer_frame option flows" where
  "offerFromSlot T key nm s =
     (case s of
        None \<Rightarrow> Inr None
      | Some sl \<Rightarrow> (case tryDecodeFrame T (slot_text sl) of
                      Some (OfferF f) \<Rightarrow> Inr (Some f)
                    | _ \<Rightarrow> Inl (SlotCorrupt key nm NotOfferFrame)))"

definition acceptFromSlot :: "tclk \<Rightarrow> string \<Rightarrow> string \<Rightarrow> frame_slot option \<Rightarrow> accept_frame option flows" where
  "acceptFromSlot T key nm s =
     (case s of
        None \<Rightarrow> Inr None
      | Some sl \<Rightarrow> (case tryDecodeFrame T (slot_text sl) of
                      Some (AcceptF f) \<Rightarrow> Inr (Some f)
                    | _ \<Rightarrow> Inl (SlotCorrupt key nm NotAcceptFrame)))"

definition slotRecord :: "tclk \<Rightarrow> string \<Rightarrow> string \<Rightarrow> frame_slot option \<Rightarrow> string \<Rightarrow> transcript_record option flows" where
  "slotRecord T key nm s sender =
     (case Option.bind s slot_record of
        None \<Rightarrow> Inr None
      | Some t \<Rightarrow>
          if \<not> verifyTranscriptRecord T t then Inl (SlotCorrupt key nm SlotNotAuthentic)
          else if tr_sender t \<noteq> sender then Inl (SlotCorrupt key nm SlotOtherSender)
          else Inr (Some t))"

section \<open>One Seller record per offer\<close>

text \<open>An error of the scan keeps its class and its fields; the code adds the key and the place to
  its message.\<close>

fun findStoredSellerOffer ::
    "tclk \<Rightarrow> (bytes \<Rightarrow> string) \<Rightarrow> (string \<Rightarrow> (store_error, bytes option) result) \<Rightarrow> string \<Rightarrow> string list \<Rightarrow> string option flows" where
  "findStoredSellerOffer T H ld offerAText [] = Inr None"
| "findStoredSellerOffer T H ld offerAText (key # keys) =
     (if take 7 key \<noteq> ''seller:'' then findStoredSellerOffer T H ld offerAText keys
      else bind_res (rec_res (lift_store (ld key))) (\<lambda>b.
        case b of
          None \<Rightarrow> findStoredSellerOffer T H ld offerAText keys
        | Some bs \<Rightarrow> bind_res (rec_res (decodeFlowRecord T H bs key)) (\<lambda>R.
            if rec_role R = SellerRole \<and> map_option slot_text (sf_offerA (fr_frames (rec_base R))) = Some offerAText
            then Inr (Some key) else findStoredSellerOffer T H ld offerAText keys)))"

section \<open>The journal\<close>

type_synonym projector = "flow_record \<Rightarrow> flow_record flows"

record journal =
  jn_key :: string
  jn_did :: string
  jn_current :: flow_record
  jn_digest :: "string option"
  jn_failure :: "flow_error option"
  jn_projector :: "projector option"
  jn_inflight :: "(ledger_kind \<times> string \<times> string) list"

type_synonym 's saver = "'s \<Rightarrow> string \<Rightarrow> bytes \<Rightarrow> string option \<Rightarrow> (store_error, unit) result \<times> 's"

definition newJournal :: "string \<Rightarrow> flow_record \<Rightarrow> string option \<Rightarrow> journal flows" where
  "newJournal did initial digest =
     bind_res (rec_res (recordKey initial)) (\<lambda>key.
       Inr \<lparr>jn_key = key, jn_did = did, jn_current = initial, jn_digest = digest, jn_failure = None,
         jn_projector = None, jn_inflight = []\<rparr>)"

definition assertUsable :: "journal \<Rightarrow> unit flows" where
  "assertUsable J =
     (case jn_failure J of None \<Rightarrow> Inr () | Some why \<Rightarrow> Inl (EarlierSaveRefused (jn_key J) why))"

definition setProjector :: "projector \<Rightarrow> journal \<Rightarrow> journal" where
  "setProjector p J = J\<lparr>jn_projector := Some p\<rparr>"

text \<open>\<open>fail\<close>: the first failure is kept, and the typed error is thrown.\<close>

definition fail_error :: "journal \<Rightarrow> flow_error \<Rightarrow> flow_error" where
  "fail_error J e = (if is_write_failed e then e else SaveFailed (jn_key J) e)"

definition failJournal :: "journal \<Rightarrow> flow_error \<Rightarrow> journal" where
  "failJournal J e = J\<lparr>jn_failure := (case jn_failure J of Some f \<Rightarrow> Some f | None \<Rightarrow> Some (fail_error J e))\<rparr>"

text \<open>What a commit decides before it calls the store: nothing to save, an error of the caller's own
  derivation, a failure of the journal, or the bytes to save.\<close>

datatype commit_plan = NothingToSave | Refuse flow_error | FailWith flow_error | SaveThis flow_record bytes

definition prepare :: "tclk \<Rightarrow> (bytes \<Rightarrow> string) \<Rightarrow> int \<Rightarrow> bool \<Rightarrow> journal \<Rightarrow> flow_record \<Rightarrow> (flow_record \<times> bytes) flows" where
  "prepare T H now create J derived =
     bind_res (case jn_projector J of None \<Rightarrow> Inr derived | Some p \<Rightarrow> p derived) (\<lambda>projected.
     let next = (if create then projected else bumped projected now)
     in bind_res (rec_res (encodeFlowRecord T H next)) (\<lambda>bs. Inr (next, bs)))"

type_synonym derive = "flow_record \<Rightarrow> flow_record option flows"

definition plan :: "tclk \<Rightarrow> (bytes \<Rightarrow> string) \<Rightarrow> int \<Rightarrow> derive \<Rightarrow> bool \<Rightarrow> journal \<Rightarrow> commit_plan" where
  "plan T H now derive create J =
     (case assertUsable J of
        Inl e \<Rightarrow> Refuse e
      | Inr _ \<Rightarrow>
          (case derive (jn_current J) of
             Inl e \<Rightarrow> if is_invalid e then FailWith e else Refuse e
           | Inr None \<Rightarrow> NothingToSave
           | Inr (Some derived) \<Rightarrow>
               (case prepare T H now create J derived of
                  Inl e \<Rightarrow> FailWith e
                | Inr (next, bs) \<Rightarrow> SaveThis next bs)))"

definition commit ::
    "tclk \<Rightarrow> (bytes \<Rightarrow> string) \<Rightarrow> 's saver \<Rightarrow> int \<Rightarrow> derive \<Rightarrow> bool \<Rightarrow> journal \<Rightarrow> 's \<Rightarrow> unit flows \<times> journal \<times> 's" where
  "commit T H sv now derive create J s =
     (case plan T H now derive create J of
        NothingToSave \<Rightarrow> (Inr (), J, s)
      | Refuse e \<Rightarrow> (Inl e, J, s)
      | FailWith e \<Rightarrow> (Inl (fail_error J e), failJournal J e, s)
      | SaveThis next bs \<Rightarrow>
          (case sv s (jn_key J) bs (jn_digest J) of
             (Inl x, s') \<Rightarrow> (Inl (fail_error J (Rec (StoreThrew x))), failJournal J (Rec (StoreThrew x)), s')
           | (Inr _, s') \<Rightarrow> (Inr (), J\<lparr>jn_current := next, jn_digest := Some (H bs)\<rparr>, s')))"

definition derive_update :: "(flow_record \<Rightarrow> flow_record) \<Rightarrow> derive" where
  "derive_update f R = Inr (Some (f R))"

definition update :: "tclk \<Rightarrow> (bytes \<Rightarrow> string) \<Rightarrow> 's saver \<Rightarrow> int \<Rightarrow> (flow_record \<Rightarrow> flow_record) \<Rightarrow> journal \<Rightarrow> 's \<Rightarrow> unit flows \<times> journal \<times> 's" where
  "update T H sv now f J s = commit T H sv now (derive_update f) False J s"

text \<open>The method \<open>save\<close> of the journal.\<close>

definition save_next :: "tclk \<Rightarrow> (bytes \<Rightarrow> string) \<Rightarrow> 's saver \<Rightarrow> int \<Rightarrow> flow_record \<Rightarrow> journal \<Rightarrow> 's \<Rightarrow> unit flows \<times> journal \<times> 's" where
  "save_next T H sv now next J s = update T H sv now (\<lambda>_. next) J s"

section \<open>Starting and opening\<close>

text \<open>The create that both ways to begin end with.\<close>

definition create_journal ::
    "tclk \<Rightarrow> (bytes \<Rightarrow> string) \<Rightarrow> 's saver \<Rightarrow> int \<Rightarrow> string \<Rightarrow> flow_record \<Rightarrow> 's \<Rightarrow> journal flows \<times> 's" where
  "create_journal T H sv now did initial s =
     (case newJournal did initial None of
        Inl e \<Rightarrow> (Inl e, s)
      | Inr J \<Rightarrow>
          (case commit T H sv now (\<lambda>_. Inr (Some initial)) True J s of
             (Inl e, J', s') \<Rightarrow> (Inl e, s')
           | (Inr _, J', s') \<Rightarrow> (Inr J', s')))"

text \<open>The critical section of a Seller's begin: the scan, the building of the record and its
  create. \<open>build\<close> can throw.\<close>

definition beginSeller ::
    "tclk \<Rightarrow> (bytes \<Rightarrow> string) \<Rightarrow> ('s \<Rightarrow> (store_error, string list) result) \<Rightarrow> ('s \<Rightarrow> string \<Rightarrow> (store_error, bytes option) result)
      \<Rightarrow> 's saver \<Rightarrow> int \<Rightarrow> string \<Rightarrow> string \<Rightarrow> flow_record flows \<Rightarrow> 's \<Rightarrow> journal flows \<times> 's" where
  "beginSeller T H ls ld sv now did offerAText build s =
     (case rec_res (lift_store (ls s)) of
        Inl e \<Rightarrow> (Inl e, s)
      | Inr keys \<Rightarrow>
          (case findStoredSellerOffer T H (ld s) offerAText keys of
             Inl e \<Rightarrow> (Inl e, s)
           | Inr (Some existing) \<Rightarrow> (Inl (Rec (StoreThrew (FlowRecordExistsError existing))), s)
           | Inr None \<Rightarrow>
               (case build of
                  Inl e \<Rightarrow> (Inl e, s)
                | Inr initial \<Rightarrow> create_journal T H sv now did initial s)))"

definition begin_journal ::
    "tclk \<Rightarrow> (bytes \<Rightarrow> string) \<Rightarrow> ('s \<Rightarrow> (store_error, string list) result) \<Rightarrow> ('s \<Rightarrow> string \<Rightarrow> (store_error, bytes option) result)
      \<Rightarrow> 's saver \<Rightarrow> int \<Rightarrow> string \<Rightarrow> flow_record \<Rightarrow> 's \<Rightarrow> journal flows \<times> 's" where
  "begin_journal T H ls ld sv now did initial s =
     (case (initial, sf_offerA (fr_frames (rec_base initial))) of
        (SellerRecord b st, Some slot) \<Rightarrow> beginSeller T H ls ld sv now did (slot_text slot) (Inr initial) s
      | _ \<Rightarrow> create_journal T H sv now did initial s)"

definition open_journal ::
    "tclk \<Rightarrow> (bytes \<Rightarrow> string) \<Rightarrow> (string \<Rightarrow> (store_error, bytes option) result) \<Rightarrow> string \<Rightarrow> flow_role \<Rightarrow> string \<Rightarrow> journal flows" where
  "open_journal T H ld did role sid =
     bind_res (rec_res (loadFlowRecordWithDigest T H ld role sid)) (\<lambda>x.
       case x of
         None \<Rightarrow> (case flowKey role sid of
                    Inl e \<Rightarrow> Inl (Rec (StoreThrew e))
                  | Inr key \<Rightarrow> Inl (FlowNotFoundError key))
       | Some (R, d) \<Rightarrow> newJournal did R (Some d))"

section \<open>Posting a line\<close>

text \<open>A guard answers with the error it throws, if any. The options \<open>post\<close> and \<open>read\<close>
  replace the venue's functions, whose answers are arguments here.\<close>

record post_spec =
  ps_kind :: ledger_kind
  ps_room :: string
  ps_text :: string
  ps_digestOnly :: bool
  ps_guard :: "(transcript_record list \<Rightarrow> flow_error option) option"
  ps_slot :: "slot option"

definition ledgerText :: "(bytes \<Rightarrow> string) \<Rightarrow> post_spec \<Rightarrow> string" where
  "ledgerText H spec = (if ps_digestOnly spec then digestOfText H (ps_text spec) else ps_text spec)"

definition findOwn :: "tclk \<Rightarrow> string \<Rightarrow> transcript_record list \<Rightarrow> string \<Rightarrow> transcript_record option" where
  "findOwn T did records line =
     List.find (\<lambda>c. tr_sender c = did \<and> tr_line c = line \<and> verifyTranscriptRecord T c) records"

definition markAsRecord :: "ledger_entry \<Rightarrow> ledger_landed \<Rightarrow> string \<Rightarrow> transcript_record" where
  "markAsRecord e l sender =
     \<lparr>tr_room = en_room e, tr_seq = ld_seq l, tr_timestampMs = 0, tr_sender = sender, tr_nonce = ld_nonce l,
      tr_signature = None, tr_line = en_text e\<rparr>"

definition landedAnswer :: "tclk \<Rightarrow> journal \<Rightarrow> post_spec \<Rightarrow> transcript_record option flows" where
  "landedAnswer T J spec =
     (case ledgerEntry (jn_current J) (ps_kind spec) of
        None \<Rightarrow> Inr None
      | Some e \<Rightarrow>
          (case en_landed e of
             None \<Rightarrow> Inr None
           | Some l \<Rightarrow>
               let fromSlot = Option.bind (ps_slot spec) (\<lambda>n. Option.bind (slot_of (fr_frames (rec_base (jn_current J))) n) slot_record);
                   stored = (case fromSlot of
                               Some t \<Rightarrow> if tr_seq t = ld_seq l then Some t else ld_record l
                             | None \<Rightarrow> ld_record l)
               in (case stored of
                     Some t \<Rightarrow> if \<not> verifyTranscriptRecord T t then Inl (LandedNotAuthentic (jn_key J) (ps_kind spec)) else Inr (Some t)
                   | None \<Rightarrow> Inr (Some (markAsRecord e l (jn_did J))))))"

text \<open>What the intent save derives: the record with the entry, or nothing when it is there.\<close>

definition derive_intent :: "tclk \<Rightarrow> (bytes \<Rightarrow> string) \<Rightarrow> post_spec \<Rightarrow> derive" where
  "derive_intent T H spec R =
     bind_res (rec_res (withLedgerIntent T R (ps_kind spec) (ps_room spec) (ledgerText H spec))) (\<lambda>next.
       Inr (if ledgerEntry R (ps_kind spec) \<noteq> None then None else Some next))"

text \<open>\<open>markLanded\<close>: the mark on the entry and the record in the slot, in one save.\<close>

definition landed_mark :: "post_spec \<Rightarrow> transcript_record \<Rightarrow> ledger_landed" where
  "landed_mark spec t =
     \<lparr>ld_seq = tr_seq t, ld_nonce = tr_nonce t,
      ld_record = (if ps_slot spec = None \<and> \<not> ps_digestOnly spec then Some t else None)\<rparr>"

definition with_landed :: "post_spec \<Rightarrow> transcript_record \<Rightarrow> flow_record \<Rightarrow> flow_record" where
  "with_landed spec t R =
     (let marked = with_ledger R (set_landed (ps_kind spec) (landed_mark spec t) (fr_ledger (rec_base R)));
          b = rec_base marked
      in (case ps_slot spec of
            None \<Rightarrow> marked
          | Some n \<Rightarrow> with_base marked
              (b\<lparr>fr_frames := fill_slot (fr_frames b) n \<lparr>slot_text = ps_text spec, slot_record = Some t\<rparr>\<rparr>)))"

definition derive_landed :: "tclk \<Rightarrow> (bytes \<Rightarrow> string) \<Rightarrow> post_spec \<Rightarrow> transcript_record \<Rightarrow> bool \<Rightarrow> derive" where
  "derive_landed T H spec t ensureIntent R =
     bind_res (if ensureIntent then rec_res (withLedgerIntent T R (ps_kind spec) (ps_room spec) (ledgerText H spec)) else Inr R) (\<lambda>from.
     case ledgerEntry from (ps_kind spec) of
       None \<Rightarrow> Inl (Rec (FlowRecordConflictError (NoEntry (ps_kind spec))))
     | Some existing \<Rightarrow>
         let slotKnown = (case ps_slot spec of
                            None \<Rightarrow> True
                          | Some n \<Rightarrow> map_option tr_seq (Option.bind (slot_of (fr_frames (rec_base from)) n) slot_record) = Some (tr_seq t));
             same = (\<not> ensureIntent \<or> ledgerEntry R (ps_kind spec) \<noteq> None)
         in (case en_landed existing of
               Some l \<Rightarrow>
                 if ld_seq l \<noteq> tr_seq t \<or> ld_nonce l \<noteq> tr_nonce t
                 then Inl (Rec (FlowRecordConflictError (LandedAt (ps_kind spec) (ld_seq l) (tr_seq t))))
                 else Inr (if same \<and> slotKnown then None else Some (with_landed spec t from))
             | None \<Rightarrow> Inr (Some (with_landed spec t from))))"

definition markLanded ::
    "tclk \<Rightarrow> (bytes \<Rightarrow> string) \<Rightarrow> 's saver \<Rightarrow> int \<Rightarrow> post_spec \<Rightarrow> transcript_record \<Rightarrow> bool \<Rightarrow> journal \<Rightarrow> 's \<Rightarrow> unit flows \<times> journal \<times> 's" where
  "markLanded T H sv now spec t ensureIntent J s = commit T H sv now (derive_landed T H spec t ensureIntent) False J s"

definition adopt ::
    "tclk \<Rightarrow> (bytes \<Rightarrow> string) \<Rightarrow> 's saver \<Rightarrow> int \<Rightarrow> post_spec \<Rightarrow> transcript_record \<Rightarrow> journal \<Rightarrow> 's \<Rightarrow> unit flows \<times> journal \<times> 's" where
  "adopt T H sv now spec t J s = markLanded T H sv now spec t True J s"

text \<open>Where an attempt of \<open>ensurePosted\<close> stands. \<open>AfterIntent\<close> is the last check before
  the venue's \<open>post\<close>, \<open>AwaitPost\<close> the call of it.\<close>

datatype phase =
    AwaitRead bool
  | AwaitIntent
  | AfterIntent
  | AwaitPost
  | AwaitLanded transcript_record bool
  | Finished "transcript_record flows"

text \<open>The synchronous start of \<open>postOnce\<close>.\<close>

definition post_start :: "tclk \<Rightarrow> (bytes \<Rightarrow> string) \<Rightarrow> journal \<Rightarrow> post_spec \<Rightarrow> phase" where
  "post_start T H J spec =
     (case bind_res (assertUsable J) (\<lambda>_.
           bind_res (rec_res (withLedgerIntent T (jn_current J) (ps_kind spec) (ps_room spec) (ledgerText H spec))) (\<lambda>_.
             landedAnswer T J spec)) of
        Inl e \<Rightarrow> Finished (Inl e)
      | Inr (Some stored) \<Rightarrow> Finished (Inr stored)
      | Inr None \<Rightarrow>
          let isNew = (ledgerEntry (jn_current J) (ps_kind spec) = None)
          in if \<not> isNew \<or> ps_guard spec \<noteq> None then AwaitRead isNew else AwaitIntent)"

text \<open>The room has been read, or the read threw.\<close>

definition after_read :: "tclk \<Rightarrow> string \<Rightarrow> post_spec \<Rightarrow> bool \<Rightarrow> transcript_record list flows \<Rightarrow> phase" where
  "after_read T did spec isNew answer =
     (case answer of
        Inl e \<Rightarrow> Finished (Inl e)
      | Inr records \<Rightarrow>
          (case findOwn T did records (ps_text spec) of
             Some found \<Rightarrow> AwaitLanded found True
           | None \<Rightarrow>
               (case (case ps_guard spec of None \<Rightarrow> None | Some g \<Rightarrow> g records) of
                  Some e \<Rightarrow> Finished (Inl e)
                | None \<Rightarrow> if isNew then AwaitIntent else AfterIntent)))"

text \<open>The intent's turn of the queue.\<close>

definition intent_turn ::
    "tclk \<Rightarrow> (bytes \<Rightarrow> string) \<Rightarrow> 's saver \<Rightarrow> int \<Rightarrow> post_spec \<Rightarrow> journal \<Rightarrow> 's \<Rightarrow> phase \<times> journal \<times> 's" where
  "intent_turn T H sv now spec J s =
     (case commit T H sv now (derive_intent T H spec) False J s of
        (Inl e, J', s') \<Rightarrow> (Finished (Inl e), J', s')
      | (Inr _, J', s') \<Rightarrow> (AfterIntent, J', s'))"

definition before_post :: "journal \<Rightarrow> phase" where
  "before_post J = (case assertUsable J of Inl e \<Rightarrow> Finished (Inl e) | Inr _ \<Rightarrow> AwaitPost)"

definition after_post :: "transcript_record flows \<Rightarrow> phase" where
  "after_post answer = (case answer of Inl e \<Rightarrow> Finished (Inl e) | Inr t \<Rightarrow> AwaitLanded t False)"

definition landed_turn ::
    "tclk \<Rightarrow> (bytes \<Rightarrow> string) \<Rightarrow> 's saver \<Rightarrow> int \<Rightarrow> post_spec \<Rightarrow> transcript_record \<Rightarrow> bool \<Rightarrow> journal \<Rightarrow> 's \<Rightarrow> phase \<times> journal \<times> 's" where
  "landed_turn T H sv now spec t ensureIntent J s =
     (case markLanded T H sv now spec t ensureIntent J s of
        (Inl e, J', s') \<Rightarrow> (Finished (Inl e), J', s')
      | (Inr _, J', s') \<Rightarrow> (Finished (Inr t), J', s'))"

text \<open>The call of \<open>ensurePosted\<close>: a kind whose attempt is in flight shares it or is a
  conflict; otherwise an attempt starts.\<close>

datatype ensured = Conflict flow_error | Shared | Started phase

definition ensurePosted :: "tclk \<Rightarrow> (bytes \<Rightarrow> string) \<Rightarrow> journal \<Rightarrow> post_spec \<Rightarrow> ensured \<times> journal" where
  "ensurePosted T H J spec =
     (case map_of (jn_inflight J) (ps_kind spec) of
        Some (room, line) \<Rightarrow>
          (if room \<noteq> ps_room spec \<or> line \<noteq> ledgerText H spec then Conflict (InFlight (ps_kind spec)) else Shared, J)
      | None \<Rightarrow>
          (Started (post_start T H J spec), J\<lparr>jn_inflight := (ps_kind spec, ps_room spec, ledgerText H spec) # jn_inflight J\<rparr>))"

definition settle :: "ledger_kind \<Rightarrow> journal \<Rightarrow> journal" where
  "settle kind J = J\<lparr>jn_inflight := filter (\<lambda>(k, x). k \<noteq> kind) (jn_inflight J)\<rparr>"

definition isLanded :: "journal \<Rightarrow> ledger_kind \<Rightarrow> bool" where
  "isLanded J kind = ledgerLanded (jn_current J) kind"

definition hasEntry :: "journal \<Rightarrow> ledger_kind \<Rightarrow> bool" where
  "hasEntry J kind = (ledgerEntry (jn_current J) kind \<noteq> None)"

end
