(* ===== verification/Flow_Reader_Errors.thy ===== *)
theory Flow_Reader_Errors
  imports Flow_Record
begin

text \<open>
  The two sides of the strict reader of \<open>src/client/flow-record.ts\<close>. Reading stored bytes
  and checking a record about to be written run the same code; they answer the same record, and the
  errors differ in the class only: \<open>FlowStoreCorruptError\<close> on the read side,
  \<open>FlowRecordInvalidError\<close> on the write side. The relation \<open>twin\<close> has one rule per
  construct the reader is built from, so each method is one chain of introductions.
\<close>

named_theorems twin_intros \<open>a construct of the reader on both sides\<close>

fun on_read :: "record_error \<Rightarrow> record_error" where
  "on_read (FlowRecordInvalidError k f) = RecordCorrupt k f"
| "on_read e = e"

fun map_error :: "('e \<Rightarrow> 'e) \<Rightarrow> ('e, 'a) result \<Rightarrow> ('e, 'a) result" where
  "map_error f (Inl e) = Inl (f e)"
| "map_error f (Inr x) = Inr x"

fun write_side :: "record_error \<Rightarrow> bool" where
  "write_side (RecordCorrupt k f) = False"
| "write_side e = True"

definition twin :: "'a parsed \<Rightarrow> 'a parsed \<Rightarrow> bool" where
  "twin m m' \<longleftrightarrow> m' = map_error on_read m \<and> (\<forall>e. m = Inl e \<longrightarrow> write_side e)"

abbreviation writer :: "string \<Rightarrow> reader" where
  "writer key \<equiv> \<lparr>rd_key = key, rd_building = True\<rparr>"

abbreviation loader :: "string \<Rightarrow> reader" where
  "loader key \<equiv> \<lparr>rd_key = key, rd_building = False\<rparr>"

lemma twin_return [twin_intros]: "twin (Inr x) (Inr x)"
  by (simp add: twin_def)

lemma twin_fail [twin_intros]: "twin (fail (writer k) p w) (fail (loader k) p w)"
  by (simp add: twin_def fail_def)

lemma twin_fail_if [twin_intros]: "twin (fail_if (writer k) b p w) (fail_if (loader k) b p w)"
  by (simp add: fail_if_def twin_def fail_def)

lemma twin_other [twin_intros]: "twin (Inl (DealRoomThrew c)) (Inl (DealRoomThrew c))"
  "twin (Inl (FlowRecordVersionError k v)) (Inl (FlowRecordVersionError k v))"
  by (simp_all add: twin_def)

lemma twin_bind [twin_intros]:
  "twin m m' \<Longrightarrow> (\<And>a. twin (k a) (k' a)) \<Longrightarrow> twin (bind_res m k) (bind_res m' k')"
  by (cases m) (auto simp: twin_def)

lemma twin_if [twin_intros]:
  "(b \<Longrightarrow> twin m m') \<Longrightarrow> (\<not> b \<Longrightarrow> twin n n') \<Longrightarrow> twin (if b then m else n) (if b then m' else n')"
  by simp

lemma twin_option [twin_intros]:
  "twin m m' \<Longrightarrow> (\<And>a. twin (k a) (k' a)) \<Longrightarrow>
   twin (case x of None \<Rightarrow> m | Some a \<Rightarrow> k a) (case x of None \<Rightarrow> m' | Some a \<Rightarrow> k' a)"
  by (cases x) simp_all

lemma twin_pair [twin_intros]:
  "(\<And>a b. twin (k a b) (k' a b)) \<Longrightarrow> twin (case x of (a, b) \<Rightarrow> k a b) (case x of (a, b) \<Rightarrow> k' a b)"
  by (cases x) simp_all

lemma twin_object [twin_intros]: "twin (rd_object (writer k) v p a b) (rd_object (loader k) v p a b)"
  unfolding rd_object_def by (cases v) (auto intro!: twin_intros)

lemma twin_string_opt [twin_intros]:
  "twin (rd_string_opt (writer k) v p pat mx e) (rd_string_opt (loader k) v p pat mx e)"
  unfolding rd_string_opt_def by (cases v) (auto intro!: twin_intros)

lemma twin_string [twin_intros]:
  "twin (rd_string (writer k) v p) (rd_string (loader k) v p)"
  "twin (rd_pattern (writer k) v p pat) (rd_pattern (loader k) v p pat)"
  "twin (rd_short (writer k) v p mx) (rd_short (loader k) v p mx)"
  unfolding rd_string_def rd_pattern_def rd_short_def by (rule twin_string_opt)+

lemma twin_line [twin_intros]: "twin (rd_line (writer k) v p) (rd_line (loader k) v p)"
  unfolding rd_line_def by (intro twin_intros)

lemma twin_int [twin_intros]: "twin (rd_int (writer k) v p l) (rd_int (loader k) v p l)"
  unfolding rd_int_def by (intro twin_intros)

lemma twin_bool [twin_intros]: "twin (rd_bool (writer k) v p) (rd_bool (loader k) v p)"
  unfolding rd_bool_def by (cases v) (auto intro!: twin_intros)

lemma twin_array [twin_intros]: "twin (rd_array (writer k) v p mx) (rd_array (loader k) v p mx)"
  unfolding rd_array_def by (cases v) (auto intro!: twin_intros)

lemma twin_nullable [twin_intros]: "twin (rd_nullable (writer k) v p) (rd_nullable (loader k) v p)"
  unfolding rd_nullable_def by (intro twin_intros)

lemma twin_optional [twin_intros]:
  "(\<And>v p. twin (f v p) (f' v p)) \<Longrightarrow> twin (rd_optional ob n f p) (rd_optional ob n f' p)"
  unfolding rd_optional_def by (intro twin_intros)

lemma twin_flag [twin_intros]: "twin (rd_flag (writer k) ob n p) (rd_flag (loader k) ob n p)"
  unfolding rd_flag_def by (intro twin_intros)

lemma twin_each [twin_intros]:
  "(\<And>v p. twin (f v p) (f' v p)) \<Longrightarrow> twin (rd_each f p i xs) (rd_each f' p i xs)"
  by (induction xs arbitrary: i) (simp_all add: twin_intros)

lemma twin_or_null [twin_intros]:
  "(\<And>v p. twin (f v p) (f' v p)) \<Longrightarrow> twin (or_null f v p) (or_null f' v p)"
  unfolding or_null_def by (intro twin_intros)

lemma twin_parts [twin_intros]:
  "twin (rd_transcriptRecord (writer k) v p) (rd_transcriptRecord (loader k) v p)"
  "twin (rd_accounts (writer k) v p) (rd_accounts (loader k) v p)"
  "twin (rd_marker (writer k) v p) (rd_marker (loader k) v p)"
  "twin (rd_event (writer k) v p) (rd_event (loader k) v p)"
  "twin (rd_true (writer k) v p) (rd_true (loader k) v p)"
  "twin (rd_claimTx (writer k) v p) (rd_claimTx (loader k) v p)"
  "twin (rd_claimRecord (writer k) v p) (rd_claimRecord (loader k) v p)"
  "twin (rd_accountLine (writer k) v p) (rd_accountLine (loader k) v p)"
  "twin (rd_legB (writer k) v p) (rd_legB (loader k) v p)"
  unfolding rd_transcriptRecord_def rd_accounts_def rd_marker_def rd_event_def rd_true_def rd_claimTx_def
    rd_claimRecord_def rd_accountLine_def rd_legB_def
  by (intro twin_intros)+

lemma twin_slot [twin_intros]: "twin (rd_frameSlot (writer k) v p) (rd_frameSlot (loader k) v p)"
  unfolding rd_frameSlot_def by (intro twin_intros)

lemma twin_evidence [twin_intros]: "twin (rd_evidence (writer k) v p) (rd_evidence (loader k) v p)"
  unfolding rd_evidence_def by (intro twin_intros)

lemma twin_recovery [twin_intros]: "twin (rd_recovery (writer k) ok v p) (rd_recovery (loader k) ok v p)"
  unfolding rd_recovery_def Let_def by (cases v; simp only: jsval.case; intro twin_intros)

lemma twin_frames [twin_intros]: "twin (rd_frames (writer k) v p) (rd_frames (loader k) v p)"
  unfolding rd_frames_def by (intro twin_intros)

lemma twin_prepared [twin_intros]: "twin (rd_prepared (writer k) v p) (rd_prepared (loader k) v p)"
  unfolding rd_prepared_def by (intro twin_intros)

lemma twin_landed [twin_intros]:
  "twin (rd_landed (writer k) did d room line v p) (rd_landed (loader k) did d room line v p)"
  unfolding rd_landed_def by (intro twin_intros)

lemma twin_room [twin_intros]: "twin (rd_room T (writer k) n a b room p) (rd_room T (loader k) n a b room p)"
  unfolding rd_room_def by (intro twin_intros)

lemma twin_entry [twin_intros]:
  "twin (rd_ledger_entry T (writer k) role did a b seen v p) (rd_ledger_entry T (loader k) role did a b seen v p)"
  unfolding rd_ledger_entry_def by (intro twin_intros)

lemma twin_entries [twin_intros]:
  "twin (rd_entries T (writer k) role did a b p seen i xs) (rd_entries T (loader k) role did a b p seen i xs)"
  by (induction xs arbitrary: seen i) (simp_all add: twin_intros)

lemma twin_ledger [twin_intros]:
  "twin (parseLedger T (writer k) v p role did a b) (parseLedger T (loader k) v p role did a b)"
  unfolding parseLedger_def by (intro twin_intros)

lemma twin_base [twin_intros]: "twin (rd_base T (writer k) role ob) (rd_base T (loader k) role ob)"
  unfolding rd_base_def reader.simps by (intro twin_intros)

lemma twin_secret [twin_intros]: "twin (rd_secret T (writer k) ob) (rd_secret T (loader k) ob)"
  unfolding rd_secret_def by (intro twin_intros)

lemma twin_claim [twin_intros]: "twin (rd_claim (writer k) ob) (rd_claim (loader k) ob)"
  unfolding rd_claim_def by (intro twin_intros)

lemma twin_seller [twin_intros]: "twin (parseSeller T (writer k) ob c b) (parseSeller T (loader k) ob c b)"
  unfolding parseSeller_def by (intro twin_intros)

lemma twin_lock [twin_intros]: "twin (rd_lock (writer k) ob) (rd_lock (loader k) ob)"
  unfolding rd_lock_def Let_def by (intro twin_intros)

lemma twin_refund [twin_intros]: "twin (rd_refund (writer k) ob) (rd_refund (loader k) ob)"
  unfolding rd_refund_def Let_def by (intro twin_intros)

lemma twin_buyer [twin_intros]: "twin (rd_buyer (writer k) ob c b) (rd_buyer (loader k) ob c b)"
  unfolding rd_buyer_def by (intro twin_intros)

lemma twin_noPreimage [twin_intros]: "twin (noPreimageOf T (writer k) h v p) (noPreimageOf T (loader k) h v p)"
  unfolding noPreimageOf_def by (cases "secret_paths (holds_preimage T h) p v") (auto intro!: twin_intros)

lemma twin_parseBuyer [twin_intros]: "twin (parseBuyer T (writer k) ob c b) (parseBuyer T (loader k) ob c b)"
  unfolding parseBuyer_def by (intro twin_intros)

lemma twin_record: "twin (parseRecord T v k True) (parseRecord T v k False)"
proof -
  have r: "twin (case x of SellerRole \<Rightarrow> m | BuyerRole \<Rightarrow> n) (case x of SellerRole \<Rightarrow> m' | BuyerRole \<Rightarrow> n')"
    if "twin m m'" "twin n n'" for x and m m' n n' :: "flow_record parsed"
    using that by (cases x) simp_all
  show ?thesis
    unfolding parseRecord_def Let_def by (cases v; simp only: jsval.case; intro twin_intros r)
qed

lemma parse_sides: "parseRecord T v k False = map_error on_read (parseRecord T v k True)"
  using twin_record by (simp add: twin_def)

lemma parse_side_same: "parseRecord T v k False = Inr R \<longleftrightarrow> parseRecord T v k True = Inr R"
  unfolding parse_sides by (cases "parseRecord T v k True") simp_all

lemma written_error: "parseRecord T v k True = Inl e \<Longrightarrow> write_side e"
  using twin_record [of T v k] by (simp add: twin_def)

lemma read_error: "parseRecord T v k False = Inl e \<Longrightarrow> e \<noteq> FlowRecordInvalidError key f"
  unfolding parse_sides by (cases "parseRecord T v k True"; cases "projl (parseRecord T v k True)") auto

end
