(* ===== verification/Flow_Record_Properties.thy ===== *)
theory Flow_Record_Properties
  imports Flow_Reader_Errors
begin

text \<open>
  Properties of the persisted records of \<open>src/client/flow-record.ts\<close>: what was encoded is
  read back, what is read has the invariants of a record and belongs to its key, a failure names
  the side it is on, a Buyer's record never holds the secret, and the ledger never changes a text.
\<close>

section \<open>What a successful read guarantees\<close>

lemma rd_pattern_Inr: "rd_pattern r v p pat = Inr s \<Longrightarrow> pat s"
  by (auto simp: rd_pattern_def rd_string_opt_def result_simps fail_if_Inr_iff split: jsval.splits)

lemma rd_optional_pattern_Inr:
  "rd_optional ob k (\<lambda>v q. rd_pattern r v q pat) p = Inr x \<Longrightarrow> x = Some c \<Longrightarrow> pat c"
  by (auto simp: rd_optional_def result_simps split: option.splits dest: rd_pattern_Inr)

lemma rd_entry_Inr:
  assumes "rd_ledger_entry T r role did cA cB seen v p = Inr e"
  shows "en_kind e \<notin> set seen \<and> en_kind e \<in> set (allowed_kinds role) \<and> (digest_only role (en_kind e) \<longrightarrow> DIGEST_TEXT (en_text e))"
  using assms by (auto simp: rd_ledger_entry_def result_simps fail_if_Inr_iff split: option.splits)

lemma rd_entries_Inr:
  "rd_entries T r role did cA cB p seen i xs = Inr es \<Longrightarrow> ledger_ok role es \<and> en_kind ` set es \<inter> set seen = {}"
proof (induction xs arbitrary: seen i es)
  case (Cons x xs)
  then obtain e es' where e: "rd_ledger_entry T r role did cA cB seen x (p @ [Idx i]) = Inr e"
    and es: "rd_entries T r role did cA cB p (en_kind e # seen) (Suc i) xs = Inr es'" "es = e # es'"
    by (auto simp: result_simps)
  show ?case
    using Cons.IH [OF es(1)] rd_entry_Inr [OF e] es(2) by (auto simp: ledger_ok_def)
qed (simp add: ledger_ok_def)

lemma parseLedger_Inr: "parseLedger T r v p role did cA cB = Inr es \<Longrightarrow> ledger_ok role es"
  using rd_entries_Inr by (auto simp: parseLedger_def result_simps)

definition ensures :: "'a parsed \<Rightarrow> ('a \<Rightarrow> bool) \<Rightarrow> bool" where
  "ensures m P \<longleftrightarrow> (\<forall>y. m = Inr y \<longrightarrow> P y)"

lemma ensuresD: "ensures m P \<Longrightarrow> m = Inr y \<Longrightarrow> P y"
  by (simp add: ensures_def)

lemma ensures_bind: "ensures m Q \<Longrightarrow> (\<And>a. Q a \<Longrightarrow> ensures (k a) P) \<Longrightarrow> ensures (bind_res m k) P"
  by (auto simp: ensures_def bind_res_Inr_iff)

lemma ensures_skip: "(\<And>a. ensures (k a) P) \<Longrightarrow> ensures (bind_res m k) P"
  by (auto simp: ensures_def bind_res_Inr_iff)

lemma ensures_return: "P x \<Longrightarrow> ensures (Inr x) P"
  by (simp add: ensures_def)

lemma ensures_pattern: "ensures (rd_pattern r v p pat) pat"
  using rd_pattern_Inr by (auto simp: ensures_def)

lemma ensures_optional_pattern:
  "ensures (rd_optional ob k (\<lambda>v q. rd_pattern r v q pat) p) (\<lambda>x. \<forall>c. x = Some c \<longrightarrow> pat c)"
  using rd_optional_pattern_Inr by (fastforce simp: ensures_def)

lemma ensures_ledger: "ensures (parseLedger T r v p role did cA cB) (ledger_ok role)"
  using parseLedger_Inr by (auto simp: ensures_def)

lemma rd_base_ensures:
  "ensures (rd_base T r role ob) (\<lambda>(cA, b). hex32 (fr_swapId b) \<and> ledger_ok role (fr_ledger b) \<and> (\<forall>c. cA = Some c \<longrightarrow> hex32 c))"
  unfolding rd_base_def
  by ((rule ensures_bind, rule ensures_pattern ensures_optional_pattern ensures_ledger | rule ensures_skip)+,
      rule ensures_return) simp

lemma rd_base_Inr:
  assumes "rd_base T r role ob = Inr (cA, b)"
  shows "hex32 (fr_swapId b) \<and> ledger_ok role (fr_ledger b) \<and> (\<forall>c. cA = Some c \<longrightarrow> hex32 c)"
  using ensuresD [OF rd_base_ensures assms] by simp

lemma parseSeller_ensures:
  "ensures (parseSeller T r ob c b)
     (\<lambda>R. \<exists>s. R = SellerRecord b s \<and> ss_contractA s = c \<and> verifyHashPreimage T (ss_statement s) (ss_preimage s))"
proof -
  have s: "ensures (rd_secret T r ob) (\<lambda>(preimage, statement). verifyHashPreimage T statement preimage)"
    by (auto simp: ensures_def rd_secret_def result_simps fail_if_Inr_iff)
  show ?thesis
    unfolding parseSeller_def
    by (rule ensures_bind [OF s], simp only: split_paired_all prod.case, (rule ensures_skip)+, rule ensures_return) simp
qed

lemma parseSeller_Inr:
  "parseSeller T r ob c b = Inr R \<Longrightarrow>
   \<exists>s. R = SellerRecord b s \<and> ss_contractA s = c \<and> verifyHashPreimage T (ss_statement s) (ss_preimage s)"
  by (rule ensuresD [OF parseSeller_ensures])

lemma rd_buyer_Inr: "rd_buyer r ob c b = Inr R \<Longrightarrow> \<exists>s. R = BuyerRecord b s \<and> bs_contractA s = c"
proof -
  have "ensures (rd_buyer r ob c b) (\<lambda>R. \<exists>s. R = BuyerRecord b s \<and> bs_contractA s = c)"
    unfolding rd_buyer_def by ((rule ensures_skip)+, rule ensures_return) simp
  then show "rd_buyer r ob c b = Inr R \<Longrightarrow> \<exists>s. R = BuyerRecord b s \<and> bs_contractA s = c"
    by (rule ensuresD)
qed

lemma parseRecord_ok: "parseRecord T v key building = Inr R \<Longrightarrow> record_ok T R"
proof -
  assume p: "parseRecord T v key building = Inr R"
  then obtain kvs role where v: "v = Obj kvs" and role: "role_field (field_of kvs ''role'') = Some role"
    by (auto simp: parseRecord_def Let_def split: jsval.splits option.splits)
  show ?thesis
  proof (cases role)
    case SellerRole
    then obtain ob c b where b: "rd_base T \<lparr>rd_key = key, rd_building = building\<rparr> SellerRole ob = Inr (Some c, b)"
      and s: "parseSeller T \<lparr>rd_key = key, rd_building = building\<rparr> ob c b = Inr R"
      using p v role by (auto simp: parseRecord_def Let_def bind_res_Inr_iff split: option.splits prod.splits)
    show ?thesis using rd_base_Inr [OF b] parseSeller_Inr [OF s] by auto
  next
    case BuyerRole
    then obtain ob c b where b: "rd_base T \<lparr>rd_key = key, rd_building = building\<rparr> BuyerRole ob = Inr (c, b)"
      and s: "parseBuyer T \<lparr>rd_key = key, rd_building = building\<rparr> ob c b = Inr R"
      using p v role by (auto simp: parseRecord_def Let_def bind_res_Inr_iff split: prod.splits)
    obtain s' where r: "R = BuyerRecord b s'"
      using s rd_buyer_Inr by (fastforce simp: parseBuyer_def bind_res_Inr_iff)
    then have "case bl_hashLock (bs_lock s') of None \<Rightarrow> True
        | Some h \<Rightarrow> secret_paths (holds_preimage T h) ROOT (record_json R) = []"
      using s by (auto simp: parseBuyer_def bind_res_Inr_iff noPreimageOf_def split: option.splits list.splits)
    then show ?thesis using rd_base_Inr [OF b] r by auto
  qed
qed

lemma check_key_Inr:
  assumes "check_key key R = Inr u" "key \<noteq> NO_KEY"
  shows "recordKey R = Inr key"
proof -
  obtain role sid where k: "parseFlowKey key = Inr (role, sid)"
    using assms by (auto simp: check_key_def lift_store_def bind_res_Inr_iff split: sum.splits)
  have "role = rec_role R" "case R of SellerRecord b s \<Rightarrow> sid = ss_contractA s | BuyerRecord b s \<Rightarrow> sid = fr_swapId b"
    using assms k by (auto simp: check_key_def lift_store_def result_simps split: if_splits flow_record.splits)
  then show ?thesis
    using flowKey_parse [OF k] by (cases R) (auto simp: lift_store_def)
qed

lemma decode_Inr:
  assumes "decodeFlowRecord T H bs key = Inr R"
  shows "record_ok T R \<and> (key \<noteq> NO_KEY \<longrightarrow> recordKey R = Inr key)"
proof -
  have p: "ensures (parseRecord T v key False) (record_ok T)" for v
    using parseRecord_ok by (auto simp: ensures_def)
  have c: "ensures (check_key key R) (\<lambda>_. key \<noteq> NO_KEY \<longrightarrow> recordKey R = Inr key)" for R
    using check_key_Inr by (auto simp: ensures_def)
  have "ensures (decodeFlowRecord T H bs key) (\<lambda>R. record_ok T R \<and> (key \<noteq> NO_KEY \<longrightarrow> recordKey R = Inr key))"
    unfolding decodeFlowRecord_def Let_def
    by (rule ensures_skip, rule ensures_skip, rule ensures_skip, rule ensures_skip, rule ensures_skip, rule ensures_skip,
        rule ensures_bind [OF p], rule ensures_bind [OF c], rule ensures_return) simp
  then show ?thesis using assms by (rule ensuresD)
qed

section \<open>Reading back\<close>

lemma recordKey_ok: "record_ok T R \<Longrightarrow> \<exists>key. recordKey R = Inr key"
  by (cases R) (auto simp: flowKey_def KEY_ID_SHAPE_def lift_store_def Let_def)

lemma plain_hex: "SHA256_HEX s \<Longrightarrow> string_text s = QUOTE # s @ [QUOTE]"
proof -
  have q: "quote_char c = [c]" if c: "c \<in> set lower_hex" for c
  proof -
    have "map_of short_escapes c = None" "\<not> (of_char c :: nat) < 32"
      using c by (auto simp: lower_hex_def short_escapes_def)
    then show ?thesis by (simp add: quote_char_def)
  qed
  assume "SHA256_HEX s"
  then have "c \<in> set lower_hex" if "c \<in> set s" for c
    using that by (auto simp: SHA256_HEX_def run_of_def only_def list_all_iff)
  then have "concat (map quote_char s) = s" by (induction s) (auto simp: q)
  then show ?thesis by (simp add: string_text_def)
qed

lemma record_text_members:
  assumes "SHA256_HEX (sha256Hex H (canonical v))"
  shows "record_text H (canonical v) =
    CHR ''{'' # join_with (CHR '','')
      (map (member_text canonical) [(''v'', int_jsval 1), (''sum'', Str (sha256Hex H (canonical v))), (''record'', v)]) @ ''}''"
proof -
  have n: "string_text ''v'' = QUOTE # ''v'' @ [QUOTE]" "string_text ''sum'' = QUOTE # ''sum'' @ [QUOTE]"
    "string_text ''record'' = QUOTE # ''record'' @ [QUOTE]"
    by (simp_all add: string_text_def quote_char_def short_escapes_def)
  have one: "canonical (int_jsval 1) = ''1''"
    by (simp add: int_jsval_def number_text_def int_jsnum_def safe_int_of_def max_safe_def show_int_def
        jsnum_int_def show_nat.simps digit_char_def digits_def)
  have "string_text (sha256Hex H (canonical v)) = QUOTE # sha256Hex H (canonical v) @ [QUOTE]"
    using assms by (rule plain_hex)
  then show ?thesis
    by (simp add: record_text_def n one)
qed

lemma envelope_fields_record [simp]:
  "envelope_fields key (Obj [(''v'', int_jsval 1), (''sum'', Str d), (''record'', v)]) =
     Inr [(''v'', int_jsval 1), (''sum'', Str d), (''record'', v)]"
  by (simp add: envelope_fields_def field_of_def has_def)

lemma inner_version_own: "inner_version key (record_json R) = Inr ()"
proof -
  have "field_of (present (record_fields R)) ''v'' = int_jsval 1"
    by (cases R) (simp_all add: lookup_simps)
  then show ?thesis by (simp add: inner_version_def record_json_def obj_def)
qed

lemma describeKey_own: "recordKey R = Inr key \<Longrightarrow> describeKey R = key"
  by (simp add: describeKey_def)

lemma check_key_own: "recordKey R = Inr key \<Longrightarrow> check_key key R = Inr ()"
  by (cases R) (auto simp: check_key_def lift_store_def dest!: parse_flowKey split: sum.splits)

lemma encode_decode:
  assumes e: "encodeFlowRecord T H R = Inr bs" and h: "\<And>b. SHA256_HEX (H b)" and k: "recordKey R = Inr key"
  shows "decodeFlowRecord T H bs key = Inr R"
proof -
  define v where "v = record_json R"
  define d where "d = sha256Hex H (canonical v)"
  obtain R' where p: "parseRecord T v key True = Inr R'"
    and bs: "bs = utf8 (record_text H (canonical v))" and len: "length bs \<le> MAX_FLOW_RECORD_BYTES"
    using e describeKey_own [OF k] by (auto simp: encodeFlowRecord_def Let_def v_def bind_res_Inr_iff split: if_splits)
  have wf: "wf_json v" and R': "R' = R" using parse_own p unfolding v_def by blast+
  have parsed: "json_parse (record_text H (canonical v)) = Some (Obj [(''v'', int_jsval 1), (''sum'', Str d), (''record'', v)])"
    unfolding record_text_members [OF h [of "utf8 (canonical v)", folded sha256Hex_def]] d_def
    by (rule json_parse_members) (use wf wf_strings in auto)
  have "parseRecord T v key False = Inr R" using p R' parse_side_same by blast
  then show ?thesis
    using parsed len bs inner_version_own [of key R, folded v_def] check_key_own [OF k] d_def
    by (simp add: decodeFlowRecord_def Let_def field_of_def)
qed


section \<open>The secret\<close>

text \<open>Every string of a JSON value.\<close>

function strings_in :: "jsval \<Rightarrow> string list" where
  "strings_in (Str s) = [s]"
| "strings_in (Arr xs) = concat (map strings_in xs)"
| "strings_in (Obj ob) = concat (map (\<lambda>(k, x). strings_in x) ob)"
| "strings_in Undefined = []"
| "strings_in Null = []"
| "strings_in (Bool b) = []"
| "strings_in (Num n) = []"
  by pat_completeness auto
termination
proof (relation "measure size", goal_cases)
  case 1
  then show ?case by simp
next
  case (2 xs z)
  then show ?case by (induction xs) auto
next
  case (3 ob z k x)
  then show ?case by (induction ob) auto
qed

lemma secret_paths_all: "secret_paths bad p v = [] \<Longrightarrow> s \<in> set (strings_in v) \<Longrightarrow> \<not> bad s"
proof (induction v arbitrary: p)
  case (Arr xs)
  then obtain x where "x \<in> set xs" "s \<in> set (strings_in x)" by auto
  then obtain i where i: "i < length xs" "s \<in> set (strings_in (xs ! i))" by (metis in_set_conv_nth)
  then have "(i, xs ! i) \<in> set (zip [0..<length xs] xs)" by (force simp: set_zip)
  then have "secret_paths bad (p @ [Idx i]) (xs ! i) = []" using Arr.prems(1) by fastforce
  then show ?case using Arr.IH i by (meson nth_mem)
next
  case (Obj ob)
  then obtain k x where x: "(k, x) \<in> set ob" "s \<in> set (strings_in x)" by auto
  then have "secret_paths bad (p @ [Fld k]) x = []" using Obj.prems(1) by fastforce
  then show ?case using Obj.IH x by (auto simp: snds.simps)
qed (auto split: if_splits)

lemma mask_clean:
  assumes "secret \<noteq> []" "\<not> contains REDACTED secret"
  shows "\<not> contains (mask secret s) secret"
  using assms by (simp add: mask_def)

text \<open>The strings of a Seller's record that the code puts the secret in: the preimage, the texts
  and lines of the ledger, the bytes of a recorded claim.\<close>

fun exposed_strings :: "flow_record \<Rightarrow> string list" where
  "exposed_strings (BuyerRecord b s) = []"
| "exposed_strings (SellerRecord b s) =
     ss_preimage s # map en_text (fr_ledger b)
       @ List.map_filter (\<lambda>e. Option.bind (en_landed e) (\<lambda>l. map_option tr_line (ld_record l))) (fr_ledger b)
       @ (case ss_claimTx s of None \<Rightarrow> [] | Some c \<Rightarrow> [ct_rawTx c])"

lemma contains_length: "contains s part \<Longrightarrow> length part \<le> length s"
  by (auto simp: contains_def dest: arg_cong [of _ _ length])

lemma redact_clean:
  assumes "hex32 (ss_preimage s)" and "x \<in> set (exposed_strings (redactFlowRecord (SellerRecord b s)))"
  shows "\<not> contains x (strip_0x (ss_preimage s))"
proof -
  let ?secret = "strip_0x (ss_preimage s)"
  have l: "length ?secret = 64" using assms(1) by (simp add: strip_0x_def hex32_def)
  then have ne: "?secret \<noteq> []" by auto
  have r: "\<not> contains REDACTED ?secret" using contains_length [of REDACTED ?secret] l by (auto simp: REDACTED_def)
  note clean = mask_clean [OF ne r]
  show ?thesis
    using assms(2) r clean
    by (auto simp: Let_def redact_entry_def map_filter_def bind_eq_Some_conv split: option.splits if_splits)
qed

section \<open>The properties\<close>

definition demo_flow_record :: flow_record where
  "demo_flow_record =
     BuyerRecord
       \<lparr>fr_swapId = id32 (CHR ''1''), fr_did = ''did:key:z1'', fr_railId = ''evm'', fr_caip2 = ''eip155:1'',
        fr_deploymentId = ''rail:evm'', fr_createdAtMs = 5, fr_updatedAtMs = 7, fr_revision = 2,
        fr_frames = \<lparr>sf_offerA = Some \<lparr>slot_text = ''tclk1 offer'', slot_record = None\<rparr>, sf_acceptA = None, sf_offerB = None, sf_acceptB = None\<rparr>,
        fr_contractB = None, fr_lockTimeMs = Some 9, fr_legB = None,
        fr_ledger = [\<lparr>en_kind = OfferA, en_room = ''tclk-offers'', en_text = ''tclk1 offer'', en_landed = None\<rparr>]\<rparr>
       \<lparr>bs_contractA = None, bs_legBVerified = False, bs_ownAccountLine = None,
        bs_lock = \<lparr>bl_attempted = True, bl_prepared = None, bl_fromBlock = None, bl_accounts = None,
          bl_hashLock = Some (id32 (CHR ''e'')), bl_evidence = None, bl_framePosted = False, bl_neverLanded = False\<rparr>,
        bs_legBClaimAttempted = False, bs_legBClaimed = False, bs_legBClaimAdopted = False,
        bs_refund = \<lparr>br_attempted = False, br_recovery = None, br_evidence = None, br_framesPosted = False, br_claimSeen = False\<rparr>,
        bs_refundNotes = []\<rparr>"

definition demo_flow_key :: string where
  "demo_flow_key = ''buyer:'' @ id32 (CHR ''1'')"

lemma demo_hash_hex: "SHA256_HEX (demo_hash b)"
  by (simp add: demo_hash_def SHA256_HEX_def run_of_def lower_hex_def)

lemma demo_flow_recordKey: "recordKey demo_flow_record = Inr demo_flow_key"
  by (simp add: demo_flow_record_def demo_flow_key_def flowKey_def KEY_ID_SHAPE_def hex32_def id32_def lower_hex_def
      lift_store_def Let_def)

lemma length_utf8: "length (utf8 s) \<le> 2 * length s"
  by (induction s) (auto simp: utf8_def utf8_char_def Let_def)

lemma demo_parses: "parseRecord demo_tclk (record_json demo_flow_record) demo_flow_key True \<noteq> Inl e"
  by code_simp

lemma demo_text_length: "length (canonical (record_json demo_flow_record)) < 1500"
  by code_simp

lemma demo_encodes: "\<exists>bs. encodeFlowRecord demo_tclk demo_hash demo_flow_record = Inr bs"
proof -
  obtain R where p: "parseRecord demo_tclk (record_json demo_flow_record) demo_flow_key True = Inr R"
    using demo_parses by (meson obj_sumE)
  let ?t = "record_text demo_hash (canonical (record_json demo_flow_record))"
  have "length ?t < 1700"
    using demo_text_length by (simp add: record_text_def sha256Hex_def demo_hash_def)
  then have "length (utf8 ?t) < 3400" using length_utf8 [of ?t] by linarith
  then have "\<not> MAX_FLOW_RECORD_BYTES < length (utf8 ?t)" by (simp add: MAX_FLOW_RECORD_BYTES_def)
  moreover have "describeKey demo_flow_record = demo_flow_key" by (rule describeKey_own [OF demo_flow_recordKey])
  ultimately show ?thesis using p by (simp add: encodeFlowRecord_def Let_def)
qed

text \<open>C35. What \<open>encodeFlowRecord\<close> wrote, \<open>decodeFlowRecord\<close> reads back: the bytes
  of a record decode, under the record's own key, to that very record.\<close>

theorem record_roundtrip:
  assumes "encodeFlowRecord T H R = Inr bs" "\<forall>b. SHA256_HEX (H b)" "recordKey R = Inr key"
  shows "decodeFlowRecord T H bs key = Inr R"
  using encode_decode assms by blast

theorem record_roundtrip_witness:
  "\<exists>bs. encodeFlowRecord demo_tclk demo_hash demo_flow_record = Inr bs \<and>
     decodeFlowRecord demo_tclk demo_hash bs demo_flow_key = Inr demo_flow_record"
proof -
  obtain bs where "encodeFlowRecord demo_tclk demo_hash demo_flow_record = Inr bs" using demo_encodes by blast
  then show ?thesis
    using record_roundtrip [of demo_tclk demo_hash demo_flow_record bs demo_flow_key] demo_hash_hex demo_flow_recordKey by blast
qed

lemma demo_decodes:
  "\<exists>bs. decodeFlowRecord demo_tclk demo_hash bs demo_flow_key = Inr demo_flow_record"
  using encode_decode demo_encodes demo_hash_hex demo_flow_recordKey by blast

text \<open>C37. A record that loads is the record of the key it was loaded under, and it is well formed: at most
  one ledger entry per kind, only kinds its role posts, a Buyer's reveal of leg B as a digest only, and
  a Seller's preimage that opens its statement.\<close>

theorem decoded_record_well_formed:
  assumes "decodeFlowRecord T H bs key = Inr R" "key \<noteq> NO_KEY"
  shows "recordKey R = Inr key \<and> record_ok T R"
  using decode_Inr assms by blast

theorem decoded_record_well_formed_witness:
  "recordKey demo_flow_record = Inr demo_flow_key \<and> record_ok demo_tclk demo_flow_record"
proof -
  obtain bs where "decodeFlowRecord demo_tclk demo_hash bs demo_flow_key = Inr demo_flow_record"
    using demo_decodes by blast
  then show ?thesis
    by (rule decoded_record_well_formed) (simp add: demo_flow_key_def NO_KEY_def)
qed

text \<open>C36. A Buyer's record never holds the swap's secret: once the record names the lock's hash, no string
  anywhere in a record that loads contains a run of 64 hex digits that opens it.\<close>

theorem buyer_record_holds_no_secret:
  assumes "decodeFlowRecord T H bs key = Inr (BuyerRecord b s)" "bl_hashLock (bs_lock s) = Some h"
    and "x \<in> set (strings_in (record_json (BuyerRecord b s)))"
  shows "\<not> holds_preimage T h x"
proof -
  have "secret_paths (holds_preimage T h) ROOT (record_json (BuyerRecord b s)) = []"
    using decode_Inr [OF assms(1)] assms(2) by simp
  then show ?thesis using secret_paths_all assms(3) by blast
qed

theorem buyer_record_holds_no_secret_witness:
  "\<exists>bs. decodeFlowRecord demo_tclk demo_hash bs demo_flow_key = Inr demo_flow_record \<and>
     \<not> holds_preimage demo_tclk (id32 (CHR ''e'')) ''tclk1 offer''"
proof -
  obtain bs where d: "decodeFlowRecord demo_tclk demo_hash bs demo_flow_key = Inr demo_flow_record"
    using demo_decodes by blast
  have "''tclk1 offer'' \<in> set (strings_in (record_json demo_flow_record))"
    by (simp add: demo_flow_record_def record_json_def obj_def present.simps opt_str_def entry_json_def)
  moreover obtain b s where r: "demo_flow_record = BuyerRecord b s" "bl_hashLock (bs_lock s) = Some (id32 (CHR ''e''))"
    by (simp add: demo_flow_record_def)
  ultimately have "\<not> holds_preimage demo_tclk (id32 (CHR ''e'')) ''tclk1 offer''"
    using buyer_record_holds_no_secret [of demo_tclk demo_hash bs demo_flow_key b s] d by metis
  then show ?thesis using d by blast
qed

text \<open>An error says which side failed: loading stored bytes never blames the caller's record
  (\<open>FlowRecordInvalidError\<close>), and refusing to write a record never calls the store corrupt
  (\<open>FlowStoreCorruptError\<close>).\<close>

theorem record_errors_name_their_side:
  "decodeFlowRecord T H bs key \<noteq> Inl (FlowRecordInvalidError k f) \<and>
   encodeFlowRecord T H R \<noteq> Inl (RecordCorrupt k f)"
proof
  have lift: "lift_store x \<noteq> Inl (FlowRecordInvalidError k f)" for x :: "(store_error, 'x) result"
    by (cases x) (simp_all add: lift_store_def)
  have c: "check_key key R' \<noteq> Inl (FlowRecordInvalidError k f)" for R'
    using lift by (auto simp: check_key_def bind_res_Inl_iff throw_if_Inl_iff split: if_splits flow_record.splits)
  have e: "envelope_fields key v \<noteq> Inl (FlowRecordInvalidError k f)" for v
    by (simp add: envelope_fields_def split: jsval.splits)
  have i: "inner_version key v \<noteq> Inl (FlowRecordInvalidError k f)" for v
    by (auto simp: inner_version_def throw_if_Inl_iff split: jsval.splits)
  have p: "parseRecord T v key False \<noteq> Inl (FlowRecordInvalidError k f)" for v
    using read_error by blast
  show "decodeFlowRecord T H bs key \<noteq> Inl (FlowRecordInvalidError k f)"
    unfolding decodeFlowRecord_def Let_def
    using c e i p by (auto simp: bind_res_Inl_iff throw_if_Inl_iff or_throw_Inl_iff)
  show "encodeFlowRecord T H R \<noteq> Inl (RecordCorrupt k f)"
    using written_error [of T "record_json R" "describeKey R" "RecordCorrupt k f"]
    by (auto simp: encodeFlowRecord_def Let_def bind_res_Inl_iff)
qed

text \<open>The redacted form shows the secret nowhere the code puts it: not in the preimage field, not in the
  text or the venue line of a ledger entry, not in the bytes of a recorded claim.\<close>

theorem redacted_record_hides_secret:
  assumes "hex32 (ss_preimage s)" "x \<in> set (exposed_strings (redactFlowRecord (SellerRecord b s)))"
  shows "\<not> contains x (strip_0x (ss_preimage s))"
  using redact_clean assms by blast

theorem redacted_record_hides_secret_witness:
  "\<exists>(b :: flow_base) (s :: seller_state). \<not> contains REDACTED (strip_0x (ss_preimage s)) \<and> contains (en_text (hd (fr_ledger b))) (strip_0x (ss_preimage s))"
proof -
  define s where "s = (undefined :: seller_state)\<lparr>ss_preimage := id32 (CHR ''f''), ss_claimTx := None\<rparr>"
  define b where "b = (undefined :: flow_base)\<lparr>fr_ledger := [\<lparr>en_kind = RevealA, en_room = [], en_text = ''reveal '' @ id32 (CHR ''f''), en_landed = None\<rparr>]\<rparr>"
  have p: "ss_preimage s = id32 (CHR ''f'')" by (simp add: s_def)
  have "hex32 (ss_preimage s)" by (simp add: p hex32_def id32_def lower_hex_def)
  then have "\<not> contains REDACTED (strip_0x (ss_preimage s))"
    by (rule redacted_record_hides_secret [where b = b]) (simp add: Let_def)
  moreover have "contains (en_text (hd (fr_ledger b))) (strip_0x (ss_preimage s))"
    unfolding contains_def by (rule bexI [of _ 9]) (simp_all add: b_def p strip_0x_def id32_def numeral_eq_Suc)
  ultimately show ?thesis by blast
qed

end
