(* ===== verification/Flow_Disk.thy ===== *)
theory Flow_Disk
  imports Flow_Store
begin

text \<open>
  The file system under the file store of \<open>src/client/flow-store.ts\<close>, as far as its
  calls of \<open>node:fs\<close> rely on it, and actions that call it. A directory entry names an
  inode; \<open>fsync\<close> of a file makes its bytes durable, \<open>fsync\<close> of the directory
  makes its entries durable, and a power cut leaves for every name one of the entries it had since
  the directory was last synced, and arbitrary bytes in files that were not synced. An action
  returns, throws or dies with the process; which of its system calls fail, are cut short or are the
  last one is a script that the theorems quantify over.
\<close>

section \<open>The disk\<close>

record disk =
  dk_made :: bool
  dk_madeDurable :: bool
  dk_names :: "string list"
  dk_dir :: "string \<Rightarrow> nat option"
  dk_durable :: "string \<Rightarrow> nat option list"
  dk_data :: "nat \<Rightarrow> bytes"
  dk_synced :: "nat \<Rightarrow> bool"
  dk_next :: nat

definition empty_disk :: disk where
  "empty_disk = \<lparr>dk_made = False, dk_madeDurable = False, dk_names = [], dk_dir = (\<lambda>_. None), dk_durable = (\<lambda>_. [None]),
     dk_data = (\<lambda>_. []), dk_synced = (\<lambda>_. True), dk_next = 0\<rparr>"

definition set_entry :: "disk \<Rightarrow> string \<Rightarrow> nat option \<Rightarrow> disk" where
  "set_entry d n x =
     d\<lparr>dk_dir := (dk_dir d)(n := x), dk_durable := (dk_durable d)(n := dk_durable d n @ [x]),
       dk_names := (if n \<in> set (dk_names d) then dk_names d else dk_names d @ [n])\<rparr>"

definition file_at :: "disk \<Rightarrow> string \<Rightarrow> bytes option" where
  "file_at d n = map_option (dk_data d) (dk_dir d n)"

text \<open>The system calls: an error code, or a value and the new disk.\<close>

type_synonym 'a syscall = "disk \<Rightarrow> (errno, 'a \<times> disk) result"

definition k_mkdir :: "unit syscall" where
  "k_mkdir d = Inr ((), d\<lparr>dk_made := True\<rparr>)"

text \<open>\<open>open(name, "wx")\<close>: the inode of the new empty file.\<close>

definition k_create :: "string \<Rightarrow> nat syscall" where
  "k_create n d =
     (if \<not> dk_made d then Inl ENOENT
      else if dk_dir d n \<noteq> None then Inl EEXIST
      else let i = dk_next d
           in Inr (i, (set_entry d n (Some i))\<lparr>dk_data := (dk_data d)(i := []), dk_synced := (dk_synced d)(i := False),
                dk_next := Suc i\<rparr>))"

definition k_put :: "nat \<Rightarrow> bytes \<Rightarrow> disk \<Rightarrow> disk" where
  "k_put i bs d = d\<lparr>dk_data := (dk_data d)(i := bs), dk_synced := (dk_synced d)(i := False)\<rparr>"

definition k_fsync :: "nat \<Rightarrow> unit syscall" where
  "k_fsync i d = Inr ((), d\<lparr>dk_synced := (dk_synced d)(i := True)\<rparr>)"

definition k_open :: "string \<Rightarrow> nat syscall" where
  "k_open n d = (case dk_dir d n of None \<Rightarrow> Inl ENOENT | Some i \<Rightarrow> Inr (i, d))"

definition k_read :: "string \<Rightarrow> bytes syscall" where
  "k_read n d = (case file_at d n of None \<Rightarrow> Inl ENOENT | Some bs \<Rightarrow> Inr (bs, d))"

definition k_stat :: "string \<Rightarrow> unit syscall" where
  "k_stat n d = (if dk_dir d n = None then Inl ENOENT else Inr ((), d))"

text \<open>\<open>rm\<close> with \<open>force\<close>: no error when the file is missing.\<close>

definition k_rm :: "string \<Rightarrow> unit syscall" where
  "k_rm n d = Inr ((), if dk_dir d n = None then d else set_entry d n None)"

definition k_rename :: "string \<Rightarrow> string \<Rightarrow> unit syscall" where
  "k_rename a b d =
     (case dk_dir d a of None \<Rightarrow> Inl ENOENT | Some i \<Rightarrow> Inr ((), set_entry (set_entry d b (Some i)) a None))"

definition k_readdir :: "string list syscall" where
  "k_readdir d = (if dk_made d then Inr (filter (\<lambda>n. dk_dir d n \<noteq> None) (dk_names d), d) else Inl ENOENT)"

definition k_opendir :: "unit syscall" where
  "k_opendir d = (if dk_made d then Inr ((), d) else Inl ENOENT)"

definition k_syncdir :: "unit syscall" where
  "k_syncdir d = Inr ((), d\<lparr>dk_durable := (\<lambda>n. [dk_dir d n])\<rparr>)"

definition k_nothing :: "unit syscall" where
  "k_nothing d = Inr ((), d)"

section \<open>A power cut\<close>

text \<open>\<open>choice\<close> picks the entry that survives for a name, \<open>noise\<close> the bytes of an
  unsynced file, \<open>keep\<close> whether a directory survives whose own creation was never made
  durable (the store does not sync the parent).\<close>

definition pick :: "nat \<Rightarrow> 'a list \<Rightarrow> 'a \<Rightarrow> 'a" where
  "pick k xs x = (if k < length xs then xs ! k else x)"

definition crash :: "(string \<Rightarrow> nat) \<Rightarrow> (nat \<Rightarrow> bytes) \<Rightarrow> bool \<Rightarrow> disk \<Rightarrow> disk" where
  "crash choice noise keep d =
     (let dir = (\<lambda>n. if dk_madeDurable d \<or> keep then pick (choice n) (dk_durable d n) (dk_dir d n) else None)
      in d\<lparr>dk_made := dk_madeDurable d \<or> (keep \<and> dk_made d), dk_madeDurable := True, dk_dir := dir,
           dk_durable := (\<lambda>n. [dir n]),
           dk_data := (\<lambda>i. if dk_synced d i then dk_data d i else noise i), dk_synced := (\<lambda>_. True)\<rparr>)"

section \<open>Actions\<close>

datatype outcome = Fine | Fails errno | Cut nat errno | Dies | DiesCut nat

record world =
  w_disk :: disk
  w_script :: "outcome list"
  w_held :: "string list"
  w_draws :: nat

datatype 'a out = Ret 'a | Throw store_error | Died

type_synonym 'a act = "world \<Rightarrow> 'a out \<times> world"

definition retA :: "'a \<Rightarrow> 'a act" where
  "retA a w = (Ret a, w)"

definition throwA :: "store_error \<Rightarrow> 'a act" where
  "throwA x w = (Throw x, w)"

definition bindA :: "'a act \<Rightarrow> ('a \<Rightarrow> 'b act) \<Rightarrow> 'b act" where
  "bindA m f w = (case m w of (Ret a, w') \<Rightarrow> f a w' | (Throw x, w') \<Rightarrow> (Throw x, w') | (Died, w') \<Rightarrow> (Died, w'))"

definition thenA :: "'a act \<Rightarrow> 'b act \<Rightarrow> 'b act" where
  "thenA m n = bindA m (\<lambda>_. n)"

text \<open>\<open>try\<close> and \<open>catch\<close>; \<open>try\<close> and \<open>finally\<close>: a process that
  died runs neither handler.\<close>

definition catchA :: "'a act \<Rightarrow> (store_error \<Rightarrow> 'a act) \<Rightarrow> 'a act" where
  "catchA m h w = (case m w of (Throw x, w') \<Rightarrow> h x w' | r \<Rightarrow> r)"

definition finallyA :: "'a act \<Rightarrow> unit act \<Rightarrow> 'a act" where
  "finallyA m f w =
     (case m w of
        (Ret a, w') \<Rightarrow> thenA f (retA a) w'
      | (Throw x, w') \<Rightarrow> thenA f (throwA x) w'
      | (Died, w') \<Rightarrow> (Died, w'))"

definition liftA :: "(store_error, 'a) result \<Rightarrow> 'a act" where
  "liftA r = (case r of Inl x \<Rightarrow> throwA x | Inr a \<Rightarrow> retA a)"

definition ignoreA :: "unit act \<Rightarrow> unit act" where
  "ignoreA m = catchA m (\<lambda>_. retA ())"

definition whenA :: "bool \<Rightarrow> unit act \<Rightarrow> unit act" where
  "whenA b m = (if b then m else retA ())"

text \<open>A system call under the script; past its end every call goes through.\<close>

definition sys :: "'a syscall \<Rightarrow> 'a act" where
  "sys f w =
     (let w' = w\<lparr>w_script := tl (w_script w)\<rparr>;
          go = (case f (w_disk w) of Inl e \<Rightarrow> (Throw (IoError e), w') | Inr (a, d) \<Rightarrow> (Ret a, w'\<lparr>w_disk := d\<rparr>))
      in case w_script w of
           [] \<Rightarrow> go
         | Fine # _ \<Rightarrow> go
         | Fails e # _ \<Rightarrow> (Throw (IoError e), w')
         | Cut n e # _ \<Rightarrow> (Throw (IoError e), w')
         | Dies # _ \<Rightarrow> (Died, w')
         | DiesCut n # _ \<Rightarrow> (Died, w'))"

text \<open>A write may be cut short, with an error or with the process.\<close>

definition sys_write :: "nat \<Rightarrow> bytes \<Rightarrow> unit act" where
  "sys_write i bs w =
     (let w' = w\<lparr>w_script := tl (w_script w)\<rparr>; put = (\<lambda>b. w'\<lparr>w_disk := k_put i b (w_disk w)\<rparr>)
      in case w_script w of
           [] \<Rightarrow> (Ret (), put bs)
         | Fine # _ \<Rightarrow> (Ret (), put bs)
         | Fails e # _ \<Rightarrow> (Throw (IoError e), w')
         | Cut n e # _ \<Rightarrow> (Throw (IoError e), put (take n bs))
         | Dies # _ \<Rightarrow> (Died, w')
         | DiesCut n # _ \<Rightarrow> (Died, put (take n bs)))"

section \<open>Reasoning about actions\<close>

text \<open>A precondition, and what holds when the action returned, threw or died.\<close>

fun ends :: "('a \<Rightarrow> world \<Rightarrow> bool) \<Rightarrow> (store_error \<Rightarrow> world \<Rightarrow> bool) \<Rightarrow> (world \<Rightarrow> bool) \<Rightarrow> 'a out \<times> world \<Rightarrow> bool" where
  "ends Q E D (Ret a, w) = Q a w"
| "ends Q E D (Throw x, w) = E x w"
| "ends Q E D (Died, w) = D w"

definition hoare :: "(world \<Rightarrow> bool) \<Rightarrow> 'a act \<Rightarrow> ('a \<Rightarrow> world \<Rightarrow> bool) \<Rightarrow> (store_error \<Rightarrow> world \<Rightarrow> bool) \<Rightarrow> (world \<Rightarrow> bool) \<Rightarrow> bool" where
  "hoare P m Q E D \<longleftrightarrow> (\<forall>w. P w \<longrightarrow> ends Q E D (m w))"

named_theorems hoare_intros \<open>rules of the action logic\<close>

lemma hoareI: "(\<And>w. P w \<Longrightarrow> ends Q E D (m w)) \<Longrightarrow> hoare P m Q E D"
  by (simp add: hoare_def)

lemma hoareD: "hoare P m Q E D \<Longrightarrow> P w \<Longrightarrow> ends Q E D (m w)"
  by (simp add: hoare_def)

lemma hoare_Ret: "hoare P m Q E D \<Longrightarrow> P w \<Longrightarrow> m w = (Ret a, w') \<Longrightarrow> Q a w'"
  by (drule hoareD, assumption) simp

lemma hoare_Throw: "hoare P m Q E D \<Longrightarrow> P w \<Longrightarrow> m w = (Throw x, w') \<Longrightarrow> E x w'"
  by (drule hoareD, assumption) simp

lemma hoare_Died: "hoare P m Q E D \<Longrightarrow> P w \<Longrightarrow> m w = (Died, w') \<Longrightarrow> D w'"
  by (drule hoareD, assumption) simp

lemma ends_mono:
  assumes "ends Q E D r" "\<And>a w. Q a w \<Longrightarrow> Q' a w" "\<And>x w. E x w \<Longrightarrow> E' x w" "\<And>w. D w \<Longrightarrow> D' w"
  shows "ends Q' E' D' r"
  using assms by (cases "(Q, E, D, r)" rule: ends.cases) auto

lemma hoare_conseq:
  assumes "hoare P m Q E D" "\<And>w. P' w \<Longrightarrow> P w" "\<And>a w. Q a w \<Longrightarrow> Q' a w" "\<And>x w. E x w \<Longrightarrow> E' x w" "\<And>w. D w \<Longrightarrow> D' w"
  shows "hoare P' m Q' E' D'"
proof (rule hoareI)
  fix w
  assume "P' w"
  then have "P w" by (rule assms(2))
  from hoareD [OF assms(1) this] show "ends Q' E' D' (m w)"
    using assms(3-5) by (rule ends_mono)
qed

text \<open>The end of an action, by cases.\<close>

lemma act_cases [case_names Ret Throw Died]:
  assumes "\<And>a w'. m w = (Ret a, w') \<Longrightarrow> thesis" "\<And>x w'. m w = (Throw x, w') \<Longrightarrow> thesis"
    "\<And>w'. m w = (Died, w') \<Longrightarrow> thesis"
  shows thesis
  using assms by (cases "m w"; cases "fst (m w)") auto

lemma hoare_ret [hoare_intros]: "(\<And>w. P w \<Longrightarrow> Q a w) \<Longrightarrow> hoare P (retA a) Q E D"
  by (simp add: hoare_def retA_def)

lemma hoare_throw [hoare_intros]: "(\<And>w. P w \<Longrightarrow> E x w) \<Longrightarrow> hoare P (throwA x) Q E D"
  by (simp add: hoare_def throwA_def)

lemma hoare_bind [hoare_intros]:
  assumes "hoare P m R E D" "\<And>a. hoare (R a) (f a) Q E D"
  shows "hoare P (bindA m f) Q E D"
proof (rule hoareI)
  fix w
  assume "P w"
  from hoareD [OF assms(1) this] hoareD [OF assms(2)] show "ends Q E D (bindA m f w)"
    by (cases m w rule: act_cases) (auto simp: bindA_def)
qed


lemma hoare_then [hoare_intros]:
  "hoare P m (\<lambda>_. R) E D \<Longrightarrow> hoare R n Q E D \<Longrightarrow> hoare P (thenA m n) Q E D"
  unfolding thenA_def by (rule hoare_bind)

lemma hoare_catch [hoare_intros]:
  assumes "hoare P m Q E' D" "\<And>x. hoare (E' x) (h x) Q E D"
  shows "hoare P (catchA m h) Q E D"
proof (rule hoareI)
  fix w
  assume "P w"
  from hoareD [OF assms(1) this] hoareD [OF assms(2)] show "ends Q E D (catchA m h w)"
    by (cases m w rule: act_cases) (auto simp: catchA_def)
qed


lemma hoare_finally [hoare_intros]:
  assumes "hoare P m R E' D" "\<And>a. hoare (R a) f (\<lambda>_. Q a) E D" "\<And>x. hoare (E' x) f (\<lambda>_. E x) E D"
  shows "hoare P (finallyA m f) Q E D"
proof (rule hoareI)
  fix w
  assume "P w"
  note m = hoareD [OF assms(1) this]
  have r: "hoare (R a) (thenA f (retA a)) Q E D" for a
    by (rule hoare_then [OF assms(2)]) (auto intro: hoare_ret)
  have t: "hoare (E' x) (thenA f (throwA x)) Q E D" for x
    by (rule hoare_then [OF assms(3)]) (auto intro: hoare_throw)
  show "ends Q E D (finallyA m f w)"
    using m hoareD [OF r] hoareD [OF t] by (cases m w rule: act_cases) (auto simp: finallyA_def)
qed


lemma hoare_lift [hoare_intros]:
  "(\<And>w a. r = Inr a \<Longrightarrow> P w \<Longrightarrow> Q a w) \<Longrightarrow> (\<And>w x. r = Inl x \<Longrightarrow> P w \<Longrightarrow> E x w) \<Longrightarrow> hoare P (liftA r) Q E D"
  by (cases r) (simp_all add: liftA_def hoare_ret hoare_throw)

lemma hoare_ignore [hoare_intros]:
  "hoare P m (\<lambda>_. Q) (\<lambda>_. Q) D \<Longrightarrow> hoare P (ignoreA m) (\<lambda>_. Q) E D"
  unfolding ignoreA_def by (rule hoare_catch) (auto intro: hoare_ret)

lemma hoare_when [hoare_intros]:
  "(b \<Longrightarrow> hoare P m (\<lambda>_. Q) E D) \<Longrightarrow> (\<And>w. \<not> b \<Longrightarrow> P w \<Longrightarrow> Q w) \<Longrightarrow> hoare P (whenA b m) (\<lambda>_. Q) E D"
  by (auto simp: whenA_def intro: hoare_ret)

text \<open>What holds of the disk, while every outcome that is left in the script is in
  \<open>S\<close>.\<close>

definition on_disk :: "(outcome \<Rightarrow> bool) \<Rightarrow> (disk \<Rightarrow> bool) \<Rightarrow> world \<Rightarrow> bool" where
  "on_disk S P w \<longleftrightarrow> P (w_disk w) \<and> list_all S (w_script w)"

lemma on_disk_simps [simp]:
  "on_disk S P (w\<lparr>w_held := h\<rparr>) = on_disk S P w"
  "on_disk S P (w\<lparr>w_draws := n\<rparr>) = on_disk S P w"
  by (simp_all add: on_disk_def)

lemma on_disk_mono: "on_disk S P w \<Longrightarrow> (\<And>d. P d \<Longrightarrow> Q d) \<Longrightarrow> on_disk S Q w"
  by (simp add: on_disk_def)

definition may_fail :: "(outcome \<Rightarrow> bool) \<Rightarrow> errno \<Rightarrow> bool" where
  "may_fail S e \<longleftrightarrow> S (Fails e) \<or> (\<exists>n. S (Cut n e))"

definition may_die :: "(outcome \<Rightarrow> bool) \<Rightarrow> bool" where
  "may_die S \<longleftrightarrow> S Dies \<or> (\<exists>n. S (DiesCut n))"

lemma script_outcomes:
  "S (Fails e) \<Longrightarrow> may_fail S e" "S (Cut n e) \<Longrightarrow> may_fail S e" "S Dies \<Longrightarrow> may_die S" "S (DiesCut n) \<Longrightarrow> may_die S"
  by (auto simp: may_fail_def may_die_def)

lemma hoare_sys:
  assumes "\<And>d a d'. P d \<Longrightarrow> f d = Inr (a, d') \<Longrightarrow> Q a d'"
    and "\<And>d e. P d \<Longrightarrow> f d = Inl e \<Longrightarrow> E e d"
    and "\<And>d e. P d \<Longrightarrow> may_fail S e \<Longrightarrow> E e d"
    and "\<And>d. P d \<Longrightarrow> may_die S \<Longrightarrow> D d"
  shows "hoare (on_disk S P) (sys f) (\<lambda>a. on_disk S (Q a)) (\<lambda>x w. \<exists>e. x = IoError e \<and> on_disk S (E e) w) (on_disk S D)"
proof (rule hoareI)
  fix w
  assume w: "on_disk S P w"
  show "ends (\<lambda>a. on_disk S (Q a)) (\<lambda>x w. \<exists>e. x = IoError e \<and> on_disk S (E e) w) (on_disk S D) (sys f w)"
    using w assms
    by (cases "w_script w"; cases "f (w_disk w)")
      (auto simp: sys_def on_disk_def Let_def dest: script_outcomes split: outcome.splits)
qed

lemma hoare_sys_write:
  assumes "\<And>d. P d \<Longrightarrow> Q (k_put i bs d)" "\<And>d n. P d \<Longrightarrow> R (k_put i (take n bs) d)"
    and "\<And>d. P d \<Longrightarrow> R d"
  shows "hoare (on_disk S P) (sys_write i bs) (\<lambda>_. on_disk S Q)
    (\<lambda>x w. \<exists>e. x = IoError e \<and> may_fail S e \<and> on_disk S R w) (\<lambda>w. may_die S \<and> on_disk S R w)"
proof (rule hoareI)
  fix w
  assume w: "on_disk S P w"
  show "ends (\<lambda>_. on_disk S Q) (\<lambda>x w. \<exists>e. x = IoError e \<and> may_fail S e \<and> on_disk S R w) (\<lambda>w. may_die S \<and> on_disk S R w)
      (sys_write i bs w)"
    using w assms
    by (cases "w_script w") (auto simp: sys_write_def on_disk_def Let_def dest: script_outcomes split: outcome.splits)
qed

text \<open>Actions that keep what holds of the disk, however they end.\<close>

definition keeps :: "(outcome \<Rightarrow> bool) \<Rightarrow> (disk \<Rightarrow> bool) \<Rightarrow> 'a act \<Rightarrow> bool" where
  "keeps S P m \<longleftrightarrow> hoare (on_disk S P) m (\<lambda>_. on_disk S P) (\<lambda>_. on_disk S P) (on_disk S P)"

named_theorems keeps_intros \<open>actions that keep what holds of the disk\<close>

lemma keeps_hoare: "keeps S P m \<Longrightarrow> hoare (on_disk S P) m (\<lambda>_. on_disk S P) (\<lambda>_. on_disk S P) (on_disk S P)"
  by (simp add: keeps_def)

lemma keeps_ret [keeps_intros]: "keeps S P (retA a)"
  unfolding keeps_def by (rule hoare_ret)

lemma keeps_throw [keeps_intros]: "keeps S P (throwA x)"
  unfolding keeps_def by (rule hoare_throw)

lemma keeps_bind [keeps_intros]: "keeps S P m \<Longrightarrow> (\<And>a. keeps S P (f a)) \<Longrightarrow> keeps S P (bindA m f)"
  unfolding keeps_def by (rule hoare_bind)

lemma keeps_then [keeps_intros]: "keeps S P m \<Longrightarrow> keeps S P n \<Longrightarrow> keeps S P (thenA m n)"
  unfolding keeps_def by (rule hoare_then)

lemma keeps_catch [keeps_intros]: "keeps S P m \<Longrightarrow> (\<And>x. keeps S P (h x)) \<Longrightarrow> keeps S P (catchA m h)"
  unfolding keeps_def by (rule hoare_catch)

lemma keeps_finally [keeps_intros]: "keeps S P m \<Longrightarrow> keeps S P f \<Longrightarrow> keeps S P (finallyA m f)"
  unfolding keeps_def by (rule hoare_finally)

lemma keeps_lift [keeps_intros]: "keeps S P (liftA r)"
  unfolding keeps_def by (rule hoare_lift)

lemma keeps_ignore [keeps_intros]: "keeps S P m \<Longrightarrow> keeps S P (ignoreA m)"
  unfolding keeps_def by (rule hoare_ignore)

lemma keeps_when [keeps_intros]: "keeps S P m \<Longrightarrow> keeps S P (whenA b m)"
  unfolding keeps_def by (rule hoare_when)

lemma keeps_if [keeps_intros]: "keeps S P m \<Longrightarrow> keeps S P n \<Longrightarrow> keeps S P (if b then m else n)"
  by simp

lemma keeps_sys:
  assumes "\<And>d a d'. P d \<Longrightarrow> f d = Inr (a, d') \<Longrightarrow> P d'"
  shows "keeps S P (sys f)"
  unfolding keeps_def
  by (rule hoare_conseq [OF hoare_sys [where P = P and f = f and Q = "\<lambda>_. P" and E = "\<lambda>_. P" and D = P and S = S]])
    (use assms in auto)

lemma hoare_sys_keep:
  assumes "\<And>d a d'. P d \<Longrightarrow> f d = Inr (a, d') \<Longrightarrow> Q a d'"
  shows "hoare (on_disk S P) (sys f) (\<lambda>a. on_disk S (Q a)) (\<lambda>_. on_disk S P) (on_disk S P)"
  by (rule hoare_conseq [OF hoare_sys [where P = P and f = f and Q = Q and E = "\<lambda>_. P" and D = P and S = S]])
    (use assms in auto)

lemma hoare_lift_bind:
  assumes "\<And>a. r = Inr a \<Longrightarrow> hoare P (f a) Q E D" "\<And>x w. r = Inl x \<Longrightarrow> P w \<Longrightarrow> E x w"
  shows "hoare P (bindA (liftA r) f) Q E D"
  using assms by (cases r) (simp_all add: hoare_def bindA_def liftA_def throwA_def retA_def)

lemma bind_lift_Inr: "bindA (liftA (Inr a)) f = f a"
  by (rule ext) (simp add: bindA_def liftA_def retA_def)

lemma keeps_lift_bind: "(\<And>a. r = Inr a \<Longrightarrow> keeps S P (f a)) \<Longrightarrow> keeps S P (bindA (liftA r) f)"
  unfolding keeps_def by (rule hoare_lift_bind)

lemma keeps_read [keeps_intros]:
  "keeps S P (sys (k_read n))" "keeps S P (sys (k_stat n))" "keeps S P (sys (k_open n))"
  "keeps S P (sys k_readdir)" "keeps S P (sys k_opendir)" "keeps S P (sys k_nothing)"
  by (rule keeps_sys, auto simp: k_read_def k_stat_def k_open_def k_readdir_def k_opendir_def k_nothing_def
      split: option.splits if_splits)+

end
