(* ===== verification/Flow_File.thy ===== *)
theory Flow_File
  imports Flow_Disk
begin

text \<open>
  \<open>src/client/flow-store.ts\<close>, second part: the file store. One file per key, a header
  line with the payload's digest and length, a lock file per key, and a save that writes a temporary
  file, syncs it, renames it over the record and syncs the directory. Paths are names in the store's
  directory. The bytes of a lock file are read as one character each; the store writes only ASCII
  there. The in-process queue of \<open>withProcessMutex\<close> is not modelled: an action here is
  one that has reached the head of the queue.
\<close>

section \<open>Configuration\<close>

datatype file_save_step = TmpWritten | FileSynced | Renamed | DirSynced | TargetSynced

text \<open>\<open>fs_token\<close> and \<open>fs_suffix\<close> are the n-th draws of
  \<open>randomBytes\<close> in hex, \<open>fs_alive\<close> says for which pids a signal does not
  fail with \<open>ESRCH\<close>.\<close>

record file_store =
  fs_lockWaitMs :: nat
  fs_win :: bool
  fs_onStep :: "file_save_step \<Rightarrow> string \<Rightarrow> store_error option"
  fs_pid :: nat
  fs_token :: "nat \<Rightarrow> string"
  fs_suffix :: "nat \<Rightarrow> string"
  fs_alive :: "nat \<Rightarrow> bool"
  fs_digest :: "bytes \<Rightarrow> string"

definition valid_mode :: "jsnum \<Rightarrow> bool" where
  "valid_mode m = (case jsnum_int m of None \<Rightarrow> False | Some i \<Rightarrow> 0 \<le> i \<and> i \<le> 511)"

definition valid_wait :: "jsnum \<Rightarrow> nat option" where
  "valid_wait m = (case jsnum_int m of None \<Rightarrow> None | Some i \<Rightarrow> if i < 0 then None else Some (nat i))"

text \<open>The constructor's checks on the directory, the mode (\<open>0o600\<close> by default, at most
  \<open>0o777\<close>) and the wait.\<close>

definition newFileFlowStore ::
    "file_store \<Rightarrow> string \<Rightarrow> jsnum option \<Rightarrow> jsnum option \<Rightarrow> (store_error, file_store) result" where
  "newFileFlowStore base dir mode wait =
     (if dir = [] then Inl (FlowStorePathError ''dir'')
      else if \<not> valid_mode (case mode of None \<Rightarrow> int_jsnum 384 | Some m \<Rightarrow> m) then Inl (FlowStorePathError ''mode'')
      else (case valid_wait (case wait of None \<Rightarrow> int_jsnum 5000 | Some t \<Rightarrow> t) of
              None \<Rightarrow> Inl (FlowStorePathError ''lockWaitMs'')
            | Some ms \<Rightarrow> Inr (base\<lparr>fs_lockWaitMs := ms\<rparr>)))"

definition DIR_FSYNC_UNSUPPORTED :: "errno \<Rightarrow> bool" where
  "DIR_FSYNC_UNSUPPORTED e \<longleftrightarrow> e \<in> {EINVAL, ENOTSUP}"

definition MODE_UNSUPPORTED :: "errno \<Rightarrow> bool" where
  "MODE_UNSUPPORTED e \<longleftrightarrow> e \<in> {EPERM, ENOTSUP, ENOSYS, EINVAL}"

definition RENAME_RETRY_CODES :: "errno \<Rightarrow> bool" where
  "RENAME_RETRY_CODES e \<longleftrightarrow> e \<in> {EPERM, EBUSY, EACCES}"

definition LOCK_IO_RETRY_CODES :: "errno \<Rightarrow> bool" where
  "LOCK_IO_RETRY_CODES e \<longleftrightarrow> e \<in> {EPERM, EBUSY, EACCES}"

definition LOCK_IO_ATTEMPTS :: nat where
  "LOCK_IO_ATTEMPTS = 6"

definition LOCK_POLL_MS :: nat where
  "LOCK_POLL_MS = 25"

definition LOCK_MAX_ITERATIONS :: nat where
  "LOCK_MAX_ITERATIONS = 4000"

definition EXCLUSIVE_NAMES :: "string \<Rightarrow> bool" where
  "EXCLUSIVE_NAMES n \<longleftrightarrow> n = ''seller-begin''"

text \<open>What \<open>errorCode\<close> finds: an error of a system call has a code.\<close>

definition code_in :: "(errno \<Rightarrow> bool) \<Rightarrow> store_error \<Rightarrow> bool" where
  "code_in p x = (case x of IoError e \<Rightarrow> p e | _ \<Rightarrow> False)"

definition processAlive :: "file_store \<Rightarrow> nat \<Rightarrow> bool" where
  "processAlive F pid \<longleftrightarrow> 1 \<le> pid \<and> fs_alive F pid"

section \<open>Names\<close>

definition LF :: char where
  "LF = CHR 0x0A"

definition underDir :: "string \<Rightarrow> (store_error, string) result" where
  "underDir n =
     (if n = [] \<or> n = ''.'' \<or> take 2 n = ''..'' \<or> CHR ''/'' \<in> set n \<or> CHR 0x5C \<in> set n
      then Inl (FlowStorePathError n) else Inr n)"

definition record_name :: "flow_role \<Rightarrow> string \<Rightarrow> string" where
  "record_name role sid = role_name role @ CHR ''-'' # sid @ ''.json''"

definition pathFor :: "string \<Rightarrow> (store_error, string) result" where
  "pathFor key = bind_res (parseFlowKey key) (\<lambda>(role, sid). underDir (record_name role sid))"

text \<open>\<open>replace(/\.json$/, "")\<close>.\<close>

definition drop_json :: "string \<Rightarrow> string" where
  "drop_json n = (if drop (length n - 5) n = ''.json'' then take (length n - 5) n else n)"

definition strip_prefix :: "string \<Rightarrow> string \<Rightarrow> string option" where
  "strip_prefix p s = (if take (length p) s = p then Some (drop (length p) s) else None)"

text \<open>\<open>FILE_NAME_PATTERN\<close>, and the key of a file name.\<close>

definition file_key :: "string \<Rightarrow> string option" where
  "file_key n =
     (let try_role = (\<lambda>role. (case strip_prefix (role_name role @ ''-'') n of
            None \<Rightarrow> None
          | Some rest \<Rightarrow> if hex32 (take 66 rest) \<and> drop 66 rest = ''.json''
                         then Some (role_name role @ CHR '':'' # take 66 rest) else None))
      in case try_role BuyerRole of Some k \<Rightarrow> Some k | None \<Rightarrow> try_role SellerRole)"

definition TEMP_TAIL :: "string \<Rightarrow> bool" where
  "TEMP_TAIL s \<longleftrightarrow> run_of (alnum @ ''_-'') 1 64 s"

section \<open>The file format\<close>

definition flow_header :: "(bytes \<Rightarrow> string) \<Rightarrow> bytes \<Rightarrow> string" where
  "flow_header H payload =
     ''flop-flow-store/1 sha256='' @ H payload @ '' length='' @ show_nat (length payload) @ [LF]"

definition envelope :: "(bytes \<Rightarrow> string) \<Rightarrow> bytes \<Rightarrow> bytes" where
  "envelope H payload = to_latin1 (flow_header H payload) @ payload"

text \<open>\<open>FORMAT_PATTERN\<close>: the digits of the format version; \<open>HEADER_PATTERN\<close>:
  the digest and the digits of the length.\<close>

definition FORMAT_PATTERN :: "string \<Rightarrow> string option" where
  "FORMAT_PATTERN line =
     (case strip_prefix ''flop-flow-store/'' line of
        None \<Rightarrow> None
      | Some rest \<Rightarrow>
          (let v = takeWhile (\<lambda>c. c \<in> set digits) rest
           in if v \<noteq> [] \<and> take 1 (drop (length v) rest) = '' '' then Some v else None))"

definition HEADER_PATTERN :: "string \<Rightarrow> (string \<times> string) option" where
  "HEADER_PATTERN line =
     (case strip_prefix ''flop-flow-store/1 sha256='' line of
        None \<Rightarrow> None
      | Some rest \<Rightarrow>
          if \<not> SHA256_HEX (take 64 rest) then None
          else (case strip_prefix '' length='' (drop 64 rest) of
                  None \<Rightarrow> None
                | Some tail \<Rightarrow>
                    (let n = takeWhile (\<lambda>c. c \<in> set digits) tail
                     in if n \<noteq> [] \<and> take 1 (drop (length n) tail) = [LF] then Some (take 64 rest, n) else None)))"

definition LF_BYTE :: "8 word" where
  "LF_BYTE = 0x0a"

text \<open>The checks of \<open>readPayload\<close> on the bytes of a file.\<close>

definition decode_payload :: "(bytes \<Rightarrow> string) \<Rightarrow> string \<Rightarrow> bytes \<Rightarrow> (store_error, bytes) result" where
  "decode_payload H key file =
     (if LF_BYTE \<notin> set file then Inl (FlowStoreCorruptError key NoHeaderLine)
      else (let newline = length (takeWhile (\<lambda>b. b \<noteq> LF_BYTE) file);
                headerLine = of_latin1 (take (newline + 1) file);
                payload = drop (newline + 1) file;
                version = FORMAT_PATTERN headerLine
            in if version \<noteq> None \<and> version \<noteq> Some ''1''
               then Inl (FlowStoreCorruptError key (UnknownFormat (the version)))
               else (case HEADER_PATTERN headerLine of
                       None \<Rightarrow> Inl (FlowStoreCorruptError key UnrecognisedHeader)
                     | Some (digest, n) \<Rightarrow>
                         if \<not> int (read_nat n) \<le> max_safe \<or> length payload \<noteq> read_nat n
                         then Inl (FlowStoreCorruptError key (PayloadLength (length payload) n))
                         else if H payload \<noteq> digest then Inl (FlowStoreCorruptError key PayloadDigest)
                         else Inr payload)))"

section \<open>The format: round trip and damage\<close>

definition digest_ok :: "(bytes \<Rightarrow> string) \<Rightarrow> bool" where
  "digest_ok H \<longleftrightarrow> (\<forall>b. SHA256_HEX (H b))"

lemma strip_prefix_append [simp]: "strip_prefix p (p @ s) = Some s"
  by (simp add: strip_prefix_def)

lemma takeWhile_digits:
  "only digits n \<Longrightarrow> c \<notin> set digits \<Longrightarrow> takeWhile (\<lambda>c. c \<in> set digits) (n @ c # s) = n"
  by (induction n) auto

lemma LF_not_digit [simp]: "LF \<notin> set digits" "LF \<notin> set lower_hex"
  by (simp_all add: LF_def digits_def lower_hex_def)

lemma SHA256_HEX_length: "SHA256_HEX s \<Longrightarrow> length s = 64"
  by (simp add: SHA256_HEX_def run_of_def)

lemma FORMAT_PATTERN_header: "FORMAT_PATTERN (flow_header H p) = Some ''1''"
proof -
  have "flow_header H p = ''flop-flow-store/'' @ (''1'' @ CHR '' '' # (''sha256='' @ H p @ '' length='' @ show_nat (length p) @ [LF]))"
    by (simp add: flow_header_def)
  moreover have "takeWhile (\<lambda>c. c \<in> set digits) (''1'' @ CHR '' '' # s) = ''1''" for s
    by (rule takeWhile_digits) (simp_all add: digits_def)
  ultimately show ?thesis by (simp add: FORMAT_PATTERN_def del: append_Cons append_Nil)
qed

lemma HEADER_PATTERN_header:
  assumes "SHA256_HEX (H p)"
  shows "HEADER_PATTERN (flow_header H p) = Some (H p, show_nat (length p))"
proof -
  have h: "flow_header H p = ''flop-flow-store/1 sha256='' @ (H p @ ('' length='' @ (show_nat (length p) @ LF # [])))"
    by (simp add: flow_header_def)
  have n: "takeWhile (\<lambda>c. c \<in> set digits) (show_nat (length p) @ LF # []) = show_nat (length p)"
    by (rule takeWhile_digits) simp_all
  have t: "take 64 (H p @ s) = H p" "drop 64 (H p @ s) = s" for s
    using SHA256_HEX_length [OF assms] by simp_all
  show ?thesis
    unfolding HEADER_PATTERN_def h strip_prefix_append t option.case Let_def n
    using assms by simp
qed

definition flow_line :: "(bytes \<Rightarrow> string) \<Rightarrow> bytes \<Rightarrow> string" where
  "flow_line H p = ''flop-flow-store/1 sha256='' @ H p @ '' length='' @ show_nat (length p)"

lemma flow_header_line: "flow_header H p = flow_line H p @ [LF]"
  by (simp add: flow_header_def flow_line_def)

lemma flow_line_LF:
  assumes "SHA256_HEX (H p)"
  shows "LF \<notin> set (flow_line H p)"
proof -
  have "LF \<notin> set (H p)"
    by (rule only_notin [of lower_hex]) (use assms in \<open>simp_all add: SHA256_HEX_def run_of_def\<close>)
  moreover have "LF \<notin> set (show_nat (length p))" by (rule only_notin [of digits]) simp_all
  ultimately show ?thesis by (simp add: flow_line_def LF_def)
qed

lemma char_byte_LF [simp]: "char_byte c = LF_BYTE \<longleftrightarrow> c = LF"
proof -
  have "LF_BYTE = char_byte LF" by (simp add: LF_BYTE_def LF_def char_byte_def)
  then show ?thesis by (metis byte_char_char_byte)
qed

lemma to_latin1_LF: "LF_BYTE \<in> set (to_latin1 s) \<longleftrightarrow> LF \<in> set s"
  by (auto simp: to_latin1_def image_iff) (metis char_byte_LF)+

lemma decode_header:
  assumes "SHA256_HEX (H p)"
  shows "decode_payload H key (to_latin1 (flow_header H p) @ q) =
    (if \<not> int (length p) \<le> max_safe \<or> length q \<noteq> length p
     then Inl (FlowStoreCorruptError key (PayloadLength (length q) (show_nat (length p))))
     else if H q \<noteq> H p then Inl (FlowStoreCorruptError key PayloadDigest)
     else Inr q)"
proof -
  let ?l = "to_latin1 (flow_line H p)"
  have b: "to_latin1 (flow_header H p) = ?l @ [LF_BYTE]"
    by (simp add: flow_header_line to_latin1_def char_byte_LF [THEN iffD2, OF refl])
  have "LF_BYTE \<notin> set ?l" using flow_line_LF [of H p, OF assms] by (simp add: to_latin1_LF)
  then have w: "takeWhile (\<lambda>b. b \<noteq> LF_BYTE) (to_latin1 (flow_header H p) @ q) = ?l"
    by (simp add: b takeWhile_append2 takeWhile_tail)
      (metis (mono_tags, lifting) takeWhile_eq_all_conv)
  have t: "take (length ?l + 1) (to_latin1 (flow_header H p) @ q) = to_latin1 (flow_header H p)"
    "drop (length ?l + 1) (to_latin1 (flow_header H p) @ q) = q" by (simp_all add: b)
  have m: "LF_BYTE \<in> set (to_latin1 (flow_header H p) @ q)" by (simp add: b)
  show ?thesis
    unfolding decode_payload_def w t Let_def of_to_latin1 FORMAT_PATTERN_header
      HEADER_PATTERN_header [of H p, OF assms]
    using m by simp
qed

section \<open>Reading\<close>

text \<open>\<open>Inl ENOENT\<close> becomes \<open>None\<close>, any other failure is thrown.\<close>

definition read_or_missing :: "string \<Rightarrow> bytes option act" where
  "read_or_missing path =
     catchA (bindA (sys (k_read path)) (\<lambda>b. retA (Some b)))
       (\<lambda>x. if x = IoError ENOENT then retA None else throwA x)"

definition readPayload :: "file_store \<Rightarrow> string \<Rightarrow> string \<Rightarrow> bytes option act" where
  "readPayload F path key =
     bindA (read_or_missing path) (\<lambda>file.
       case file of
         None \<Rightarrow> retA None
       | Some bs \<Rightarrow> bindA (liftA (decode_payload (fs_digest F) key bs)) (\<lambda>p. retA (Some p)))"

definition load :: "file_store \<Rightarrow> string \<Rightarrow> bytes option act" where
  "load F key = bindA (liftA (pathFor key)) (\<lambda>path. readPayload F path key)"

definition exists_file :: "string \<Rightarrow> bool act" where
  "exists_file path =
     catchA (thenA (sys (k_stat path)) (retA True))
       (\<lambda>x. if x = IoError ENOENT then retA False else throwA x)"

definition compare :: "file_store \<Rightarrow> string \<Rightarrow> string \<Rightarrow> string option \<Rightarrow> unit act" where
  "compare F key path expected =
     (case expected of
        None \<Rightarrow> bindA (exists_file path) (\<lambda>e. if e then throwA (FlowRecordExistsError key) else retA ())
      | Some x \<Rightarrow>
          bindA (readPayload F path key) (\<lambda>current.
            case current of
              None \<Rightarrow> throwA (FlowRecordStaleError key x None)
            | Some p \<Rightarrow>
                (let actual = fs_digest F p
                 in if actual \<noteq> x then throwA (FlowRecordStaleError key x (Some actual)) else retA ())))"

definition names_or_none :: "string list option act" where
  "names_or_none =
     catchA (bindA (sys k_readdir) (\<lambda>ns. retA (Some ns)))
       (\<lambda>x. if x = IoError ENOENT then retA None else throwA x)"

definition list_keys :: "string list act" where
  "list_keys =
     bindA names_or_none (\<lambda>names.
       case names of None \<Rightarrow> retA [] | Some ns \<Rightarrow> retA (sort (List.map_filter file_key ns)))"

definition is_stale_temp :: "string \<Rightarrow> string \<Rightarrow> bool" where
  "is_stale_temp path n =
     (case strip_prefix (path @ ''.tmp-'') n of None \<Rightarrow> False | Some t \<Rightarrow> TEMP_TAIL t)"

fun remove_all :: "string list \<Rightarrow> unit act" where
  "remove_all [] = retA ()"
| "remove_all (n # ns) =
     bindA (liftA (underDir n)) (\<lambda>p. thenA (ignoreA (sys (k_rm p))) (remove_all ns))"

definition removeStaleTemps :: "string \<Rightarrow> unit act" where
  "removeStaleTemps path =
     bindA names_or_none (\<lambda>names.
       case names of None \<Rightarrow> retA () | Some ns \<Rightarrow> remove_all (filter (is_stale_temp path) ns))"

section \<open>The lock\<close>

record lock_content =
  lc_raw :: string
  lc_pid :: "nat option"

text \<open>\<open>LOCK_BODY\<close>: the pid of a body that is a pid line and a token line.\<close>

definition LOCK_BODY :: "string \<Rightarrow> nat option" where
  "LOCK_BODY raw =
     (case split_on LF raw of
        [p, t, e] \<Rightarrow> if run_of digits 1 9 p \<and> run_of lower_hex 16 16 t \<and> e = [] then Some (read_nat p) else None
      | _ \<Rightarrow> None)"

definition lock_content_of :: "bytes \<Rightarrow> lock_content" where
  "lock_content_of bs = \<lparr>lc_raw = of_latin1 bs, lc_pid = LOCK_BODY (of_latin1 bs)\<rparr>"

datatype lock_read = NoLockFile | Unreadable | LockFile lock_content

definition readLockFile :: "string \<Rightarrow> lock_read act" where
  "readLockFile path =
     catchA (bindA (sys (k_read path)) (\<lambda>b. retA (LockFile (lock_content_of b))))
       (\<lambda>x. if x = IoError ENOENT then retA NoLockFile
            else if code_in (\<lambda>e. e \<in> {EPERM, EACCES, EBUSY}) x then retA Unreadable
            else throwA x)"

text \<open>The argument is the number of attempts that are left.\<close>

fun read_lock_attempts :: "nat \<Rightarrow> string \<Rightarrow> lock_read act" where
  "read_lock_attempts 0 path = retA Unreadable"
| "read_lock_attempts (Suc k) path =
     catchA (bindA (sys (k_read path)) (\<lambda>b. retA (LockFile (lock_content_of b))))
       (\<lambda>x. if x = IoError ENOENT then retA NoLockFile
            else if \<not> code_in LOCK_IO_RETRY_CODES x then retA Unreadable
            else read_lock_attempts k path)"

definition readLockFileRetrying :: "string \<Rightarrow> lock_read act" where
  "readLockFileRetrying path = read_lock_attempts LOCK_IO_ATTEMPTS path"

fun rm_attempts :: "nat \<Rightarrow> string \<Rightarrow> unit act" where
  "rm_attempts 0 path = retA ()"
| "rm_attempts (Suc k) path =
     catchA (sys (k_rm path))
       (\<lambda>x. if \<not> code_in LOCK_IO_RETRY_CODES x then retA () else rm_attempts k path)"

definition removeOwnLock :: "string \<Rightarrow> string \<Rightarrow> unit act" where
  "removeOwnLock lockPath body =
     bindA (readLockFileRetrying lockPath) (\<lambda>now.
       case now of
         LockFile c \<Rightarrow> if lc_raw c \<noteq> body then retA () else rm_attempts LOCK_IO_ATTEMPTS lockPath
       | _ \<Rightarrow> retA ())"

definition tryCreateLock :: "file_store \<Rightarrow> string \<Rightarrow> string \<Rightarrow> bool act" where
  "tryCreateLock F lockPath body =
     bindA
       (catchA (bindA (sys (k_create lockPath)) (\<lambda>i. retA (Some i)))
         (\<lambda>x. if x = IoError EEXIST then retA None
              else if fs_win F \<and> code_in (\<lambda>e. e \<in> {EPERM, EACCES, EBUSY}) x then retA None
              else throwA x))
       (\<lambda>opened. case opened of
          None \<Rightarrow> retA False
        | Some i \<Rightarrow>
            thenA
              (catchA (sys_write i (to_latin1 body))
                (\<lambda>x. thenA (ignoreA (sys k_nothing)) (thenA (ignoreA (sys (k_rm lockPath))) (throwA x))))
              (thenA (sys k_nothing) (retA True)))"

definition breakLock :: "string \<Rightarrow> string \<Rightarrow> unit act" where
  "breakLock lockPath raw =
     bindA (catchA (readLockFile lockPath) (\<lambda>_. retA NoLockFile)) (\<lambda>again.
       case again of
         LockFile c \<Rightarrow> if lc_raw c \<noteq> raw then retA () else ignoreA (sys (k_rm lockPath))
       | _ \<Rightarrow> retA ())"

definition hold :: "string \<Rightarrow> unit act" where
  "hold body w = (Ret (), w\<lparr>w_held := (if body \<in> set (w_held w) then w_held w else body # w_held w)\<rparr>)"

definition unhold :: "string \<Rightarrow> unit act" where
  "unhold body w = (Ret (), w\<lparr>w_held := filter (\<lambda>b. b \<noteq> body) (w_held w)\<rparr>)"

definition held_bodies :: "string list act" where
  "held_bodies w = (Ret (w_held w), w)"

definition draw :: "(nat \<Rightarrow> string) \<Rightarrow> string act" where
  "draw f w = (Ret (f (w_draws w)), w\<lparr>w_draws := Suc (w_draws w)\<rparr>)"

text \<open>Whether a lock that was found is a leftover. \<open>unparsed\<close> is the content seen one
  poll ago, when it was no lock body.\<close>

definition lock_stale :: "file_store \<Rightarrow> string list \<Rightarrow> string option \<Rightarrow> lock_content \<Rightarrow> bool" where
  "lock_stale F held unparsed c =
     (case lc_pid c of
        None \<Rightarrow> unparsed = Some (lc_raw c)
      | Some pid \<Rightarrow> if pid = fs_pid F then lc_raw c \<notin> set held else \<not> processAlive F pid)"

text \<open>What one turn of the loop of \<open>acquireLock\<close> decides, from what it read and the
  loop's variables: try again (with the time waited, the vanished files and the unparsed content),
  break the leftover, or give up.\<close>

datatype lock_turn = TryAgain nat nat "string option" | BreakIt string | GiveUp store_error

definition lock_turn_of ::
    "file_store \<Rightarrow> string \<Rightarrow> string \<Rightarrow> string list \<Rightarrow> lock_read \<Rightarrow> nat \<Rightarrow> nat \<Rightarrow> nat \<Rightarrow> string option \<Rightarrow> lock_turn" where
  "lock_turn_of F key lockPath held holder waited breaks vanished unparsed =
     (case holder of
        NoLockFile \<Rightarrow>
          if Suc vanished \<le> 3 then TryAgain waited (Suc vanished) unparsed
          else if waited \<ge> fs_lockWaitMs F then GiveUp (FlowStoreLockedError key lockPath None HeldByOther)
          else TryAgain (waited + LOCK_POLL_MS) (Suc vanished) unparsed
      | Unreadable \<Rightarrow>
          if waited \<ge> fs_lockWaitMs F then GiveUp (FlowStoreLockedError key lockPath None LockUnreadable)
          else TryAgain (waited + LOCK_POLL_MS) vanished unparsed
      | LockFile c \<Rightarrow>
          if lock_stale F held unparsed c
          then (if Suc breaks > 5 then GiveUp (FlowStoreLockedError key lockPath (lc_pid c) StaleLeft)
                else BreakIt (lc_raw c))
          else if lc_pid c \<noteq> None \<and> waited \<ge> fs_lockWaitMs F
               then GiveUp (FlowStoreLockedError key lockPath (lc_pid c) HeldByOther)
               else TryAgain (waited + LOCK_POLL_MS) vanished (if lc_pid c = None then Some (lc_raw c) else None))"

text \<open>The loop: the iterations left, the time waited, the breaks, the vanished files, the
  unparsed content.\<close>

fun acquire_loop ::
    "file_store \<Rightarrow> string \<Rightarrow> string \<Rightarrow> string \<Rightarrow> nat \<Rightarrow> nat \<Rightarrow> nat \<Rightarrow> nat \<Rightarrow> string option \<Rightarrow> unit act" where
  "acquire_loop F key lockPath body 0 waited breaks vanished unparsed =
     throwA (FlowStoreLockedError key lockPath None HeldByOther)"
| "acquire_loop F key lockPath body (Suc k) waited breaks vanished unparsed =
     bindA (tryCreateLock F lockPath body) (\<lambda>created.
       if created then retA ()
       else bindA (readLockFile lockPath) (\<lambda>holder. bindA held_bodies (\<lambda>held.
         case lock_turn_of F key lockPath held holder waited breaks vanished unparsed of
           TryAgain waited' vanished' unparsed' \<Rightarrow>
             acquire_loop F key lockPath body k waited' breaks vanished' unparsed'
         | BreakIt raw \<Rightarrow>
             thenA (breakLock lockPath raw) (acquire_loop F key lockPath body k waited (Suc breaks) vanished None)
         | GiveUp x \<Rightarrow> throwA x)))"

definition lock_body :: "file_store \<Rightarrow> string \<Rightarrow> string" where
  "lock_body F token = show_nat (fs_pid F) @ LF # token @ [LF]"

text \<open>The body of the lock that was taken stands for the \<open>HeldLock\<close> object. When the
  lock is not taken the body is forgotten again.\<close>

definition acquireLock :: "file_store \<Rightarrow> string \<Rightarrow> string \<Rightarrow> string act" where
  "acquireLock F key lockPath =
     bindA (draw (fs_token F)) (\<lambda>token.
       let body = lock_body F token
       in thenA (hold body)
            (thenA (catchA (acquire_loop F key lockPath body LOCK_MAX_ITERATIONS 0 0 0 None)
                     (\<lambda>x. thenA (unhold body) (throwA x)))
              (retA body)))"

definition assertHeld :: "string \<Rightarrow> string \<Rightarrow> string \<Rightarrow> unit act" where
  "assertHeld key lockPath body =
     bindA (readLockFileRetrying lockPath) (\<lambda>now.
       case now of
         Unreadable \<Rightarrow> throwA (FlowStoreLockedError key lockPath None LockUnreadable)
       | NoLockFile \<Rightarrow> throwA (FlowStoreLockedError key lockPath None LockLost)
       | LockFile c \<Rightarrow>
           if lc_raw c \<noteq> body then throwA (FlowStoreLockedError key lockPath (lc_pid c) LockLost) else retA ())"

definition release :: "string \<Rightarrow> string \<Rightarrow> unit act" where
  "release lockPath body = finallyA (removeOwnLock lockPath body) (unhold body)"

section \<open>The write\<close>

definition stepA :: "file_store \<Rightarrow> file_save_step \<Rightarrow> string \<Rightarrow> unit act" where
  "stepA F step path = (case fs_onStep F step path of None \<Rightarrow> retA () | Some x \<Rightarrow> throwA x)"

definition applyMode :: "unit act" where
  "applyMode = catchA (sys k_nothing) (\<lambda>x. if \<not> code_in MODE_UNSUPPORTED x then throwA x else retA ())"

fun rename_attempts :: "nat \<Rightarrow> string \<Rightarrow> string \<Rightarrow> unit act" where
  "rename_attempts 0 from to = throwA (IoError EPERM)"
| "rename_attempts (Suc k) from to =
     catchA (sys (k_rename from to))
       (\<lambda>x. if k = 0 \<or> \<not> code_in RENAME_RETRY_CODES x then throwA x else rename_attempts k from to)"

definition renameOver :: "file_store \<Rightarrow> string \<Rightarrow> string \<Rightarrow> unit act" where
  "renameOver F from to = rename_attempts (if fs_win F then 5 else 1) from to"

definition syncDirectory :: "unit act" where
  "syncDirectory =
     bindA (catchA (thenA (sys k_opendir) (retA True))
             (\<lambda>x. if code_in DIR_FSYNC_UNSUPPORTED x then retA False else throwA x))
       (\<lambda>opened. if \<not> opened then retA ()
          else finallyA
            (catchA (sys k_syncdir) (\<lambda>x. if \<not> code_in DIR_FSYNC_UNSUPPORTED x then throwA x else retA ()))
            (sys k_nothing))"

definition syncTarget :: "string \<Rightarrow> bool act" where
  "syncTarget path =
     catchA
       (bindA (sys (k_open path)) (\<lambda>i.
          finallyA (catchA (thenA (sys (k_fsync i)) (retA True)) (\<lambda>_. retA False)) (ignoreA (sys k_nothing))))
       (\<lambda>_. retA False)"

text \<open>Up to the rename: a failure here also removes the temporary file.\<close>

definition write_temp :: "file_store \<Rightarrow> string \<Rightarrow> string \<Rightarrow> string \<Rightarrow> string \<Rightarrow> bytes \<Rightarrow> string \<Rightarrow> unit act" where
  "write_temp F key lockPath path tmp bs body =
     thenA
       (bindA (sys (k_create tmp)) (\<lambda>i.
          finallyA
            (thenA (whenA (\<not> fs_win F) applyMode)
              (thenA (sys_write i bs)
                (thenA (stepA F TmpWritten tmp)
                  (thenA (sys (k_fsync i)) (stepA F FileSynced tmp)))))
            (sys k_nothing)))
       (thenA (assertHeld key lockPath body) (renameOver F tmp path))"

definition after_rename :: "file_store \<Rightarrow> string \<Rightarrow> unit act" where
  "after_rename F path =
     thenA (stepA F Renamed path)
       (if fs_win F
        then bindA (syncTarget path) (\<lambda>ok. if ok then stepA F TargetSynced path else retA ())
        else thenA syncDirectory (stepA F DirSynced path))"

definition temp_name :: "file_store \<Rightarrow> string \<Rightarrow> string \<Rightarrow> string" where
  "temp_name F path suffix = path @ ''.tmp-'' @ show_nat (fs_pid F) @ CHR ''-'' # suffix"

definition write_record :: "file_store \<Rightarrow> string \<Rightarrow> string \<Rightarrow> string \<Rightarrow> bytes \<Rightarrow> string \<Rightarrow> unit act" where
  "write_record F key lockPath path payload body =
     bindA (draw (fs_suffix F)) (\<lambda>suffix.
     bindA (liftA (underDir (temp_name F path suffix))) (\<lambda>tmp.
       thenA
         (catchA (write_temp F key lockPath path tmp (envelope (fs_digest F) payload) body)
           (\<lambda>x. thenA (ignoreA (sys (k_rm tmp))) (throwA x)))
         (after_rename F path)))"

definition save :: "file_store \<Rightarrow> string \<Rightarrow> bytes \<Rightarrow> string option \<Rightarrow> unit act" where
  "save F key payload expected =
     thenA (liftA (checkExpected key expected))
     (bindA (liftA (pathFor key)) (\<lambda>path.
      bindA (liftA (underDir (drop_json path @ ''.lock''))) (\<lambda>lockPath.
        thenA (sys k_mkdir)
          (bindA (acquireLock F key lockPath) (\<lambda>body.
             finallyA
               (thenA (compare F key path expected)
                 (thenA (removeStaleTemps path) (write_record F key lockPath path payload body)))
               (release lockPath body))))))"

definition exclusive :: "file_store \<Rightarrow> string \<Rightarrow> 'a act \<Rightarrow> 'a act" where
  "exclusive F nm work =
     (if \<not> EXCLUSIVE_NAMES nm then throwA (FlowStorePathError nm)
      else bindA (liftA (underDir (nm @ ''.lock''))) (\<lambda>lockPath.
        thenA (sys k_mkdir)
          (bindA (acquireLock F nm lockPath) (\<lambda>body. finallyA work (release lockPath body)))))"

end
