(* ===== verification/Flow_Durable.thy ===== *)
theory Flow_Durable
  imports Flow_File
begin

text \<open>
  What the file store of \<open>src/client/flow-store.ts\<close> promises: a stored file is read
  back or reported as damaged, a save is atomic under failures, death of the process and power cuts,
  and a save that returned is durable.
\<close>

section \<open>Round trip and damage\<close>

text \<open>What a save writes is read back: decoding the file of a payload gives the payload.\<close>

theorem envelope_roundtrip:
  assumes "digest_ok H" "int (length payload) \<le> max_safe"
  shows "decode_payload H key (envelope H payload) = Inr payload"
  using decode_header [of H payload key payload] assms by (simp add: envelope_def digest_ok_def)

text \<open>C33. A damaged record is never read as a record and never as an empty one: a file cut off
  anywhere before its end, or one whose payload was replaced by bytes with another digest, is
  reported as corrupt.\<close>

theorem damage_is_reported:
  assumes "digest_ok H"
  shows "(n < length (envelope H p) \<longrightarrow> (\<exists>r. decode_payload H key (take n (envelope H p)) = Inl (FlowStoreCorruptError key r)))
    \<and> (H q \<noteq> H p \<longrightarrow> (\<exists>r. decode_payload H key (to_latin1 (flow_header H p) @ q) = Inl (FlowStoreCorruptError key r)))"
proof (intro conjI impI)
  have h: "SHA256_HEX (H p)" using assms by (simp add: digest_ok_def)
  {
    assume "H q \<noteq> H p"
    then show "\<exists>r. decode_payload H key (to_latin1 (flow_header H p) @ q) = Inl (FlowStoreCorruptError key r)"
      using decode_header [of H p key q, OF h] by auto
  next
    assume n: "n < length (envelope H p)"
    show "\<exists>r. decode_payload H key (take n (envelope H p)) = Inl (FlowStoreCorruptError key r)"
    proof (cases "n \<le> length (flow_line H p)")
      case True
      then have "take n (envelope H p) = take n (to_latin1 (flow_line H p))"
        by (simp add: envelope_def flow_header_line)
      moreover have "LF_BYTE \<notin> set (take n (to_latin1 (flow_line H p)))"
        using flow_line_LF [of H p, OF h] to_latin1_LF in_set_takeD by metis
      ultimately show ?thesis by (simp add: decode_payload_def)
    next
      case False
      let ?q = "take (n - length (flow_header H p)) p"
      have e: "take n (envelope H p) = to_latin1 (flow_header H p) @ ?q"
        using False by (simp add: envelope_def flow_header_line)
      have "length ?q \<noteq> length p"
        using n False by (simp add: envelope_def flow_header_line)
      with decode_header [of H p key ?q, OF h]
      have "decode_payload H key (to_latin1 (flow_header H p) @ ?q)
          = Inl (FlowStoreCorruptError key (PayloadLength (length ?q) (show_nat (length p))))" by metis
      with e show ?thesis by metis
    qed
  }
qed

section \<open>The record on the disk\<close>

text \<open>Every entry the name can have after a power cut is missing or a synced file, and what it
  holds is in \<open>A\<close>.\<close>

definition refs :: "disk \<Rightarrow> string \<Rightarrow> nat option set" where
  "refs d p = insert (dk_dir d p) (set (dk_durable d p))"

definition stored_as :: "disk \<Rightarrow> bytes option set \<Rightarrow> nat option \<Rightarrow> bool" where
  "stored_as d A x = (case x of None \<Rightarrow> None \<in> A | Some i \<Rightarrow> i < dk_next d \<and> dk_synced d i \<and> Some (dk_data d i) \<in> A)"

definition good :: "string \<Rightarrow> bytes option set \<Rightarrow> disk \<Rightarrow> bool" where
  "good p A d \<longleftrightarrow> (dk_madeDurable d \<or> None \<in> A) \<and> (\<forall>x \<in> refs d p. stored_as d A x)"

definition fresh_for :: "string \<Rightarrow> nat \<Rightarrow> disk \<Rightarrow> bool" where
  "fresh_for p i d \<longleftrightarrow> Some i \<notin> refs d p \<and> i < dk_next d"

lemma good_file_at: "good p A d \<Longrightarrow> file_at d p \<in> A"
  by (auto simp: good_def refs_def stored_as_def file_at_def split: option.splits)

lemma good_mono: "good p A d \<Longrightarrow> A \<subseteq> B \<Longrightarrow> good p B d"
  by (fastforce simp: good_def stored_as_def split: option.splits)

lemma pick_in: "pick k xs x \<in> insert x (set xs)"
  by (simp add: pick_def)

lemma good_crash:
  assumes "good p A d"
  shows "file_at (crash choice noise keep d) p \<in> A"
proof (cases "dk_madeDurable d \<or> keep")
  case True
  have "stored_as d A (pick (choice p) (dk_durable d p) (dk_dir d p))"
    using assms pick_in [of "choice p" "dk_durable d p" "dk_dir d p"] by (auto simp: good_def refs_def)
  with True show ?thesis
    by (auto simp: file_at_def crash_def Let_def stored_as_def split: option.splits)
next
  case False
  with assms show ?thesis by (auto simp: file_at_def crash_def good_def)
qed

text \<open>Calls on other names leave the record alone.\<close>

lemma refs_set_entry_other [simp]: "n \<noteq> p \<Longrightarrow> refs (set_entry d n x) p = refs d p"
  by (simp add: refs_def set_entry_def)

lemma made_set_entry [simp]: "dk_madeDurable (set_entry d n x) = dk_madeDurable d" "dk_next (set_entry d n x) = dk_next d"
  "dk_data (set_entry d n x) = dk_data d" "dk_synced (set_entry d n x) = dk_synced d" "dk_made (set_entry d n x) = dk_made d"
  by (simp_all add: set_entry_def)

lemma stored_as_set_entry [simp]: "stored_as (set_entry d n x) A = stored_as d A"
  by (rule ext) (simp add: stored_as_def split: option.split)

lemma good_set_entry: "n \<noteq> p \<Longrightarrow> good p A (set_entry d n x) = good p A d"
  by (simp add: good_def)

lemma good_create:
  assumes "good p A d" "k_create n d = Inr (i, d')" "n \<noteq> p"
  shows "good p A d' \<and> fresh_for p i d' \<and> dk_dir d' n = Some i"
proof -
  have d': "i = dk_next d" "d' = (set_entry d n (Some i))\<lparr>dk_data := (dk_data d)(i := []),
      dk_synced := (dk_synced d)(i := False), dk_next := Suc i\<rparr>"
    using assms(2) by (auto simp: k_create_def Let_def split: if_splits)
  have r: "refs d' p = refs d p" using assms(3) by (simp add: d'(2) refs_def set_entry_def)
  have f: "Some i \<notin> refs d p" using assms(1) by (auto simp: good_def stored_as_def d'(1))
  have "stored_as d' A x" if "x \<in> refs d p" for x
  proof -
    have "stored_as d A x" "x \<noteq> Some i" using assms(1) that f by (auto simp: good_def)
    then show ?thesis by (auto simp: d' stored_as_def split: option.splits)
  qed
  then show ?thesis
    using assms(1,3) r f by (auto simp: good_def fresh_for_def d'(2) set_entry_def)
qed

lemma good_put: "good p A d \<Longrightarrow> fresh_for p i d \<Longrightarrow> good p A (k_put i bs d) \<and> fresh_for p i (k_put i bs d)"
  by (fastforce simp: good_def fresh_for_def refs_def stored_as_def k_put_def split: option.splits)

lemma good_fsync: "good p A d \<Longrightarrow> k_fsync i d = Inr (u, d') \<Longrightarrow> good p A d'"
  by (fastforce simp: good_def refs_def stored_as_def k_fsync_def split: option.splits)

lemma fresh_fsync: "fresh_for p j d \<Longrightarrow> k_fsync i d = Inr (u, d') \<Longrightarrow> fresh_for p j d'"
  by (auto simp: fresh_for_def refs_def k_fsync_def)

lemma good_rm: "good p A d \<Longrightarrow> k_rm n d = Inr (u, d') \<Longrightarrow> n \<noteq> p \<Longrightarrow> good p A d'"
  by (auto simp: k_rm_def good_set_entry split: if_splits)

lemma good_mkdir: "good p A d \<Longrightarrow> k_mkdir d = Inr (u, d') \<Longrightarrow> good p A d'"
  by (auto simp: k_mkdir_def good_def refs_def stored_as_def split: option.splits)

lemma good_syncdir: "good p A d \<Longrightarrow> k_syncdir d = Inr (u, d') \<Longrightarrow> good p A d'"
  by (auto simp: k_syncdir_def good_def refs_def stored_as_def split: option.splits)

lemma good_syncdir_now:
  "good p A d \<Longrightarrow> k_syncdir d = Inr (u, d') \<Longrightarrow> dk_madeDurable d \<Longrightarrow> good p {file_at d p} d'"
  by (auto simp: k_syncdir_def good_def refs_def stored_as_def file_at_def split: option.splits)

lemma good_rename:
  assumes "good p A d" "k_rename t p d = Inr (u, d')" "t \<noteq> p" "dk_dir d t = Some i" "i < dk_next d" "dk_synced d i"
    "dk_data d i = bs"
  shows "good p (insert (Some bs) A) d' \<and> file_at d' p = Some bs"
  using assms by (auto simp: k_rename_def good_def refs_def set_entry_def stored_as_def file_at_def split: option.splits)

text \<open>The record's possible contents, its current one, and whether the directory is durable.\<close>

definition holds :: "bool \<Rightarrow> string \<Rightarrow> bytes option set \<Rightarrow> bytes option \<Rightarrow> disk \<Rightarrow> bool" where
  "holds m p A v d \<longleftrightarrow> good p A d \<and> file_at d p = v \<and> dk_madeDurable d = m"

lemma holds_mono: "holds m p A v d \<Longrightarrow> A \<subseteq> B \<Longrightarrow> holds m p B v d"
  by (auto simp: holds_def intro: good_mono)

lemma holds_good: "holds m p A v d \<Longrightarrow> good p A d"
  by (simp add: holds_def)

lemma holds_create:
  assumes "holds m p A v d" "k_create n d = Inr (i, d')" "n \<noteq> p"
  shows "holds m p A v d' \<and> fresh_for p i d' \<and> dk_dir d' n = Some i"
proof -
  have d': "i = dk_next d" "d' = (set_entry d n (Some i))\<lparr>dk_data := (dk_data d)(i := []),
      dk_synced := (dk_synced d)(i := False), dk_next := Suc i\<rparr>"
    using assms(2) by (auto simp: k_create_def Let_def split: if_splits)
  have "dk_dir d p \<noteq> Some (dk_next d)"
    using assms(1) by (auto simp: holds_def good_def refs_def stored_as_def)
  then have "file_at d' p = file_at d p"
    using assms(3) by (cases "dk_dir d p") (auto simp: file_at_def d' set_entry_def)
  moreover have "dk_madeDurable d' = dk_madeDurable d" by (simp add: d')
  ultimately show ?thesis
    using good_create [OF _ assms(2,3), of A] assms(1) by (simp add: holds_def)
qed

lemma holds_put:
  assumes "holds m p A v d" "fresh_for p i d"
  shows "holds m p A v (k_put i bs d) \<and> fresh_for p i (k_put i bs d)"
proof -
  have "file_at (k_put i bs d) p = file_at d p"
    using assms(2) by (cases "dk_dir d p") (auto simp: file_at_def k_put_def fresh_for_def refs_def)
  moreover have "dk_madeDurable (k_put i bs d) = dk_madeDurable d" by (simp add: k_put_def)
  ultimately show ?thesis using good_put [of p A d i bs] assms by (simp add: holds_def)
qed

lemma holds_syscalls:
  "holds m p A v d \<Longrightarrow> k_fsync i d = Inr (u, d') \<Longrightarrow> holds m p A v d'"
  "holds m p A v d \<Longrightarrow> k_mkdir d = Inr (u, d') \<Longrightarrow> holds m p A v d'"
  "holds m p A v d \<Longrightarrow> k_syncdir d = Inr (u, d') \<Longrightarrow> holds m p A v d'"
proof -
  assume h: "holds m p A v d"
  then have g: "good p A d" by (rule holds_good)
  show "k_fsync i d = Inr (u, d') \<Longrightarrow> holds m p A v d'"
    using good_fsync [OF g, of i u d'] h by (auto simp: holds_def file_at_def k_fsync_def)
  show "k_mkdir d = Inr (u, d') \<Longrightarrow> holds m p A v d'"
    using good_mkdir [OF g, of u d'] h by (auto simp: holds_def file_at_def k_mkdir_def)
  show "k_syncdir d = Inr (u, d') \<Longrightarrow> holds m p A v d'"
    using good_syncdir [OF g, of u d'] h by (auto simp: holds_def file_at_def k_syncdir_def)
qed

lemma holds_rm:
  assumes "holds m p A v d" "k_rm n d = Inr (u, d')" "n \<noteq> p"
  shows "holds m p A v d'"
proof -
  have "file_at d' p = file_at d p"
    using assms(2,3) by (auto simp: k_rm_def file_at_def set_entry_def split: if_splits)
  moreover have "dk_madeDurable d' = dk_madeDurable d" using assms(2) by (auto simp: k_rm_def split: if_splits)
  ultimately show ?thesis using good_rm [OF _ assms(2,3)] assms(1) by (simp add: holds_def)
qed

lemma keeps_holds [keeps_intros]:
  "n \<noteq> p \<Longrightarrow> keeps S (holds m p A v) (sys (k_rm n))"
  "keeps S (holds m p A v) (sys k_mkdir)" "keeps S (holds m p A v) (sys k_syncdir)"
  "keeps S (holds m p A v) (sys (k_fsync i))"
  by (rule keeps_sys, blast intro: holds_rm holds_syscalls)+

section \<open>Everything but the rename leaves the record alone\<close>

lemma keeps_state [keeps_intros]:
  "keeps S P (hold b)" "keeps S P (unhold b)" "keeps S P held_bodies" "keeps S P (draw f)"
  unfolding keeps_def
  by (rule hoareI, simp add: hold_def unhold_def held_bodies_def draw_def)+

lemma keeps_step [keeps_intros]: "keeps S P (stepA F st p)"
  unfolding stepA_def by (cases "fs_onStep F st p") (simp_all add: keeps_intros)

lemma keeps_read_lock [keeps_intros]: "keeps S P (readLockFile n)"
  unfolding readLockFile_def by (intro keeps_intros)

lemma keeps_read_lock_attempts [keeps_intros]: "keeps S P (read_lock_attempts k n)"
  by (induction k) (simp_all add: keeps_intros)

lemma keeps_assertHeld [keeps_intros]: "keeps S P (assertHeld key n b)"
  unfolding assertHeld_def readLockFileRetrying_def
  by (rule keeps_bind, rule keeps_intros) (simp add: keeps_intros split: lock_read.split)

lemma keeps_applyMode [keeps_intros]: "keeps S P applyMode"
  unfolding applyMode_def by (intro keeps_intros)

lemma keeps_readPayload [keeps_intros]: "keeps S P (readPayload F path key)"
  unfolding readPayload_def read_or_missing_def
  by (rule keeps_bind, intro keeps_intros) (simp add: keeps_intros split: option.split)

lemma keeps_compare [keeps_intros]: "keeps S P (compare F key path e)"
proof (cases e)
  case None
  then show ?thesis unfolding compare_def exists_file_def by (simp, intro keeps_intros)
next
  case (Some x)
  show ?thesis
    unfolding compare_def Some option.case
    by (rule keeps_bind, rule keeps_intros) (simp add: keeps_intros Let_def split: option.split)
qed

lemma keeps_rm_attempts [keeps_intros]: "n \<noteq> p \<Longrightarrow> keeps S (holds m p A v) (rm_attempts k n)"
  by (induction k) (simp_all add: keeps_intros)

lemma keeps_release [keeps_intros]: "n \<noteq> p \<Longrightarrow> keeps S (holds m p A v) (release n b)"
  unfolding release_def removeOwnLock_def readLockFileRetrying_def
  by (rule keeps_finally, rule keeps_bind, rule keeps_intros)
    (simp_all add: keeps_intros split: lock_read.split)

lemma keeps_breakLock [keeps_intros]: "n \<noteq> p \<Longrightarrow> keeps S (holds m p A v) (breakLock n raw)"
  unfolding breakLock_def
  by (rule keeps_bind, intro keeps_intros) (simp add: keeps_intros split: lock_read.split)

lemma hoare_open_lock:
  assumes "n \<noteq> p"
  shows "hoare (on_disk S (holds m p A v))
      (catchA (bindA (sys (k_create n)) (\<lambda>i. retA (Some i)))
        (\<lambda>x. if x = IoError EEXIST then retA None
             else if fs_win F \<and> code_in (\<lambda>e. e \<in> {EPERM, EACCES, EBUSY}) x then retA None else throwA x))
      (\<lambda>i. on_disk S (\<lambda>d. holds m p A v d \<and> (\<forall>j. i = Some j \<longrightarrow> fresh_for p j d)))
      (\<lambda>_. on_disk S (holds m p A v)) (on_disk S (holds m p A v))"
proof (rule hoare_catch [where E' = "\<lambda>_. on_disk S (holds m p A v)"])
  show "hoare (on_disk S (holds m p A v)) (bindA (sys (k_create n)) (\<lambda>i. retA (Some i)))
      (\<lambda>i. on_disk S (\<lambda>d. holds m p A v d \<and> (\<forall>j. i = Some j \<longrightarrow> fresh_for p j d)))
      (\<lambda>_. on_disk S (holds m p A v)) (on_disk S (holds m p A v))"
    by (rule hoare_bind [OF hoare_sys_keep [where Q = "\<lambda>i d. holds m p A v d \<and> fresh_for p i d"]])
      (use holds_create [OF _ _ assms] in \<open>auto intro!: hoare_ret elim: on_disk_mono\<close>)
  show "hoare (on_disk S (holds m p A v))
      (if x = IoError EEXIST then retA None
       else if fs_win F \<and> code_in (\<lambda>e. e \<in> {EPERM, EACCES, EBUSY}) x then retA None else throwA x)
      (\<lambda>i. on_disk S (\<lambda>d. holds m p A v d \<and> (\<forall>j. i = Some j \<longrightarrow> fresh_for p j d)))
      (\<lambda>_. on_disk S (holds m p A v)) (on_disk S (holds m p A v))" for x :: store_error
    by (auto intro!: hoare_ret hoare_throw elim: on_disk_mono)
qed

lemma hoare_write_fresh:
  "hoare (on_disk S (\<lambda>d. holds m p A v d \<and> fresh_for p i d)) (sys_write i bs)
    (\<lambda>_. on_disk S (holds m p A v)) (\<lambda>_. on_disk S (holds m p A v)) (on_disk S (holds m p A v))"
  by (rule hoare_conseq [OF hoare_sys_write [where P = "\<lambda>d. holds m p A v d \<and> fresh_for p i d" and Q = "holds m p A v"
          and R = "holds m p A v" and i = i and bs = bs and S = S]])
    (use holds_put [of m p A v] in auto)

lemma keeps_tryCreateLock [keeps_intros]:
  assumes "n \<noteq> p"
  shows "keeps S (holds m p A v) (tryCreateLock F n b)"
  unfolding keeps_def tryCreateLock_def
proof (rule hoare_bind [OF hoare_open_lock [OF assms]])
  fix i
  show "hoare (on_disk S (\<lambda>d. holds m p A v d \<and> (\<forall>j. i = Some j \<longrightarrow> fresh_for p j d)))
      (case i of None \<Rightarrow> retA False
       | Some i \<Rightarrow> thenA (catchA (sys_write i (to_latin1 b))
            (\<lambda>x. thenA (ignoreA (sys k_nothing)) (thenA (ignoreA (sys (k_rm n))) (throwA x))))
          (thenA (sys k_nothing) (retA True)))
      (\<lambda>_. on_disk S (holds m p A v)) (\<lambda>_. on_disk S (holds m p A v)) (on_disk S (holds m p A v))"
  proof (cases i)
    case None
    then show ?thesis by (auto intro!: hoare_ret elim: on_disk_mono)
  next
    case (Some j)
    have h: "keeps S (holds m p A v) (thenA (ignoreA (sys k_nothing)) (thenA (ignoreA (sys (k_rm n))) (throwA x)))"
      for x :: store_error using assms by (intro keeps_intros)
    have t: "keeps S (holds m p A v) (thenA (sys k_nothing) (retA True))" by (intro keeps_intros)
    show ?thesis
      unfolding Some option.case
      by (rule hoare_conseq [OF hoare_then [OF hoare_catch [OF hoare_write_fresh keeps_hoare [OF h]] keeps_hoare [OF t]]])
        (auto elim: on_disk_mono)
  qed
qed

lemma keeps_turn_case:
  "(\<And>w v u. keeps S P (f w v u)) \<Longrightarrow> (\<And>raw. keeps S P (g raw)) \<Longrightarrow> (\<And>x. keeps S P (h x)) \<Longrightarrow>
    keeps S P (case t of TryAgain w v u \<Rightarrow> f w v u | BreakIt raw \<Rightarrow> g raw | GiveUp x \<Rightarrow> h x)"
  by (cases t) simp_all

lemma keeps_acquire_loop [keeps_intros]:
  assumes "n \<noteq> p"
  shows "keeps S (holds m p A v) (acquire_loop F key n b k waited breaks vanished unparsed)"
proof (induction k arbitrary: waited breaks vanished unparsed)
  case 0
  show ?case unfolding acquire_loop.simps by (rule keeps_throw)
next
  case (Suc k)
  show ?case
    unfolding acquire_loop.simps
    by (intro keeps_bind keeps_tryCreateLock keeps_if keeps_ret keeps_read_lock keeps_state keeps_turn_case
        keeps_throw keeps_then keeps_breakLock assms Suc.IH)
qed

lemma keeps_acquireLock [keeps_intros]: "n \<noteq> p \<Longrightarrow> keeps S (holds m p A v) (acquireLock F key n)"
  unfolding acquireLock_def Let_def by (intro keeps_intros)

lemma keeps_remove_all [keeps_intros]:
  "\<forall>n \<in> set ns. n \<noteq> p \<Longrightarrow> keeps S (holds m p A v) (remove_all ns)"
proof (induction ns)
  case Nil
  then show ?case by (simp add: keeps_intros)
next
  case (Cons n ns)
  have "m \<noteq> p" if "underDir n = Inr m" for m
    using that Cons.prems by (auto simp: underDir_def split: if_splits)
  moreover have "keeps S (holds m p A v) (remove_all ns)" using Cons by simp
  ultimately show ?case
    unfolding remove_all.simps by (intro keeps_lift_bind keeps_then keeps_ignore keeps_holds)
qed

lemma is_stale_temp_other: "is_stale_temp p n \<Longrightarrow> n \<noteq> p"
  by (auto simp: is_stale_temp_def strip_prefix_def split: if_splits)

lemma keeps_removeStaleTemps [keeps_intros]: "keeps S (holds m p A v) (removeStaleTemps p)"
  unfolding removeStaleTemps_def names_or_none_def
proof (rule keeps_bind)
  fix names :: "string list option"
  show "keeps S (holds m p A v) (case names of None \<Rightarrow> retA () | Some ns \<Rightarrow> remove_all (filter (is_stale_temp p) ns))"
    using is_stale_temp_other [of p p] by (auto intro!: keeps_intros split: option.split)
qed (intro keeps_intros)

section \<open>The write\<close>

text \<open>The temporary file is complete, synced and under its name.\<close>

definition ready :: "bool \<Rightarrow> string \<Rightarrow> bytes option set \<Rightarrow> bytes option \<Rightarrow> string \<Rightarrow> bytes \<Rightarrow> disk \<Rightarrow> bool" where
  "ready m p A v tmp bs d \<longleftrightarrow> holds m p A v d \<and>
     (\<exists>i. dk_dir d tmp = Some i \<and> i < dk_next d \<and> dk_synced d i \<and> dk_data d i = bs)"

definition temp_open :: "bool \<Rightarrow> string \<Rightarrow> bytes option set \<Rightarrow> bytes option \<Rightarrow> string \<Rightarrow> nat \<Rightarrow> disk \<Rightarrow> bool" where
  "temp_open m p A v tmp i d \<longleftrightarrow> holds m p A v d \<and> dk_dir d tmp = Some i \<and> fresh_for p i d"

lemma temp_open_holds: "temp_open m p A v tmp i d \<Longrightarrow> holds m p A v d"
  by (simp add: temp_open_def)

lemma temp_open_create: "holds m p A v d \<Longrightarrow> k_create tmp d = Inr (i, d') \<Longrightarrow> tmp \<noteq> p \<Longrightarrow> temp_open m p A v tmp i d'"
  using holds_create [of m p A v d tmp i d'] by (simp add: temp_open_def)

lemma temp_open_put: "temp_open m p A v tmp i d \<Longrightarrow> temp_open m p A v tmp i (k_put i bs d) \<and> dk_data (k_put i bs d) i = bs"
  using holds_put [of m p A v d i bs] by (simp add: temp_open_def) (simp add: k_put_def)

lemma temp_open_fsync:
  "temp_open m p A v tmp i d \<Longrightarrow> dk_data d i = bs \<Longrightarrow> k_fsync i d = Inr (u, d') \<Longrightarrow> ready m p A v tmp bs d'"
  using holds_syscalls(1) [of m p A v d i u d']
  by (auto simp: temp_open_def ready_def fresh_for_def k_fsync_def)

lemma ready_holds: "ready m p A v tmp bs d \<Longrightarrow> holds m p A v d"
  by (simp add: ready_def)

lemma ready_rename:
  assumes "ready m p A v tmp bs d" "k_rename tmp p d = Inr (u, d')" "tmp \<noteq> p"
  shows "holds m p (insert (Some bs) A) (Some bs) d'"
proof -
  have "dk_madeDurable d' = dk_madeDurable d"
    using assms(2) by (auto simp: k_rename_def split: option.splits)
  then show ?thesis using assms good_rename [of p A d tmp u d'] by (auto simp: ready_def holds_def)
qed

lemma hoare_rename_attempts:
  assumes "tmp \<noteq> p"
  shows "hoare (on_disk S (ready m p A v tmp bs)) (rename_attempts k tmp p)
    (\<lambda>_. on_disk S (holds m p (insert (Some bs) A) (Some bs))) (\<lambda>_. on_disk S (ready m p A v tmp bs)) (on_disk S (ready m p A v tmp bs))"
proof (induction k)
  case 0
  show ?case unfolding rename_attempts.simps by (rule hoare_throw)
next
  case (Suc k)
  show ?case
    unfolding rename_attempts.simps
    by (rule hoare_catch [OF hoare_sys_keep [where Q = "\<lambda>_. holds m p (insert (Some bs) A) (Some bs)"]])
      (use ready_rename [OF _ _ assms] Suc.IH in \<open>auto intro: hoare_throw\<close>)
qed

lemma hoare_fill_temp:
  "hoare (on_disk S (temp_open m p A v tmp i))
    (finallyA
      (thenA (whenA (\<not> fs_win F) applyMode)
        (thenA (sys_write i bs)
          (thenA (stepA F TmpWritten tmp)
            (thenA (sys (k_fsync i)) (stepA F FileSynced tmp)))))
      (sys k_nothing))
    (\<lambda>_. on_disk S (ready m p A v tmp bs)) (\<lambda>_. on_disk S (holds m p A v)) (on_disk S (holds m p A v))"
proof (rule hoare_finally [where R = "\<lambda>_. on_disk S (ready m p A v tmp bs)" and E' = "\<lambda>_. on_disk S (holds m p A v)"])
  let ?O = "temp_open m p A v tmp i" and ?H = "on_disk S (holds m p A v)"
  let ?F = "\<lambda>d. ?O d \<and> dk_data d i = bs"
  have mode: "hoare (on_disk S ?O) (whenA (\<not> fs_win F) applyMode) (\<lambda>_. on_disk S ?O) (\<lambda>_. ?H) ?H"
    by (rule hoare_conseq [OF keeps_hoare [of S ?O]]) (auto intro: keeps_intros elim: on_disk_mono temp_open_holds)
  have wr: "hoare (on_disk S ?O) (sys_write i bs) (\<lambda>_. on_disk S ?F) (\<lambda>_. ?H) ?H"
    by (rule hoare_conseq [OF hoare_sys_write [where P = ?O and Q = ?F and R = ?O]])
      (use temp_open_put in \<open>auto elim: on_disk_mono temp_open_holds\<close>)
  have st: "hoare (on_disk S ?F) (stepA F TmpWritten tmp) (\<lambda>_. on_disk S ?F) (\<lambda>_. ?H) ?H"
    by (rule hoare_conseq [OF keeps_hoare [of S ?F]]) (auto intro: keeps_intros elim!: on_disk_mono temp_open_holds)
  have sy: "hoare (on_disk S ?F) (sys (k_fsync i)) (\<lambda>_. on_disk S (ready m p A v tmp bs)) (\<lambda>_. ?H) ?H"
    by (rule hoare_conseq [OF hoare_sys_keep [where P = ?F and Q = "\<lambda>_. ready m p A v tmp bs"]])
      (auto intro: temp_open_fsync elim!: on_disk_mono temp_open_holds)
  have st2: "hoare (on_disk S (ready m p A v tmp bs)) (stepA F FileSynced tmp) (\<lambda>_. on_disk S (ready m p A v tmp bs)) (\<lambda>_. ?H) ?H"
    by (rule hoare_conseq [OF keeps_hoare [of S "ready m p A v tmp bs"]]) (auto intro: keeps_intros elim!: on_disk_mono ready_holds)
  show "hoare (on_disk S ?O) (thenA (whenA (\<not> fs_win F) applyMode)
        (thenA (sys_write i bs) (thenA (stepA F TmpWritten tmp) (thenA (sys (k_fsync i)) (stepA F FileSynced tmp)))))
      (\<lambda>_. on_disk S (ready m p A v tmp bs)) (\<lambda>_. ?H) ?H"
    by (rule hoare_then [OF mode hoare_then [OF wr hoare_then [OF st hoare_then [OF sy st2]]]])
  show "hoare (on_disk S (ready m p A v tmp bs)) (sys k_nothing) (\<lambda>_. on_disk S (ready m p A v tmp bs)) (\<lambda>_. ?H) ?H"
    by (rule hoare_conseq [OF keeps_hoare [of S "ready m p A v tmp bs"]]) (auto intro: keeps_intros elim!: on_disk_mono ready_holds)
  show "hoare ?H (sys k_nothing) (\<lambda>_. ?H) (\<lambda>_. ?H) ?H"
    by (rule keeps_hoare) (intro keeps_intros)
qed

lemma hoare_write_temp:
  assumes "tmp \<noteq> p"
  shows "hoare (on_disk S (holds m p A v)) (write_temp F key lockPath p tmp bs body)
    (\<lambda>_. on_disk S (holds m p (insert (Some bs) A) (Some bs))) (\<lambda>_. on_disk S (holds m p A v)) (on_disk S (holds m p A v))"
proof -
  let ?H = "on_disk S (holds m p A v)" and ?R = "on_disk S (ready m p A v tmp bs)"
  have cr: "hoare ?H (sys (k_create tmp)) (\<lambda>i. on_disk S (temp_open m p A v tmp i)) (\<lambda>_. ?H) ?H"
    by (rule hoare_sys_keep) (use temp_open_create assms in blast)
  have lk: "hoare ?R (assertHeld key lockPath body) (\<lambda>_. ?R) (\<lambda>_. ?H) ?H"
    by (rule hoare_conseq [OF keeps_hoare [of S "ready m p A v tmp bs"]]) (auto intro: keeps_intros elim!: on_disk_mono ready_holds)
  have rn: "hoare ?R (renameOver F tmp p) (\<lambda>_. on_disk S (holds m p (insert (Some bs) A) (Some bs))) (\<lambda>_. ?H) ?H"
    unfolding renameOver_def
    by (rule hoare_conseq [OF hoare_rename_attempts [OF assms]]) (auto elim!: on_disk_mono ready_holds)
  show ?thesis
    unfolding write_temp_def
    by (rule hoare_then [OF hoare_bind [OF cr hoare_fill_temp] hoare_then [OF lk rn]])
qed

text \<open>The file system can sync a directory: no call answers that it is not supported.\<close>

definition dirsync_ok :: "(outcome \<Rightarrow> bool) \<Rightarrow> bool" where
  "dirsync_ok S \<longleftrightarrow> \<not> may_fail S EINVAL \<and> \<not> may_fail S ENOTSUP"

definition settled :: "(outcome \<Rightarrow> bool) \<Rightarrow> bool \<Rightarrow> bytes option set \<Rightarrow> bytes option \<Rightarrow> bytes option set" where
  "settled S m B v = (if dirsync_ok S \<and> m then {v} else B)"

lemma holds_syncdir_now:
  assumes "holds m p B v d" "k_syncdir d = Inr (u, d')"
  shows "holds m p (settled S m B v) v d'"
proof -
  have "dk_madeDurable d' = dk_madeDurable d" using assms(2) by (auto simp: k_syncdir_def)
  then show ?thesis
    using assms good_syncdir_now [of p B d u d'] holds_syscalls(3) [OF assms]
    by (auto simp: holds_def settled_def)
qed

lemma settled_sub: "v \<in> B \<Longrightarrow> settled S m B v \<subseteq> B"
  by (auto simp: settled_def)

lemma settled_member: "holds m p B v d \<Longrightarrow> v \<in> settled S m B v"
  using good_file_at by (auto simp: settled_def holds_def)

lemma hoare_syncDirectory:
  assumes "v \<in> B"
  shows "hoare (on_disk S (holds m p B v)) syncDirectory
    (\<lambda>_. on_disk S (holds m p (settled S m B v) v)) (\<lambda>_. on_disk S (holds m p B v)) (on_disk S (holds m p B v))"
proof -
  let ?B = "holds m p B v" and ?C = "holds m p (settled S m B v) v"
  have op: "hoare (on_disk S ?B) (catchA (thenA (sys k_opendir) (retA True))
        (\<lambda>x. if code_in DIR_FSYNC_UNSUPPORTED x then retA False else throwA x))
      (\<lambda>opened. on_disk S (\<lambda>d. ?B d \<and> (opened \<or> \<not> dirsync_ok S))) (\<lambda>_. on_disk S ?B) (on_disk S ?B)"
  proof (rule hoare_catch [OF hoare_then [OF hoare_sys [where Q = "\<lambda>_. ?B" and D = ?B
          and E = "\<lambda>e d. ?B d \<and> (e = ENOENT \<or> may_fail S e)"]]])
    show "hoare (\<lambda>w. \<exists>e. x = IoError e \<and> on_disk S (\<lambda>d. ?B d \<and> (e = ENOENT \<or> may_fail S e)) w)
        (if code_in DIR_FSYNC_UNSUPPORTED x then retA False else throwA x)
        (\<lambda>opened. on_disk S (\<lambda>d. ?B d \<and> (opened \<or> \<not> dirsync_ok S))) (\<lambda>_. on_disk S ?B) (on_disk S ?B)" for x
      by (auto intro!: hoare_ret hoare_throw
          simp: code_in_def DIR_FSYNC_UNSUPPORTED_def dirsync_ok_def elim!: on_disk_mono)
  qed (auto intro!: hoare_ret simp: k_opendir_def elim: on_disk_mono split: if_splits)
  have sy: "hoare (on_disk S ?B) (catchA (sys k_syncdir) (\<lambda>x. if \<not> code_in DIR_FSYNC_UNSUPPORTED x then throwA x else retA ()))
      (\<lambda>_. on_disk S ?C) (\<lambda>_. on_disk S ?B) (on_disk S ?B)"
  proof (rule hoare_catch [OF hoare_sys [where Q = "\<lambda>_. ?C" and D = ?B and E = "\<lambda>e d. ?B d \<and> may_fail S e"]])
    show "hoare (\<lambda>w. \<exists>e. x = IoError e \<and> on_disk S (\<lambda>d. ?B d \<and> may_fail S e) w)
        (if \<not> code_in DIR_FSYNC_UNSUPPORTED x then throwA x else retA ())
        (\<lambda>_. on_disk S ?C) (\<lambda>_. on_disk S ?B) (on_disk S ?B)" for x
      by (auto intro!: hoare_ret hoare_throw
          simp: code_in_def DIR_FSYNC_UNSUPPORTED_def dirsync_ok_def settled_def elim!: on_disk_mono)
  qed (auto intro: holds_syncdir_now simp: k_syncdir_def)
  have cl: "hoare (on_disk S ?C) (sys k_nothing) (\<lambda>_. on_disk S ?C) (\<lambda>_. on_disk S ?B) (on_disk S ?B)"
    by (rule hoare_conseq [OF keeps_hoare [of S ?C]])
      (use settled_sub [OF assms] in \<open>auto intro: keeps_intros elim!: on_disk_mono holds_mono\<close>)
  have body: "hoare (on_disk S (\<lambda>d. ?B d \<and> (opened \<or> \<not> dirsync_ok S)))
      (if \<not> opened then retA ()
       else finallyA (catchA (sys k_syncdir) (\<lambda>x. if \<not> code_in DIR_FSYNC_UNSUPPORTED x then throwA x else retA ()))
              (sys k_nothing))
      (\<lambda>_. on_disk S ?C) (\<lambda>_. on_disk S ?B) (on_disk S ?B)" for opened
  proof (cases opened)
    case True
    have "hoare (on_disk S ?B) (finallyA (catchA (sys k_syncdir) (\<lambda>x. if \<not> code_in DIR_FSYNC_UNSUPPORTED x then throwA x else retA ()))
        (sys k_nothing)) (\<lambda>_. on_disk S ?C) (\<lambda>_. on_disk S ?B) (on_disk S ?B)"
      by (rule hoare_finally [OF sy cl]) (rule keeps_hoare, intro keeps_intros)
    with True show ?thesis by (auto elim: hoare_conseq elim!: on_disk_mono)
  next
    case False
    then show ?thesis by (auto intro!: hoare_ret simp: settled_def elim!: on_disk_mono)
  qed
  show ?thesis unfolding syncDirectory_def by (rule hoare_bind [OF op body])
qed

lemma keeps_syncTarget [keeps_intros]: "keeps S (holds m p A v) (syncTarget n)"
  unfolding syncTarget_def by (intro keeps_intros)

lemma hoare_after_rename:
  assumes "v \<in> B"
  shows "hoare (on_disk S (holds m p B v)) (after_rename F p)
    (\<lambda>_. on_disk S (holds m p (if fs_win F then B else settled S m B v) v))
    (\<lambda>_. on_disk S (holds m p B v)) (on_disk S (holds m p B v))"
proof -
  let ?B = "holds m p B v" and ?C = "holds m p (settled S m B v) v"
  have st: "hoare (on_disk S ?B) (stepA F Renamed p) (\<lambda>_. on_disk S ?B) (\<lambda>_. on_disk S ?B) (on_disk S ?B)"
    by (rule keeps_hoare) (intro keeps_intros)
  have st2: "hoare (on_disk S ?C) (stepA F DirSynced p) (\<lambda>_. on_disk S ?C) (\<lambda>_. on_disk S ?B) (on_disk S ?B)"
    by (rule hoare_conseq [OF keeps_hoare [of S ?C]])
      (use settled_sub [OF assms] in \<open>auto intro: keeps_intros elim!: on_disk_mono holds_mono\<close>)
  show ?thesis
  proof (cases "fs_win F")
    case True
    have "keeps S ?B (bindA (syncTarget p) (\<lambda>ok. if ok then stepA F TargetSynced p else retA ()))"
      by (intro keeps_intros)
    with True st show ?thesis
      unfolding after_rename_def by (auto intro: hoare_then keeps_hoare)
  next
    case False
    then show ?thesis
      unfolding after_rename_def
      by (simp add: hoare_then [OF st hoare_then [OF hoare_syncDirectory [OF assms] st2]])
  qed
qed

lemma hoare_write_record:
  assumes "p \<noteq> []"
  shows "hoare (on_disk S (holds m p A v)) (write_record F key lockPath p payload body)
    (\<lambda>_. on_disk S (holds m p (if fs_win F then insert (Some (envelope (fs_digest F) payload)) A
                       else settled S m (insert (Some (envelope (fs_digest F) payload)) A) (Some (envelope (fs_digest F) payload)))
           (Some (envelope (fs_digest F) payload))))
    (\<lambda>_ w. on_disk S (holds m p A v) w
       \<or> on_disk S (holds m p (insert (Some (envelope (fs_digest F) payload)) A) (Some (envelope (fs_digest F) payload))) w)
    (\<lambda>w. on_disk S (holds m p A v) w
       \<or> on_disk S (holds m p (insert (Some (envelope (fs_digest F) payload)) A) (Some (envelope (fs_digest F) payload))) w)"
proof -
  let ?bs = "envelope (fs_digest F) payload"
  let ?A = "on_disk S (holds m p A v)" and ?B = "on_disk S (holds m p (insert (Some ?bs) A) (Some ?bs))"
  let ?AB = "\<lambda>w. ?A w \<or> ?B w"
  have dr: "hoare ?A (draw (fs_suffix F)) (\<lambda>_. ?A) (\<lambda>_. ?AB) ?AB"
    by (rule hoare_conseq [OF keeps_hoare [of S "holds m p A v"]]) (auto intro: keeps_intros)
  have wt: "hoare ?A (catchA (write_temp F key lockPath p tmp ?bs body) (\<lambda>x. thenA (ignoreA (sys (k_rm tmp))) (throwA x)))
      (\<lambda>_. ?B) (\<lambda>_. ?AB) ?AB" if t: "tmp \<noteq> p" for tmp
  proof -
    have h: "hoare ?A (thenA (ignoreA (sys (k_rm tmp))) (throwA x)) (\<lambda>_. ?A) (\<lambda>_. ?A) ?A" for x :: store_error
      by (rule keeps_hoare) (use t in \<open>auto intro!: keeps_intros\<close>)
    have h': "hoare ?A (thenA (ignoreA (sys (k_rm tmp))) (throwA x)) (\<lambda>_. ?B) (\<lambda>_. ?A) ?A" for x :: store_error
      by (rule hoare_then [where R = ?A])
        (use t in \<open>auto intro!: hoare_throw hoare_ignore keeps_hoare keeps_intros\<close>)
    show ?thesis
      by (rule hoare_conseq [OF hoare_catch [OF hoare_write_temp [OF t] h']]) auto
  qed
  have af: "hoare ?B (after_rename F p)
      (\<lambda>_. on_disk S (holds m p (if fs_win F then insert (Some ?bs) A else settled S m (insert (Some ?bs) A) (Some ?bs)) (Some ?bs)))
      (\<lambda>_. ?AB) ?AB"
    by (rule hoare_conseq [OF hoare_after_rename]) auto
  have ne: "tmp \<noteq> p" if "underDir (temp_name F p suffix) = Inr tmp" for tmp suffix
    using that by (auto simp: underDir_def temp_name_def split: if_splits)
  show ?thesis
    unfolding write_record_def
    by (rule hoare_bind [OF dr hoare_lift_bind], erule hoare_then [OF wt [OF ne] af]) simp
qed

section \<open>The save\<close>

lemma keeps_hoare_sub:
  assumes "keeps S P m" "\<And>w. on_disk S P w \<Longrightarrow> E w"
  shows "hoare (on_disk S P) m (\<lambda>_. on_disk S P) (\<lambda>_. E) E"
  by (rule hoare_conseq [OF keeps_hoare [OF assms(1)]]) (use assms(2) in auto)

lemma hoare_disj: "hoare P m Q E D \<Longrightarrow> hoare P' m Q E D \<Longrightarrow> hoare (\<lambda>w. P w \<or> P' w) m Q E D"
  by (auto simp: hoare_def)

lemma pathFor_Inr:
  assumes "pathFor key = Inr p"
  obtains role sid where "parseFlowKey key = Inr (role, sid)" "p = record_name role sid"
  using assms by (auto simp: pathFor_def underDir_def result_simps split: if_splits)

lemma drop_json_record: "drop_json (record_name role sid) = role_name role @ CHR ''-'' # sid"
  by (simp add: drop_json_def record_name_def)

lemma lock_other:
  assumes "pathFor key = Inr p" "underDir (drop_json p @ ''.lock'') = Inr lockPath"
  shows "lockPath \<noteq> p"
proof (rule pathFor_Inr [OF assms(1)])
  fix role sid
  assume "p = record_name role sid"
  with assms(2) show ?thesis by (auto simp: underDir_def drop_json_record record_name_def split: if_splits)
qed

lemma path_nonempty: "pathFor key = Inr p \<Longrightarrow> p \<noteq> []"
  by (auto simp: record_name_def elim: pathFor_Inr)

lemma hoare_save:
  assumes "pathFor key = Inr p"
  shows "hoare (on_disk S (holds m p A v)) (save F key payload expected)
    (\<lambda>_. on_disk S (holds m p (if fs_win F then insert (Some (envelope (fs_digest F) payload)) A
                       else settled S m (insert (Some (envelope (fs_digest F) payload)) A) (Some (envelope (fs_digest F) payload)))
           (Some (envelope (fs_digest F) payload))))
    (\<lambda>_ w. on_disk S (holds m p A v) w
       \<or> on_disk S (holds m p (insert (Some (envelope (fs_digest F) payload)) A) (Some (envelope (fs_digest F) payload))) w)
    (\<lambda>w. on_disk S (holds m p A v) w
       \<or> on_disk S (holds m p (insert (Some (envelope (fs_digest F) payload)) A) (Some (envelope (fs_digest F) payload))) w)"
    (is "hoare ?A _ (\<lambda>_. ?C) (\<lambda>_. ?AB) ?AB")
proof -
  let ?bs = "envelope (fs_digest F) payload"
  let ?B = "on_disk S (holds m p (insert (Some ?bs) A) (Some ?bs))"
  note n = path_nonempty [OF assms] and l = lock_other [OF assms]
  have cb: "?C w \<Longrightarrow> ?B w" for w
    using settled_sub [of "Some ?bs" "insert (Some ?bs) A" S m]
    by (auto elim!: on_disk_mono holds_mono split: if_splits)
  have crit: "hoare ?A (finallyA (thenA (compare F key p expected) (thenA (removeStaleTemps p)
        (write_record F key lockPath p payload body))) (release lockPath body)) (\<lambda>_. ?C) (\<lambda>_. ?AB) ?AB"
    if u: "underDir (drop_json p @ ''.lock'') = Inr lockPath" for lockPath body
  proof (rule hoare_finally [where R = "\<lambda>_. ?C" and E' = "\<lambda>_. ?AB"])
    show "hoare ?A (thenA (compare F key p expected) (thenA (removeStaleTemps p) (write_record F key lockPath p payload body)))
        (\<lambda>_. ?C) (\<lambda>_. ?AB) ?AB"
      by (rule hoare_then [OF keeps_hoare_sub hoare_then [OF keeps_hoare_sub hoare_write_record [OF n]]])
        (intro keeps_intros, simp)+
    show "hoare ?C (release lockPath body) (\<lambda>_. ?C) (\<lambda>_. ?AB) ?AB"
      by (rule keeps_hoare_sub) (use l [OF u] cb in \<open>auto intro!: keeps_intros\<close>)
    show "hoare ?AB (release lockPath body) (\<lambda>_. ?AB) (\<lambda>_. ?AB) ?AB"
    proof (rule hoare_disj)
      show "hoare ?A (release lockPath body) (\<lambda>_. ?AB) (\<lambda>_. ?AB) ?AB"
        by (rule hoare_conseq [OF keeps_hoare [OF keeps_release [OF l [OF u]]]]) auto
      show "hoare ?B (release lockPath body) (\<lambda>_. ?AB) (\<lambda>_. ?AB) ?AB"
        by (rule hoare_conseq [OF keeps_hoare [OF keeps_release [OF l [OF u]]]]) auto
    qed
  qed
  have lk: "hoare ?A (thenA (sys k_mkdir) (bindA (acquireLock F key lockPath) (\<lambda>body.
      finallyA (thenA (compare F key p expected) (thenA (removeStaleTemps p) (write_record F key lockPath p payload body)))
        (release lockPath body)))) (\<lambda>_. ?C) (\<lambda>_. ?AB) ?AB"
    if u: "underDir (drop_json p @ ''.lock'') = Inr lockPath" for lockPath
    by (rule hoare_then [OF keeps_hoare_sub hoare_bind [OF keeps_hoare_sub crit [OF u]]])
      (use l [OF u] in \<open>auto intro!: keeps_intros\<close>)
  show ?thesis
    unfolding save_def assms bind_lift_Inr
    by (rule hoare_then [OF keeps_hoare_sub [OF keeps_lift] hoare_lift_bind [OF lk]]) simp_all
qed

section \<open>A small disk\<close>

definition demo_fs :: file_store where
  "demo_fs = \<lparr>fs_lockWaitMs = 5000, fs_win = False, fs_onStep = (\<lambda>st n. None), fs_pid = 7,
     fs_token = (\<lambda>n. replicate 16 (CHR ''0'')), fs_suffix = (\<lambda>n. replicate 12 (CHR ''a'')),
     fs_alive = (\<lambda>n. True), fs_digest = demo_hash\<rparr>"

definition demo_path :: string where
  "demo_path = ''buyer-0x'' @ replicate 64 (CHR ''a'') @ ''.json''"

definition demo_lock :: string where
  "demo_lock = ''buyer-0x'' @ replicate 64 (CHR ''a'') @ ''.lock''"

text \<open>One record, and a lock file when there is one.\<close>

definition demo_disk :: "string option \<Rightarrow> disk" where
  "demo_disk lock =
     (let dir = (\<lambda>n. if n = demo_path then Some 0 else if n = demo_lock then map_option (\<lambda>_. 1) lock else None)
      in \<lparr>dk_made = True, dk_madeDurable = True, dk_names = [demo_path, demo_lock], dk_dir = dir, dk_durable = (\<lambda>n. [dir n]),
          dk_data = (\<lambda>i. if i = 0 then envelope demo_hash [1] else to_latin1 (case lock of None \<Rightarrow> [] | Some l \<Rightarrow> l)),
          dk_synced = (\<lambda>_. True), dk_next = 2\<rparr>)"

definition demo_world :: "string option \<Rightarrow> outcome list \<Rightarrow> world" where
  "demo_world lock script = \<lparr>w_disk = demo_disk lock, w_script = script, w_held = [], w_draws = 0\<rparr>"

lemma demo_hash_ok: "digest_ok demo_hash"
  by (simp add: digest_ok_def SHA256_HEX_def run_of_def demo_hash_def lower_hex_def)

lemma underDir_ok: "n \<noteq> [] \<Longrightarrow> hd n \<noteq> CHR ''.'' \<Longrightarrow> CHR ''/'' \<notin> set n \<Longrightarrow> CHR 0x5C \<notin> set n \<Longrightarrow> underDir n = Inr n"
  by (cases n) (auto simp: underDir_def)

lemma demo_pathFor: "pathFor demo_key = Inr demo_path"
proof -
  have p: "parseFlowKey demo_key = Inr (BuyerRole, ''0x'' @ replicate 64 (CHR ''a''))" by (simp add: parseFlowKey_def)
  have "record_name BuyerRole (''0x'' @ replicate 64 (CHR ''a'')) = demo_path" by (simp add: record_name_def demo_path_def)
  moreover have "underDir demo_path = Inr demo_path" by (rule underDir_ok) (simp_all add: demo_path_def)
  ultimately show ?thesis by (simp add: pathFor_def p)
qed

lemma demo_lock_name: "underDir (drop_json demo_path @ ''.lock'') = Inr demo_lock"
proof -
  have p: "demo_path = record_name BuyerRole (''0x'' @ replicate 64 (CHR ''a''))" by (simp add: record_name_def demo_path_def)
  have "drop_json demo_path = role_name BuyerRole @ CHR ''-'' # (''0x'' @ replicate 64 (CHR ''a''))"
    unfolding p by (rule drop_json_record)
  then have "drop_json demo_path @ ''.lock'' = demo_lock" by (simp add: demo_lock_def)
  moreover have "underDir demo_lock = Inr demo_lock" by (rule underDir_ok) (simp_all add: demo_lock_def)
  ultimately show ?thesis by simp
qed

lemma demo_lock_path [simp]: "demo_lock \<noteq> demo_path" "demo_path \<noteq> demo_lock"
  using lock_other [OF demo_pathFor demo_lock_name] by auto

lemma demo_file_at [simp]: "file_at (demo_disk lock) demo_path = Some (envelope demo_hash [1])"
  by (simp add: file_at_def demo_disk_def Let_def)

lemma demo_good: "good demo_path {Some (envelope demo_hash [1])} (demo_disk lock)"
  by (simp add: good_def refs_def stored_as_def demo_disk_def Let_def)

lemma demo_world_simps [simp]:
  "w_disk (demo_world lock script) = demo_disk lock" "w_script (demo_world lock script) = script"
  by (simp_all add: demo_world_def)

theorem envelope_roundtrip_witness: "decode_payload demo_hash demo_key (envelope demo_hash [1]) = Inr [1]"
  by (rule envelope_roundtrip [OF demo_hash_ok]) (simp add: max_safe_def)

theorem damage_is_reported_witness:
  "\<exists>r. decode_payload demo_hash demo_key (take 70 (envelope demo_hash [1])) = Inl (FlowStoreCorruptError demo_key r)"
proof -
  have "70 < length (envelope demo_hash [1])" by (simp add: envelope_def flow_header_def demo_hash_def)
  with damage_is_reported [OF demo_hash_ok, of 70 "[1]" demo_key "[]"] show ?thesis by blast
qed

text \<open>C22. A save is atomic, whatever fails. Take a record whose file is \<open>old\<close> and is
  safe on the disk. Let a save run under any script: system calls that fail, writes that are cut
  short, the process killed at any point, stale and foreign locks, a refusal. Then, after a power
  cut that keeps or loses any unsynced name and garbles any unsynced file, the record's file is the
  old one or the complete new one.\<close>

theorem save_is_atomic:
  assumes "pathFor key = Inr p" "good p {old} (w_disk w)" "save F key payload expected w = (r, w')"
  shows "file_at (crash choice noise keep (w_disk w')) p \<in> {old, Some (envelope (fs_digest F) payload)}"
proof -
  let ?S = "\<lambda>_. True" and ?m = "dk_madeDurable (w_disk w)" and ?bs = "envelope (fs_digest F) payload"
  have pre: "on_disk ?S (holds ?m p {old} old) w"
    using assms(2) good_file_at by (auto simp: on_disk_def holds_def list_all_iff)
  have ab: "holds ?m p {old} old d \<or> holds ?m p (insert (Some ?bs) {old}) (Some ?bs) d
      \<Longrightarrow> good p {old, Some ?bs} d" for d
    by (auto simp: holds_def elim: good_mono)
  have "good p {old, Some ?bs} (w_disk w')"
  proof (cases r)
    case (Ret u)
    from hoare_Ret [OF hoare_save [OF assms(1)] pre, of F payload expected u w'] assms(3) Ret
    show ?thesis
      using settled_sub [of "Some ?bs" "{old, Some ?bs}" ?S ?m]
      by (auto simp: on_disk_def holds_def insert_commute split: if_splits elim: good_mono)
  next
    case (Throw x)
    from hoare_Throw [OF hoare_save [OF assms(1)] pre, of F payload expected x w'] assms(3) Throw ab
    show ?thesis by (auto simp: on_disk_def)
  next
    case Died
    from hoare_Died [OF hoare_save [OF assms(1)] pre, of F payload expected w'] assms(3) Died ab
    show ?thesis by (auto simp: on_disk_def)
  qed
  then show ?thesis by (rule good_crash)
qed

theorem save_is_atomic_witness:
  "\<exists>r w'. save demo_fs demo_key [2] (Some (demo_hash [1])) (demo_world None [Fine, Fine, Fails EIO, Fine, DiesCut 3]) = (r, w')
     \<and> file_at (crash (\<lambda>_. 1) (\<lambda>_. [0]) False (w_disk w')) demo_path
       \<in> {Some (envelope demo_hash [1]), Some (envelope (fs_digest demo_fs) [2])}"
proof -
  obtain r w' where s: "save demo_fs demo_key [2] (Some (demo_hash [1])) (demo_world None [Fine, Fine, Fails EIO, Fine, DiesCut 3]) = (r, w')"
    by fastforce
  have "good demo_path {Some (envelope demo_hash [1])} (w_disk (demo_world None [Fine, Fine, Fails EIO, Fine, DiesCut 3]))"
    using demo_good by simp
  from save_is_atomic [OF demo_pathFor this s] s show ?thesis by blast
qed

lemma durable_file:
  assumes "pathFor key = Inr p" "good p {old} (w_disk w)" "save F key payload expected w = (Ret u, w')"
    and "\<not> fs_win F" "dk_madeDurable (w_disk w)" "list_all S (w_script w)" "dirsync_ok S"
  shows "file_at (crash choice noise keep (w_disk w')) p = Some (envelope (fs_digest F) payload)"
proof -
  let ?bs = "envelope (fs_digest F) payload"
  have pre: "on_disk S (holds True p {old} old) w"
    using assms(2,5,6) good_file_at by (auto simp: on_disk_def holds_def)
  from hoare_Ret [OF hoare_save [OF assms(1)] pre assms(3)] assms(4,7)
  have "good p {Some ?bs} (w_disk w')" by (simp add: on_disk_def holds_def settled_def)
  then have "file_at (crash choice noise keep (w_disk w')) p \<in> {Some ?bs}" by (rule good_crash)
  then show ?thesis by simp
qed

section \<open>A writer that is out of date\<close>

text \<open>A call fails with \<open>ENOENT\<close> only when there is no file.\<close>

definition honest :: "(outcome \<Rightarrow> bool) \<Rightarrow> bool" where
  "honest S \<longleftrightarrow> \<not> may_fail S ENOENT"

text \<open>The compare on the bytes of the record's file; a damaged file matches nothing.\<close>

definition file_matches :: "(bytes \<Rightarrow> string) \<Rightarrow> string \<Rightarrow> bytes option \<Rightarrow> string option \<Rightarrow> bool" where
  "file_matches H key v expected =
     (case expected of
        None \<Rightarrow> v = None
      | Some x \<Rightarrow> (case v of
                    None \<Rightarrow> False
                  | Some f \<Rightarrow> (case decode_payload H key f of Inl e \<Rightarrow> False | Inr pl \<Rightarrow> H pl = x)))"

lemma hoare_exists_file:
  assumes "honest S"
  shows "hoare (on_disk S (holds m p A v)) (exists_file p) (\<lambda>b. on_disk S (\<lambda>d. holds m p A v d \<and> b = (v \<noteq> None)))
    (\<lambda>_. on_disk S (holds m p A v)) (on_disk S (holds m p A v))"
  unfolding exists_file_def
proof (rule hoare_catch [OF hoare_then [OF hoare_sys [where Q = "\<lambda>_ d. holds m p A v d \<and> v \<noteq> None"
        and E = "\<lambda>e d. holds m p A v d \<and> (e = ENOENT \<longrightarrow> v = None)" and D = "holds m p A v"]]])
  show "hoare (\<lambda>w. \<exists>e. x = IoError e \<and> on_disk S (\<lambda>d. holds m p A v d \<and> (e = ENOENT \<longrightarrow> v = None)) w)
      (if x = IoError ENOENT then retA False else throwA x)
      (\<lambda>b. on_disk S (\<lambda>d. holds m p A v d \<and> b = (v \<noteq> None))) (\<lambda>_. on_disk S (holds m p A v)) (on_disk S (holds m p A v))" for x
    by (auto intro!: hoare_ret hoare_throw elim!: on_disk_mono)
qed (use assms in \<open>auto intro!: hoare_ret simp: k_stat_def holds_def file_at_def honest_def elim!: on_disk_mono split: if_splits\<close>)

lemma hoare_read_or_missing:
  assumes "honest S"
  shows "hoare (on_disk S (holds m p A v)) (read_or_missing p) (\<lambda>b. on_disk S (\<lambda>d. holds m p A v d \<and> b = v))
    (\<lambda>_. on_disk S (holds m p A v)) (on_disk S (holds m p A v))"
  unfolding read_or_missing_def
proof (rule hoare_catch [OF hoare_bind [OF hoare_sys [where Q = "\<lambda>b d. holds m p A v d \<and> v = Some b"
        and E = "\<lambda>e d. holds m p A v d \<and> (e = ENOENT \<longrightarrow> v = None)" and D = "holds m p A v"]]])
  show "hoare (\<lambda>w. \<exists>e. x = IoError e \<and> on_disk S (\<lambda>d. holds m p A v d \<and> (e = ENOENT \<longrightarrow> v = None)) w)
      (if x = IoError ENOENT then retA None else throwA x)
      (\<lambda>b. on_disk S (\<lambda>d. holds m p A v d \<and> b = v)) (\<lambda>_. on_disk S (holds m p A v)) (on_disk S (holds m p A v))" for x
    by (auto intro!: hoare_ret hoare_throw elim!: on_disk_mono)
qed (use assms in \<open>auto intro!: hoare_ret simp: k_read_def holds_def honest_def elim!: on_disk_mono split: option.splits\<close>)

lemma hoare_readPayload:
  assumes "honest S"
  shows "hoare (on_disk S (holds m p A v)) (readPayload F p key)
    (\<lambda>b. on_disk S (\<lambda>d. holds m p A v d \<and> (case v of None \<Rightarrow> b = None
        | Some f \<Rightarrow> \<exists>pl. decode_payload (fs_digest F) key f = Inr pl \<and> b = Some pl)))
    (\<lambda>_. on_disk S (holds m p A v)) (on_disk S (holds m p A v))"
  unfolding readPayload_def
proof (rule hoare_bind [OF hoare_read_or_missing [OF assms]])
  fix fb
  show "hoare (on_disk S (\<lambda>d. holds m p A v d \<and> fb = v))
      (case fb of None \<Rightarrow> retA None
       | Some bs \<Rightarrow> bindA (liftA (decode_payload (fs_digest F) key bs)) (\<lambda>p. retA (Some p)))
      (\<lambda>b. on_disk S (\<lambda>d. holds m p A v d \<and> (case v of None \<Rightarrow> b = None
        | Some f \<Rightarrow> \<exists>pl. decode_payload (fs_digest F) key f = Inr pl \<and> b = Some pl)))
      (\<lambda>_. on_disk S (holds m p A v)) (on_disk S (holds m p A v))"
    by (cases fb) (auto intro!: hoare_ret hoare_lift_bind elim!: on_disk_mono)
qed

lemma hoare_compare:
  assumes "honest S"
  shows "hoare (on_disk S (holds m p A v)) (compare F key p e)
    (\<lambda>_. on_disk S (\<lambda>d. holds m p A v d \<and> file_matches (fs_digest F) key v e))
    (\<lambda>_. on_disk S (holds m p A v)) (on_disk S (holds m p A v))"
proof (cases e)
  case None
  show ?thesis
    unfolding compare_def None option.case
    by (rule hoare_bind [OF hoare_exists_file [OF assms]])
      (auto intro!: hoare_ret hoare_throw simp: file_matches_def elim!: on_disk_mono)
next
  case (Some x)
  show ?thesis
    unfolding compare_def Some option.case
  proof (rule hoare_bind [OF hoare_readPayload [OF assms]])
    fix c
    show "hoare (on_disk S (\<lambda>d. holds m p A v d \<and> (case v of None \<Rightarrow> c = None
          | Some f \<Rightarrow> \<exists>pl. decode_payload (fs_digest F) key f = Inr pl \<and> c = Some pl)))
        (case c of None \<Rightarrow> throwA (FlowRecordStaleError key x None)
         | Some p \<Rightarrow> let actual = fs_digest F p in if actual \<noteq> x then throwA (FlowRecordStaleError key x (Some actual)) else retA ())
        (\<lambda>_. on_disk S (\<lambda>d. holds m p A v d \<and> file_matches (fs_digest F) key v (Some x)))
        (\<lambda>_. on_disk S (holds m p A v)) (on_disk S (holds m p A v))"
      by (cases c; cases v) (auto intro!: hoare_ret hoare_throw simp: file_matches_def Let_def elim!: on_disk_mono)
  qed
qed

lemma hoare_False: "(\<And>w. \<not> P w) \<Longrightarrow> hoare P m Q E D"
  by (simp add: hoare_def)

lemma hoare_stale_save:
  assumes "pathFor key = Inr p" "honest S" "\<not> file_matches (fs_digest F) key v expected"
  shows "hoare (on_disk S (holds m p A v)) (save F key payload expected)
    (\<lambda>_ _. False) (\<lambda>_. on_disk S (holds m p A v)) (on_disk S (holds m p A v))"
    (is "hoare ?A _ _ _ _")
proof -
  have crit: "hoare ?A (finallyA (thenA (compare F key p expected) (thenA (removeStaleTemps p)
        (write_record F key lockPath p payload body))) (release lockPath body)) (\<lambda>_ _. False) (\<lambda>_. ?A) ?A"
    if u: "underDir (drop_json p @ ''.lock'') = Inr lockPath" for lockPath body
  proof (rule hoare_finally [where R = "\<lambda>_ _. False" and E' = "\<lambda>_. ?A"])
    show "hoare ?A (thenA (compare F key p expected) (thenA (removeStaleTemps p) (write_record F key lockPath p payload body)))
        (\<lambda>_ _. False) (\<lambda>_. ?A) ?A"
      by (rule hoare_then [OF hoare_compare [OF assms(2)] hoare_False]) (simp add: assms(3) on_disk_def)
    show "hoare ?A (release lockPath body) (\<lambda>_. ?A) (\<lambda>_. ?A) ?A"
      by (rule keeps_hoare [OF keeps_release [OF lock_other [OF assms(1) u]]])
  qed (rule hoare_False, simp)
  have lk: "hoare ?A (thenA (sys k_mkdir) (bindA (acquireLock F key lockPath) (\<lambda>body.
      finallyA (thenA (compare F key p expected) (thenA (removeStaleTemps p) (write_record F key lockPath p payload body)))
        (release lockPath body)))) (\<lambda>_ _. False) (\<lambda>_. ?A) ?A"
    if u: "underDir (drop_json p @ ''.lock'') = Inr lockPath" for lockPath
    by (rule hoare_then [OF keeps_hoare hoare_bind [OF keeps_hoare crit [OF u]]])
      (use lock_other [OF assms(1) u] in \<open>auto intro!: keeps_intros\<close>)
  show ?thesis
    unfolding save_def assms(1) bind_lift_Inr
    by (rule hoare_then [OF keeps_hoare [OF keeps_lift] hoare_lift_bind [OF lk]]) simp_all
qed

text \<open>A writer that is out of date never changes the record: when the stored record is not
  the one the caller expects (or is damaged, or there is one although the caller wants to create it),
  a save does not return, whatever else fails, and the record's file is the same as before, now and
  after a power cut.\<close>

theorem stale_save_changes_nothing:
  assumes "pathFor key = Inr p" "good p {old} (w_disk w)" "list_all S (w_script w)" "honest S"
    and "\<not> file_matches (fs_digest F) key old expected" "save F key payload expected w = (r, w')"
  shows "(\<forall>u. r \<noteq> Ret u) \<and> file_at (w_disk w') p = old \<and> file_at (crash choice noise keep (w_disk w')) p = old"
proof -
  let ?m = "dk_madeDurable (w_disk w)"
  have pre: "on_disk S (holds ?m p {old} old) w"
    using assms(2,3) good_file_at by (auto simp: on_disk_def holds_def)
  have "(\<forall>u. r \<noteq> Ret u) \<and> holds ?m p {old} old (w_disk w')"
    using hoareD [OF hoare_stale_save [OF assms(1,4,5)] pre, of payload] assms(6)
    by (cases r) (auto simp: on_disk_def)
  then show ?thesis using good_crash [of p "{old}" "w_disk w'" choice noise keep] by (auto simp: holds_def)
qed

theorem stale_save_changes_nothing_witness:
  "\<exists>r w'. save demo_fs demo_key [2] None (demo_world None [Fine, Fails EIO]) = (r, w')
     \<and> (\<forall>u. r \<noteq> Ret u) \<and> file_at (w_disk w') demo_path = Some (envelope demo_hash [1])"
proof -
  let ?S = "\<lambda>oc. oc \<in> {Fine, Fails EIO}"
  obtain r w' where s: "save demo_fs demo_key [2] None (demo_world None [Fine, Fails EIO]) = (r, w')" by fastforce
  have "good demo_path {Some (envelope demo_hash [1])} (w_disk (demo_world None [Fine, Fails EIO]))" using demo_good by simp
  moreover have "list_all ?S (w_script (demo_world None [Fine, Fails EIO]))" "honest ?S"
    by (simp_all add: honest_def may_fail_def)
  moreover have "\<not> file_matches (fs_digest demo_fs) demo_key (Some (envelope demo_hash [1])) None"
    by (simp add: file_matches_def)
  ultimately show ?thesis using stale_save_changes_nothing [OF demo_pathFor _ _ _ _ s] s by blast
qed

section \<open>A lock that a live process holds\<close>

text \<open>Equal disks, but for the directory itself having been made.\<close>

definition same_disk :: "disk \<Rightarrow> disk \<Rightarrow> bool" where
  "same_disk d0 d \<longleftrightarrow> d\<lparr>dk_made := True\<rparr> = d0\<lparr>dk_made := True\<rparr>"

lemma same_disk_fields: "same_disk d0 d \<Longrightarrow> dk_dir d = dk_dir d0 \<and> dk_data d = dk_data d0 \<and> dk_durable d = dk_durable d0"
  by (drule same_disk_def [THEN iffD1]) (cases d; cases d0; simp)

lemma same_disk_file_at: "same_disk d0 d \<Longrightarrow> file_at d n = file_at d0 n"
  by (auto simp: file_at_def dest: same_disk_fields)

lemma keeps_same_mkdir: "keeps S (same_disk d0) (sys k_mkdir)"
  by (rule keeps_sys) (auto simp: same_disk_def k_mkdir_def)

lemma hoare_try_taken:
  assumes "dk_dir d0 n \<noteq> None"
  shows "hoare (on_disk S (same_disk d0)) (tryCreateLock F n b) (\<lambda>b. on_disk S (\<lambda>d. same_disk d0 d \<and> \<not> b))
    (\<lambda>_. on_disk S (same_disk d0)) (on_disk S (same_disk d0))"
  unfolding tryCreateLock_def
proof (rule hoare_bind [where R = "\<lambda>i. on_disk S (\<lambda>d. same_disk d0 d \<and> i = None)"])
  have n: "dk_dir d n \<noteq> None" if "same_disk d0 d" for d
    using same_disk_fields [OF that] assms by simp
  show "hoare (on_disk S (same_disk d0))
      (catchA (bindA (sys (k_create n)) (\<lambda>i. retA (Some i)))
        (\<lambda>x. if x = IoError EEXIST then retA None
             else if fs_win F \<and> code_in (\<lambda>e. e \<in> {EPERM, EACCES, EBUSY}) x then retA None else throwA x))
      (\<lambda>i. on_disk S (\<lambda>d. same_disk d0 d \<and> i = None)) (\<lambda>_. on_disk S (same_disk d0)) (on_disk S (same_disk d0))"
  proof (rule hoare_catch [OF hoare_bind [OF hoare_sys_keep [where Q = "\<lambda>_ _. False"]]])
    show "hoare (on_disk S (same_disk d0))
        (if x = IoError EEXIST then retA None
         else if fs_win F \<and> code_in (\<lambda>e. e \<in> {EPERM, EACCES, EBUSY}) x then retA None else throwA x)
        (\<lambda>i. on_disk S (\<lambda>d. same_disk d0 d \<and> i = None)) (\<lambda>_. on_disk S (same_disk d0)) (on_disk S (same_disk d0))" for x
      by (auto intro!: hoare_ret hoare_throw elim: on_disk_mono)
  qed (use n in \<open>auto simp: k_create_def Let_def on_disk_def intro!: hoare_False split: if_splits\<close>)
  show "hoare (on_disk S (\<lambda>d. same_disk d0 d \<and> i = None))
      (case i of None \<Rightarrow> retA False
       | Some i \<Rightarrow> thenA (catchA (sys_write i (to_latin1 b))
            (\<lambda>x. thenA (ignoreA (sys k_nothing)) (thenA (ignoreA (sys (k_rm n))) (throwA x))))
          (thenA (sys k_nothing) (retA True)))
      (\<lambda>b. on_disk S (\<lambda>d. same_disk d0 d \<and> \<not> b)) (\<lambda>_. on_disk S (same_disk d0)) (on_disk S (same_disk d0))" for i
  proof (cases i)
    case None
    then show ?thesis by (auto intro!: hoare_ret elim: on_disk_mono)
  next
    case (Some j)
    then show ?thesis by (intro hoare_False) (simp add: on_disk_def)
  qed
qed

lemma hoare_readLockFile_same:
  "hoare (on_disk S (same_disk d0)) (readLockFile n)
    (\<lambda>h. on_disk S (\<lambda>d. same_disk d0 d \<and> (\<forall>c. h = LockFile c \<longrightarrow> (\<exists>b. file_at d0 n = Some b \<and> c = lock_content_of b))))
    (\<lambda>_. on_disk S (same_disk d0)) (on_disk S (same_disk d0))"
  unfolding readLockFile_def
proof (rule hoare_catch [OF hoare_bind [OF hoare_sys_keep [where Q = "\<lambda>b d. same_disk d0 d \<and> file_at d0 n = Some b"]]])
  show "hoare (on_disk S (same_disk d0))
      (if x = IoError ENOENT then retA NoLockFile
       else if code_in (\<lambda>e. e \<in> {EPERM, EACCES, EBUSY}) x then retA Unreadable else throwA x)
      (\<lambda>h. on_disk S (\<lambda>d. same_disk d0 d \<and> (\<forall>c. h = LockFile c \<longrightarrow> (\<exists>b. file_at d0 n = Some b \<and> c = lock_content_of b))))
      (\<lambda>_. on_disk S (same_disk d0)) (on_disk S (same_disk d0))" for x
    by (auto intro!: hoare_ret hoare_throw elim!: on_disk_mono)
qed (auto intro!: hoare_ret simp: k_read_def same_disk_file_at elim!: on_disk_mono split: option.splits)

lemma live_lock_turn:
  assumes "lc_pid c = Some pid" "pid \<noteq> fs_pid F" "processAlive F pid"
  shows "lock_turn_of F key n held (LockFile c) waited breaks vanished unparsed
    = (if waited \<ge> fs_lockWaitMs F then GiveUp (FlowStoreLockedError key n (Some pid) HeldByOther)
       else TryAgain (waited + LOCK_POLL_MS) vanished None)"
  using assms by (simp add: lock_turn_of_def lock_stale_def)

lemma hoare_acquire_taken:
  assumes "file_at d0 n = Some (to_latin1 raw)" "LOCK_BODY raw = Some pid" "pid \<noteq> fs_pid F" "processAlive F pid"
  shows "hoare (on_disk S (same_disk d0)) (acquire_loop F key n b k waited breaks vanished unparsed)
    (\<lambda>_ _. False) (\<lambda>_. on_disk S (same_disk d0)) (on_disk S (same_disk d0))"
proof (induction k arbitrary: waited breaks vanished unparsed)
  case 0
  show ?case unfolding acquire_loop.simps by (rule hoare_throw)
next
  case (Suc k)
  let ?P = "on_disk S (same_disk d0)"
  have t: "dk_dir d0 n \<noteq> None" using assms(1) by (auto simp: file_at_def)
  have held: "hoare (on_disk S Q) held_bodies (\<lambda>_. on_disk S Q) (\<lambda>_. ?P) ?P" for Q
    by (simp add: hoare_def held_bodies_def)
  let ?go = "\<lambda>holder held. case lock_turn_of F key n held holder waited breaks vanished unparsed of
      TryAgain waited' vanished' unparsed' \<Rightarrow> acquire_loop F key n b k waited' breaks vanished' unparsed'
    | BreakIt raw \<Rightarrow> thenA (breakLock n raw) (acquire_loop F key n b k waited (Suc breaks) vanished None)
    | GiveUp x \<Rightarrow> throwA x"
  let ?R = "\<lambda>holder. on_disk S (\<lambda>d. same_disk d0 d
      \<and> (\<forall>c. holder = LockFile c \<longrightarrow> (\<exists>b. file_at d0 n = Some b \<and> c = lock_content_of b)))"
  have turn: "hoare (?R holder) (?go holder held) (\<lambda>_ _. False) (\<lambda>_. ?P) ?P" for holder held
  proof (cases "\<exists>raw. lock_turn_of F key n held holder waited breaks vanished unparsed = BreakIt raw")
    case True
    then obtain c where c: "holder = LockFile c" "lock_stale F held unparsed c"
      by (auto simp: lock_turn_of_def split: lock_read.splits if_splits)
    show ?thesis
      by (rule hoare_False) (use c assms in \<open>auto simp: on_disk_def lock_stale_def lock_content_of_def\<close>)
  next
    case False
    then show ?thesis
      by (cases "lock_turn_of F key n held holder waited breaks vanished unparsed")
        (auto intro!: hoare_throw intro: hoare_conseq [OF Suc.IH] elim!: on_disk_mono)
  qed
  have "hoare (on_disk S (\<lambda>d. same_disk d0 d \<and> \<not> created))
      (if created then retA () else bindA (readLockFile n) (\<lambda>holder. bindA held_bodies (?go holder)))
      (\<lambda>_ _. False) (\<lambda>_. ?P) ?P" for created
  proof (cases created)
    case True
    then show ?thesis by (auto intro!: hoare_ret simp: on_disk_def)
  next
    case False
    then show ?thesis
      using hoare_bind [OF hoare_readLockFile_same [of S d0 n] hoare_bind [OF held turn]] by simp
  qed
  then show ?case
    unfolding acquire_loop.simps by (rule hoare_bind [OF hoare_try_taken [OF t]])
qed

text \<open>A lock that a live process holds is never broken: when the record's lock file names the
  pid of another live process, a save does not return, and it leaves the disk as it was (but for
  making the store's directory): the lock, the record and every other file, whatever calls fail
  and however often the loop turns.\<close>

theorem live_lock_is_respected:
  assumes "pathFor key = Inr p" "underDir (drop_json p @ ''.lock'') = Inr lockPath"
    and "file_at (w_disk w) lockPath = Some (to_latin1 raw)" "LOCK_BODY raw = Some pid"
    and "pid \<noteq> fs_pid F" "processAlive F pid" "save F key payload expected w = (r, w')"
  shows "(\<forall>u. r \<noteq> Ret u) \<and> same_disk (w_disk w) (w_disk w')"
proof -
  let ?S = "\<lambda>_. True" and ?d = "w_disk w"
  let ?P = "on_disk ?S (same_disk ?d)"
  have acq: "hoare ?P (acquireLock F key lockPath) (\<lambda>_ _. False) (\<lambda>_. ?P) ?P"
  proof -
    have c: "hoare ?P (catchA (acquire_loop F key lockPath b LOCK_MAX_ITERATIONS 0 0 0 None)
        (\<lambda>x. thenA (unhold b) (throwA x))) (\<lambda>_ _. False) (\<lambda>_. ?P) ?P" for b
      by (rule hoare_catch [OF hoare_acquire_taken [OF assms(3-6)] hoare_then [OF keeps_hoare]])
        (auto intro: keeps_intros hoare_throw)
    show ?thesis
      unfolding acquireLock_def Let_def
      by (rule hoare_bind [OF keeps_hoare hoare_then [OF keeps_hoare hoare_then [OF c hoare_False]]])
        (auto intro: keeps_intros)
  qed
  have "hoare ?P (save F key payload expected) (\<lambda>_ _. False) (\<lambda>_. ?P) ?P"
    unfolding save_def assms(1,2) bind_lift_Inr
    by (rule hoare_then [OF keeps_hoare [OF keeps_lift] hoare_then [OF keeps_hoare [OF keeps_same_mkdir]
          hoare_bind [OF acq hoare_False]]]) simp
  moreover have "?P w" by (simp add: on_disk_def same_disk_def list_all_iff)
  ultimately show ?thesis
    using hoareD [of ?P "save F key payload expected" _ _ _ w] assms(7) by (cases r) (force simp: on_disk_def)+
qed

theorem live_lock_is_respected_witness:
  "\<exists>r w'. save demo_fs demo_key [2] (Some (demo_hash [1])) (demo_world (Some (''9'' @ LF # replicate 16 (CHR ''0'') @ [LF])) []) = (r, w')
     \<and> (\<forall>u. r \<noteq> Ret u)"
proof -
  let ?raw = "''9'' @ LF # (replicate 16 (CHR ''0'') @ LF # [])" and ?w = "demo_world (Some (''9'' @ LF # replicate 16 (CHR ''0'') @ [LF])) []"
  obtain r w' where s: "save demo_fs demo_key [2] (Some (demo_hash [1])) ?w = (r, w')" by fastforce
  have "file_at (w_disk ?w) demo_lock = Some (to_latin1 ?raw)" by (simp add: file_at_def demo_disk_def Let_def)
  moreover have "LOCK_BODY ?raw = Some 9"
    by (simp add: LOCK_BODY_def text_simps LF_def run_of_def digits_def lower_hex_def read_nat_def char_digit_def)
  moreover have "(9::nat) \<noteq> fs_pid demo_fs" "processAlive demo_fs 9" by (simp_all add: demo_fs_def processAlive_def)
  ultimately show ?thesis using live_lock_is_respected [OF demo_pathFor demo_lock_name _ _ _ _ s] s by blast
qed

end
