(* ===== verification/Flow_Live.thy ===== *)
theory Flow_Live
  imports Flow_Durable
begin

text \<open>
  The file store of \<open>src/client/flow-store.ts\<close> when nothing fails: a save whose
  caller expects what is stored goes through, and the store is the compare-and-swap register of its
  interface.
\<close>

section \<open>Runs without failures\<close>

text \<open>From a disk with \<open>P\<close> and no failures scripted, the action returns.\<close>

definition runs :: "(disk \<Rightarrow> bool) \<Rightarrow> 'a act \<Rightarrow> ('a \<Rightarrow> disk \<Rightarrow> bool) \<Rightarrow> bool" where
  "runs P m Q \<longleftrightarrow>
     (\<forall>w. w_script w = [] \<and> P (w_disk w) \<longrightarrow> (\<exists>a w'. m w = (Ret a, w') \<and> w_script w' = [] \<and> Q a (w_disk w')))"

lemma runsI: "(\<And>w. w_script w = [] \<Longrightarrow> P (w_disk w) \<Longrightarrow> \<exists>a w'. m w = (Ret a, w') \<and> w_script w' = [] \<and> Q a (w_disk w')) \<Longrightarrow> runs P m Q"
  by (simp add: runs_def)

lemma runsD: "runs P m Q \<Longrightarrow> w_script w = [] \<Longrightarrow> P (w_disk w) \<Longrightarrow> \<exists>a w'. m w = (Ret a, w') \<and> w_script w' = [] \<and> Q a (w_disk w')"
  by (simp add: runs_def)

lemma runs_conseq: "runs P m Q \<Longrightarrow> (\<And>d. P' d \<Longrightarrow> P d) \<Longrightarrow> (\<And>a d. Q a d \<Longrightarrow> Q' a d) \<Longrightarrow> runs P' m Q'"
  unfolding runs_def by blast

lemma runs_ret: "(\<And>d. P d \<Longrightarrow> Q a d) \<Longrightarrow> runs P (retA a) Q"
  by (simp add: runs_def retA_def)

lemma runs_bind:
  assumes "runs P m R" "\<And>a. runs (R a) (f a) Q"
  shows "runs P (bindA m f) Q"
proof (rule runsI)
  fix w :: world
  assume "w_script w = []" "P (w_disk w)"
  from runsD [OF assms(1) this] obtain a w' where a: "m w = (Ret a, w')" "w_script w' = []" "R a (w_disk w')" by blast
  from runsD [OF assms(2) a(2,3)] show "\<exists>b v. bindA m f w = (Ret b, v) \<and> w_script v = [] \<and> Q b (w_disk v)"
    by (auto simp: bindA_def a(1))
qed

lemma runs_then: "runs P m (\<lambda>_. R) \<Longrightarrow> runs R n Q \<Longrightarrow> runs P (thenA m n) Q"
  unfolding thenA_def by (rule runs_bind)

lemma runs_catch: "runs P m Q \<Longrightarrow> runs P (catchA m h) Q"
  by (fastforce simp: runs_def catchA_def)

lemma runs_ignore: "runs P m (\<lambda>_. Q) \<Longrightarrow> runs P (ignoreA m) (\<lambda>_. Q)"
  unfolding ignoreA_def by (rule runs_catch)

lemma runs_finally:
  assumes "runs P m R" "\<And>a. runs (R a) f (\<lambda>_. Q a)"
  shows "runs P (finallyA m f) Q"
proof (rule runsI)
  fix w :: world
  assume "w_script w = []" "P (w_disk w)"
  from runsD [OF assms(1) this] obtain a w' where a: "m w = (Ret a, w')" "w_script w' = []" "R a (w_disk w')" by blast
  have "runs (R a) (thenA f (retA a)) Q"
    unfolding thenA_def by (rule runs_bind [OF assms(2)]) (rule runs_ret)
  from runsD [OF this a(2,3)] show "\<exists>b v. finallyA m f w = (Ret b, v) \<and> w_script v = [] \<and> Q b (w_disk v)"
    by (auto simp: finallyA_def a(1))
qed

lemma runs_when: "(b \<Longrightarrow> runs P m (\<lambda>_. Q)) \<Longrightarrow> (\<And>d. \<not> b \<Longrightarrow> P d \<Longrightarrow> Q d) \<Longrightarrow> runs P (whenA b m) (\<lambda>_. Q)"
  by (auto simp: whenA_def intro: runs_ret)

lemma runs_sys: "(\<And>d. P d \<Longrightarrow> \<exists>a d'. f d = Inr (a, d') \<and> Q a d') \<Longrightarrow> runs P (sys f) Q"
  by (rule runsI) (fastforce simp: sys_def Let_def)

lemma runs_nothing: "runs P (sys k_nothing) (\<lambda>_. P)"
  by (rule runs_sys) (simp add: k_nothing_def)

lemma runs_write: "(\<And>d. P d \<Longrightarrow> Q (k_put i bs d)) \<Longrightarrow> runs P (sys_write i bs) (\<lambda>_. Q)"
  by (rule runsI) (simp add: sys_write_def Let_def)

lemma runs_lift: "runs P (liftA (Inr a)) (\<lambda>b d. P d \<and> b = a)"
  by (simp add: liftA_def runs_ret)

lemma runs_draw: "runs P (draw f) (\<lambda>s d. P d \<and> (\<exists>k. s = f k))"
  by (rule runsI) (auto simp: draw_def)

lemma runs_hold: "runs P (hold b) (\<lambda>_. P)" "runs P (unhold b) (\<lambda>_. P)"
  by (rule runsI, simp add: hold_def unhold_def)+

section \<open>Files with one name\<close>

definition linked :: "disk \<Rightarrow> string \<Rightarrow> bytes \<Rightarrow> bool" where
  "linked d n b \<longleftrightarrow> (\<exists>i. dk_dir d n = Some i \<and> i < dk_next d \<and> dk_data d i = b \<and> (\<forall>n'. dk_dir d n' = Some i \<longrightarrow> n' = n))"

definition disk_ok :: "disk \<Rightarrow> bool" where
  "disk_ok d \<longleftrightarrow> dk_made d \<and> (\<forall>n i. dk_dir d n = Some i \<longrightarrow> i < dk_next d)"

lemma linked_file_at: "linked d n b \<Longrightarrow> file_at d n = Some b"
  by (auto simp: linked_def file_at_def)

text \<open>While a save holds its lock: the record's file, the lock's file, an absent name.\<close>

definition section_ok :: "string \<Rightarrow> bytes option \<Rightarrow> string \<Rightarrow> bytes \<Rightarrow> disk \<Rightarrow> bool" where
  "section_ok p v l lb d \<longleftrightarrow> disk_ok d \<and> file_at d p = v \<and> linked d l lb"

lemma linked_cong:
  assumes "linked d m b" "dk_dir d' m = dk_dir d m" "dk_next d \<le> dk_next d'"
    and "\<And>i. dk_dir d m = Some i \<Longrightarrow> dk_data d' i = dk_data d i"
    and "\<And>i n'. dk_dir d m = Some i \<Longrightarrow> dk_dir d' n' = Some i \<Longrightarrow> dk_dir d n' = Some i"
  shows "linked d' m b"
proof -
  obtain i where i: "dk_dir d m = Some i" "i < dk_next d" "dk_data d i = b" "\<And>n'. dk_dir d n' = Some i \<Longrightarrow> n' = m"
    using assms(1) unfolding linked_def by blast
  have "\<forall>n'. dk_dir d' n' = Some i \<longrightarrow> n' = m" using assms(5) [OF i(1)] i(4) by blast
  moreover have "dk_dir d' m = Some i" "i < dk_next d'" "dk_data d' i = b"
    using i(1-3) assms(2,3) assms(4) [OF i(1)] by simp_all
  ultimately show ?thesis unfolding linked_def by blast
qed

lemma linkedI:
  "dk_dir d n = Some i \<Longrightarrow> i < dk_next d \<Longrightarrow> dk_data d i = b \<Longrightarrow> (\<And>n'. dk_dir d n' = Some i \<Longrightarrow> n' = n) \<Longrightarrow> linked d n b"
  unfolding linked_def by blast

text \<open>What a call leaves of the names other than those it works on.\<close>

definition others_kept :: "string set \<Rightarrow> disk \<Rightarrow> disk \<Rightarrow> bool" where
  "others_kept N d d' \<longleftrightarrow>
     (\<forall>m. m \<notin> N \<longrightarrow> file_at d' m = file_at d m \<and> dk_dir d' m = dk_dir d m \<and> (\<forall>b. linked d m b \<longrightarrow> linked d' m b))"

lemma k_create_absent:
  assumes "disk_ok d" "dk_dir d n = None"
  shows "\<exists>i d'. k_create n d = Inr (i, d') \<and> disk_ok d' \<and> linked d' n [] \<and> dk_dir d' n = Some i \<and> others_kept {n} d d'"
proof -
  let ?i = "dk_next d"
  let ?d = "(set_entry d n (Some ?i))\<lparr>dk_data := (dk_data d)(?i := []), dk_synced := (dk_synced d)(?i := False), dk_next := Suc ?i\<rparr>"
  have c: "k_create n d = Inr (?i, ?d)" using assms by (simp add: k_create_def disk_ok_def Let_def)
  have lt: "dk_dir d m = Some i \<Longrightarrow> i < ?i" for m i using assms(1) by (simp add: disk_ok_def)
  have dir: "dk_dir ?d = (dk_dir d)(n := Some ?i)" by (simp add: set_entry_def)
  have data: "dk_data ?d = (dk_data d)(?i := [])" and nx: "dk_next ?d = Suc ?i" by simp_all
  have ok: "disk_ok ?d" using assms(1) by (simp add: disk_ok_def dir less_Suc_eq)
  have ln: "linked ?d n []" by (rule linkedI [of _ _ ?i]) (use lt in \<open>auto simp: dir split: if_splits\<close>)
  have "linked ?d m b" if "m \<noteq> n" "linked d m b" for m b
    by (rule linked_cong [OF that(2)]) (use that(1) lt in \<open>auto simp: dir split: if_splits\<close>)
  moreover have "file_at ?d m = file_at d m" if "m \<noteq> n" for m
    using that lt [of m] by (cases "dk_dir d m") (auto simp: file_at_def dir data)
  ultimately have "others_kept {n} d ?d" by (simp add: others_kept_def dir)
  with c ok ln show ?thesis by (auto simp: dir)
qed

lemma k_put_linked:
  assumes "linked d n b" "dk_dir d n = Some i" "disk_ok d"
  shows "disk_ok (k_put i bs d) \<and> linked (k_put i bs d) n bs \<and> others_kept {n} d (k_put i bs d)"
proof -
  obtain j where j: "dk_dir d n = Some j" "\<forall>n'. dk_dir d n' = Some j \<longrightarrow> n' = n"
    using assms(1) unfolding linked_def by blast
  have u: "n' = n" if "dk_dir d n' = Some i" for n' using j(1) assms(2) j(2) that by (metis option.inject)
  have l: "i < dk_next d" using assms(2,3) by (simp add: disk_ok_def)
  have "linked (k_put i bs d) m c" if "m \<noteq> n" "linked d m c" for m c
    by (rule linked_cong [OF that(2)]) (use that(1) u [of m] in \<open>auto simp: k_put_def\<close>)
  moreover have "file_at (k_put i bs d) m = file_at d m" if "m \<noteq> n" for m
    using that u [of m] by (cases "dk_dir d m") (auto simp: file_at_def k_put_def)
  moreover have "linked (k_put i bs d) n bs"
    by (rule linkedI [of _ _ i]) (simp_all add: k_put_def assms(2) l u)
  ultimately show ?thesis using assms(3) by (simp add: others_kept_def disk_ok_def k_put_def)
qed

lemma k_fsync_others: "\<exists>d'. k_fsync i d = Inr ((), d') \<and> disk_ok d' = disk_ok d \<and> others_kept {} d d'"
  by (simp add: k_fsync_def others_kept_def disk_ok_def file_at_def linked_def)

lemma k_rm_other:
  assumes "disk_ok d"
  shows "\<exists>d'. k_rm n d = Inr ((), d') \<and> disk_ok d' \<and> dk_dir d' n = None \<and> others_kept {n} d d'"
proof (cases "dk_dir d n")
  case None
  with assms show ?thesis by (simp add: k_rm_def others_kept_def)
next
  case (Some i)
  let ?d = "set_entry d n None"
  have dir: "dk_dir ?d = (dk_dir d)(n := None)" by (simp add: set_entry_def)
  have "linked ?d m b" if "m \<noteq> n" "linked d m b" for m b
    by (rule linked_cong [OF that(2)]) (use that(1) in \<open>auto simp: dir split: if_splits\<close>)
  then have "others_kept {n} d ?d" by (simp add: others_kept_def file_at_def dir)
  with Some assms show ?thesis by (simp add: k_rm_def disk_ok_def dir)
qed

lemma k_rename_linked:
  assumes "disk_ok d" "linked d t b" "t \<noteq> p"
  shows "\<exists>d'. k_rename t p d = Inr ((), d') \<and> disk_ok d' \<and> file_at d' p = Some b \<and> others_kept {t, p} d d'"
proof -
  obtain i where i: "dk_dir d t = Some i" "dk_data d i = b" and u: "\<And>n. dk_dir d n = Some i \<Longrightarrow> n = t"
    using assms(2) unfolding linked_def by blast
  let ?d = "set_entry (set_entry d p (Some i)) t None"
  have dir: "dk_dir ?d = (dk_dir d)(p := Some i, t := None)" by (simp add: set_entry_def)
  have "linked ?d m c" if "m \<noteq> t" "m \<noteq> p" "linked d m c" for m c
    by (rule linked_cong [OF that(3)]) (use that(1,2) u [of m] in \<open>auto simp: dir split: if_splits\<close>)
  then have "others_kept {t, p} d ?d" by (simp add: others_kept_def file_at_def dir)
  moreover have "disk_ok ?d" using assms(1) i(1) by (auto simp: disk_ok_def dir)
  ultimately show ?thesis using i assms(3) by (simp add: k_rename_def file_at_def dir)
qed

section \<open>The save when nothing fails\<close>

definition no_steps :: "file_store \<Rightarrow> bool" where
  "no_steps F \<longleftrightarrow> (\<forall>st n. fs_onStep F st n = None)"

lemma runs_step: "no_steps F \<Longrightarrow> runs P (stepA F st n) (\<lambda>_. P)"
  by (simp add: stepA_def no_steps_def runs_ret)

lemma others_section:
  "section_ok p v l lb d \<Longrightarrow> others_kept N d d' \<Longrightarrow> disk_ok d' \<Longrightarrow> p \<notin> N \<Longrightarrow> l \<notin> N \<Longrightarrow> section_ok p v l lb d'"
  by (simp add: section_ok_def others_kept_def)

text \<open>Reading a file that is there, or missing.\<close>

lemma sys_read: "w_script w = [] \<Longrightarrow> sys (k_read n) w
    = (case file_at (w_disk w) n of None \<Rightarrow> (Throw (IoError ENOENT), w) | Some b \<Rightarrow> (Ret b, w))"
  by (simp add: sys_def k_read_def Let_def split: option.split)

lemma read_or_missing_calm: "w_script w = [] \<Longrightarrow> read_or_missing n w = (Ret (file_at (w_disk w) n), w)"
  by (simp add: read_or_missing_def catchA_def bindA_def sys_read retA_def split: option.split)

lemma exists_file_calm: "w_script w = [] \<Longrightarrow> exists_file n w = (Ret (file_at (w_disk w) n \<noteq> None), w)"
  by (simp add: exists_file_def catchA_def thenA_def bindA_def sys_def k_stat_def Let_def retA_def file_at_def)

lemma compare_calm:
  assumes "w_script w = []" "file_matches (fs_digest F) key (file_at (w_disk w) p) e"
  shows "compare F key p e w = (Ret (), w)"
  using assms
  by (auto simp: compare_def file_matches_def bindA_def exists_file_calm readPayload_def read_or_missing_calm
      retA_def throwA_def liftA_def Let_def split: option.splits sum.splits)

lemma runs_compare:
  "runs (\<lambda>d. section_ok p v l lb d \<and> file_matches (fs_digest F) key v e) (compare F key p e) (\<lambda>_. section_ok p v l lb)"
  by (rule runsI) (auto simp: section_ok_def compare_calm)

lemma runs_remove_all:
  "p \<notin> set ns \<Longrightarrow> l \<notin> set ns \<Longrightarrow> \<forall>n \<in> set ns. underDir n = Inr n \<Longrightarrow>
    runs (\<lambda>d. section_ok p v l lb d \<and> (\<forall>t \<in> T. dk_dir d t = None)) (remove_all ns) (\<lambda>_ d. section_ok p v l lb d \<and> (\<forall>t \<in> T. dk_dir d t = None))"
proof (induction ns)
  case Nil
  show ?case unfolding remove_all.simps by (rule runs_ret)
next
  case (Cons n ns)
  have "runs (\<lambda>d. section_ok p v l lb d \<and> (\<forall>t \<in> T. dk_dir d t = None)) (sys (k_rm n)) (\<lambda>_ d. section_ok p v l lb d \<and> (\<forall>t \<in> T. dk_dir d t = None))"
  proof (rule runs_sys)
    fix d
    assume d: "section_ok p v l lb d \<and> (\<forall>t \<in> T. dk_dir d t = None)"
    then obtain d' where d': "k_rm n d = Inr ((), d')" "disk_ok d'" "dk_dir d' n = None" "others_kept {n} d d'"
      using k_rm_other [of d n] by (auto simp: section_ok_def)
    have "section_ok p v l lb d'"
      by (rule others_section [OF _ d'(4,2)]) (use d Cons.prems in auto)
    moreover have "(\<forall>t \<in> T. dk_dir d' t = None)"
      using d'(3,4) d by (metis others_kept_def singletonD)
    ultimately show "\<exists>a d'. k_rm n d = Inr (a, d') \<and> section_ok p v l lb d' \<and> (\<forall>t \<in> T. dk_dir d' t = None)"
      using d'(1) by blast
  qed
  moreover have "runs (\<lambda>d. section_ok p v l lb d \<and> (\<forall>t \<in> T. dk_dir d t = None)) (remove_all ns)
      (\<lambda>_ d. section_ok p v l lb d \<and> (\<forall>t \<in> T. dk_dir d t = None))" using Cons by simp
  ultimately have "runs (\<lambda>d. section_ok p v l lb d \<and> (\<forall>t \<in> T. dk_dir d t = None))
      (thenA (ignoreA (sys (k_rm n))) (remove_all ns)) (\<lambda>_ d. section_ok p v l lb d \<and> (\<forall>t \<in> T. dk_dir d t = None))"
    by (intro runs_then runs_ignore)
  then show ?case using Cons.prems by (simp add: bind_lift_Inr)
qed

text \<open>Names in the directory are plain, so each can be removed.\<close>

definition names_ok :: "disk \<Rightarrow> bool" where
  "names_ok d \<longleftrightarrow> (\<forall>n \<in> set (dk_names d). underDir n = Inr n)"

lemma runs_removeStaleTemps:
  assumes "\<not> is_stale_temp p l"
  shows "runs (\<lambda>d. section_ok p v l lb d \<and> (\<forall>t \<in> T. dk_dir d t = None) \<and> names_ok d) (removeStaleTemps p)
    (\<lambda>_ d. section_ok p v l lb d \<and> (\<forall>t \<in> T. dk_dir d t = None))"
proof (rule runsI)
  fix w :: world
  assume w: "w_script w = []" "section_ok p v l lb (w_disk w) \<and> (\<forall>t \<in> T. dk_dir (w_disk w) t = None) \<and> names_ok (w_disk w)"
  let ?ns = "filter (is_stale_temp p) (filter (\<lambda>n. dk_dir (w_disk w) n \<noteq> None) (dk_names (w_disk w)))"
  have n: "names_or_none w = (Ret (Some (filter (\<lambda>n. dk_dir (w_disk w) n \<noteq> None) (dk_names (w_disk w)))), w)"
    using w by (simp add: names_or_none_def catchA_def bindA_def sys_def k_readdir_def Let_def retA_def section_ok_def disk_ok_def)
  have "p \<notin> set ?ns" "l \<notin> set ?ns" "\<forall>n \<in> set ?ns. underDir n = Inr n"
    using is_stale_temp_other [of p p] assms w(2) by (auto simp: names_ok_def)
  from runsD [OF runs_remove_all [OF this] w(1)] w(2) n
  show "\<exists>a w'. removeStaleTemps p w = (Ret a, w') \<and> w_script w' = []
      \<and> section_ok p v l lb (w_disk w') \<and> (\<forall>t \<in> T. dk_dir (w_disk w') t = None)"
    by (simp add: removeStaleTemps_def bindA_def)
qed

text \<open>Taking the lock that nobody holds, and giving it back.\<close>

definition lock_free :: "string \<Rightarrow> bytes option \<Rightarrow> string \<Rightarrow> string set \<Rightarrow> disk \<Rightarrow> bool" where
  "lock_free p v l T d \<longleftrightarrow> disk_ok d \<and> file_at d p = v \<and> dk_dir d l = None \<and> names_ok d
     \<and> (\<forall>n \<in> T. dk_dir d n = None) \<and> p \<noteq> l \<and> underDir l = Inr l \<and> l \<notin> T"

definition lock_taken :: "string \<Rightarrow> bytes option \<Rightarrow> string \<Rightarrow> string set \<Rightarrow> string \<Rightarrow> disk \<Rightarrow> bool" where
  "lock_taken p v l T b d \<longleftrightarrow> section_ok p v l (to_latin1 b) d \<and> names_ok d \<and> (\<forall>n \<in> T. dk_dir d n = None)"

lemma runs_tryCreateLock: "runs (lock_free p v l T) (tryCreateLock F l b) (\<lambda>c d. c \<and> lock_taken p v l T b d)"
proof (rule runsI)
  fix w :: world
  let ?d = "w_disk w"
  assume w: "w_script w = []" "lock_free p v l T ?d"
  obtain i d where c: "k_create l ?d = Inr (i, d)" "disk_ok d" "linked d l []" "dk_dir d l = Some i" "others_kept {l} ?d d"
    using k_create_absent [of ?d l] w(2) by (auto simp: lock_free_def)
  let ?d' = "k_put i (to_latin1 b) d"
  have p: "disk_ok ?d'" "linked ?d' l (to_latin1 b)" "others_kept {l} d ?d'"
    using k_put_linked [OF c(3,4,2), of "to_latin1 b"] by simp_all
  have "set (dk_names d) \<subseteq> insert l (set (dk_names ?d))"
    using c(1) by (auto simp: k_create_def set_entry_def Let_def split: if_splits)
  then have nm: "names_ok ?d'" using w(2) by (auto simp: names_ok_def lock_free_def k_put_def)
  have ab: "dk_dir ?d' n = None" if "n \<in> T" for n
    using that w(2) c(5) p(3) by (auto simp: lock_free_def others_kept_def)
  have "section_ok p v l (to_latin1 b) ?d'"
    using w(2) c(5) p by (simp add: section_ok_def lock_free_def others_kept_def)
  with nm ab have "lock_taken p v l T b ?d'" by (simp add: lock_taken_def)
  then show "\<exists>a w'. tryCreateLock F l b w = (Ret a, w') \<and> w_script w' = [] \<and> a \<and> lock_taken p v l T b (w_disk w')"
    using w(1) c(1)
    by (simp add: tryCreateLock_def bindA_def thenA_def catchA_def sys_def sys_write_def retA_def k_nothing_def Let_def)
      auto
qed

lemma runs_acquire_loop:
  "runs (lock_free p v l T) (acquire_loop F key l b (Suc k) wt br vn un) (\<lambda>_. lock_taken p v l T b)"
  unfolding acquire_loop.simps
proof (rule runs_bind [OF runs_tryCreateLock])
  fix c
  show "runs (\<lambda>d. c \<and> lock_taken p v l T b d) (if c then retA () else m) (\<lambda>_. lock_taken p v l T b)" for m
    by (cases c) (auto simp: runs_def retA_def)
qed

lemma runs_acquire: "runs (lock_free p v l T) (acquireLock F key l) (lock_taken p v l T)"
proof -
  have e: "LOCK_MAX_ITERATIONS = Suc 3999" by (simp add: LOCK_MAX_ITERATIONS_def)
  have "runs (lock_free p v l T) (draw f) (\<lambda>_. lock_free p v l T)" for f
    by (rule runs_conseq [OF runs_draw [of "lock_free p v l T"]]) simp_all
  then show ?thesis
    unfolding acquireLock_def Let_def e
    by (rule runs_bind) (intro runs_then [OF runs_hold(1) runs_then [OF runs_catch [OF runs_acquire_loop]]] runs_ret)
qed

lemma runs_assertHeld:
  "runs (\<lambda>d. P d \<and> file_at d l = Some (to_latin1 b)) (assertHeld key l b) (\<lambda>_. P)"
  by (rule runsI) (simp add: assertHeld_def readLockFileRetrying_def LOCK_IO_ATTEMPTS_def numeral_eq_Suc
      bindA_def catchA_def sys_read retA_def lock_content_of_def)

lemma runs_release:
  "runs (\<lambda>d. disk_ok d \<and> file_at d p = v \<and> linked d l (to_latin1 b) \<and> p \<noteq> l) (release l b)
    (\<lambda>_ d. file_at d p = v \<and> dk_dir d l = None)"
proof (rule runsI)
  fix w :: world
  assume w: "w_script w = []" "disk_ok (w_disk w) \<and> file_at (w_disk w) p = v \<and> linked (w_disk w) l (to_latin1 b) \<and> p \<noteq> l"
  obtain d' where d': "k_rm l (w_disk w) = Inr ((), d')" "dk_dir d' l = None" "others_kept {l} (w_disk w) d'"
    using k_rm_other [of "w_disk w" l] w(2) by blast
  have f: "file_at (w_disk w) l = Some (to_latin1 b)" using w(2) linked_file_at by blast
  have "file_at d' p = v" using d'(3) w(2) by (simp add: others_kept_def)
  then show "\<exists>a w'. release l b w = (Ret a, w') \<and> w_script w' = [] \<and> file_at (w_disk w') p = v \<and> dk_dir (w_disk w') l = None"
    using w(1) f d'(1,2)
    by (simp add: release_def removeOwnLock_def readLockFileRetrying_def LOCK_IO_ATTEMPTS_def numeral_eq_Suc
        bindA_def catchA_def finallyA_def thenA_def k_read_def retA_def lock_content_of_def unhold_def sys_def Let_def)
qed

text \<open>The temporary file, synced, and renamed over the record.\<close>

lemma runs_write_temp:
  assumes "no_steps F" "t \<noteq> p" "t \<noteq> l" "p \<noteq> l"
  shows "runs (\<lambda>d. section_ok p v l (to_latin1 b) d \<and> dk_dir d t = None) (write_temp F key l p t bs b)
    (\<lambda>_. section_ok p (Some bs) l (to_latin1 b))"
proof -
  let ?S = "section_ok p v l (to_latin1 b)"
  let ?O = "\<lambda>c i d. ?S d \<and> dk_dir d t = Some i \<and> linked d t c"
  have cr: "runs (\<lambda>d. ?S d \<and> dk_dir d t = None) (sys (k_create t)) (\<lambda>i. ?O [] i)"
  proof (rule runs_sys)
    fix d
    assume d: "?S d \<and> dk_dir d t = None"
    then obtain i d' where c: "k_create t d = Inr (i, d')" "disk_ok d'" "linked d' t []" "dk_dir d' t = Some i" "others_kept {t} d d'"
      using k_create_absent [of d t] by (auto simp: section_ok_def)
    have "?S d'" by (rule others_section [OF _ c(5,2)]) (use d assms(2,3) in auto)
    with c show "\<exists>a d'. k_create t d = Inr (a, d') \<and> ?O [] a d'" by blast
  qed
  have mode: "runs (?O [] i) (whenA (\<not> fs_win F) applyMode) (\<lambda>_. ?O [] i)" for i
    unfolding applyMode_def by (intro runs_when runs_catch runs_nothing) simp
  have wr: "runs (?O [] i) (sys_write i bs) (\<lambda>_. ?O bs i)" for i
  proof (rule runs_write)
    fix d
    assume d: "?O [] i d"
    then have k: "disk_ok (k_put i bs d) \<and> linked (k_put i bs d) t bs \<and> others_kept {t} d (k_put i bs d)"
      using k_put_linked [of d t "[]" i bs] by (auto simp: section_ok_def)
    have "?S (k_put i bs d)" by (rule others_section [of p v l _ d]) (use d k assms(2,3) in auto)
    with d k show "?O bs i (k_put i bs d)" by (simp add: k_put_def)
  qed
  have sy: "runs (?O bs i) (sys (k_fsync i)) (\<lambda>_ d. ?S d \<and> linked d t bs)" for i
  proof (rule runs_sys)
    fix d
    assume d: "?O bs i d"
    obtain d' where k: "k_fsync i d = Inr ((), d')" "disk_ok d' = disk_ok d" "others_kept {} d d'"
      using k_fsync_others by blast
    have "?S d'" by (rule others_section [OF _ k(3)]) (use d k in \<open>auto simp: section_ok_def\<close>)
    with d k show "\<exists>a d'. k_fsync i d = Inr (a, d') \<and> ?S d' \<and> linked d' t bs" by (auto simp: others_kept_def)
  qed
  have fill: "runs (?O [] i) (finallyA (thenA (whenA (\<not> fs_win F) applyMode) (thenA (sys_write i bs)
      (thenA (stepA F TmpWritten t) (thenA (sys (k_fsync i)) (stepA F FileSynced t))))) (sys k_nothing))
      (\<lambda>_ d. ?S d \<and> linked d t bs)" for i
    by (rule runs_finally [OF runs_then [OF mode runs_then [OF wr runs_then [OF runs_step [OF assms(1)]
            runs_then [OF sy runs_step [OF assms(1)]]]]] runs_nothing])
  have held: "runs (\<lambda>d. ?S d \<and> linked d t bs) (assertHeld key l b) (\<lambda>_ d. ?S d \<and> linked d t bs)"
    by (rule runs_conseq [OF runs_assertHeld [of "\<lambda>d. ?S d \<and> linked d t bs"]])
      (auto simp: section_ok_def dest: linked_file_at)
  have rn: "runs (\<lambda>d. ?S d \<and> linked d t bs) (renameOver F t p) (\<lambda>_. section_ok p (Some bs) l (to_latin1 b))"
  proof -
    have "runs (\<lambda>d. ?S d \<and> linked d t bs) (sys (k_rename t p)) (\<lambda>_. section_ok p (Some bs) l (to_latin1 b))"
    proof (rule runs_sys)
      fix d
      assume d: "?S d \<and> linked d t bs"
      then obtain d' where k: "k_rename t p d = Inr ((), d')" "disk_ok d'" "file_at d' p = Some bs" "others_kept {t, p} d d'"
        using k_rename_linked [of d t bs p] assms(2) by (auto simp: section_ok_def)
      then show "\<exists>a d'. k_rename t p d = Inr (a, d') \<and> section_ok p (Some bs) l (to_latin1 b) d'"
        using d assms(3,4) by (auto simp: section_ok_def others_kept_def)
    qed
    then show ?thesis by (simp add: renameOver_def numeral_eq_Suc runs_catch)
  qed
  show ?thesis
    unfolding write_temp_def by (rule runs_then [OF runs_bind [OF cr fill] runs_then [OF held rn]])
qed

text \<open>After the rename.\<close>

lemma runs_syncDirectory:
  "runs (section_ok p v l lb) syncDirectory (\<lambda>_. section_ok p v l lb)"
proof -
  have o: "runs (section_ok p v l lb) (sys k_opendir) (\<lambda>_. section_ok p v l lb)"
    by (rule runs_sys) (simp add: k_opendir_def section_ok_def disk_ok_def)
  have s: "runs (section_ok p v l lb) (sys k_syncdir) (\<lambda>_. section_ok p v l lb)"
    by (rule runs_sys) (simp add: k_syncdir_def section_ok_def disk_ok_def file_at_def linked_def)
  have "runs (section_ok p v l lb) (catchA (thenA (sys k_opendir) (retA True))
      (\<lambda>x. if code_in DIR_FSYNC_UNSUPPORTED x then retA False else throwA x)) (\<lambda>b d. section_ok p v l lb d \<and> b)"
    by (rule runs_catch [OF runs_then [OF o]]) (simp add: runs_ret)
  then show ?thesis
    unfolding syncDirectory_def
  proof (rule runs_bind)
    fix b
    have "runs (section_ok p v l lb) (finallyA (catchA (sys k_syncdir)
        (\<lambda>x. if \<not> code_in DIR_FSYNC_UNSUPPORTED x then throwA x else retA ())) (sys k_nothing)) (\<lambda>_. section_ok p v l lb)"
      by (rule runs_finally [OF runs_catch [OF s] runs_nothing])
    then show "runs (\<lambda>d. section_ok p v l lb d \<and> b) (if \<not> b then retA ()
        else finallyA (catchA (sys k_syncdir) (\<lambda>x. if \<not> code_in DIR_FSYNC_UNSUPPORTED x then throwA x else retA ()))
          (sys k_nothing)) (\<lambda>_. section_ok p v l lb)"
      by (cases b) (auto intro: runs_conseq simp: runs_def)
  qed
qed

lemma runs_syncTarget:
  "runs (\<lambda>d. section_ok p (Some bs) l lb d) (syncTarget p) (\<lambda>_. section_ok p (Some bs) l lb)"
proof -
  have o: "runs (section_ok p (Some bs) l lb) (sys (k_open p)) (\<lambda>_. section_ok p (Some bs) l lb)"
    by (rule runs_sys) (auto simp: k_open_def section_ok_def file_at_def split: option.split)
  have f: "runs (section_ok p (Some bs) l lb) (sys (k_fsync i)) (\<lambda>_. section_ok p (Some bs) l lb)" for i
    by (rule runs_sys) (simp add: k_fsync_def section_ok_def disk_ok_def file_at_def linked_def)
  have c: "runs (section_ok p (Some bs) l lb)
      (finallyA (catchA (thenA (sys (k_fsync i)) (retA True)) (\<lambda>_. retA False)) (ignoreA (sys k_nothing)))
      (\<lambda>_. section_ok p (Some bs) l lb)" for i
    by (rule runs_finally [OF runs_catch [OF runs_then [OF f runs_ret]] runs_ignore [OF runs_nothing]])
  show ?thesis
    unfolding syncTarget_def by (rule runs_catch [OF runs_bind [OF o c]])
qed

lemma runs_after_rename:
  assumes "no_steps F"
  shows "runs (section_ok p (Some bs) l lb) (after_rename F p) (\<lambda>_. section_ok p (Some bs) l lb)"
proof -
  have w: "runs (section_ok p (Some bs) l lb) (bindA (syncTarget p) (\<lambda>ok. if ok then stepA F TargetSynced p else retA ()))
      (\<lambda>_. section_ok p (Some bs) l lb)"
    by (rule runs_bind [OF runs_syncTarget]) (simp add: runs_step [OF assms] runs_ret)
  show ?thesis
    unfolding after_rename_def
    by (rule runs_then [OF runs_step [OF assms]])
      (simp add: w runs_then [OF runs_syncDirectory runs_step [OF assms]])
qed

definition plain_temps :: "file_store \<Rightarrow> string \<Rightarrow> disk \<Rightarrow> bool" where
  "plain_temps F p d \<longleftrightarrow>
     (\<forall>n. underDir (temp_name F p (fs_suffix F n)) = Inr (temp_name F p (fs_suffix F n))
        \<and> dk_dir d (temp_name F p (fs_suffix F n)) = None)"

lemma runs_write_record:
  assumes "no_steps F" "p \<noteq> l" "\<forall>n. l \<noteq> temp_name F p (fs_suffix F n)"
  shows "runs (\<lambda>d. section_ok p v l (to_latin1 b) d \<and> plain_temps F p d) (write_record F key l p payload b)
    (\<lambda>_. section_ok p (Some (envelope (fs_digest F) payload)) l (to_latin1 b))"
  unfolding write_record_def
proof (rule runs_bind [OF runs_draw])
  fix suffix
  show "runs (\<lambda>d. (section_ok p v l (to_latin1 b) d \<and> plain_temps F p d) \<and> (\<exists>k. suffix = fs_suffix F k))
      (bindA (liftA (underDir (temp_name F p suffix))) (\<lambda>tmp. thenA
         (catchA (write_temp F key l p tmp (envelope (fs_digest F) payload) b)
           (\<lambda>x. thenA (ignoreA (sys (k_rm tmp))) (throwA x)))
         (after_rename F p)))
      (\<lambda>_. section_ok p (Some (envelope (fs_digest F) payload)) l (to_latin1 b))"
  proof (cases "(\<exists>k. suffix = fs_suffix F k) \<and> underDir (temp_name F p suffix) = Inr (temp_name F p suffix)")
    case True
    then have "temp_name F p suffix \<noteq> p" "temp_name F p suffix \<noteq> l" using assms(3) by (auto simp: temp_name_def)
    from runs_write_temp [OF assms(1) this assms(2)]
    have "runs (\<lambda>d. section_ok p v l (to_latin1 b) d \<and> dk_dir d (temp_name F p suffix) = None)
      (thenA (catchA (write_temp F key l p (temp_name F p suffix) (envelope (fs_digest F) payload) b)
           (\<lambda>x. thenA (ignoreA (sys (k_rm (temp_name F p suffix)))) (throwA x))) (after_rename F p))
      (\<lambda>_. section_ok p (Some (envelope (fs_digest F) payload)) l (to_latin1 b))"
      by (intro runs_then [OF runs_catch runs_after_rename [OF assms(1)]])
    then show ?thesis
      using True by (auto simp: bind_lift_Inr plain_temps_def intro: runs_conseq)
  next
    case False
    then show ?thesis by (auto simp: runs_def plain_temps_def)
  qed
qed

lemma underDir_Inr: "underDir n = Inr m \<Longrightarrow> m = n \<and> underDir n = Inr n"
  by (simp add: underDir_def split: if_splits)

lemma lock_name:
  assumes "pathFor key = Inr p" "underDir (drop_json p @ ''.lock'') = Inr l"
  shows "p \<noteq> l \<and> underDir l = Inr l \<and> length l = length p"
proof (rule pathFor_Inr [OF assms(1)])
  fix role sid
  assume p: "p = record_name role sid"
  have "l = drop_json p @ ''.lock''" "underDir l = Inr l" using underDir_Inr [OF assms(2)] by simp_all
  then show ?thesis by (simp add: p drop_json_record) (simp add: record_name_def)
qed

lemma due_save:
  assumes key: "pathFor key = Inr p" "underDir (drop_json p @ ''.lock'') = Inr l" "checkExpected key expected = Inr ()"
    and calm: "w_script w = []" "no_steps F"
    and disk: "disk_ok ((w_disk w)\<lparr>dk_made := True\<rparr>)" "names_ok (w_disk w)" "dk_dir (w_disk w) l = None" "plain_temps F p (w_disk w)"
    and due: "file_matches (fs_digest F) key (file_at (w_disk w) p) expected"
  shows "\<exists>w'. save F key payload expected w = (Ret (), w')
    \<and> file_at (w_disk w') p = Some (envelope (fs_digest F) payload) \<and> dk_dir (w_disk w') l = None"
proof -
  let ?v = "file_at (w_disk w) p" and ?T = "range (\<lambda>n. temp_name F p (fs_suffix F n))" and ?bs = "envelope (fs_digest F) payload"
  have l: "p \<noteq> l" "underDir l = Inr l" "\<not> is_stale_temp p l" "\<forall>n. l \<noteq> temp_name F p (fs_suffix F n)"
    using lock_name [OF key(1,2)] by (auto simp: is_stale_temp_def strip_prefix_def temp_name_def
      dest: arg_cong [of _ _ length] split: if_splits)
  have start: "runs (\<lambda>d. d = w_disk w) (sys k_mkdir) (\<lambda>_. lock_free p ?v l ?T)"
    by (rule runs_sys) (use disk l in \<open>auto simp: k_mkdir_def lock_free_def file_at_def names_ok_def plain_temps_def\<close>)
  have crit: "runs (lock_taken p ?v l ?T b)
      (finallyA (thenA (compare F key p expected) (thenA (removeStaleTemps p) (write_record F key l p payload b))) (release l b))
      (\<lambda>_ d. file_at d p = Some ?bs \<and> dk_dir d l = None)" for b
  proof (rule runs_finally [where R = "\<lambda>_. section_ok p (Some ?bs) l (to_latin1 b)"])
    have c: "runs (lock_taken p ?v l ?T b) (compare F key p expected)
        (\<lambda>_ d. section_ok p ?v l (to_latin1 b) d \<and> (\<forall>t \<in> ?T. dk_dir d t = None) \<and> names_ok d)"
      by (rule runsI) (use due in \<open>auto simp: lock_taken_def section_ok_def compare_calm\<close>)
    have r: "runs (\<lambda>d. section_ok p ?v l (to_latin1 b) d \<and> (\<forall>t \<in> ?T. dk_dir d t = None) \<and> names_ok d) (removeStaleTemps p)
        (\<lambda>_ d. section_ok p ?v l (to_latin1 b) d \<and> plain_temps F p d)"
      by (rule runs_conseq [OF runs_removeStaleTemps [OF l(3), where T = ?T]]) (use disk(4) in \<open>auto simp: plain_temps_def\<close>)
    show "runs (lock_taken p ?v l ?T b)
        (thenA (compare F key p expected) (thenA (removeStaleTemps p) (write_record F key l p payload b)))
        (\<lambda>_. section_ok p (Some ?bs) l (to_latin1 b))"
      by (rule runs_then [OF c runs_then [OF r runs_write_record [OF calm(2) l(1,4)]]])
    show "runs (section_ok p (Some ?bs) l (to_latin1 b)) (release l b) (\<lambda>_ d. file_at d p = Some ?bs \<and> dk_dir d l = None)"
      by (rule runs_conseq [OF runs_release]) (use l(1) in \<open>auto simp: section_ok_def\<close>)
  qed
  have "runs (\<lambda>d. d = w_disk w) (save F key payload expected) (\<lambda>_ d. file_at d p = Some ?bs \<and> dk_dir d l = None)"
    unfolding save_def key bind_lift_Inr
    by (rule runs_then [OF _ runs_then [OF start runs_bind [OF runs_acquire crit]]]) (simp add: liftA_def runs_ret)
  from runsD [OF this calm(1) refl] show ?thesis by auto
qed


text \<open>C32. A save that is due goes through: when no call fails, nobody holds the record's lock,
  and the stored record is what the caller expects, a save returns; the record's file is then the new
  one and the lock is free again.\<close>

theorem due_save_goes_through:
  assumes key: "pathFor key = Inr p" "underDir (drop_json p @ ''.lock'') = Inr l" "checkExpected key expected = Inr ()"
    and calm: "w_script w = []" "no_steps F"
    and disk: "disk_ok ((w_disk w)\<lparr>dk_made := True\<rparr>)" "names_ok (w_disk w)" "dk_dir (w_disk w) l = None" "plain_temps F p (w_disk w)"
    and due: "file_matches (fs_digest F) key (file_at (w_disk w) p) expected"
  shows "\<exists>w'. save F key payload expected w = (Ret (), w')
    \<and> file_at (w_disk w') p = Some (envelope (fs_digest F) payload) \<and> dk_dir (w_disk w') l = None"
  using assms by (rule due_save)

lemma load_reads:
  assumes "pathFor key = Inr p" "w_script w = []" "file_at (w_disk w) p = Some (envelope (fs_digest F) payload)"
    and "digest_ok (fs_digest F)" "int (length payload) \<le> max_safe"
  shows "load F key w = (Ret (Some payload), w)"
proof -
  have "decode_payload (fs_digest F) key (envelope (fs_digest F) payload) = Inr payload"
    using decode_header [of "fs_digest F" payload key payload] assms(4,5) by (simp add: envelope_def digest_ok_def)
  then show ?thesis
    by (simp add: load_def assms(1) bind_lift_Inr readPayload_def bindA_def read_or_missing_calm assms(2,3) liftA_def retA_def)
qed

text \<open>C23. Durable before visible: on a platform other than Windows, in a directory that is itself
  durable and on a file system that can sync directories, once a save has returned, every load after
  a later power cut, whatever unsynced names and bytes it loses, returns the payload that was
  saved.\<close>

theorem save_is_durable:
  assumes "pathFor key = Inr p" "good p {old} (w_disk w)" "save F key payload expected w = (Ret u, w')"
    and "\<not> fs_win F" "dk_madeDurable (w_disk w)" "list_all S (w_script w)" "dirsync_ok S"
    and "digest_ok (fs_digest F)" "int (length payload) \<le> max_safe"
  shows "fst (load F key \<lparr>w_disk = crash choice noise keep (w_disk w'), w_script = [], w_held = [], w_draws = n\<rparr>)
    = Ret (Some payload)"
  using load_reads [OF assms(1) _ _ assms(8,9)] durable_file [OF assms(1-7)] by simp

lemma demo_fs_simps [simp]: "fs_win demo_fs = False" "fs_digest demo_fs = demo_hash" "no_steps demo_fs"
  by (simp_all add: demo_fs_def no_steps_def)

lemma demo_temp: "temp_name demo_fs demo_path (fs_suffix demo_fs n) = demo_path @ ''.tmp-7-'' @ replicate 12 (CHR ''a'')"
  by (simp add: temp_name_def demo_fs_def show_nat.simps [of 7] digit_char_def digits_def)

lemma demo_start:
  "disk_ok ((demo_disk None)\<lparr>dk_made := True\<rparr>)" "names_ok (demo_disk None)" "dk_dir (demo_disk None) demo_lock = None"
  "plain_temps demo_fs demo_path (demo_disk None)"
proof -
  have n: "underDir demo_path = Inr demo_path" "underDir demo_lock = Inr demo_lock"
    by (rule underDir_ok; simp add: demo_path_def demo_lock_def)+
  show "disk_ok ((demo_disk None)\<lparr>dk_made := True\<rparr>)"
    by (simp add: disk_ok_def demo_disk_def Let_def)
  show "names_ok (demo_disk None)" using n by (simp add: names_ok_def demo_disk_def Let_def)
  show "dk_dir (demo_disk None) demo_lock = None" by (simp add: demo_disk_def Let_def)
  let ?t = "demo_path @ ''.tmp-7-'' @ replicate 12 (CHR ''a'')"
  have "length demo_lock = length demo_path" by (simp add: demo_lock_def demo_path_def)
  then have "?t \<noteq> demo_path" "?t \<noteq> demo_lock" by (auto dest: arg_cong [of _ _ length])
  moreover have "underDir ?t = Inr ?t" by (rule underDir_ok) (simp_all add: demo_path_def)
  ultimately show "plain_temps demo_fs demo_path (demo_disk None)"
    by (simp add: plain_temps_def demo_temp demo_disk_def Let_def)
qed

lemma demo_due: "file_matches (fs_digest demo_fs) demo_key (file_at (w_disk (demo_world None [])) demo_path) (Some (demo_hash [1]))"
proof -
  have "decode_payload demo_hash demo_key (envelope demo_hash [1]) = Inr [1]"
    using decode_header [of demo_hash "[1]" demo_key "[1]"] demo_hash_ok by (simp add: envelope_def digest_ok_def max_safe_def)
  then show ?thesis by (simp add: file_matches_def)
qed

theorem due_save_goes_through_witness:
  "\<exists>w'. save demo_fs demo_key [2] (Some (demo_hash [1])) (demo_world None []) = (Ret (), w')
     \<and> file_at (w_disk w') demo_path = Some (envelope demo_hash [2])"
  using due_save_goes_through [OF demo_pathFor demo_lock_name demo_expected _ _ _ _ _ _ demo_due, of "[2]"] demo_start by auto

theorem save_is_durable_witness:
  "\<exists>w'. save demo_fs demo_key [2] (Some (demo_hash [1])) (demo_world None []) = (Ret (), w')
     \<and> fst (load demo_fs demo_key \<lparr>w_disk = crash (\<lambda>_. 0) (\<lambda>_. [9]) False (w_disk w'), w_script = [], w_held = [], w_draws = 0\<rparr>)
       = Ret (Some [2])"
proof -
  obtain w' where s: "save demo_fs demo_key [2] (Some (demo_hash [1])) (demo_world None []) = (Ret (), w')"
    using due_save [OF demo_pathFor demo_lock_name demo_expected _ _ _ _ _ _ demo_due, of "[2]"] demo_start by auto
  have "good demo_path {Some (envelope demo_hash [1])} (w_disk (demo_world None []))" using demo_good by simp
  from save_is_durable [OF demo_pathFor this s, of "\<lambda>_. False"] s demo_hash_ok show ?thesis
    by (auto simp: dirsync_ok_def may_fail_def max_safe_def demo_disk_def Let_def)
qed

text \<open>A store directory that the save itself creates is not made durable by it: its parent is
  never synced, so a power cut can take the directory and the record with it.\<close>

theorem fresh_directory_can_be_lost:
  "\<exists>w'. save demo_fs demo_key [1] None (demo_world None [] \<lparr>w_disk := empty_disk\<rparr>) = (Ret (), w')
     \<and> file_at (crash (\<lambda>_. 0) (\<lambda>_. []) False (w_disk w')) demo_path = None"
proof -
  let ?w = "demo_world None [] \<lparr>w_disk := empty_disk\<rparr>"
  have d: "disk_ok (w_disk ?w\<lparr>dk_made := True\<rparr>)" "names_ok (w_disk ?w)" "dk_dir (w_disk ?w) demo_lock = None"
    "plain_temps demo_fs demo_path (w_disk ?w)"
    using demo_start(4) by (simp_all add: empty_disk_def disk_ok_def names_ok_def plain_temps_def)
  have m: "file_matches (fs_digest demo_fs) demo_key (file_at (w_disk ?w) demo_path) None"
    by (simp add: file_matches_def file_at_def empty_disk_def)
  obtain w' where s: "save demo_fs demo_key [1] None ?w = (Ret (), w')"
    using due_save [OF demo_pathFor demo_lock_name _ _ _ d m, of "[1]"] by (auto simp: checkExpected_def)
  have "on_disk (\<lambda>_. False) (holds False demo_path {None} None) ?w"
    by (simp add: on_disk_def holds_def good_def refs_def stored_as_def file_at_def empty_disk_def)
  from hoare_Ret [OF hoare_save [OF demo_pathFor] this s] have "\<not> dk_madeDurable (w_disk w')"
    by (auto simp: on_disk_def holds_def)
  then have "file_at (crash (\<lambda>_. 0) (\<lambda>_. []) False (w_disk w')) demo_path = None"
    by (simp add: file_at_def crash_def)
  with s show ?thesis by blast
qed

end
