(* ===== verification/Flow_Register.thy ===== *)
theory Flow_Register
  imports Flow_Live
begin

text \<open>
  The file store of \<open>src/client/flow-store.ts\<close> as the compare-and-swap register of the
  interface \<open>cas_store\<close>: a save works on one key only, and under failures of every kind it
  either leaves the register as it was or performs the swap.
\<close>

section \<open>A save leaves other keys alone\<close>

lemma record_name_length: "parseFlowKey key = Inr (role, sid) \<Longrightarrow> length (record_name role sid) = length (role_name role) + 72"
  by (auto simp: parseFlowKey_def FLOW_KEY_PATTERN_Some record_name_def result_simps dest: hex32_length)

lemma same_start:
  assumes "pathFor key = Inr p" "pathFor key' = Inr q" "take (length p) q = p"
  shows "q = p"
proof (rule pathFor_Inr [OF assms(1)], rule pathFor_Inr [OF assms(2)])
  fix r s r' s'
  assume p: "parseFlowKey key = Inr (r, s)" "p = record_name r s"
    and q: "parseFlowKey key' = Inr (r', s')" "q = record_name r' s'"
  have l: "length p = length (role_name r) + 72" "length q = length (role_name r') + 72"
    using record_name_length p q by simp_all
  have "r = r'"
  proof (rule ccontr)
    assume "r \<noteq> r'"
    then have "hd p \<noteq> hd q" unfolding p(2) q(2) record_name_def by (cases r; cases r') simp_all
    moreover have "hd q = hd (take (length p) q)" using l(1) by (cases q; cases p) simp_all
    ultimately show False using assms(3) by simp
  qed
  with l assms(3) show ?thesis by simp
qed

lemma not_record:
  assumes "pathFor key = Inr p" "pathFor key' = Inr q"
  shows "p @ c # x \<noteq> q"
  using same_start [OF assms] by auto

lemma lock_not_record:
  assumes "pathFor key = Inr p" "pathFor key' = Inr q" "underDir (drop_json p @ ''.lock'') = Inr l"
  shows "l \<noteq> q"
proof (rule pathFor_Inr [OF assms(2)])
  fix r s
  assume q: "q = record_name r s"
  have "l = drop_json p @ ''.lock''" using underDir_Inr [OF assms(3)] by simp
  moreover have "q = (role_name r @ CHR ''-'' # s) @ ''.json''" by (simp add: q record_name_def)
  ultimately show ?thesis by (simp del: append_assoc)
qed

lemma temp_not_record:
  assumes "pathFor key = Inr p" "pathFor key' = Inr q"
  shows "temp_name F p x \<noteq> q" "is_stale_temp p n \<Longrightarrow> n \<noteq> q"
proof -
  show "temp_name F p x \<noteq> q" using not_record [OF assms] by (simp add: temp_name_def)
  show "n \<noteq> q" if "is_stale_temp p n"
  proof -
    have "take (length (p @ ''.tmp-'')) n = p @ ''.tmp-''"
      using that by (auto simp: is_stale_temp_def strip_prefix_def split: if_splits)
    then have "n = (p @ ''.tmp-'') @ drop (length (p @ ''.tmp-'')) n" by (metis append_take_drop_id)
    then show ?thesis using not_record [OF assms, of "CHR ''.''"] by (metis append.assoc append_Cons)
  qed
qed

text \<open>The calls of a save, seen from another key's record.\<close>

lemma keeps_rename_other:
  assumes "t \<noteq> q" "p \<noteq> q"
  shows "keeps S (holds m q A v) (sys (k_rename t p))"
proof (rule keeps_sys)
  fix d a d'
  assume d: "holds m q A v d" "k_rename t p d = Inr (a, d')"
  then obtain i where i: "dk_dir d t = Some i" "d' = set_entry (set_entry d p (Some i)) t None"
    by (auto simp: k_rename_def split: option.splits)
  have "file_at d' q = file_at d q" using assms by (simp add: file_at_def i(2)) (simp add: set_entry_def)
  then show "holds m q A v d'" using d(1) assms by (simp add: holds_def i(2) good_set_entry)
qed

lemma keeps_rename_attempts:
  "t \<noteq> q \<Longrightarrow> p \<noteq> q \<Longrightarrow> keeps S (holds m q A v) (rename_attempts k t p)"
  by (induction k) (simp_all add: keeps_intros keeps_rename_other)

lemma keeps_write_other:
  assumes "t \<noteq> q" "p \<noteq> q" "l \<noteq> q"
  shows "keeps S (holds m q A v) (write_temp F key l p t bs b)"
proof -
  let ?H = "on_disk S (holds m q A v)"
  have cr: "hoare ?H (sys (k_create t)) (\<lambda>i. on_disk S (temp_open m q A v t i)) (\<lambda>_. ?H) ?H"
    by (rule hoare_sys_keep) (use temp_open_create assms(1) in blast)
  have fill: "hoare (on_disk S (temp_open m q A v t i))
    (finallyA (thenA (whenA (\<not> fs_win F) applyMode) (thenA (sys_write i bs)
        (thenA (stepA F TmpWritten t) (thenA (sys (k_fsync i)) (stepA F FileSynced t))))) (sys k_nothing))
    (\<lambda>_. ?H) (\<lambda>_. ?H) ?H" for i
    by (rule hoare_conseq [OF hoare_fill_temp [of S m q A v t i F bs]]) (auto elim!: on_disk_mono ready_holds)
  have rest: "hoare ?H (thenA (assertHeld key l b) (renameOver F t p)) (\<lambda>_. ?H) (\<lambda>_. ?H) ?H"
    unfolding renameOver_def
    by (rule keeps_hoare) (intro keeps_intros keeps_rename_attempts assms)
  show ?thesis
    unfolding keeps_def write_temp_def by (rule hoare_then [OF hoare_bind [OF cr fill] rest])
qed

lemma keeps_syncDirectory: "keeps S (holds m q A v) syncDirectory"
  unfolding syncDirectory_def by (intro keeps_intros)

lemma keeps_removeStale_other:
  "pathFor key = Inr p \<Longrightarrow> pathFor key' = Inr q \<Longrightarrow> keeps S (holds m q A v) (removeStaleTemps p)"
  unfolding removeStaleTemps_def names_or_none_def
proof (rule keeps_bind)
  fix names :: "string list option"
  assume k: "pathFor key = Inr p" "pathFor key' = Inr q"
  show "keeps S (holds m q A v) (case names of None \<Rightarrow> retA () | Some ns \<Rightarrow> remove_all (filter (is_stale_temp p) ns))"
    using temp_not_record(2) [OF k, of q] by (cases names) (auto intro!: keeps_intros)
qed (intro keeps_intros)

lemma keeps_save_other:
  assumes "pathFor key = Inr p" "pathFor key' = Inr q" "p \<noteq> q"
  shows "keeps S (holds m q A v) (save F key payload e)"
proof -
  have wr: "keeps S (holds m q A v) (write_record F key l p payload b)" if "l \<noteq> q" for l b
    unfolding write_record_def after_rename_def
  proof (rule keeps_bind [OF keeps_state(4) keeps_lift_bind])
    fix suffix t
    assume "underDir (temp_name F p suffix) = Inr t"
    then have "t \<noteq> q" using underDir_Inr temp_not_record(1) [OF assms(1,2)] by metis
    then show "keeps S (holds m q A v) (thenA
        (catchA (write_temp F key l p t (envelope (fs_digest F) payload) b) (\<lambda>x. thenA (ignoreA (sys (k_rm t))) (throwA x)))
        (thenA (stepA F Renamed p) (if fs_win F then bindA (syncTarget p) (\<lambda>ok. if ok then stepA F TargetSynced p else retA ())
         else thenA syncDirectory (stepA F DirSynced p))))"
      using that by (intro keeps_intros keeps_write_other keeps_syncDirectory assms(3))
  qed
  show ?thesis
    unfolding save_def
  proof (intro keeps_then keeps_lift keeps_lift_bind)
    fix p' l
    assume "pathFor key = Inr p'" "underDir (drop_json p' @ ''.lock'') = Inr l"
    then have p': "p' = p" and "l \<noteq> q" using assms lock_not_record by auto
    then show "keeps S (holds m q A v) (bindA (acquireLock F key l) (\<lambda>body. finallyA
        (thenA (compare F key p' e) (thenA (removeStaleTemps p') (write_record F key l p' payload body))) (release l body)))"
      unfolding p' by (intro keeps_intros wr keeps_removeStale_other [OF assms(1,2)])
  qed (intro keeps_intros)
qed

section \<open>The register\<close>

lemma pathFor_inject:
  assumes "pathFor key = Inr p" "pathFor key' = Inr p"
  shows "key = key'"
proof (rule pathFor_Inr [OF assms(1)], rule pathFor_Inr [OF assms(2)])
  fix r s r' s'
  assume p: "parseFlowKey key = Inr (r, s)" "p = record_name r s"
    and q: "parseFlowKey key' = Inr (r', s')" "p = record_name r' s'"
  have "r = r'" using p(2) q(2) by (cases r; cases r') (simp_all add: record_name_def)
  with p q have "s = s'" by (simp add: record_name_def)
  with \<open>r = r'\<close> p(1) q(1) show ?thesis using flowKey_parse by (metis sum.inject(2))
qed

definition honest_call :: "outcome \<Rightarrow> bool" where
  "honest_call oc \<longleftrightarrow> (case oc of Fails e \<Rightarrow> e \<noteq> ENOENT | Cut n e \<Rightarrow> e \<noteq> ENOENT | _ \<Rightarrow> True)"

lemma honest_honest_call: "honest honest_call"
  by (simp add: honest_def may_fail_def honest_call_def)

definition file_content :: "file_store \<Rightarrow> world \<Rightarrow> string \<Rightarrow> bytes option" where
  "file_content F w key =
     (case pathFor key of
        Inl x \<Rightarrow> None
      | Inr p \<Rightarrow> (case file_at (w_disk w) p of
                   None \<Rightarrow> None
                 | Some f \<Rightarrow> (case decode_payload (fs_digest F) key f of Inl x \<Rightarrow> None | Inr pl \<Rightarrow> Some pl)))"

text \<open>To the caller, a save whose process died is one that did not return; the next one is a new
  process, which holds no lock.\<close>

definition file_save :: "file_store \<Rightarrow> world \<Rightarrow> string \<Rightarrow> bytes \<Rightarrow> string option \<Rightarrow> (store_error, unit) result \<times> world" where
  "file_save F w key b e =
     (case save F key b e w of
        (Ret u, w') \<Rightarrow> (Inr (), w')
      | (Throw x, w') \<Rightarrow> (Inl x, w')
      | (Died, w') \<Rightarrow> (Inl (IoError (OtherCode ''died'')), w'\<lparr>w_held := []\<rparr>))"

definition file_load :: "file_store \<Rightarrow> world \<Rightarrow> string \<Rightarrow> (store_error, bytes option) result" where
  "file_load F w key =
     (case load F key w of
        (Ret c, w') \<Rightarrow> Inr c
      | (Throw x, w') \<Rightarrow> Inl x
      | (Died, w') \<Rightarrow> Inl (IoError (OtherCode ''died'')))"

definition file_inv :: "file_store \<Rightarrow> world \<Rightarrow> bool" where
  "file_inv F w \<longleftrightarrow> digest_ok (fs_digest F) \<and> list_all honest_call (w_script w)
     \<and> (\<forall>key p. pathFor key = Inr p \<longrightarrow> (\<exists>A. good p A (w_disk w)))"

definition fits_file :: "bytes \<Rightarrow> bool" where
  "fits_file b \<longleftrightarrow> int (length b) \<le> max_safe"

lemma file_inv_holds:
  assumes "file_inv F w" "pathFor key = Inr p"
  shows "\<exists>A. on_disk honest_call (holds (dk_madeDurable (w_disk w)) p A (file_at (w_disk w) p)) w"
  using assms by (auto simp: file_inv_def on_disk_def holds_def)

lemma save_bad_key:
  assumes "pathFor key = Inl x"
  shows "\<exists>y. save F key b e w = (Throw y, w)"
  by (cases "checkExpected key e")
    (simp_all add: save_def thenA_def bindA_def liftA_def retA_def throwA_def assms)

text \<open>The outcome of a save as the register sees it: the record's own file, and the others.\<close>

lemma save_own:
  assumes "file_inv F w" "pathFor key = Inr p" "save F key b e w = (r, w')"
  shows "list_all honest_call (w_script w') \<and> (\<exists>A. good p A (w_disk w'))
    \<and> (file_at (w_disk w') p = file_at (w_disk w) p \<and> (\<forall>u. r \<noteq> Ret u)
       \<or> file_matches (fs_digest F) key (file_at (w_disk w) p) e
         \<and> file_at (w_disk w') p = Some (envelope (fs_digest F) b))"
proof -
  obtain A where h: "on_disk honest_call (holds (dk_madeDurable (w_disk w)) p A (file_at (w_disk w) p)) w"
    using file_inv_holds [OF assms(1,2)] ..
  show ?thesis
  proof (cases "file_matches (fs_digest F) key (file_at (w_disk w) p) e")
    case True
    from hoareD [OF hoare_save [OF assms(2)] h, of F b e] True assms(3) show ?thesis
      by (cases r) (auto simp: on_disk_def holds_def)
  next
    case False
    from hoareD [OF hoare_stale_save [OF assms(2) honest_honest_call False] h, of b] assms(3) show ?thesis
      by (cases r) (auto simp: on_disk_def holds_def)
  qed
qed

lemma save_others:
  assumes "file_inv F w" "pathFor key = Inr p" "pathFor key' = Inr q" "key' \<noteq> key" "save F key b e w = (r, w')"
  shows "(\<exists>A. good q A (w_disk w')) \<and> file_at (w_disk w') q = file_at (w_disk w) q"
proof -
  obtain A where h: "on_disk honest_call (holds (dk_madeDurable (w_disk w)) q A (file_at (w_disk w) q)) w"
    using file_inv_holds [OF assms(1,3)] ..
  have "p \<noteq> q" using pathFor_inject assms(2-4) by blast
  from hoareD [OF keeps_hoare [OF keeps_save_other [OF assms(2,3) this]] h, of F b e] assms(5) show ?thesis
    by (cases r) (auto simp: on_disk_def holds_def)
qed

lemma file_content_matches:
  "pathFor key = Inr p \<Longrightarrow> file_matches (fs_digest F) key (file_at (w_disk w) p) e
    \<Longrightarrow> cas_matches (fs_digest F) (file_content F w key) e"
  by (auto simp: file_content_def file_matches_def cas_matches_def split: option.splits sum.splits)

lemma save_register:
  assumes i: "file_inv F w" and b: "fits_file b" and s: "save F key b e w = (r, w')"
  shows "file_inv F w'
    \<and> (file_content F w' = file_content F w \<and> (\<forall>u. r \<noteq> Ret u)
       \<or> cas_matches (fs_digest F) (file_content F w key) e \<and> file_content F w' = (file_content F w)(key := Some b))"
proof (cases "pathFor key")
  case (Inl x)
  then show ?thesis using save_bad_key [of key x F b e w] i s by auto
next
  case (Inr p)
  note own = save_own [OF i Inr s] and oth = save_others [OF i Inr _ _ s]
  have "\<exists>A. good q A (w_disk w')" if "pathFor key' = Inr q" for key' q
    using own oth [OF that] Inr that by (cases "key' = key") auto
  then have inv: "file_inv F w'" using own i by (auto simp: file_inv_def)
  have c: "file_content F w' k = file_content F w k" if "k \<noteq> key" for k
    using oth [OF _ that] by (auto simp: file_content_def split: sum.split)
  have new: "file_content F w' key = Some b" if "file_at (w_disk w') p = Some (envelope (fs_digest F) b)"
    using that Inr decode_header [of "fs_digest F" b key b] i b
    by (simp add: file_content_def envelope_def file_inv_def digest_ok_def fits_file_def)
  from own consider (same) "file_at (w_disk w') p = file_at (w_disk w) p" "\<forall>u. r \<noteq> Ret u"
    | (new) "file_matches (fs_digest F) key (file_at (w_disk w) p) e" "file_at (w_disk w') p = Some (envelope (fs_digest F) b)"
    by blast
  then show ?thesis
  proof cases
    case same
    have "file_content F w' key = file_content F w key" using same(1) Inr by (simp add: file_content_def)
    with c have "file_content F w' = file_content F w" by (intro ext) metis
    with inv same(2) show ?thesis by simp
  next
    case new
    have "file_content F w' = (file_content F w)(key := Some b)"
      using c \<open>file_at (w_disk w') p = _ \<Longrightarrow> _\<close> new(2) by (intro ext) simp
    with inv file_content_matches [OF Inr new(1)] show ?thesis by simp
  qed
qed

lemma file_inv_held [simp]: "file_inv F (w\<lparr>w_held := h\<rparr>) = file_inv F w" "file_content F (w\<lparr>w_held := h\<rparr>) = file_content F w"
  by (auto simp: file_inv_def file_content_def intro!: ext split: sum.split option.split)

lemma file_load_content:
  assumes "file_inv F w" "file_load F w key = Inr c"
  shows "c = file_content F w key"
proof (cases "pathFor key")
  case (Inl x)
  then show ?thesis using assms(2) by (simp add: file_load_def load_def bindA_def liftA_def throwA_def)
next
  case (Inr p)
  obtain A where h: "on_disk honest_call (holds (dk_madeDurable (w_disk w)) p A (file_at (w_disk w) p)) w"
    using file_inv_holds [OF assms(1) Inr] ..
  obtain w' where l: "readPayload F p key w = (Ret c, w')"
    using assms(2) Inr by (auto simp: file_load_def load_def bind_lift_Inr split: prod.splits out.splits)
  from hoare_Ret [OF hoare_readPayload [OF honest_honest_call] h l]
  show ?thesis by (auto simp: on_disk_def file_content_def Inr split: option.splits)
qed

interpretation file_reg: cas_store "fs_digest F" fits_file "file_inv F" "file_content F" "file_load F" "file_save F" for F
proof
  fix w b k e
  assume i: "file_inv F w" "fits_file b"
  obtain r v where s: "save F k b e w = (r, v)" by fastforce
  from save_register [OF i s] s show "file_inv F (snd (file_save F w k b e))"
    by (cases r) (auto simp: file_save_def)
next
  fix w k c
  assume "file_inv F w" "file_load F w k = Inr c"
  then show "c = file_content F w k" by (rule file_load_content)
next
  fix w b k e w'
  assume k: "file_inv F w" "fits_file b" "file_save F w k b e = (Inr (), w')"
  obtain r v where s: "save F k b e w = (r, v)" by fastforce
  from save_register [OF k(1,2) s] k(3) s
  show "cas_matches (fs_digest F) (file_content F w k) e \<and> file_content F w' = (file_content F w)(k := Some b)"
    by (cases r) (auto simp: file_save_def)
next
  fix w b k e x w'
  assume k: "file_inv F w" "fits_file b" "file_save F w k b e = (Inl x, w')"
  obtain r v where s: "save F k b e w = (r, v)" by fastforce
  from save_register [OF k(1,2) s] k(3) s
  show "file_content F w' = file_content F w
      \<or> cas_matches (fs_digest F) (file_content F w k) e \<and> file_content F w' = (file_content F w)(k := Some b)"
    by (cases r) (auto simp: file_save_def)
qed

text \<open>C24. The file store is the compare-and-swap register, whatever fails. A save, with any
  failures, deaths of the process, leftover locks or refusals, either leaves every key's content as
  it was and does not return, or found the expected content under its key and replaced exactly that
  content; and it returns only in the second case.\<close>

theorem file_store_refines_register:
  assumes "file_inv F w" "fits_file b"
  shows "file_inv F (snd (file_save F w k b e))
    \<and> (file_content F (snd (file_save F w k b e)) = file_content F w \<and> fst (file_save F w k b e) \<noteq> Inr ()
       \<or> cas_matches (fs_digest F) (file_content F w k) e
         \<and> file_content F (snd (file_save F w k b e)) = (file_content F w)(k := Some b))"
proof -
  obtain r v where s: "save F k b e w = (r, v)" by fastforce
  from save_register [OF assms s] s show ?thesis by (cases r) (auto simp: file_save_def)
qed

lemma demo_inv: "list_all honest_call script \<Longrightarrow> file_inv demo_fs (demo_world None script)"
proof -
  have "good p UNIV (demo_disk None)" for p
    by (auto simp: good_def refs_def stored_as_def demo_disk_def Let_def)
  then show "list_all honest_call script \<Longrightarrow> ?thesis" using demo_hash_ok by (auto simp: file_inv_def)
qed

lemma demo_content: "file_content demo_fs (demo_world None script) demo_key = Some [1]"
proof -
  have "decode_payload demo_hash demo_key (envelope demo_hash [1]) = Inr [1]"
    using decode_header [of demo_hash "[1]" demo_key "[1]"] demo_hash_ok by (simp add: envelope_def digest_ok_def max_safe_def)
  then show ?thesis by (simp add: file_content_def demo_pathFor)
qed

theorem file_store_refines_register_witness:
  "file_content demo_fs (snd (file_save demo_fs (demo_world None [Fine, Fails EIO, Dies]) demo_key [2] (Some (demo_hash [1])))) demo_key
     \<in> {Some [1], Some [2]}"
proof -
  have "file_inv demo_fs (demo_world None [Fine, Fails EIO, Dies])" by (rule demo_inv) (simp add: honest_call_def)
  moreover have "fits_file [2]" by (simp add: fits_file_def max_safe_def)
  ultimately show ?thesis
    using file_store_refines_register [of demo_fs "demo_world None [Fine, Fails EIO, Dies]" "[2]" demo_key "Some (demo_hash [1])"]
      demo_content by auto
qed

text \<open>C25. No update of a stored record is lost, across instances and processes: once a save that
  expected \<open>e\<close> went through, a save of the same key that still expects \<open>e\<close>
  never returns, whatever saves, failures and restarts lie between, unless one of them put bytes
  with the expected digest back.\<close>

theorem file_no_lost_update:
  assumes "file_inv F w" "file_save F w k b e = (Inr (), w')" "fits_file b" "fits_file b'"
    and "\<forall>op \<in> set ops. fits_file (fst (snd op))"
    and "\<And>d. e = Some d \<Longrightarrow> fs_digest F b \<noteq> d \<and> (\<forall>op \<in> set ops. fst op = k \<longrightarrow> fs_digest F (fst (snd op)) \<noteq> d)"
  shows "fst (file_save F (run_saves (file_save F) w' ops) k b' e) \<noteq> Inr ()"
  using assms by (rule file_reg.no_lost_update)



theorem file_no_lost_update_witness:
  "\<exists>w'. file_save demo_fs (demo_world None []) demo_key [2] (Some (demo_hash [1])) = (Inr (), w')
     \<and> fst (file_save demo_fs w' demo_key [3] (Some (demo_hash [1]))) \<noteq> Inr ()"
proof -
  obtain w' where "save demo_fs demo_key [2] (Some (demo_hash [1])) (demo_world None []) = (Ret (), w')"
    using due_save [OF demo_pathFor demo_lock_name demo_expected _ _ _ _ _ _ demo_due, of "[2]"] demo_start by auto
  then have s: "file_save demo_fs (demo_world None []) demo_key [2] (Some (demo_hash [1])) = (Inr (), w')"
    by (simp add: file_save_def)
  have i: "file_inv demo_fs (demo_world None [])" by (rule demo_inv) simp
  have f: "fits_file [2]" "fits_file [3]" by (simp_all add: fits_file_def max_safe_def)
  have "demo_hash [2] \<noteq> demo_hash [1]" by (simp add: demo_hash_def)
  then have "fst (file_save demo_fs w' demo_key [3] (Some (demo_hash [1]))) \<noteq> Inr ()"
    using file_no_lost_update [OF i s f, of "[]"] by simp
  with s show ?thesis by blast
qed

end
