(* ===== verification/Flow_Journal_Runs.thy ===== *)
theory Flow_Journal_Runs
  imports Flow_Journal Flow_Record_Properties Flow_Register
begin

text \<open>
  The journals of \<open>src/client/flow-resume.ts\<close> at work: any number of instances over one
  store, in one or several processes, each with several posts in flight. A desk is the store, the
  live instances, the attempts in flight, and two histories: the calls of the venue's \<open>post\<close>
  and the bytes that were handed to the store. One step is one stretch of code between two awaits;
  the venue and the callers answer as they like, and an instance may die at any point. The locale
  \<open>journal_store\<close> is what a journal needs of its store.
\<close>

section \<open>Growing records\<close>

definition entry_le :: "ledger_entry \<Rightarrow> ledger_entry \<Rightarrow> bool" where
  "entry_le e e' \<longleftrightarrow> en_room e' = en_room e \<and> en_text e' = en_text e
     \<and> (\<forall>l. en_landed e = Some l \<longrightarrow> (\<exists>l'. en_landed e' = Some l' \<and> ld_seq l' = ld_seq l \<and> ld_nonce l' = ld_nonce l))"

text \<open>A later version of a record: the same key, no entry gone, no text and no landed mark
  changed.\<close>

definition follows :: "flow_record \<Rightarrow> flow_record \<Rightarrow> bool" where
  "follows R R' \<longleftrightarrow> recordKey R' = recordKey R
     \<and> (\<forall>k e. ledgerEntry R k = Some e \<longrightarrow> (\<exists>e'. ledgerEntry R' k = Some e' \<and> entry_le e e'))"

definition keeps_ledger :: "flow_record \<Rightarrow> flow_record \<Rightarrow> bool" where
  "keeps_ledger R R' \<longleftrightarrow> recordKey R' = recordKey R \<and> fr_ledger (rec_base R') = fr_ledger (rec_base R)"

lemma entry_le_refl [simp]: "entry_le e e"
  by (simp add: entry_le_def)

lemma entry_le_trans: "entry_le a b \<Longrightarrow> entry_le b c \<Longrightarrow> entry_le a c"
  by (fastforce simp: entry_le_def)

lemma follows_refl [simp]: "follows R R"
  by (simp add: follows_def)

lemma follows_trans [trans]: "follows a b \<Longrightarrow> follows b c \<Longrightarrow> follows a c"
  unfolding follows_def by (metis entry_le_trans)

lemma keeps_follows: "keeps_ledger R R' \<Longrightarrow> follows R R'"
  by (simp add: keeps_ledger_def follows_def ledgerEntry_def)

lemma rec_base_with_base [simp]: "rec_base (with_base R b) = b"
  by (cases R) simp_all

lemma recordKey_with_base: "fr_swapId b = fr_swapId (rec_base R) \<Longrightarrow> recordKey (with_base R b) = recordKey R"
  by (cases R) simp_all

lemma keeps_bumped: "keeps_ledger R (bumped R now)"
  by (simp add: keeps_ledger_def bumped_def recordKey_with_base)

lemma find_append: "List.find P (xs @ ys) = (case List.find P xs of None \<Rightarrow> List.find P ys | Some x \<Rightarrow> Some x)"
  by (induction xs) simp_all

lemma follows_append:
  assumes "ledgerEntry R kind = None"
  shows "follows R (with_ledger R (fr_ledger (rec_base R) @ [e]))"
  by (simp add: follows_def with_ledger_def recordKey_with_base ledgerEntry_def find_append)

lemma find_set_landed:
  "List.find (\<lambda>e. en_kind e = k) (set_landed kind l es)
     = map_option (\<lambda>e. if k = kind then e\<lparr>en_landed := Some l\<rparr> else e) (List.find (\<lambda>e. en_kind e = k) es)"
  by (induction es) (auto simp: option.map_ident)

section \<open>What the derivations keep\<close>

definition derive_follows :: "derive \<Rightarrow> bool" where
  "derive_follows d \<longleftrightarrow> (\<forall>R R'. d R = Inr (Some R') \<longrightarrow> follows R R')"

lemma rec_res_Inr [simp]: "rec_res x = Inr a \<longleftrightarrow> x = Inr a"
  by (simp add: rec_res_def split: sum.split)

lemma checked_Inr: "checked T R = Inr R' \<Longrightarrow> R' = R"
  by (auto simp: checked_def bind_res_Inr_iff)

lemma withLedgerIntent_Inr:
  assumes "withLedgerIntent T R kind room line = Inr R'"
  shows "follows R R' \<and> (\<exists>e. ledgerEntry R' kind = Some e \<and> en_room e = room \<and> en_text e = line)
    \<and> (ledgerEntry R kind \<noteq> None \<longrightarrow> R' = R)"
proof (cases "ledgerEntry R kind")
  case None
  then have R': "R' = with_ledger R (fr_ledger (rec_base R) @ [\<lparr>en_kind = kind, en_room = room, en_text = line, en_landed = None\<rparr>])"
    using assms by (auto simp: withLedgerIntent_def dest: checked_Inr)
  then have "\<exists>e. ledgerEntry R' kind = Some e \<and> en_room e = room \<and> en_text e = line"
    using None by (simp add: ledgerEntry_def with_ledger_def find_append)
  then show ?thesis using None R' follows_append [OF None] by simp
qed (use assms in \<open>auto simp: withLedgerIntent_def split: if_splits\<close>)

definition holds_line :: "(bytes \<Rightarrow> string) \<Rightarrow> flow_record \<Rightarrow> post_spec \<Rightarrow> bool" where
  "holds_line H R spec \<longleftrightarrow>
     (\<exists>e. ledgerEntry R (ps_kind spec) = Some e \<and> en_room e = ps_room spec \<and> en_text e = ledgerText H spec)"

lemma holds_line_follows: "holds_line H R spec \<Longrightarrow> follows R R' \<Longrightarrow> holds_line H R' spec"
  by (fastforce simp: holds_line_def follows_def entry_le_def)

lemma follows_intent: "derive_follows (derive_intent T H spec)"
  by (auto simp: derive_follows_def derive_intent_def bind_res_Inr_iff dest!: withLedgerIntent_Inr split: if_splits)

lemma derive_intent_line:
  "derive_intent T H spec R = Inr None \<Longrightarrow> holds_line H R spec"
  "derive_intent T H spec R = Inr (Some R') \<Longrightarrow> holds_line H R' spec"
  by (auto simp: derive_intent_def bind_res_Inr_iff holds_line_def dest!: withLedgerIntent_Inr split: if_splits)

lemma follows_with_landed:
  assumes "ledgerEntry R (ps_kind spec) = Some e"
    and "\<And>l. en_landed e = Some l \<Longrightarrow> ld_seq l = tr_seq t \<and> ld_nonce l = tr_nonce t"
  shows "follows R (with_landed spec t R)"
proof -
  let ?L = "set_landed (ps_kind spec) (landed_mark spec t) (fr_ledger (rec_base R))"
  have "fr_ledger (rec_base (with_landed spec t R)) = ?L" "recordKey (with_landed spec t R) = recordKey R"
    by (simp_all add: with_landed_def with_ledger_def recordKey_with_base Let_def split: option.split)
  then show ?thesis
    using assms by (auto simp: follows_def ledgerEntry_def find_set_landed entry_le_def landed_mark_def)
qed

lemma follows_landed: "derive_follows (derive_landed T H spec t b)"
  unfolding derive_follows_def
proof (intro allI impI)
  fix R R'
  assume d: "derive_landed T H spec t b R = Inr (Some R')"
  then obtain mid where mid: "(if b then rec_res (withLedgerIntent T R (ps_kind spec) (ps_room spec) (ledgerText H spec)) else Inr R) = Inr mid"
    by (auto simp: derive_landed_def bind_res_Inr_iff)
  then obtain e where e: "ledgerEntry mid (ps_kind spec) = Some e"
    using d by (cases "ledgerEntry mid (ps_kind spec)") (simp_all add: derive_landed_def)
  have l: "R' = with_landed spec t mid \<and> (\<forall>l. en_landed e = Some l \<longrightarrow> ld_seq l = tr_seq t \<and> ld_nonce l = tr_nonce t)"
    using d mid e by (cases "en_landed e") (simp_all add: derive_landed_def Let_def split: if_splits)
  have "follows R mid" using mid by (auto dest: withLedgerIntent_Inr split: if_splits)
  also have "follows mid R'" using follows_with_landed [OF e] l by blast
  finally show "follows R R'" .
qed

lemma follows_update: "(\<And>R. keeps_ledger R (f R)) \<Longrightarrow> derive_follows (derive_update f)"
  by (auto simp: derive_follows_def derive_update_def intro: keeps_follows)

definition projector_ok :: "journal \<Rightarrow> bool" where
  "projector_ok J \<longleftrightarrow> (\<forall>p R R'. jn_projector J = Some p \<longrightarrow> p R = Inr R' \<longrightarrow> keeps_ledger R R')"

lemma prepare_Inr:
  assumes "prepare T H now create J R = Inr (next, bs)" "projector_ok J"
  shows "follows R next \<and> encodeFlowRecord T H next = Inr bs"
proof -
  obtain p where p: "(case jn_projector J of None \<Rightarrow> Inr R | Some p \<Rightarrow> p R) = Inr p"
    and n: "next = (if create then p else bumped p now)" "encodeFlowRecord T H next = Inr bs"
    using assms(1) by (auto simp: prepare_def bind_res_Inr_iff Let_def)
  have "follows R p" using p assms(2) by (auto simp: projector_ok_def intro: keeps_follows split: option.splits)
  moreover have "follows p next" using keeps_bumped [of p now] n(1) by (auto intro: keeps_follows)
  ultimately show ?thesis using n(2) follows_trans by blast
qed

lemma plan_SaveThis:
  assumes "plan T H now d create J = SaveThis next bs" "projector_ok J"
  obtains R' where "jn_failure J = None" "d (jn_current J) = Inr (Some R')" "follows R' next" "encodeFlowRecord T H next = Inr bs"
  using assms prepare_Inr
  by (auto simp: plan_def assertUsable_def split: option.splits sum.splits if_splits prod.splits)

lemma plan_NothingToSave: "plan T H now d create J = NothingToSave \<Longrightarrow> jn_failure J = None \<and> d (jn_current J) = Inr None"
  by (auto simp: plan_def assertUsable_def split: option.splits sum.splits if_splits prod.splits)

lemma plan_failed: "jn_failure J = Some e \<Longrightarrow> plan T H now d create J = Refuse (EarlierSaveRefused (jn_key J) e)"
  by (simp add: plan_def assertUsable_def)

section \<open>Desks\<close>

record posted =
  po_inst :: nat
  po_key :: string
  po_spec :: post_spec

record 's desk =
  dk_store :: 's
  dk_journals :: "nat \<Rightarrow> journal option"
  dk_attempts :: "nat \<Rightarrow> (nat \<times> post_spec \<times> phase) option"
  dk_posts :: "posted list"
  dk_seen :: "bytes list"

definition fresh_desk :: "('s \<Rightarrow> string \<Rightarrow> bytes option) \<Rightarrow> 's desk \<Rightarrow> bool" where
  "fresh_desk content W \<longleftrightarrow> (\<forall>k. content (dk_store W) k = None) \<and> (\<forall>i. dk_journals W i = None)
     \<and> (\<forall>a. dk_attempts W a = None) \<and> dk_posts W = [] \<and> dk_seen W = []"

text \<open>The bytes a commit hands to the store.\<close>

definition handed :: "tclk \<Rightarrow> (bytes \<Rightarrow> string) \<Rightarrow> int \<Rightarrow> derive \<Rightarrow> bool \<Rightarrow> journal \<Rightarrow> bytes list" where
  "handed T H now d create J = (case plan T H now d create J of SaveThis next bs \<Rightarrow> [bs] | _ \<Rightarrow> [])"

definition handed_create :: "tclk \<Rightarrow> (bytes \<Rightarrow> string) \<Rightarrow> int \<Rightarrow> string \<Rightarrow> flow_record \<Rightarrow> bytes list" where
  "handed_create T H now did initial =
     (case newJournal did initial None of Inl e \<Rightarrow> [] | Inr J \<Rightarrow> handed T H now (\<lambda>_. Inr (Some initial)) True J)"

text \<open>A turn of the queue of instance \<open>i\<close>: its journal, the store and the bytes handed to
  it.\<close>

definition after_turn :: "'s desk \<Rightarrow> nat \<Rightarrow> journal \<Rightarrow> 's \<Rightarrow> bytes list \<Rightarrow> 's desk" where
  "after_turn W i J s bs = W\<lparr>dk_store := s, dk_journals := (dk_journals W)(i \<mapsto> J), dk_seen := bs @ dk_seen W\<rparr>"

definition set_phase :: "'s desk \<Rightarrow> nat \<Rightarrow> nat \<Rightarrow> post_spec \<Rightarrow> phase \<Rightarrow> 's desk" where
  "set_phase W a i spec ph = W\<lparr>dk_attempts := (dk_attempts W)(a \<mapsto> (i, spec, ph))\<rparr>"

definition log_post :: "'s desk \<Rightarrow> nat \<Rightarrow> string \<Rightarrow> post_spec \<Rightarrow> 's desk" where
  "log_post W i key spec = W\<lparr>dk_posts := \<lparr>po_inst = i, po_key = key, po_spec = spec\<rparr> # dk_posts W\<rparr>"

text \<open>One step, by instance \<open>i\<close>.\<close>

inductive moves ::
    "tclk \<Rightarrow> (bytes \<Rightarrow> string) \<Rightarrow> 's saver \<Rightarrow> ('s \<Rightarrow> string \<Rightarrow> (store_error, bytes option) result) \<Rightarrow> nat \<Rightarrow> 's desk \<Rightarrow> 's desk \<Rightarrow> bool"
  for T H sv ld where
  begins: "dk_journals W i = None \<Longrightarrow> create_journal T H sv now did initial (dk_store W) = (r, s') \<Longrightarrow>
    moves T H sv ld i W (W\<lparr>dk_store := s', dk_journals := (dk_journals W)(i := caught r),
      dk_seen := handed_create T H now did initial @ dk_seen W\<rparr>)"
| opens: "dk_journals W i = None \<Longrightarrow> open_journal T H (ld (dk_store W)) did role sid = Inr J \<Longrightarrow>
    moves T H sv ld i W (W\<lparr>dk_journals := (dk_journals W)(i \<mapsto> J)\<rparr>)"
| projects: "dk_journals W i = Some J \<Longrightarrow> (\<forall>R R'. p R = Inr R' \<longrightarrow> keeps_ledger R R') \<Longrightarrow>
    moves T H sv ld i W (W\<lparr>dk_journals := (dk_journals W)(i \<mapsto> setProjector p J)\<rparr>)"
| updates: "dk_journals W i = Some J \<Longrightarrow> (\<forall>R. keeps_ledger R (f R)) \<Longrightarrow>
    update T H sv now f J (dk_store W) = (r, J', s') \<Longrightarrow>
    moves T H sv ld i W (after_turn W i J' s' (handed T H now (derive_update f) False J))"
| adopts: "dk_journals W i = Some J \<Longrightarrow> adopt T H sv now spec t J (dk_store W) = (r, J', s') \<Longrightarrow>
    moves T H sv ld i W (after_turn W i J' s' (handed T H now (derive_landed T H spec t True) False J))"
| starts: "dk_journals W i = Some J \<Longrightarrow> dk_attempts W a = None \<Longrightarrow> ensurePosted T H J spec = (Started ph, J') \<Longrightarrow>
    moves T H sv ld i W (set_phase (W\<lparr>dk_journals := (dk_journals W)(i \<mapsto> J')\<rparr>) a i spec ph)"
| has_read: "dk_journals W i = Some J \<Longrightarrow> dk_attempts W a = Some (i, spec, AwaitRead isNew) \<Longrightarrow>
    moves T H sv ld i W (set_phase W a i spec (after_read T (jn_did J) spec isNew answer))"
| intends: "dk_journals W i = Some J \<Longrightarrow> dk_attempts W a = Some (i, spec, AwaitIntent) \<Longrightarrow>
    intent_turn T H sv now spec J (dk_store W) = (ph, J', s') \<Longrightarrow>
    moves T H sv ld i W (set_phase (after_turn W i J' s' (handed T H now (derive_intent T H spec) False J)) a i spec ph)"
| refuses: "dk_journals W i = Some J \<Longrightarrow> dk_attempts W a = Some (i, spec, AfterIntent) \<Longrightarrow>
    before_post J = Finished e \<Longrightarrow> moves T H sv ld i W (set_phase W a i spec (Finished e))"
| posts: "dk_journals W i = Some J \<Longrightarrow> dk_attempts W a = Some (i, spec, AfterIntent) \<Longrightarrow>
    before_post J = AwaitPost \<Longrightarrow> moves T H sv ld i W (log_post (set_phase W a i spec AwaitPost) i (jn_key J) spec)"
| answered: "dk_journals W i = Some J \<Longrightarrow> dk_attempts W a = Some (i, spec, AwaitPost) \<Longrightarrow>
    moves T H sv ld i W (set_phase W a i spec (after_post answer))"
| lands: "dk_journals W i = Some J \<Longrightarrow> dk_attempts W a = Some (i, spec, AwaitLanded t b) \<Longrightarrow>
    landed_turn T H sv now spec t b J (dk_store W) = (ph, J', s') \<Longrightarrow>
    moves T H sv ld i W (set_phase (after_turn W i J' s' (handed T H now (derive_landed T H spec t b) False J)) a i spec ph)"
| settles: "dk_journals W i = Some J \<Longrightarrow> dk_attempts W a = Some (i, spec, Finished e) \<Longrightarrow>
    moves T H sv ld i W (W\<lparr>dk_journals := (dk_journals W)(i \<mapsto> settle (ps_kind spec) J),
      dk_attempts := (dk_attempts W)(a := None)\<rparr>)"
| dies: "moves T H sv ld i W (W\<lparr>dk_journals := (dk_journals W)(i := None),
      dk_attempts := (\<lambda>a. case dk_attempts W a of None \<Rightarrow> None | Some (j, x) \<Rightarrow> if j = i then None else Some (j, x))\<rparr>)"

inductive runs_to ::
    "tclk \<Rightarrow> (bytes \<Rightarrow> string) \<Rightarrow> 's saver \<Rightarrow> ('s \<Rightarrow> string \<Rightarrow> (store_error, bytes option) result) \<Rightarrow> 's desk \<Rightarrow> 's desk \<Rightarrow> bool"
  for T H sv ld W where
  stays: "runs_to T H sv ld W W"
| goes: "runs_to T H sv ld W W' \<Longrightarrow> moves T H sv ld i W' W'' \<Longrightarrow> runs_to T H sv ld W W''"

lemma seen_grows: "moves T H sv ld i W W' \<Longrightarrow> set (dk_seen W) \<subseteq> set (dk_seen W')"
  by (induction rule: moves.induct) (auto simp: after_turn_def set_phase_def log_post_def)

lemma runs_seen: "runs_to T H sv ld W W' \<Longrightarrow> set (dk_seen W) \<subseteq> set (dk_seen W')"
  by (induction rule: runs_to.induct) (auto dest: seen_grows)

end
