(* ===== verification/Flow_Journal_Safe.thy ===== *)
theory Flow_Journal_Safe
  imports Flow_Journal_Runs
begin

text \<open>
  What holds at every moment of every run of the journals of \<open>src/client/flow-resume.ts\<close>: the
  invariant, proved once against the contract of a store, and its properties over the file store
  and the in-memory store.
\<close>

section \<open>Stored records\<close>

text \<open>The bytes \<open>b\<close> under \<open>key\<close> are those of the record \<open>R\<close>.\<close>

definition holds_record :: "tclk \<Rightarrow> (bytes \<Rightarrow> string) \<Rightarrow> string \<Rightarrow> bytes \<Rightarrow> flow_record \<Rightarrow> bool" where
  "holds_record T H key b R \<longleftrightarrow> encodeFlowRecord T H R = Inr b \<and> recordKey R = Inr key"

lemma holds_decode: "digest_ok H \<Longrightarrow> holds_record T H key b R \<Longrightarrow> decodeFlowRecord T H b key = Inr R"
  using encode_decode by (auto simp: holds_record_def digest_ok_def)

lemma holds_unique: "digest_ok H \<Longrightarrow> holds_record T H key b R \<Longrightarrow> holds_record T H key b R' \<Longrightarrow> R = R'"
  using holds_decode by (metis sum.inject(2))

lemma encode_length: "encodeFlowRecord T H R = Inr b \<Longrightarrow> length b \<le> MAX_FLOW_RECORD_BYTES"
  by (auto simp: encodeFlowRecord_def Let_def bind_res_Inr_iff split: if_splits)

definition stored_line :: "tclk \<Rightarrow> (bytes \<Rightarrow> string) \<Rightarrow> bytes option \<Rightarrow> string \<Rightarrow> post_spec \<Rightarrow> bool" where
  "stored_line T H c key spec \<longleftrightarrow> (\<exists>b R. c = Some b \<and> holds_record T H key b R \<and> holds_line H R spec)"

definition phase_ok :: "(bytes \<Rightarrow> string) \<Rightarrow> journal \<Rightarrow> post_spec \<Rightarrow> phase \<Rightarrow> bool" where
  "phase_ok H J spec ph \<longleftrightarrow>
     (case ph of
        AwaitRead isNew \<Rightarrow> isNew \<or> holds_line H (jn_current J) spec
      | AfterIntent \<Rightarrow> holds_line H (jn_current J) spec
      | AwaitPost \<Rightarrow> holds_line H (jn_current J) spec
      | _ \<Rightarrow> True)"

lemma phase_ok_simps [simp]:
  "phase_ok H J spec (AwaitRead n) \<longleftrightarrow> n \<or> holds_line H (jn_current J) spec"
  "phase_ok H J spec AwaitIntent" "phase_ok H J spec (AwaitLanded t b)" "phase_ok H J spec (Finished r)"
  "phase_ok H J spec AfterIntent \<longleftrightarrow> holds_line H (jn_current J) spec"
  "phase_ok H J spec AwaitPost \<longleftrightarrow> holds_line H (jn_current J) spec"
  by (simp_all add: phase_ok_def)

lemma phase_ok_follows: "phase_ok H J spec ph \<Longrightarrow> follows (jn_current J) (jn_current J') \<Longrightarrow> phase_ok H J' spec ph"
  by (cases ph) (auto intro: holds_line_follows)

lemma phase_ok_start: "phase_ok H J spec (post_start T H J spec)"
proof (cases "ledgerEntry (jn_current J) (ps_kind spec)")
  case None
  then show ?thesis by (auto simp: post_start_def Let_def split: sum.split option.split)
next
  case (Some e)
  have "holds_line H (jn_current J) spec" if "withLedgerIntent T (jn_current J) (ps_kind spec) (ps_room spec) (ledgerText H spec) = Inr R" for R
    using that Some by (auto simp: withLedgerIntent_def holds_line_def split: if_splits)
  then show ?thesis
    by (auto simp: post_start_def Let_def bind_res_Inr_iff split: sum.split option.split)
qed

lemma phase_ok_read:
  "phase_ok H J spec (AwaitRead isNew) \<Longrightarrow> phase_ok H J spec (after_read T did spec isNew answer)"
  by (auto simp: after_read_def split: sum.split option.split)

lemma phase_ok_post: "phase_ok H J spec (after_post answer)"
  by (simp add: after_post_def split: sum.split)

lemma before_post_usable: "before_post J = AwaitPost \<longleftrightarrow> jn_failure J = None"
  by (simp add: before_post_def assertUsable_def split: option.split)

text \<open>Past the call of \<open>post\<close>, or past all calls.\<close>

fun past_post :: "phase \<Rightarrow> bool" where
  "past_post (AwaitLanded t b) = True"
| "past_post (Finished r) = True"
| "past_post AwaitPost = True"
| "past_post _ = False"

definition posts_of :: "string \<Rightarrow> ledger_kind \<Rightarrow> 's desk \<Rightarrow> posted list" where
  "posts_of key kind W = filter (\<lambda>p. po_key p = key \<and> ps_kind (po_spec p) = kind) (dk_posts W)"

lemma ledgerLanded_follows: "ledgerLanded R kind \<Longrightarrow> follows R R' \<Longrightarrow> ledgerLanded R' kind"
  by (fastforce simp: ledgerLanded_def follows_def entry_le_def split: option.splits)

lemma post_start_landed: "ledgerLanded (jn_current J) (ps_kind spec) \<Longrightarrow> past_post (post_start T H J spec)"
  by (auto simp: post_start_def ledgerLanded_def landedAnswer_def bind_res_Inr_iff Let_def split: sum.split option.splits)

section \<open>The invariant\<close>

locale journal_store = cas_store H fits inv content load save
  for H :: "bytes \<Rightarrow> string" and fits and inv :: "'s \<Rightarrow> bool" and content and load and save +
  fixes T :: tclk
  assumes record_fits: "length b \<le> MAX_FLOW_RECORD_BYTES \<Longrightarrow> fits b"
begin

definition store_ok :: "bytes set \<Rightarrow> 's \<Rightarrow> bool" where
  "store_ok seen s \<longleftrightarrow> inv s \<and> (\<forall>k b. content s k = Some b \<longrightarrow> b \<in> seen \<and> (\<exists>R. holds_record T H k b R))"

definition knows :: "bytes set \<Rightarrow> 's \<Rightarrow> journal \<Rightarrow> bool" where
  "knows seen s J \<longleftrightarrow> projector_ok J
     \<and> (\<exists>b. holds_record T H (jn_key J) b (jn_current J) \<and> b \<in> seen \<and> jn_digest J = Some (H b))
     \<and> (\<exists>b R. content s (jn_key J) = Some b \<and> holds_record T H (jn_key J) b R \<and> follows (jn_current J) R)"

definition advances :: "'s \<Rightarrow> 's \<Rightarrow> bool" where
  "advances s s' \<longleftrightarrow> (\<forall>k b R. content s k = Some b \<longrightarrow> holds_record T H k b R \<longrightarrow>
     (\<exists>b' R'. content s' k = Some b' \<and> holds_record T H k b' R' \<and> follows R R'))"

lemma advances_refl [simp]: "content s' = content s \<Longrightarrow> advances s s'"
  unfolding advances_def by (metis follows_refl)

lemma knows_mono:
  assumes "knows seen s J" "advances s s'" "seen \<subseteq> seen'"
  shows "knows seen' s' J"
proof -
  obtain b R where b: "content s (jn_key J) = Some b" "holds_record T H (jn_key J) b R" "follows (jn_current J) R"
    using assms(1) by (auto simp: knows_def)
  then obtain b' R' where "content s' (jn_key J) = Some b'" "holds_record T H (jn_key J) b' R'" "follows R R'"
    using assms(2) [unfolded advances_def] by blast
  then have "\<exists>b R. content s' (jn_key J) = Some b \<and> holds_record T H (jn_key J) b R \<and> follows (jn_current J) R"
    using b(3) follows_trans by blast
  then show ?thesis using assms(1,3) by (auto simp: knows_def)
qed

lemma stored_line_advances:
  "stored_line T H (content s key) key spec \<Longrightarrow> advances s s' \<Longrightarrow> stored_line T H (content s' key) key spec"
  unfolding stored_line_def advances_def by (meson holds_line_follows)

lemma knows_line:
  "knows seen s J \<Longrightarrow> holds_line H (jn_current J) spec \<Longrightarrow> stored_line T H (content s (jn_key J)) (jn_key J) spec"
  unfolding knows_def stored_line_def by (meson holds_line_follows)

text \<open>The compare of a save that went through: what is stored is the journal's own record.\<close>

lemma matches_own:
  assumes "digest_ok H" "store_ok seen s" "knows seen s J" "inj_on H seen" "cas_matches H (content s (jn_key J)) (jn_digest J)"
  obtains b where "content s (jn_key J) = Some b" "holds_record T H (jn_key J) b (jn_current J)"
proof -
  obtain b where b: "holds_record T H (jn_key J) b (jn_current J)" "b \<in> seen" "jn_digest J = Some (H b)"
    using assms(3) by (auto simp: knows_def)
  obtain c where c: "content s (jn_key J) = Some c" "H c = H b"
    using assms(5) b(3) by (auto simp: cas_matches_def split: option.splits)
  have "c \<in> seen" using assms(2) c(1) by (auto simp: store_ok_def)
  then have "c = b" using assms(4) b(2) c(2) by (auto simp: inj_on_def)
  with b c that show thesis by blast
qed

lemma store_ok_put:
  assumes "store_ok seen s" "content s' = (content s)(key := Some bs)" "inv s'" "holds_record T H key bs R"
  shows "store_ok (insert bs seen) s'"
  using assms by (auto simp: store_ok_def)

lemma advances_put:
  assumes "digest_ok H" "content s' = (content s)(key := Some bs)" "holds_record T H key bs R'"
    and "\<And>b R. content s key = Some b \<Longrightarrow> holds_record T H key b R \<Longrightarrow> follows R R'"
  shows "advances s s'"
  unfolding advances_def
proof (intro allI impI)
  fix k b R
  assume a: "content s k = Some b" "holds_record T H k b R"
  show "\<exists>b' R'. content s' k = Some b' \<and> holds_record T H k b' R' \<and> follows R R'"
  proof (cases "k = key")
    case True
    then show ?thesis using a assms(2,3) assms(4) [of b R] by auto
  next
    case False
    then have "content s' k = Some b" using a(1) assms(2) by simp
    then show ?thesis using a(2) follows_refl by blast
  qed
qed

text \<open>One turn of the queue.\<close>

lemma commit_turn:
  assumes d: "digest_ok H" and s: "store_ok seen s" and k: "knows seen s J" and f: "derive_follows der"
    and c: "commit T H save now der False J s = (r, J', s')"
    and seen': "seen' = set (handed T H now der False J) \<union> seen" and j: "inj_on H seen"
  shows "store_ok seen' s' \<and> advances s s' \<and> knows seen' s' J' \<and> jn_key J' = jn_key J
    \<and> follows (jn_current J) (jn_current J')"
proof -
  note s' = s [unfolded store_ok_def]
  have same: "store_ok seen' s \<and> advances s s \<and> knows seen' s J"
    using s k knows_mono [OF k, of s seen'] seen' by (auto simp: store_ok_def)
  have failed: "knows S t (failJournal J e) = knows S t J" for S t e
    by (simp add: knows_def failJournal_def projector_ok_def)
  show ?thesis
  proof (cases "plan T H now der False J")
    case (SaveThis n bs)
    have p: "projector_ok J" using k by (simp add: knows_def)
    obtain R' where R': "der (jn_current J) = Inr (Some R')" "follows R' n" "encodeFlowRecord T H n = Inr bs"
      using SaveThis p by (rule plan_SaveThis)
    have cn: "follows (jn_current J) n" using f R'(1,2) unfolding derive_follows_def by (metis follows_trans)
    then have n: "holds_record T H (jn_key J) bs n"
      using k R'(3) by (auto simp: knows_def holds_record_def follows_def)
    have bs: "fits bs" using encode_length R'(3) record_fits by blast
    have seen: "seen' = insert bs seen" by (simp add: seen' handed_def SaveThis)
    have put: "store_ok seen' t \<and> advances s t" if m: "cas_matches H (content s (jn_key J)) (jn_digest J)"
      and t: "content t = (content s)(jn_key J := Some bs)" "inv t" for t
    proof
      show "store_ok seen' t" unfolding seen by (rule store_ok_put [OF s t n])
      show "advances s t"
      proof (rule advances_put [OF d t(1) n])
        fix b R
        assume b: "content s (jn_key J) = Some b" "holds_record T H (jn_key J) b R"
        obtain b' where "content s (jn_key J) = Some b'" "holds_record T H (jn_key J) b' (jn_current J)"
          by (rule matches_own [OF d s k j m])
        then have "R = jn_current J" using b holds_unique [OF d] by simp
        then show "follows R n" using cn by simp
      qed
    qed
    obtain x t where sv: "save s (jn_key J) bs (jn_digest J) = (x, t)" by (cases "save s (jn_key J) bs (jn_digest J)")
    have t: "inv t" using save_inv [of s bs "jn_key J" "jn_digest J"] s' bs sv by simp
    show ?thesis
    proof (cases x)
      case (Inl e)
      then have J': "J' = failJournal J (Rec (StoreThrew e))" "s' = t" using c SaveThis sv by (simp_all add: commit_def)
      have key: "jn_key J' = jn_key J" "jn_current J' = jn_current J" by (simp_all add: J' failJournal_def)
      consider "content t = content s" | "cas_matches H (content s (jn_key J)) (jn_digest J)" "content t = (content s)(jn_key J := Some bs)"
        using save_refused [of s bs "jn_key J" "jn_digest J" e t] s' bs sv Inl by auto
      then have "store_ok seen' t \<and> advances s t"
      proof cases
        case 1
        then show ?thesis using s t by (auto simp: store_ok_def seen)
      qed (use put t in blast)
      moreover from this have "knows seen' t J" using knows_mono [OF k] seen by blast
      ultimately show ?thesis using key by (simp add: J' failed)
    next
      case (Inr u)
      then have J': "J' = J\<lparr>jn_current := n, jn_digest := Some (H bs)\<rparr>" "s' = t" using c SaveThis sv by (simp_all add: commit_def)
      have m: "cas_matches H (content s (jn_key J)) (jn_digest J) \<and> content t = (content s)(jn_key J := Some bs)"
        using save_ok [of s bs "jn_key J" "jn_digest J" t] s' bs sv Inr by simp
      have "knows seen' t J'"
        using p n m by (auto simp: knows_def J' projector_ok_def seen)
      then show ?thesis using put m t cn by (simp add: J')
    qed
  next
    case NothingToSave
    then show ?thesis using c same by (simp add: commit_def)
  next
    case (Refuse e)
    then show ?thesis using c same by (simp add: commit_def)
  next
    case (FailWith e)
    then have "J' = failJournal J e" "s' = s" using c by (simp_all add: commit_def)
    then show ?thesis using same by (simp add: failed) (simp add: failJournal_def)
  qed
qed

text \<open>A create and an open.\<close>

lemma create_turn:
  assumes d: "digest_ok H" and s: "store_ok seen s" and c: "create_journal T H save now did initial s = (r, s')"
    and seen': "seen' = set (handed_create T H now did initial) \<union> seen"
  shows "store_ok seen' s' \<and> advances s s' \<and> (\<forall>J. r = Inr J \<longrightarrow> knows seen' s' J \<and> content s (jn_key J) = None)"
proof (cases "newJournal did initial None")
  case (Inl e)
  have "seen' = seen" unfolding seen' handed_create_def Inl by simp
  moreover have "r = Inl e" "s' = s" using c unfolding create_journal_def Inl by simp_all
  ultimately show ?thesis using s by simp
next
  case (Inr J)
  then have J: "recordKey initial = Inr (jn_key J)" "jn_projector J = None" "jn_failure J = None" "jn_digest J = None"
    by (auto simp: newJournal_def bind_res_Inr_iff)
  show ?thesis
  proof (cases "encodeFlowRecord T H initial")
    case (Inl e)
    then show ?thesis using c s Inr J
      by (auto simp: create_journal_def commit_def plan_def assertUsable_def prepare_def rec_res_def seen' handed_create_def handed_def)
  next
    case e: (Inr bs)
    then have p: "plan T H now (\<lambda>_. Inr (Some initial)) True J = SaveThis initial bs"
      using J by (simp add: plan_def assertUsable_def prepare_def rec_res_def)
    have seen: "seen' = insert bs seen" by (simp add: seen' handed_create_def Inr handed_def p)
    have n: "holds_record T H (jn_key J) bs initial" using e J by (simp add: holds_record_def)
    have bs: "fits bs" using encode_length e record_fits by blast
    obtain x t where sv: "save s (jn_key J) bs None = (x, t)" by (cases "save s (jn_key J) bs None")
    have i: "inv s" using s by (simp add: store_ok_def)
    have t: "inv t" using save_inv [OF i bs, of "jn_key J" None] sv by simp
    have put: "store_ok seen' t \<and> advances s t"
      if "cas_matches H (content s (jn_key J)) None" and u: "content t = (content s)(jn_key J := Some bs)"
    proof
      show "store_ok seen' t" unfolding seen by (rule store_ok_put [OF s u t n])
      show "advances s t"
        by (rule advances_put [OF d u n]) (use that(1) in \<open>simp add: cas_matches_def\<close>)
    qed
    show ?thesis
    proof (cases x)
      case (Inl y)
      then have "r = Inl (fail_error J (Rec (StoreThrew y)))" "s' = t" using c Inr sv J p by (simp_all add: create_journal_def commit_def)
      moreover have "store_ok seen' t \<and> advances s t"
      proof (cases "content t = content s")
        case True
        then show ?thesis using s t by (auto simp: store_ok_def seen)
      qed (use save_refused [OF i bs sv [unfolded Inl]] put in blast)
      ultimately show ?thesis by simp
    next
      case (Inr u)
      then have r: "r = Inr (J\<lparr>jn_current := initial, jn_digest := Some (H bs)\<rparr>)" "s' = t"
        using c \<open>newJournal did initial None = Inr J\<close> sv J p by (simp_all add: create_journal_def commit_def)
      have m: "cas_matches H (content s (jn_key J)) None \<and> content t = (content s)(jn_key J := Some bs)"
        using save_ok [OF i bs] sv Inr by simp
      then have "knows seen' t (J\<lparr>jn_current := initial, jn_digest := Some (H bs)\<rparr>)"
        using n J by (auto simp: knows_def projector_ok_def seen)
      then show ?thesis using put m r by (simp add: cas_matches_def)
    qed
  qed
qed

lemma open_turn:
  assumes d: "digest_ok H" and s: "store_ok seen s" and o: "open_journal T H (load s) did role sid = Inr J"
  shows "knows seen s J \<and> (\<exists>b. content s (jn_key J) = Some b \<and> holds_record T H (jn_key J) b (jn_current J))"
proof -
  obtain R g where l: "loadFlowRecordWithDigest T H (load s) role sid = Inr (Some (R, g))" and n: "newJournal did R (Some g) = Inr J"
    using o by (auto simp: open_journal_def bind_res_Inr_iff split: option.splits sum.splits)
  obtain key bs where k: "lift_store (flowKey role sid) = Inr key" "lift_store (load s key) = Inr (Some bs)"
    and R: "decodeFlowRecord T H bs key = Inr R" "g = H bs"
    using l by (auto simp: loadFlowRecordWithDigest_def bind_res_Inr_iff split: option.splits)
  have "load s key = Inr (Some bs)" using k(2) by (simp add: lift_store_def split: sum.splits)
  then have b: "content s key = Some bs" using load_content s by (auto simp: store_ok_def)
  then obtain R0 where "bs \<in> seen" "holds_record T H key bs R0" using s by (auto simp: store_ok_def)
  moreover from this have "R0 = R" using holds_decode [OF d] R(1) by simp
  moreover from this have J: "J = \<lparr>jn_key = key, jn_did = did, jn_current = R, jn_digest = Some g, jn_failure = None,
      jn_projector = None, jn_inflight = []\<rparr>"
    using n calculation by (auto simp: newJournal_def bind_res_Inr_iff holds_record_def)
  ultimately show ?thesis using b R(2) by (auto simp: knows_def projector_ok_def)
qed

definition desk_ok :: "'s desk \<Rightarrow> bool" where
  "desk_ok W \<longleftrightarrow> store_ok (set (dk_seen W)) (dk_store W)
     \<and> (\<forall>i J. dk_journals W i = Some J \<longrightarrow> knows (set (dk_seen W)) (dk_store W) J)
     \<and> (\<forall>p \<in> set (dk_posts W). stored_line T H (content (dk_store W) (po_key p)) (po_key p) (po_spec p))
     \<and> (\<forall>a i spec ph. dk_attempts W a = Some (i, spec, ph) \<longrightarrow> (\<exists>J. dk_journals W i = Some J \<and> phase_ok H J spec ph))"

lemma desk_okD:
  assumes "desk_ok W"
  shows "store_ok (set (dk_seen W)) (dk_store W)"
    and "dk_journals W i = Some J \<Longrightarrow> knows (set (dk_seen W)) (dk_store W) J"
    and "dk_attempts W a = Some (i, spec, ph) \<Longrightarrow> dk_journals W i = Some J \<Longrightarrow> phase_ok H J spec ph"
    and "p \<in> set (dk_posts W) \<Longrightarrow> stored_line T H (content (dk_store W) (po_key p)) (po_key p) (po_spec p)"
  using assms unfolding desk_ok_def by (blast, blast, metis option.sel, blast)

lemma ok_fresh: "fresh_desk content W \<Longrightarrow> inv (dk_store W) \<Longrightarrow> desk_ok W"
  by (simp add: fresh_desk_def desk_ok_def store_ok_def)

lemma ok_store:
  assumes W: "desk_ok W" and s: "store_ok (set (bs @ dk_seen W)) s" "advances (dk_store W) s"
    and i: "dk_journals W i = None \<or> (\<exists>J J'. dk_journals W i = Some J \<and> r = Some J' \<and> follows (jn_current J) (jn_current J'))"
    and r: "\<And>J. r = Some J \<Longrightarrow> knows (set (bs @ dk_seen W)) s J"
  shows "desk_ok (W\<lparr>dk_store := s, dk_journals := (dk_journals W)(i := r), dk_seen := bs @ dk_seen W\<rparr>)"
  unfolding desk_ok_def
proof (intro conjI ballI allI impI)
  let ?W = "W\<lparr>dk_store := s, dk_journals := (dk_journals W)(i := r), dk_seen := bs @ dk_seen W\<rparr>"
  show "store_ok (set (dk_seen ?W)) (dk_store ?W)" using s(1) by simp
  show "knows (set (dk_seen ?W)) (dk_store ?W) J" if "dk_journals ?W j = Some J" for j J
    using that r desk_okD(2) [OF W] knows_mono [OF _ s(2), of "set (dk_seen W)" J "set (bs @ dk_seen W)"]
    by (auto split: if_splits)
  show "stored_line T H (content (dk_store ?W) (po_key p)) (po_key p) (po_spec p)" if "p \<in> set (dk_posts ?W)" for p
    using that stored_line_advances [OF desk_okD(4) [OF W] s(2)] by simp
  show "\<exists>J. dk_journals ?W j = Some J \<and> phase_ok H J spec ph" if a: "dk_attempts ?W a = Some (j, spec, ph)" for a j spec ph
  proof -
    obtain J where "dk_journals W j = Some J" "phase_ok H J spec ph" using W a unfolding desk_ok_def by auto metis
    then show ?thesis using i phase_ok_follows by (cases "j = i") auto
  qed
qed

lemma ok_turn:
  assumes "digest_ok H" "desk_ok W" "inj_on H (set (dk_seen W))" "dk_journals W i = Some J" "derive_follows der"
    and "commit T H save now der False J (dk_store W) = (r, J', s')"
  shows "desk_ok (after_turn W i J' s' (handed T H now der False J))"
  unfolding after_turn_def
  using commit_turn [OF assms(1) desk_okD(1) [OF assms(2)] desk_okD(2) [OF assms(2,4)] assms(5,6) refl assms(3)] assms(2,4)
  by (intro ok_store) (auto simp: Un_commute)

lemma ok_journal:
  assumes "desk_ok W" "dk_journals W i = Some J" "jn_key J' = jn_key J" "jn_current J' = jn_current J" "jn_digest J' = jn_digest J"
    and "projector_ok J'"
  shows "desk_ok (W\<lparr>dk_journals := (dk_journals W)(i \<mapsto> J')\<rparr>)"
proof -
  have "knows (set (dk_seen W)) (dk_store W) J'"
    using desk_okD(2) [OF assms(1,2)] assms(3-6) by (simp add: knows_def)
  moreover have "phase_ok H J' spec ph = phase_ok H J spec ph" for spec ph
    by (cases ph) (simp_all add: assms(4))
  moreover have "\<exists>K. ((dk_journals W)(i \<mapsto> J')) k = Some K \<and> phase_ok H K spec ph"
    if a: "dk_attempts W a = Some (k, spec, ph)" for a k spec ph
    using assms(1,2) calculation(2) a unfolding desk_ok_def by (cases "k = i") fastforce+
  ultimately show ?thesis using assms(1) by (simp add: desk_ok_def)
qed

lemma ok_phase:
  "desk_ok W \<Longrightarrow> dk_journals W i = Some J \<Longrightarrow> phase_ok H J spec ph \<Longrightarrow> desk_ok (set_phase W a i spec ph)"
  by (auto simp: desk_ok_def set_phase_def)

lemma ok_log:
  assumes "desk_ok W" "dk_journals W i = Some J" "holds_line H (jn_current J) spec"
  shows "desk_ok (log_post W i (jn_key J) spec)"
  using assms(1) knows_line [OF desk_okD(2) [OF assms(1,2)] assms(3)] by (auto simp: desk_ok_def log_post_def)

lemma ok_knows_projector: "desk_ok W \<Longrightarrow> dk_journals W i = Some J \<Longrightarrow> projector_ok J"
  using desk_okD(2) by (auto simp: knows_def)

lemma intent_line:
  assumes "commit T H save now (derive_intent T H spec) False J s = (Inr u, J', s')" "projector_ok J"
  shows "holds_line H (jn_current J') spec"
proof (cases "plan T H now (derive_intent T H spec) False J")
  case NothingToSave
  have "holds_line H (jn_current J) spec"
    by (rule derive_intent_line(1) [OF conjunct2 [OF plan_NothingToSave [OF NothingToSave]]])
  moreover have "J' = J" using assms(1) NothingToSave by (simp add: commit_def)
  ultimately show ?thesis by simp
next
  case (SaveThis n bs)
  obtain R' where "derive_intent T H spec (jn_current J) = Inr (Some R')" "follows R' n"
    using SaveThis assms(2) by (rule plan_SaveThis)
  moreover have "jn_current J' = n" using assms(1) SaveThis by (auto simp: commit_def split: prod.splits sum.splits)
  ultimately show ?thesis using derive_intent_line(2) holds_line_follows by blast
qed (use assms(1) in \<open>simp_all add: commit_def\<close>)

theorem moves_ok:
  assumes d: "digest_ok H" and m: "moves T H save load i W W'" and W: "desk_ok W" and j: "inj_on H (set (dk_seen W))"
  shows "desk_ok W'"
  using m
proof cases
  case (begins now did initial r s')
  have s: "store_ok (set (handed_create T H now did initial @ dk_seen W)) s' \<and> advances (dk_store W) s'
      \<and> (\<forall>J. r = Inr J \<longrightarrow> knows (set (handed_create T H now did initial @ dk_seen W)) s' J \<and> content (dk_store W) (jn_key J) = None)"
    by (rule create_turn [OF d desk_okD(1) [OF W] begins(3)]) simp
  show ?thesis unfolding begins(1)
    by (rule ok_store [OF W]) (use s begins(2) in \<open>auto simp: caught_Some_iff\<close>)
next
  case (opens did role sid J)
  have "knows (set (dk_seen W)) (dk_store W) J"
    using open_turn [OF d desk_okD(1) [OF W] opens(3)] by blast
  then have "desk_ok (W\<lparr>dk_store := dk_store W, dk_journals := (dk_journals W)(i := Some J), dk_seen := [] @ dk_seen W\<rparr>)"
    by (intro ok_store [OF W]) (use desk_okD(1) [OF W] opens(2) in simp_all)
  then show ?thesis by (simp add: opens(1))
next
  case (projects J p)
  show ?thesis unfolding projects(1)
    by (rule ok_journal [OF W projects(2)]) (use projects(3) in \<open>auto simp: setProjector_def projector_ok_def\<close>)
next
  case (updates J f now r J' s')
  show ?thesis unfolding updates(1)
    by (rule ok_turn [OF d W j updates(2) follows_update]) (use updates in \<open>auto simp: update_def\<close>)
next
  case (adopts J now spec t r J' s')
  show ?thesis unfolding adopts(1)
    by (rule ok_turn [OF d W j adopts(2) follows_landed]) (use adopts in \<open>auto simp: adopt_def markLanded_def\<close>)
next
  case (starts J a spec ph J')
  have J': "J' = J\<lparr>jn_inflight := (ps_kind spec, ps_room spec, ledgerText H spec) # jn_inflight J\<rparr>" "ph = post_start T H J spec"
    using starts(4) by (auto simp: ensurePosted_def split: option.splits if_splits)
  have "desk_ok (W\<lparr>dk_journals := (dk_journals W)(i \<mapsto> J')\<rparr>)"
    by (rule ok_journal [OF W starts(2)]) (use ok_knows_projector [OF W starts(2)] in \<open>auto simp: J' projector_ok_def\<close>)
  moreover have "phase_ok H J' spec ph" using phase_ok_start [of H J spec T] unfolding J' by (cases "post_start T H J spec") simp_all
  ultimately show ?thesis unfolding starts(1) by (intro ok_phase) simp_all
next
  case (has_read J a spec isNew answer)
  show ?thesis unfolding has_read(1)
    by (rule ok_phase [OF W has_read(2) phase_ok_read [OF desk_okD(3) [OF W has_read(3,2)]]])
next
  case (intends J a spec now ph J' s')
  obtain r where c: "commit T H save now (derive_intent T H spec) False J (dk_store W) = (r, J', s')"
    and ph: "ph = (case r of Inl e \<Rightarrow> Finished (Inl e) | Inr u \<Rightarrow> AfterIntent)"
    using intends(4) by (auto simp: intent_turn_def split: prod.splits sum.splits)
  have "desk_ok (after_turn W i J' s' (handed T H now (derive_intent T H spec) False J))"
    by (rule ok_turn [OF d W j intends(2) follows_intent c])
  moreover have "phase_ok H J' spec ph"
    using intent_line c ok_knows_projector [OF W intends(2)] by (cases r) (auto simp: ph)
  ultimately show ?thesis unfolding intends(1) by (intro ok_phase) (simp_all add: after_turn_def)
next
  case (refuses J a spec e)
  show ?thesis unfolding refuses(1) by (rule ok_phase [OF W refuses(2)]) simp
next
  case (posts J a spec)
  have h: "holds_line H (jn_current J) spec" using desk_okD(3) [OF W posts(3,2)] by simp
  have "desk_ok (set_phase W a i spec AwaitPost)" by (rule ok_phase [OF W posts(2)]) (simp add: h)
  then show ?thesis unfolding posts(1) by (rule ok_log) (use posts(2) h in \<open>simp_all add: set_phase_def\<close>)
next
  case (answered J a spec answer)
  show ?thesis unfolding answered(1) by (rule ok_phase [OF W answered(2) phase_ok_post])
next
  case (lands J a spec t b now ph J' s')
  obtain r where c: "commit T H save now (derive_landed T H spec t b) False J (dk_store W) = (r, J', s')"
    and ph: "\<exists>x. ph = Finished x"
    using lands(4) by (auto simp: landed_turn_def markLanded_def split: prod.splits sum.splits)
  have "desk_ok (after_turn W i J' s' (handed T H now (derive_landed T H spec t b) False J))"
    by (rule ok_turn [OF d W j lands(2) follows_landed c])
  then show ?thesis unfolding lands(1) using ph by (intro ok_phase) (auto simp: after_turn_def)
next
  case (settles J a spec e)
  have "desk_ok (W\<lparr>dk_journals := (dk_journals W)(i \<mapsto> settle (ps_kind spec) J)\<rparr>)"
    by (rule ok_journal [OF W settles(2)]) (use ok_knows_projector [OF W settles(2)] in \<open>auto simp: settle_def projector_ok_def\<close>)
  then show ?thesis unfolding settles(1) by (auto simp: desk_ok_def split: if_splits)
next
  case dies
  show ?thesis unfolding dies using W
    by (auto simp: desk_ok_def split: option.splits if_splits)
qed

lemma runs_ok:
  assumes "runs_to T H save load W0 W" "digest_ok H" "desk_ok W0" "inj_on H (set (dk_seen W))"
  shows "desk_ok W"
  using assms(1,4)
proof induction
  case (goes W' i W'')
  have "inj_on H (set (dk_seen W'))" using seen_grows [OF goes(2)] goes(4) by (rule inj_on_subset [rotated])
  then show ?case using moves_ok [OF assms(2) goes(2)] goes(3) by blast
qed (use assms(3) in simp)

text \<open>A line that has landed stays as it is: nobody posts it, and nobody is about to.\<close>

definition rests :: "string \<Rightarrow> ledger_kind \<Rightarrow> 's desk \<Rightarrow> bool" where
  "rests key kind W \<longleftrightarrow>
     (\<exists>b R. content (dk_store W) key = Some b \<and> holds_record T H key b R \<and> ledgerLanded R kind)
     \<and> (\<forall>i J. dk_journals W i = Some J \<longrightarrow> jn_key J = key \<longrightarrow> ledgerLanded (jn_current J) kind
         \<and> (\<forall>a spec ph. dk_attempts W a = Some (i, spec, ph) \<longrightarrow> ps_kind spec = kind \<longrightarrow> past_post ph))"

lemma rests_stored: "rests key kind W \<Longrightarrow> advances (dk_store W) s \<Longrightarrow>
    \<exists>b R. content s key = Some b \<and> holds_record T H key b R \<and> ledgerLanded R kind"
  unfolding rests_def advances_def by (meson ledgerLanded_follows)

lemma rests_store:
  assumes r: "rests key kind W" and s: "advances (dk_store W) s"
    and j: "\<And>J. r = Some J \<Longrightarrow> jn_key J = key \<Longrightarrow> ledgerLanded (jn_current J) kind"
    and i: "\<And>J. r = Some J \<Longrightarrow> (\<exists>J0. dk_journals W i = Some J0 \<and> jn_key J0 = jn_key J) \<or> (\<forall>a spec ph. dk_attempts W a \<noteq> Some (i, spec, ph))"
  shows "rests key kind (W\<lparr>dk_store := s, dk_journals := (dk_journals W)(i := r), dk_seen := bs @ dk_seen W\<rparr>)"
  unfolding rests_def
proof (intro conjI allI impI)
  let ?W = "W\<lparr>dk_store := s, dk_journals := (dk_journals W)(i := r), dk_seen := bs @ dk_seen W\<rparr>"
  show "\<exists>b R. content (dk_store ?W) key = Some b \<and> holds_record T H key b R \<and> ledgerLanded R kind"
    using rests_stored [OF r s] by simp
  fix k J
  assume k: "dk_journals ?W k = Some J" "jn_key J = key"
  show "ledgerLanded (jn_current J) kind"
    using k j r by (auto simp: rests_def split: if_splits)
  show "past_post ph" if "dk_attempts ?W a = Some (k, spec, ph)" "ps_kind spec = kind" for a spec ph
  proof (cases "k = i")
    case True
    have "r = Some J" "dk_attempts W a = Some (i, spec, ph)" using k(1) that True by simp_all
    then obtain J0 where "dk_journals W i = Some J0" "jn_key J0 = key" using i [of J] k(2) by blast
    then show ?thesis using r \<open>dk_attempts W a = _\<close> that(2) unfolding rests_def by blast
  next
    case False
    then have "dk_journals W k = Some J" "dk_attempts W a = Some (k, spec, ph)" using k(1) that by simp_all
    then show ?thesis using r k(2) that(2) unfolding rests_def by blast
  qed
qed

lemma rests_turn:
  assumes "digest_ok H" "desk_ok W" "inj_on H (set (dk_seen W))" "dk_journals W i = Some J" "derive_follows der"
    and "commit T H save now der False J (dk_store W) = (r, J', s')" "rests key kind W"
  shows "rests key kind (after_turn W i J' s' (handed T H now der False J))"
proof -
  have t: "advances (dk_store W) s' \<and> jn_key J' = jn_key J \<and> follows (jn_current J) (jn_current J')"
    using commit_turn [OF assms(1) desk_okD(1) [OF assms(2)] desk_okD(2) [OF assms(2,4)] assms(5,6) refl assms(3)] by blast
  have "ledgerLanded (jn_current J) kind" if "jn_key J = key"
    using that assms(4,7) unfolding rests_def by blast
  then have "ledgerLanded (jn_current J') kind" if "jn_key J' = key"
    using that t ledgerLanded_follows by metis
  then show ?thesis unfolding after_turn_def using t assms(4,7) by (intro rests_store) auto
qed

lemma rests_journal:
  assumes "rests key kind W" "dk_journals W i = Some J" "jn_key J' = jn_key J" "jn_current J' = jn_current J"
  shows "rests key kind (W\<lparr>dk_journals := (dk_journals W)(i \<mapsto> J')\<rparr>)"
  using rests_store [OF assms(1), of "dk_store W" "Some J'" i "[]"] assms by (auto simp: rests_def)

lemma rests_phase:
  assumes "rests key kind W" "\<And>J. dk_journals W i = Some J \<Longrightarrow> jn_key J = key \<Longrightarrow> ps_kind spec = kind \<Longrightarrow> past_post ph"
  shows "rests key kind (set_phase W a i spec ph)"
  using assms by (auto simp: rests_def set_phase_def split: if_splits)

lemma rests_attempt:
  "rests key kind W \<Longrightarrow> dk_journals W i = Some J \<Longrightarrow> dk_attempts W a = Some (i, spec, ph) \<Longrightarrow>
   jn_key J = key \<Longrightarrow> ps_kind spec = kind \<Longrightarrow> past_post ph"
  unfolding rests_def by blast

theorem moves_rest:
  assumes d: "digest_ok H" and m: "moves T H save load i W W'" and W: "desk_ok W" and j: "inj_on H (set (dk_seen W))"
    and r: "rests key kind W"
  shows "rests key kind W' \<and> posts_of key kind W' = posts_of key kind W"
  using m
proof cases
  case (begins now did initial x s')
  have s: "advances (dk_store W) s' \<and> (\<forall>J. x = Inr J \<longrightarrow> content (dk_store W) (jn_key J) = None)"
    using create_turn [OF d desk_okD(1) [OF W] begins(3) refl] by blast
  have n: "dk_attempts W a \<noteq> Some (i, spec, ph)" for a spec ph
    using W begins(2) unfolding desk_ok_def by fastforce
  have "rests key kind W'" unfolding begins(1)
    by (rule rests_store [OF r]) (use s n r in \<open>auto simp: caught_Some_iff rests_def\<close>)
  then show ?thesis by (simp add: begins(1) posts_of_def)
next
  case (opens did role sid J)
  have o: "\<exists>b. content (dk_store W) (jn_key J) = Some b \<and> holds_record T H (jn_key J) b (jn_current J)"
    using open_turn [OF d desk_okD(1) [OF W] opens(3)] by blast
  have l: "ledgerLanded (jn_current J) kind" if "jn_key J = key"
    using o that r holds_unique [OF d] unfolding rests_def by (metis option.sel)
  have n: "dk_attempts W a \<noteq> Some (i, spec, ph)" for a spec ph
    using W opens(2) unfolding desk_ok_def by fastforce
  have "rests key kind (W\<lparr>dk_store := dk_store W, dk_journals := (dk_journals W)(i := Some J), dk_seen := [] @ dk_seen W\<rparr>)"
    by (rule rests_store [OF r]) (use l n in auto)
  then show ?thesis by (simp add: opens(1) posts_of_def)
next
  case (projects J p)
  then show ?thesis using rests_journal [OF r projects(2), of "setProjector p J"] by (simp add: setProjector_def posts_of_def)
next
  case (updates J f now x J' s')
  have "rests key kind W'" unfolding updates(1)
    by (rule rests_turn [OF d W j updates(2) follows_update _ r]) (use updates in \<open>auto simp: update_def\<close>)
  then show ?thesis by (simp add: updates(1) posts_of_def after_turn_def)
next
  case (adopts J now spec t x J' s')
  have "rests key kind W'" unfolding adopts(1)
    by (rule rests_turn [OF d W j adopts(2) follows_landed _ r]) (use adopts in \<open>auto simp: adopt_def markLanded_def\<close>)
  then show ?thesis by (simp add: adopts(1) posts_of_def after_turn_def)
next
  case (starts J a spec ph J')
  have J': "J' = J\<lparr>jn_inflight := (ps_kind spec, ps_room spec, ledgerText H spec) # jn_inflight J\<rparr>" "ph = post_start T H J spec"
    using starts(4) by (auto simp: ensurePosted_def split: option.splits if_splits)
  have "rests key kind (W\<lparr>dk_journals := (dk_journals W)(i \<mapsto> J')\<rparr>)"
    by (rule rests_journal [OF r starts(2)]) (simp_all add: J')
  moreover have "past_post ph" if "jn_key J = key" "ps_kind spec = kind"
    using r starts(2) that post_start_landed unfolding rests_def J'(2) by blast
  ultimately have "rests key kind W'" unfolding starts(1) by (rule rests_phase) (simp add: J')
  then show ?thesis by (simp add: starts(1) posts_of_def set_phase_def)
next
  case (has_read J a spec isNew answer)
  have "rests key kind W'" unfolding has_read(1)
    by (rule rests_phase [OF r]) (use rests_attempt [OF r has_read(2,3)] has_read(2) in auto)
  then show ?thesis by (simp add: has_read(1) posts_of_def set_phase_def)
next
  case (intends J a spec now ph J' s')
  obtain x where c: "commit T H save now (derive_intent T H spec) False J (dk_store W) = (x, J', s')"
    using intends(4) by (auto simp: intent_turn_def split: prod.splits sum.splits)
  have "rests key kind (after_turn W i J' s' (handed T H now (derive_intent T H spec) False J))"
    by (rule rests_turn [OF d W j intends(2) follows_intent c r])
  moreover have "jn_key J' = jn_key J"
    using commit_turn [OF d desk_okD(1) [OF W] desk_okD(2) [OF W intends(2)] follows_intent c refl j] by blast
  ultimately have "rests key kind W'" unfolding intends(1)
    by (intro rests_phase) (use rests_attempt [OF r intends(2,3)] in \<open>auto simp: after_turn_def\<close>)
  then show ?thesis by (simp add: intends(1) posts_of_def set_phase_def after_turn_def)
next
  case (refuses J a spec e)
  have "rests key kind W'" unfolding refuses(1) by (rule rests_phase [OF r]) simp
  then show ?thesis by (simp add: refuses(1) posts_of_def set_phase_def)
next
  case (posts J a spec)
  have n: "\<not> (jn_key J = key \<and> ps_kind spec = kind)" using rests_attempt [OF r posts(2,3)] by auto
  have "rests key kind (set_phase W a i spec AwaitPost)" by (rule rests_phase [OF r]) (use posts(2) n in auto)
  then have "rests key kind W'" unfolding posts(1) by (simp add: rests_def log_post_def)
  then show ?thesis using n by (auto simp: posts(1) posts_of_def set_phase_def log_post_def)
next
  case (answered J a spec answer)
  have "rests key kind W'" unfolding answered(1)
    by (rule rests_phase [OF r]) (auto simp: after_post_def split: sum.split)
  then show ?thesis by (simp add: answered(1) posts_of_def set_phase_def)
next
  case (lands J a spec t b now ph J' s')
  obtain x where c: "commit T H save now (derive_landed T H spec t b) False J (dk_store W) = (x, J', s')"
    and ph: "\<exists>y. ph = Finished y"
    using lands(4) by (auto simp: landed_turn_def markLanded_def split: prod.splits sum.splits)
  have "rests key kind (after_turn W i J' s' (handed T H now (derive_landed T H spec t b) False J))"
    by (rule rests_turn [OF d W j lands(2) follows_landed c r])
  then have "rests key kind W'" unfolding lands(1) by (rule rests_phase) (use ph in auto)
  then show ?thesis by (simp add: lands(1) posts_of_def set_phase_def after_turn_def)
next
  case (settles J a spec e)
  have "rests key kind (W\<lparr>dk_journals := (dk_journals W)(i \<mapsto> settle (ps_kind spec) J)\<rparr>)"
    by (rule rests_journal [OF r settles(2)]) (simp_all add: settle_def)
  then show ?thesis unfolding settles(1) by (auto simp: rests_def posts_of_def split: if_splits)
next
  case dies
  show ?thesis unfolding dies using r
    by (auto simp: rests_def posts_of_def split: option.splits if_splits)
qed

lemma runs_rest:
  assumes "runs_to T H save load W W'" "digest_ok H" "desk_ok W" "inj_on H (set (dk_seen W'))" "rests key kind W"
  shows "posts_of key kind W' = posts_of key kind W"
proof -
  have "rests key kind W' \<and> posts_of key kind W' = posts_of key kind W"
    using assms(1,4)
  proof induction
    case (goes W' i W'')
    have j: "inj_on H (set (dk_seen W'))" using seen_grows [OF goes(2)] goes(4) by (rule inj_on_subset [rotated])
    then have "rests key kind W' \<and> posts_of key kind W' = posts_of key kind W" by (rule goes(3))
    moreover have "desk_ok W'" by (rule runs_ok [OF goes(1) assms(2,3) j])
    ultimately show ?case using moves_rest [OF assms(2) goes(2) _ j] by simp
  qed (use assms(5) in simp)
  then show ?thesis ..
qed

end

end
