(* ===== verification/Flow_Journal_Properties.thy ===== *)
theory Flow_Journal_Properties
  imports Flow_Journal_Safe
begin

text \<open>
  The properties of the journals of \<open>src/client/flow-resume.ts\<close>: over the file store under
  failures, deaths and any number of processes; and, whatever the store does, a failed journal does
  nothing and a kind has one attempt.
\<close>

section \<open>The stores\<close>

interpretation file_journals: journal_store "fs_digest F" fits_file "file_inv F" "file_content F" "file_load F" "file_save F" T for F T
  by unfold_locales (simp add: fits_file_def MAX_FLOW_RECORD_BYTES_def max_safe_def)

interpretation mem_journals: journal_store H "\<lambda>_. True" mem_inv mem_content mem_load "mem_save H" T for H T
  by unfold_locales simp

lemma file_desk_ok:
  assumes "fresh_desk (file_content F) W0" "file_inv F (dk_store W0)"
    and "runs_to T (fs_digest F) (file_save F) (file_load F) W0 W" "inj_on (fs_digest F) (set (dk_seen W))"
  shows "file_journals.desk_ok F T W \<and> digest_ok (fs_digest F)"
proof -
  have d: "digest_ok (fs_digest F)" using assms(2) by (simp add: file_inv_def)
  then show ?thesis
    using file_journals.runs_ok [OF assms(3) d file_journals.ok_fresh [OF assms(1,2)] assms(4)] by blast
qed

section \<open>A failed journal\<close>

lemma commit_failed:
  "jn_failure J = Some e \<Longrightarrow> commit T H sv now der create J s = (Inl (EarlierSaveRefused (jn_key J) e), J, s)"
  by (simp add: commit_def plan_failed)

lemma moves_failed:
  assumes "moves T H sv ld i W W'" "dk_journals W i = Some J" "jn_failure J = Some e"
  shows "dk_store W' = dk_store W \<and> dk_posts W' = dk_posts W
    \<and> (\<forall>J'. dk_journals W' i = Some J' \<longrightarrow> jn_failure J' = Some e)"
  using assms
  by cases (auto simp: commit_failed update_def adopt_def markLanded_def intent_turn_def landed_turn_def after_turn_def set_phase_def
      log_post_def setProjector_def settle_def before_post_usable ensurePosted_def split: option.splits if_splits)

section \<open>One attempt per kind\<close>

definition tracked :: "'s desk \<Rightarrow> bool" where
  "tracked W \<longleftrightarrow> (\<forall>a i spec ph. dk_attempts W a = Some (i, spec, ph) \<longrightarrow>
     (\<exists>J. dk_journals W i = Some J \<and> map_of (jn_inflight J) (ps_kind spec) \<noteq> None)
     \<and> (\<forall>b spec' ph'. dk_attempts W b = Some (i, spec', ph') \<longrightarrow> ps_kind spec' = ps_kind spec \<longrightarrow> b = a))"

lemma commit_inflight: "commit T H sv now der create J s = (r, J', s') \<Longrightarrow> jn_inflight J' = jn_inflight J"
  by (auto simp: commit_def failJournal_def split: commit_plan.splits prod.splits sum.splits)

lemma map_of_filter_other: "k \<noteq> kind \<Longrightarrow> map_of (filter (\<lambda>(k, x). k \<noteq> kind) xs) k = map_of xs k"
  by (induction xs) auto

lemma tracked_journal:
  assumes "tracked W" "dk_journals W i = Some J" "jn_inflight J' = jn_inflight J" "dk_attempts W' = dk_attempts W"
    and "dk_journals W' = (dk_journals W)(i \<mapsto> J')"
  shows "tracked W'"
  unfolding tracked_def
proof (intro allI impI)
  fix a j spec ph
  assume a: "dk_attempts W' a = Some (j, spec, ph)"
  then obtain K where "dk_journals W j = Some K" "map_of (jn_inflight K) (ps_kind spec) \<noteq> None"
    using assms(1,4) unfolding tracked_def by metis
  then have "\<exists>K. dk_journals W' j = Some K \<and> map_of (jn_inflight K) (ps_kind spec) \<noteq> None"
    using assms(2,3,5) by (cases "j = i") auto
  then show "(\<exists>K. dk_journals W' j = Some K \<and> map_of (jn_inflight K) (ps_kind spec) \<noteq> None)
      \<and> (\<forall>b spec' ph'. dk_attempts W' b = Some (j, spec', ph') \<longrightarrow> ps_kind spec' = ps_kind spec \<longrightarrow> b = a)"
    using assms(1,4) a unfolding tracked_def by metis
qed

lemma tracked_phase:
  assumes "tracked W" "dk_attempts W a = Some (i, spec, ph)"
  shows "tracked (set_phase W a i spec ph')"
  unfolding tracked_def set_phase_def
proof (intro allI impI)
  fix b j spec' ph''
  assume b: "dk_attempts (W\<lparr>dk_attempts := (dk_attempts W)(a \<mapsto> (i, spec, ph'))\<rparr>) b = Some (j, spec', ph'')"
  then obtain x where x: "dk_attempts W b = Some (j, spec', x)" using assms(2) by (cases "b = a") auto
  then show "(\<exists>J. dk_journals (W\<lparr>dk_attempts := (dk_attempts W)(a \<mapsto> (i, spec, ph'))\<rparr>) j = Some J
        \<and> map_of (jn_inflight J) (ps_kind spec') \<noteq> None)
      \<and> (\<forall>c spec2 ph2. dk_attempts (W\<lparr>dk_attempts := (dk_attempts W)(a \<mapsto> (i, spec, ph'))\<rparr>) c = Some (j, spec2, ph2) \<longrightarrow>
          ps_kind spec2 = ps_kind spec' \<longrightarrow> c = b)"
    using assms unfolding tracked_def by (auto split: if_splits) (metis option.distinct(1))+
qed

lemma moves_tracked:
  assumes "moves T H sv ld i W W'" "tracked W"
  shows "tracked W'"
  using assms(1)
proof cases
  case (begins now did initial r s')
  then show ?thesis using assms(2) by (fastforce simp: tracked_def)
next
  case (opens did role sid J)
  then show ?thesis using assms(2) by (fastforce simp: tracked_def)
next
  case (projects J p)
  show ?thesis unfolding projects(1)
    by (rule tracked_journal [OF assms(2) projects(2), of "setProjector p J"]) (simp_all add: setProjector_def)
next
  case (updates J f now r J' s')
  show ?thesis unfolding updates(1)
    by (rule tracked_journal [OF assms(2) updates(2), of J'])
      (use updates(4) commit_inflight in \<open>auto simp: update_def after_turn_def\<close>)
next
  case (adopts J now spec t r J' s')
  show ?thesis unfolding adopts(1)
    by (rule tracked_journal [OF assms(2) adopts(2), of J'])
      (use adopts(3) commit_inflight in \<open>auto simp: adopt_def markLanded_def after_turn_def\<close>)
next
  case (starts J a spec ph J')
  have J': "J' = J\<lparr>jn_inflight := (ps_kind spec, ps_room spec, ledgerText H spec) # jn_inflight J\<rparr>"
    and n: "map_of (jn_inflight J) (ps_kind spec) = None"
    using starts(4) by (auto simp: ensurePosted_def split: option.splits if_splits)
  have f: "ps_kind s \<noteq> ps_kind spec" if "dk_attempts W b = Some (i, s, x)" for b s x
    using assms(2) that starts(2) n unfolding tracked_def by (metis option.sel)
  show ?thesis
    unfolding tracked_def
  proof (intro allI impI conjI)
    fix b j s x
    assume b: "dk_attempts W' b = Some (j, s, x)"
    show "\<exists>K. dk_journals W' j = Some K \<and> map_of (jn_inflight K) (ps_kind s) \<noteq> None"
    proof (cases "b = a")
      case True
      then show ?thesis using b by (auto simp: starts(1) set_phase_def J')
    next
      case False
      then have "dk_attempts W b = Some (j, s, x)" using b by (simp add: starts(1) set_phase_def)
      then obtain K where "dk_journals W j = Some K" "map_of (jn_inflight K) (ps_kind s) \<noteq> None"
        using assms(2) unfolding tracked_def by metis
      then show ?thesis using starts(2) by (cases "j = i") (auto simp: starts(1) set_phase_def J')
    qed
    fix c s' x'
    assume c: "dk_attempts W' c = Some (j, s', x')" "ps_kind s' = ps_kind s"
    show "c = b"
    proof (cases "b = a \<or> c = a")
      case True
      then show ?thesis using b c f unfolding starts(1) set_phase_def by (auto split: if_splits)
    next
      case False
      then have "dk_attempts W b = Some (j, s, x)" "dk_attempts W c = Some (j, s', x')"
        using b c by (simp_all add: starts(1) set_phase_def)
      then show ?thesis using assms(2) c(2) unfolding tracked_def by metis
    qed
  qed
next
  case (has_read J a spec isNew answer)
  then show ?thesis using tracked_phase [OF assms(2)] by simp
next
  case (intends J a spec now ph J' s')
  have "jn_inflight J' = jn_inflight J"
    using intends(4) commit_inflight by (fastforce simp: intent_turn_def split: prod.splits sum.splits)
  then have "tracked (after_turn W i J' s' (handed T H now (derive_intent T H spec) False J))"
    by (intro tracked_journal [OF assms(2) intends(2)]) (simp_all add: after_turn_def)
  then show ?thesis unfolding intends(1) by (rule tracked_phase) (use intends(3) in \<open>simp add: after_turn_def\<close>)
next
  case (refuses J a spec e)
  then show ?thesis using tracked_phase [OF assms(2)] by simp
next
  case (posts J a spec)
  have "tracked (set_phase W a i spec AwaitPost)" using tracked_phase [OF assms(2) posts(3)] .
  then show ?thesis by (simp add: posts(1) log_post_def tracked_def)
next
  case (answered J a spec answer)
  then show ?thesis using tracked_phase [OF assms(2)] by simp
next
  case (lands J a spec t b now ph J' s')
  have "jn_inflight J' = jn_inflight J"
    using lands(4) commit_inflight by (fastforce simp: landed_turn_def markLanded_def split: prod.splits sum.splits)
  then have "tracked (after_turn W i J' s' (handed T H now (derive_landed T H spec t b) False J))"
    by (intro tracked_journal [OF assms(2) lands(2)]) (simp_all add: after_turn_def)
  then show ?thesis unfolding lands(1) by (rule tracked_phase) (use lands(3) in \<open>simp add: after_turn_def\<close>)
next
  case (settles J a spec e)
  have o: "ps_kind s \<noteq> ps_kind spec" if "dk_attempts W b = Some (i, s, x)" "b \<noteq> a" for b s x
    using assms(2) settles(3) that unfolding tracked_def by metis
  show ?thesis
    unfolding tracked_def
  proof (intro allI impI)
    fix b j s x
    assume b: "dk_attempts W' b = Some (j, s, x)"
    then have b': "b \<noteq> a" "dk_attempts W b = Some (j, s, x)" by (auto simp: settles(1) split: if_splits)
    obtain K where K: "dk_journals W j = Some K" "map_of (jn_inflight K) (ps_kind s) \<noteq> None"
      using assms(2) b'(2) unfolding tracked_def by metis
    have "\<exists>K. dk_journals W' j = Some K \<and> map_of (jn_inflight K) (ps_kind s) \<noteq> None"
    proof (cases "j = i")
      case True
      then have "K = J" "ps_kind s \<noteq> ps_kind spec" using K(1) settles(2) o b' by auto
      then show ?thesis using K(2) True by (simp add: settles(1) settle_def map_of_filter_other)
    qed (use K in \<open>simp add: settles(1)\<close>)
    moreover have "c = b" if "dk_attempts W' c = Some (j, s', x')" "ps_kind s' = ps_kind s" for c s' x'
      using assms(2) b'(2) that unfolding tracked_def by (auto simp: settles(1) split: if_splits)
    ultimately show "(\<exists>K. dk_journals W' j = Some K \<and> map_of (jn_inflight K) (ps_kind s) \<noteq> None)
        \<and> (\<forall>c s' x'. dk_attempts W' c = Some (j, s', x') \<longrightarrow> ps_kind s' = ps_kind s \<longrightarrow> c = b)"
      by blast
  qed
next
  case dies
  show ?thesis unfolding dies using assms(2)
    by (fastforce simp: tracked_def split: option.splits if_splits)
qed

lemma runs_tracked: "runs_to T H sv ld W0 W \<Longrightarrow> tracked W0 \<Longrightarrow> tracked W"
  by (induction rule: runs_to.induct) (auto dest: moves_tracked)

section \<open>A small run\<close>

text \<open>A flow begins with the record of the earlier examples, whose offer is durable but not landed, and
  posts it twice: the first answer of the venue is lost.\<close>

definition demo_post :: post_spec where
  "demo_post = \<lparr>ps_kind = OfferA, ps_room = ''tclk-offers'', ps_text = ''tclk1 offer'', ps_digestOnly = False,
     ps_guard = None, ps_slot = None\<rparr>"

definition empty_desk :: "'s \<Rightarrow> 's desk" where
  "empty_desk s = \<lparr>dk_store = s, dk_journals = (\<lambda>_. None), dk_attempts = (\<lambda>_. None), dk_posts = [], dk_seen = []\<rparr>"

definition demo_bytes :: bytes where
  "demo_bytes = (case encodeFlowRecord demo_tclk demo_hash demo_flow_record of Inr b \<Rightarrow> b | Inl e \<Rightarrow> [])"

definition demo_journal :: journal where
  "demo_journal = \<lparr>jn_key = demo_flow_key, jn_did = ''did:key:z1'', jn_current = demo_flow_record,
     jn_digest = Some (demo_hash demo_bytes), jn_failure = None, jn_projector = None, jn_inflight = []\<rparr>"

lemma demo_bytes: "encodeFlowRecord demo_tclk demo_hash demo_flow_record = Inr demo_bytes"
  using demo_encodes by (auto simp: demo_bytes_def)

lemma demo_new: "newJournal ''did:key:z1'' demo_flow_record None = Inr (demo_journal\<lparr>jn_digest := None\<rparr>)"
  by (simp add: newJournal_def demo_flow_recordKey demo_journal_def rec_res_def)

lemma demo_plan: "plan demo_tclk demo_hash now (\<lambda>_. Inr (Some demo_flow_record)) True (demo_journal\<lparr>jn_digest := None\<rparr>)
    = SaveThis demo_flow_record demo_bytes"
  using demo_bytes by (simp add: plan_def assertUsable_def prepare_def rec_res_def demo_journal_def)

lemma demo_create:
  assumes "sv s demo_flow_key demo_bytes None = (Inr (), s')"
  shows "create_journal demo_tclk demo_hash sv now ''did:key:z1'' demo_flow_record s = (Inr demo_journal, s')"
  using assms by (simp add: create_journal_def demo_new commit_def demo_plan) (simp add: demo_journal_def)

lemma demo_handed: "handed_create demo_tclk demo_hash now ''did:key:z1'' demo_flow_record = [demo_bytes]"
  by (simp add: handed_create_def demo_new handed_def demo_plan)

lemma demo_post_start: "post_start demo_tclk demo_hash (demo_journal\<lparr>jn_inflight := x\<rparr>) demo_post = AwaitRead False"
  by (simp add: post_start_def demo_journal_def demo_post_def assertUsable_def withLedgerIntent_def ledgerEntry_def demo_flow_record_def
      ledgerText_def rec_res_def landedAnswer_def)

lemma demo_before_post: "before_post (demo_journal\<lparr>jn_inflight := x\<rparr>) = AwaitPost"
  by (simp add: before_post_usable demo_journal_def)

lemma demo_read: "after_read demo_tclk did demo_post False (Inr []) = AfterIntent"
  by (simp add: after_read_def findOwn_def demo_post_def)

text \<open>From the call of \<open>ensurePosted\<close> to the venue's \<open>post\<close>, and on to a lost
  answer.\<close>

definition demo_running :: journal where
  "demo_running = demo_journal\<lparr>jn_inflight := [(OfferA, ''tclk-offers'', ''tclk1 offer'')]\<rparr>"

lemma demo_post_run:
  assumes r: "runs_to demo_tclk demo_hash sv ld W0 W" and W: "dk_journals W 0 = Some demo_journal" "dk_attempts W a = None"
  shows "runs_to demo_tclk demo_hash sv ld W0 (W\<lparr>dk_journals := (dk_journals W)(0 \<mapsto> demo_running),
    dk_attempts := (dk_attempts W)(a \<mapsto> (0, demo_post, AwaitPost)),
    dk_posts := \<lparr>po_inst = 0, po_key = demo_flow_key, po_spec = demo_post\<rparr> # dk_posts W\<rparr>)"
proof -
  have e: "ensurePosted demo_tclk demo_hash demo_journal demo_post = (Started (AwaitRead False), demo_running)"
    using demo_post_start [of "[]"] by (simp add: ensurePosted_def demo_running_def demo_journal_def demo_post_def ledgerText_def)
  have k: "jn_key demo_running = demo_flow_key" "before_post demo_running = AwaitPost"
    using demo_before_post by (simp_all add: demo_running_def demo_journal_def)
  let ?W1 = "W\<lparr>dk_journals := (dk_journals W)(0 \<mapsto> demo_running), dk_attempts := (dk_attempts W)(a \<mapsto> (0, demo_post, AwaitRead False))\<rparr>"
  let ?W2 = "?W1\<lparr>dk_attempts := (dk_attempts W)(a \<mapsto> (0, demo_post, AfterIntent))\<rparr>"
  have m1: "moves demo_tclk demo_hash sv ld 0 W ?W1"
    using starts [where a = a, OF W e] by (simp add: set_phase_def)
  have m2: "moves demo_tclk demo_hash sv ld 0 ?W1 ?W2"
    using has_read [where T = demo_tclk and H = demo_hash and sv = sv and ld = ld and W = ?W1 and a = a and J = demo_running and spec = demo_post and isNew = False and answer = "Inr []" and i = 0]
      demo_read [of "jn_did demo_running"] by (simp add: set_phase_def)
  have m3: "moves demo_tclk demo_hash sv ld 0 ?W2 (log_post (set_phase ?W2 a 0 demo_post AwaitPost) 0 demo_flow_key demo_post)"
    using posts [where W = ?W2 and a = a and J = demo_running and spec = demo_post and i = 0] k by simp
  from goes [OF goes [OF goes [OF r m1] m2] m3] show ?thesis by (simp add: set_phase_def log_post_def)
qed

lemma demo_lost_run:
  assumes r: "runs_to demo_tclk demo_hash sv ld W0 W" and W: "dk_journals W 0 = Some demo_running" "dk_attempts W a = Some (0, demo_post, AwaitPost)"
  shows "runs_to demo_tclk demo_hash sv ld W0 (W\<lparr>dk_journals := (dk_journals W)(0 \<mapsto> demo_journal), dk_attempts := (dk_attempts W)(a := None)\<rparr>)"
proof -
  let ?W1 = "set_phase W a 0 demo_post (Finished (Inl (Thrown ''lost'')))"
  have m: "moves demo_tclk demo_hash sv ld 0 W ?W1"
    using answered [where T = demo_tclk and H = demo_hash and sv = sv and ld = ld and answer = "Inl (Thrown ''lost'')", OF W]
    by (simp add: after_post_def)
  have e: "settle (ps_kind demo_post) demo_running = demo_journal"
    by (simp add: settle_def demo_running_def demo_post_def demo_journal_def)
  have "moves demo_tclk demo_hash sv ld 0 ?W1 (?W1\<lparr>dk_journals := (dk_journals ?W1)(0 \<mapsto> settle (ps_kind demo_post) demo_running),
      dk_attempts := (dk_attempts ?W1)(a := None)\<rparr>)"
    by (rule settles) (simp_all add: set_phase_def W)
  from goes [OF goes [OF r m] this] show ?thesis by (simp add: set_phase_def e)
qed

definition demo_posted :: posted where
  "demo_posted = \<lparr>po_inst = 0, po_key = demo_flow_key, po_spec = demo_post\<rparr>"

lemma demo_run:
  assumes "sv s demo_flow_key demo_bytes None = (Inr (), s')"
  obtains W where "runs_to demo_tclk demo_hash sv ld (empty_desk s) W" "dk_store W = s'" "dk_seen W = [demo_bytes]"
    "dk_posts W = [demo_posted, demo_posted]" "dk_journals W 0 = Some demo_running"
proof -
  let ?W1 = "(empty_desk s)\<lparr>dk_store := s', dk_journals := (\<lambda>_. None)(0 \<mapsto> demo_journal), dk_seen := [demo_bytes]\<rparr>"
  have "moves demo_tclk demo_hash sv ld 0 (empty_desk s) ?W1"
    using begins [where W = "empty_desk s" and i = 0, OF _ demo_create] assms demo_handed by (simp add: empty_desk_def)
  then have r1: "runs_to demo_tclk demo_hash sv ld (empty_desk s) ?W1" using goes [OF stays] by blast
  have r2: "runs_to demo_tclk demo_hash sv ld (empty_desk s) (?W1\<lparr>dk_journals := (\<lambda>_. None)(0 \<mapsto> demo_running),
      dk_attempts := (\<lambda>_. None)(0 \<mapsto> (0, demo_post, AwaitPost)), dk_posts := [demo_posted]\<rparr>)"
    using demo_post_run [OF r1, of 0] by (simp add: empty_desk_def demo_posted_def)
  have r3: "runs_to demo_tclk demo_hash sv ld (empty_desk s) (?W1\<lparr>dk_posts := [demo_posted]\<rparr>)"
    using demo_lost_run [OF r2, of 0] by (simp add: empty_desk_def fun_upd_idem)
  show thesis
    using that [OF demo_post_run [OF r3, of 0]] by (simp add: empty_desk_def demo_posted_def)
qed

text \<open>The run over an empty file store.\<close>

definition empty_world :: world where
  "empty_world = demo_world None [] \<lparr>w_disk := empty_disk\<rparr>"

definition flow_path :: string where
  "flow_path = ''buyer-0x'' @ replicate 64 (CHR ''1'') @ ''.json''"

lemma flow_pathFor: "pathFor demo_flow_key = Inr flow_path"
proof -
  have "FLOW_KEY_PATTERN demo_flow_key = Some (BuyerRole, id32 (CHR ''1''))"
    by (simp add: FLOW_KEY_PATTERN_Some demo_flow_key_def hex32_def id32_def lower_hex_def)
  moreover have "record_name BuyerRole (id32 (CHR ''1'')) = flow_path" by (simp add: record_name_def flow_path_def id32_def)
  moreover have "underDir flow_path = Inr flow_path" by (rule underDir_ok) (simp_all add: flow_path_def)
  ultimately show ?thesis by (simp add: pathFor_def parseFlowKey_def)
qed

lemma flow_lock_name: "\<exists>l. underDir (drop_json flow_path @ ''.lock'') = Inr l"
proof -
  have p: "flow_path = record_name BuyerRole (id32 (CHR ''1''))" by (simp add: record_name_def flow_path_def id32_def)
  have "drop_json flow_path = role_name BuyerRole @ CHR ''-'' # id32 (CHR ''1'')"
    unfolding p by (rule drop_json_record)
  then have "underDir (drop_json flow_path @ ''.lock'') = Inr (drop_json flow_path @ ''.lock'')"
    by (intro underDir_ok) (simp_all add: id32_def)
  then show ?thesis ..
qed

lemma empty_world_inv: "file_inv demo_fs empty_world"
  using demo_hash_ok by (auto simp: file_inv_def empty_world_def good_def refs_def stored_as_def empty_disk_def)

lemma empty_world_content: "file_content demo_fs empty_world k = None"
  by (simp add: file_content_def empty_world_def file_at_def empty_disk_def split: sum.split)

lemma empty_desk_fresh: "fresh_desk (file_content demo_fs) (empty_desk empty_world)"
  by (simp add: fresh_desk_def empty_desk_def empty_world_content)

lemma flow_saved: "\<exists>s'. file_save demo_fs empty_world demo_flow_key b None = (Inr (), s')"
proof -
  obtain l where l: "underDir (drop_json flow_path @ ''.lock'') = Inr l" using flow_lock_name ..
  have t: "underDir (flow_path @ ''.tmp-7-'' @ replicate 12 (CHR ''a'')) = Inr (flow_path @ ''.tmp-7-'' @ replicate 12 (CHR ''a''))"
    by (rule underDir_ok) (simp_all add: flow_path_def)
  have d: "disk_ok (w_disk empty_world\<lparr>dk_made := True\<rparr>)" "names_ok (w_disk empty_world)" "dk_dir (w_disk empty_world) l = None"
    "plain_temps demo_fs flow_path (w_disk empty_world)"
    using t by (simp_all add: empty_world_def empty_disk_def disk_ok_def names_ok_def plain_temps_def temp_name_def demo_fs_def
        show_nat.simps [of 7] digit_char_def digits_def)
  have m: "file_matches (fs_digest demo_fs) demo_flow_key (file_at (w_disk empty_world) flow_path) None"
    by (simp add: file_matches_def file_at_def empty_disk_def empty_world_def)
  obtain w' where "save demo_fs demo_flow_key b None empty_world = (Ret (), w')"
    using due_save [OF flow_pathFor l _ _ _ d m, of b] by (auto simp: checkExpected_def empty_world_def)
  then show ?thesis by (simp add: file_save_def)
qed

lemma file_demo_run:
  obtains W where "runs_to demo_tclk demo_hash (file_save demo_fs) (file_load demo_fs) (empty_desk empty_world) W"
    "dk_seen W = [demo_bytes]" "dk_posts W = [demo_posted, demo_posted]" "dk_journals W 0 = Some demo_running"
proof -
  obtain s' where "file_save demo_fs empty_world demo_flow_key demo_bytes None = (Inr (), s')" using flow_saved ..
  from demo_run [of "file_save demo_fs" empty_world s' "file_load demo_fs", OF this] that show thesis by metis
qed

section \<open>The properties\<close>

text \<open>C26. Durable before visible: for every line that any instance, of any process, has ever given to the
  venue's \<open>post\<close>, the store holds, now and under every later failure and restart, a record whose
  ledger has an entry of that kind with that room and that text. (\<open>inj_on\<close>: the digest has no
  collision among the bytes that were handed to the store.)\<close>

theorem posted_lines_are_durable:
  assumes "fresh_desk (file_content F) W0" "file_inv F (dk_store W0)"
    and "runs_to T (fs_digest F) (file_save F) (file_load F) W0 W" "inj_on (fs_digest F) (set (dk_seen W))"
    and "p \<in> set (dk_posts W)"
  shows "\<exists>b R e. file_content F (dk_store W) (po_key p) = Some b \<and> decodeFlowRecord T (fs_digest F) b (po_key p) = Inr R
    \<and> ledgerEntry R (ps_kind (po_spec p)) = Some e \<and> en_room e = ps_room (po_spec p)
    \<and> en_text e = ledgerText (fs_digest F) (po_spec p)"
proof -
  note ok = file_desk_ok [OF assms(1-4)]
  have "stored_line T (fs_digest F) (file_content F (dk_store W) (po_key p)) (po_key p) (po_spec p)"
    using file_journals.desk_okD(4) [OF conjunct1 [OF ok] assms(5)] .
  then show ?thesis
    using holds_decode [OF conjunct2 [OF ok]] by (fastforce simp: stored_line_def holds_line_def)
qed

theorem posted_lines_are_durable_witness:
  "\<exists>W b R e. runs_to demo_tclk demo_hash (file_save demo_fs) (file_load demo_fs) (empty_desk empty_world) W
     \<and> dk_posts W = [demo_posted, demo_posted] \<and> file_content demo_fs (dk_store W) demo_flow_key = Some b
     \<and> decodeFlowRecord demo_tclk demo_hash b demo_flow_key = Inr R \<and> ledgerEntry R OfferA = Some e \<and> en_text e = ''tclk1 offer''"
proof -
  obtain W where W: "runs_to demo_tclk demo_hash (file_save demo_fs) (file_load demo_fs) (empty_desk empty_world) W"
    "dk_seen W = [demo_bytes]" "dk_posts W = [demo_posted, demo_posted]" by (rule file_demo_run)
  have s: "dk_store (empty_desk empty_world) = empty_world" by (simp add: empty_desk_def)
  have d: "fs_digest demo_fs = demo_hash" by simp
  from posted_lines_are_durable [of demo_fs "empty_desk empty_world" demo_tclk W demo_posted] W empty_desk_fresh empty_world_inv
  show ?thesis unfolding s d by (auto simp: demo_posted_def demo_post_def ledgerText_def)
qed

text \<open>C27. A party never posts a second, different line: any two posts of one swap's line of one kind, by
  whatever instances and processes, carry the same room and the same text.\<close>

theorem one_text_per_line:
  assumes "fresh_desk (file_content F) W0" "file_inv F (dk_store W0)"
    and "runs_to T (fs_digest F) (file_save F) (file_load F) W0 W" "inj_on (fs_digest F) (set (dk_seen W))"
    and "p \<in> set (dk_posts W)" "q \<in> set (dk_posts W)" "po_key p = po_key q" "ps_kind (po_spec p) = ps_kind (po_spec q)"
  shows "ps_room (po_spec p) = ps_room (po_spec q)
    \<and> ledgerText (fs_digest F) (po_spec p) = ledgerText (fs_digest F) (po_spec q)"
proof -
  note ok = file_desk_ok [OF assms(1-4)]
  have s: "stored_line T (fs_digest F) (file_content F (dk_store W) (po_key r)) (po_key r) (po_spec r)" if "r \<in> set (dk_posts W)" for r
    using file_journals.desk_okD(4) [OF conjunct1 [OF ok] that] .
  obtain b R e where p: "file_content F (dk_store W) (po_key p) = Some b" "holds_record T (fs_digest F) (po_key p) b R"
    "ledgerEntry R (ps_kind (po_spec p)) = Some e" "en_room e = ps_room (po_spec p)" "en_text e = ledgerText (fs_digest F) (po_spec p)"
    using s [OF assms(5)] by (auto simp: stored_line_def holds_line_def)
  obtain b' R' e' where q: "file_content F (dk_store W) (po_key q) = Some b'" "holds_record T (fs_digest F) (po_key q) b' R'"
    "ledgerEntry R' (ps_kind (po_spec q)) = Some e'" "en_room e' = ps_room (po_spec q)" "en_text e' = ledgerText (fs_digest F) (po_spec q)"
    using s [OF assms(6)] by (auto simp: stored_line_def holds_line_def)
  have "b' = b" using p(1) q(1) assms(7) by simp
  then have "R' = R" using holds_unique [OF conjunct2 [OF ok]] p(2) q(2) assms(7) by metis
  then have "e' = e" using p(3) q(3) assms(8) by simp
  then show ?thesis using p(4,5) q(4,5) by simp
qed

theorem one_text_per_line_witness:
  "\<exists>W. runs_to demo_tclk demo_hash (file_save demo_fs) (file_load demo_fs) (empty_desk empty_world) W
     \<and> ps_room (po_spec (dk_posts W ! 0)) = ps_room (po_spec (dk_posts W ! 1))"
proof -
  obtain W where W: "runs_to demo_tclk demo_hash (file_save demo_fs) (file_load demo_fs) (empty_desk empty_world) W"
    "dk_seen W = [demo_bytes]" "dk_posts W = [demo_posted, demo_posted]" by (rule file_demo_run)
  have s: "dk_store (empty_desk empty_world) = empty_world" by (simp add: empty_desk_def)
  have d: "fs_digest demo_fs = demo_hash" by simp
  have "ps_room (po_spec (dk_posts W ! 0)) = ps_room (po_spec (dk_posts W ! 1))"
    using one_text_per_line [of demo_fs "empty_desk empty_world" demo_tclk W "dk_posts W ! 0" "dk_posts W ! 1"] W empty_desk_fresh empty_world_inv
    unfolding s d by simp
  then show ?thesis using W(1) by blast
qed

text \<open>C29. The record a live journal holds is never ahead of the store: the store holds a record of the
  same swap with every entry of the journal's ledger, texts and landed marks unchanged; and when what is
  stored still has the digest the journal remembers, it is the journal's own record.\<close>

theorem journal_is_never_ahead:
  assumes "fresh_desk (file_content F) W0" "file_inv F (dk_store W0)"
    and "runs_to T (fs_digest F) (file_save F) (file_load F) W0 W" "inj_on (fs_digest F) (set (dk_seen W))"
    and "dk_journals W i = Some J"
  shows "\<exists>b R. file_content F (dk_store W) (jn_key J) = Some b \<and> decodeFlowRecord T (fs_digest F) b (jn_key J) = Inr R
    \<and> follows (jn_current J) R \<and> (jn_digest J = Some (fs_digest F b) \<longrightarrow> R = jn_current J)"
proof -
  note ok = file_desk_ok [OF assms(1-4)]
  have k: "file_journals.knows F T (set (dk_seen W)) (dk_store W) J"
    using file_journals.desk_okD(2) [OF conjunct1 [OF ok] assms(5)] .
  obtain c where c: "holds_record T (fs_digest F) (jn_key J) c (jn_current J)" "c \<in> set (dk_seen W)" "jn_digest J = Some (fs_digest F c)"
    using k by (auto simp: file_journals.knows_def)
  obtain b R where b: "file_content F (dk_store W) (jn_key J) = Some b" "holds_record T (fs_digest F) (jn_key J) b R" "follows (jn_current J) R"
    using k by (auto simp: file_journals.knows_def)
  have "b \<in> set (dk_seen W)"
    using file_journals.desk_okD(1) [OF conjunct1 [OF ok]] b(1) by (auto simp: file_journals.store_ok_def)
  then have "R = jn_current J" if "jn_digest J = Some (fs_digest F b)"
    using that assms(4) b(2) c holds_unique [OF conjunct2 [OF ok]] by (auto simp: inj_on_def)
  then show ?thesis using b holds_decode [OF conjunct2 [OF ok] b(2)] by blast
qed

theorem journal_is_never_ahead_witness:
  "\<exists>W b R. runs_to demo_tclk demo_hash (file_save demo_fs) (file_load demo_fs) (empty_desk empty_world) W
     \<and> dk_journals W 0 = Some demo_running \<and> file_content demo_fs (dk_store W) demo_flow_key = Some b
     \<and> decodeFlowRecord demo_tclk demo_hash b demo_flow_key = Inr R \<and> follows demo_flow_record R"
proof -
  obtain W where W: "runs_to demo_tclk demo_hash (file_save demo_fs) (file_load demo_fs) (empty_desk empty_world) W"
    "dk_seen W = [demo_bytes]" "dk_journals W 0 = Some demo_running" by (rule file_demo_run)
  have s: "dk_store (empty_desk empty_world) = empty_world" by (simp add: empty_desk_def)
  have d: "fs_digest demo_fs = demo_hash" by simp
  have r: "jn_key demo_running = demo_flow_key" "jn_current demo_running = demo_flow_record"
    by (simp_all add: demo_running_def demo_journal_def)
  obtain b R where "file_content demo_fs (dk_store W) demo_flow_key = Some b" "decodeFlowRecord demo_tclk demo_hash b demo_flow_key = Inr R"
    "follows demo_flow_record R"
    using journal_is_never_ahead [of demo_fs "empty_desk empty_world" demo_tclk W 0 demo_running] W empty_desk_fresh empty_world_inv
    unfolding s d r by auto
  then show ?thesis using W by blast
qed

text \<open>C30. A journal whose save was refused is dead: whatever it is asked to do, by whatever step, it changes
  nothing in the store and posts nothing, and it stays failed.\<close>

theorem failed_journal_does_nothing:
  assumes "moves T H sv ld i W W'" "dk_journals W i = Some J" "jn_failure J = Some e"
  shows "dk_store W' = dk_store W \<and> dk_posts W' = dk_posts W
    \<and> (\<forall>J'. dk_journals W' i = Some J' \<longrightarrow> jn_failure J' = Some e)"
  using assms by (rule moves_failed)

theorem failed_journal_does_nothing_witness:
  "\<exists>W W'. dk_attempts W 0 = Some (0, demo_post, AwaitIntent)
     \<and> moves demo_tclk demo_hash (mem_save demo_hash) mem_load 0 W W' \<and> dk_store W' = new_mem_store \<and> dk_posts W' = []"
proof -
  define J where "J = demo_running\<lparr>jn_failure := Some (Thrown ''disk'')\<rparr>"
  define W where "W = (empty_desk new_mem_store)\<lparr>dk_journals := (\<lambda>_. None)(0 \<mapsto> J),
      dk_attempts := (\<lambda>_. None)(0 \<mapsto> (0, demo_post, AwaitIntent))\<rparr>"
  have w: "dk_journals W 0 = Some J" "dk_attempts W 0 = Some (0, demo_post, AwaitIntent)"
    "dk_store W = new_mem_store" "dk_posts W = []" by (simp_all add: W_def empty_desk_def)
  obtain ph J' s' where i: "intent_turn demo_tclk demo_hash (mem_save demo_hash) 9 demo_post J (dk_store W) = (ph, J', s')"
    by (metis prod_cases3)
  have m: "moves demo_tclk demo_hash (mem_save demo_hash) mem_load 0 W (set_phase (after_turn W 0 J' s'
      (handed demo_tclk demo_hash 9 (derive_intent demo_tclk demo_hash demo_post) False J)) 0 0 demo_post ph)"
    by (rule intends [OF w(1,2) i])
  have "jn_failure J = Some (Thrown ''disk'')" by (simp add: J_def)
  from failed_journal_does_nothing [OF m w(1) this] show ?thesis using m w by metis
qed

text \<open>One attempt per kind: however the calls of \<open>ensurePosted\<close> overlap and whatever the store and
  the venue answer, an instance never has two attempts in flight for one kind of line.\<close>

theorem one_attempt_per_kind:
  assumes "fresh_desk content W0" "runs_to T H sv ld W0 W"
    and "dk_attempts W a = Some (i, spec, ph)" "dk_attempts W b = Some (i, spec', ph')" "ps_kind spec = ps_kind spec'"
  shows "a = b"
proof -
  have "tracked W0" using assms(1) by (simp add: fresh_desk_def tracked_def)
  then have "tracked W" using runs_tracked [OF assms(2)] by blast
  then show ?thesis using assms(3-5) unfolding tracked_def by metis
qed

theorem one_attempt_per_kind_witness:
  "\<exists>W a. runs_to demo_tclk demo_hash (file_save demo_fs) (file_load demo_fs) (empty_desk empty_world) W
     \<and> dk_attempts W a \<noteq> None \<and> (\<forall>b. dk_attempts W b = dk_attempts W a \<longrightarrow> b = a)"
proof -
  obtain s' where s': "file_save demo_fs empty_world demo_flow_key demo_bytes None = (Inr (), s')" using flow_saved ..
  let ?W = "(empty_desk empty_world)\<lparr>dk_store := s', dk_journals := (\<lambda>_. None)(0 \<mapsto> demo_journal), dk_seen := [demo_bytes]\<rparr>"
  have "moves demo_tclk demo_hash (file_save demo_fs) (file_load demo_fs) 0 (empty_desk empty_world) ?W"
    using begins [where W = "empty_desk empty_world" and i = 0, OF _ demo_create] s' demo_handed by (simp add: empty_desk_def)
  then have "runs_to demo_tclk demo_hash (file_save demo_fs) (file_load demo_fs) (empty_desk empty_world) ?W"
    using goes [OF stays] by blast
  from demo_post_run [OF this, of 0] obtain W where
    W: "runs_to demo_tclk demo_hash (file_save demo_fs) (file_load demo_fs) (empty_desk empty_world) W"
      "dk_attempts W 0 = Some (0, demo_post, AwaitPost)" by (auto simp: empty_desk_def)
  have "\<forall>b. dk_attempts W b = dk_attempts W 0 \<longrightarrow> b = 0"
    using one_attempt_per_kind [OF empty_desk_fresh W(1) _ W(2)] W(2) by metis
  then show ?thesis using W by blast
qed

text \<open>C28. A line that has landed is never posted again: once the store's ledger shows a kind as landed, and
  every live instance of that swap has seen it and has no attempt of that kind before its post, no step of any
  instance, old or new, in any process, ever gives a line of that kind to the venue's \<open>post\<close>. The
  condition on attempts is needed: an attempt looks at the ledger only before its first await, so a line that
  another step of the same journal adopts while the attempt reads the room is posted.\<close>

theorem landed_line_is_never_posted_again:
  assumes "fresh_desk (file_content F) W0" "file_inv F (dk_store W0)"
    and "runs_to T (fs_digest F) (file_save F) (file_load F) W0 W" "runs_to T (fs_digest F) (file_save F) (file_load F) W W'"
    and "inj_on (fs_digest F) (set (dk_seen W'))"
    and "file_content F (dk_store W) key = Some b" "decodeFlowRecord T (fs_digest F) b key = Inr R" "ledgerLanded R kind"
    and "\<And>i J. dk_journals W i = Some J \<Longrightarrow> jn_key J = key \<Longrightarrow> isLanded J kind"
    and "\<And>i J a spec ph. dk_journals W i = Some J \<Longrightarrow> jn_key J = key \<Longrightarrow> dk_attempts W a = Some (i, spec, ph) \<Longrightarrow>
      ps_kind spec = kind \<Longrightarrow> past_post ph"
  shows "posts_of key kind W' = posts_of key kind W"
proof -
  have j: "inj_on (fs_digest F) (set (dk_seen W))"
    using runs_seen [OF assms(4)] assms(5) by (rule inj_on_subset [rotated])
  note ok = file_desk_ok [OF assms(1-3) j]
  obtain R' where "holds_record T (fs_digest F) key b R'"
    using file_journals.desk_okD(1) [OF conjunct1 [OF ok]] assms(6) by (auto simp: file_journals.store_ok_def)
  moreover from this have "R' = R" using holds_decode [OF conjunct2 [OF ok]] assms(7) by simp
  ultimately have "file_journals.rests F T key kind W"
    using assms(6,8-10) unfolding file_journals.rests_def isLanded_def by blast
  then show ?thesis
    using file_journals.runs_rest [OF assms(4) conjunct2 [OF ok] conjunct1 [OF ok] assms(5)] by blast
qed

definition demo_landed_record :: flow_record where
  "demo_landed_record = with_ledger demo_flow_record
     [\<lparr>en_kind = OfferA, en_room = ''tclk-offers'', en_text = ''tclk1 offer'',
       en_landed = Some \<lparr>ld_seq = 4, ld_nonce = Some ''10004'', ld_record = None\<rparr>\<rparr>]"

text \<open>Reading a concrete record: the definitions of the reader, with the rule that a bind rewrites its first
  argument only.\<close>

lemma bind_weak: "x = y \<Longrightarrow> bind_res x f = bind_res y f"
  by simp

lemma id32_facts: "hex32 (id32 c) \<longleftrightarrow> c \<in> set lower_hex" "length (id32 c) = 66" "id32 c \<noteq> []"
  by (simp_all add: id32_def hex32_def)

lemma demo_library:
  "verifyHashPreimage demo_tclk h s \<longleftrightarrow> s = id32 (CHR ''f'')" "OFFER_ROOM demo_tclk = ''tclk-offers''"
  by (simp_all add: demo_tclk_def)

lemmas reader_run =
  HEX_EVEN_def RECORD_DID_def BASE64_def DIGITS_def DIGEST_TEXT_def any_hex_def HEX64_RUN_def MAX_TEXT_def
  MAX_FLOW_RECORD_BYTES_def failJournal_def fail_if_def field_of_def has_def array_index_def own_keys_def
  rd_object_def rd_string_opt_def rd_string_def rd_pattern_def rd_short_def rd_line_def rd_int_def rd_bool_def
  rd_array_def rd_nullable_def rd_optional_def rd_flag_def holds_preimage_def noPreimageOf_def
  rd_transcriptRecord_def rd_frameSlot_def rd_accounts_def marker_kind_of_def rd_marker_def chain_event_of_def
  rd_event_def or_null_def rd_true_def rd_evidence_def rd_recovery_def rd_claimTx_def rd_claimRecord_def
  rd_accountLine_def rd_legB_def rd_landed_def allowed_kinds_def digest_only_def rd_room_def
  rd_ledger_entry_def parseLedger_def claim_outcome_of_def here_def ROOT_def rd_secret_def rd_claim_def
  parseSeller_def rd_prepared_def rd_lock_def rd_refund_def rd_buyer_def obj_def opt_str_def null_str_def
  null_int_def flag_def transcript_json_def slot_json_def frames_json_def accounts_json_def marker_json_def
  evidence_json_def claim_tx_json_def claim_record_json_def account_line_json_def legB_json_def
  landed_json_def entry_json_def leg_b_refund_fields_def leg_b_refund_json_def prepared_json_def
  lock_fields_def lock_json_def refund_fields_def refund_json_def record_json_def parseBuyer_def
  COMMON_REQUIRED_def COMMON_OPTIONAL_def SELLER_REQUIRED_def SELLER_OPTIONAL_def BUYER_REQUIRED_def
  BUYER_OPTIONAL_def rd_frames_def rd_base_def role_field_def parseRecord_def hex_runs.simps rd_each.simps
  secret_paths.simps rd_entries.simps present.simps marker_name.simps event_name.simps recovery_json.simps
  outcome_name.simps record_fields.simps role_of_def canonical_decimal_def positive_decimal_def run_of_def
  only_def list_all_iff lower_hex_def id32_facts kind_of_def ALL_KINDS_def BUYER_KINDS_def SELLER_KINDS_def
  OFFER_ROOM_KINDS_def of_leg_a_def Let_def base58_chars_def demo_library safe_int_of_def int_jsval_def
  int_jsnum_def max_safe_def jsnum_int_def

lemma demo_runs:
  "hex_runs (id32 (CHR ''e'')) = [''0'', replicate 64 (CHR ''e'')]" "hex_runs (id32 (CHR ''1'')) = [''0'', replicate 64 (CHR ''1'')]"
  "toLowerCase (replicate 64 (CHR ''e'')) = replicate 64 (CHR ''e'')" "toLowerCase (replicate 64 (CHR ''1'')) = replicate 64 (CHR ''1'')"
  by code_simp+

lemma demo_landed_parses: "parseRecord demo_tclk (record_json demo_landed_record) demo_flow_key True \<noteq> Inl e"
  by (simp add: reader_run demo_landed_record_def demo_flow_record_def with_ledger_def demo_flow_key_def cong: bind_weak,
      simp only: demo_runs(1,2), auto simp: demo_runs(3,4) id32_def)

lemma demo_landed_length: "length (canonical (record_json demo_landed_record)) < 1600"
  by code_simp

text \<open>A record short enough to be far from the cap is encoded when it parses.\<close>

lemma short_encodes:
  assumes p: "\<And>e. parseRecord demo_tclk (record_json R) key True \<noteq> Inl e" and k: "recordKey R = Inr key"
    and l: "length (canonical (record_json R)) < 4000"
  shows "\<exists>bs. encodeFlowRecord demo_tclk demo_hash R = Inr bs"
proof -
  obtain R' where p: "parseRecord demo_tclk (record_json R) key True = Inr R'" using p by (meson obj_sumE)
  let ?t = "record_text demo_hash (canonical (record_json R))"
  have "length ?t < 4200" using l by (simp add: record_text_def sha256Hex_def demo_hash_def)
  then have "length (utf8 ?t) < 8400" using length_utf8 [of ?t] by linarith
  then have "\<not> MAX_FLOW_RECORD_BYTES < length (utf8 ?t)" by (simp add: MAX_FLOW_RECORD_BYTES_def)
  then show ?thesis using p describeKey_own [OF k] by (simp add: encodeFlowRecord_def Let_def)
qed

lemma create_ok:
  assumes n: "newJournal did R None = Inr J" and e: "encodeFlowRecord T H R = Inr bs" and s: "sv s (jn_key J) bs None = (Inr (), s')"
  shows "create_journal T H sv now did R s = (Inr (J\<lparr>jn_digest := Some (H bs)\<rparr>), s') \<and> handed_create T H now did R = [bs]"
proof -
  have J: "jn_projector J = None" "jn_failure J = None" "jn_digest J = None" "jn_current J = R"
    using n by (auto simp: newJournal_def bind_res_Inr_iff)
  then have "plan T H now (\<lambda>_. Inr (Some R)) True J = SaveThis R bs"
    using e by (simp add: plan_def assertUsable_def prepare_def rec_res_def)
  then show ?thesis using s J by (simp add: create_journal_def handed_create_def handed_def n commit_def)
qed

theorem landed_line_is_never_posted_again_witness:
  "\<exists>W W'. runs_to demo_tclk demo_hash (file_save demo_fs) (file_load demo_fs) W W' \<and> dk_attempts W' 0 \<noteq> None
     \<and> posts_of demo_flow_key OfferA W' = []"
proof -
  have k: "recordKey demo_landed_record = Inr demo_flow_key"
    using demo_flow_recordKey by (simp add: demo_landed_record_def with_ledger_def recordKey_with_base)
  obtain bs where bs: "encodeFlowRecord demo_tclk demo_hash demo_landed_record = Inr bs"
    using short_encodes [OF demo_landed_parses k] demo_landed_length by fastforce
  obtain s' where s': "file_save demo_fs empty_world demo_flow_key bs None = (Inr (), s')" using flow_saved ..
  define J where "J = demo_journal\<lparr>jn_current := demo_landed_record, jn_digest := None\<rparr>"
  have J: "newJournal ''did:key:z1'' demo_landed_record None = Inr J" "jn_key J = demo_flow_key"
    by (simp_all add: J_def newJournal_def k demo_journal_def rec_res_def)
  define J1 where "J1 = J\<lparr>jn_digest := Some (demo_hash bs)\<rparr>"
  have c: "create_journal demo_tclk demo_hash (file_save demo_fs) now ''did:key:z1'' demo_landed_record empty_world = (Inr J1, s')"
    "handed_create demo_tclk demo_hash now ''did:key:z1'' demo_landed_record = [bs]" for now
    using create_ok [OF J(1) bs, of "file_save demo_fs" empty_world s'] s' J(2) by (simp_all add: J1_def)
  define W where "W = (empty_desk empty_world)\<lparr>dk_store := s', dk_journals := (\<lambda>_. None)(0 \<mapsto> J1), dk_seen := [bs]\<rparr>"
  have e: "dk_journals (empty_desk empty_world) 0 = None" "dk_store (empty_desk empty_world) = empty_world"
    by (simp_all add: empty_desk_def)
  then have c1: "create_journal demo_tclk demo_hash (file_save demo_fs) 0 ''did:key:z1'' demo_landed_record (dk_store (empty_desk empty_world)) = (Inr J1, s')"
    using c(1) by simp
  have "moves demo_tclk demo_hash (file_save demo_fs) (file_load demo_fs) 0 (empty_desk empty_world) W"
    using begins [OF e(1) c1, where ld = "file_load demo_fs"] c(2) by (simp add: empty_desk_def W_def)
  then have r: "runs_to demo_tclk demo_hash (file_save demo_fs) (file_load demo_fs) (empty_desk empty_world) W" using goes [OF stays] by blast
  obtain ph J2 where p: "ensurePosted demo_tclk demo_hash J1 demo_post = (Started ph, J2)"
    by (simp add: ensurePosted_def J1_def J_def demo_journal_def)
  define W' where "W' = set_phase (W\<lparr>dk_journals := (dk_journals W)(0 \<mapsto> J2)\<rparr>) 0 0 demo_post ph"
  have w: "dk_journals W 0 = Some J1" "dk_attempts W 0 = None" by (simp_all add: W_def empty_desk_def)
  have "moves demo_tclk demo_hash (file_save demo_fs) (file_load demo_fs) 0 W W'" unfolding W'_def by (rule starts [OF w p])
  then have r': "runs_to demo_tclk demo_hash (file_save demo_fs) (file_load demo_fs) W W'" using goes [OF stays] by blast
  have l: "ledgerLanded demo_landed_record OfferA"
    by (simp add: demo_landed_record_def with_ledger_def ledgerLanded_def ledgerEntry_def)
  have f: "fresh_desk (file_content demo_fs) (empty_desk empty_world)" "file_inv demo_fs (dk_store (empty_desk empty_world))"
    using empty_desk_fresh empty_world_inv by (simp_all add: empty_desk_def)
  have seen: "dk_seen W' = [bs]" "dk_seen W = [bs]" by (simp_all add: W'_def W_def set_phase_def)
  have co: "file_content demo_fs (dk_store W) demo_flow_key = Some bs"
    using file_reg.save_ok [OF empty_world_inv _ s'] encode_length [OF bs] by (simp add: W_def fits_file_def MAX_FLOW_RECORD_BYTES_def max_safe_def)
  have dec: "decodeFlowRecord demo_tclk demo_hash bs demo_flow_key = Inr demo_landed_record"
    using encode_decode [OF bs _ k] demo_hash_hex by blast
  have "posts_of demo_flow_key OfferA W' = posts_of demo_flow_key OfferA W"
    by (rule landed_line_is_never_posted_again [where F = demo_fs, OF f, of demo_tclk, unfolded demo_fs_simps, OF r r' _ co dec l])
      (use w l in \<open>auto simp: seen isLanded_def W_def J1_def J_def empty_desk_def split: if_splits\<close>)
  then have "posts_of demo_flow_key OfferA W' = []" by (simp add: posts_of_def W_def empty_desk_def)
  moreover have "dk_attempts W' 0 \<noteq> None" by (simp add: W'_def set_phase_def)
  ultimately show ?thesis using r' by blast
qed

end
