(* ===== verification/Flow_Seller_Begin.thy ===== *)
theory Flow_Seller_Begin
  imports Flow_Journal_Properties
begin

text \<open>
  The start of a Seller's flow in \<open>src/client/flow-resume.ts\<close>: the scan of the stored records, the
  mint and the create. A Seller's record is keyed by contract A, so only the scan can tell that an offer was
  already accepted. The section is one step here, as the lock of \<open>exclusive("seller-begin")\<close> makes it
  for every other begin; proved against the contract of a store, then over the file store, whose calls may
  each fail, and over the in-memory store.
\<close>

section \<open>The scan\<close>

text \<open>The key holds a Seller's record of the offer.\<close>

definition sells :: "tclk \<Rightarrow> (bytes \<Rightarrow> string) \<Rightarrow> (string \<Rightarrow> bytes option) \<Rightarrow> string \<Rightarrow> string \<Rightarrow> bool" where
  "sells T H content offerAText key \<longleftrightarrow>
     (\<exists>b R. content key = Some b \<and> decodeFlowRecord T H b key = Inr R \<and> rec_role R = SellerRole
       \<and> map_option slot_text (sf_offerA (fr_frames (rec_base R))) = Some offerAText)"

lemma valid_not_NO_KEY: "valid_key key \<Longrightarrow> key \<noteq> NO_KEY"
proof -
  assume "valid_key key"
  then obtain role sid where "key = role_name role @ CHR '':'' # sid" by (auto simp: valid_key_def FLOW_KEY_PATTERN_Some)
  then show "key \<noteq> NO_KEY" by (cases role) (simp_all add: NO_KEY_def)
qed

lemma valid_key_own: "recordKey R = Inr key \<Longrightarrow> valid_key key"
  by (cases R) (auto simp: lift_store_def split: sum.splits dest: parse_flowKey parseFlowKey_valid)

lemma seller_key: "recordKey R = Inr key \<Longrightarrow> rec_role R = SellerRole \<Longrightarrow> take 7 key = ''seller:''"
  by (cases R) (auto simp: flowKey_def lift_store_def Let_def split: sum.splits if_splits)

lemma scan_None:
  assumes "findStoredSellerOffer T H ld offerAText keys = Inr None"
    and "\<And>k c. ld k = Inr c \<Longrightarrow> c = content k" "\<And>k. content k \<noteq> None \<Longrightarrow> valid_key k"
  shows "\<forall>k \<in> set keys. \<not> sells T H content offerAText k"
  using assms(1)
proof (induction keys)
  case (Cons key keys)
  have role: "take 7 key = ''seller:''" if "sells T H content offerAText key"
    using that decode_Inr valid_not_NO_KEY assms(3) [of key] seller_key unfolding sells_def by (metis option.discI)
  have "findStoredSellerOffer T H ld offerAText keys = Inr None \<and> \<not> sells T H content offerAText key"
  proof (cases "take 7 key = ''seller:''")
    case True
    obtain c where c: "ld key = Inr c"
      using Cons.prems True by (auto simp: bind_res_Inr_iff lift_store_def split: sum.splits)
    then show ?thesis
      using Cons.prems True assms(2) [OF c]
      by (auto simp: lift_store_def rec_res_def bind_res_Inr_iff sells_def split: option.splits sum.splits if_splits)
  qed (use Cons.prems role in auto)
  then show ?case using Cons.IH by simp
qed simp

section \<open>Begin over a store\<close>

text \<open>What a begin may leave, from the keys that hold a record of the offer before and after it.\<close>

definition begin_leaves :: "journal flows \<Rightarrow> string set \<Rightarrow> string set \<Rightarrow> bool" where
  "begin_leaves r before after \<longleftrightarrow>
     (case r of
        Inr J \<Rightarrow> before = {} \<and> after = {jn_key J}
      | Inl e \<Rightarrow> after = before \<or> before = {} \<and> (\<exists>key. after = {key}))"

definition for_offer :: "string \<Rightarrow> flow_record \<Rightarrow> bool" where
  "for_offer offerAText R \<longleftrightarrow>
     rec_role R = SellerRole \<and> map_option slot_text (sf_offerA (fr_frames (rec_base R))) = Some offerAText"

lemma sells_put:
  assumes "\<And>k. \<not> sells T H content offerAText k" "decodeFlowRecord T H bs key = Inr R" "for_offer offerAText R"
  shows "{k. sells T H (content(key := Some bs)) offerAText k} = {key}"
  using assms by (auto simp: sells_def for_offer_def split: if_splits)

context journal_store
begin

lemma begin_seller_one:
  assumes i: "inv s" and d: "digest_ok H" and v: "\<And>k. content s k \<noteq> None \<Longrightarrow> valid_key k"
    and ls: "\<And>ks k. ls s = Inr ks \<Longrightarrow> content s k \<noteq> None \<Longrightarrow> k \<in> set ks"
    and ld: "\<And>k c. ld s k = Inr c \<Longrightarrow> c = content s k"
    and bu: "\<And>R. build = Inr R \<Longrightarrow> for_offer offerAText R"
    and b: "beginSeller T H ls ld save now did offerAText build s = (r, s')"
  shows "begin_leaves r {k. sells T H (content s) offerAText k} {k. sells T H (content s') offerAText k}"
proof (cases "\<exists>keys R. ls s = Inr keys \<and> findStoredSellerOffer T H (ld s) offerAText keys = Inr None \<and> build = Inr R")
  case False
  then have "\<exists>e. r = Inl e" "s' = s"
    using b by (auto simp: beginSeller_def lift_store_def rec_res_def split: sum.splits option.splits)
  then show ?thesis by (auto simp: begin_leaves_def)
next
  case True
  then obtain keys R where k: "ls s = Inr keys" "findStoredSellerOffer T H (ld s) offerAText keys = Inr None" "build = Inr R"
    by blast
  have c: "create_journal T H save now did R s = (r, s')"
    using b k by (simp add: beginSeller_def lift_store_def rec_res_def)
  have none: "\<not> sells T H (content s) offerAText k" for k
  proof
    assume o: "sells T H (content s) offerAText k"
    then have "k \<in> set keys" using ls [OF k(1), of k] by (auto simp: sells_def)
    then show False using scan_None [where content = "content s", OF k(2) ld v] o by blast
  qed
  show ?thesis
  proof (cases "\<exists>J bs. newJournal did R None = Inr J \<and> encodeFlowRecord T H R = Inr bs")
    case False
    then have "\<exists>e. r = Inl e" "s' = s"
      using c by (auto simp: create_journal_def newJournal_def commit_def plan_def assertUsable_def prepare_def rec_res_def
          bind_res_Inr_iff split: sum.splits prod.splits)
    then show ?thesis by (auto simp: begin_leaves_def)
  next
    case True
    then obtain J bs where J: "newJournal did R None = Inr J" and e: "encodeFlowRecord T H R = Inr bs" by blast
    have jn: "recordKey R = Inr (jn_key J)" "jn_projector J = None" "jn_failure J = None" "jn_digest J = None"
      using J by (auto simp: newJournal_def bind_res_Inr_iff)
    then have p: "plan T H now (\<lambda>_. Inr (Some R)) True J = SaveThis R bs"
      using e by (simp add: plan_def assertUsable_def prepare_def rec_res_def)
    have f: "fits bs" using encode_length [OF e] record_fits by blast
    have "decodeFlowRecord T H bs (jn_key J) = Inr R"
      using encode_decode [OF e _ jn(1)] d by (simp add: digest_ok_def)
    then have put: "{k. sells T H ((content s)(jn_key J := Some bs)) offerAText k} = {jn_key J}"
      using sells_put none bu [OF k(3)] by blast
    obtain x t where sv: "save s (jn_key J) bs None = (x, t)" by fastforce
    show ?thesis
    proof (cases x)
      case (Inl e)
      then have "\<exists>e. r = Inl e" "s' = t"
        using c J p sv jn(4) by (auto simp: create_journal_def commit_def)
      moreover have "content t = content s \<or> content t = (content s)(jn_key J := Some bs)"
        using save_refused [OF i f, of "jn_key J" None e t] sv Inl by auto
      ultimately show ?thesis using put none by (auto simp: begin_leaves_def)
    next
      case (Inr u)
      then have "\<exists>J'. r = Inr J' \<and> jn_key J' = jn_key J" "s' = t"
        using c J p sv jn(4) by (auto simp: create_journal_def commit_def)
      moreover have "content t = (content s)(jn_key J := Some bs)"
        using save_ok [OF i f, of "jn_key J" None t] sv Inr by simp
      ultimately show ?thesis using put none by (auto simp: begin_leaves_def)
    qed
  qed
qed

end

section \<open>The list of the file store\<close>

definition file_list :: "world \<Rightarrow> (store_error, string list) result" where
  "file_list w =
     (case list_keys w of
        (Ret ks, w') \<Rightarrow> Inr ks
      | (Throw x, w') \<Rightarrow> Inl x
      | (Died, w') \<Rightarrow> Inl (IoError (OtherCode ''died'')))"

text \<open>A directory reads as its entries: it exists when it has one, and every entry is among its names. The
  empty disk is one, and the calls that change entries keep it so.\<close>

definition listed :: "disk \<Rightarrow> bool" where
  "listed d \<longleftrightarrow> (\<forall>n. dk_dir d n \<noteq> None \<longrightarrow> dk_made d \<and> n \<in> set (dk_names d))"

lemma listed_calls:
  "listed empty_disk" "listed d \<Longrightarrow> k_mkdir d = Inr (u, d') \<Longrightarrow> listed d'"
  "listed d \<Longrightarrow> k_create n d = Inr (i, d') \<Longrightarrow> listed d'" "listed d \<Longrightarrow> listed (k_put i bs d)"
  "listed d \<Longrightarrow> k_rm n d = Inr (u, d') \<Longrightarrow> listed d'" "listed d \<Longrightarrow> k_rename n m d = Inr (u, d') \<Longrightarrow> listed d'"
  by (auto simp: listed_def empty_disk_def k_mkdir_def k_create_def k_put_def k_rm_def k_rename_def set_entry_def Let_def
      split: if_splits option.splits)

lemma strip_prefix_append_iff: "strip_prefix p s = Some t \<longleftrightarrow> s = p @ t"
  by (auto simp: strip_prefix_def) (metis append_take_drop_id)

lemma file_key_record: "hex32 sid \<Longrightarrow> file_key (record_name role sid) = Some (role_name role @ CHR '':'' # sid)"
  by (cases role) (simp_all add: file_key_def record_name_def strip_prefix_def hex32_length)

lemma file_content_valid: "file_content F w k \<noteq> None \<Longrightarrow> valid_key k"
  by (auto simp: file_content_def pathFor_def result_simps split: sum.splits dest: parseFlowKey_valid)

lemma file_list_all:
  assumes "file_list w = Inr ks" "listed (w_disk w)" "list_all honest_call (w_script w)" "file_content F w k \<noteq> None"
  shows "k \<in> set ks"
proof -
  obtain p where p: "pathFor k = Inr p" "dk_dir (w_disk w) p \<noteq> None"
    using assms(4) by (auto simp: file_content_def file_at_def split: sum.splits option.splits)
  obtain role sid where r: "parseFlowKey k = Inr (role, sid)" "p = record_name role sid"
    using pathFor_Inr [OF p(1)] .
  have k: "hex32 sid" "k = role_name role @ CHR '':'' # sid"
    using r(1) by (auto simp: parseFlowKey_def FLOW_KEY_PATTERN_Some result_simps)
  have d: "dk_made (w_disk w)" "p \<in> set (dk_names (w_disk w))" using assms(2) p(2) by (auto simp: listed_def)
  let ?ns = "filter (\<lambda>n. dk_dir (w_disk w) n \<noteq> None) (dk_names (w_disk w))"
  have "ks = sort (List.map_filter file_key ?ns)"
    using assms(1,3) d(1)
    by (auto simp: file_list_def list_keys_def names_or_none_def bindA_def catchA_def sys_def k_readdir_def retA_def throwA_def
        Let_def honest_call_def split: list.splits outcome.splits if_splits)
  then show ?thesis
    using d(2) p(2) file_key_record [OF k(1), of role] r(2) k(2) by (force simp: List.map_filter_def)
qed

text \<open>C31. One Seller record per offer, over the file store. Whatever calls fail or end the process, in the
  listing, in each load of the scan (each has a script of its own) or in the save: a begin that returns found no
  readable record of any key for that exact offer, and leaves exactly the new one; a begin that throws or dies
  leaves the records of the offer as they were, or one where there was none. An unreadable Seller record makes
  the scan throw. The whole begin is one section: no other process writes between its scan and its create.\<close>

theorem one_seller_record_per_offer:
  assumes "file_inv F w" "listed (w_disk w)" "list_all honest_call sl" "\<And>k. list_all honest_call (sc k)"
    and "\<And>R. build = Inr R \<Longrightarrow> for_offer offerAText R"
    and "beginSeller T (fs_digest F) (\<lambda>w. file_list (w\<lparr>w_script := sl\<rparr>)) (\<lambda>w k. file_load F (w\<lparr>w_script := sc k\<rparr>) k)
      (file_save F) now did offerAText build w = (r, w')"
  shows "begin_leaves r {k. sells T (fs_digest F) (file_content F w) offerAText k}
    {k. sells T (fs_digest F) (file_content F w') offerAText k}"
proof -
  have same: "file_content F (w\<lparr>w_script := x\<rparr>) = file_content F w" for x 
    by (auto simp: file_content_def intro!: ext split: sum.split option.split)
  have i: "file_inv F (w\<lparr>w_script := sc k\<rparr>)" for k using assms(1,4) by (simp add: file_inv_def)
  have ls: "k \<in> set ks" if "file_list (w\<lparr>w_script := sl\<rparr>) = Inr ks" "file_content F w k \<noteq> None" for ks k
    using file_list_all [OF that(1), of F k] that(2) assms(2,3) same by simp
  have ld: "c = file_content F w k" if "file_load F (w\<lparr>w_script := sc k\<rparr>) k = Inr c" for k c
    using file_load_content [OF i that] same by simp
  have d: "digest_ok (fs_digest F)" using assms(1) by (simp add: file_inv_def)
  from assms(1) d file_content_valid ls ld assms(5,6) show ?thesis by (rule file_journals.begin_seller_one)
qed

text \<open>Over the in-memory store.\<close>

theorem one_seller_record_in_memory:
  assumes "mem_inv s" "digest_ok H" "\<And>R. build = Inr R \<Longrightarrow> for_offer offerAText R"
    and "beginSeller T H (\<lambda>s. Inr (mem_list s)) mem_load (mem_save H) now did offerAText build s = (r, s')"
  shows "begin_leaves r {k. sells T H (mem_content s) offerAText k} {k. sells T H (mem_content s') offerAText k}"
proof -
  have l: "set (mem_list s) = {k. mem_content s k \<noteq> None}"
    by (auto simp: mem_list_def mem_content_def dom_map_of_conv_image_fst [symmetric])
  have v: "valid_key k" if "mem_content s k \<noteq> None" for k
  proof -
    have "k \<in> set (mem_list s)" using that l by simp
    then show ?thesis using assms(1) by (auto simp: mem_inv_def mem_list_def)
  qed
  have ls: "k \<in> set ks" if "Inr (mem_list s) = (Inr ks :: (store_error, string list) result)" "mem_content s k \<noteq> None" for ks k
    using that l by auto
  have ld: "c = mem_content s k" if "mem_load s k = Inr c" for k c
    using that by (auto simp: mem_load_def mem_content_def bind_res_Inr_iff)
  from assms(1,2) v ls ld assms(3,4) show ?thesis by (rule mem_journals.begin_seller_one)
qed

section \<open>A begin over an empty directory\<close>

definition demo_seller_record :: flow_record where
  "demo_seller_record =
     SellerRecord
       \<lparr>fr_swapId = id32 (CHR ''1''), fr_did = ''did:key:z2'', fr_railId = ''evm'', fr_caip2 = ''eip155:1'',
        fr_deploymentId = ''rail:evm'', fr_createdAtMs = 5, fr_updatedAtMs = 7, fr_revision = 1,
        fr_frames = \<lparr>sf_offerA = Some \<lparr>slot_text = ''tclk1 offer'', slot_record = None\<rparr>, sf_acceptA = None, sf_offerB = None, sf_acceptB = None\<rparr>,
        fr_contractB = None, fr_lockTimeMs = None, fr_legB = None, fr_ledger = []\<rparr>
       \<lparr>ss_contractA = id32 (CHR ''c''), ss_preimage = id32 (CHR ''f''), ss_statement = id32 (CHR ''e''), ss_attemptedAcceptB = None,
        ss_lockedLegBContract = None, ss_frozenLegAAccounts = None, ss_frozenLegARailRef = None, ss_ownAccountLine = None,
        ss_claimAttempted = False, ss_claimFromBlock = None, ss_claimTxHash = None, ss_claimTx = None, ss_claimRecords = [],
        ss_publicClaimSignature = None, ss_neverLandedClaims = 0, ss_claimOutcome = OutcomeNone, ss_revealPosted = False,
        ss_receiptPosted = False, ss_legBRefund = \<lparr>lr_attempted = False, lr_done = False, lr_framesPosted = False\<rparr>,
        ss_legBClaimSeen = False\<rparr>"

definition demo_seller_key :: string where
  "demo_seller_key = ''seller:'' @ id32 (CHR ''c'')"

lemma demo_seller_recordKey: "recordKey demo_seller_record = Inr demo_seller_key"
  by (simp add: demo_seller_record_def demo_seller_key_def flowKey_def KEY_ID_SHAPE_def hex32_def id32_def lower_hex_def
      lift_store_def Let_def)

lemma demo_seller_parses: "parseRecord demo_tclk (record_json demo_seller_record) demo_seller_key True \<noteq> Inl e"
  by (simp add: reader_run demo_seller_record_def demo_seller_key_def cong: bind_weak)

lemma demo_seller_length: "length (canonical (record_json demo_seller_record)) < 2000"
  by code_simp

definition seller_path :: string where
  "seller_path = ''seller-0x'' @ replicate 64 (CHR ''c'') @ ''.json''"

lemma seller_saved: "\<exists>s'. file_save demo_fs empty_world demo_seller_key b None = (Inr (), s')"
proof -
  have n: "record_name SellerRole (id32 (CHR ''c'')) = seller_path" by (simp add: record_name_def seller_path_def id32_def)
  have "FLOW_KEY_PATTERN demo_seller_key = Some (SellerRole, id32 (CHR ''c''))"
    by (simp add: FLOW_KEY_PATTERN_Some demo_seller_key_def hex32_def id32_def lower_hex_def)
  moreover have "underDir seller_path = Inr seller_path" by (rule underDir_ok) (simp_all add: seller_path_def)
  ultimately have p: "pathFor demo_seller_key = Inr seller_path" by (simp add: pathFor_def parseFlowKey_def n)
  have "drop_json seller_path = role_name SellerRole @ CHR ''-'' # id32 (CHR ''c'')"
    unfolding n [symmetric] by (rule drop_json_record)
  then have l: "underDir (drop_json seller_path @ ''.lock'') = Inr (drop_json seller_path @ ''.lock'')"
    by (intro underDir_ok) (simp_all add: id32_def)
  have t: "underDir (seller_path @ ''.tmp-7-'' @ replicate 12 (CHR ''a'')) = Inr (seller_path @ ''.tmp-7-'' @ replicate 12 (CHR ''a''))"
    by (rule underDir_ok) (simp_all add: seller_path_def)
  have d: "disk_ok (w_disk empty_world\<lparr>dk_made := True\<rparr>)" "names_ok (w_disk empty_world)"
    "dk_dir (w_disk empty_world) (drop_json seller_path @ ''.lock'') = None" "plain_temps demo_fs seller_path (w_disk empty_world)"
    using t by (simp_all add: empty_world_def empty_disk_def disk_ok_def names_ok_def plain_temps_def temp_name_def demo_fs_def
        show_nat.simps [of 7] digit_char_def digits_def)
  have m: "file_matches (fs_digest demo_fs) demo_seller_key (file_at (w_disk empty_world) seller_path) None"
    by (simp add: file_matches_def file_at_def empty_disk_def empty_world_def)
  obtain w' where "save demo_fs demo_seller_key b None empty_world = (Ret (), w')"
    using due_save [OF p l _ _ _ d m, of b] by (auto simp: checkExpected_def empty_world_def)
  then show ?thesis by (simp add: file_save_def)
qed

theorem one_seller_record_per_offer_witness:
  "\<exists>J w'. beginSeller demo_tclk demo_hash (\<lambda>w. file_list (w\<lparr>w_script := []\<rparr>)) (\<lambda>w k. file_load demo_fs (w\<lparr>w_script := []\<rparr>) k)
        (file_save demo_fs) 9 ''did:key:z2'' ''tclk1 offer'' (Inr demo_seller_record) empty_world = (Inr J, w')
     \<and> {k. sells demo_tclk demo_hash (file_content demo_fs w') ''tclk1 offer'' k} = {demo_seller_key}"
proof -
  obtain bs where bs: "encodeFlowRecord demo_tclk demo_hash demo_seller_record = Inr bs"
    using short_encodes [OF demo_seller_parses demo_seller_recordKey] demo_seller_length by fastforce
  obtain J where J: "newJournal ''did:key:z2'' demo_seller_record None = Inr J" "jn_key J = demo_seller_key"
    by (simp add: newJournal_def demo_seller_recordKey rec_res_def)
  obtain w' where w': "file_save demo_fs empty_world demo_seller_key bs None = (Inr (), w')" using seller_saved ..
  define J1 where "J1 = J\<lparr>jn_digest := Some (demo_hash bs)\<rparr>"
  have l: "file_list (empty_world\<lparr>w_script := []\<rparr>) = Inr []"
    by (simp add: file_list_def list_keys_def names_or_none_def bindA_def catchA_def sys_def k_readdir_def retA_def
        empty_world_def empty_disk_def Let_def)
  have b: "beginSeller demo_tclk demo_hash (\<lambda>w. file_list (w\<lparr>w_script := []\<rparr>)) (\<lambda>w k. file_load demo_fs (w\<lparr>w_script := []\<rparr>) k)
        (file_save demo_fs) 9 ''did:key:z2'' ''tclk1 offer'' (Inr demo_seller_record) empty_world = (Inr J1, w')"
    using create_ok [OF J(1) bs, of "file_save demo_fs" empty_world w' 9] w' J(2) l
    by (simp add: beginSeller_def lift_store_def rec_res_def J1_def)
  have li: "listed (w_disk empty_world)" by (simp add: listed_def empty_world_def empty_disk_def)
  have o: "for_offer ''tclk1 offer'' demo_seller_record"
    by (simp add: for_offer_def demo_seller_record_def)
  have "begin_leaves (Inr J1) {k. sells demo_tclk demo_hash (file_content demo_fs empty_world) ''tclk1 offer'' k}
      {k. sells demo_tclk demo_hash (file_content demo_fs w') ''tclk1 offer'' k}"
    by (rule one_seller_record_per_offer [where F = demo_fs, unfolded demo_fs_simps, OF empty_world_inv li _ _ _ b]) (use o in auto)
  then have "{k. sells demo_tclk demo_hash (file_content demo_fs w') ''tclk1 offer'' k} = {demo_seller_key}"
    by (simp add: begin_leaves_def J1_def J(2))
  then show ?thesis using b by blast
qed

end
