(* ===== verification/Evm_Config.thy ===== *)
theory Evm_Config
  imports Custom_Rails Account_Proof Flow_Reader Json_Text
begin

text \<open>
  \<open>src/rails/evm-htlc.ts\<close>, the configuration of the EVM rail: the pins, the check every
  entry point runs on a configuration it did not construct itself, and the limits in force for a
  checked one. A refusal is a constructor of \<open>config_reason\<close> that carries what the message
  prints, and \<open>config_text\<close> is that message.
\<close>

section \<open>The functions of viem the rail uses\<close>

text \<open>
  \<open>viem\<close> is a third-party library: its functions are the fields of the record
  \<open>viem\<close>, an argument of every definition that calls them. \<open>vi_isAddress\<close> is
  \<open>isAddress(_, {strict: false})\<close>; a function that throws answers \<open>Inl\<close> its message
  or \<open>None\<close>. \<open>vi_locksCalldata\<close> and \<open>vi_decodeLocks\<close> are
  \<open>encodeFunctionData\<close> and \<open>decodeFunctionResult\<close> of the contract's
  \<open>locks\<close>; a status is one byte.
\<close>

record locks_row =
  lk_payer :: string
  lk_payee :: string
  lk_token :: string
  lk_amount :: int
  lk_claimByMs :: int
  lk_refundAfterMs :: int
  lk_status :: int

record viem =
  vi_isAddress :: "string \<Rightarrow> bool"
  vi_isAddressEqual :: "string \<Rightarrow> string \<Rightarrow> (string, bool) result"
  vi_hexToNumber :: "string \<Rightarrow> jsnum option"
  vi_numberToHex :: "jsnum \<Rightarrow> (string, string) result"
  vi_locksCalldata :: "string \<Rightarrow> string"
  vi_decodeLocks :: "jsval \<Rightarrow> locks_row option"
  vi_keccak256 :: "string \<Rightarrow> string"

definition HEX_ADDRESS :: "string \<Rightarrow> bool" where
  "HEX_ADDRESS s \<longleftrightarrow> length s = 42 \<and> take 2 s = ''0x'' \<and> only any_hex (drop 2 s)"

text \<open>Documented behaviour of the address functions: an address is \<open>0x\<close> and 40 hex digits,
  and two addresses are equal when their spellings in lower case are; the comparison throws on
  anything else.\<close>

definition viem_addresses_ok :: "viem \<Rightarrow> bool" where
  "viem_addresses_ok V \<longleftrightarrow>
     (\<forall>a. vi_isAddress V a = HEX_ADDRESS a)
     \<and> (\<forall>a b. HEX_ADDRESS a \<and> HEX_ADDRESS b \<longrightarrow> vi_isAddressEqual V a b = Inr (toLowerCase a = toLowerCase b))
     \<and> (\<forall>a b. \<not> (HEX_ADDRESS a \<and> HEX_ADDRESS b) \<longrightarrow> (\<exists>m. vi_isAddressEqual V a b = Inl m))"

lemma viem_addresses_okD:
  assumes "viem_addresses_ok V"
  shows "vi_isAddress V a = HEX_ADDRESS a"
    "HEX_ADDRESS a \<Longrightarrow> HEX_ADDRESS b \<Longrightarrow> vi_isAddressEqual V a b = Inr (toLowerCase a = toLowerCase b)"
    "\<not> (HEX_ADDRESS a \<and> HEX_ADDRESS b) \<Longrightarrow> \<exists>m. vi_isAddressEqual V a b = Inl m"
  using assms unfolding viem_addresses_ok_def by blast+

section \<open>Configurations\<close>

datatype evm_finality = ByTag string "int option" | ByConfirmations int

record evm_pin =
  pin_chainId :: int
  pin_name :: string
  pin_caip2 :: string
  pin_finality :: evm_finality

record evm_config =
  cf_pin :: evm_pin
  cf_endpoint :: string
  cf_contract :: string
  cf_assets :: "(string \<times> string) list"
  cf_receiptTimeoutMs :: "int option"
  cf_contractCodeHash :: "string option"
  cf_maxLogRange :: "int option"
  cf_maxFeePerGasWei :: "jsval option"

definition BASE_SEPOLIA_CHAIN_ID :: int where "BASE_SEPOLIA_CHAIN_ID = 84532"
definition BASE_SEPOLIA_DEFAULT_MAX_FEE_PER_GAS_WEI :: int where "BASE_SEPOLIA_DEFAULT_MAX_FEE_PER_GAS_WEI = 50000000000"
definition BASE_SEPOLIA_MIN_MAX_FEE_PER_GAS_WEI :: int where "BASE_SEPOLIA_MIN_MAX_FEE_PER_GAS_WEI = 1000000000"
definition BASE_SEPOLIA_MIN_RECEIPT_TIMEOUT_MS :: int where "BASE_SEPOLIA_MIN_RECEIPT_TIMEOUT_MS = 10000"
definition BASE_SEPOLIA_MAX_RECEIPT_TIMEOUT_MS :: int where "BASE_SEPOLIA_MAX_RECEIPT_TIMEOUT_MS = 3600000"
definition BASE_SEPOLIA_MAX_LOG_RANGE :: int where "BASE_SEPOLIA_MAX_LOG_RANGE = 500"
definition MAX_LOG_SCAN_CHUNKS :: nat where "MAX_LOG_SCAN_CHUNKS = 100"
definition EVM_MIN_LOG_RANGE :: int where "EVM_MIN_LOG_RANGE = 257"
definition MAX_RECEIPT_TIMEOUT_MS :: int where "MAX_RECEIPT_TIMEOUT_MS = 86400000"
definition EVM_DEFAULT_MAX_FEE_PER_GAS_WEI :: int where "EVM_DEFAULT_MAX_FEE_PER_GAS_WEI = 1000000000000"

definition BASE_SEPOLIA_PIN :: evm_pin where
  "BASE_SEPOLIA_PIN =
     \<lparr>pin_chainId = 84532, pin_name = ''base-sepolia'', pin_caip2 = ''eip155:84532'',
      pin_finality = ByTag ''finalized'' None\<rparr>"

definition ANVIL_LOCAL_PIN :: evm_pin where
  "ANVIL_LOCAL_PIN =
     \<lparr>pin_chainId = 31337, pin_name = ''anvil-local'', pin_caip2 = ''eip155:31337'',
      pin_finality = ByTag ''finalized'' None\<rparr>"

definition ALLOWED_CHAIN_IDS :: "int set" where
  "ALLOWED_CHAIN_IDS = {31337, 84532}"

definition CANONICAL_PIN_NAMES :: "int \<Rightarrow> string option" where
  "CANONICAL_PIN_NAMES = map_of [(31337, ''anvil-local''), (84532, ''base-sepolia'')]"

definition MAINNET_DENY_LIST :: "int \<Rightarrow> string option" where
  "MAINNET_DENY_LIST = map_of
     [(1, ''ethereum mainnet''), (8453, ''base mainnet''), (10, ''op mainnet''), (42161, ''arbitrum one''),
      (137, ''polygon pos''), (56, ''bnb smart chain''), (43114, ''avalanche c-chain'')]"

definition BASE_MAINNET_USDC :: string where
  "BASE_MAINNET_USDC = ''0x833589fCD6eDb6E08f4c7C32D4f71b54bdA02913''"

text \<open>\<open>CODE_HASH_SHAPE\<close> of \<open>evm-code-pin.ts\<close>.\<close>

definition CODE_HASH_SHAPE :: "string \<Rightarrow> bool" where
  "CODE_HASH_SHAPE s \<longleftrightarrow> length s = 66 \<and> take 2 s = ''0x'' \<and> only any_hex (drop 2 s)"

section \<open>Refusals\<close>

datatype config_reason =
    ConfigNotObject
  | PinNotObject
  | ChainIdNotPositive
  | PinNameEmpty
  | Caip2NotString
  | Caip2Mismatch "string option" int
  | FinalityNotObject
  | TagNotFinalized
  | FallbackNotPositive
  | ConfirmationsNotPositive
  | FinalityModeUnknown
  | EndpointEmpty
  | ContractNotAddress
  | AssetsNotObject
  | AssetNotAddress "string option"
  | ReceiptTimeoutShape
  | CodeHashMalformed
  | MaxLogRangeShape
  | MaxLogRangeTooSmall int
  | MaxFeeShape
  | ChainIdNotAllowed int
  | PinNameNotCanonical int string "string option"
  | CodeHashRequired
  | AssetIsMainnetUsdc "string option"
  | AddressThrow string
  | ConfirmationsKnob
  | FallbackKnob
  | BaseConfirmationsMode
  | BaseFallback
  | ReceiptTimeoutRange int
  | MaxFeeTooLow int

text \<open>What a refusal prints of a configured text: \<open>Some\<close> the text when it is plain.\<close>

definition plain_asset :: "string \<Rightarrow> string option" where
  "plain_asset s = (if ASSET_NAME_SHAPE s then Some s else None)"

definition template_int :: "int \<Rightarrow> string" where
  "template_int i = number_text (int_jsnum i)"

primrec config_text :: "config_reason \<Rightarrow> string" where
  "config_text ConfigNotObject = ''evm rail config is not an object''"
| "config_text PinNotObject = ''evm rail config: pin is not an object''"
| "config_text ChainIdNotPositive = ''evm rail config: pin.chainId must be a positive integer''"
| "config_text PinNameEmpty = ''evm rail config: pin.name must be a non-empty string''"
| "config_text Caip2NotString = ''evm rail config: pin.caip2 must be a string''"
| "config_text (Caip2Mismatch shown i) =
     ''evm rail config: pin.caip2 '' @ (case shown of Some t \<Rightarrow> t | None \<Rightarrow> ''is '' @ UNPLAIN_PIN_TEXT @ '' and'')
     @ '' does not match pin.chainId '' @ template_int i @ '' (expected '' @ [quote] @ ''eip155:'' @ template_int i @ [quote] @ '')''"
| "config_text FinalityNotObject = ''evm rail config: pin.finality is not an object''"
| "config_text TagNotFinalized = ''evm rail config: pin.finality.tag must be '' @ [quote] @ ''finalized'' @ [quote]"
| "config_text FallbackNotPositive = ''evm rail config: pin.finality.fallbackConfirmations must be a positive integer''"
| "config_text ConfirmationsNotPositive = ''evm rail config: pin.finality.confirmations must be a positive integer''"
| "config_text FinalityModeUnknown =
     ''evm rail config: pin.finality.mode must be '' @ [quote] @ ''tag'' @ [quote] @ '' or '' @ [quote] @ ''confirmations'' @ [quote]"
| "config_text EndpointEmpty = ''evm rail config: endpoint must be a non-empty string''"
| "config_text ContractNotAddress = ''evm rail config: contract must be a 0x-address''"
| "config_text AssetsNotObject = ''evm rail config: assets must be an object''"
| "config_text (AssetNotAddress a) =
     ''evm rail config: '' @ (case a of Some t \<Rightarrow> ''assets['' @ [quote] @ t @ [quote] @ '']'' | None \<Rightarrow> UNPLAIN_ASSET_NAME)
     @ '' must be a 0x-address''"
| "config_text ReceiptTimeoutShape =
     ''evm rail config: receiptTimeoutMs must be a positive integer of at most '' @ template_int MAX_RECEIPT_TIMEOUT_MS"
| "config_text CodeHashMalformed =
     ''evm rail config: contractCodeHash must be 0x followed by 64 hex digits (the keccak256 of the escrow's runtime code)''"
| "config_text MaxLogRangeShape = ''evm rail config: maxLogRange must be a positive integer''"
| "config_text (MaxLogRangeTooSmall i) =
     ''evm rail config: maxLogRange must be at least '' @ template_int EVM_MIN_LOG_RANGE
     @ '' (the 256-block claim marker margin must fit in one eth_getLogs call), got '' @ template_int i"
| "config_text MaxFeeShape =
     ''evm rail config: maxFeePerGasWei must be a positive integer (a number, or a string of decimal digits without leading zeros)''"
| "config_text (ChainIdNotAllowed i) =
     ''evm-htlc: chain id '' @ template_int i @ '' is not on the allow list (31337 anvil-local, 84532 base-sepolia only)''
     @ (case MAINNET_DENY_LIST i of Some n \<Rightarrow> ''; '' @ template_int i @ '' is '' @ n | None \<Rightarrow> [])"
| "config_text (PinNameNotCanonical i name shown) =
     ''evm-htlc: chain id '' @ template_int i @ '' must be pinned as '' @ [quote] @ name @ [quote] @ '', got ''
     @ (case shown of Some t \<Rightarrow> t | None \<Rightarrow> UNPLAIN_PIN_TEXT)"
| "config_text CodeHashRequired =
     ''evm-htlc: a base-sepolia ('' @ template_int BASE_SEPOLIA_CHAIN_ID @ '') config must carry contractCodeHash, the keccak256 of the escrow's runtime code ''
     @ ''(bin/evm-code-hash.mjs prints it for the deployed contract); refusing to trust a contract by its address alone''"
| "config_text (AssetIsMainnetUsdc a) =
     ''evm-htlc: '' @ (case a of Some t \<Rightarrow> ''asset '' @ [quote] @ t @ [quote] | None \<Rightarrow> UNPLAIN_ASSET_NAME)
     @ '' resolves to Base mainnet USDC ('' @ BASE_MAINNET_USDC @ ''); refusing to configure it (D-09)''"
| "config_text (AddressThrow m) = m"
| "config_text ConfirmationsKnob = ''evm-htlc: confirmations must be a positive integer''"
| "config_text FallbackKnob = ''evm-htlc: fallbackConfirmations must be a positive integer''"
| "config_text BaseConfirmationsMode =
     ''evm-htlc: base-sepolia ('' @ template_int BASE_SEPOLIA_CHAIN_ID @ '') must pin finality to the finalized tag: confirmations mode is refused there ''
     @ ''(every final read, and the Buyer's permanent never-locked verdict, must rest on the chain's own finalized block, ''
     @ ''never on a block a fixed number of confirmations below the head)''"
| "config_text BaseFallback =
     ''evm-htlc: base-sepolia ('' @ template_int BASE_SEPOLIA_CHAIN_ID @ '') must pin finality to the finalized tag with no fallbackConfirmations: ''
     @ ''a block a fixed number of confirmations below the head is not a final one''"
| "config_text (ReceiptTimeoutRange i) =
     ''evm-htlc: receiptTimeoutMs '' @ template_int i @ '' is outside '' @ template_int BASE_SEPOLIA_MIN_RECEIPT_TIMEOUT_MS @ '' to ''
     @ template_int BASE_SEPOLIA_MAX_RECEIPT_TIMEOUT_MS @ '' ms, the range allowed on base-sepolia ('' @ template_int BASE_SEPOLIA_CHAIN_ID @ '')''"
| "config_text (MaxFeeTooLow i) =
     ''evm-htlc: maxFeePerGasWei '' @ show_int i @ '' is below the '' @ show_int BASE_SEPOLIA_MIN_MAX_FEE_PER_GAS_WEI
     @ '' wei (1 gwei) floor on base-sepolia ('' @ template_int BASE_SEPOLIA_CHAIN_ID @ ''): a ceiling under the chain's own fee would refuse every write''"

section \<open>The shape of an untrusted configuration\<close>

text \<open>\<open>v.name\<close> of a value that is an object; an array has none of the fields read here.\<close>

definition is_object :: "jsval \<Rightarrow> bool" where
  "is_object v \<longleftrightarrow> (case v of Obj kvs \<Rightarrow> True | Arr xs \<Rightarrow> True | _ \<Rightarrow> False)"

definition prop_of :: "jsval \<Rightarrow> string \<Rightarrow> jsval" where
  "prop_of v name = (case v of Obj kvs \<Rightarrow> field_of kvs name | _ \<Rightarrow> Undefined)"

definition text_of :: "jsval \<Rightarrow> string option" where
  "text_of v = (case v of Str s \<Rightarrow> Some s | _ \<Rightarrow> None)"

definition filled_text :: "jsval \<Rightarrow> string option" where
  "filled_text v = (case v of Str s \<Rightarrow> if s = [] then None else Some s | _ \<Rightarrow> None)"

definition positive_integer :: "jsval \<Rightarrow> int option" where
  "positive_integer v =
     (case v of
        Num x \<Rightarrow> (case jsnum_int x of Some i \<Rightarrow> if 0 < i then Some i else None | None \<Rightarrow> None)
      | _ \<Rightarrow> None)"

text \<open>A field that may be absent.\<close>

definition optional :: "(jsval \<Rightarrow> ('e, 'b) result) \<Rightarrow> jsval \<Rightarrow> ('e, 'b option) result" where
  "optional f v = (if v = Undefined then Inr None else bind_res (f v) (\<lambda>x. Inr (Some x)))"

definition maxFeePerGasWeiOf :: "jsval \<Rightarrow> int option" where
  "maxFeePerGasWeiOf v =
     (case v of
        Num x \<Rightarrow> (case safe_int_of v of Some i \<Rightarrow> if 0 < i then Some i else None | None \<Rightarrow> None)
      | Str s \<Rightarrow> if positive_decimal s \<and> length s \<le> 40 then Some (int (read_nat s)) else None
      | _ \<Rightarrow> None)"

definition finality_shape :: "jsval \<Rightarrow> (config_reason, evm_finality) result" where
  "finality_shape f =
     (if \<not> is_object f then Inl FinalityNotObject
      else if prop_of f ''mode'' = Str ''tag'' then
        (if prop_of f ''tag'' \<noteq> Str ''finalized'' then Inl TagNotFinalized
         else bind_res (optional (\<lambda>x. or_throw (positive_integer x) FallbackNotPositive) (prop_of f ''fallbackConfirmations''))
           (\<lambda>k. Inr (ByTag ''finalized'' k)))
      else if prop_of f ''mode'' = Str ''confirmations'' then
        bind_res (or_throw (positive_integer (prop_of f ''confirmations'')) ConfirmationsNotPositive) (\<lambda>k. Inr (ByConfirmations k))
      else Inl FinalityModeUnknown)"

definition pin_shape :: "jsval \<Rightarrow> (config_reason, evm_pin) result" where
  "pin_shape pin =
     bind_res (throw_if (\<not> is_object pin) PinNotObject) (\<lambda>_.
     bind_res (or_throw (positive_integer (prop_of pin ''chainId'')) ChainIdNotPositive) (\<lambda>i.
     bind_res (or_throw (filled_text (prop_of pin ''name'')) PinNameEmpty) (\<lambda>name.
     bind_res (or_throw (text_of (prop_of pin ''caip2'')) Caip2NotString) (\<lambda>caip2.
     bind_res (throw_if (caip2 \<noteq> ''eip155:'' @ template_int i) (Caip2Mismatch (quotedPinText (Str caip2)) i)) (\<lambda>_.
     bind_res (finality_shape (prop_of pin ''finality'')) (\<lambda>fin.
       Inr \<lparr>pin_chainId = i, pin_name = name, pin_caip2 = caip2, pin_finality = fin\<rparr>))))))"

definition address_of :: "jsval \<Rightarrow> string option" where
  "address_of v = (case v of Str s \<Rightarrow> if HEX_ADDRESS s then Some s else None | _ \<Rightarrow> None)"

text \<open>The loop over \<open>Object.entries(v.assets)\<close>.\<close>

fun entries_shape :: "(string \<times> jsval) list \<Rightarrow> (config_reason, (string \<times> string) list) result" where
  "entries_shape [] = Inr []"
| "entries_shape ((asset, v) # rest) =
     bind_res (or_throw (address_of v) (AssetNotAddress (plain_asset asset))) (\<lambda>a.
     bind_res (entries_shape rest) (\<lambda>as. Inr ((asset, a) # as)))"

definition entries_of :: "obj \<Rightarrow> (string \<times> jsval) list" where
  "entries_of ob = map (\<lambda>k. (k, field_of ob k)) (own_keys ob)"

definition assets_shape :: "jsval \<Rightarrow> (config_reason, (string \<times> string) list) result" where
  "assets_shape v = (case v of Obj ob \<Rightarrow> entries_shape (entries_of ob) | _ \<Rightarrow> Inl AssetsNotObject)"

definition receipt_timeout_shape :: "jsval \<Rightarrow> (config_reason, int) result" where
  "receipt_timeout_shape v =
     (case positive_integer v of
        Some i \<Rightarrow> if i \<le> MAX_RECEIPT_TIMEOUT_MS then Inr i else Inl ReceiptTimeoutShape
      | None \<Rightarrow> Inl ReceiptTimeoutShape)"

definition code_hash_shape :: "jsval \<Rightarrow> (config_reason, string) result" where
  "code_hash_shape v =
     (case v of Str s \<Rightarrow> if CODE_HASH_SHAPE s then Inr s else Inl CodeHashMalformed | _ \<Rightarrow> Inl CodeHashMalformed)"

definition log_range_shape :: "jsval \<Rightarrow> (config_reason, int) result" where
  "log_range_shape v =
     (case safe_int_of v of
        None \<Rightarrow> Inl MaxLogRangeShape
      | Some i \<Rightarrow> if i \<le> 0 then Inl MaxLogRangeShape
                  else if i < EVM_MIN_LOG_RANGE then Inl (MaxLogRangeTooSmall i) else Inr i)"

definition max_fee_shape :: "jsval \<Rightarrow> (config_reason, jsval) result" where
  "max_fee_shape v = (if maxFeePerGasWeiOf v = None then Inl MaxFeeShape else Inr v)"

text \<open>\<open>evmRailConfigShapeReason\<close>: the reason of the first check that fails, or the
  configuration that was read.\<close>

definition config_shape :: "jsval \<Rightarrow> (config_reason, evm_config) result" where
  "config_shape v =
     bind_res (throw_if (\<not> is_object v) ConfigNotObject) (\<lambda>_.
     bind_res (pin_shape (prop_of v ''pin'')) (\<lambda>pin.
     bind_res (or_throw (filled_text (prop_of v ''endpoint'')) EndpointEmpty) (\<lambda>endpoint.
     bind_res (or_throw (address_of (prop_of v ''contract'')) ContractNotAddress) (\<lambda>contract.
     bind_res (assets_shape (prop_of v ''assets'')) (\<lambda>assets.
     bind_res (optional receipt_timeout_shape (prop_of v ''receiptTimeoutMs'')) (\<lambda>timeout.
     bind_res (optional code_hash_shape (prop_of v ''contractCodeHash'')) (\<lambda>hash.
     bind_res (optional log_range_shape (prop_of v ''maxLogRange'')) (\<lambda>range.
     bind_res (optional max_fee_shape (prop_of v ''maxFeePerGasWei'')) (\<lambda>fee.
       Inr \<lparr>cf_pin = pin, cf_endpoint = endpoint, cf_contract = contract, cf_assets = assets,
            cf_receiptTimeoutMs = timeout, cf_contractCodeHash = hash, cf_maxLogRange = range,
            cf_maxFeePerGasWei = fee\<rparr>)))))))))"

definition evmRailConfigShapeReason :: "jsval \<Rightarrow> config_reason option" where
  "evmRailConfigShapeReason v = (case config_shape v of Inl r \<Rightarrow> Some r | Inr c \<Rightarrow> None)"

section \<open>The rules of the build\<close>

definition validateFinality :: "evm_finality \<Rightarrow> (config_reason, unit) result" where
  "validateFinality f =
     (case f of
        ByConfirmations k \<Rightarrow> throw_if (k \<le> 0) ConfirmationsKnob
      | ByTag t k \<Rightarrow> (case k of None \<Rightarrow> Inr () | Some n \<Rightarrow> throw_if (n \<le> 0) FallbackKnob))"

definition validateBaseSepoliaKnobs :: "evm_config \<Rightarrow> (config_reason, unit) result" where
  "validateBaseSepoliaKnobs c =
     (case pin_finality (cf_pin c) of
        ByConfirmations k \<Rightarrow> Inl BaseConfirmationsMode
      | ByTag t fallback \<Rightarrow>
          bind_res (throw_if (fallback \<noteq> None) BaseFallback) (\<lambda>_.
          bind_res (case cf_receiptTimeoutMs c of
                      None \<Rightarrow> Inr ()
                    | Some i \<Rightarrow> throw_if (i < BASE_SEPOLIA_MIN_RECEIPT_TIMEOUT_MS \<or> BASE_SEPOLIA_MAX_RECEIPT_TIMEOUT_MS < i)
                                  (ReceiptTimeoutRange i)) (\<lambda>_.
          (case Option.bind (cf_maxFeePerGasWei c) maxFeePerGasWeiOf of
             None \<Rightarrow> Inr ()
           | Some cap \<Rightarrow> throw_if (cap < BASE_SEPOLIA_MIN_MAX_FEE_PER_GAS_WEI) (MaxFeeTooLow cap)))))"

fun refuse_usdc :: "viem \<Rightarrow> (string \<times> string) list \<Rightarrow> (config_reason, unit) result" where
  "refuse_usdc V [] = Inr ()"
| "refuse_usdc V ((asset, address) # rest) =
     (case vi_isAddressEqual V address BASE_MAINNET_USDC of
        Inl m \<Rightarrow> Inl (AddressThrow m)
      | Inr b \<Rightarrow> if b then Inl (AssetIsMainnetUsdc (plain_asset asset)) else refuse_usdc V rest)"

definition validateEvmRailConfig :: "viem \<Rightarrow> evm_config \<Rightarrow> (config_reason, unit) result" where
  "validateEvmRailConfig V c =
     (let pin = cf_pin c; i = pin_chainId pin in
      bind_res (throw_if (i \<notin> ALLOWED_CHAIN_IDS) (ChainIdNotAllowed i)) (\<lambda>_.
      bind_res (case CANONICAL_PIN_NAMES i of
                  None \<Rightarrow> Inr ()
                | Some name \<Rightarrow>
                    throw_if (pin_name pin \<noteq> name) (PinNameNotCanonical i name (quotedPinText (Str (pin_name pin))))) (\<lambda>_.
      bind_res (throw_if (i = BASE_SEPOLIA_CHAIN_ID \<and> cf_contractCodeHash c = None) CodeHashRequired) (\<lambda>_.
      bind_res (refuse_usdc V (cf_assets c)) (\<lambda>_.
      bind_res (validateFinality (pin_finality pin)) (\<lambda>_.
      if i = BASE_SEPOLIA_CHAIN_ID then validateBaseSepoliaKnobs c else Inr ()))))))"

definition checkEvmRailConfig :: "viem \<Rightarrow> jsval \<Rightarrow> (config_reason, evm_config) result" where
  "checkEvmRailConfig V v =
     bind_res (config_shape v) (\<lambda>c. bind_res (validateEvmRailConfig V c) (\<lambda>_. Inr c))"

section \<open>The limits in force\<close>

text \<open>A configured ceiling that is not a positive integer throws, \<open>None\<close> here.\<close>

definition effectiveMaxFeePerGasWei :: "evm_config \<Rightarrow> int option" where
  "effectiveMaxFeePerGasWei c =
     (case cf_maxFeePerGasWei c of
        None \<Rightarrow> Some (if pin_chainId (cf_pin c) = BASE_SEPOLIA_CHAIN_ID
                      then BASE_SEPOLIA_DEFAULT_MAX_FEE_PER_GAS_WEI else EVM_DEFAULT_MAX_FEE_PER_GAS_WEI)
      | Some v \<Rightarrow> maxFeePerGasWeiOf v)"

definition effectiveMaxLogRange :: "evm_config \<Rightarrow> int option" where
  "effectiveMaxLogRange c =
     (case cf_maxLogRange c of
        Some i \<Rightarrow> Some i
      | None \<Rightarrow> if pin_chainId (cf_pin c) = BASE_SEPOLIA_CHAIN_ID then Some BASE_SEPOLIA_MAX_LOG_RANGE else None)"

definition evmLogScanCoverage :: "evm_config \<Rightarrow> rat option" where
  "evmLogScanCoverage c = map_option (\<lambda>l. js_mul (of_int l) (of_nat MAX_LOG_SCAN_CHUNKS)) (effectiveMaxLogRange c)"


section \<open>What a checked configuration is\<close>

lemma positive_integer_Some: "positive_integer v = Some i \<Longrightarrow> 0 < i"
  by (auto simp: positive_integer_def split: jsval.splits option.splits if_splits)

lemma optional_Inr: "optional f v = Inr (Some x) \<Longrightarrow> f v = Inr x"
  by (auto simp: optional_def result_simps split: if_splits)

definition finality_ok :: "evm_finality \<Rightarrow> bool" where
  "finality_ok f \<longleftrightarrow>
     (case f of ByTag t k \<Rightarrow> t = ''finalized'' \<and> (\<forall>n. k = Some n \<longrightarrow> 0 < n) | ByConfirmations n \<Rightarrow> 0 < n)"

lemma finality_shape_ok: "finality_shape v = Inr f \<Longrightarrow> finality_ok f"
  unfolding finality_shape_def
  by (auto simp: result_simps finality_ok_def dest!: optional_Inr positive_integer_Some split: if_splits)

lemma entries_shape_addresses: "entries_shape es = Inr as \<Longrightarrow> (k, a) \<in> set as \<Longrightarrow> HEX_ADDRESS a"
  by (induction es arbitrary: as rule: entries_shape.induct)
    (auto simp: result_simps address_of_def split: jsval.splits if_splits)

lemma pin_shape_Inr:
  "pin_shape v = Inr p \<Longrightarrow> 0 < pin_chainId p \<and> pin_caip2 p = ''eip155:'' @ template_int (pin_chainId p) \<and> finality_ok (pin_finality p)"
  unfolding pin_shape_def by (auto simp: result_simps dest: positive_integer_Some finality_shape_ok)

definition limits_ok :: "evm_config \<Rightarrow> bool" where
  "limits_ok c \<longleftrightarrow>
     (\<forall>i. cf_receiptTimeoutMs c = Some i \<longrightarrow> 0 < i \<and> i \<le> MAX_RECEIPT_TIMEOUT_MS)
     \<and> (\<forall>s. cf_contractCodeHash c = Some s \<longrightarrow> CODE_HASH_SHAPE s)
     \<and> (\<forall>i. cf_maxLogRange c = Some i \<longrightarrow> EVM_MIN_LOG_RANGE \<le> i \<and> i \<le> max_safe)
     \<and> (\<forall>v. cf_maxFeePerGasWei c = Some v \<longrightarrow> maxFeePerGasWeiOf v \<noteq> None)"

lemma receipt_timeout_ok: "receipt_timeout_shape v = Inr i \<Longrightarrow> 0 < i \<and> i \<le> MAX_RECEIPT_TIMEOUT_MS"
  by (auto simp: receipt_timeout_shape_def dest: positive_integer_Some split: option.splits if_splits)

lemma code_hash_ok: "code_hash_shape v = Inr s \<Longrightarrow> CODE_HASH_SHAPE s"
  by (auto simp: code_hash_shape_def split: jsval.splits if_splits)

lemma log_range_ok: "log_range_shape v = Inr i \<Longrightarrow> EVM_MIN_LOG_RANGE \<le> i \<and> i \<le> max_safe"
  using safe_int_of_range [of v i] by (auto simp: log_range_shape_def split: option.splits if_splits)

lemma max_fee_ok: "max_fee_shape v = Inr x \<Longrightarrow> maxFeePerGasWeiOf x \<noteq> None"
  by (auto simp: max_fee_shape_def split: if_splits)

lemma config_shape_Inr:
  assumes "config_shape v = Inr c"
  shows "pin_shape (prop_of v ''pin'') = Inr (cf_pin c)" "HEX_ADDRESS (cf_contract c)"
    "(k, a) \<in> set (cf_assets c) \<Longrightarrow> HEX_ADDRESS a" "limits_ok c" "cf_endpoint c \<noteq> []"
proof -
  obtain pin endpoint contract assets timeout hash range fee where
    k: "pin_shape (prop_of v ''pin'') = Inr pin" "filled_text (prop_of v ''endpoint'') = Some endpoint"
      "address_of (prop_of v ''contract'') = Some contract" "assets_shape (prop_of v ''assets'') = Inr assets"
    and o: "optional receipt_timeout_shape (prop_of v ''receiptTimeoutMs'') = Inr timeout"
      "optional code_hash_shape (prop_of v ''contractCodeHash'') = Inr hash"
      "optional log_range_shape (prop_of v ''maxLogRange'') = Inr range"
      "optional max_fee_shape (prop_of v ''maxFeePerGasWei'') = Inr fee"
    and c: "c = \<lparr>cf_pin = pin, cf_endpoint = endpoint, cf_contract = contract, cf_assets = assets,
            cf_receiptTimeoutMs = timeout, cf_contractCodeHash = hash, cf_maxLogRange = range, cf_maxFeePerGasWei = fee\<rparr>"
    using assms unfolding config_shape_def by (auto simp: result_simps)
  show "pin_shape (prop_of v ''pin'') = Inr (cf_pin c)" using k(1) c by simp
  show "HEX_ADDRESS (cf_contract c)" using k(3) c by (auto simp: address_of_def split: jsval.splits if_splits)
  show "cf_endpoint c \<noteq> []" using k(2) c by (auto simp: filled_text_def split: jsval.splits if_splits)
  show "HEX_ADDRESS a" if "(k, a) \<in> set (cf_assets c)"
    using k(4) c that entries_shape_addresses by (auto simp: assets_shape_def split: jsval.splits)
  show "limits_ok c"
    using o c unfolding limits_ok_def
    by (auto dest!: optional_Inr dest: receipt_timeout_ok code_hash_ok log_range_ok max_fee_ok)
qed

lemma refuse_usdc_Inr:
  "refuse_usdc V as = Inr u \<Longrightarrow> (k, a) \<in> set as \<Longrightarrow> vi_isAddressEqual V a BASE_MAINNET_USDC = Inr False"
  by (induction as rule: refuse_usdc.induct) (auto split: sum.splits if_splits)

text \<open>The rules of Base Sepolia.\<close>

definition base_sepolia_ok :: "evm_config \<Rightarrow> bool" where
  "base_sepolia_ok c \<longleftrightarrow>
     pin_finality (cf_pin c) = ByTag ''finalized'' None \<and> cf_contractCodeHash c \<noteq> None
     \<and> (\<forall>i. cf_receiptTimeoutMs c = Some i \<longrightarrow>
          BASE_SEPOLIA_MIN_RECEIPT_TIMEOUT_MS \<le> i \<and> i \<le> BASE_SEPOLIA_MAX_RECEIPT_TIMEOUT_MS)
     \<and> (\<forall>f. effectiveMaxFeePerGasWei c = Some f \<longrightarrow> BASE_SEPOLIA_MIN_MAX_FEE_PER_GAS_WEI \<le> f)
     \<and> (\<exists>r. effectiveMaxLogRange c = Some r \<and> EVM_MIN_LOG_RANGE \<le> r)"

lemma validate_Inr:
  assumes "validateEvmRailConfig V c = Inr u"
  shows "pin_chainId (cf_pin c) \<in> ALLOWED_CHAIN_IDS"
    "CANONICAL_PIN_NAMES (pin_chainId (cf_pin c)) = Some n \<Longrightarrow> pin_name (cf_pin c) = n"
    "pin_chainId (cf_pin c) = BASE_SEPOLIA_CHAIN_ID \<Longrightarrow> cf_contractCodeHash c \<noteq> None"
    "refuse_usdc V (cf_assets c) = Inr ()"
    "pin_chainId (cf_pin c) = BASE_SEPOLIA_CHAIN_ID \<Longrightarrow> validateBaseSepoliaKnobs c = Inr u"
  using assms unfolding validateEvmRailConfig_def Let_def
  by (auto simp: result_simps split: option.splits)

lemma knobs_ok:
  assumes "validateBaseSepoliaKnobs c = Inr u" "limits_ok c" "finality_ok (pin_finality (cf_pin c))"
    "pin_chainId (cf_pin c) = BASE_SEPOLIA_CHAIN_ID" "cf_contractCodeHash c \<noteq> None"
  shows "base_sepolia_ok c"
proof -
  obtain t fallback where f: "pin_finality (cf_pin c) = ByTag t fallback"
    using assms(1) by (cases "pin_finality (cf_pin c)") (auto simp: validateBaseSepoliaKnobs_def)
  have k: "fallback = None"
    "\<And>i. cf_receiptTimeoutMs c = Some i \<Longrightarrow> BASE_SEPOLIA_MIN_RECEIPT_TIMEOUT_MS \<le> i \<and> i \<le> BASE_SEPOLIA_MAX_RECEIPT_TIMEOUT_MS"
    "\<And>v x. cf_maxFeePerGasWei c = Some v \<Longrightarrow> maxFeePerGasWeiOf v = Some x \<Longrightarrow> BASE_SEPOLIA_MIN_MAX_FEE_PER_GAS_WEI \<le> x"
    using assms(1) f by (auto simp: validateBaseSepoliaKnobs_def result_simps split: option.splits)
  moreover have "t = ''finalized''" using assms(3) f by (simp add: finality_ok_def)
  moreover have "\<exists>r. effectiveMaxLogRange c = Some r \<and> EVM_MIN_LOG_RANGE \<le> r"
    using assms(2,4) by (auto simp: effectiveMaxLogRange_def limits_ok_def BASE_SEPOLIA_MAX_LOG_RANGE_def EVM_MIN_LOG_RANGE_def split: option.splits)
  moreover have "BASE_SEPOLIA_MIN_MAX_FEE_PER_GAS_WEI \<le> x" if "effectiveMaxFeePerGasWei c = Some x" for x
    using that k(3) assms(4)
    by (auto simp: effectiveMaxFeePerGasWei_def BASE_SEPOLIA_MIN_MAX_FEE_PER_GAS_WEI_def
        BASE_SEPOLIA_DEFAULT_MAX_FEE_PER_GAS_WEI_def split: option.splits)
  ultimately show ?thesis using f assms(5) by (simp add: base_sepolia_ok_def)
qed

lemma checkEvmRailConfig_Inr:
  "checkEvmRailConfig V v = Inr c \<Longrightarrow> config_shape v = Inr c \<and> validateEvmRailConfig V c = Inr ()"
  by (auto simp: checkEvmRailConfig_def result_simps)

lemma maxFee_positive: "maxFeePerGasWeiOf v = Some x \<Longrightarrow> 0 < x"
  using positive_decimal_read by (auto simp: maxFeePerGasWeiOf_def split: jsval.splits option.splits if_splits)

section \<open>Concrete values, for the witnesses\<close>

definition demo_address :: "char \<Rightarrow> string" where
  "demo_address c = ''0x'' @ replicate 40 c"

definition demo_hash_text :: "char \<Rightarrow> string" where
  "demo_hash_text c = ''0x'' @ replicate 64 c"

definition hex_value_of :: "string \<Rightarrow> int" where
  "hex_value_of s = foldl (\<lambda>n c. 16 * n + (case hex_digit c of None \<Rightarrow> 0 | Some d \<Rightarrow> int d)) 0 (drop 2 s)"

definition demo_row :: locks_row where
  "demo_row =
     \<lparr>lk_payer = demo_address (CHR ''b''), lk_payee = demo_address (CHR ''c''), lk_token = demo_address (CHR ''d''),
      lk_amount = 5, lk_claimByMs = 2000, lk_refundAfterMs = 3000, lk_status = 1\<rparr>"

definition demo_viem :: viem where
  "demo_viem =
     \<lparr>vi_isAddress = HEX_ADDRESS,
      vi_isAddressEqual = (\<lambda>a b. if HEX_ADDRESS a \<and> HEX_ADDRESS b then Inr (toLowerCase a = toLowerCase b)
                                  else Inl ''Address is invalid.''),
      vi_hexToNumber = (\<lambda>s. Some (int_jsnum (hex_value_of s))),
      vi_numberToHex = (\<lambda>n. Inr ''0x1''),
      vi_locksCalldata = (\<lambda>h. ''0x2b'' @ drop 2 h),
      vi_decodeLocks = (\<lambda>v. case v of
          Str s \<Rightarrow> if s = ''0x01'' then Some demo_row else if s = ''0x02'' then Some (demo_row\<lparr>lk_status := 2\<rparr>) else None
        | _ \<Rightarrow> None),
      vi_keccak256 = (\<lambda>s. demo_hash_text (CHR ''e''))\<rparr>"

lemma demo_viem_addresses: "viem_addresses_ok demo_viem"
  by (simp add: viem_addresses_ok_def demo_viem_def)

definition base_sepolia_value :: jsval where
  "base_sepolia_value =
     Obj [(''pin'', Obj [(''chainId'', int_jsval 84532), (''name'', Str ''base-sepolia''), (''caip2'', Str ''eip155:84532''),
            (''finality'', Obj [(''mode'', Str ''tag''), (''tag'', Str ''finalized'')])]),
          (''endpoint'', Str ''https://rpc''), (''contract'', Str (demo_address (CHR ''a''))),
          (''assets'', Obj [(''USDC'', Str (demo_address (CHR ''d'')))]),
          (''contractCodeHash'', Str (demo_hash_text (CHR ''E'')))]"

definition base_sepolia_config :: evm_config where
  "base_sepolia_config =
     \<lparr>cf_pin = BASE_SEPOLIA_PIN, cf_endpoint = ''https://rpc'', cf_contract = demo_address (CHR ''a''),
      cf_assets = [(''USDC'', demo_address (CHR ''d''))], cf_receiptTimeoutMs = None,
      cf_contractCodeHash = Some (demo_hash_text (CHR ''E'')), cf_maxLogRange = None, cf_maxFeePerGasWei = None\<rparr>"

lemma template_int_safe: "\<bar>i\<bar> \<le> max_safe \<Longrightarrow> template_int i = show_int i"
  unfolding template_int_def by (rule number_text_safe(1)) (simp flip: int_jsval_def)

lemma demo_shapes:
  "HEX_ADDRESS (demo_address (CHR ''a''))" "HEX_ADDRESS (demo_address (CHR ''b''))" "HEX_ADDRESS (demo_address (CHR ''c''))"
  "HEX_ADDRESS (demo_address (CHR ''d''))" "HEX_ADDRESS BASE_MAINNET_USDC" "CODE_HASH_SHAPE (demo_hash_text (CHR ''E''))"
  "array_index ''USDC'' = False" "toLowerCase (demo_address (CHR ''d'')) \<noteq> toLowerCase BASE_MAINNET_USDC"
  by code_simp+

lemma demo_chain_text: "show_int 84532 = ''84532''"
  by (simp add: show_int_def show_nat.simps [of 84532] show_nat.simps [of 8453] show_nat.simps [of 845] show_nat.simps [of 84]
      show_nat.simps [of 8] digit_char_def digits_def)

lemma demo_template: "template_int 84532 = ''84532''"
  using demo_chain_text by (simp add: template_int_safe max_safe_def)

lemma positive_integer_int [simp]: "positive_integer (int_jsval i) = (if 0 < i then Some i else None)"
  by (simp add: positive_integer_def int_jsval_def)

lemma base_sepolia_checks: "checkEvmRailConfig demo_viem base_sepolia_value = Inr base_sepolia_config"
proof -
  have "pin_shape (prop_of base_sepolia_value ''pin'') = Inr BASE_SEPOLIA_PIN"
    using demo_template
    by (simp add: base_sepolia_value_def prop_of_def field_of_def pin_shape_def is_object_def filled_text_def text_of_def
        finality_shape_def optional_def BASE_SEPOLIA_PIN_def)
  then have "config_shape base_sepolia_value = Inr base_sepolia_config"
    using demo_shapes
    by (simp add: base_sepolia_value_def prop_of_def field_of_def config_shape_def is_object_def filled_text_def address_of_def
        assets_shape_def entries_of_def own_keys_def optional_def code_hash_shape_def base_sepolia_config_def)
  moreover have "validateEvmRailConfig demo_viem base_sepolia_config = Inr ()"
    using demo_shapes
    by (simp add: validateEvmRailConfig_def base_sepolia_config_def BASE_SEPOLIA_PIN_def ALLOWED_CHAIN_IDS_def
        CANONICAL_PIN_NAMES_def BASE_SEPOLIA_CHAIN_ID_def demo_viem_def validateFinality_def validateBaseSepoliaKnobs_def)
  ultimately show ?thesis by (simp add: checkEvmRailConfig_def)
qed

text \<open>C19. A configuration the EVM rail accepts from an untrusted file names one of the two test chains
  under its own name and CAIP-2 id, holds addresses only, never Base mainnet's USDC in any spelling, has
  positive limits and a fee ceiling in force, and on Base Sepolia carries the code pin, takes only the
  chain's own finalized block as final, and keeps every knob inside its range.\<close>

theorem checked_config_is_safe:
  assumes "viem_addresses_ok V" "checkEvmRailConfig V v = Inr c"
  shows "(pin_chainId (cf_pin c) = 31337 \<and> pin_name (cf_pin c) = ''anvil-local''
      \<or> pin_chainId (cf_pin c) = 84532 \<and> pin_name (cf_pin c) = ''base-sepolia'' \<and> base_sepolia_ok c)
    \<and> pin_caip2 (cf_pin c) = ''eip155:'' @ template_int (pin_chainId (cf_pin c))
    \<and> HEX_ADDRESS (cf_contract c) \<and> finality_ok (pin_finality (cf_pin c)) \<and> limits_ok c
    \<and> (\<forall>(k, a) \<in> set (cf_assets c). HEX_ADDRESS a \<and> toLowerCase a \<noteq> toLowerCase BASE_MAINNET_USDC)
    \<and> (\<exists>f. effectiveMaxFeePerGasWei c = Some f \<and> 0 < f)"
proof -
  have k: "config_shape v = Inr c" "validateEvmRailConfig V c = Inr ()"
    using checkEvmRailConfig_Inr [OF assms(2)] by auto
  note shape = config_shape_Inr [OF k(1)] and rules = validate_Inr [OF k(2)]
  have pin: "pin_caip2 (cf_pin c) = ''eip155:'' @ template_int (pin_chainId (cf_pin c))" "finality_ok (pin_finality (cf_pin c))"
    using pin_shape_Inr [OF shape(1)] by auto
  have chain: "pin_chainId (cf_pin c) = 31337 \<and> pin_name (cf_pin c) = ''anvil-local''
      \<or> pin_chainId (cf_pin c) = 84532 \<and> pin_name (cf_pin c) = ''base-sepolia'' \<and> base_sepolia_ok c"
    using rules(1,2,3,5) knobs_ok [OF _ shape(4) pin(2)]
    by (auto simp: ALLOWED_CHAIN_IDS_def CANONICAL_PIN_NAMES_def BASE_SEPOLIA_CHAIN_ID_def)
  have usdc: "HEX_ADDRESS BASE_MAINNET_USDC" by code_simp
  have "HEX_ADDRESS a \<and> toLowerCase a \<noteq> toLowerCase BASE_MAINNET_USDC" if m: "(k, a) \<in> set (cf_assets c)" for k a
    using shape(3) [OF m] refuse_usdc_Inr [OF rules(4) m] viem_addresses_okD(2) [OF assms(1) _ usdc, of a] by simp
  moreover have "\<exists>f. effectiveMaxFeePerGasWei c = Some f \<and> 0 < f"
    using shape(4) maxFee_positive
    by (auto simp: effectiveMaxFeePerGasWei_def limits_ok_def BASE_SEPOLIA_DEFAULT_MAX_FEE_PER_GAS_WEI_def
        EVM_DEFAULT_MAX_FEE_PER_GAS_WEI_def split: option.splits)
  ultimately show ?thesis using chain pin shape(2,4) by auto
qed


theorem checked_config_is_safe_witness:
  "base_sepolia_ok base_sepolia_config \<and> HEX_ADDRESS (cf_contract base_sepolia_config)"
  using checked_config_is_safe [OF demo_viem_addresses base_sepolia_checks]
  by (auto simp: base_sepolia_config_def BASE_SEPOLIA_PIN_def)

end
