(* ===== verification/Evm_Evidence.thy ===== *)
theory Evm_Evidence
  imports Evm_Config Desk_Types
begin

text \<open>
  \<open>src/rails/evm-code-pin.ts\<close> and \<open>src/rails/evm-evidence.ts\<close>: the judgement of a
  contract's code and the pure reader that turns one captured read of \<open>locks(hashLock)\<close> into
  the evidence of a leg. The index and the bytes of a capture are untrusted. A reason is a
  constructor of \<open>evm_reason\<close>, and \<open>evm_text\<close> is its text.
\<close>

section \<open>Runtime code\<close>

text \<open>\<open>HEX_BYTES\<close>: \<open>0x\<close> and whole bytes of hex.\<close>

definition HEX_BYTES :: "string \<Rightarrow> bool" where
  "HEX_BYTES s \<longleftrightarrow> take 2 s = ''0x'' \<and> even (length s) \<and> only any_hex (drop 2 s)"

datatype code_problem = CodeMalformed | CodeEmpty | CodeMismatch string nat

definition judgeRuntimeCode :: "viem \<Rightarrow> jsval \<Rightarrow> string \<Rightarrow> (code_problem, string \<times> nat) result" where
  "judgeRuntimeCode V answer pinned =
     (case answer of
        Str s \<Rightarrow>
          if \<not> HEX_BYTES s then Inl CodeMalformed
          else if length s = 2 then Inl CodeEmpty
          else (let seen = vi_keccak256 V s; bytes = (length s - 2) div 2
                in if toLowerCase seen \<noteq> toLowerCase pinned then Inl (CodeMismatch seen bytes)
                   else Inr (seen, bytes))
      | _ \<Rightarrow> Inl CodeMalformed)"

definition shortPinnedHash :: "string \<Rightarrow> string" where
  "shortPinnedHash pinned = take 10 (toLowerCase pinned) @ ''...''"

primrec describeCodeProblem :: "code_problem \<Rightarrow> string \<Rightarrow> string \<Rightarrow> string" where
  "describeCodeProblem CodeEmpty contract pinned =
     ''no code at '' @ contract @ '' (eth_getCode returned 0x), so it cannot be the pinned contractCodeHash '' @ shortPinnedHash pinned"
| "describeCodeProblem CodeMalformed contract pinned =
     ''eth_getCode for '' @ contract @ '' did not return hex bytes, so the pinned contractCodeHash '' @ shortPinnedHash pinned @ '' cannot be checked''"
| "describeCodeProblem (CodeMismatch seen bytes) contract pinned =
     ''the '' @ show_nat bytes @ '' bytes of code at '' @ contract @ '' hash to '' @ toLowerCase seen
     @ '', not the pinned contractCodeHash '' @ shortPinnedHash pinned"

section \<open>Captures\<close>

definition EVM_RAIL_ID :: string where
  "EVM_RAIL_ID = ''evm-htlc''"

text \<open>\<open>HASH_LOCK_SHAPE\<close> is \<open>hex32\<close>; \<open>BLOCK_HASH_SHAPE\<close> allows both cases.\<close>

definition BLOCK_HASH_SHAPE :: "string \<Rightarrow> bool" where
  "BLOCK_HASH_SHAPE s \<longleftrightarrow> length s = 66 \<and> take 2 s = ''0x'' \<and> only any_hex (drop 2 s)"

definition HEX_VALUE :: "string \<Rightarrow> bool" where
  "HEX_VALUE s \<longleftrightarrow> take 2 s = ''0x'' \<and> drop 2 s \<noteq> [] \<and> only any_hex (drop 2 s)"

definition hashLockRefMismatch :: "lock_terms \<Rightarrow> string \<Rightarrow> bool" where
  "hashLockRefMismatch terms ref \<longleftrightarrow> lt_lock terms \<noteq> ''hash'' \<or> \<not> hex32 ref \<or> ref \<noteq> lt_statement terms"

definition isValidAddressShape :: "viem \<Rightarrow> jsval \<Rightarrow> bool" where
  "isValidAddressShape V v \<longleftrightarrow> (case v of Str s \<Rightarrow> vi_isAddress V s | _ \<Rightarrow> False)"

record index_exchange =
  ix_method :: string
  ix_params :: jsval
  ix_requestBody :: string
  ix_responseSha256 :: string
  ix_atMs :: int

text \<open>\<open>EvmCaptureIndex\<close>. The contract and the configuration are read as untyped values, as
  the reader does.\<close>

record capture_index =
  ci_chainId :: jsnum
  ci_caip2 :: string
  ci_pin :: string
  ci_endpoint :: string
  ci_contract :: jsval
  ci_hashLock :: string
  ci_checkedAtMs :: int
  ci_finality :: evm_finality
  ci_config :: jsval
  ci_nonce :: string
  ci_error :: "string option"
  ci_exchanges :: "index_exchange list"

text \<open>A missing entry of the map and an entry \<open>null\<close> are both \<open>None\<close>.\<close>

record evm_capture =
  cp_index :: capture_index
  cp_bytes :: "string \<Rightarrow> bytes option"

record evm_accounts =
  ea_payee :: "string option"
  ea_payer :: "string option"

section \<open>Reasons\<close>

datatype exchange_label = ChainIdCall | BlockNumberCall | NumberedBlockCall | TagCall string | GetCodeCall | LocksCall

datatype binding_fault =
    NoExchange | MalformedRequest | RequestDiffers | NoBytes | Undecodable | Unparseable | NotAnObject
  | ResponseIdDiffers | IdNotBound

datatype call_fault = CallShape | CallObject | CallTarget | CallData | CallSelector | CallBlock

datatype mismatch_field = MPayee | MToken | MAmount | MClaimBy | MRefundAfter | MPayer

datatype evm_reason =
    ReadIncomplete string
  | RefLockMismatch
  | CapturedConfigInvalid config_reason
  | CapturedAssetMissing string
  | OtherConfig
  | FinalityWeaker
  | NotBound exchange_label binding_fault
  | Rejected exchange_label
  | ChainIdMalformed
  | ChainIdDiffers jsnum string int
  | IndexContractMalformed
  | IndexContractDiffers
  | CodePinMissing
  | CodeRequestTampered
  | CodeUnpinned code_problem string string
  | BlockNumberMalformed
  | NumberedBlockTampered
  | TagRequestTampered string
  | BlockWithoutHash
  | TagUnsupported
  | CallTampered call_fault
  | LocksMalformed
  | StatusUnknown
  | NoLock
  | SettledNoPayee string
  | SettledNoPayer string
  | AssetUnconfigured string
  | SettledMismatch string mismatch_field
  | SettledAlready string
  | LockedNoPayee
  | LockedNoPayer
  | Mismatch mismatch_field
  | LockedMatches

primrec label_text :: "exchange_label \<Rightarrow> string" where
  "label_text ChainIdCall = ''eth_chainId''"
| "label_text BlockNumberCall = ''eth_blockNumber''"
| "label_text NumberedBlockCall = ''eth_getBlockByNumber(confirmations)''"
| "label_text (TagCall t) = ''eth_getBlockByNumber('' @ t @ '')''"
| "label_text GetCodeCall = ''eth_getCode''"
| "label_text LocksCall = ''eth_call''"

primrec fault_text :: "exchange_label \<Rightarrow> binding_fault \<Rightarrow> string" where
  "fault_text l NoExchange = ''no '' @ label_text l @ '' exchange''"
| "fault_text l MalformedRequest = label_text l @ '' (malformed request)''"
| "fault_text l RequestDiffers = label_text l @ '' (request does not match its own recorded method/params)''"
| "fault_text l NoBytes = label_text l"
| "fault_text l Undecodable = label_text l @ '' (undecodable)''"
| "fault_text l Unparseable = label_text l @ '' (unparseable)''"
| "fault_text l NotAnObject = label_text l @ '' (not a JSON-RPC object)''"
| "fault_text l ResponseIdDiffers = label_text l @ '' (response id does not match its request)''"
| "fault_text l IdNotBound = label_text l @ '' (id is not bound to this capture's hashLock/checkedAtMs)''"

primrec rejected_text :: "exchange_label \<Rightarrow> string" where
  "rejected_text ChainIdCall = ''eth_chainId''"
| "rejected_text BlockNumberCall = ''eth_blockNumber''"
| "rejected_text NumberedBlockCall = ''eth_getBlockByNumber''"
| "rejected_text (TagCall t) = ''eth_getBlockByNumber''"
| "rejected_text GetCodeCall = ''eth_getCode''"
| "rejected_text LocksCall = ''eth_call locks(hashLock)''"

primrec call_text :: "call_fault \<Rightarrow> string" where
  "call_text CallShape = ''is not shaped like a locks() read (tampered)''"
| "call_text CallObject = ''has no call object (tampered)''"
| "call_text CallTarget = ''does not target this deployment's contract (tampered)''"
| "call_text CallData = ''does not encode locks(hashLock) for this lock (tampered)''"
| "call_text CallSelector = ''has no block selector (tampered)''"
| "call_text CallBlock = ''is not pinned to the finalized block (tampered block selector)''"

primrec mismatch_text :: "mismatch_field \<Rightarrow> string" where
  "mismatch_text MPayee = ''evm-htlc: on-chain payee differs from the payee account line''"
| "mismatch_text MToken = ''evm-htlc: on-chain token differs from the configured asset''"
| "mismatch_text MAmount = ''evm-htlc: on-chain amount differs from terms''"
| "mismatch_text MClaimBy = ''evm-htlc: on-chain claimByMs differs from terms''"
| "mismatch_text MRefundAfter = ''evm-htlc: on-chain refundAfterMs differs from terms''"
| "mismatch_text MPayer = ''evm-htlc: on-chain payer differs from the payer account line''"

definition settled_text :: "string \<Rightarrow> string" where
  "settled_text label = ''evm-htlc: locks(hashLock) is '' @ label @ '' on-chain, not locked''"

text \<open>The dash of one message is a character beyond 8 bits; it is printed as two hyphens here.\<close>

primrec evm_text :: "evm_reason \<Rightarrow> string" where
  "evm_text (ReadIncomplete e) = ''evm-htlc: chain read did not complete: '' @ e"
| "evm_text RefLockMismatch =
     ''evm-htlc: ref/lock mismatch (ref must equal terms.statement and lock must be '' @ [quote] @ ''hash'' @ [quote] @ '')''"
| "evm_text (CapturedConfigInvalid r) = ''evm-htlc: capture's own config is invalid (A4/D3): '' @ config_text r"
| "evm_text (CapturedAssetMissing a) =
     ''evm-htlc: capture's own config has no token address for asset '' @ [quote] @ a @ [quote] @ '' (D3)''"
| "evm_text OtherConfig = ''evm-htlc: capture was taken under a different rail config''"
| "evm_text FinalityWeaker = ''evm-htlc: capture's own finality is weaker than the auditor's configured finality (D3)''"
| "evm_text (NotBound l f) = ''missing/tampered capture: '' @ fault_text l f"
| "evm_text (Rejected l) = ''rpc rejected '' @ rejected_text l"
| "evm_text ChainIdMalformed = ''evm-htlc: malformed eth_chainId result (not hex)''"
| "evm_text (ChainIdDiffers n name i) =
     ''captured chain id '' @ number_text n @ '' does not match pin '' @ [quote] @ name @ [quote] @ '' (expected '' @ template_int i @ '')''"
| "evm_text IndexContractMalformed = ''evm-htlc: capture index contract is not a valid address''"
| "evm_text IndexContractDiffers = ''capture index contract does not match config.contract''"
| "evm_text CodePinMissing =
     ''evm-htlc: capture was taken without the auditor's contractCodeHash pin (its own config carries none or another)''"
| "evm_text CodeRequestTampered = ''evm-htlc: eth_getCode request does not read this deployment's contract at latest (tampered)''"
| "evm_text (CodeUnpinned p contract pinned) = ''evm-htlc: '' @ describeCodeProblem p contract pinned"
| "evm_text BlockNumberMalformed = ''evm-htlc: malformed eth_blockNumber result (not hex)''"
| "evm_text NumberedBlockTampered =
     ''evm-htlc: the numbered block read does not target latest - confirmations (tampered block selector)''"
| "evm_text (TagRequestTampered t) =
     ''evm-htlc: the finalized-tag read does not request ['' @ [quote] @ t @ [quote] @ '', false] (tampered block selector)''"
| "evm_text BlockWithoutHash = ''finalized block has no hash''"
| "evm_text TagUnsupported = ''rpc lacks the finalized tag and no fallbackConfirmations is configured''"
| "evm_text (CallTampered f) = ''evm-htlc: eth_call request '' @ call_text f"
| "evm_text LocksMalformed = ''malformed locks() result''"
| "evm_text StatusUnknown = ''malformed locks() result (unknown status)''"
| "evm_text NoLock = ''no lock at the finalized view''"
| "evm_text (SettledNoPayee label) = settled_text label @ '' (payee has no account line to confirm it)''"
| "evm_text (SettledNoPayer label) = settled_text label @ '' (payer has no proven account line, P7)''"
| "evm_text (AssetUnconfigured a) = ''asset '' @ [quote] @ a @ [quote] @ '' has no configured token address''"
| "evm_text (SettledMismatch label m) =
     ''evm-htlc: locks(hashLock) reports '' @ label @ '', but its other fields do not match this swap's terms/accounts (''
     @ mismatch_text m @ '') -- refusing to trust it as this swap's own lock''"
| "evm_text (SettledAlready label) = settled_text label"
| "evm_text LockedNoPayee = ''payee has no account line''"
| "evm_text LockedNoPayer = ''evm-htlc: payer has no proven account line (P7)''"
| "evm_text (Mismatch m) = mismatch_text m"
| "evm_text LockedMatches = ''evm-htlc: locked and on-chain state matches terms''"

end
