(* ===== verification/Json_Stringify.thy ===== *)
theory Json_Stringify
  imports Flow_Reader
begin

text \<open>
  \<open>JSON.stringify\<close> of a whole value, with the keys of an object in the order of the
  language: the array indices first, ascending, then the others as they were inserted.
  \<open>stringify Undefined\<close> is \<open>None\<close> as the language answers \<open>undefined\<close>. It is a
  second \<open>json_printer\<close>: what it prints, the parser reads back.
\<close>

definition key_order :: "(string \<times> 'a) list \<Rightarrow> (string \<times> 'a) list" where
  "key_order kvs =
     sort_key (\<lambda>kv. read_nat (fst kv)) (List.filter (\<lambda>kv. array_index (fst kv)) kvs)
     @ List.filter (\<lambda>kv. \<not> array_index (fst kv)) kvs"

definition member_of :: "string \<times> string option \<Rightarrow> string option" where
  "member_of m = (case m of (k, t) \<Rightarrow> map_option (\<lambda>x. string_text k @ CHR '':'' # x) t)"

definition braced :: "(string \<times> string option) list \<Rightarrow> string" where
  "braced ms = CHR ''{'' # join_with (CHR '','') (List.map_filter member_of (key_order ms)) @ [CHR ''}'']"

definition item_text :: "string option \<Rightarrow> string" where
  "item_text t = (case t of Some x \<Rightarrow> x | None \<Rightarrow> ''null'')"

function stringify :: "jsval \<Rightarrow> string option" where
  "stringify Undefined = None"
| "stringify Null = Some ''null''"
| "stringify (Bool b) = Some (if b then ''true'' else ''false'')"
| "stringify (Num x) = Some (number_text x)"
| "stringify (Str s) = Some (string_text s)"
| "stringify (Arr xs) = Some (CHR ''['' # join_with (CHR '','') (map (\<lambda>x. item_text (stringify x)) xs) @ [CHR '']''])"
| "stringify (Obj kvs) = Some (braced (map (\<lambda>(k, v). (k, stringify v)) kvs))"
  by pat_completeness auto
termination
proof (relation "measure size", goal_cases)
  case 1
  then show ?case by simp
next
  case (2 xs x)
  then show ?case by (induction xs) auto
next
  case (3 kvs z k v)
  then show ?case by (induction kvs) auto
qed

section \<open>Reading back\<close>

definition inserted_keys :: "string list \<Rightarrow> bool" where
  "inserted_keys ks \<longleftrightarrow> distinct ks \<and> list_all (\<lambda>k. \<not> array_index k) ks"

abbreviation plain_json :: "jsval \<Rightarrow> bool" where
  "plain_json \<equiv> wf_with inserted_keys"

definition printed :: "jsval \<Rightarrow> string" where
  "printed v = item_text (stringify v)"

lemma key_order_inserted: "inserted_keys (map fst kvs) \<Longrightarrow> key_order kvs = kvs"
  by (simp add: key_order_def inserted_keys_def list_all_iff)

lemma stringify_printed: "v \<noteq> Undefined \<Longrightarrow> stringify v = Some (printed v)"
  by (cases v) (simp_all add: printed_def item_text_def)

lemma plain_defined: "plain_json v \<Longrightarrow> v \<noteq> Undefined"
  by auto

lemma members_printed:
  assumes "\<forall>kv \<in> set kvs. snd kv \<noteq> Undefined"
  shows "List.map_filter member_of (map (\<lambda>(k, v). (k, stringify v)) kvs) = map (member_text printed) kvs"
  using assms by (induction kvs) (auto simp: List.map_filter_def member_of_def stringify_printed)

interpretation stringify_json: json_printer printed inserted_keys
proof unfold_locales
  fix kvs
  assume w: "plain_json (Obj kvs)"
  have "key_order (map (\<lambda>(k, v). (k, stringify v)) kvs) = map (\<lambda>(k, v). (k, stringify v)) kvs"
    using w by (intro key_order_inserted) (simp add: o_def split_def)
  moreover have "\<forall>kv \<in> set kvs. snd kv \<noteq> Undefined" using w plain_defined by (metis wf_with.simps(4))
  ultimately show "printed (Obj kvs) = CHR ''{'' # join_with (CHR '','') (map (member_text printed) kvs) @ [CHR ''}'']"
    by (simp add: printed_def item_text_def braced_def members_printed [unfolded printed_def])
next
  fix xs
  show "printed (Arr xs) = CHR ''['' # join_with (CHR '','') (map printed xs) @ [CHR '']'']"
    unfolding printed_def [abs_def] by (simp add: item_text_def)
qed (simp_all add: printed_def item_text_def inserted_keys_def)

lemma json_parse_printed: "plain_json v \<Longrightarrow> json_parse (printed v) = Some v"
  by (rule stringify_json.parse_print)

end
