(* ===== verification/Evm_Reader.thy ===== *)
theory Evm_Reader
  imports Evm_Evidence Json_Stringify Js_Numbers
begin

text \<open>
  \<open>src/rails/evm-evidence.ts\<close>, the reader itself: one definition per function, in the order
  of the file. \<open>evmEvidence\<close> is cut where its checks change subject.
\<close>

section \<open>Binding an exchange to its request\<close>

text \<open>The reader compares finality knobs, never trusts the captured one to be weaker.\<close>

definition finalityAtLeastAsStrong :: "evm_finality \<Rightarrow> evm_finality \<Rightarrow> bool" where
  "finalityAtLeastAsStrong captured auditor \<longleftrightarrow>
     (case auditor of
        ByConfirmations n \<Rightarrow> (case captured of ByConfirmations m \<Rightarrow> n \<le> m | ByTag t k \<Rightarrow> False)
      | ByTag t k \<Rightarrow> (case captured of ByTag t' k' \<Rightarrow> t' = t \<and> k' = k | ByConfirmations m \<Rightarrow> False))"

definition findByMethod :: "index_exchange list \<Rightarrow> string \<Rightarrow> index_exchange option" where
  "findByMethod xs m = List.find (\<lambda>x. ix_method x = m) xs"

definition parseHexNumber :: "viem \<Rightarrow> jsval \<Rightarrow> jsnum option" where
  "parseHexNumber V v = (case v of Str s \<Rightarrow> if HEX_VALUE s then vi_hexToNumber V s else None | _ \<Rightarrow> None)"

definition blockResultHash :: "jsval \<Rightarrow> string option" where
  "blockResultHash v =
     (if \<not> is_object v then None
      else (case prop_of v ''hash'' of Str h \<Rightarrow> if BLOCK_HASH_SHAPE h then Some h else None | _ \<Rightarrow> None))"

definition blockResultNumber :: "viem \<Rightarrow> jsval \<Rightarrow> jsnum option" where
  "blockResultNumber V v = (if \<not> is_object v then None else parseHexNumber V (prop_of v ''number''))"

datatype outcome = Result jsval | ErrorReply

record parsed_request =
  rq_id :: jsval
  rq_method :: string
  rq_params :: jsval

definition parseRequestBody :: "index_exchange \<Rightarrow> parsed_request option" where
  "parseRequestBody x =
     (case json_parse (ix_requestBody x) of
        None \<Rightarrow> None
      | Some v \<Rightarrow>
          if \<not> is_object v then None
          else (case (prop_of v ''id'', prop_of v ''method'') of
                  (Num n, Str m) \<Rightarrow> Some \<lparr>rq_id = Num n, rq_method = m, rq_params = prop_of v ''params''\<rparr>
                | (Str i, Str m) \<Rightarrow> Some \<lparr>rq_id = Str i, rq_method = m, rq_params = prop_of v ''params''\<rparr>
                | _ \<Rightarrow> None))"

text \<open>The namespace every id of a capture starts with.\<close>

definition id_namespace :: "string \<Rightarrow> int \<Rightarrow> string \<Rightarrow> string" where
  "id_namespace hashLock checkedAtMs nonce = hashLock @ CHR '':'' # template_int checkedAtMs @ CHR '':'' # nonce"

definition starts_with :: "string \<Rightarrow> string \<Rightarrow> bool" where
  "starts_with s p \<longleftrightarrow> take (length p) s = p"

definition idBoundToCapture :: "capture_index \<Rightarrow> jsval \<Rightarrow> bool" where
  "idBoundToCapture ci i \<longleftrightarrow>
     (case i of
        Str s \<Rightarrow> starts_with s (id_namespace (ci_hashLock ci) (ci_checkedAtMs ci) (ci_nonce ci) @ '':'')
      | _ \<Rightarrow> False)"

definition sameJson :: "jsval \<Rightarrow> jsval \<Rightarrow> bool" where
  "sameJson a b \<longleftrightarrow> stringify a = stringify b"

definition bindExchange ::
    "evm_capture \<Rightarrow> index_exchange option \<Rightarrow> exchange_label \<Rightarrow> (evm_reason, parsed_request \<times> outcome) result" where
  "bindExchange c x l =
     bind_res (or_throw x (NotBound l NoExchange)) (\<lambda>ex.
     bind_res (or_throw (parseRequestBody ex) (NotBound l MalformedRequest)) (\<lambda>rq.
     bind_res (throw_if (rq_method rq \<noteq> ix_method ex \<or> \<not> sameJson (rq_params rq) (ix_params ex)) (NotBound l RequestDiffers)) (\<lambda>_.
     bind_res (or_throw (cp_bytes c (ix_responseSha256 ex)) (NotBound l NoBytes)) (\<lambda>bs.
     bind_res (or_throw (decode_text bs) (NotBound l Undecodable)) (\<lambda>body.
     bind_res (or_throw (json_parse body) (NotBound l Unparseable)) (\<lambda>env.
     bind_res (throw_if (\<not> is_object env) (NotBound l NotAnObject)) (\<lambda>_.
     bind_res (throw_if (prop_of env ''id'' \<noteq> rq_id rq) (NotBound l ResponseIdDiffers)) (\<lambda>_.
     bind_res (throw_if (\<not> idBoundToCapture (cp_index c) (rq_id rq)) (NotBound l IdNotBound)) (\<lambda>_.
       Inr (rq, if prop_of env ''error'' \<notin> {Undefined, Null} then ErrorReply else Result (prop_of env ''result'')))))))))))"

text \<open>The value of an answer, or the refusal of an error reply.\<close>

definition answer_or :: "'e \<Rightarrow> outcome \<Rightarrow> ('e, jsval) result" where
  "answer_or e out = (case out of ErrorReply \<Rightarrow> Inl e | Result v \<Rightarrow> Inr v)"

section \<open>The finalized block\<close>

record finalized_block =
  fb_number :: jsnum
  fb_hash :: string
  fb_label :: string

text \<open>Subtraction of numbers; an infinite minuend stays.\<close>

definition num_minus :: "jsnum \<Rightarrow> int \<Rightarrow> jsnum" where
  "num_minus x k = (case x of Fin q \<Rightarrow> Fin (js_sub q (of_int k)) | _ \<Rightarrow> x)"

definition requestedBlockNumberArg :: "viem \<Rightarrow> parsed_request \<Rightarrow> jsnum option" where
  "requestedBlockNumberArg V rq =
     (case rq_params rq of Arr (p # ps) \<Rightarrow> parseHexNumber V p | _ \<Rightarrow> None)"

definition numbered_request_ok :: "viem \<Rightarrow> parsed_request \<Rightarrow> jsnum \<Rightarrow> bool" where
  "numbered_request_ok V rq want \<longleftrightarrow>
     requestedBlockNumberArg V rq = Some want
     \<and> (case rq_params rq of Arr [p, full] \<Rightarrow> full = Bool False | _ \<Rightarrow> False)"

definition readNumberedBlock ::
    "viem \<Rightarrow> evm_capture \<Rightarrow> int \<Rightarrow> index_exchange option \<Rightarrow> (evm_reason, finalized_block) result" where
  "readNumberedBlock V c confirmations blockCall =
     bind_res (bindExchange c (findByMethod (ci_exchanges (cp_index c)) ''eth_blockNumber'') BlockNumberCall) (\<lambda>(rq, out).
     bind_res (answer_or (Rejected BlockNumberCall) out) (\<lambda>v.
     bind_res (or_throw (parseHexNumber V v) BlockNumberMalformed) (\<lambda>latest.
     bind_res (bindExchange c blockCall NumberedBlockCall) (\<lambda>(rq', out').
     bind_res (answer_or (Rejected NumberedBlockCall) out') (\<lambda>v'.
     (let want = num_minus latest confirmations
      in bind_res (throw_if (\<not> numbered_request_ok V rq' want) NumberedBlockTampered) (\<lambda>_.
         bind_res (or_throw (blockResultHash v') BlockWithoutHash) (\<lambda>h.
           Inr \<lparr>fb_number = want, fb_hash = h, fb_label = ''confirmations-'' @ template_int confirmations\<rparr>))))))))"

definition first_param_is :: "string \<Rightarrow> index_exchange \<Rightarrow> bool" where
  "first_param_is t x \<longleftrightarrow> (case ix_params x of Arr (p # ps) \<Rightarrow> p = Str t | _ \<Rightarrow> False)"

text \<open>The first numbered call that is not the tag call itself: exchanges are told apart by their
  place in the index.\<close>

definition other_call :: "(index_exchange \<Rightarrow> bool) \<Rightarrow> index_exchange list \<Rightarrow> index_exchange option" where
  "other_call is_tag calls =
     (case (dropWhile (\<lambda>x. \<not> is_tag x) calls, takeWhile (\<lambda>x. \<not> is_tag x) calls) of
        (_, y # ys) \<Rightarrow> Some y
      | (t # z # zs, []) \<Rightarrow> Some z
      | _ \<Rightarrow> None)"

definition block_calls :: "evm_capture \<Rightarrow> index_exchange list" where
  "block_calls c = List.filter (\<lambda>x. ix_method x = ''eth_getBlockByNumber'') (ci_exchanges (cp_index c))"

definition fallback_block :: "viem \<Rightarrow> evm_capture \<Rightarrow> string \<Rightarrow> int option \<Rightarrow> (evm_reason, finalized_block) result" where
  "fallback_block V c tag fallback =
     (case fallback of
        None \<Rightarrow> Inl TagUnsupported
      | Some n \<Rightarrow> readNumberedBlock V c n (other_call (first_param_is tag) (block_calls c)))"

definition tagged_block ::
    "viem \<Rightarrow> evm_capture \<Rightarrow> string \<Rightarrow> int option \<Rightarrow> parsed_request \<Rightarrow> outcome \<Rightarrow> (evm_reason, finalized_block) result" where
  "tagged_block V c tag fallback rq out =
     (case out of
        ErrorReply \<Rightarrow> fallback_block V c tag fallback
      | Result v \<Rightarrow>
          if rq_params rq \<noteq> Arr [Str tag, Bool False] then Inl (TagRequestTampered tag)
          else (case (blockResultHash v, blockResultNumber V v) of
                  (Some h, Some n) \<Rightarrow> Inr \<lparr>fb_number = n, fb_hash = h, fb_label = ''finalized''\<rparr>
                | _ \<Rightarrow> fallback_block V c tag fallback))"

definition resolveFinalizedBlock :: "viem \<Rightarrow> evm_finality \<Rightarrow> evm_capture \<Rightarrow> (evm_reason, finalized_block) result" where
  "resolveFinalizedBlock V finality c =
     (case finality of
        ByConfirmations n \<Rightarrow> readNumberedBlock V c n (findByMethod (ci_exchanges (cp_index c)) ''eth_getBlockByNumber'')
      | ByTag tag fallback \<Rightarrow>
          bind_res (bindExchange c (List.find (first_param_is tag) (block_calls c)) (TagCall tag)) (\<lambda>(rq, out).
            tagged_block V c tag fallback rq out))"

section \<open>The read of the lock and the code\<close>

text \<open>An answer of viem's comparison; an exception leaves the whole reader.\<close>

datatype evm_throw = Threw string | InheritedAsset string | NotABigInt string

text \<open>Inside one check: refuse with a reason, or throw.\<close>

type_synonym 'a checked = "(evm_throw + evm_reason, 'a) result"

definition refuse :: "evm_reason \<Rightarrow> 'a checked" where
  "refuse r = Inl (Inr r)"

definition refuse_if :: "bool \<Rightarrow> evm_reason \<Rightarrow> unit checked" where
  "refuse_if b r = (if b then refuse r else Inr ())"

definition reasoned :: "(evm_reason, 'a) result \<Rightarrow> 'a checked" where
  "reasoned x = (case x of Inl r \<Rightarrow> Inl (Inr r) | Inr a \<Rightarrow> Inr a)"

definition same_address :: "viem \<Rightarrow> string \<Rightarrow> string \<Rightarrow> bool checked" where
  "same_address V a b = (case vi_isAddressEqual V a b of Inl m \<Rightarrow> Inl (Inl (Threw m)) | Inr x \<Rightarrow> Inr x)"

text \<open>\<open>isValidAddressShape(v) && isAddressEqual(v, a)\<close>.\<close>

definition is_this_address :: "viem \<Rightarrow> jsval \<Rightarrow> string \<Rightarrow> bool checked" where
  "is_this_address V v a =
     (case v of
        Str s \<Rightarrow> if isValidAddressShape V v then same_address V s a else Inr False
      | _ \<Rightarrow> Inr False)"

definition validateLocksCallRequest :: "viem \<Rightarrow> parsed_request \<Rightarrow> evm_config \<Rightarrow> string \<Rightarrow> string \<Rightarrow> unit checked" where
  "validateLocksCallRequest V rq cfg hashLock blockHash =
     (case rq_params rq of
        Arr [call, selector] \<Rightarrow>
          bind_res (refuse_if (\<not> is_object call) (CallTampered CallObject)) (\<lambda>_.
          bind_res (is_this_address V (prop_of call ''to'') (cf_contract cfg)) (\<lambda>ok.
          bind_res (refuse_if (\<not> ok) (CallTampered CallTarget)) (\<lambda>_.
          bind_res (refuse_if
             (case prop_of call ''data'' of
                Str d \<Rightarrow> toLowerCase d \<noteq> toLowerCase (vi_locksCalldata V hashLock) | _ \<Rightarrow> True) (CallTampered CallData)) (\<lambda>_.
          bind_res (refuse_if (\<not> is_object selector) (CallTampered CallSelector)) (\<lambda>_.
          refuse_if
             (case prop_of selector ''blockHash'' of
                Str h \<Rightarrow> \<not> BLOCK_HASH_SHAPE h \<or> toLowerCase h \<noteq> toLowerCase blockHash | _ \<Rightarrow> True) (CallTampered CallBlock))))))
      | _ \<Rightarrow> refuse (CallTampered CallShape))"

definition codePinReason :: "viem \<Rightarrow> evm_capture \<Rightarrow> evm_config \<Rightarrow> evm_config \<Rightarrow> string \<Rightarrow> unit checked" where
  "codePinReason V c captured cfg pinned =
     bind_res (refuse_if (case cf_contractCodeHash captured of None \<Rightarrow> True | Some h \<Rightarrow> toLowerCase h \<noteq> toLowerCase pinned) CodePinMissing) (\<lambda>_.
     bind_res (reasoned (bindExchange c (findByMethod (ci_exchanges (cp_index c)) ''eth_getCode'') GetCodeCall)) (\<lambda>(rq, out).
     bind_res (reasoned (answer_or (Rejected GetCodeCall) out)) (\<lambda>v.
     bind_res (case rq_params rq of
                 Arr [a, at_block] \<Rightarrow>
                   bind_res (is_this_address V a (cf_contract cfg)) (\<lambda>ok. Inr (ok \<and> at_block = Str ''latest''))
               | _ \<Rightarrow> Inr False) (\<lambda>ok.
     bind_res (refuse_if (\<not> ok) CodeRequestTampered) (\<lambda>_.
     (case judgeRuntimeCode V v pinned of
        Inr seen \<Rightarrow> Inr ()
      | Inl p \<Rightarrow> refuse (CodeUnpinned p (cf_contract cfg) pinned)))))))"

section \<open>Comparing the fields\<close>

text \<open>\<open>BigInt\<close> of a text: white space at both ends is dropped, the empty text is zero, a prefix
  selects the base, a sign only goes with decimal digits. \<open>None\<close> is its exception.\<close>

definition js_space :: "char \<Rightarrow> bool" where
  "js_space c \<longleftrightarrow> c \<in> {CHR '' '', CHR 0x09, CHR 0x0A, CHR 0x0B, CHR 0x0C, CHR 0x0D, CHR 0xA0}"

definition js_trim :: "string \<Rightarrow> string" where
  "js_trim s = rev (dropWhile js_space (rev (dropWhile js_space s)))"

definition based :: "nat \<Rightarrow> string \<Rightarrow> int option" where
  "based b s =
     (if s = [] \<or> list_ex (\<lambda>c. case hex_digit c of None \<Rightarrow> True | Some d \<Rightarrow> b \<le> d) s then None
      else Some (int (foldl (\<lambda>n c. b * n + the (hex_digit c)) 0 s)))"

definition bigint_of :: "string \<Rightarrow> int option" where
  "bigint_of text =
     (let s = js_trim text
      in if s = [] then Some 0
         else if take 2 s \<in> {''0x'', ''0X''} then based 16 (drop 2 s)
         else if take 2 s \<in> {''0o'', ''0O''} then based 8 (drop 2 s)
         else if take 2 s \<in> {''0b'', ''0B''} then based 2 (drop 2 s)
         else if take 1 s = ''-'' then map_option uminus (based 10 (drop 1 s))
         else if take 1 s = ''+'' then based 10 (drop 1 s)
         else based 10 s)"

definition mismatch_if :: "bool \<Rightarrow> mismatch_field \<Rightarrow> (evm_throw + mismatch_field, unit) result" where
  "mismatch_if b m = (if b then Inl (Inr m) else Inr ())"

definition unless_same :: "viem \<Rightarrow> string \<Rightarrow> string \<Rightarrow> mismatch_field \<Rightarrow> (evm_throw + mismatch_field, unit) result" where
  "unless_same V a b m =
     (case vi_isAddressEqual V a b of Inl t \<Rightarrow> Inl (Inl (Threw t)) | Inr ok \<Rightarrow> mismatch_if (\<not> ok) m)"

text \<open>\<open>assets[name]\<close>: a plain object also answers for the members it inherits, which are
  not texts; viem's comparison throws on one.\<close>

datatype asset_slot = OwnAsset string | InheritedMember string | NoAsset

definition object_members :: "string list" where
  "object_members =
     [''constructor'', ''__defineGetter__'', ''__defineSetter__'', ''hasOwnProperty'', ''__lookupGetter__'',
      ''__lookupSetter__'', ''isPrototypeOf'', ''propertyIsEnumerable'', ''toString'', ''valueOf'', ''__proto__'',
      ''toLocaleString'']"

definition asset_slot :: "evm_config \<Rightarrow> string \<Rightarrow> asset_slot" where
  "asset_slot cfg name =
     (case map_of (cf_assets cfg) name of
        Some a \<Rightarrow> OwnAsset a
      | None \<Rightarrow> if name \<in> set object_members then InheritedMember name else NoAsset)"

definition unless_token :: "viem \<Rightarrow> string \<Rightarrow> asset_slot \<Rightarrow> (evm_throw + mismatch_field, unit) result" where
  "unless_token V seen slot =
     (case slot of
        OwnAsset a \<Rightarrow> unless_same V seen a MToken
      | InheritedMember n \<Rightarrow> Inl (Inl (InheritedAsset n))
      | NoAsset \<Rightarrow> Inr ())"

definition firstFieldMismatch ::
    "viem \<Rightarrow> locks_row \<Rightarrow> string \<Rightarrow> string option \<Rightarrow> asset_slot \<Rightarrow> lock_terms \<Rightarrow> (evm_throw + mismatch_field, unit) result" where
  "firstFieldMismatch V row payee payer token terms =
     bind_res (unless_same V (lk_payee row) payee MPayee) (\<lambda>_.
     bind_res (unless_token V (lk_token row) token) (\<lambda>_.
     bind_res (or_throw (bigint_of (lt_amount terms)) (Inl (NotABigInt (lt_amount terms)))) (\<lambda>amount.
     bind_res (mismatch_if (lk_amount row \<noteq> amount) MAmount) (\<lambda>_.
     bind_res (mismatch_if (lk_claimByMs row \<noteq> lt_claimByMs terms) MClaimBy) (\<lambda>_.
     bind_res (mismatch_if (lk_refundAfterMs row \<noteq> lt_refundAfterMs terms) MRefundAfter) (\<lambda>_.
     (case payer of None \<Rightarrow> Inr () | Some p \<Rightarrow> unless_same V (lk_payer row) p MPayer)))))))"

section \<open>The evidence of a leg\<close>

definition evidence_base :: "lock_terms \<Rightarrow> capture_index \<Rightarrow> string \<Rightarrow> lock_evidence" where
  "evidence_base terms ci endpoint =
     \<lparr>le_rail = EVM_RAIL_ID, le_ref = ci_hashLock ci, le_terms = terms, le_railVerified = None,
      le_checkedAtMs = ci_checkedAtMs ci, le_finalizedRef = None, le_endpoint = Some endpoint,
      le_reason = None, le_raw = Some (map ix_responseSha256 (ci_exchanges ci))\<rparr>"

definition concluded :: "lock_evidence \<Rightarrow> bool option \<Rightarrow> evm_reason \<Rightarrow> rail_observation option \<Rightarrow> leg_evidence" where
  "concluded base verified r ob =
     \<lparr>lg_lock = base\<lparr>le_railVerified := verified, le_reason := Some (evm_text r)\<rparr>, lg_rail = ob\<rparr>"

text \<open>The checks of the capture's own configuration against the auditor's.\<close>

definition same_slot :: "viem \<Rightarrow> asset_slot \<Rightarrow> asset_slot \<Rightarrow> bool checked" where
  "same_slot V captured configured =
     (case configured of
        NoAsset \<Rightarrow> Inr True
      | InheritedMember n \<Rightarrow> Inl (Inl (InheritedAsset n))
      | OwnAsset b \<Rightarrow>
          (case captured of
             OwnAsset a \<Rightarrow> same_address V a b
           | InheritedMember n \<Rightarrow> Inl (Inl (InheritedAsset n))
           | NoAsset \<Rightarrow> Inr False))"

definition same_deployment :: "viem \<Rightarrow> lock_terms \<Rightarrow> evm_config \<Rightarrow> evm_config \<Rightarrow> unit checked" where
  "same_deployment V terms cfg captured =
     (let slot = asset_slot captured (lt_asset terms) in
      bind_res (refuse_if (slot = NoAsset) (CapturedAssetMissing (lt_asset terms))) (\<lambda>_.
      bind_res (refuse_if (pin_chainId (cf_pin captured) \<noteq> pin_chainId (cf_pin cfg)) OtherConfig) (\<lambda>_.
      bind_res (same_address V (cf_contract captured) (cf_contract cfg)) (\<lambda>same.
      bind_res (refuse_if (\<not> same) OtherConfig) (\<lambda>_.
      bind_res (same_slot V slot (asset_slot cfg (lt_asset terms))) (\<lambda>same.
      bind_res (refuse_if (\<not> same) OtherConfig) (\<lambda>_.
        refuse_if (\<not> finalityAtLeastAsStrong (pin_finality (cf_pin captured)) (pin_finality (cf_pin cfg))) FinalityWeaker)))))))"

definition finalized_ref :: "evm_config \<Rightarrow> finalized_block \<Rightarrow> string" where
  "finalized_ref captured b =
     pin_name (cf_pin captured) @ CHR '':'' # fb_label b @ CHR '':'' # number_text (fb_number b) @ CHR '':'' # fb_hash b"

definition check_chain_id :: "viem \<Rightarrow> evm_capture \<Rightarrow> evm_config \<Rightarrow> unit checked" where
  "check_chain_id V c cfg =
     bind_res (reasoned (bindExchange c (findByMethod (ci_exchanges (cp_index c)) ''eth_chainId'') ChainIdCall)) (\<lambda>(rq, out).
     bind_res (reasoned (answer_or (Rejected ChainIdCall) out)) (\<lambda>v.
     bind_res (reasoned (or_throw (parseHexNumber V v) ChainIdMalformed)) (\<lambda>n.
       refuse_if (n \<noteq> int_jsnum (pin_chainId (cf_pin cfg))) (ChainIdDiffers n (pin_name (cf_pin cfg)) (pin_chainId (cf_pin cfg))))))"

definition check_contract :: "viem \<Rightarrow> evm_capture \<Rightarrow> evm_config \<Rightarrow> evm_config \<Rightarrow> unit checked" where
  "check_contract V c cfg captured =
     bind_res (refuse_if (\<not> isValidAddressShape V (ci_contract (cp_index c))) IndexContractMalformed) (\<lambda>_.
     bind_res (is_this_address V (ci_contract (cp_index c)) (cf_contract cfg)) (\<lambda>same.
     bind_res (refuse_if (\<not> same) IndexContractDiffers) (\<lambda>_.
       (case cf_contractCodeHash cfg of None \<Rightarrow> Inr () | Some pinned \<Rightarrow> codePinReason V c captured cfg pinned))))"

definition read_row :: "viem \<Rightarrow> evm_capture \<Rightarrow> evm_config \<Rightarrow> string \<Rightarrow> locks_row checked" where
  "read_row V c cfg blockHash =
     bind_res (reasoned (bindExchange c (findByMethod (ci_exchanges (cp_index c)) ''eth_call'') LocksCall)) (\<lambda>(rq, out).
     bind_res (reasoned (answer_or (Rejected LocksCall) out)) (\<lambda>v.
     bind_res (validateLocksCallRequest V rq cfg (ci_hashLock (cp_index c)) blockHash) (\<lambda>_.
       reasoned (or_throw (vi_decodeLocks V v) LocksMalformed))))"

text \<open>What the capture shows of the chain: the row of the lock and the block it was read at.\<close>

definition captured_row :: "viem \<Rightarrow> evm_capture \<Rightarrow> evm_config \<Rightarrow> evm_config \<Rightarrow> (locks_row \<times> finalized_block) checked" where
  "captured_row V c cfg captured =
     bind_res (check_chain_id V c cfg) (\<lambda>_.
     bind_res (check_contract V c cfg captured) (\<lambda>_.
     bind_res (reasoned (resolveFinalizedBlock V (pin_finality (cf_pin captured)) c)) (\<lambda>b.
     bind_res (read_row V c cfg (fb_hash b)) (\<lambda>row. Inr (row, b)))))"

definition evm_observation :: "rail_status \<Rightarrow> lock_evidence \<Rightarrow> rail_observation" where
  "evm_observation st base =
     railBinding (le_rail base) (le_ref base) (le_terms base)
       \<lparr>ob_status = st, ob_final = True, ob_checkedAtMs = le_checkedAtMs base, ob_finalizedRef = le_finalizedRef base,
        ob_transitionAtMs = None, ob_rail = None, ob_ref = None, ob_contract = None, ob_terms = None\<rparr>"

text \<open>The row of a lock that was claimed or refunded, and of one that is locked.\<close>

definition settled_row ::
    "viem \<Rightarrow> lock_terms \<Rightarrow> evm_config \<Rightarrow> evm_accounts \<Rightarrow> lock_evidence \<Rightarrow> locks_row \<Rightarrow> rail_status \<Rightarrow> string \<Rightarrow> (evm_throw, leg_evidence) result" where
  "settled_row V terms cfg acc base row st label =
     (case (ea_payee acc, ea_payer acc) of
        (None, _) \<Rightarrow> Inr (concluded base None (SettledNoPayee label) None)
      | (_, None) \<Rightarrow> Inr (concluded base None (SettledNoPayer label) None)
      | (Some payee, Some payer) \<Rightarrow>
          if asset_slot cfg (lt_asset terms) = NoAsset
          then Inr (concluded base None (AssetUnconfigured (lt_asset terms)) None)
          else (case firstFieldMismatch V row payee (Some payer) (asset_slot cfg (lt_asset terms)) terms of
                  Inl (Inl t) \<Rightarrow> Inl t
                | Inl (Inr m) \<Rightarrow> Inr (concluded base None (SettledMismatch label m) None)
                | Inr u \<Rightarrow> Inr (concluded base (Some False) (SettledAlready label) (Some (evm_observation st base)))))"

definition locked_row ::
    "viem \<Rightarrow> lock_terms \<Rightarrow> evm_config \<Rightarrow> evm_accounts \<Rightarrow> lock_evidence \<Rightarrow> locks_row \<Rightarrow> (evm_throw, leg_evidence) result" where
  "locked_row V terms cfg acc base row =
     (let ob = Some (evm_observation RLocked base) in
      case (ea_payee acc, ea_payer acc) of
        (None, _) \<Rightarrow> Inr (concluded base None LockedNoPayee ob)
      | (_, None) \<Rightarrow> Inr (concluded base None LockedNoPayer ob)
      | (Some payee, Some payer) \<Rightarrow>
          if asset_slot cfg (lt_asset terms) = NoAsset
          then Inr (concluded base None (AssetUnconfigured (lt_asset terms)) ob)
          else (case firstFieldMismatch V row payee (Some payer) (asset_slot cfg (lt_asset terms)) terms of
                  Inl (Inl t) \<Rightarrow> Inl t
                | Inl (Inr m) \<Rightarrow> Inr (concluded base (Some False) (Mismatch m) ob)
                | Inr u \<Rightarrow> Inr (concluded base (Some True) LockedMatches ob)))"

definition judge_row ::
    "viem \<Rightarrow> lock_terms \<Rightarrow> evm_config \<Rightarrow> evm_accounts \<Rightarrow> lock_evidence \<Rightarrow> locks_row \<Rightarrow> (evm_throw, leg_evidence) result" where
  "judge_row V terms cfg acc base row =
     (if lk_status row \<notin> {0, 1, 2, 3} then Inr (concluded base None StatusUnknown None)
      else if lk_status row = 0 then Inr (concluded base None NoLock None)
      else if lk_status row = 2 then settled_row V terms cfg acc base row RClaimed ''claimed''
      else if lk_status row = 3 then settled_row V terms cfg acc base row RRefunded ''refunded''
      else locked_row V terms cfg acc base row)"

definition answered :: "lock_evidence \<Rightarrow> (evm_throw + evm_reason) \<Rightarrow> (evm_throw, leg_evidence) result" where
  "answered base e = (case e of Inl t \<Rightarrow> Inl t | Inr r \<Rightarrow> Inr (concluded base None r None))"

definition evmEvidence ::
    "viem \<Rightarrow> lock_terms \<Rightarrow> evm_config \<Rightarrow> evm_accounts \<Rightarrow> evm_capture \<Rightarrow> (evm_throw, leg_evidence) result" where
  "evmEvidence V terms cfg acc c =
     (let ci = cp_index c; base = evidence_base terms ci (cf_endpoint cfg) in
      case ci_error ci of
        Some e \<Rightarrow> Inr (concluded base None (ReadIncomplete e) None)
      | None \<Rightarrow>
          if hashLockRefMismatch terms (ci_hashLock ci) then Inr (concluded base (Some False) RefLockMismatch None)
          else (case checkEvmRailConfig V (ci_config ci) of
                  Inl r \<Rightarrow> Inr (concluded base None (CapturedConfigInvalid r) None)
                | Inr captured \<Rightarrow>
                    (case same_deployment V terms cfg captured of
                       Inl e \<Rightarrow> answered base e
                     | Inr u \<Rightarrow>
                         (let base2 = base\<lparr>le_endpoint := Some (cf_endpoint captured)\<rparr> in
                          case captured_row V c cfg captured of
                            Inl e \<Rightarrow> answered base2 e
                          | Inr (row, b) \<Rightarrow>
                              judge_row V terms cfg acc (base2\<lparr>le_finalizedRef := Some (finalized_ref captured b)\<rparr>) row))))"

end
