(* ===== verification/Evm_Properties.thy ===== *)
theory Evm_Properties
  imports Evm_Reader
begin

text \<open>
  What the evidence reader of the EVM rail promises about a capture it knows nothing of. An answer
  counts only when the request it answers is in the same exchange, carries an id of this capture and
  asks for what is read from it (\<open>bound_answer\<close>); \<open>chain_shows\<close> is what a positive
  verdict has seen.
\<close>

section \<open>Answers that are bound\<close>

definition bound_answer :: "evm_capture \<Rightarrow> string \<Rightarrow> parsed_request \<Rightarrow> jsval \<Rightarrow> bool" where
  "bound_answer c m rq v \<longleftrightarrow>
     (\<exists>ex \<in> set (ci_exchanges (cp_index c)). \<exists>bs body env.
        ix_method ex = m \<and> parseRequestBody ex = Some rq \<and> rq_method rq = m
        \<and> cp_bytes c (ix_responseSha256 ex) = Some bs \<and> decode_text bs = Some body \<and> json_parse body = Some env
        \<and> prop_of env ''id'' = rq_id rq \<and> idBoundToCapture (cp_index c) (rq_id rq)
        \<and> prop_of env ''error'' \<in> {Undefined, Null} \<and> prop_of env ''result'' = v)"

lemma checked_simps [result_simps]:
  "refuse_if b r = Inr u \<longleftrightarrow> \<not> b"
  "refuse r = Inr a \<longleftrightarrow> False"
  "reasoned x = Inr a \<longleftrightarrow> x = Inr a"
  "mismatch_if b m = Inr u \<longleftrightarrow> \<not> b"
  "answer_or e out = Inr v \<longleftrightarrow> out = Result v"
  by (auto simp: refuse_if_def refuse_def reasoned_def mismatch_if_def answer_or_def split: sum.splits outcome.splits)

lemma bindExchange_Result:
  assumes "bindExchange c x l = Inr (rq, Result v)" "x = Some ex"
    "ex \<in> set (ci_exchanges (cp_index c))" "ix_method ex = m"
  shows "bound_answer c m rq v"
  using assms
  unfolding bindExchange_def bound_answer_def
  by (auto simp: result_simps split: if_splits)

lemma findByMethod_Some: "findByMethod xs m = Some ex \<Longrightarrow> ex \<in> set xs \<and> ix_method ex = m"
  by (auto simp: findByMethod_def find_Some_iff)

lemma bindExchange_Some: "bindExchange c x l = Inr r \<Longrightarrow> \<exists>ex. x = Some ex"
  by (auto simp: bindExchange_def result_simps)

lemma bind_method_Result:
  assumes "bindExchange c (findByMethod (ci_exchanges (cp_index c)) m) l = Inr (rq, Result v)"
  shows "bound_answer c m rq v"
proof -
  obtain ex where "findByMethod (ci_exchanges (cp_index c)) m = Some ex"
    using bindExchange_Some [OF assms] by blast
  then show ?thesis using bindExchange_Result [OF assms] findByMethod_Some by blast
qed

section \<open>The finalized block\<close>

text \<open>A block is final when the chain named it final, or when it lies the configured number of
  blocks below a height the chain reported.\<close>

definition final_block :: "viem \<Rightarrow> evm_capture \<Rightarrow> evm_finality \<Rightarrow> finalized_block \<Rightarrow> bool" where
  "final_block V c f b \<longleftrightarrow>
     (\<exists>rq v. bound_answer c ''eth_getBlockByNumber'' rq v \<and> blockResultHash v = Some (fb_hash b)
        \<and> ((\<exists>tag k. f = ByTag tag k \<and> rq_params rq = Arr [Str tag, Bool False] \<and> blockResultNumber V v = Some (fb_number b))
         \<or> (\<exists>k rq' v' latest. (f = ByConfirmations k \<or> (\<exists>tag. f = ByTag tag (Some k)))
              \<and> bound_answer c ''eth_blockNumber'' rq' v' \<and> parseHexNumber V v' = Some latest
              \<and> fb_number b = num_minus latest k \<and> numbered_request_ok V rq (fb_number b))))"

lemma readNumberedBlock_final:
  assumes "readNumberedBlock V c k call = Inr b" "f = ByConfirmations k \<or> (\<exists>tag. f = ByTag tag (Some k))"
    "\<And>ex. call = Some ex \<Longrightarrow> ex \<in> set (ci_exchanges (cp_index c)) \<and> ix_method ex = ''eth_getBlockByNumber''"
  shows "final_block V c f b"
proof -
  obtain rq' v' latest rq v where k:
    "bindExchange c (findByMethod (ci_exchanges (cp_index c)) ''eth_blockNumber'') BlockNumberCall = Inr (rq', Result v')"
    "parseHexNumber V v' = Some latest" "bindExchange c call NumberedBlockCall = Inr (rq, Result v)"
    "blockResultHash v = Some (fb_hash b)" "fb_number b = num_minus latest k" "numbered_request_ok V rq (fb_number b)"
    using assms(1) unfolding readNumberedBlock_def
    by (auto simp: result_simps Let_def)
  obtain ex where ex: "call = Some ex" using bindExchange_Some [OF k(3)] by blast
  then have "bound_answer c ''eth_getBlockByNumber'' rq v"
    using bindExchange_Result [OF k(3) ex] assms(3) by simp
  moreover have "bound_answer c ''eth_blockNumber'' rq' v'" by (rule bind_method_Result [OF k(1)])
  ultimately show ?thesis using k(2,4-6) assms(2) unfolding final_block_def by metis
qed

lemma other_call_mem:
  assumes "other_call p xs = Some y"
  shows "y \<in> set xs"
proof -
  have "set xs = set (takeWhile (\<lambda>x. \<not> p x) xs) \<union> set (dropWhile (\<lambda>x. \<not> p x) xs)"
    by (metis set_append takeWhile_dropWhile_id)
  then show ?thesis using assms unfolding other_call_def by (auto split: list.splits)
qed

lemma resolveFinalizedBlock_final:
  assumes "resolveFinalizedBlock V f c = Inr b"
  shows "final_block V c f b"
proof (cases f)
  case (ByConfirmations n)
  then have "readNumberedBlock V c n (findByMethod (ci_exchanges (cp_index c)) ''eth_getBlockByNumber'') = Inr b"
    using assms by (simp add: resolveFinalizedBlock_def)
  then show ?thesis
    by (rule readNumberedBlock_final) (use ByConfirmations findByMethod_Some in auto)
next
  case (ByTag tag k)
  have mem: "ex \<in> set (ci_exchanges (cp_index c)) \<and> ix_method ex = ''eth_getBlockByNumber''" if "ex \<in> set (block_calls c)" for ex
    using that by (simp add: block_calls_def)
  have fall: ?thesis if r: "fallback_block V c tag k = Inr b"
  proof -
    obtain n where n: "k = Some n" "readNumberedBlock V c n (other_call (first_param_is tag) (block_calls c)) = Inr b"
      using r by (auto simp: fallback_block_def split: option.splits)
    show ?thesis
      by (rule readNumberedBlock_final [OF n(2)]) (use mem other_call_mem n(1) ByTag in auto)
  qed
  obtain rq out where bound: "bindExchange c (List.find (first_param_is tag) (block_calls c)) (TagCall tag) = Inr (rq, out)"
    and rest: "tagged_block V c tag k rq out = Inr b"
    using assms ByTag by (auto simp: resolveFinalizedBlock_def result_simps)
  show ?thesis
  proof (cases "fallback_block V c tag k = Inr b")
    case True
    then show ?thesis by (rule fall)
  next
    case False
    then obtain v where v: "out = Result v" "rq_params rq = Arr [Str tag, Bool False]"
      "blockResultHash v = Some (fb_hash b)" "blockResultNumber V v = Some (fb_number b)"
      using rest unfolding tagged_block_def by (auto split: outcome.splits if_splits option.splits)
    obtain ex where ex: "List.find (first_param_is tag) (block_calls c) = Some ex" using bindExchange_Some [OF bound] by blast
    then have "ex \<in> set (block_calls c)" by (auto simp: find_Some_iff)
    then have "bound_answer c ''eth_getBlockByNumber'' rq v"
      using bindExchange_Result [OF bound [unfolded v(1)] ex] mem by simp
    then show ?thesis using v ByTag unfolding final_block_def by metis
  qed
qed

section \<open>What a verdict has seen\<close>

definition same_text_address :: "string \<Rightarrow> string \<Rightarrow> bool" where
  "same_text_address a b \<longleftrightarrow> toLowerCase a = toLowerCase b"

text \<open>The call that read the row: at the deployment's contract, for this hash lock, in this block.\<close>

definition locks_call :: "viem \<Rightarrow> evm_config \<Rightarrow> string \<Rightarrow> string \<Rightarrow> parsed_request \<Rightarrow> bool" where
  "locks_call V cfg hashLock blockHash rq \<longleftrightarrow>
     (\<exists>call selector a d h. rq_params rq = Arr [call, selector]
        \<and> prop_of call ''to'' = Str a \<and> same_text_address a (cf_contract cfg)
        \<and> prop_of call ''data'' = Str d \<and> toLowerCase d = toLowerCase (vi_locksCalldata V hashLock)
        \<and> prop_of selector ''blockHash'' = Str h \<and> toLowerCase h = toLowerCase blockHash)"

definition code_read :: "viem \<Rightarrow> evm_capture \<Rightarrow> evm_config \<Rightarrow> string \<Rightarrow> bool" where
  "code_read V c cfg pinned \<longleftrightarrow>
     (\<exists>rq a code. bound_answer c ''eth_getCode'' rq (Str code) \<and> rq_params rq = Arr [Str a, Str ''latest'']
        \<and> same_text_address a (cf_contract cfg) \<and> HEX_BYTES code \<and> 2 < length code
        \<and> toLowerCase (vi_keccak256 V code) = toLowerCase pinned)"

definition chain_shows :: "viem \<Rightarrow> evm_capture \<Rightarrow> evm_config \<Rightarrow> evm_finality \<Rightarrow> locks_row \<Rightarrow> finalized_block \<Rightarrow> bool" where
  "chain_shows V c cfg finality row b \<longleftrightarrow>
     (\<exists>rq v. bound_answer c ''eth_chainId'' rq v \<and> parseHexNumber V v = Some (int_jsnum (pin_chainId (cf_pin cfg))))
     \<and> (\<forall>pinned. cf_contractCodeHash cfg = Some pinned \<longrightarrow> code_read V c cfg pinned)
     \<and> final_block V c finality b
     \<and> (\<exists>rq v. bound_answer c ''eth_call'' rq v \<and> locks_call V cfg (ci_hashLock (cp_index c)) (fb_hash b) rq
          \<and> vi_decodeLocks V v = Some row)"

lemma same_address_Inr:
  assumes "viem_addresses_ok V" "vi_isAddressEqual V a b = Inr x"
  shows "x = same_text_address a b" "HEX_ADDRESS a" "HEX_ADDRESS b"
proof -
  have h: "HEX_ADDRESS a \<and> HEX_ADDRESS b"
  proof (rule ccontr)
    assume "\<not> (HEX_ADDRESS a \<and> HEX_ADDRESS b)"
    then show False using viem_addresses_okD(3) [OF assms(1), of a b] assms(2) by auto
  qed
  then show "HEX_ADDRESS a" "HEX_ADDRESS b" by simp_all
  show "x = same_text_address a b"
    using viem_addresses_okD(2) [OF assms(1), of a b] h assms(2) by (simp add: same_text_address_def)
qed

lemma is_this_address_True:
  assumes "viem_addresses_ok V" "is_this_address V v a = Inr True"
  obtains s where "v = Str s" "same_text_address s a"
  using assms same_address_Inr [OF assms(1)]
  by (auto simp: is_this_address_def same_address_def split: jsval.splits if_splits sum.splits)


lemma validateLocksCallRequest_Inr:
  assumes "viem_addresses_ok V" "validateLocksCallRequest V rq cfg hashLock blockHash = Inr u"
  shows "locks_call V cfg hashLock blockHash rq"
proof -
  obtain call selector x y where p: "rq_params rq = Arr [call, selector]"
    and t: "is_this_address V (prop_of call ''to'') (cf_contract cfg) = Inr True"
    and k: "prop_of call ''data'' = Str x" "toLowerCase x = toLowerCase (vi_locksCalldata V hashLock)"
      "prop_of selector ''blockHash'' = Str y" "toLowerCase y = toLowerCase blockHash"
    using assms(2) unfolding validateLocksCallRequest_def
    by (auto split: jsval.splits list.splits simp: result_simps)
  obtain a where "prop_of call ''to'' = Str a" "same_text_address a (cf_contract cfg)"
    using is_this_address_True [OF assms(1) t] by blast
  then show ?thesis using p k unfolding locks_call_def by blast
qed

lemma codePinReason_Inr:
  assumes "viem_addresses_ok V" "codePinReason V c captured cfg pinned = Inr u"
  shows "code_read V c cfg pinned"
proof -
  obtain rq v where
    b: "bindExchange c (findByMethod (ci_exchanges (cp_index c)) ''eth_getCode'') GetCodeCall = Inr (rq, Result v)"
    and p: "(case rq_params rq of
                 Arr [a, at_block] \<Rightarrow>
                   bind_res (is_this_address V a (cf_contract cfg)) (\<lambda>ok. Inr (ok \<and> at_block = Str ''latest''))
               | _ \<Rightarrow> Inr False) = Inr True"
    and j: "(case judgeRuntimeCode V v pinned of Inr seen \<Rightarrow> Inr () | Inl p \<Rightarrow> refuse (CodeUnpinned p (cf_contract cfg) pinned)) = Inr u"
    using assms(2) unfolding codePinReason_def by (auto simp: result_simps)
  obtain a where a: "rq_params rq = Arr [a, Str ''latest'']" "is_this_address V a (cf_contract cfg) = Inr True"
    using p by (auto simp: result_simps split: jsval.splits list.splits)
  obtain s where s: "a = Str s" "same_text_address s (cf_contract cfg)"
    using is_this_address_True [OF assms(1) a(2)] by blast
  obtain code where code: "v = Str code" "HEX_BYTES code" "length code \<noteq> 2"
    "toLowerCase (vi_keccak256 V code) = toLowerCase pinned"
    using j by (auto simp: judgeRuntimeCode_def refuse_def Let_def split: jsval.splits if_splits sum.splits)
  have "2 \<le> length code" using code(2) by (cases code; cases "tl code") (auto simp: HEX_BYTES_def)
  then show ?thesis
    using bind_method_Result [OF b] a(1) s code unfolding code_read_def by (intro exI [of _ rq] exI [of _ s] exI [of _ code]) auto
qed

lemma captured_row_shows:
  assumes "viem_addresses_ok V" "captured_row V c cfg captured = Inr (row, b)"
  shows "chain_shows V c cfg (pin_finality (cf_pin captured)) row b"
proof -
  have k: "check_chain_id V c cfg = Inr ()" "check_contract V c cfg captured = Inr ()"
    "resolveFinalizedBlock V (pin_finality (cf_pin captured)) c = Inr b" "read_row V c cfg (fb_hash b) = Inr row"
    using assms(2) by (auto simp: captured_row_def result_simps)
  obtain rq v where cid: "bindExchange c (findByMethod (ci_exchanges (cp_index c)) ''eth_chainId'') ChainIdCall = Inr (rq, Result v)"
    "parseHexNumber V v = Some (int_jsnum (pin_chainId (cf_pin cfg)))"
    using k(1) by (auto simp: check_chain_id_def result_simps)
  obtain rq' v' where call: "bindExchange c (findByMethod (ci_exchanges (cp_index c)) ''eth_call'') LocksCall = Inr (rq', Result v')"
    "validateLocksCallRequest V rq' cfg (ci_hashLock (cp_index c)) (fb_hash b) = Inr ()" "vi_decodeLocks V v' = Some row"
    using k(4) by (auto simp: read_row_def result_simps)
  have "code_read V c cfg pinned" if "cf_contractCodeHash cfg = Some pinned" for pinned
    using k(2) that codePinReason_Inr [OF assms(1)] by (auto simp: check_contract_def result_simps)
  moreover have "final_block V c (pin_finality (cf_pin captured)) b" by (rule resolveFinalizedBlock_final [OF k(3)])
  moreover note bind_method_Result [OF cid(1)] cid(2) bind_method_Result [OF call(1)]
    validateLocksCallRequest_Inr [OF assms(1) call(2)] call(3)
  ultimately show ?thesis unfolding chain_shows_def by blast
qed


section \<open>The fields of a row\<close>

definition row_agrees :: "locks_row \<Rightarrow> string \<Rightarrow> string \<Rightarrow> string \<Rightarrow> lock_terms \<Rightarrow> bool" where
  "row_agrees row payee payer token terms \<longleftrightarrow>
     same_text_address (lk_payee row) payee \<and> same_text_address (lk_payer row) payer
     \<and> same_text_address (lk_token row) token \<and> bigint_of (lt_amount terms) = Some (lk_amount row)
     \<and> lk_claimByMs row = lt_claimByMs terms \<and> lk_refundAfterMs row = lt_refundAfterMs terms"

lemma unless_same_Inr:
  "viem_addresses_ok V \<Longrightarrow> unless_same V a b m = Inr u \<Longrightarrow> same_text_address a b"
  using same_address_Inr [of V a b] by (auto simp: unless_same_def mismatch_if_def split: sum.splits if_splits)

lemma asset_slot_Own: "asset_slot cfg name = OwnAsset a \<longleftrightarrow> map_of (cf_assets cfg) name = Some a"
  by (simp add: asset_slot_def split: option.splits)

lemma firstFieldMismatch_Inr:
  assumes "viem_addresses_ok V" "firstFieldMismatch V row payee (Some payer) (asset_slot cfg (lt_asset terms)) terms = Inr u"
    "asset_slot cfg (lt_asset terms) \<noteq> NoAsset"
  obtains token where "map_of (cf_assets cfg) (lt_asset terms) = Some token" "row_agrees row payee payer token terms"
proof -
  obtain amount where k: "unless_same V (lk_payee row) payee MPayee = Inr ()"
    "unless_token V (lk_token row) (asset_slot cfg (lt_asset terms)) = Inr ()"
    "bigint_of (lt_amount terms) = Some amount" "lk_amount row = amount" "lk_claimByMs row = lt_claimByMs terms"
    "lk_refundAfterMs row = lt_refundAfterMs terms" "unless_same V (lk_payer row) payer MPayer = Inr u"
    using assms(2) by (auto simp: firstFieldMismatch_def result_simps)
  obtain token where t: "asset_slot cfg (lt_asset terms) = OwnAsset token" "unless_same V (lk_token row) token MToken = Inr ()"
    using k(2) assms(3) by (cases "asset_slot cfg (lt_asset terms)") (auto simp: unless_token_def)
  show thesis
    using that [of token] t k unless_same_Inr [OF assms(1)] by (auto simp: row_agrees_def asset_slot_Own)
qed

definition status_code :: "rail_status \<Rightarrow> int" where
  "status_code st = (case st of RLocked \<Rightarrow> 1 | RClaimed \<Rightarrow> 2 | RRefunded \<Rightarrow> 3)"

lemma concluded_fields [simp]:
  "le_railVerified (lg_lock (concluded base v r ob)) = v" "lg_rail (concluded base v r ob) = ob"
  by (simp_all add: concluded_def)

lemma evm_observation_fields [simp]:
  "ob_status (evm_observation st base) = st" "ob_final (evm_observation st base)"
  "ob_rail (evm_observation st base) = Some (le_rail base)" "ob_ref (evm_observation st base) = Some (le_ref base)"
  "ob_terms (evm_observation st base) = Some (le_terms base)"
  "ob_contract (evm_observation st base) = Some (lt_contract (le_terms base))"
  "ob_finalizedRef (evm_observation st base) = le_finalizedRef base"
  by (simp_all add: evm_observation_def railBinding_def)

lemma settled_row_Some:
  assumes "settled_row V terms cfg acc base row st label = Inr e" "lg_rail e = Some ob"
  obtains payee payer where "ea_payee acc = Some payee" "ea_payer acc = Some payer"
    "asset_slot cfg (lt_asset terms) \<noteq> NoAsset"
    "firstFieldMismatch V row payee (Some payer) (asset_slot cfg (lt_asset terms)) terms = Inr ()"
    "ob = evm_observation st base" "le_railVerified (lg_lock e) = Some False"
  using assms by (auto simp: settled_row_def split: option.splits if_splits sum.splits)

lemma settled_row_unverified:
  "settled_row V terms cfg acc base row st label = Inr e \<Longrightarrow> le_railVerified (lg_lock e) \<noteq> Some True"
  by (auto simp: settled_row_def split: option.splits if_splits sum.splits)

lemma locked_row_Some:
  assumes "locked_row V terms cfg acc base row = Inr e"
  shows "lg_rail e = Some (evm_observation RLocked base)"
  using assms by (auto simp: locked_row_def Let_def split: option.splits if_splits sum.splits)

lemma locked_row_True:
  assumes "locked_row V terms cfg acc base row = Inr e" "le_railVerified (lg_lock e) = Some True"
  obtains payee payer where "ea_payee acc = Some payee" "ea_payer acc = Some payer"
    "asset_slot cfg (lt_asset terms) \<noteq> NoAsset"
    "firstFieldMismatch V row payee (Some payer) (asset_slot cfg (lt_asset terms)) terms = Inr ()"
  using assms by (auto simp: locked_row_def Let_def split: option.splits if_splits sum.splits)

lemma judge_row_Some:
  assumes "judge_row V terms cfg acc base row = Inr e" "lg_rail e = Some ob"
  shows "ob = evm_observation (ob_status ob) base \<and> lk_status row = status_code (ob_status ob)
    \<and> (ob_status ob \<noteq> RLocked \<longrightarrow> (\<exists>label. settled_row V terms cfg acc base row (ob_status ob) label = Inr e))
    \<and> (ob_status ob = RLocked \<longrightarrow> locked_row V terms cfg acc base row = Inr e)"
proof -
  have settled: "ob = evm_observation st base" if "settled_row V terms cfg acc base row st label = Inr e" for st label
    using settled_row_Some [OF that assms(2)] by blast
  have locked: "ob = evm_observation RLocked base" if "locked_row V terms cfg acc base row = Inr e"
    using locked_row_Some [OF that] assms(2) by simp
  show ?thesis
    using assms settled locked unfolding judge_row_def status_code_def
    by (auto split: if_splits)
qed

lemma judge_row_True:
  assumes "judge_row V terms cfg acc base row = Inr e" "le_railVerified (lg_lock e) = Some True"
  shows "lk_status row = 1" "locked_row V terms cfg acc base row = Inr e"
  using assms settled_row_unverified [of V terms cfg acc base row] unfolding judge_row_def
  by (fastforce split: if_splits)+

text \<open>The base of everything said once the block is known.\<close>

definition final_base :: "lock_terms \<Rightarrow> capture_index \<Rightarrow> evm_config \<Rightarrow> finalized_block \<Rightarrow> lock_evidence" where
  "final_base terms ci captured b =
     (evidence_base terms ci (cf_endpoint captured))\<lparr>le_finalizedRef := Some (finalized_ref captured b)\<rparr>"

lemma evmEvidence_row:
  assumes "evmEvidence V terms cfg acc c = Inr e" "le_railVerified (lg_lock e) = Some True \<or> lg_rail e \<noteq> None"
  obtains captured row b where "ci_error (cp_index c) = None" "\<not> hashLockRefMismatch terms (ci_hashLock (cp_index c))"
    "checkEvmRailConfig V (ci_config (cp_index c)) = Inr captured" "same_deployment V terms cfg captured = Inr ()"
    "captured_row V c cfg captured = Inr (row, b)"
    "judge_row V terms cfg acc (final_base terms (cp_index c) captured b) row = Inr e"
proof -
  have base: "(evidence_base terms ci x)\<lparr>le_endpoint := Some y\<rparr> = evidence_base terms ci y" for ci x y
    by (simp add: evidence_base_def)
  show thesis
    using assms that unfolding evmEvidence_def Let_def final_base_def base
    by (auto simp: answered_def split: option.splits if_splits sum.splits prod.splits)
qed

end
