(* ===== verification/Evm_Capture.thy ===== *)
theory Evm_Capture
  imports Evm_Properties
begin

text \<open>
  The live half of the EVM evidence: \<open>CapturingRpc\<close> of \<open>src/rails/rpc-capture.ts\<close> and
  \<open>captureEvmLeg\<close> with \<open>EvmHtlcRail.verifyLockFinal\<close>. The node, the clock and the digest
  are the fields of \<open>rpc_env\<close>; the node answers each call of the instance as it likes. An
  action takes the state of the instance and answers a value or the message of an exception, and the
  new state.
\<close>

section \<open>The capturing client\<close>

text \<open>\<open>Exchange\<close>. The convenience decode \<open>responseBody\<close> is a function of the bytes.\<close>

record exchange =
  xc_method :: string
  xc_params :: jsval
  xc_requestBody :: string
  xc_responseBytes :: bytes
  xc_responseSha256 :: string
  xc_atMs :: int
  xc_path :: "string option"

datatype fetched = Fetched "int option" bytes | FetchFailed string

text \<open>
  \<open>en_fetch\<close>: the reply to the n-th call, with the length its header declares, if it declares
  a number; an abort by the timer is a failed fetch. \<open>en_garbled\<close> is what
  \<open>JSON.parse\<close> makes of a reply that is not text of 8-bit characters, after the lossy decode.
\<close>

record rpc_env =
  en_endpoint :: string
  en_fetch :: "nat \<Rightarrow> string \<Rightarrow> string \<Rightarrow> fetched"
  en_clock :: "nat \<Rightarrow> int"
  en_sha256 :: "bytes \<Rightarrow> string"
  en_garbled :: "bytes \<Rightarrow> jsval option"
  en_maxResponseBytes :: nat

definition DEFAULT_MAX_RESPONSE_BYTES :: nat where
  "DEFAULT_MAX_RESPONSE_BYTES = 4 * 1024 * 1024"

record rpc =
  rp_log :: "exchange list"
  rp_nextId :: nat
  rp_namespace :: "string option"
  rp_counter :: nat
  rp_calls :: nat

definition new_rpc :: rpc where
  "new_rpc = \<lparr>rp_log = [], rp_nextId = 1, rp_namespace = None, rp_counter = 0, rp_calls = 0\<rparr>"

datatype rpc_failure = PlainError string | RpcCaptureError jsnum string "string option" jsval jsval

fun failure_message :: "rpc_failure \<Rightarrow> string" where
  "failure_message (PlainError m) = m"
| "failure_message (RpcCaptureError code m name cause data) = m"

definition setIdNamespace :: "string option \<Rightarrow> rpc \<Rightarrow> rpc" where
  "setIdNamespace ns rp = rp\<lparr>rp_namespace := ns, rp_counter := 0\<rparr>"

definition mintId :: "rpc \<Rightarrow> jsval \<times> rpc" where
  "mintId rp =
     (case rp_namespace rp of
        None \<Rightarrow> (int_jsval (int (rp_nextId rp)), rp\<lparr>rp_nextId := rp_nextId rp + 1\<rparr>)
      | Some ns \<Rightarrow>
          (let n = rp_counter rp + 1 in (Str (ns @ CHR '':'' # show_nat n), rp\<lparr>rp_counter := n\<rparr>)))"

definition params_or_none :: "jsval \<Rightarrow> jsval" where
  "params_or_none ps = (if ps \<in> {Undefined, Null} then Arr [] else ps)"

definition request_value :: "jsval \<Rightarrow> string \<Rightarrow> jsval \<Rightarrow> jsval" where
  "request_value i m ps = Obj [(''jsonrpc'', Str ''2.0''), (''id'', i), (''method'', Str m), (''params'', params_or_none ps)]"

definition oversized :: "rpc_env \<Rightarrow> int option \<Rightarrow> bool" where
  "oversized env len \<longleftrightarrow> (case len of None \<Rightarrow> False | Some n \<Rightarrow> int (en_maxResponseBytes env) < n)"

definition too_long :: "rpc_env \<Rightarrow> string \<Rightarrow> string \<Rightarrow> rpc_failure" where
  "too_long env m what =
     PlainError (''rpc-capture: response for '' @ m @ what @ '', exceeding maxResponseBytes ''
       @ show_nat (en_maxResponseBytes env) @ '' (endpoint '' @ en_endpoint env @ '')'')"

text \<open>The envelope of a reply: its result, or the error it carries.\<close>

definition error_message :: "jsval \<Rightarrow> string" where
  "error_message e = (case prop_of e ''message'' of Str m \<Rightarrow> m | _ \<Rightarrow> ''rpc error'')"

definition error_code :: "jsval \<Rightarrow> jsnum" where
  "error_code e = (case prop_of e ''code'' of Num n \<Rightarrow> n | _ \<Rightarrow> int_jsnum (- 32603))"

definition parse_reply :: "rpc_env \<Rightarrow> string \<Rightarrow> bytes \<Rightarrow> (rpc_failure, jsval) result" where
  "parse_reply env m bs =
     (case (case decode_text bs of Some t \<Rightarrow> json_parse t | None \<Rightarrow> en_garbled env bs) of
        None \<Rightarrow> Inl (PlainError (''rpc-capture: response for '' @ m @ '' is not valid JSON (endpoint '' @ en_endpoint env @ '')''))
      | Some v \<Rightarrow>
          if \<not> is_object v then Inl (PlainError (''rpc-capture: response for '' @ m @ '' is not a JSON-RPC object''))
          else if prop_of v ''error'' \<notin> {Undefined, Null} then
            (let e = prop_of v ''error''
             in Inl (RpcCaptureError (error_code e) (error_message e) (text_of (prop_of e ''name''))
                  (prop_of e ''cause'') (prop_of e ''data'')))
          else Inr (prop_of v ''result''))"

definition request :: "rpc_env \<Rightarrow> string \<Rightarrow> jsval \<Rightarrow> string option \<Rightarrow> rpc \<Rightarrow> (rpc_failure, jsval) result \<times> rpc" where
  "request env m ps path rp =
     (let (i, rp1) = mintId rp;
          body = printed (request_value i m ps);
          n = rp_calls rp1;
          rp2 = rp1\<lparr>rp_calls := n + 1\<rparr>;
          at_path = (if path = Some [] then None else path);
          url = (case at_path of None \<Rightarrow> en_endpoint env | Some p \<Rightarrow> en_endpoint env @ p)
      in case en_fetch env n url body of
           FetchFailed why \<Rightarrow> (Inl (PlainError why), rp2)
         | Fetched len bs \<Rightarrow>
             if oversized env len then
               (Inl (too_long env m ('' declares content-length '' @ show_int (the len))), rp2)
             else if oversized env (Some (int (length bs))) then
               (Inl (too_long env m ('' is '' @ show_nat (length bs) @ '' bytes'')), rp2)
             else
               (parse_reply env m bs,
                rp2\<lparr>rp_log := rp_log rp2 @
                  [\<lparr>xc_method = m, xc_params = params_or_none ps, xc_requestBody = body, xc_responseBytes = bs,
                    xc_responseSha256 = en_sha256 env bs, xc_atMs = en_clock env n, xc_path = at_path\<rparr>]\<rparr>))"

definition drain :: "rpc \<Rightarrow> exchange list \<times> rpc" where
  "drain rp = (rp_log rp, rp\<lparr>rp_log := []\<rparr>)"

text \<open>\<open>readCapture\<close> and \<open>writeCapture\<close> over the directory of raw bytes, and the map a
  live capture is judged from. The first exchange with a digest decides.\<close>

definition readCapture :: "(bytes \<Rightarrow> string) \<Rightarrow> (string \<Rightarrow> bytes option) \<Rightarrow> string \<Rightarrow> bytes option" where
  "readCapture H dir name =
     (if \<not> (length name = 64 \<and> only lower_hex name) then None
      else (case dir name of None \<Rightarrow> None | Some bs \<Rightarrow> if H bs = name then Some bs else None))"

definition writeCapture :: "exchange list \<Rightarrow> (string \<Rightarrow> bytes option) \<Rightarrow> (string \<Rightarrow> bytes option)" where
  "writeCapture xs dir =
     foldl (\<lambda>d x. if d (xc_responseSha256 x) = Some (xc_responseBytes x) then d
                  else d(xc_responseSha256 x \<mapsto> xc_responseBytes x)) dir xs"

definition verifiedExchangeBytes :: "(bytes \<Rightarrow> string) \<Rightarrow> exchange list \<Rightarrow> string \<Rightarrow> bytes option" where
  "verifiedExchangeBytes H xs name =
     (case List.find (\<lambda>x. xc_responseSha256 x = name) xs of
        None \<Rightarrow> None
      | Some x \<Rightarrow> if H (xc_responseBytes x) = name then Some (xc_responseBytes x) else None)"

section \<open>Capturing a leg\<close>

type_synonym 'a rpc_act = "rpc \<Rightarrow> (string, 'a) result \<times> rpc"

definition answer :: "'a \<Rightarrow> 'a rpc_act" where
  "answer a rp = (Inr a, rp)"

definition then_do :: "'a rpc_act \<Rightarrow> ('a \<Rightarrow> 'b rpc_act) \<Rightarrow> 'b rpc_act" where
  "then_do f g rp = (case f rp of (Inl m, rp') \<Rightarrow> (Inl m, rp') | (Inr a, rp') \<Rightarrow> g a rp')"

text \<open>A call that may throw, and one inside \<open>try\<close> with a default for \<open>catch\<close>.\<close>

definition call :: "rpc_env \<Rightarrow> string \<Rightarrow> jsval \<Rightarrow> jsval rpc_act" where
  "call env m ps rp =
     (case request env m ps None rp of
        (Inl e, rp') \<Rightarrow> (Inl (failure_message e), rp')
      | (Inr v, rp') \<Rightarrow> (Inr v, rp'))"

definition tried :: "rpc_env \<Rightarrow> string \<Rightarrow> jsval \<Rightarrow> jsval option rpc_act" where
  "tried env m ps rp = (case request env m ps None rp of (r, rp') \<Rightarrow> (Inr (caught r), rp'))"

definition negative :: "jsnum \<Rightarrow> bool" where
  "negative x \<longleftrightarrow> (case x of Fin q \<Rightarrow> q < 0 | NegInf \<Rightarrow> True | _ \<Rightarrow> False)"

definition readLiveNumberedBlockHash :: "viem \<Rightarrow> rpc_env \<Rightarrow> int \<Rightarrow> string option rpc_act" where
  "readLiveNumberedBlockHash V env confirmations =
     then_do (call env ''eth_blockNumber'' (Arr [])) (\<lambda>raw.
       case parseHexNumber V raw of
         None \<Rightarrow> answer None
       | Some latest \<Rightarrow>
           (let n = num_minus latest confirmations
            in if negative n then answer None
               else (case vi_numberToHex V n of
                       Inl m \<Rightarrow> (\<lambda>rp. (Inl m, rp))
                     | Inr hex \<Rightarrow>
                         then_do (call env ''eth_getBlockByNumber'' (Arr [Str hex, Bool False])) (\<lambda>v.
                           answer (blockResultHash v)))))"

text \<open>\<open>buildIndex\<close>; \<open>config_value\<close> is the configuration as the object it is.\<close>

definition finality_value :: "evm_finality \<Rightarrow> jsval" where
  "finality_value f =
     (case f of
        ByTag t k \<Rightarrow> Obj ([(''mode'', Str ''tag''), (''tag'', Str t)]
           @ (case k of None \<Rightarrow> [] | Some n \<Rightarrow> [(''fallbackConfirmations'', int_jsval n)]))
      | ByConfirmations n \<Rightarrow> Obj [(''mode'', Str ''confirmations''), (''confirmations'', int_jsval n)])"

definition pin_value :: "evm_pin \<Rightarrow> jsval" where
  "pin_value p =
     Obj [(''chainId'', int_jsval (pin_chainId p)), (''name'', Str (pin_name p)), (''caip2'', Str (pin_caip2 p)),
          (''finality'', finality_value (pin_finality p))]"

definition given :: "string \<Rightarrow> jsval option \<Rightarrow> (string \<times> jsval) list" where
  "given k v = (case v of None \<Rightarrow> [] | Some x \<Rightarrow> [(k, x)])"

definition config_value :: "evm_config \<Rightarrow> jsval" where
  "config_value c =
     Obj ([(''pin'', pin_value (cf_pin c)), (''endpoint'', Str (cf_endpoint c)), (''contract'', Str (cf_contract c)),
           (''assets'', Obj (map (\<lambda>(k, a). (k, Str a)) (cf_assets c)))]
          @ given ''receiptTimeoutMs'' (map_option int_jsval (cf_receiptTimeoutMs c))
          @ given ''contractCodeHash'' (map_option Str (cf_contractCodeHash c))
          @ given ''maxLogRange'' (map_option int_jsval (cf_maxLogRange c))
          @ given ''maxFeePerGasWei'' (cf_maxFeePerGasWei c))"

definition index_of_exchange :: "exchange \<Rightarrow> index_exchange" where
  "index_of_exchange x =
     \<lparr>ix_method = xc_method x, ix_params = xc_params x, ix_requestBody = xc_requestBody x,
      ix_responseSha256 = xc_responseSha256 x, ix_atMs = xc_atMs x\<rparr>"

definition buildIndex ::
    "evm_config \<Rightarrow> jsnum \<Rightarrow> string \<Rightarrow> int \<Rightarrow> string \<Rightarrow> exchange list \<Rightarrow> evm_finality \<Rightarrow> string option \<Rightarrow> capture_index" where
  "buildIndex cfg chainId hashLock checkedAtMs nonce xs finality err =
     \<lparr>ci_chainId = chainId, ci_caip2 = pin_caip2 (cf_pin cfg), ci_pin = pin_name (cf_pin cfg),
      ci_endpoint = cf_endpoint cfg, ci_contract = Str (cf_contract cfg), ci_hashLock = hashLock,
      ci_checkedAtMs = checkedAtMs, ci_finality = finality, ci_config = config_value cfg, ci_nonce = nonce,
      ci_error = err, ci_exchanges = map index_of_exchange xs\<rparr>"

text \<open>The finality an index records: the mode in force, without the fallback.\<close>

definition declared_finality :: "evm_finality \<Rightarrow> evm_finality" where
  "declared_finality f = (case f of ByConfirmations n \<Rightarrow> ByConfirmations n | ByTag t k \<Rightarrow> ByTag t None)"

definition final_block_hash :: "viem \<Rightarrow> rpc_env \<Rightarrow> evm_finality \<Rightarrow> (string option \<times> evm_finality) rpc_act" where
  "final_block_hash V env f =
     (case f of
        ByConfirmations n \<Rightarrow> then_do (readLiveNumberedBlockHash V env n) (\<lambda>h. answer (h, ByConfirmations n))
      | ByTag t k \<Rightarrow>
          then_do (tried env ''eth_getBlockByNumber'' (Arr [Str t, Bool False])) (\<lambda>v.
            case Option.bind v blockResultHash of
              Some h \<Rightarrow> answer (Some h, ByTag t None)
            | None \<Rightarrow>
                (case k of
                   None \<Rightarrow> answer (None, ByTag t None)
                 | Some n \<Rightarrow> then_do (readLiveNumberedBlockHash V env n) (\<lambda>h. answer (h, ByConfirmations n)))))"

text \<open>The reads after the chain id, inside the outer \<open>try\<close>.\<close>

definition leg_reads :: "viem \<Rightarrow> rpc_env \<Rightarrow> evm_config \<Rightarrow> string \<Rightarrow> evm_finality rpc_act" where
  "leg_reads V env cfg hashLock =
     then_do (if cf_contractCodeHash cfg = None then answer Undefined
              else call env ''eth_getCode'' (Arr [Str (cf_contract cfg), Str ''latest''])) (\<lambda>_.
     then_do (final_block_hash V env (pin_finality (cf_pin cfg))) (\<lambda>(h, f).
       case h of
         None \<Rightarrow> answer f
       | Some blockHash \<Rightarrow>
           then_do (tried env ''eth_call''
              (Arr [Obj [(''to'', Str (cf_contract cfg)), (''data'', Str (vi_locksCalldata V hashLock))],
                    Obj [(''blockHash'', Str blockHash)]])) (\<lambda>_. answer f)))"

record leg_end =
  ne_chainId :: jsnum
  ne_finality :: evm_finality
  ne_error :: "string option"

definition read_leg :: "viem \<Rightarrow> rpc_env \<Rightarrow> evm_config \<Rightarrow> string \<Rightarrow> rpc \<Rightarrow> leg_end \<times> rpc" where
  "read_leg V env cfg hashLock rp =
     (let declared = declared_finality (pin_finality (cf_pin cfg)) in
      case call env ''eth_chainId'' (Arr []) rp of
        (Inl m, rp') \<Rightarrow> (\<lparr>ne_chainId = int_jsnum 0, ne_finality = declared, ne_error = Some m\<rparr>, rp')
      | (Inr raw, rp') \<Rightarrow>
          (case parseHexNumber V raw of
             None \<Rightarrow> (\<lparr>ne_chainId = int_jsnum 0, ne_finality = declared, ne_error = None\<rparr>, rp')
           | Some n \<Rightarrow>
               (case leg_reads V env cfg hashLock rp' of
                  (Inl m, rp'') \<Rightarrow> (\<lparr>ne_chainId = n, ne_finality = declared, ne_error = Some m\<rparr>, rp'')
                | (Inr f, rp'') \<Rightarrow> (\<lparr>ne_chainId = n, ne_finality = f, ne_error = None\<rparr>, rp''))))"

text \<open>\<open>nonce\<close> is the answer of \<open>randomNonce\<close>.\<close>

definition captureEvmLeg ::
    "viem \<Rightarrow> rpc_env \<Rightarrow> evm_config \<Rightarrow> string \<Rightarrow> int \<Rightarrow> string \<Rightarrow> rpc \<Rightarrow> (capture_index \<times> exchange list) \<times> rpc" where
  "captureEvmLeg V env cfg hashLock nowMs nonce rp =
     (if \<not> hex32 hashLock then
        ((buildIndex cfg (int_jsnum 0) hashLock nowMs nonce [] (declared_finality (pin_finality (cf_pin cfg))) None, []), rp)
      else
        (let before = length (rp_log rp);
             (e, rp') = read_leg V env cfg hashLock (setIdNamespace (Some (id_namespace hashLock nowMs nonce)) rp);
             xs = drop before (rp_log rp')
         in ((buildIndex cfg (ne_chainId e) hashLock nowMs nonce xs (ne_finality e) (ne_error e), xs),
             setIdNamespace None rp')))"

text \<open>\<open>EvmHtlcRail.verifyLockFinal\<close>; \<open>now\<close> is the rail's clock.\<close>

definition verifyLockFinal ::
    "viem \<Rightarrow> rpc_env \<Rightarrow> evm_config \<Rightarrow> lock_terms \<Rightarrow> string \<Rightarrow> evm_accounts \<Rightarrow> int \<Rightarrow> string \<Rightarrow> rpc
      \<Rightarrow> (evm_throw, leg_evidence) result \<times> rpc" where
  "verifyLockFinal V env cfg terms ref acc now nonce rp =
     (if hashLockRefMismatch terms ref then
        (Inr (concluded \<lparr>le_rail = EVM_RAIL_ID, le_ref = ref, le_terms = terms, le_railVerified = None,
                le_checkedAtMs = now, le_finalizedRef = None, le_endpoint = Some (cf_endpoint cfg),
                le_reason = None, le_raw = None\<rparr> (Some False) RefLockMismatch None), rp)
      else
        (let ((ci, xs), rp') = captureEvmLeg V env cfg ref now nonce rp;
             c = \<lparr>cp_index = ci, cp_bytes = verifiedExchangeBytes (en_sha256 env) xs\<rparr>
         in case evmEvidence V terms cfg acc c of
              Inl t \<Rightarrow> (Inl t, rp')
            | Inr e \<Rightarrow> (Inr e, snd (drain rp'))))"

end
