(* ===== verification/Evm_Honest.thy ===== *)
theory Evm_Honest
  imports Evm_Capture
begin

text \<open>
  A live read against a node that answers truthfully: what \<open>captureEvmLeg\<close> records binds to
  its own requests, and \<open>verifyLockFinal\<close> accepts a lock that is on the chain as agreed.
\<close>

section \<open>A truthful node\<close>

text \<open>\<open>R m ps\<close> is the chain's answer to a call; the node repeats the id of the request.\<close>

definition reply_value :: "jsval \<Rightarrow> jsval \<Rightarrow> jsval" where
  "reply_value i v = Obj [(''jsonrpc'', Str ''2.0''), (''id'', i), (''result'', v)]"

definition reply_bytes :: "jsval \<Rightarrow> jsval \<Rightarrow> bytes" where
  "reply_bytes i v = utf8 (printed (reply_value i v))"

definition node_reply :: "(string \<Rightarrow> jsval \<Rightarrow> jsval) \<Rightarrow> string \<Rightarrow> fetched" where
  "node_reply R body =
     (case json_parse body of
        None \<Rightarrow> FetchFailed ''bad request''
      | Some v \<Rightarrow> Fetched None (reply_bytes (prop_of v ''id'')
          (R (case prop_of v ''method'' of Str m \<Rightarrow> m | _ \<Rightarrow> []) (prop_of v ''params''))))"

definition truthful :: "rpc_env \<Rightarrow> (string \<Rightarrow> jsval \<Rightarrow> jsval) \<Rightarrow> bool" where
  "truthful env R \<longleftrightarrow> (\<forall>n url body. en_fetch env n url body = node_reply R body)"

definition call_id :: "string \<Rightarrow> nat \<Rightarrow> jsval" where
  "call_id ns k = Str (ns @ CHR '':'' # show_nat k)"

text \<open>What the instance needs of one call: values that print, a reply within the bound.\<close>

definition fits :: "rpc_env \<Rightarrow> string \<Rightarrow> nat \<Rightarrow> (string \<Rightarrow> jsval \<Rightarrow> jsval) \<Rightarrow> string \<Rightarrow> jsval list \<Rightarrow> bool" where
  "fits env ns k R m ps \<longleftrightarrow>
     plain_json (Arr ps) \<and> plain_json (R m (Arr ps))
     \<and> length (reply_bytes (call_id ns k) (R m (Arr ps))) \<le> en_maxResponseBytes env"

definition seen :: "rpc_env \<Rightarrow> string \<Rightarrow> (string \<Rightarrow> jsval \<Rightarrow> jsval) \<Rightarrow> nat \<Rightarrow> nat \<Rightarrow> string \<Rightarrow> jsval list \<Rightarrow> exchange" where
  "seen env ns R n k m ps =
     (let bs = reply_bytes (call_id ns k) (R m (Arr ps)) in
      \<lparr>xc_method = m, xc_params = Arr ps, xc_requestBody = printed (request_value (call_id ns k) m (Arr ps)),
       xc_responseBytes = bs, xc_responseSha256 = en_sha256 env bs, xc_atMs = en_clock env n, xc_path = None\<rparr>)"

definition after :: "rpc_env \<Rightarrow> string \<Rightarrow> (string \<Rightarrow> jsval \<Rightarrow> jsval) \<Rightarrow> string \<Rightarrow> jsval list \<Rightarrow> rpc \<Rightarrow> rpc" where
  "after env ns R m ps rp =
     rp\<lparr>rp_counter := rp_counter rp + 1, rp_calls := rp_calls rp + 1,
        rp_log := rp_log rp @ [seen env ns R (rp_calls rp) (rp_counter rp + 1) m ps]\<rparr>"

lemma plain_key: "array_index ''jsonrpc'' = False" "array_index ''id'' = False" "array_index ''method'' = False"
  "array_index ''params'' = False" "array_index ''result'' = False" "array_index ''to'' = False"
  "array_index ''data'' = False" "array_index ''blockHash'' = False"
  by code_simp+

lemma request_value_plain: "plain_json (Arr ps) \<Longrightarrow> plain_json (request_value (call_id ns k) m (Arr ps))"
  by (simp add: request_value_def params_or_none_def call_id_def inserted_keys_def plain_key)

lemma reply_value_plain: "plain_json v \<Longrightarrow> plain_json (reply_value (call_id ns k) v)"
  by (simp add: reply_value_def call_id_def inserted_keys_def plain_key)

lemma request_fields:
  "prop_of (request_value i m (Arr ps)) ''id'' = i" "prop_of (request_value i m (Arr ps)) ''method'' = Str m"
  "prop_of (request_value i m (Arr ps)) ''params'' = Arr ps" "is_object (request_value i m (Arr ps))"
  by (simp_all add: request_value_def params_or_none_def prop_of_def field_of_def is_object_def)

lemma reply_fields:
  "prop_of (reply_value i v) ''id'' = i" "prop_of (reply_value i v) ''result'' = v"
  "prop_of (reply_value i v) ''error'' = Undefined" "is_object (reply_value i v)"
  by (simp_all add: reply_value_def prop_of_def field_of_def is_object_def)

lemma parse_reply_truthful:
  "plain_json v \<Longrightarrow> parse_reply env m (reply_bytes (call_id ns k) v) = Inr v"
  using json_parse_printed [OF reply_value_plain, of v ns k]
  by (simp add: parse_reply_def reply_bytes_def reply_fields)

lemma request_truthful:
  assumes "truthful env R" "rp_namespace rp = Some ns" "fits env ns (rp_counter rp + 1) R m ps"
  shows "request env m (Arr ps) None rp = (Inr (R m (Arr ps)), after env ns R m ps rp)"
proof -
  let ?k = "rp_counter rp + 1"
  have p: "plain_json (Arr ps)" "plain_json (R m (Arr ps))"
    "length (reply_bytes (call_id ns ?k) (R m (Arr ps))) \<le> en_maxResponseBytes env"
    using assms(3) by (simp_all only: fits_def)
  have "node_reply R (printed (request_value (call_id ns ?k) m (Arr ps)))
      = Fetched None (reply_bytes (call_id ns ?k) (R m (Arr ps)))"
    using json_parse_printed [OF request_value_plain [OF p(1)]] by (simp add: node_reply_def request_fields)
  moreover have "mintId rp = (call_id ns ?k, rp\<lparr>rp_counter := ?k\<rparr>)"
    using assms(2) by (simp add: mintId_def call_id_def Let_def)
  ultimately show ?thesis
    using assms(1) p parse_reply_truthful [OF p(2)]
    by (simp add: request_def truthful_def Let_def oversized_def after_def seen_def params_or_none_def)
qed

lemma after_fields [simp]:
  "rp_namespace (after env ns R m ps rp) = rp_namespace rp" "rp_counter (after env ns R m ps rp) = rp_counter rp + 1"
  "rp_log (after env ns R m ps rp) = rp_log rp @ [seen env ns R (rp_calls rp) (rp_counter rp + 1) m ps]"
  by (simp_all add: after_def)

section \<open>What was recorded binds\<close>

lemma seen_fields [simp]:
  "xc_method (seen env ns R n k m ps) = m"
  "xc_responseSha256 (seen env ns R n k m ps) = en_sha256 env (reply_bytes (call_id ns k) (R m (Arr ps)))"
  "xc_responseBytes (seen env ns R n k m ps) = reply_bytes (call_id ns k) (R m (Arr ps))"
  "ix_method (index_of_exchange x) = xc_method x" "ix_params (index_of_exchange x) = xc_params x"
  "ix_responseSha256 (index_of_exchange x) = xc_responseSha256 x"
  "xc_params (seen env ns R n k m ps) = Arr ps"
  by (simp_all add: seen_def Let_def index_of_exchange_def)

lemma bind_seen:
  assumes "fits env ns k R m ps"
    "ns = id_namespace (ci_hashLock (cp_index c)) (ci_checkedAtMs (cp_index c)) (ci_nonce (cp_index c))"
    "cp_bytes c (en_sha256 env (reply_bytes (call_id ns k) (R m (Arr ps)))) = Some (reply_bytes (call_id ns k) (R m (Arr ps)))"
  shows "bindExchange c (Some (index_of_exchange (seen env ns R n k m ps))) l
    = Inr (\<lparr>rq_id = call_id ns k, rq_method = m, rq_params = Arr ps\<rparr>, Result (R m (Arr ps)))"
proof -
  have p: "plain_json (Arr ps)" "plain_json (R m (Arr ps))" using assms(1) by (simp_all only: fits_def)
  have rq: "parseRequestBody (index_of_exchange (seen env ns R n k m ps))
      = Some \<lparr>rq_id = call_id ns k, rq_method = m, rq_params = Arr ps\<rparr>"
    using json_parse_printed [OF request_value_plain [OF p(1)], of ns k m]
    by (simp add: parseRequestBody_def index_of_exchange_def seen_def Let_def request_fields call_id_def)
  have ib: "idBoundToCapture (cp_index c) (call_id ns k)"
    by (simp add: idBoundToCapture_def call_id_def assms(2) starts_with_def)
  show ?thesis
    using rq ib assms(3) json_parse_printed [OF reply_value_plain [OF p(2)], of ns k]
    by (simp add: bindExchange_def sameJson_def reply_bytes_def reply_fields)
qed

lemma verified_bytes_mem:
  assumes "\<And>x. x \<in> set xs \<Longrightarrow> xc_responseSha256 x = H (xc_responseBytes x)" "inj_on H (xc_responseBytes ` set xs)" "x \<in> set xs"
  shows "verifiedExchangeBytes H xs (H (xc_responseBytes x)) = Some (xc_responseBytes x)"
proof -
  obtain y where y: "List.find (\<lambda>z. xc_responseSha256 z = H (xc_responseBytes x)) xs = Some y"
    using assms(1,3) by (cases "List.find (\<lambda>z. xc_responseSha256 z = H (xc_responseBytes x)) xs") (auto simp: find_None_iff)
  then have "y \<in> set xs" "H (xc_responseBytes y) = H (xc_responseBytes x)"
    using assms(1) by (auto simp: find_Some_iff)
  then have "xc_responseBytes y = xc_responseBytes x" using assms(2,3) by (meson imageI inj_onD)
  then show ?thesis using y by (simp add: verifiedExchangeBytes_def)
qed


section \<open>A capture by tag\<close>

type_synonym made_call = "nat \<times> nat \<times> string \<times> jsval list"

definition seen_of :: "rpc_env \<Rightarrow> string \<Rightarrow> (string \<Rightarrow> jsval \<Rightarrow> jsval) \<Rightarrow> made_call \<Rightarrow> exchange" where
  "seen_of env ns R q = (case q of (n, k, m, ps) \<Rightarrow> seen env ns R n k m ps)"

definition call_method :: "made_call \<Rightarrow> string" where
  "call_method q = fst (snd (snd q))"

text \<open>A capture whose exchanges are those calls, each with its bytes.\<close>

definition records :: "rpc_env \<Rightarrow> string \<Rightarrow> (string \<Rightarrow> jsval \<Rightarrow> jsval) \<Rightarrow> made_call list \<Rightarrow> evm_capture \<Rightarrow> bool" where
  "records env ns R qs c \<longleftrightarrow>
     ns = id_namespace (ci_hashLock (cp_index c)) (ci_checkedAtMs (cp_index c)) (ci_nonce (cp_index c))
     \<and> ci_exchanges (cp_index c) = map (\<lambda>q. index_of_exchange (seen_of env ns R q)) qs
     \<and> cp_bytes c = verifiedExchangeBytes (en_sha256 env) (map (seen_of env ns R) qs)
     \<and> distinct (map call_method qs)
     \<and> inj_on (en_sha256 env) (xc_responseBytes ` set (map (seen_of env ns R) qs))
     \<and> (\<forall>(n, k, m, ps) \<in> set qs. fits env ns k R m ps)"

lemma seen_of_fields [simp]:
  "xc_method (seen_of env ns R q) = call_method q"
  "xc_responseSha256 (seen_of env ns R q) = en_sha256 env (xc_responseBytes (seen_of env ns R q))"
  by (simp_all add: seen_of_def call_method_def split: prod.split)

lemma find_call:
  assumes "distinct (map call_method qs)" "q \<in> set qs"
  shows "findByMethod (map (\<lambda>q. index_of_exchange (seen_of env ns R q)) qs) (call_method q)
    = Some (index_of_exchange (seen_of env ns R q))"
  using assms by (induction qs) (auto simp: findByMethod_def)

lemma records_bind:
  assumes "records env ns R qs c" "(n, k, m, ps) \<in> set qs"
  shows "bindExchange c (Some (index_of_exchange (seen env ns R n k m ps))) l
      = Inr (\<lparr>rq_id = call_id ns k, rq_method = m, rq_params = Arr ps\<rparr>, Result (R m (Arr ps)))"
    "findByMethod (ci_exchanges (cp_index c)) m = Some (index_of_exchange (seen env ns R n k m ps))"
proof -
  note r = assms(1) [unfolded records_def]
  have mem: "seen_of env ns R (n, k, m, ps) \<in> set (map (seen_of env ns R) qs)" using assms(2) by simp
  have "verifiedExchangeBytes (en_sha256 env) (map (seen_of env ns R) qs)
      (en_sha256 env (xc_responseBytes (seen_of env ns R (n, k, m, ps)))) = Some (xc_responseBytes (seen_of env ns R (n, k, m, ps)))"
    by (rule verified_bytes_mem [OF _ _ mem]) (use r in auto)
  then have "cp_bytes c (en_sha256 env (reply_bytes (call_id ns k) (R m (Arr ps)))) = Some (reply_bytes (call_id ns k) (R m (Arr ps)))"
    using r by (simp add: seen_of_def)
  moreover have "fits env ns k R m ps" using r assms(2) by blast
  ultimately show "bindExchange c (Some (index_of_exchange (seen env ns R n k m ps))) l
      = Inr (\<lparr>rq_id = call_id ns k, rq_method = m, rq_params = Arr ps\<rparr>, Result (R m (Arr ps)))"
    using r by (intro bind_seen) blast+
  show "findByMethod (ci_exchanges (cp_index c)) m = Some (index_of_exchange (seen env ns R n k m ps))"
    using find_call [of qs "(n, k, m, ps)" env ns R] r assms(2) by (simp add: seen_of_def call_method_def)
qed

lemma records_block_calls:
  assumes "records env ns R qs c" "(n, k, ''eth_getBlockByNumber'', ps) \<in> set qs"
  shows "block_calls c = [index_of_exchange (seen env ns R n k ''eth_getBlockByNumber'' ps)]"
proof -
  have "List.filter (\<lambda>x. ix_method x = call_method q) (map (\<lambda>q. index_of_exchange (seen_of env ns R q)) qs)
      = [index_of_exchange (seen_of env ns R q)]" if "distinct (map call_method qs)" "q \<in> set qs" for q qs
    using that by (induction qs) (auto simp del: split_paired_All simp: filter_empty_conv split_paired_all dest: image_eqI [OF sym])
  from this [of qs "(n, k, ''eth_getBlockByNumber'', ps)"] show ?thesis
    using assms by (simp add: block_calls_def records_def call_method_def seen_of_def)
qed

definition lock_call_params :: "viem \<Rightarrow> evm_config \<Rightarrow> string \<Rightarrow> string \<Rightarrow> jsval list" where
  "lock_call_params V cfg hashLock h =
     [Obj [(''to'', Str (cf_contract cfg)), (''data'', Str (vi_locksCalldata V hashLock))], Obj [(''blockHash'', Str h)]]"

text \<open>The chain the node speaks of: its id, the pinned code at the contract, the finalized block
  under the tag, and the row of the lock in that block.\<close>

definition chain_has ::
    "viem \<Rightarrow> (string \<Rightarrow> jsval \<Rightarrow> jsval) \<Rightarrow> evm_config \<Rightarrow> string \<Rightarrow> string \<Rightarrow> string \<Rightarrow> locks_row \<Rightarrow> bool" where
  "chain_has V R cfg tag hashLock h row \<longleftrightarrow>
     parseHexNumber V (R ''eth_chainId'' (Arr [])) = Some (int_jsnum (pin_chainId (cf_pin cfg)))
     \<and> (\<forall>pinned. cf_contractCodeHash cfg = Some pinned \<longrightarrow>
          (\<exists>code. R ''eth_getCode'' (Arr [Str (cf_contract cfg), Str ''latest'']) = Str code \<and> HEX_BYTES code
             \<and> 2 < length code \<and> toLowerCase (vi_keccak256 V code) = toLowerCase pinned))
     \<and> blockResultHash (R ''eth_getBlockByNumber'' (Arr [Str tag, Bool False])) = Some h
     \<and> (\<exists>n. blockResultNumber V (R ''eth_getBlockByNumber'' (Arr [Str tag, Bool False])) = Some n)
     \<and> vi_decodeLocks V (R ''eth_call'' (Arr (lock_call_params V cfg hashLock h))) = Some row"

definition leg_calls :: "viem \<Rightarrow> evm_config \<Rightarrow> string \<Rightarrow> string \<Rightarrow> string \<Rightarrow> nat \<Rightarrow> made_call list" where
  "leg_calls V cfg tag hashLock h n =
     (if cf_contractCodeHash cfg = None then
        [(n, 1, ''eth_chainId'', []),
         (n + 1, 2, ''eth_getBlockByNumber'', [Str tag, Bool False]),
         (n + 2, 3, ''eth_call'', lock_call_params V cfg hashLock h)]
      else
        [(n, 1, ''eth_chainId'', []),
         (n + 1, 2, ''eth_getCode'', [Str (cf_contract cfg), Str ''latest'']),
         (n + 2, 3, ''eth_getBlockByNumber'', [Str tag, Bool False]),
         (n + 3, 4, ''eth_call'', lock_call_params V cfg hashLock h)])"

lemma leg_calls_distinct: "distinct (map call_method (leg_calls V cfg tag hashLock h n))"
  by (simp add: leg_calls_def call_method_def)

lemma call_truthful:
  assumes "truthful env R" "rp_namespace rp = Some ns" "fits env ns (rp_counter rp + 1) R m ps"
  shows "call env m (Arr ps) rp = (Inr (R m (Arr ps)), after env ns R m ps rp)"
    "tried env m (Arr ps) rp = (Inr (Some (R m (Arr ps))), after env ns R m ps rp)"
  using request_truthful [OF assms] by (simp_all add: call_def tried_def)

lemma read_leg_truthful:
  assumes "truthful env R" "rp_namespace rp = Some ns" "rp_counter rp = 0"
    "pin_finality (cf_pin cfg) = ByTag tag k" "chain_has V R cfg tag hashLock h row"
    "\<forall>(n, k, m, ps) \<in> set (leg_calls V cfg tag hashLock h (rp_calls rp)). fits env ns k R m ps"
  obtains rp' where "read_leg V env cfg hashLock rp
      = (\<lparr>ne_chainId = int_jsnum (pin_chainId (cf_pin cfg)), ne_finality = ByTag tag None, ne_error = None\<rparr>, rp')"
    "rp_log rp' = rp_log rp @ map (seen_of env ns R) (leg_calls V cfg tag hashLock h (rp_calls rp))"
proof (cases "cf_contractCodeHash cfg")
  case None
  have f: "fits env ns 1 R ''eth_chainId'' []" "fits env ns 2 R ''eth_getBlockByNumber'' [Str tag, Bool False]"
    "fits env ns 3 R ''eth_call'' (lock_call_params V cfg hashLock h)"
    using assms(6) None by (simp_all add: leg_calls_def eval_nat_numeral)
  show ?thesis
    by (rule that, use assms(2-5) f call_truthful [OF assms(1)] None in
        \<open>simp add: read_leg_def leg_reads_def then_do_def final_block_hash_def answer_def chain_has_def declared_finality_def
          eval_nat_numeral flip: lock_call_params_def\<close>)
      (simp add: leg_calls_def seen_of_def None after_def assms(3) eval_nat_numeral)
next
  case (Some pinned)
  have f: "fits env ns 1 R ''eth_chainId'' []" "fits env ns 2 R ''eth_getCode'' [Str (cf_contract cfg), Str ''latest'']"
    "fits env ns 3 R ''eth_getBlockByNumber'' [Str tag, Bool False]"
    "fits env ns 4 R ''eth_call'' (lock_call_params V cfg hashLock h)"
    using assms(6) Some by (simp_all add: leg_calls_def eval_nat_numeral)
  show ?thesis
    by (rule that, use assms(2-5) f call_truthful [OF assms(1)] Some in
        \<open>simp add: read_leg_def leg_reads_def then_do_def final_block_hash_def answer_def chain_has_def declared_finality_def
          eval_nat_numeral flip: lock_call_params_def\<close>)
      (simp add: leg_calls_def seen_of_def Some after_def assms(3) eval_nat_numeral)
qed


section \<open>The verdict\<close>

lemma refuse_if_False [simp]: "refuse_if False r = Inr ()"
  by (simp add: refuse_if_def)

lemma answer_or_Result [simp]: "answer_or e (Result v) = Inr v" "reasoned (Inr a) = Inr a"
  by (simp_all add: answer_or_def reasoned_def)

lemma same_address_ok:
  "viem_addresses_ok V \<Longrightarrow> HEX_ADDRESS a \<Longrightarrow> HEX_ADDRESS b \<Longrightarrow> same_address V a b = Inr (same_text_address a b)"
  by (simp add: same_address_def viem_addresses_okD(2) same_text_address_def)

lemma is_this_address_ok:
  "viem_addresses_ok V \<Longrightarrow> HEX_ADDRESS a \<Longrightarrow> HEX_ADDRESS b \<Longrightarrow> is_this_address V (Str a) b = Inr (same_text_address a b)"
  by (simp add: is_this_address_def isValidAddressShape_def viem_addresses_okD(1) same_address_ok)

lemma same_text_address_refl [simp]: "same_text_address a a"
  by (simp add: same_text_address_def)

lemma same_deployment_self:
  assumes "viem_addresses_ok V" "HEX_ADDRESS (cf_contract cfg)" "map_of (cf_assets cfg) (lt_asset terms) = Some token" "HEX_ADDRESS token"
  shows "same_deployment V terms cfg cfg = Inr ()"
proof -
  have "finalityAtLeastAsStrong f f" for f by (cases f) (auto simp: finalityAtLeastAsStrong_def)
  moreover have "asset_slot cfg (lt_asset terms) = OwnAsset token" using assms(3) by (simp add: asset_slot_Own)
  ultimately show ?thesis
    using assms by (simp add: same_deployment_def Let_def same_address_ok same_slot_def)
qed

text \<open>A capture that records the calls of a leg shows the row.\<close>

lemma records_row:
  assumes V: "viem_addresses_ok V" and r: "records env ns R (leg_calls V cfg tag hashLock h n) c"
    and hl: "ci_hashLock (cp_index c) = hashLock" and ct: "ci_contract (cp_index c) = Str (cf_contract cfg)"
    and a: "HEX_ADDRESS (cf_contract cfg)" and f: "pin_finality (cf_pin cfg) = ByTag tag k"
    and ch: "chain_has V R cfg tag hashLock h row"
  obtains b where "captured_row V c cfg cfg = Inr (row, b)" "fb_hash b = h"
proof -
  define q where "q = leg_calls V cfg tag hashLock h n"
  have "\<exists>i j. (i, j, ''eth_getBlockByNumber'', [Str tag, Bool False]) \<in> set q"
    "\<exists>i j. (i, j, ''eth_call'', lock_call_params V cfg hashLock h) \<in> set q"
    by (auto simp: q_def leg_calls_def)
  moreover have "(n, Suc 0, ''eth_chainId'', []) \<in> set q" by (simp add: q_def leg_calls_def)
  ultimately obtain i1 i2 i3 i4 where calls: "(n, Suc 0, ''eth_chainId'', []) \<in> set q"
    "(i1, i2, ''eth_getBlockByNumber'', [Str tag, Bool False]) \<in> set q"
    "(i3, i4, ''eth_call'', lock_call_params V cfg hashLock h) \<in> set q"
    by blast
  note b = records_bind [OF r [folded q_def]]
  have id: "check_chain_id V c cfg = Inr ()"
    using ch by (simp add: check_chain_id_def b [OF calls(1)] chain_has_def)
  have code: "codePinReason V c cfg cfg pinned = Inr ()" if p: "cf_contractCodeHash cfg = Some pinned" for pinned
  proof -
    have m: "(Suc n, 2, ''eth_getCode'', [Str (cf_contract cfg), Str ''latest'']) \<in> set q"
      using p by (simp add: q_def leg_calls_def)
    obtain code where "R ''eth_getCode'' (Arr [Str (cf_contract cfg), Str ''latest'']) = Str code" "HEX_BYTES code"
      "2 < length code" "toLowerCase (vi_keccak256 V code) = toLowerCase pinned"
      using ch p by (auto simp: chain_has_def)
    then show ?thesis
      using p by (simp add: codePinReason_def b [OF m] is_this_address_ok [OF V a a] judgeRuntimeCode_def Let_def)
  qed
  have con: "check_contract V c cfg cfg = Inr ()"
    using code by (simp add: check_contract_def ct isValidAddressShape_def viem_addresses_okD(1) [OF V] a
        is_this_address_ok [OF V a a] split: option.split)
  obtain x where x: "blockResultHash (R ''eth_getBlockByNumber'' (Arr [Str tag, Bool False])) = Some h"
    "blockResultNumber V (R ''eth_getBlockByNumber'' (Arr [Str tag, Bool False])) = Some x"
    using ch by (auto simp: chain_has_def)
  have shape: "BLOCK_HASH_SHAPE h" using x(1) by (auto simp: blockResultHash_def split: if_splits jsval.splits)
  have "first_param_is tag (index_of_exchange (seen env ns R i1 i2 ''eth_getBlockByNumber'' [Str tag, Bool False]))"
    by (simp add: first_param_is_def)
  then have fin: "resolveFinalizedBlock V (pin_finality (cf_pin cfg)) c = Inr \<lparr>fb_number = x, fb_hash = h, fb_label = ''finalized''\<rparr>"
    by (simp add: resolveFinalizedBlock_def f records_block_calls [OF r [folded q_def] calls(2)] b(1) [OF calls(2)] tagged_block_def x)
  have call: "validateLocksCallRequest V \<lparr>rq_id = i, rq_method = m, rq_params = Arr (lock_call_params V cfg hashLock h)\<rparr> cfg hashLock h = Inr ()" for i m
    using a shape by (simp add: validateLocksCallRequest_def lock_call_params_def is_object_def
        prop_of_def field_of_def is_this_address_ok [OF V a a])
  have "read_row V c cfg h = Inr row"
    using ch by (simp add: read_row_def b [OF calls(3)] call hl chain_has_def)
  then show thesis using that id con fin by (simp add: captured_row_def)
qed

text \<open>The judgement of a row, spelled out.\<close>

lemma firstFieldMismatch_exact:
  assumes "viem_addresses_ok V" "map_of (cf_assets cfg) (lt_asset terms) = Some token" "bigint_of (lt_amount terms) \<noteq> None"
    "list_all HEX_ADDRESS [lk_payee row, lk_payer row, lk_token row, payee, payer, token]"
  shows "if row_agrees row payee payer token terms
    then firstFieldMismatch V row payee (Some payer) (asset_slot cfg (lt_asset terms)) terms = Inr ()
    else \<exists>m. firstFieldMismatch V row payee (Some payer) (asset_slot cfg (lt_asset terms)) terms = Inl (Inr m)"
proof -
  have s: "asset_slot cfg (lt_asset terms) = OwnAsset token" using assms(2) by (simp add: asset_slot_Own)
  obtain amount where amount: "bigint_of (lt_amount terms) = Some amount" using assms(3) by blast
  have u: "unless_same V a b m = mismatch_if (\<not> same_text_address a b) m" if "HEX_ADDRESS a" "HEX_ADDRESS b" for a b m
    using that by (simp add: unless_same_def viem_addresses_okD(2) [OF assms(1)] same_text_address_def)
  show ?thesis
    using assms(4) unfolding firstFieldMismatch_def s
    by (auto simp: row_agrees_def u unless_token_def mismatch_if_def amount)
qed

lemma judge_row_exact:
  assumes "viem_addresses_ok V" "map_of (cf_assets cfg) (lt_asset terms) = Some token" "bigint_of (lt_amount terms) \<noteq> None"
    "list_all HEX_ADDRESS [lk_payee row, lk_payer row, lk_token row, payee, payer, token]"
  shows "\<exists>e. judge_row V terms cfg \<lparr>ea_payee = Some payee, ea_payer = Some payer\<rparr> base row = Inr e
    \<and> (le_railVerified (lg_lock e) = Some True \<longleftrightarrow> lk_status row = 1 \<and> row_agrees row payee payer token terms)
    \<and> lg_rail e = (if lk_status row = 1 then Some (evm_observation RLocked base)
       else if lk_status row = 2 \<and> row_agrees row payee payer token terms then Some (evm_observation RClaimed base)
       else if lk_status row = 3 \<and> row_agrees row payee payer token terms then Some (evm_observation RRefunded base) else None)"
proof -
  have s: "asset_slot cfg (lt_asset terms) = OwnAsset token" using assms(2) by (simp add: asset_slot_Own)
  show ?thesis
  proof (cases "row_agrees row payee payer token terms")
    case True
    then have "firstFieldMismatch V row payee (Some payer) (OwnAsset token) terms = Inr ()"
      using firstFieldMismatch_exact [OF assms] s by simp
    then show ?thesis
      using True s by (simp add: judge_row_def settled_row_def locked_row_def Let_def)
  next
    case False
    then obtain m where "firstFieldMismatch V row payee (Some payer) (OwnAsset token) terms = Inl (Inr m)"
      using firstFieldMismatch_exact [OF assms] s by auto
    then show ?thesis
      using False s by (simp add: judge_row_def settled_row_def locked_row_def Let_def)
  qed
qed

lemma honest_verdict:
  assumes V: "viem_addresses_ok V" and node: "truthful env R"
    and cfg: "checkEvmRailConfig V (config_value cfg) = Inr cfg" "pin_finality (cf_pin cfg) = ByTag tag k"
    and terms: "lt_lock terms = ''hash''" "hex32 (lt_statement terms)" "map_of (cf_assets cfg) (lt_asset terms) = Some token"
    and chain: "chain_has V R cfg tag (lt_statement terms) h row"
    and ns: "ns = id_namespace (lt_statement terms) now nonce"
    and calls: "q = leg_calls V cfg tag (lt_statement terms) h (rp_calls rp)"
    and fit: "\<forall>(n, k, m, ps) \<in> set q. fits env ns k R m ps"
    and digest: "inj_on (en_sha256 env) (xc_responseBytes ` seen_of env ns R ` set q)"
  obtains b ci where "fb_hash b = h" "ci_hashLock ci = lt_statement terms"
    "fst (verifyLockFinal V env cfg terms (lt_statement terms) acc now nonce rp) = judge_row V terms cfg acc (final_base terms ci cfg b) row"
proof -
  have shape: "HEX_ADDRESS (cf_contract cfg)" "HEX_ADDRESS token"
    using config_shape_Inr(2,3) checkEvmRailConfig_Inr [OF cfg(1)] map_of_SomeD [OF terms(3)] by blast+
  let ?rp = "setIdNamespace (Some ns) rp"
  have start: "rp_namespace ?rp = Some ns" "rp_counter ?rp = 0" "rp_calls ?rp = rp_calls rp" "rp_log ?rp = rp_log rp"
    by (simp_all add: setIdNamespace_def)
  obtain rp' where read: "read_leg V env cfg (lt_statement terms) ?rp
      = (\<lparr>ne_chainId = int_jsnum (pin_chainId (cf_pin cfg)), ne_finality = ByTag tag None, ne_error = None\<rparr>, rp')"
    and log: "rp_log rp' = rp_log rp @ map (seen_of env ns R) q"
    using read_leg_truthful [OF node start(1,2) cfg(2) chain(1)] fit start calls by metis
  define ci where "ci = buildIndex cfg (int_jsnum (pin_chainId (cf_pin cfg))) (lt_statement terms) now nonce
    (map (seen_of env ns R) q) (ByTag tag None) None"
  define c where "c = \<lparr>cp_index = ci, cp_bytes = verifiedExchangeBytes (en_sha256 env) (map (seen_of env ns R) q)\<rparr>"
  have cap: "captureEvmLeg V env cfg (lt_statement terms) now nonce rp = ((ci, map (seen_of env ns R) q), setIdNamespace None rp')"
    using terms(2) read log ns by (simp add: captureEvmLeg_def Let_def ci_def)
  have idx: "ci_hashLock ci = lt_statement terms" "ci_contract ci = Str (cf_contract cfg)" "ci_error ci = None"
    "ci_config ci = config_value cfg" "ci_checkedAtMs ci = now" "ci_nonce ci = nonce"
    "ci_exchanges ci = map (\<lambda>x. index_of_exchange (seen_of env ns R x)) q"
    by (simp_all add: ci_def buildIndex_def o_def)
  have "records env ns R q c"
    using digest fit leg_calls_distinct [of V cfg tag "lt_statement terms" h "rp_calls rp", folded calls]
    by (simp add: records_def c_def idx ns image_image)
  then obtain b where row: "captured_row V c cfg cfg = Inr (row, b)" and h: "fb_hash b = h"
    using records_row [OF V _ _ _ shape(1) cfg(2) chain(1), of env ns "rp_calls rp" c, folded calls] idx by (auto simp: c_def)
  have dep: "same_deployment V terms cfg cfg = Inr ()" by (rule same_deployment_self [OF V shape(1) terms(3) shape(2)])
  have nm: "\<not> hashLockRefMismatch terms (lt_statement terms)" using terms by (simp add: hashLockRefMismatch_def)
  have "(evidence_base terms ci x)\<lparr>le_endpoint := Some x\<rparr> = evidence_base terms ci x" for x by (simp add: evidence_base_def)
  then have "evmEvidence V terms cfg acc c = judge_row V terms cfg acc (final_base terms ci cfg b) row"
    using idx nm cfg(1) dep row by (simp add: evmEvidence_def Let_def c_def final_base_def)
  then have "fst (verifyLockFinal V env cfg terms (lt_statement terms) acc now nonce rp) = judge_row V terms cfg acc (final_base terms ci cfg b) row"
    using nm cap by (simp add: verifyLockFinal_def Let_def c_def split: sum.split)
  then show thesis using that h idx(1) by blast
qed

end
