(* ===== verification/Evm_Claims.thy ===== *)
theory Evm_Claims
  imports Evm_Honest Desk_Demo
begin

text \<open>
  The properties of the EVM evidence: what a verified lock and an observation rest on, that a
  response cannot serve two captures, that the reader answers, and that a truthful node's lock is
  accepted.
\<close>

section \<open>A concrete node, for the witnesses\<close>

text \<open>A node of Base Sepolia with the lock of \<open>demo_terms_a\<close> in it, locked or claimed.\<close>

definition demo_chain :: "bool \<Rightarrow> string \<Rightarrow> jsval \<Rightarrow> jsval" where
  "demo_chain settled m ps =
     (if m = ''eth_chainId'' then Str ''0x14a34''
      else if m = ''eth_getCode'' then Str ''0x60''
      else if m = ''eth_getBlockByNumber'' then Obj [(''hash'', Str (demo_hash_text (CHR ''f''))), (''number'', Str ''0x10'')]
      else Str (if settled then ''0x02'' else ''0x01''))"

definition demo_seen_row :: "bool \<Rightarrow> locks_row" where
  "demo_seen_row settled = (if settled then demo_row\<lparr>lk_status := 2\<rparr> else demo_row)"

definition demo_env :: "bool \<Rightarrow> rpc_env" where
  "demo_env settled =
     \<lparr>en_endpoint = ''https://rpc'', en_fetch = (\<lambda>n url body. node_reply (demo_chain settled) body), en_clock = (\<lambda>n. 5),
      en_sha256 = of_latin1, en_garbled = (\<lambda>bs. None), en_maxResponseBytes = 500\<rparr>"

abbreviation demo_namespace :: string where
  "demo_namespace \<equiv> id_namespace (lt_statement demo_terms_a) 5 ''n''"

abbreviation demo_calls :: "made_call list" where
  "demo_calls \<equiv> leg_calls demo_viem base_sepolia_config ''finalized'' (lt_statement demo_terms_a) (demo_hash_text (CHR ''f'')) 0"

lemma demo_config_value: "config_value base_sepolia_config = base_sepolia_value"
  by (simp add: config_value_def base_sepolia_config_def base_sepolia_value_def pin_value_def finality_value_def BASE_SEPOLIA_PIN_def given_def)

lemma demo_chain_has:
  "chain_has demo_viem (demo_chain settled) base_sepolia_config ''finalized'' (lt_statement demo_terms_a)
     (demo_hash_text (CHR ''f'')) (demo_seen_row settled)"
proof -
  have "HEX_BYTES ''0x60''" "HEX_VALUE ''0x14a34''" "HEX_VALUE ''0x10''" "BLOCK_HASH_SHAPE (demo_hash_text (CHR ''f''))"
    "hex_value_of ''0x14a34'' = 84532" "toLowerCase (demo_hash_text (CHR ''e'')) = toLowerCase (demo_hash_text (CHR ''E''))"
    by code_simp+
  then show ?thesis
    by (simp add: chain_has_def demo_chain_def demo_seen_row_def base_sepolia_config_def BASE_SEPOLIA_PIN_def parseHexNumber_def demo_viem_def
        blockResultHash_def blockResultNumber_def is_object_def prop_of_def field_of_def BASE_SEPOLIA_CHAIN_ID_def)
qed

lemma demo_fits: "\<forall>(n, k, m, ps) \<in> set demo_calls. fits (demo_env settled) demo_namespace k (demo_chain settled) m ps"
proof -
  have t: "template_int 5 = ''5''" by (simp add: template_int_safe max_safe_def show_int_def show_nat.simps [of 5] digit_char_def digits_def)
  have n: "show_nat (Suc 0) = ''1''" "show_nat 2 = ''2''" "show_nat 3 = ''3''" "show_nat 4 = ''4''"
    by (simp_all add: show_nat.simps [of "Suc 0"] show_nat.simps [of 2] show_nat.simps [of 3] show_nat.simps [of 4] digit_char_def digits_def)
  show ?thesis
    by (cases settled; simp add: leg_calls_def fits_def demo_env_def demo_chain_def base_sepolia_config_def lock_call_params_def
        reply_bytes_def reply_value_def call_id_def n t id_namespace_def plain_key; intro conjI; code_simp)
qed

lemma of_latin1_inj: "inj_on of_latin1 A"
  by (metis inj_onI to_of_latin1)

lemma demo_live:
  "viem_addresses_ok demo_viem" "truthful (demo_env settled) (demo_chain settled)"
  "checkEvmRailConfig demo_viem (config_value base_sepolia_config) = Inr base_sepolia_config"
  "pin_finality (cf_pin base_sepolia_config) = ByTag ''finalized'' None"
  "lt_lock demo_terms_a = ''hash''" "hex32 (lt_statement demo_terms_a)"
  "map_of (cf_assets base_sepolia_config) (lt_asset demo_terms_a) = Some (demo_address (CHR ''d''))"
  "chain_has demo_viem (demo_chain settled) base_sepolia_config ''finalized'' (lt_statement demo_terms_a)
     (demo_hash_text (CHR ''f'')) (demo_seen_row settled)"
  "demo_namespace = demo_namespace"
  "demo_calls = leg_calls demo_viem base_sepolia_config ''finalized'' (lt_statement demo_terms_a) (demo_hash_text (CHR ''f'')) (rp_calls new_rpc)"
  "\<forall>(n, k, m, ps) \<in> set demo_calls. fits (demo_env settled) demo_namespace k (demo_chain settled) m ps"
  "inj_on (en_sha256 (demo_env settled)) (xc_responseBytes ` seen_of (demo_env settled) demo_namespace (demo_chain settled) ` set demo_calls)"
proof -
  show "hex32 (lt_statement demo_terms_a)" by code_simp
  show "checkEvmRailConfig demo_viem (config_value base_sepolia_config) = Inr base_sepolia_config"
    by (simp add: demo_config_value base_sepolia_checks)
  show "\<forall>(n, k, m, ps) \<in> set demo_calls. fits (demo_env settled) demo_namespace k (demo_chain settled) m ps" by (rule demo_fits)
  show "chain_has demo_viem (demo_chain settled) base_sepolia_config ''finalized'' (lt_statement demo_terms_a)
     (demo_hash_text (CHR ''f'')) (demo_seen_row settled)"
    by (rule demo_chain_has)
  show "inj_on (en_sha256 (demo_env settled)) (xc_responseBytes ` seen_of (demo_env settled) demo_namespace (demo_chain settled) ` set demo_calls)"
    by (simp add: demo_env_def of_latin1_inj)
qed (use demo_shapes in \<open>simp_all add: demo_viem_addresses truthful_def demo_env_def base_sepolia_config_def BASE_SEPOLIA_PIN_def
    demo_terms_a_def new_rpc_def\<close>)

lemma demo_seen_status: "lk_status (demo_seen_row settled) = (if settled then 2 else 1)"
  by (simp add: demo_seen_row_def demo_row_def)

lemma demo_row_hyps:
  "bigint_of (lt_amount demo_terms_a) \<noteq> None"
  "list_all HEX_ADDRESS [lk_payee (demo_seen_row settled), lk_payer (demo_seen_row settled), lk_token (demo_seen_row settled),
     demo_address (CHR ''c''), demo_address (CHR ''b'')]"
  "row_agrees (demo_seen_row settled) (demo_address (CHR ''c'')) (demo_address (CHR ''b'')) (demo_address (CHR ''d'')) demo_terms_a"
proof -
  have b: "bigint_of ''5'' = Some 5" by code_simp
  then show "bigint_of (lt_amount demo_terms_a) \<noteq> None" by (simp add: demo_terms_a_def)
  show "list_all HEX_ADDRESS [lk_payee (demo_seen_row settled), lk_payer (demo_seen_row settled), lk_token (demo_seen_row settled),
     demo_address (CHR ''c''), demo_address (CHR ''b'')]"
    using demo_shapes by (simp add: demo_seen_row_def demo_row_def)
  show "row_agrees (demo_seen_row settled) (demo_address (CHR ''c'')) (demo_address (CHR ''b'')) (demo_address (CHR ''d'')) demo_terms_a"
    using b by (simp add: row_agrees_def demo_seen_row_def demo_row_def demo_terms_a_def)
qed

definition demo_accounts :: evm_accounts where
  "demo_accounts = \<lparr>ea_payee = Some (demo_address (CHR ''c'')), ea_payer = Some (demo_address (CHR ''b''))\<rparr>"

definition demo_capture :: "bool \<Rightarrow> evm_capture" where
  "demo_capture settled =
     (case fst (captureEvmLeg demo_viem (demo_env settled) base_sepolia_config (lt_statement demo_terms_a) 5 ''n'' new_rpc) of
        (ci, xs) \<Rightarrow> \<lparr>cp_index = ci, cp_bytes = verifiedExchangeBytes of_latin1 xs\<rparr>)"

lemma verifyLockFinal_evidence:
  assumes "\<not> hashLockRefMismatch terms ref" "captureEvmLeg V env cfg ref now nonce rp = ((ci, xs), rp')"
  shows "fst (verifyLockFinal V env cfg terms ref acc now nonce rp)
    = evmEvidence V terms cfg acc \<lparr>cp_index = ci, cp_bytes = verifiedExchangeBytes (en_sha256 env) xs\<rparr>"
  using assms by (simp add: verifyLockFinal_def Let_def split: sum.splits)

text \<open>The evidence of that node's capture.\<close>

lemma demo_evidence:
  obtains e base where "evmEvidence demo_viem demo_terms_a base_sepolia_config demo_accounts (demo_capture settled) = Inr e"
    "lg_rail e = Some (evm_observation (if settled then RClaimed else RLocked) base)"
    "le_rail base = EVM_RAIL_ID" "le_ref base = lt_statement demo_terms_a" "le_terms base = demo_terms_a"
    "le_railVerified (lg_lock e) = Some True \<longleftrightarrow> \<not> settled"
proof -
  obtain ci xs rp' where cap:
    "captureEvmLeg demo_viem (demo_env settled) base_sepolia_config (lt_statement demo_terms_a) 5 ''n'' new_rpc = ((ci, xs), rp')"
    by (metis surj_pair)
  obtain b idx where v: "ci_hashLock idx = lt_statement demo_terms_a"
    "fst (verifyLockFinal demo_viem (demo_env settled) base_sepolia_config demo_terms_a (lt_statement demo_terms_a) demo_accounts 5 ''n'' new_rpc)
      = judge_row demo_viem demo_terms_a base_sepolia_config demo_accounts (final_base demo_terms_a idx base_sepolia_config b) (demo_seen_row settled)"
    by (rule honest_verdict [OF demo_live])
  have addresses: "list_all HEX_ADDRESS [lk_payee (demo_seen_row settled), lk_payer (demo_seen_row settled), lk_token (demo_seen_row settled),
     demo_address (CHR ''c''), demo_address (CHR ''b''), demo_address (CHR ''d'')]"
    using demo_row_hyps(2) demo_shapes by simp
  obtain e where e: "judge_row demo_viem demo_terms_a base_sepolia_config demo_accounts
      (final_base demo_terms_a idx base_sepolia_config b) (demo_seen_row settled) = Inr e"
    "le_railVerified (lg_lock e) = Some True \<longleftrightarrow> \<not> settled"
    "lg_rail e = Some (evm_observation (if settled then RClaimed else RLocked) (final_base demo_terms_a idx base_sepolia_config b))"
    using judge_row_exact [OF demo_viem_addresses demo_live(7) demo_row_hyps(1) addresses,
        of "final_base demo_terms_a idx base_sepolia_config b"] demo_row_hyps(3) [of settled]
    unfolding demo_accounts_def by (auto simp: demo_seen_status split: if_splits)
  have "\<not> hashLockRefMismatch demo_terms_a (lt_statement demo_terms_a)"
    using demo_live(5,6) by (simp add: hashLockRefMismatch_def)
  then have "evmEvidence demo_viem demo_terms_a base_sepolia_config demo_accounts (demo_capture settled) = Inr e"
    using verifyLockFinal_evidence [OF _ cap] v(2) e(1) cap by (simp add: demo_capture_def demo_env_def)
  then show thesis using that e(2,3) v(1) by (simp add: final_base_def evidence_base_def)
qed

section \<open>Verdicts rest on the chain\<close>

lemma same_deployment_finality:
  "same_deployment V terms cfg captured = Inr u
    \<Longrightarrow> finalityAtLeastAsStrong (pin_finality (cf_pin captured)) (pin_finality (cf_pin cfg))"
  by (auto simp: same_deployment_def Let_def result_simps)

lemma final_base_fields [simp]:
  "le_ref (final_base terms ci captured b) = ci_hashLock ci" "le_terms (final_base terms ci captured b) = terms"
  "le_rail (final_base terms ci captured b) = EVM_RAIL_ID" "le_checkedAtMs (final_base terms ci captured b) = ci_checkedAtMs ci"
  "le_finalizedRef (final_base terms ci captured b) = Some (finalized_ref captured b)"
  by (simp_all add: final_base_def evidence_base_def)

lemma concluded_lock [simp]:
  "le_ref (lg_lock (concluded base v r ob)) = le_ref base" "le_terms (lg_lock (concluded base v r ob)) = le_terms base"
  "le_finalizedRef (lg_lock (concluded base v r ob)) = le_finalizedRef base"
  "le_rail (lg_lock (concluded base v r ob)) = le_rail base"
  by (simp_all add: concluded_def)

definition same_lock :: "lock_evidence \<Rightarrow> lock_evidence \<Rightarrow> bool" where
  "same_lock a b \<longleftrightarrow> le_ref a = le_ref b \<and> le_terms a = le_terms b \<and> le_finalizedRef a = le_finalizedRef b \<and> le_rail a = le_rail b"

lemma judge_row_base:
  assumes "judge_row V terms cfg acc base row = Inr e"
  shows "same_lock (lg_lock e) base"
  using assms unfolding judge_row_def settled_row_def locked_row_def same_lock_def Let_def
  by (auto split: if_splits option.splits sum.splits)

text \<open>The lock of an evidence record is the one of the agreed terms, read at a block final by a rule
  no weaker than the auditor's.\<close>

definition read_on_chain :: "viem \<Rightarrow> lock_terms \<Rightarrow> evm_config \<Rightarrow> evm_capture \<Rightarrow> locks_row \<Rightarrow> string \<Rightarrow> bool" where
  "read_on_chain V terms cfg c row final_ref \<longleftrightarrow>
     lt_lock terms = ''hash'' \<and> hex32 (lt_statement terms) \<and> ci_hashLock (cp_index c) = lt_statement terms
     \<and> (\<exists>captured b. finalityAtLeastAsStrong (pin_finality (cf_pin captured)) (pin_finality (cf_pin cfg))
          \<and> final_ref = finalized_ref captured b
          \<and> chain_shows V c cfg (pin_finality (cf_pin captured)) row b)"

lemma read_on_chain_intro:
  assumes "viem_addresses_ok V" "\<not> hashLockRefMismatch terms (ci_hashLock (cp_index c))"
    "same_deployment V terms cfg captured = Inr u" "captured_row V c cfg captured = Inr (row, b)"
  shows "read_on_chain V terms cfg c row (finalized_ref captured b)"
  using assms(2) same_deployment_finality [OF assms(3)] captured_row_shows [OF assms(1,4)]
  unfolding read_on_chain_def hashLockRefMismatch_def by metis

lemma verified_rests_on_row:
  assumes "viem_addresses_ok V" "evmEvidence V terms cfg acc c = Inr e" "le_railVerified (lg_lock e) = Some True"
  shows "\<exists>row payee payer token final_ref.
      read_on_chain V terms cfg c row final_ref \<and> lk_status row = 1
      \<and> ea_payee acc = Some payee \<and> ea_payer acc = Some payer
      \<and> map_of (cf_assets cfg) (lt_asset terms) = Some token \<and> row_agrees row payee payer token terms
      \<and> le_rail (lg_lock e) = EVM_RAIL_ID \<and> le_ref (lg_lock e) = lt_statement terms
      \<and> le_terms (lg_lock e) = terms \<and> le_finalizedRef (lg_lock e) = Some final_ref"
proof -
  obtain captured row b where k: "\<not> hashLockRefMismatch terms (ci_hashLock (cp_index c))"
    "same_deployment V terms cfg captured = Inr ()" "captured_row V c cfg captured = Inr (row, b)"
    and judged: "judge_row V terms cfg acc (final_base terms (cp_index c) captured b) row = Inr e"
    using evmEvidence_row [OF assms(2)] assms(3) by blast
  have row: "read_on_chain V terms cfg c row (finalized_ref captured b)" by (rule read_on_chain_intro [OF assms(1) k])
  note status = judge_row_True [OF judged assms(3)]
  obtain payee payer where acc: "ea_payee acc = Some payee" "ea_payer acc = Some payer"
    and slot: "asset_slot cfg (lt_asset terms) \<noteq> NoAsset"
    and ffm: "firstFieldMismatch V row payee (Some payer) (asset_slot cfg (lt_asset terms)) terms = Inr ()"
    using locked_row_True [OF status(2) assms(3)] by blast
  obtain token where "map_of (cf_assets cfg) (lt_asset terms) = Some token" "row_agrees row payee payer token terms"
    using firstFieldMismatch_Inr [OF assms(1) ffm slot] by blast
  moreover have "same_lock (lg_lock e) (final_base terms (cp_index c) captured b)" by (rule judge_row_base [OF judged])
  moreover have "ci_hashLock (cp_index c) = lt_statement terms" using row by (simp add: read_on_chain_def)
  ultimately show ?thesis
    using row status(1) acc
    by (intro exI [of _ row] exI [of _ payee] exI [of _ payer] exI [of _ token] exI [of _ "finalized_ref captured b"])
      (simp add: same_lock_def)
qed

text \<open>C10. A lock the EVM evidence reader reports as verified is on the chain as agreed: in the
  untrusted capture there is a bound answer that names the auditor's chain, the pinned code at the
  auditor's contract when one is pinned, a block final by a rule no weaker than the auditor's, and, read
  at that block for this hash lock, a row with status locked whose payee, payer, token, amount and both
  deadlines are those of the proven account lines and the agreed terms. The evidence names those terms,
  that hash lock and that block.\<close>

theorem evm_verified_lock_is_on_chain:
  assumes "viem_addresses_ok V" "evmEvidence V terms cfg acc c = Inr e" "le_railVerified (lg_lock e) = Some True"
  shows "\<exists>row payee payer token final_ref.
      read_on_chain V terms cfg c row final_ref \<and> lk_status row = 1
      \<and> ea_payee acc = Some payee \<and> ea_payer acc = Some payer
      \<and> map_of (cf_assets cfg) (lt_asset terms) = Some token \<and> row_agrees row payee payer token terms
      \<and> le_rail (lg_lock e) = EVM_RAIL_ID \<and> le_ref (lg_lock e) = lt_statement terms
      \<and> le_terms (lg_lock e) = terms \<and> le_finalizedRef (lg_lock e) = Some final_ref"
  by (rule verified_rests_on_row [OF assms])

theorem evm_verified_lock_is_on_chain_witness:
  "\<exists>e. evmEvidence demo_viem demo_terms_a base_sepolia_config demo_accounts (demo_capture False) = Inr e
    \<and> le_railVerified (lg_lock e) = Some True \<and> le_ref (lg_lock e) = lt_statement demo_terms_a
    \<and> (\<exists>row final_ref. read_on_chain demo_viem demo_terms_a base_sepolia_config (demo_capture False) row final_ref \<and> lk_status row = 1)"
proof -
  obtain e where e: "evmEvidence demo_viem demo_terms_a base_sepolia_config demo_accounts (demo_capture False) = Inr e"
    "le_railVerified (lg_lock e) = Some True"
    by (rule demo_evidence [of False]) simp
  then show ?thesis using evm_verified_lock_is_on_chain [OF demo_viem_addresses e] by auto
qed

lemma observation_rests_on_row:
  assumes "viem_addresses_ok V" "evmEvidence V terms cfg acc c = Inr e" "lg_rail e = Some ob"
  shows "\<exists>row final_ref.
      read_on_chain V terms cfg c row final_ref \<and> lk_status row = status_code (ob_status ob)
      \<and> ob_final ob \<and> ob_rail ob = Some EVM_RAIL_ID \<and> ob_ref ob = Some (lt_statement terms)
      \<and> ob_terms ob = Some terms \<and> ob_contract ob = Some (lt_contract terms) \<and> ob_finalizedRef ob = Some final_ref
      \<and> (ob_status ob \<noteq> RLocked \<longrightarrow> le_railVerified (lg_lock e) = Some False
          \<and> (\<exists>payee payer token. ea_payee acc = Some payee \<and> ea_payer acc = Some payer
               \<and> map_of (cf_assets cfg) (lt_asset terms) = Some token \<and> row_agrees row payee payer token terms))"
proof -
  obtain captured row b where k: "\<not> hashLockRefMismatch terms (ci_hashLock (cp_index c))"
    "same_deployment V terms cfg captured = Inr ()" "captured_row V c cfg captured = Inr (row, b)"
    and judged: "judge_row V terms cfg acc (final_base terms (cp_index c) captured b) row = Inr e"
    using evmEvidence_row [OF assms(2)] assms(3) by blast
  have row: "read_on_chain V terms cfg c row (finalized_ref captured b)" by (rule read_on_chain_intro [OF assms(1) k])
  note said = judge_row_Some [OF judged assms(3)]
  have bound: "ob = evm_observation (ob_status ob) (final_base terms (cp_index c) captured b)" using said by blast
  have settled: "le_railVerified (lg_lock e) = Some False
      \<and> (\<exists>payee payer token. ea_payee acc = Some payee \<and> ea_payer acc = Some payer
           \<and> map_of (cf_assets cfg) (lt_asset terms) = Some token \<and> row_agrees row payee payer token terms)"
    if open_lock: "ob_status ob \<noteq> RLocked"
  proof -
    obtain label where "settled_row V terms cfg acc (final_base terms (cp_index c) captured b) row (ob_status ob) label = Inr e"
      using said open_lock by blast
    then obtain payee payer where p: "ea_payee acc = Some payee" "ea_payer acc = Some payer"
      and slot: "asset_slot cfg (lt_asset terms) \<noteq> NoAsset"
      and ffm: "firstFieldMismatch V row payee (Some payer) (asset_slot cfg (lt_asset terms)) terms = Inr ()"
      and v: "le_railVerified (lg_lock e) = Some False"
      using settled_row_Some [OF _ assms(3)] by blast
    obtain token where "map_of (cf_assets cfg) (lt_asset terms) = Some token" "row_agrees row payee payer token terms"
      using firstFieldMismatch_Inr [OF assms(1) ffm slot] by blast
    then show ?thesis using p v by blast
  qed
  have hl: "ci_hashLock (cp_index c) = lt_statement terms" using row by (simp add: read_on_chain_def)
  have fields: "ob_final ob" "ob_rail ob = Some EVM_RAIL_ID" "ob_ref ob = Some (lt_statement terms)" "ob_terms ob = Some terms"
    "ob_contract ob = Some (lt_contract terms)" "ob_finalizedRef ob = Some (finalized_ref captured b)"
    by (subst bound, simp add: hl)+
  show ?thesis
    using row said settled fields by (intro exI [of _ row] exI [of _ "finalized_ref captured b"]) blast
qed

text \<open>Every observation of a leg the EVM evidence reader emits is read from the chain and bound to
  the leg: it is marked final and names the rail, the hash lock, the contract and the terms; a bound answer
  at a final block shows a row with just that status. It says claimed or refunded only when the row also
  agrees with the terms and the proven accounts, and the lock is then reported as not verified.\<close>

theorem evm_observation_is_on_chain:
  assumes "viem_addresses_ok V" "evmEvidence V terms cfg acc c = Inr e" "lg_rail e = Some ob"
  shows "\<exists>row final_ref.
      read_on_chain V terms cfg c row final_ref \<and> lk_status row = status_code (ob_status ob)
      \<and> ob_final ob \<and> ob_rail ob = Some EVM_RAIL_ID \<and> ob_ref ob = Some (lt_statement terms)
      \<and> ob_terms ob = Some terms \<and> ob_contract ob = Some (lt_contract terms) \<and> ob_finalizedRef ob = Some final_ref
      \<and> (ob_status ob \<noteq> RLocked \<longrightarrow> le_railVerified (lg_lock e) = Some False
          \<and> (\<exists>payee payer token. ea_payee acc = Some payee \<and> ea_payer acc = Some payer
               \<and> map_of (cf_assets cfg) (lt_asset terms) = Some token \<and> row_agrees row payee payer token terms))"
  by (rule observation_rests_on_row [OF assms])


theorem evm_observation_is_on_chain_witness:
  "\<exists>e ob row final_ref. evmEvidence demo_viem demo_terms_a base_sepolia_config demo_accounts (demo_capture True) = Inr e
    \<and> lg_rail e = Some ob \<and> ob_status ob = RClaimed \<and> le_railVerified (lg_lock e) = Some False
    \<and> read_on_chain demo_viem demo_terms_a base_sepolia_config (demo_capture True) row final_ref \<and> lk_status row = 2"
proof -
  obtain e base where e: "evmEvidence demo_viem demo_terms_a base_sepolia_config demo_accounts (demo_capture True) = Inr e"
    "lg_rail e = Some (evm_observation RClaimed base)"
    by (rule demo_evidence [of True]) simp
  then show ?thesis using evm_observation_is_on_chain [OF demo_viem_addresses e] by (auto simp: status_code_def)
qed

section \<open>One response, one capture\<close>

lemma colon_split:
  "a @ CHR '':'' # x = b @ CHR '':'' # y \<Longrightarrow> CHR '':'' \<notin> set a \<Longrightarrow> CHR '':'' \<notin> set b \<Longrightarrow> a = b \<and> x = y"
proof (induction a arbitrary: b)
  case Nil
  then show ?case by (cases b) auto
next
  case (Cons c a)
  then obtain b' where b': "b = c # b'" by (cases b) auto
  show ?case using Cons.IH [of b'] Cons.prems unfolding b' by simp
qed

lemma show_int_no_colon: "CHR '':'' \<notin> set (show_int i)"
  using show_nat_digit [of "CHR '':''"] by (auto simp: show_int_def digits_def)

lemma hex32_no_colon: "CHR '':'' \<notin> set s" if "hex32 s"
proof -
  have "\<forall>c \<in> set s. c \<in> set (CHR ''x'' # lower_hex)"
    using hex32_only [OF that] unfolding only_def list_all_iff .
  moreover have "CHR '':'' \<notin> set (CHR ''x'' # lower_hex)" by code_simp
  ultimately show ?thesis by blast
qed

lemma show_int_inject: "show_int i = show_int j \<Longrightarrow> i = j"
proof -
  have "show_nat n \<noteq> CHR ''-'' # t" for n t
    using show_nat_digit [of "CHR ''-''" n] by (auto simp: digits_def)
  then show "show_int i = show_int j \<Longrightarrow> i = j"
    by (auto simp: show_int_def split: if_splits) (metis nat_eq_iff not_less)+
qed

definition capture_names_ok :: "capture_index \<Rightarrow> bool" where
  "capture_names_ok ci \<longleftrightarrow> hex32 (ci_hashLock ci) \<and> \<bar>ci_checkedAtMs ci\<bar> \<le> max_safe \<and> CHR '':'' \<notin> set (ci_nonce ci)"

definition capture_key :: "capture_index \<Rightarrow> string \<times> int \<times> string" where
  "capture_key ci = (ci_hashLock ci, ci_checkedAtMs ci, ci_nonce ci)"

lemma id_bound_once:
  assumes "idBoundToCapture a i" "idBoundToCapture b i" "capture_names_ok a" "capture_names_ok b"
  shows "capture_key a = capture_key b"
proof -
  obtain s where s: "i = Str s" "starts_with s (id_namespace (ci_hashLock a) (ci_checkedAtMs a) (ci_nonce a) @ '':'')"
    "starts_with s (id_namespace (ci_hashLock b) (ci_checkedAtMs b) (ci_nonce b) @ '':'')"
    using assms(1,2) unfolding idBoundToCapture_def by (cases i) auto
  have "\<exists>r. s = p @ r" if "starts_with s p" for p
    using that unfolding starts_with_def by (metis append_take_drop_id)
  from this [OF s(2)] this [OF s(3)] obtain r r' where
    p: "s = (id_namespace (ci_hashLock a) (ci_checkedAtMs a) (ci_nonce a) @ '':'') @ r"
    "s = (id_namespace (ci_hashLock b) (ci_checkedAtMs b) (ci_nonce b) @ '':'') @ r'"
    by blast
  have eq: "ci_hashLock a @ CHR '':'' # show_int (ci_checkedAtMs a) @ CHR '':'' # ci_nonce a @ CHR '':'' # r
      = ci_hashLock b @ CHR '':'' # show_int (ci_checkedAtMs b) @ CHR '':'' # ci_nonce b @ CHR '':'' # r'"
    using assms(3,4) p(2) unfolding p(1) by (simp add: id_namespace_def template_int_safe capture_names_ok_def)
  have h: "ci_hashLock a = ci_hashLock b"
    "show_int (ci_checkedAtMs a) @ CHR '':'' # ci_nonce a @ CHR '':'' # r = show_int (ci_checkedAtMs b) @ CHR '':'' # ci_nonce b @ CHR '':'' # r'"
    using colon_split [OF eq] assms(3,4) hex32_no_colon by (simp_all add: capture_names_ok_def)
  then have t: "show_int (ci_checkedAtMs a) = show_int (ci_checkedAtMs b)"
    "ci_nonce a @ CHR '':'' # r = ci_nonce b @ CHR '':'' # r'"
    using colon_split [OF h(2)] show_int_no_colon by simp_all
  then have "ci_nonce a = ci_nonce b" using colon_split [OF t(2)] assms(3,4) by (simp add: capture_names_ok_def)
  then show ?thesis using h(1) show_int_inject [OF t(1)] by (simp add: capture_key_def)
qed

lemma bindExchange_id:
  assumes "bindExchange c (Some x) l = Inr r" "cp_bytes c (ix_responseSha256 x) = Some bs"
  obtains body v where "decode_text bs = Some body" "json_parse body = Some v" "idBoundToCapture (cp_index c) (prop_of v ''id'')"
  using assms unfolding bindExchange_def by (auto simp: result_simps split: if_splits)

text \<open>C17. A response that was recorded in one capture is refused in every other one: once a capture has
  bound some reply bytes, no capture for another hash lock, another time of checking or another nonce binds
  the same bytes, whatever request and method its index puts beside them. So an old or foreign answer cannot
  be spliced into a capture.\<close>

theorem evm_response_serves_one_capture:
  assumes "bindExchange c (Some x) l = Inr r" "cp_bytes c (ix_responseSha256 x) = Some bs"
    "cp_bytes d (ix_responseSha256 y) = Some bs"
    "capture_names_ok (cp_index c)" "capture_names_ok (cp_index d)" "capture_key (cp_index c) \<noteq> capture_key (cp_index d)"
  shows "\<exists>reason. bindExchange d (Some y) l' = Inl reason"
proof (cases "bindExchange d (Some y) l'")
  case (Inr r')
  obtain body v where b: "decode_text bs = Some body" "json_parse body = Some v" "idBoundToCapture (cp_index c) (prop_of v ''id'')"
    by (rule bindExchange_id [OF assms(1,2)])
  obtain body' v' where "decode_text bs = Some body'" "json_parse body' = Some v'" "idBoundToCapture (cp_index d) (prop_of v' ''id'')"
    by (rule bindExchange_id [OF Inr assms(3)])
  then have "idBoundToCapture (cp_index d) (prop_of v ''id'')" using b(1,2) by simp
  then show ?thesis using id_bound_once [OF b(3)] assms(4-6) by blast
qed simp

text \<open>One recorded call, and a capture under a nonce that holds its bytes.\<close>

definition demo_exchange :: index_exchange where
  "demo_exchange = index_of_exchange (seen (demo_env False) demo_namespace (demo_chain False) 0 1 ''eth_chainId'' [])"

definition demo_holding :: "string \<Rightarrow> evm_capture" where
  "demo_holding nonce =
     \<lparr>cp_index = buildIndex base_sepolia_config (int_jsnum 84532) (lt_statement demo_terms_a) 5 nonce [] (ByTag ''finalized'' None) None,
      cp_bytes = (\<lambda>h. if h = ix_responseSha256 demo_exchange
         then Some (reply_bytes (call_id demo_namespace 1) (demo_chain False ''eth_chainId'' (Arr []))) else None)\<rparr>"

theorem evm_response_serves_one_capture_witness:
  "(\<exists>r. bindExchange (demo_holding ''n'') (Some demo_exchange) ChainIdCall = Inr r)
    \<and> (\<exists>reason. bindExchange (demo_holding ''m'') (Some demo_exchange) ChainIdCall = Inl reason)"
proof -
  have fit: "fits (demo_env False) demo_namespace 1 (demo_chain False) ''eth_chainId'' []"
    using demo_fits by (simp add: leg_calls_def base_sepolia_config_def eval_nat_numeral)
  have idx: "ci_hashLock (cp_index (demo_holding x)) = lt_statement demo_terms_a" "ci_checkedAtMs (cp_index (demo_holding x)) = 5"
    "ci_nonce (cp_index (demo_holding x)) = x" for x
    by (simp_all add: demo_holding_def buildIndex_def)
  have held: "cp_bytes (demo_holding x) (ix_responseSha256 demo_exchange)
      = Some (reply_bytes (call_id demo_namespace 1) (demo_chain False ''eth_chainId'' (Arr [])))" for x
    by (simp add: demo_holding_def)
  have bound: "bindExchange (demo_holding ''n'') (Some demo_exchange) ChainIdCall
      = Inr (\<lparr>rq_id = call_id demo_namespace 1, rq_method = ''eth_chainId'', rq_params = Arr []\<rparr>, Result (demo_chain False ''eth_chainId'' (Arr [])))"
    unfolding demo_exchange_def by (rule bind_seen [OF fit]) (use idx held in \<open>simp_all add: demo_exchange_def\<close>)
  have "capture_names_ok (cp_index (demo_holding x))" if "CHR '':'' \<notin> set x" for x
    using that demo_live(6) by (simp add: capture_names_ok_def idx max_safe_def)
  then have names: "capture_names_ok (cp_index (demo_holding ''n''))" "capture_names_ok (cp_index (demo_holding ''m''))" by simp_all
  have other: "capture_key (cp_index (demo_holding ''n'')) \<noteq> capture_key (cp_index (demo_holding ''m''))"
    by (simp add: capture_key_def idx)
  show ?thesis using bound evm_response_serves_one_capture [OF bound held held names other] by blast
qed

section \<open>The reader answers\<close>

text \<open>A check that does not throw.\<close>

definition no_throw :: "('t + 'r, 'a) result \<Rightarrow> bool" where
  "no_throw x \<longleftrightarrow> (\<forall>t. x \<noteq> Inl (Inl t))"

lemma no_throw_simps [simp]:
  "no_throw (Inr a)" "no_throw (Inl (Inr r))" "no_throw (refuse w)" "no_throw (refuse_if b w)" "no_throw (reasoned y)"
  "no_throw (mismatch_if b m)"
  by (simp_all add: no_throw_def refuse_def refuse_if_def reasoned_def mismatch_if_def split: sum.split)

lemma no_throw_bind:
  "no_throw f \<Longrightarrow> (\<And>a. f = Inr a \<Longrightarrow> no_throw (g a)) \<Longrightarrow> no_throw (bind_res f g)"
  by (cases f) (auto simp: no_throw_def)

lemma no_throw_same:
  assumes "viem_addresses_ok V" "HEX_ADDRESS a" "HEX_ADDRESS b"
  shows "no_throw (same_address V a b)" "no_throw (unless_same V a b m)"
  using assms by (simp_all add: same_address_ok unless_same_def viem_addresses_okD(2))

lemma no_throw_is_this:
  assumes "viem_addresses_ok V" "HEX_ADDRESS b"
  shows "no_throw (is_this_address V v b)"
  using assms by (cases v) (auto simp: is_this_address_def isValidAddressShape_def viem_addresses_okD(1) no_throw_same)

lemma no_throw_locks_call:
  "viem_addresses_ok V \<Longrightarrow> HEX_ADDRESS (cf_contract cfg) \<Longrightarrow> no_throw (validateLocksCallRequest V rq cfg hl h)"
  unfolding validateLocksCallRequest_def
  by (auto split: jsval.split list.split intro!: no_throw_bind no_throw_is_this)

lemma no_throw_code_pin:
  "viem_addresses_ok V \<Longrightarrow> HEX_ADDRESS (cf_contract cfg) \<Longrightarrow> no_throw (codePinReason V c captured cfg pinned)"
  unfolding codePinReason_def
  by (auto split: jsval.split list.split sum.split prod.split intro!: no_throw_bind no_throw_is_this)

lemma no_throw_captured_row:
  assumes "viem_addresses_ok V" "HEX_ADDRESS (cf_contract cfg)"
  shows "no_throw (captured_row V c cfg captured)"
proof -
  have "no_throw (check_chain_id V c cfg)"
    unfolding check_chain_id_def by (auto split: prod.split intro!: no_throw_bind)
  moreover have "no_throw (check_contract V c cfg captured)"
    unfolding check_contract_def
    by (auto split: option.split intro!: no_throw_bind no_throw_is_this no_throw_code_pin assms)
  moreover have "no_throw (read_row V c cfg h)" for h
    unfolding read_row_def by (auto split: prod.split intro!: no_throw_bind no_throw_locks_call assms)
  ultimately show ?thesis
    unfolding captured_row_def by (auto intro!: no_throw_bind)
qed

text \<open>Documented behaviour of the decoder: the addresses of a decoded row are addresses.\<close>

definition decoded_addresses_ok :: "viem \<Rightarrow> bool" where
  "decoded_addresses_ok V \<longleftrightarrow>
     (\<forall>v row. vi_decodeLocks V v = Some row \<longrightarrow> HEX_ADDRESS (lk_payer row) \<and> HEX_ADDRESS (lk_payee row) \<and> HEX_ADDRESS (lk_token row))"

definition answerable_asset :: "evm_config \<Rightarrow> string \<Rightarrow> bool" where
  "answerable_asset cfg name \<longleftrightarrow> (\<forall>n. asset_slot cfg name \<noteq> InheritedMember n) \<and> (\<forall>a. asset_slot cfg name = OwnAsset a \<longrightarrow> HEX_ADDRESS a)"

lemma answerable_asset_checked:
  assumes "checkEvmRailConfig V w = Inr cfg" "name \<notin> set object_members"
  shows "answerable_asset cfg name" "HEX_ADDRESS (cf_contract cfg)"
proof -
  have k: "config_shape w = Inr cfg" using checkEvmRailConfig_Inr [OF assms(1)] by blast
  show "HEX_ADDRESS (cf_contract cfg)" by (rule config_shape_Inr(2) [OF k])
  show "answerable_asset cfg name"
    using assms(2) config_shape_Inr(3) [OF k map_of_SomeD]
    by (auto simp: answerable_asset_def asset_slot_def split: option.splits)
qed

lemma no_throw_fields:
  assumes "viem_addresses_ok V" "HEX_ADDRESS (lk_payer row)" "HEX_ADDRESS (lk_payee row)" "HEX_ADDRESS (lk_token row)"
    "HEX_ADDRESS payee" "HEX_ADDRESS payer" "answerable_asset cfg name" "bigint_of (lt_amount terms) \<noteq> None"
  shows "no_throw (firstFieldMismatch V row payee (Some payer) (asset_slot cfg name) terms)"
proof -
  have "no_throw (unless_token V (lk_token row) (asset_slot cfg name))"
    using assms(7) no_throw_same(2) [OF assms(1,4)]
    by (cases "asset_slot cfg name") (auto simp: unless_token_def answerable_asset_def)
  moreover obtain amount where "bigint_of (lt_amount terms) = Some amount" using assms(8) by blast
  ultimately show ?thesis
    using no_throw_same(2) [OF assms(1,3,5)] no_throw_same(2) [OF assms(1,2,6)]
    unfolding firstFieldMismatch_def by (auto intro!: no_throw_bind)
qed

lemma no_throw_same_deployment:
  assumes "viem_addresses_ok V" "HEX_ADDRESS (cf_contract cfg)" "HEX_ADDRESS (cf_contract captured)"
    "answerable_asset cfg (lt_asset terms)" "answerable_asset captured (lt_asset terms)"
  shows "no_throw (same_deployment V terms cfg captured)"
proof -
  have "no_throw (same_slot V (asset_slot captured (lt_asset terms)) (asset_slot cfg (lt_asset terms)))"
    using assms(1,4,5) no_throw_same(1)
    by (auto simp: same_slot_def answerable_asset_def split: asset_slot.split)
  then show ?thesis
    using no_throw_same(1) [OF assms(1,3,2)] unfolding same_deployment_def Let_def by (auto intro!: no_throw_bind)
qed

lemma judge_row_answers:
  assumes "\<And>payee payer. ea_payee acc = Some payee \<Longrightarrow> ea_payer acc = Some payer
      \<Longrightarrow> no_throw (firstFieldMismatch V row payee (Some payer) (asset_slot cfg (lt_asset terms)) terms)"
  shows "\<exists>e. judge_row V terms cfg acc base row = Inr e"
  using assms unfolding judge_row_def settled_row_def locked_row_def no_throw_def Let_def
  by (auto split: option.splits sum.splits)

text \<open>C18. The EVM evidence reader answers on every capture, however damaged or hostile its index, its
  configuration and its bytes: with a checked configuration, account lines that are addresses, an amount
  that \<open>BigInt\<close> reads and an asset not named like a member every object inherits, it returns evidence
  and never throws.\<close>

theorem evm_reader_answers:
  assumes "viem_addresses_ok V" "decoded_addresses_ok V" "checkEvmRailConfig V w = Inr cfg"
    "bigint_of (lt_amount terms) \<noteq> None" "lt_asset terms \<notin> set object_members"
    "\<forall>a. ea_payee acc = Some a \<or> ea_payer acc = Some a \<longrightarrow> HEX_ADDRESS a"
  shows "\<exists>e. evmEvidence V terms cfg acc c = Inr e"
proof -
  note own = answerable_asset_checked [OF assms(3,5)]
  have dep: "no_throw (same_deployment V terms cfg captured)" if "checkEvmRailConfig V v = Inr captured" for v captured
    by (rule no_throw_same_deployment [OF assms(1) own(2) answerable_asset_checked(2) [OF that assms(5)] own(1)
        answerable_asset_checked(1) [OF that assms(5)]])
  have judged: "\<exists>e. judge_row V terms cfg acc base row = Inr e" if "captured_row V c cfg captured = Inr (row, b)" for base row b captured
  proof (rule judge_row_answers)
    have "\<exists>v. vi_decodeLocks V v = Some row"
      using captured_row_shows [OF assms(1) that] unfolding chain_shows_def by blast
    then have "HEX_ADDRESS (lk_payer row)" "HEX_ADDRESS (lk_payee row)" "HEX_ADDRESS (lk_token row)"
      using assms(2) unfolding decoded_addresses_ok_def by blast+
    then show "no_throw (firstFieldMismatch V row payee (Some payer) (asset_slot cfg (lt_asset terms)) terms)"
      if "ea_payee acc = Some payee" "ea_payer acc = Some payer" for payee payer
      using that assms(6) by (intro no_throw_fields [OF assms(1) _ _ _ _ _ own(1) assms(4)]) auto
  qed
  show ?thesis
    using dep judged no_throw_captured_row [OF assms(1) own(2), of c]
    unfolding evmEvidence_def Let_def no_throw_def answered_def
    by (auto split: option.split sum.split)
qed

theorem evm_reader_answers_witness:
  "\<exists>e. evmEvidence demo_viem demo_terms_a base_sepolia_config demo_accounts (demo_capture False) = Inr e"
proof (rule evm_reader_answers [OF demo_viem_addresses _ base_sepolia_checks])
  show "decoded_addresses_ok demo_viem"
    using demo_shapes by (auto simp: decoded_addresses_ok_def demo_viem_def demo_row_def split: jsval.splits if_splits)
  have "bigint_of (lt_amount demo_terms_a) = Some 5" "lt_asset demo_terms_a \<notin> set object_members" by code_simp+
  then show "bigint_of (lt_amount demo_terms_a) \<noteq> None" "lt_asset demo_terms_a \<notin> set object_members" by simp_all
  show "\<forall>a. ea_payee demo_accounts = Some a \<or> ea_payer demo_accounts = Some a \<longrightarrow> HEX_ADDRESS a"
    using demo_shapes by (auto simp: demo_accounts_def)
qed

text \<open>What the hypothesis on the asset is there for: on one with such a name the reader throws, though its
  comment promises a verdict for every capture.\<close>

lemma evm_reader_throws_on_inherited_asset:
  assumes "ci_error (cp_index c) = None" "\<not> hashLockRefMismatch terms (ci_hashLock (cp_index c))"
    "checkEvmRailConfig V (ci_config (cp_index c)) = Inr captured" "pin_chainId (cf_pin captured) = pin_chainId (cf_pin cfg)"
    "same_address V (cf_contract captured) (cf_contract cfg) = Inr True"
    "asset_slot captured (lt_asset terms) \<noteq> NoAsset" "asset_slot cfg (lt_asset terms) = InheritedMember n"
  shows "evmEvidence V terms cfg acc c = Inl (InheritedAsset n)"
  using assms by (simp add: evmEvidence_def Let_def same_deployment_def same_slot_def answered_def)


section \<open>A truthful node is believed\<close>

text \<open>C11. A live check says what is on the chain: against a node that answers truthfully within the size
  bound, with a checked configuration that takes the chain's finalized tag, \<open>verifyLockFinal\<close> reads,
  records, binds and decodes its own calls and always answers; it reports the lock as verified exactly when
  the chain's row is locked and agrees in every field with the terms and the accounts, and it emits an
  observation of a status exactly when the row has that status and, unless it is locked, agrees too.\<close>

theorem live_verdict_is_the_chain:
  assumes "viem_addresses_ok V" "truthful env R"
    "checkEvmRailConfig V (config_value cfg) = Inr cfg" "pin_finality (cf_pin cfg) = ByTag tag k"
    "lt_lock terms = ''hash''" "hex32 (lt_statement terms)" "map_of (cf_assets cfg) (lt_asset terms) = Some token"
    "chain_has V R cfg tag (lt_statement terms) h row"
    "ns = id_namespace (lt_statement terms) now nonce" "q = leg_calls V cfg tag (lt_statement terms) h (rp_calls rp)"
    "\<forall>(n, k, m, ps) \<in> set q. fits env ns k R m ps"
    "inj_on (en_sha256 env) (xc_responseBytes ` seen_of env ns R ` set q)"
    "bigint_of (lt_amount terms) \<noteq> None" "list_all HEX_ADDRESS [lk_payee row, lk_payer row, lk_token row, payee, payer]"
  shows "\<exists>e. fst (verifyLockFinal V env cfg terms (lt_statement terms)
        \<lparr>ea_payee = Some payee, ea_payer = Some payer\<rparr> now nonce rp) = Inr e
      \<and> (le_railVerified (lg_lock e) = Some True \<longleftrightarrow> lk_status row = 1 \<and> row_agrees row payee payer token terms)
      \<and> (\<forall>st. (\<exists>ob. lg_rail e = Some ob \<and> ob_status ob = st)
           \<longleftrightarrow> lk_status row = status_code st \<and> (st = RLocked \<or> row_agrees row payee payer token terms))"
proof -
  obtain b ci where v: "fst (verifyLockFinal V env cfg terms (lt_statement terms) \<lparr>ea_payee = Some payee, ea_payer = Some payer\<rparr> now nonce rp)
      = judge_row V terms cfg \<lparr>ea_payee = Some payee, ea_payer = Some payer\<rparr> (final_base terms ci cfg b) row"
    by (rule honest_verdict [OF assms(1-12)])
  have "HEX_ADDRESS token"
    using config_shape_Inr(3) checkEvmRailConfig_Inr [OF assms(3)] map_of_SomeD [OF assms(7)] by blast
  then have "list_all HEX_ADDRESS [lk_payee row, lk_payer row, lk_token row, payee, payer, token]" using assms(14) by simp
  then obtain e where e: "judge_row V terms cfg \<lparr>ea_payee = Some payee, ea_payer = Some payer\<rparr> (final_base terms ci cfg b) row = Inr e"
    and k: "le_railVerified (lg_lock e) = Some True \<longleftrightarrow> lk_status row = 1 \<and> row_agrees row payee payer token terms"
    and ob: "lg_rail e = (if lk_status row = 1 then Some (evm_observation RLocked (final_base terms ci cfg b))
       else if lk_status row = 2 \<and> row_agrees row payee payer token terms then Some (evm_observation RClaimed (final_base terms ci cfg b))
       else if lk_status row = 3 \<and> row_agrees row payee payer token terms then Some (evm_observation RRefunded (final_base terms ci cfg b)) else None)"
    using judge_row_exact [OF assms(1,7,13)] by blast
  have "(\<exists>ob. lg_rail e = Some ob \<and> ob_status ob = st)
      \<longleftrightarrow> lk_status row = status_code st \<and> (st = RLocked \<or> row_agrees row payee payer token terms)" for st
    unfolding ob by (cases st) (auto simp: status_code_def)
  then show ?thesis using v e k by auto
qed

theorem live_verdict_is_the_chain_witness:
  "\<exists>e. fst (verifyLockFinal demo_viem (demo_env False) base_sepolia_config demo_terms_a (lt_statement demo_terms_a)
      \<lparr>ea_payee = Some (demo_address (CHR ''c'')), ea_payer = Some (demo_address (CHR ''b''))\<rparr> 5 ''n'' new_rpc) = Inr e
    \<and> le_railVerified (lg_lock e) = Some True"
proof -
  have "\<exists>e. fst (verifyLockFinal demo_viem (demo_env False) base_sepolia_config demo_terms_a (lt_statement demo_terms_a)
        \<lparr>ea_payee = Some (demo_address (CHR ''c'')), ea_payer = Some (demo_address (CHR ''b''))\<rparr> 5 ''n'' new_rpc) = Inr e
      \<and> (le_railVerified (lg_lock e) = Some True \<longleftrightarrow> lk_status (demo_seen_row False) = 1
          \<and> row_agrees (demo_seen_row False) (demo_address (CHR ''c'')) (demo_address (CHR ''b'')) (demo_address (CHR ''d'')) demo_terms_a)
      \<and> (\<forall>st. (\<exists>ob. lg_rail e = Some ob \<and> ob_status ob = st) \<longleftrightarrow> lk_status (demo_seen_row False) = status_code st
          \<and> (st = RLocked \<or> row_agrees (demo_seen_row False) (demo_address (CHR ''c'')) (demo_address (CHR ''b''))
               (demo_address (CHR ''d'')) demo_terms_a))"
    by (rule live_verdict_is_the_chain [OF demo_live demo_row_hyps(1,2)])
  then show ?thesis using demo_row_hyps(3) [of False] by (auto simp: demo_seen_status)
qed

end
