(* ===== verification/Evm_Replay.thy ===== *)
theory Evm_Replay
  imports Evm_Claims
begin

text \<open>
  The stored half of the EVM evidence: \<open>loadEvmCapture\<close> of \<open>src/rails/evm-evidence.ts\<close>
  over the directory of index files, and what is read back from the raw bytes that
  \<open>writeCapture\<close> of \<open>src/rails/rpc-capture.ts\<close> wrote.
\<close>

section \<open>Finding the index\<close>

definition ends_with :: "string \<Rightarrow> string \<Rightarrow> bool" where
  "ends_with s p \<longleftrightarrow> length p \<le> length s \<and> drop (length s - length p) s = p"

fun has_infix :: "string \<Rightarrow> string \<Rightarrow> bool" where
  "has_infix [] p \<longleftrightarrow> p = []"
| "has_infix (c # s) p \<longleftrightarrow> starts_with (c # s) p \<or> has_infix s p"

definition isCaptureIndexCandidate :: "string \<Rightarrow> bool" where
  "isCaptureIndexCandidate name \<longleftrightarrow> ends_with name ''.json'' \<and> \<not> has_infix name ''.tmp-''"

definition SHA256_HEX_LOWER :: "string \<Rightarrow> bool" where
  "SHA256_HEX_LOWER s \<longleftrightarrow> length s = 64 \<and> only lower_hex s"

definition exchange_shape :: "jsval \<Rightarrow> bool" where
  "exchange_shape e \<longleftrightarrow>
     is_object e \<and> text_of (prop_of e ''method'') \<noteq> None \<and> text_of (prop_of e ''requestBody'') \<noteq> None
     \<and> (case prop_of e ''responseSha256'' of Str h \<Rightarrow> SHA256_HEX_LOWER h | _ \<Rightarrow> False)
     \<and> (case prop_of e ''atMs'' of Num n \<Rightarrow> True | _ \<Rightarrow> False)"

definition looksLikeCaptureIndexFile :: "jsval \<Rightarrow> string \<Rightarrow> bool" where
  "looksLikeCaptureIndexFile v hashLock \<longleftrightarrow>
     is_object v \<and> prop_of v ''v'' = int_jsval 1 \<and> prop_of v ''rail'' = Str ''evm-htlc''
     \<and> prop_of v ''hashLock'' = Str hashLock \<and> hex32 hashLock
     \<and> (case prop_of v ''nonce'' of Str n \<Rightarrow> n \<noteq> [] | _ \<Rightarrow> False)
     \<and> (case prop_of v ''exchanges'' of Arr xs \<Rightarrow> list_all exchange_shape xs | _ \<Rightarrow> False)"

text \<open>The newest name: the last one of the sorted candidates. Names are texts of 8-bit characters.\<close>

fun text_less :: "string \<Rightarrow> string \<Rightarrow> bool" where
  "text_less s [] = False"
| "text_less [] (d # t) = True"
| "text_less (c # s) (d # t) = (if c = d then text_less s t else (of_char c :: nat) < of_char d)"

definition later_name :: "string option \<Rightarrow> string \<Rightarrow> string option" where
  "later_name best name = (case best of None \<Rightarrow> Some name | Some b \<Rightarrow> if text_less b name then Some name else Some b)"

definition newest_index :: "string list \<Rightarrow> string option" where
  "newest_index names = foldl later_name None (List.filter isCaptureIndexCandidate names)"

section \<open>Loading a capture\<close>

text \<open>
  The directory of the hash lock's index files: the names \<open>readdir\<close> lists (\<open>None\<close> when
  it throws) and the text \<open>readFile\<close> answers for each. The index is the parsed value; the map
  of bytes holds an entry for every digest the index names.
\<close>

record index_dir =
  id_names :: "string list option"
  id_text :: "string \<Rightarrow> string option"

record loaded_capture =
  lc_index :: jsval
  lc_bytes :: "string \<Rightarrow> bytes option"

definition digests_of :: "jsval \<Rightarrow> string list" where
  "digests_of v =
     (case prop_of v ''exchanges'' of
        Arr xs \<Rightarrow> List.map_filter (\<lambda>e. text_of (prop_of e ''responseSha256'')) xs
      | _ \<Rightarrow> [])"

definition loaded_bytes :: "(bytes \<Rightarrow> string) \<Rightarrow> (string \<Rightarrow> bytes option) \<Rightarrow> string list \<Rightarrow> string \<Rightarrow> bytes option" where
  "loaded_bytes H dir names n = (if n \<in> set names then readCapture H dir n else None)"

definition loadEvmCapture ::
    "(bytes \<Rightarrow> string) \<Rightarrow> (string \<Rightarrow> bytes option) \<Rightarrow> index_dir \<Rightarrow> string \<Rightarrow> loaded_capture option \<times> string list" where
  "loadEvmCapture H dir files hashLock =
     (case id_names files of
        None \<Rightarrow> (None, [])
      | Some names \<Rightarrow>
          (case newest_index names of
             None \<Rightarrow> (None, [])
           | Some newest \<Rightarrow>
               (case Option.bind (id_text files newest) json_parse of
                  None \<Rightarrow> (None, [newest])
                | Some v \<Rightarrow>
                    if \<not> looksLikeCaptureIndexFile v hashLock then (None, [newest])
                    else (Some \<lparr>lc_index = v, lc_bytes = loaded_bytes H dir (digests_of v)\<rparr>, []))))"

section \<open>Reading back the bytes\<close>

definition written :: "exchange list \<Rightarrow> (string \<Rightarrow> bytes option) \<Rightarrow> string \<Rightarrow> bytes option" where
  "written xs dir n = (case List.find (\<lambda>x. xc_responseSha256 x = n) (rev xs) of None \<Rightarrow> dir n | Some x \<Rightarrow> Some (xc_responseBytes x))"

lemma writeCapture_written: "writeCapture xs dir n = written xs dir n"
proof (induction xs rule: rev_induct)
  case Nil
  then show ?case by (simp add: writeCapture_def written_def)
next
  case (snoc x xs)
  then show ?case by (auto simp: writeCapture_def written_def)
qed

text \<open>The exchanges of one run: each carries the digest of its bytes, and no two different replies
  have the same digest.\<close>

definition recorded_under :: "(bytes \<Rightarrow> string) \<Rightarrow> exchange list \<Rightarrow> bool" where
  "recorded_under H xs \<longleftrightarrow>
     (\<forall>x \<in> set xs. xc_responseSha256 x = H (xc_responseBytes x) \<and> SHA256_HEX_LOWER (xc_responseSha256 x))
     \<and> inj_on H (xc_responseBytes ` set xs)"

lemma find_by_digest:
  assumes "recorded_under H xs" "x \<in> set xs" "set ys = set xs"
  obtains y where "List.find (\<lambda>z. xc_responseSha256 z = xc_responseSha256 x) ys = Some y" "xc_responseBytes y = xc_responseBytes x"
proof -
  obtain y where y: "List.find (\<lambda>z. xc_responseSha256 z = xc_responseSha256 x) ys = Some y"
    using assms(2,3) by (cases "List.find (\<lambda>z. xc_responseSha256 z = xc_responseSha256 x) ys") (auto simp: find_None_iff)
  then have "y \<in> set xs" "xc_responseSha256 y = xc_responseSha256 x" using assms(3) by (auto simp: find_Some_iff)
  then have "xc_responseBytes y = xc_responseBytes x"
    using assms(1,2) unfolding recorded_under_def by (metis imageI inj_onD)
  then show thesis using that y by blast
qed

lemma replayed_bytes:
  assumes "recorded_under H xs" "x \<in> set xs"
  shows "readCapture H (writeCapture xs dir) (xc_responseSha256 x) = Some (xc_responseBytes x)"
    "verifiedExchangeBytes H xs (xc_responseSha256 x) = Some (xc_responseBytes x)"
proof -
  have d: "H (xc_responseBytes x) = xc_responseSha256 x" "length (xc_responseSha256 x) = 64 \<and> only lower_hex (xc_responseSha256 x)"
    using assms unfolding recorded_under_def SHA256_HEX_LOWER_def by metis+
  obtain y where y: "List.find (\<lambda>z. xc_responseSha256 z = xc_responseSha256 x) (rev xs) = Some y" "xc_responseBytes y = xc_responseBytes x"
    by (rule find_by_digest [OF assms, of "rev xs"]) auto
  show "readCapture H (writeCapture xs dir) (xc_responseSha256 x) = Some (xc_responseBytes x)"
    using d y by (simp add: readCapture_def writeCapture_written written_def)
  obtain z where "List.find (\<lambda>w. xc_responseSha256 w = xc_responseSha256 x) xs = Some z" "xc_responseBytes z = xc_responseBytes x"
    by (rule find_by_digest [OF assms refl])
  then show "verifiedExchangeBytes H xs (xc_responseSha256 x) = Some (xc_responseBytes x)"
    using d(1) by (simp add: verifiedExchangeBytes_def)
qed

section \<open>What the reader reads\<close>

definition same_reading :: "evm_capture \<Rightarrow> evm_capture \<Rightarrow> bool" where
  "same_reading c d \<longleftrightarrow>
     cp_index c = cp_index d
     \<and> (\<forall>x \<in> set (ci_exchanges (cp_index c)). cp_bytes c (ix_responseSha256 x) = cp_bytes d (ix_responseSha256 x))"

lemma bind_same:
  assumes "same_reading c d" "\<And>ex. x = Some ex \<Longrightarrow> ex \<in> set (ci_exchanges (cp_index d))"
  shows "bindExchange c x l = bindExchange d x l"
  using assms by (cases x) (simp_all add: bindExchange_def same_reading_def)

lemma find_same: "same_reading c d \<Longrightarrow>
    bindExchange c (findByMethod (ci_exchanges (cp_index d)) m) l = bindExchange d (findByMethod (ci_exchanges (cp_index d)) m) l"
  by (rule bind_same) (auto dest: findByMethod_Some)

lemma block_call_same:
  assumes "same_reading c d" "\<And>ex. x = Some ex \<Longrightarrow> ex \<in> set (block_calls d)"
  shows "bindExchange c x l = bindExchange d x l"
  by (rule bind_same [OF assms(1)]) (use assms(2) in \<open>auto simp: block_calls_def\<close>)

lemma resolve_same:
  assumes "same_reading c d"
  shows "resolveFinalizedBlock V f c = resolveFinalizedBlock V f d"
proof -
  have i: "cp_index c = cp_index d" "block_calls c = block_calls d" using assms by (simp_all add: same_reading_def block_calls_def)
  have numbered: "readNumberedBlock V c n x = readNumberedBlock V d n x" if "\<And>ex. x = Some ex \<Longrightarrow> ex \<in> set (ci_exchanges (cp_index d))" for n x
    using bind_same [OF assms that] by (simp add: readNumberedBlock_def i find_same [OF assms])
  have "readNumberedBlock V c n (findByMethod (ci_exchanges (cp_index d)) m) = readNumberedBlock V d n (findByMethod (ci_exchanges (cp_index d)) m)" for n m
    by (rule numbered) (auto dest: findByMethod_Some)
  moreover have "readNumberedBlock V c n (other_call p (block_calls d)) = readNumberedBlock V d n (other_call p (block_calls d))" for n p
    by (rule numbered) (auto dest!: other_call_mem simp: block_calls_def)
  ultimately have blocks: "readNumberedBlock V c n (findByMethod (ci_exchanges (cp_index d)) m)
      = readNumberedBlock V d n (findByMethod (ci_exchanges (cp_index d)) m)" "fallback_block V c tag k = fallback_block V d tag k" for n m tag k
    by (simp_all add: fallback_block_def i split: option.split)
  have tagged: "tagged_block V c tag k rq out = tagged_block V d tag k rq out" for tag k rq out
    unfolding tagged_block_def blocks(2) ..
  have "bindExchange c (List.find p (block_calls d)) l = bindExchange d (List.find p (block_calls d)) l" for p l
    by (rule block_call_same [OF assms]) (auto simp: find_Some_iff)
  then show ?thesis unfolding resolveFinalizedBlock_def i blocks(1) tagged by (cases f) simp_all
qed

lemma captured_row_same:
  assumes "same_reading c d"
  shows "captured_row V c cfg captured = captured_row V d cfg captured"
proof -
  have i: "cp_index c = cp_index d" using assms by (simp add: same_reading_def)
  show ?thesis
    unfolding captured_row_def check_chain_id_def check_contract_def codePinReason_def read_row_def i
      find_same [OF assms] resolve_same [OF assms] ..
qed

lemma evmEvidence_same:
  assumes "same_reading c d"
  shows "evmEvidence V terms cfg acc c = evmEvidence V terms cfg acc d"
proof -
  have i: "cp_index c = cp_index d" using assms by (simp add: same_reading_def)
  show ?thesis unfolding evmEvidence_def i captured_row_same [OF assms] ..
qed

text \<open>C12. A replay says what the live check said: once the exchanges of a capture are written, the verdict
  from the bytes read back and hashed again, whatever the store held before under the same names, is the
  verdict the live check drew from memory, for every index over those exchanges, every terms, configuration
  and accounts.\<close>

theorem replayed_verdict_is_the_live_one:
  assumes "recorded_under H xs" "ci_exchanges ci = map index_of_exchange xs"
  shows "evmEvidence V terms cfg acc
      \<lparr>cp_index = ci, cp_bytes = loaded_bytes H (writeCapture xs dir) (map ix_responseSha256 (ci_exchanges ci))\<rparr>
    = evmEvidence V terms cfg acc \<lparr>cp_index = ci, cp_bytes = verifiedExchangeBytes H xs\<rparr>"
  by (rule evmEvidence_same)
    (use replayed_bytes [OF assms(1)] in \<open>auto simp: same_reading_def assms(2) loaded_bytes_def\<close>)

text \<open>One exchange, a digest, and a store that holds other bytes under its name.\<close>

definition demo_digest :: "bytes \<Rightarrow> string" where
  "demo_digest bs = replicate 64 (CHR ''a'')"

definition demo_stored_exchange :: exchange where
  "demo_stored_exchange =
     \<lparr>xc_method = ''eth_chainId'', xc_params = Arr [], xc_requestBody = ''{}'', xc_responseBytes = [1, 2],
      xc_responseSha256 = demo_digest [1, 2], xc_atMs = 5, xc_path = None\<rparr>"

theorem replayed_verdict_is_the_live_one_witness:
  "evmEvidence demo_viem demo_terms_a base_sepolia_config demo_accounts
      \<lparr>cp_index = buildIndex base_sepolia_config (int_jsnum 84532) (lt_statement demo_terms_a) 5 ''n'' [demo_stored_exchange]
          (ByTag ''finalized'' None) None,
       cp_bytes = loaded_bytes demo_digest (writeCapture [demo_stored_exchange] (\<lambda>n. Some [9])) [demo_digest [1, 2]]\<rparr>
    = evmEvidence demo_viem demo_terms_a base_sepolia_config demo_accounts
      \<lparr>cp_index = buildIndex base_sepolia_config (int_jsnum 84532) (lt_statement demo_terms_a) 5 ''n'' [demo_stored_exchange]
          (ByTag ''finalized'' None) None,
       cp_bytes = verifiedExchangeBytes demo_digest [demo_stored_exchange]\<rparr>
   \<and> writeCapture [demo_stored_exchange] (\<lambda>n. Some [9]) (demo_digest [1, 2]) = Some [1, 2]"
proof -
  let ?ci = "buildIndex base_sepolia_config (int_jsnum 84532) (lt_statement demo_terms_a) 5 ''n'' [demo_stored_exchange] (ByTag ''finalized'' None) None"
  have "SHA256_HEX_LOWER (demo_digest [1, 2])" by code_simp
  then have r: "recorded_under demo_digest [demo_stored_exchange]" by (simp add: recorded_under_def demo_stored_exchange_def)
  have i: "ci_exchanges ?ci = map index_of_exchange [demo_stored_exchange]" by (simp add: buildIndex_def)
  have d: "map ix_responseSha256 (ci_exchanges ?ci) = [demo_digest [1, 2]]" unfolding i by (simp add: index_of_exchange_def demo_stored_exchange_def)
  show ?thesis
    using replayed_verdict_is_the_live_one [OF r i, unfolded d, where dir = "\<lambda>n. Some [9]"]
    by (simp add: writeCapture_written written_def demo_stored_exchange_def)
qed

text \<open>A failed attempt is not hidden by an older success: what is loaded is the newest candidate file or
  nothing.\<close>

lemma newest_index_max:
  assumes "newest_index names = Some n"
  shows "n \<in> set names" "isCaptureIndexCandidate n"
proof -
  have "foldl later_name b xs = Some n \<Longrightarrow> b = Some n \<or> n \<in> set xs" for b xs
    by (induction xs arbitrary: b) (auto simp: later_name_def split: option.splits if_splits)
  then have "n \<in> set (List.filter isCaptureIndexCandidate names)" using assms unfolding newest_index_def by blast
  then show "n \<in> set names" "isCaptureIndexCandidate n" by simp_all
qed

end
