(* ===== verification/Rail_Readers.thy ===== *)
theory Rail_Readers
  imports Evm_Claims Paper_Evidence Swap_Properties
begin

text \<open>
  Between the evidence readers and the fold. The locale \<open>evidence_reader\<close> states what the
  fold's caller gets from a reader of \<open>src/rails\<close>: what it emits is bound to the terms it was
  asked about and rests on what its rail shows. It is interpreted on \<open>evmEvidence\<close> and on
  \<open>paperEvidence\<close>; its lemmas carry a verdict of \<open>foldSwap\<close> back to the rail.
\<close>

section \<open>The interface\<close>

text \<open>\<open>read i t e\<close>: the reader, given the input \<open>i\<close> and asked about the terms
  \<open>t\<close>, answers \<open>e\<close>. \<open>shows i t st\<close> and \<open>locked i t\<close> are what the
  rail shows of the lock, and that it is locked as agreed.\<close>

locale evidence_reader =
  fixes rail :: string
    and ref_of :: "lock_terms \<Rightarrow> string"
    and read :: "'i \<Rightarrow> lock_terms \<Rightarrow> leg_evidence \<Rightarrow> bool"
    and rail_shows :: "'i \<Rightarrow> lock_terms \<Rightarrow> rail_status \<Rightarrow> bool"
    and rail_locked :: "'i \<Rightarrow> lock_terms \<Rightarrow> bool"
  assumes observation_law: "read i t e \<Longrightarrow> lg_rail e = Some ob \<Longrightarrow>
      ob_final ob \<and> ob_rail ob = Some rail \<and> ob_ref ob = Some (ref_of t) \<and> ob_contract ob = Some (lt_contract t)
      \<and> ob_terms ob = Some t \<and> rail_shows i t (ob_status ob)"
    and lock_law: "read i t e \<Longrightarrow> le_railVerified (lg_lock e) = Some True \<Longrightarrow>
      le_rail (lg_lock e) = rail \<and> le_ref (lg_lock e) = ref_of t \<and> le_terms (lg_lock e) = t \<and> rail_locked i t"
begin

text \<open>The lock the reader was asked about is the accepted lock of a leg.\<close>

definition asked_about :: "tclk \<Rightarrow> contract_state \<Rightarrow> lock_terms \<Rightarrow> bool" where
  "asked_about T s t \<longleftrightarrow> st_rail s = Some rail \<and> st_railRef s = Some (ref_of t) \<and> lockTerms T s = Some t"

lemma final_observation:
  assumes "read i t e" "final_bound T s st (lg_rail e)"
  shows "asked_about T s t \<and> rail_shows i t st"
  using assms(2) observation_law [OF assms(1)] by (auto simp: final_bound_def bound_to_def asked_about_def)

lemma confirmed_lock:
  assumes "read i t e" "lock_confirmed T s (Some (lg_lock e))"
  shows "asked_about T s t \<and> rail_locked i t"
  using assms(2) lock_law [OF assms(1)] by (auto simp: lock_confirmed_def asked_about_def)

text \<open>No evidence of a reader for the accepted lock is thrown away by the fold.\<close>

lemma own_evidence_counts:
  assumes "read i t e" "asked_about T s t"
  shows "lg_rail e = Some ob \<Longrightarrow> binding_refusal T (Some s) ob = None"
    "le_railVerified (lg_lock e) = Some True \<Longrightarrow> lock_confirmed T s (Some (lg_lock e))"
  using assms(2) observation_law [OF assms(1)] lock_law [OF assms(1)]
  by (auto simp: binding_refusal_None bound_to_def asked_about_def lock_confirmed_def)

end

section \<open>The EVM reader\<close>

type_synonym evm_input = "viem \<times> evm_config \<times> evm_accounts \<times> evm_capture"

definition evm_reads :: "evm_input \<Rightarrow> lock_terms \<Rightarrow> leg_evidence \<Rightarrow> bool" where
  "evm_reads i t e \<longleftrightarrow> (case i of (V, cfg, acc, c) \<Rightarrow> viem_addresses_ok V \<and> evmEvidence V t cfg acc c = Inr e)"

text \<open>The row of the lock, read at a final block of the auditor's chain.\<close>

definition evm_row :: "evm_input \<Rightarrow> lock_terms \<Rightarrow> rail_status \<Rightarrow> bool \<Rightarrow> bool" where
  "evm_row i t st agrees \<longleftrightarrow>
     (case i of (V, cfg, acc, c) \<Rightarrow>
        \<exists>row final_ref. read_on_chain V t cfg c row final_ref \<and> lk_status row = status_code st
          \<and> (agrees \<longrightarrow> (\<exists>payee payer token. ea_payee acc = Some payee \<and> ea_payer acc = Some payer
               \<and> map_of (cf_assets cfg) (lt_asset t) = Some token \<and> row_agrees row payee payer token t)))"

interpretation evm_reader: evidence_reader EVM_RAIL_ID lt_statement evm_reads
  "\<lambda>i t st. evm_row i t st (st \<noteq> RLocked)" "\<lambda>i t. evm_row i t RLocked True"
proof
  fix i :: evm_input and t e ob
  obtain V cfg acc c where i: "i = (V, cfg, acc, c)" by (metis prod_cases4)
  assume "evm_reads i t e"
  then have r: "viem_addresses_ok V" "evmEvidence V t cfg acc c = Inr e" by (simp_all add: i evm_reads_def)
  show "ob_final ob \<and> ob_rail ob = Some EVM_RAIL_ID \<and> ob_ref ob = Some (lt_statement t) \<and> ob_contract ob = Some (lt_contract t)
      \<and> ob_terms ob = Some t \<and> evm_row i t (ob_status ob) (ob_status ob \<noteq> RLocked)" if "lg_rail e = Some ob"
    using observation_rests_on_row [OF r that] unfolding i evm_row_def prod.case by blast
  show "le_rail (lg_lock e) = EVM_RAIL_ID \<and> le_ref (lg_lock e) = lt_statement t \<and> le_terms (lg_lock e) = t
      \<and> evm_row i t RLocked True" if "le_railVerified (lg_lock e) = Some True"
    using verified_rests_on_row [OF r that] unfolding i evm_row_def prod.case by (simp add: status_code_def) blast
qed

section \<open>The paper reader\<close>

type_synonym paper_input = "tclk \<times> string option \<times> int \<times> string"

definition paper_reads :: "paper_input \<Rightarrow> lock_terms \<Rightarrow> leg_evidence \<Rightarrow> bool" where
  "paper_reads i t e \<longleftrightarrow>
     (case i of (T, note, at_ms, endpoint) \<Rightarrow>
        lg_lock e = pe_lock (paperEvidence T t note at_ms endpoint) \<and> lg_rail e = pe_rail (paperEvidence T t note at_ms endpoint))"

definition paper_row :: "paper_input \<Rightarrow> lock_terms \<Rightarrow> rail_status \<Rightarrow> bool" where
  "paper_row i t st \<longleftrightarrow>
     (case i of (T, note, at_ms, endpoint) \<Rightarrow>
        \<exists>body rec. note = Some body \<and> decodePaperRecord T body = Some rec \<and> termsMatch t rec
          \<and> rail_status_of (pr_status rec) = Some st
          \<and> (st = RClaimed \<longrightarrow> verifySecret T (lt_lock t) (lt_statement t) (record_secret rec)))"

lemma paperEvidence_verified:
  assumes "le_railVerified (pe_lock (paperEvidence T t note a n)) = Some True"
  shows "pe_rail (paperEvidence T t note a n) \<noteq> None"
  using assms
  by (auto simp: paperEvidence_def paper_lock_def rail_status_of_def split: option.splits if_splits)

lemma paper_row_of:
  assumes "pe_rail (paperEvidence T t note a n) = Some ob"
  shows "paper_row (T, note, a, n) t (ob_status ob)" "ob_final ob"
    "le_railVerified (pe_lock (paperEvidence T t note a n)) = Some True \<Longrightarrow> ob_status ob = RLocked"
proof -
  obtain body rec st where k: "note = Some body" "decodePaperRecord T body = Some rec" "termsMatch t rec"
    "pr_status rec = ''claimed'' \<longrightarrow> verifySecret T (pr_lock rec) (pr_statement rec) (record_secret rec)"
    and st: "rail_status_of (pr_status rec) = Some st" "ob_status ob = st"
    and v: "le_railVerified (pe_lock (paperEvidence T t note a n)) = Some (pr_status rec = ''locked'')"
    by (rule paperEvidence_Some [OF assms])
  note s = rail_status_of_Some [OF st(1)]
  show "paper_row (T, note, a, n) t (ob_status ob)"
    using k st s unfolding paper_row_def prod.case termsMatch_def by (intro exI [of _ body] exI [of _ rec]) auto
  show "ob_status ob = RLocked" if "le_railVerified (pe_lock (paperEvidence T t note a n)) = Some True"
    using that v st s by simp
  show "ob_final ob"
    using assms by (auto simp: paperEvidence_def railBinding_def split: option.splits if_splits)
qed

interpretation paper_reader: evidence_reader PAPER_RAIL_ID lt_contract paper_reads paper_row "\<lambda>i t. paper_row i t RLocked"
proof
  fix i :: paper_input and t e ob
  obtain T nv a n where i: "i = (T, nv, a, n)" by (metis prod_cases4)
  assume "paper_reads i t e"
  then have r: "lg_lock e = pe_lock (paperEvidence T t nv a n)" "lg_rail e = pe_rail (paperEvidence T t nv a n)"
    by (simp_all add: i paper_reads_def)
  have b: "ob_rail x = Some PAPER_RAIL_ID \<and> ob_ref x = Some (lt_contract t) \<and> ob_contract x = Some (lt_contract t) \<and> ob_terms x = Some t"
    if "pe_rail (paperEvidence T t nv a n) = Some x" for x
    by (rule paperEvidence_Some [OF that]) simp
  show "ob_final ob \<and> ob_rail ob = Some PAPER_RAIL_ID \<and> ob_ref ob = Some (lt_contract t) \<and> ob_contract ob = Some (lt_contract t)
      \<and> ob_terms ob = Some t \<and> paper_row i t (ob_status ob)" if "lg_rail e = Some ob"
    using that b paper_row_of(1,2) unfolding r i by blast
  show "le_rail (lg_lock e) = PAPER_RAIL_ID \<and> le_ref (lg_lock e) = lt_contract t \<and> le_terms (lg_lock e) = t
      \<and> paper_row i t RLocked" if v: "le_railVerified (lg_lock e) = Some True"
  proof -
    obtain x where x: "pe_rail (paperEvidence T t nv a n) = Some x" using v paperEvidence_verified unfolding r by blast
    then have "ob_status x = RLocked" using paper_row_of(3) v r by simp
    then show ?thesis using paper_row_of(1) [OF x] paperEvidence_base r i by simp
  qed
qed

section \<open>From a verdict to the chain\<close>

definition leg_state :: "tclk \<Rightarrow> swap_fold_input \<Rightarrow> leg_label \<Rightarrow> contract_state option" where
  "leg_state T inp leg = state_of (foldLeg T (case leg of LegA \<Rightarrow> in_legA inp | LegB \<Rightarrow> in_legB inp))"

text \<open>What the caller supplied for a leg is what a reader answered for it.\<close>

definition supplied_from :: "swap_fold_input \<Rightarrow> leg_label \<Rightarrow> leg_evidence \<Rightarrow> bool" where
  "supplied_from inp leg e \<longleftrightarrow>
     (case leg of
        LegA \<Rightarrow> ev_a (supplied inp) = Some (lg_lock e) \<and> ev_aRail (supplied inp) = lg_rail e
      | LegB \<Rightarrow> ev_b (supplied inp) = Some (lg_lock e) \<and> ev_bRail (supplied inp) = lg_rail e)"

lemma settled_leg:
  assumes "foldSwap T inp = Some w" "sv_status w = Settled" "supplied_from inp leg e"
  shows "\<exists>s. leg_state T inp leg = Some s \<and> final_bound T s RClaimed (lg_rail e)"
  using assms(2,3) observed_final_bound [OF assms(1)] evidence_bound(5,6) [OF assms(1)]
  by (cases rule: foldSwap_verdict [OF assms(1)])
    (auto simp: early_def leg_state_def supplied_from_def split: leg_label.splits)

lemma locked_leg:
  assumes "foldSwap T inp = Some w" "sv_status w = ALocked \<or> leg = LegB \<and> sv_status w = BLocked" "supplied_from inp leg e"
  shows "\<exists>s. leg_state T inp leg = Some s \<and> lock_confirmed T s (Some (lg_lock e))"
  using assms(2,3) evidence_bound(3-6) [OF assms(1)]
  by (cases rule: foldSwap_verdict [OF assms(1)])
    (auto simp: early_def leg_state_def supplied_from_def split: leg_label.splits)

text \<open>C9. A verdict of the fold over evidence of the EVM reader is a fact of the chain: when the evidence of
  a leg is what \<open>evmEvidence\<close> answered for some terms and some capture, then in a settled swap those
  terms are the accepted terms of that leg, its accepted rail reference is the hash lock, and the chain shows
  the row of that lock claimed, at a final block, with the agreed parties, token, amount and deadlines; and in
  a swap whose leg counts as locked the chain shows that row locked.\<close>

theorem verdict_is_a_fact_of_the_chain:
  assumes "viem_addresses_ok V" "foldSwap T inp = Some w" "evmEvidence V terms cfg acc c = Inr e" "supplied_from inp leg e"
    "sv_status w = Settled \<or> sv_status w = ALocked \<or> leg = LegB \<and> sv_status w = BLocked"
  shows "\<exists>s row final_ref payee payer token.
      leg_state T inp leg = Some s \<and> st_rail s = Some EVM_RAIL_ID \<and> st_railRef s = Some (lt_statement terms)
      \<and> lockTerms T s = Some terms \<and> read_on_chain V terms cfg c row final_ref
      \<and> lk_status row = (if sv_status w = Settled then 2 else 1)
      \<and> ea_payee acc = Some payee \<and> ea_payer acc = Some payer \<and> map_of (cf_assets cfg) (lt_asset terms) = Some token
      \<and> row_agrees row payee payer token terms"
proof -
  let ?i = "(V, cfg, acc, c)"
  have r: "evm_reads ?i terms e" using assms(1,3) by (simp add: evm_reads_def)
  have "\<exists>s. leg_state T inp leg = Some s \<and> evm_reader.asked_about T s terms
      \<and> evm_row ?i terms (if sv_status w = Settled then RClaimed else RLocked) True"
  proof (cases "sv_status w = Settled")
    case True
    obtain s where "leg_state T inp leg = Some s" "final_bound T s RClaimed (lg_rail e)"
      using settled_leg [OF assms(2) True assms(4)] by blast
    then show ?thesis using evm_reader.final_observation [OF r] True by fastforce
  next
    case False
    then have "sv_status w = ALocked \<or> leg = LegB \<and> sv_status w = BLocked" using assms(5) by blast
    then obtain s where "leg_state T inp leg = Some s" "lock_confirmed T s (Some (lg_lock e))"
      using locked_leg [OF assms(2) _ assms(4)] by blast
    then show ?thesis using evm_reader.confirmed_lock [OF r] False by fastforce
  qed
  then obtain s row final_ref payee payer token where k: "leg_state T inp leg = Some s" "evm_reader.asked_about T s terms"
    "read_on_chain V terms cfg c row final_ref"
    "lk_status row = status_code (if sv_status w = Settled then RClaimed else RLocked)"
    "ea_payee acc = Some payee" "ea_payer acc = Some payer" "map_of (cf_assets cfg) (lt_asset terms) = Some token"
    "row_agrees row payee payer token terms"
    unfolding evm_row_def prod.case by blast
  have "lk_status row = (if sv_status w = Settled then 2 else 1)" using k(4) by (simp add: status_code_def)
  then show ?thesis using k(1-3,5-8) unfolding evm_reader.asked_about_def by blast
qed

text \<open>A swap whose leg A is read from the node of \<open>demo_chain\<close>: the accepted reference of that leg
  is its hash lock.\<close>

definition demo_evm_tclk :: tclk where
  "demo_evm_tclk =
     demo_tclk\<lparr>foldTranscript := (\<lambda>rs. (demo_fold rs)
       \<lparr>fold_state := map_option (\<lambda>s. if st_rail s = Some ''evm-htlc'' then s\<lparr>st_railRef := st_statement s\<rparr> else s)
          (fold_state (demo_fold rs))\<rparr>)\<rparr>"

definition demo_evm_input :: "lock_evidence \<Rightarrow> lock_evidence \<Rightarrow> swap_fold_input" where
  "demo_evm_input lock base =
     demo_input ''reveal'' ''reveal''
       \<lparr>ev_a = Some lock, ev_b = None, ev_aRail = Some (evm_observation RClaimed base),
        ev_bRail = Some (demo_observation RClaimed ''flop-htlc'' demo_terms_b 8)\<rparr>"

lemma demo_evm_settled:
  "map_option sv_status (foldSwap demo_evm_tclk (demo_evm_input lock
     \<lparr>le_rail = EVM_RAIL_ID, le_ref = lt_statement demo_terms_a, le_terms = demo_terms_a, le_railVerified = v, le_checkedAtMs = t,
      le_finalizedRef = f, le_endpoint = n, le_reason = r, le_raw = raw\<rparr>)) = Some Settled"
  by code_simp

theorem verdict_is_a_fact_of_the_chain_witness:
  "\<exists>lock base w. foldSwap demo_evm_tclk (demo_evm_input lock base) = Some w \<and> sv_status w = Settled
    \<and> (\<exists>row final_ref. read_on_chain demo_viem demo_terms_a base_sepolia_config (demo_capture True) row final_ref \<and> lk_status row = 2)"
proof -
  obtain e base where e: "evmEvidence demo_viem demo_terms_a base_sepolia_config demo_accounts (demo_capture True) = Inr e"
    "lg_rail e = Some (evm_observation RClaimed base)"
    and base: "le_rail base = EVM_RAIL_ID" "le_ref base = lt_statement demo_terms_a" "le_terms base = demo_terms_a"
    by (rule demo_evidence [of True]) simp
  have "map_option sv_status (foldSwap demo_evm_tclk (demo_evm_input (lg_lock e) base)) = Some Settled"
    using demo_evm_settled base by (cases base) simp
  then obtain w where w: "foldSwap demo_evm_tclk (demo_evm_input (lg_lock e) base) = Some w" "sv_status w = Settled" by auto
  have "supplied_from (demo_evm_input (lg_lock e) base) LegA e"
    by (simp add: supplied_from_def demo_evm_input_def demo_input_def supplied_def e(2))
  then show ?thesis using verdict_is_a_fact_of_the_chain [OF demo_viem_addresses w(1) e(1), of LegA] w by metis
qed

end
