(* ===== verification/Evm_Signer.thy ===== *)
theory Evm_Signer
  imports Evm_Capture
begin

text \<open>
  \<open>src/rails/evm-signer.ts\<close>: what a local account of the EVM rail may sign, the fee ceiling that
  is judged before the gas estimate, the refused \<open>eth_fillTransaction\<close>, and the name of a
  transaction that was sent. A refusal is a rule and the limit it names.
\<close>

section \<open>The signing rules\<close>

definition EVM_MAX_GAS_PER_WRITE :: int where
  "EVM_MAX_GAS_PER_WRITE = 500000"

datatype signer_rule = ChainIdRule | GasRule | FeeRule

text \<open>\<open>EvmSignerRefusedError\<close>: the rule, the limit, and the message.\<close>

type_synonym signer_refusal = "signer_rule \<times> string"

fun refusal_text :: "signer_refusal \<Rightarrow> string" where
  "refusal_text (ChainIdRule, l) = ''evm-htlc: refusing to sign: the transaction's chain id is not the pinned chain id '' @ l"
| "refusal_text (GasRule, l) =
     ''evm-htlc: refusing to sign: the transaction's gas limit is missing or above the ceiling of '' @ l @ '' for one write''"
| "refusal_text (FeeRule, l) =
     ''evm-htlc: refusing to sign: the transaction's fee cap is missing or above the ceiling of '' @ l
     @ '' wei (EvmRailConfig.maxFeePerGasWei)''"

record signing_limits =
  sl_chainId :: int
  sl_maxGas :: int
  sl_maxFeePerGas :: int

text \<open>A transaction is an object viem built: a field may also hold a BigInt. What is not an object
  has no field.\<close>

datatype tx_value = BigIntValue int | PlainValue jsval

type_synonym transaction = "(string \<times> tx_value) list"

definition tx_field :: "transaction \<Rightarrow> string \<Rightarrow> tx_value" where
  "tx_field tx k = (case map_of tx k of None \<Rightarrow> PlainValue Undefined | Some v \<Rightarrow> v)"

definition amountOf :: "tx_value \<Rightarrow> int option" where
  "amountOf v = (case v of BigIntValue i \<Rightarrow> Some i | PlainValue w \<Rightarrow> safe_int_of w)"

definition cap_within :: "int \<Rightarrow> tx_value \<Rightarrow> bool" where
  "cap_within limit v \<longleftrightarrow> v = PlainValue Undefined \<or> (\<exists>a \<in> set_option (amountOf v). a \<le> limit)"

definition signingRefusal :: "transaction \<Rightarrow> signing_limits \<Rightarrow> signer_refusal option" where
  "signingRefusal tx L =
     (let caps = map (tx_field tx) [''maxFeePerGas'', ''gasPrice'', ''maxPriorityFeePerGas'']
      in if amountOf (tx_field tx ''chainId'') \<noteq> Some (sl_chainId L) then Some (ChainIdRule, show_int (sl_chainId L))
         else if (case amountOf (tx_field tx ''gas'') of None \<Rightarrow> True | Some g \<Rightarrow> sl_maxGas L < g)
           then Some (GasRule, show_int (sl_maxGas L))
         else if tx_field tx ''maxFeePerGas'' = PlainValue Undefined \<and> tx_field tx ''gasPrice'' = PlainValue Undefined
           then Some (FeeRule, show_int (sl_maxFeePerGas L))
         else if list_ex (\<lambda>v. \<not> cap_within (sl_maxFeePerGas L) v) caps then Some (FeeRule, show_int (sl_maxFeePerGas L))
         else None)"

text \<open>\<open>guardLocalAccount\<close>: \<open>sign\<close> is the account's own function, the watch remembers a
  refusal. (The sealed wrapper shows the address and the type only.)\<close>

definition guardLocalAccount ::
    "signing_limits \<Rightarrow> (transaction \<Rightarrow> ('e, string) result) \<Rightarrow> transaction \<Rightarrow> signer_refusal option
      \<Rightarrow> (signer_refusal + 'e, string) result \<times> signer_refusal option" where
  "guardLocalAccount L sign tx watch =
     (case signingRefusal tx L of
        Some r \<Rightarrow> (Inl (Inl r), Some r)
      | None \<Rightarrow> (case sign tx of Inl e \<Rightarrow> Inl (Inr e) | Inr raw \<Rightarrow> Inr raw, watch))"

section \<open>The fee before the estimate\<close>

text \<open>
  What \<open>guardEstimateFeesPerGas\<close> is called with: the values the request carries, viem's
  multiplier, and the reads it may make. \<open>fs_baseFee\<close> is the base fee of the block, given or
  read; a chain without one has \<open>None\<close>.
\<close>

record fee_request =
  fq_legacy :: bool
  fq_gasPrice :: "int option"
  fq_maxFeePerGas :: "int option"
  fq_maxPriorityFeePerGas :: "int option"

record fee_source =
  fs_multiply :: "int \<Rightarrow> int"
  fs_gasPrice :: "(string, int) result"
  fs_baseFee :: "(string, int option) result"
  fs_priorityFee :: "(string, int) result"

datatype fee_caps = LegacyCap int | Eip1559Caps int int

definition fee_capped :: "int \<Rightarrow> int list \<Rightarrow> fee_caps \<Rightarrow> (signer_refusal + string, fee_caps option) result" where
  "fee_capped limit fees caps =
     (if list_ex (\<lambda>f. limit < f) fees then Inl (Inl (FeeRule, show_int limit)) else Inr (Some caps))"

definition given_or_read :: "int option \<Rightarrow> (string, int) result \<Rightarrow> (signer_refusal + string, int) result" where
  "given_or_read asked read = (case asked of Some v \<Rightarrow> Inr v | None \<Rightarrow> (case read of Inl m \<Rightarrow> Inl (Inr m) | Inr v \<Rightarrow> Inr v))"

definition guardEstimateFeesPerGas ::
    "int \<Rightarrow> fee_source \<Rightarrow> fee_request \<Rightarrow> (signer_refusal + string, fee_caps option) result" where
  "guardEstimateFeesPerGas limit S q =
     (if fq_legacy q then
        bind_res (given_or_read (fq_gasPrice q) (map_sum (\<lambda>m. m) (fs_multiply S) (fs_gasPrice S))) (\<lambda>price.
          fee_capped limit [price] (LegacyCap price))
      else
        (case fs_baseFee S of
           Inl m \<Rightarrow> Inl (Inr m)
         | Inr None \<Rightarrow> Inr None
         | Inr (Some base) \<Rightarrow>
             bind_res (given_or_read (fq_maxPriorityFeePerGas q) (fs_priorityFee S)) (\<lambda>priority.
               (let maxFee = (case fq_maxFeePerGas q of Some v \<Rightarrow> v | None \<Rightarrow> fs_multiply S base + priority)
                in fee_capped limit [maxFee, priority] (Eip1559Caps maxFee priority)))))"

section \<open>The provider viem is given\<close>

text \<open>A provider answers a method with its parameters and changes its own state.\<close>

type_synonym 's provider = "string \<Rightarrow> jsval \<Rightarrow> 's \<Rightarrow> (rpc_failure, jsval) result \<times> 's"

definition fill_refused :: rpc_failure where
  "fill_refused =
     RpcCaptureError (int_jsnum (- 32601))
       ''the method eth_fillTransaction does not exist/is not available (this build never lets an endpoint fill a transaction it signs)''
       None Undefined Undefined"

definition refuseFillTransaction :: "'s provider \<Rightarrow> 's provider" where
  "refuseFillTransaction p m ps s = (if m = ''eth_fillTransaction'' then (Inl fill_refused, s) else p m ps s)"

definition RAW_TRANSACTION :: "string \<Rightarrow> bool" where
  "RAW_TRANSACTION s \<longleftrightarrow> take 2 s = ''0x'' \<and> 2 < length s \<and> even (length s) \<and> only any_hex (drop 2 s)"

definition ANY_CASE_TX_HASH :: "string \<Rightarrow> bool" where
  "ANY_CASE_TX_HASH s \<longleftrightarrow> take 2 s = ''0x'' \<and> length s = 66 \<and> only any_hex (drop 2 s)"

definition tx_hash_shaped :: "jsval \<Rightarrow> bool" where
  "tx_hash_shaped v \<longleftrightarrow> (case v of Str s \<Rightarrow> ANY_CASE_TX_HASH s | _ \<Rightarrow> False)"

definition sentHashMismatchWarning :: "string \<Rightarrow> jsval \<Rightarrow> string" where
  "sentHashMismatchWarning computed v =
     (if tx_hash_shaped v then
        ''evm-htlc: warning: the endpoint answered a different transaction hash for a transaction this process sent; that transaction's hash is ''
        @ computed @ '', and the computed hash is used for this write''
      else
        ''evm-htlc: warning: the endpoint's answer to a transaction this process sent was not a transaction hash; the transaction's hash is ''
        @ computed @ '', and it is used for this write'')"

definition raw_param :: "jsval \<Rightarrow> string option" where
  "raw_param ps = (case ps of Arr (Str s # _) \<Rightarrow> if RAW_TRANSACTION s then Some s else None | _ \<Rightarrow> None)"

text \<open>The answer, and the warnings \<open>onWarning\<close> was told.\<close>

definition verifySentTransactionHash ::
    "(string \<Rightarrow> string) \<Rightarrow> 's provider \<Rightarrow> string \<Rightarrow> jsval \<Rightarrow> 's \<Rightarrow> ((rpc_failure, jsval) result \<times> string list) \<times> 's" where
  "verifySentTransactionHash keccak p m ps s =
     (case (if m = ''eth_sendRawTransaction'' then raw_param ps else None) of
        None \<Rightarrow> (case p m ps s of (r, s') \<Rightarrow> ((r, []), s'))
      | Some raw \<Rightarrow>
          (let computed = keccak raw
           in case p m ps s of
                (Inl e, s') \<Rightarrow> ((Inl e, []), s')
              | (Inr v, s') \<Rightarrow>
                  ((Inr (Str computed),
                    if tx_hash_shaped v \<and> map_option toLowerCase (text_of v) = Some computed then []
                    else [sentHashMismatchWarning computed v]), s')))"

section \<open>What is signed\<close>

definition within_limits :: "signing_limits \<Rightarrow> transaction \<Rightarrow> bool" where
  "within_limits L tx \<longleftrightarrow>
     amountOf (tx_field tx ''chainId'') = Some (sl_chainId L)
     \<and> (\<exists>g. amountOf (tx_field tx ''gas'') = Some g \<and> g \<le> sl_maxGas L)
     \<and> (\<exists>k \<in> {''maxFeePerGas'', ''gasPrice''}. tx_field tx k \<noteq> PlainValue Undefined)
     \<and> (\<forall>k \<in> {''maxFeePerGas'', ''gasPrice'', ''maxPriorityFeePerGas''}.
          tx_field tx k = PlainValue Undefined \<or> (\<exists>a. amountOf (tx_field tx k) = Some a \<and> a \<le> sl_maxFeePerGas L))"

lemma signingRefusal_None: "signingRefusal tx L = None \<longleftrightarrow> within_limits L tx"
  unfolding signingRefusal_def within_limits_def Let_def cap_within_def
  by (auto split: option.splits simp: not_less)

lemma guardLocalAccount_signed:
  assumes "guardLocalAccount L sign tx watch = (Inr raw, w)"
  shows "within_limits L tx" "sign tx = Inr raw" "w = watch"
  using assms by (auto simp: guardLocalAccount_def signingRefusal_None split: option.splits sum.splits)

lemma guardLocalAccount_refused:
  assumes "\<not> within_limits L tx"
  shows "\<exists>r. guardLocalAccount L sign tx watch = (Inl (Inl r), Some r)"
  using assms signingRefusal_None [of tx L] by (auto simp: guardLocalAccount_def split: option.splits)

lemma fee_capped_Inr: "fee_capped limit fees caps = Inr (Some c) \<longleftrightarrow> c = caps \<and> (\<forall>f \<in> set fees. f \<le> limit)"
  by (force simp: fee_capped_def list_ex_iff not_less)

lemma guardEstimateFees_caps:
  assumes "guardEstimateFeesPerGas limit S q = Inr (Some caps)"
  shows "case caps of LegacyCap p \<Rightarrow> p \<le> limit | Eip1559Caps f p \<Rightarrow> f \<le> limit \<and> p \<le> limit"
  using assms
  by (auto simp: guardEstimateFeesPerGas_def result_simps Let_def fee_capped_Inr split: if_splits sum.splits option.splits)

end
