(* ===== verification/Evm_Actions.thy ===== *)
theory Evm_Actions
  imports Evm_Signer
begin

text \<open>
  The handle of the EVM rail, \<open>EvmHtlcRail\<close> of \<open>src/rails/evm-htlc.ts\<close>: what it asks
  of the outside, and the shape of its methods. Every await of a method is one \<open>evm_call\<close>. The
  outside (the node, viem's clients, the clock, the party's address book) may answer each call from
  the whole history of calls, so nothing is assumed of the order or the consistency of its answers.
\<close>

section \<open>What the handle asks of the outside\<close>

datatype write_event = LockedEvent | ClaimedEvent | RefundedEvent

datatype write_kind = ApproveWrite | LockWrite | ClaimWrite | RefundWrite

text \<open>\<open>walletClient.writeContract\<close>, by the function it calls. A token is what the asset book
  answered: a plain object answers for its inherited members too.\<close>

datatype contract_call =
    CallApprove asset_slot string int
  | CallLock string string int asset_slot int int
  | CallClaim string string
  | CallRefund string

text \<open>
  \<open>AskNode\<close> is \<open>rpc.request\<close>; \<open>ReadLocks\<close> is \<open>readContract\<close> of
  \<open>locks\<close>, at a block or the latest; \<open>TryClaim\<close> and \<open>TryTransfer\<close> are
  \<open>simulateContract\<close> at the pending block; \<open>ReadLogs\<close> is \<open>getLogs\<close> of an
  event for a hash lock, up to a block or the latest; \<open>AwaitReceipt\<close> is viem's receipt wait.
\<close>

datatype evm_call =
    AskNode string jsval
  | ReadClock
  | AskBlockNumber
  | ReadLocks string "int option"
  | TryClaim string string
  | TryTransfer string string int
  | ReadLogs write_event string int "int option"
  | SendWrite contract_call
  | AwaitReceipt string "int option"
  | TellListener nat "write_kind option" string
  | Rest int

type_synonym history = "evm_call list"

record evm_log =
  el_preimage :: "string option"
  el_blockNumber :: "int option"
  el_blockHash :: "string option"
  el_transactionHash :: "string option"
  el_logIndex :: "int option"

text \<open>A send that failed says what viem's error says, and whether the guarded signer refused.\<close>

datatype sent = Sent string | NotSent string "signer_refusal option"

datatype receipt_answer = Receipt bool int | WaitTimedOut | WaitFailed string

text \<open>\<open>ou_digests\<close>: the digests of the exchanges the last call of a history added to the log.
  \<open>ou_hexToNumber\<close> and \<open>ou_numberToHex\<close> are viem's, of any value and of a BigInt.\<close>

record outside =
  ou_node :: "history \<Rightarrow> string \<Rightarrow> jsval \<Rightarrow> (rpc_failure, jsval) result"
  ou_clock :: "history \<Rightarrow> int"
  ou_blockNumber :: "history \<Rightarrow> (string, int) result"
  ou_locks :: "history \<Rightarrow> string \<Rightarrow> int option \<Rightarrow> (string, locks_row) result"
  ou_tryClaim :: "history \<Rightarrow> string \<Rightarrow> string \<Rightarrow> (string, unit) result"
  ou_tryTransfer :: "history \<Rightarrow> string \<Rightarrow> string \<Rightarrow> int \<Rightarrow> (string, unit) result"
  ou_logs :: "history \<Rightarrow> write_event \<Rightarrow> string \<Rightarrow> int \<Rightarrow> int option \<Rightarrow> (string, evm_log list) result"
  ou_send :: "history \<Rightarrow> contract_call \<Rightarrow> sent"
  ou_receipt :: "history \<Rightarrow> string \<Rightarrow> int option \<Rightarrow> receipt_answer"
  ou_digests :: "history \<Rightarrow> string list"
  ou_addressBook :: "string \<Rightarrow> (string, string) result"
  ou_hexToNumber :: "jsval \<Rightarrow> jsnum option"
  ou_numberToHex :: "int \<Rightarrow> string"
  ou_verifyHashPreimage :: "string \<Rightarrow> string \<Rightarrow> bool"

section \<open>The errors of the handle\<close>

text \<open>Each \<open>throw\<close>, with what its message prints. \<open>OutsideError\<close> and
  \<open>NodeError\<close> come from outside; \<open>Rewrapped\<close> is the vendored rail's
  \<open>tclk: \<dots>\<close> around another error's message.\<close>

datatype rail_error =
    OutsideError string
  | NodeError rpc_failure
  | TypeError
  | NotHexNumber
  | NotBigIntText string
  | NoTokenFor string
  | ChainIdMoved jsnum string int
  | OnlyHashLocks string
  | FeeDeclared
  | VendoredOnlyHash string
  | VendoredWindowOpen
  | MinedReverted write_kind string
  | ApproveReverted string
  | Rewrapped rail_error
  | PreCheckNotOpen string
  | PreCheckNoRevert
  | PayoutReverts string
  | NoTimestamp string
  | AtOrPastDeadline jsnum int
  | LogsFound write_event string int "int option" nat
  | LogWithoutIdentity write_event string
  | UnknownStatusByte int
  | NotATransaction
  | AnotherTransaction
  | BlockNumberNotHex
  | ReceiptWithoutStatus
  | TipNotHex
  | ScanBound int int int int int nat
  | ScanBoundWithoutPlan
  | SignerRefused signer_refusal
  | ReceiptTimeout string int "write_kind option"
  | ConfigRefused config_reason
  | PauseRefused
  | FeeCeilingUnusable
  | AccountRefused
  | WrongChain jsnum string int "string option"
  | WrongCode code_problem string string

section \<open>Methods\<close>

text \<open>The state a method changes: the calls made, the exchange log, the namespace of request ids, the
  listeners, and the watches of the receipt waits and of the signer.\<close>

record rail_run =
  rr_calls :: history
  rr_log :: "string list"
  rr_namespace :: "string option"
  rr_listeners :: "nat list"
  rr_timeout :: "(string \<times> int) option"
  rr_receiptBlock :: "int option"
  rr_write :: "write_kind option"
  rr_refused :: "signer_refusal option"

type_synonym 'a rail_act = "rail_run \<Rightarrow> (rail_error, 'a) result \<times> rail_run"

definition give :: "'a \<Rightarrow> 'a rail_act" where
  "give a r = (Inr a, r)"

definition throw :: "rail_error \<Rightarrow> 'a rail_act" where
  "throw e r = (Inl e, r)"

definition seq :: "'a rail_act \<Rightarrow> ('a \<Rightarrow> 'b rail_act) \<Rightarrow> 'b rail_act" where
  "seq f g r = (case f r of (Inl e, r') \<Rightarrow> (Inl e, r') | (Inr a, r') \<Rightarrow> g a r')"

definition raise_res :: "(rail_error, 'a) result \<Rightarrow> 'a rail_act" where
  "raise_res x r = (x, r)"

definition change :: "(rail_run \<Rightarrow> rail_run) \<Rightarrow> unit rail_act" where
  "change f r = (Inr (), f r)"

text \<open>\<open>catch\<close> and \<open>finally\<close>.\<close>

definition catching :: "'a rail_act \<Rightarrow> (rail_error \<Rightarrow> 'a rail_act) \<Rightarrow> 'a rail_act" where
  "catching f h r = (case f r of (Inl e, r') \<Rightarrow> h e r' | (Inr a, r') \<Rightarrow> (Inr a, r'))"

definition lastly :: "'a rail_act \<Rightarrow> (rail_run \<Rightarrow> rail_run) \<Rightarrow> 'a rail_act" where
  "lastly f g r = (case f r of (x, r') \<Rightarrow> (x, g r'))"

definition asks :: "outside \<Rightarrow> evm_call \<Rightarrow> (history \<Rightarrow> (rail_error, 'a) result) \<Rightarrow> 'a rail_act" where
  "asks W c f r =
     (let h = rr_calls r
      in (f h, r\<lparr>rr_calls := h @ [c], rr_log := rr_log r @ ou_digests W (h @ [c])\<rparr>))"

definition said :: "(string, 'a) result \<Rightarrow> (rail_error, 'a) result" where
  "said x = (case x of Inl m \<Rightarrow> Inl (OutsideError m) | Inr a \<Rightarrow> Inr a)"

definition node_said :: "(rpc_failure, 'a) result \<Rightarrow> (rail_error, 'a) result" where
  "node_said x = (case x of Inl e \<Rightarrow> Inl (NodeError e) | Inr a \<Rightarrow> Inr a)"

definition node :: "outside \<Rightarrow> string \<Rightarrow> jsval list \<Rightarrow> jsval rail_act" where
  "node W m ps = asks W (AskNode m (Arr ps)) (\<lambda>h. node_said (ou_node W h m (Arr ps)))"

definition clock :: "outside \<Rightarrow> int rail_act" where
  "clock W = asks W ReadClock (\<lambda>h. Inr (ou_clock W h))"

definition blockNumber :: "outside \<Rightarrow> int rail_act" where
  "blockNumber W = asks W AskBlockNumber (\<lambda>h. said (ou_blockNumber W h))"

definition locks :: "outside \<Rightarrow> string \<Rightarrow> int option \<Rightarrow> locks_row rail_act" where
  "locks W hashLock b = asks W (ReadLocks hashLock b) (\<lambda>h. said (ou_locks W h hashLock b))"

definition tryClaim :: "outside \<Rightarrow> string \<Rightarrow> string \<Rightarrow> unit rail_act" where
  "tryClaim W hashLock secret = asks W (TryClaim hashLock secret) (\<lambda>h. said (ou_tryClaim W h hashLock secret))"

definition tryTransfer :: "outside \<Rightarrow> string \<Rightarrow> string \<Rightarrow> int \<Rightarrow> unit rail_act" where
  "tryTransfer W token payee amount =
     asks W (TryTransfer token payee amount) (\<lambda>h. said (ou_tryTransfer W h token payee amount))"

definition getLogs :: "outside \<Rightarrow> write_event \<Rightarrow> string \<Rightarrow> int \<times> int option \<Rightarrow> evm_log list rail_act" where
  "getLogs W ev hashLock rg =
     asks W (ReadLogs ev hashLock (fst rg) (snd rg)) (\<lambda>h. said (ou_logs W h ev hashLock (fst rg) (snd rg)))"

text \<open>A send through the guarded signer: a refusal is also recorded in the signer's watch.\<close>

definition writeContract :: "outside \<Rightarrow> contract_call \<Rightarrow> string rail_act" where
  "writeContract W w r =
     (case ou_send W (rr_calls r) w of
        Sent hash \<Rightarrow> asks W (SendWrite w) (\<lambda>h. Inr hash) r
      | NotSent m refused \<Rightarrow>
          lastly (asks W (SendWrite w) (\<lambda>h. Inl (OutsideError m)))
            (\<lambda>r'. r'\<lparr>rr_refused := (if refused = None then rr_refused r' else refused)\<rparr>) r)"

definition hexToNumber :: "outside \<Rightarrow> jsval \<Rightarrow> jsnum rail_act" where
  "hexToNumber W v = raise_res (or_throw (ou_hexToNumber W v) NotHexNumber)"

definition bigIntText :: "string \<Rightarrow> int rail_act" where
  "bigIntText s = raise_res (or_throw (bigint_of s) (NotBigIntText s))"

end
