(* ===== verification/Evm_Writes.thy ===== *)
theory Evm_Writes
  imports Evm_Actions Js_Numbers "HOL-Library.Sublist"
begin

text \<open>
  The writes of \<open>EvmHtlcRail\<close> (\<open>src/rails/evm-htlc.ts\<close>) over the vendored binding
  (\<open>src/vendor/evm-hash-rail.ts\<close>): connecting, the receipt wait, the plan of a log scan, the
  evidence of a write, approve, lock, claim and refund. One definition per method, its awaits and its
  refusals in the order of the code.
\<close>

definition EVM_CLAIM_RECEIPT_WAIT_MS_BASE_SEPOLIA :: int where
  "EVM_CLAIM_RECEIPT_WAIT_MS_BASE_SEPOLIA = 180000"

definition VIEM_RECEIPT_TIMEOUT_MS :: int where
  "VIEM_RECEIPT_TIMEOUT_MS = 180000"

definition EVM_WRITE_LOOKUP_REPLANS :: nat where
  "EVM_WRITE_LOOKUP_REPLANS = 3"

definition MAX_LOOKUP_PAUSE_MS :: int where
  "MAX_LOOKUP_PAUSE_MS = 60000"

definition ZERO_BYTES32 :: string where
  "ZERO_BYTES32 = ''0x'' @ replicate 64 (CHR ''0'')"

section \<open>The handle\<close>

record rail_handle =
  rh_config :: evm_config
  rh_claimWaitCapMs :: "int option"
  rh_limits :: "signing_limits option"
  rh_lookupPauseMs :: int

text \<open>The account option: an address, or what should be a local account.\<close>

datatype account_option = AddressAccount string | ObjectAccount jsval jsval bool | NullAccount

definition account_ok :: "viem \<Rightarrow> account_option \<Rightarrow> bool" where
  "account_ok V a \<longleftrightarrow>
     (case a of
        AddressAccount s \<Rightarrow> True
      | ObjectAccount kind address signs \<Rightarrow> kind = Str ''local'' \<and> isValidAddressShape V address \<and> signs
      | NullAccount \<Rightarrow> False)"

definition pause_of :: "jsval \<Rightarrow> int option" where
  "pause_of v =
     (case (if v \<in> {Undefined, Null} then Some 0 else safe_int_of v) of
        Some i \<Rightarrow> if 0 \<le> i \<and> i \<le> MAX_LOOKUP_PAUSE_MS then Some i else None
      | None \<Rightarrow> None)"

text \<open>\<open>withReceiptTimeout\<close> as \<open>connect\<close> builds it, and what the guarded wallet may sign.\<close>

definition handle_of :: "evm_config \<Rightarrow> account_option \<Rightarrow> int \<Rightarrow> int \<Rightarrow> rail_handle" where
  "handle_of cfg account maxFee pause =
     \<lparr>rh_config = cfg,
      rh_claimWaitCapMs = (if pin_chainId (cf_pin cfg) = BASE_SEPOLIA_CHAIN_ID
                           then Some EVM_CLAIM_RECEIPT_WAIT_MS_BASE_SEPOLIA else None),
      rh_limits = (case account of
                     AddressAccount s \<Rightarrow> None
                   | _ \<Rightarrow> Some \<lparr>sl_chainId = pin_chainId (cf_pin cfg), sl_maxGas = EVM_MAX_GAS_PER_WRITE, sl_maxFeePerGas = maxFee\<rparr>),
      rh_lookupPauseMs = pause\<rparr>"

definition pinned_code :: "viem \<Rightarrow> outside \<Rightarrow> evm_config \<Rightarrow> unit rail_act" where
  "pinned_code V W cfg =
     (case cf_contractCodeHash cfg of
        None \<Rightarrow> give ()
      | Some pinned \<Rightarrow>
          seq (node W ''eth_getCode'' [Str (cf_contract cfg), Str ''latest'']) (\<lambda>code.
            case judgeRuntimeCode V code pinned of
              Inr _ \<Rightarrow> give ()
            | Inl problem \<Rightarrow> throw (WrongCode problem (cf_contract cfg) (shortPinnedHash pinned))))"

definition connect :: "viem \<Rightarrow> outside \<Rightarrow> jsval \<Rightarrow> account_option \<Rightarrow> jsval \<Rightarrow> rail_handle rail_act" where
  "connect V W config account lookupPauseMs =
     seq (raise_res (map_sum ConfigRefused (\<lambda>c. c) (checkEvmRailConfig V config))) (\<lambda>cfg.
     seq (raise_res (or_throw (pause_of lookupPauseMs) PauseRefused)) (\<lambda>pause.
     seq (raise_res (throw_if (\<not> account_ok V account) AccountRefused)) (\<lambda>_.
     seq (raise_res (or_throw (effectiveMaxFeePerGasWei cfg) FeeCeilingUnusable)) (\<lambda>maxFee.
     seq (node W ''eth_chainId'' []) (\<lambda>hex.
     seq (hexToNumber W hex) (\<lambda>live.
     seq (raise_res (throw_if (live \<noteq> int_jsnum (pin_chainId (cf_pin cfg)))
            (WrongChain live (pin_name (cf_pin cfg)) (pin_chainId (cf_pin cfg))
              (Option.bind (jsnum_int live) MAINNET_DENY_LIST)))) (\<lambda>_.
     seq (pinned_code V W cfg) (\<lambda>_.
     seq (change (\<lambda>r. r\<lparr>rr_log := []\<rparr>)) (\<lambda>_.
       give (handle_of cfg account maxFee pause))))))))))"

definition onWriteBroadcast :: "nat \<Rightarrow> unit rail_act" where
  "onWriteBroadcast l = change (\<lambda>r. r\<lparr>rr_listeners := List.insert l (rr_listeners r)\<rparr>)"

definition removeListener :: "nat \<Rightarrow> unit rail_act" where
  "removeListener l = change (\<lambda>r. r\<lparr>rr_listeners := remove1 l (rr_listeners r)\<rparr>)"

section \<open>Receipts\<close>

definition receipt_limit :: "rail_handle \<Rightarrow> write_kind option \<Rightarrow> int option" where
  "receipt_limit H kind =
     (let configured = cf_receiptTimeoutMs (rh_config H)
      in if kind = Some ClaimWrite \<and> rh_claimWaitCapMs H \<noteq> None
         then Some (min (case configured of None \<Rightarrow> VIEM_RECEIPT_TIMEOUT_MS | Some ms \<Rightarrow> ms) (the (rh_claimWaitCapMs H)))
         else configured)"

text \<open>\<open>onWaitStart\<close>: every listener in order; an error of one is swallowed.\<close>

fun tell_all :: "outside \<Rightarrow> nat list \<Rightarrow> write_kind option \<Rightarrow> string \<Rightarrow> unit rail_act" where
  "tell_all W [] kind hash = give ()"
| "tell_all W (l # ls) kind hash = seq (asks W (TellListener l kind hash) (\<lambda>h. Inr ())) (\<lambda>_. tell_all W ls kind hash)"

text \<open>\<open>waitForTransactionReceipt\<close> of the wrapped client: whether the transaction succeeded.\<close>

definition waitForReceipt :: "outside \<Rightarrow> rail_handle \<Rightarrow> string \<Rightarrow> bool rail_act" where
  "waitForReceipt W H hash r =
     (let kind = rr_write r; limit = receipt_limit H kind
      in seq (tell_all W (rr_listeners r) kind (toLowerCase hash)) (\<lambda>_.
         seq (asks W (AwaitReceipt hash limit) (\<lambda>h. Inr (ou_receipt W h hash limit))) (\<lambda>a.
           case a of
             Receipt ok block \<Rightarrow> seq (change (\<lambda>r'. r'\<lparr>rr_receiptBlock := Some block\<rparr>)) (\<lambda>_. give ok)
           | WaitTimedOut \<Rightarrow>
               (let ms = (case limit of None \<Rightarrow> VIEM_RECEIPT_TIMEOUT_MS | Some t \<Rightarrow> t)
                in seq (change (\<lambda>r'. r'\<lparr>rr_timeout := Some (toLowerCase hash, ms)\<rparr>)) (\<lambda>_.
                     throw (ReceiptTimeout (toLowerCase hash) ms None)))
           | WaitFailed m \<Rightarrow> throw (OutsideError m))) r)"

section \<open>The vendored rail\<close>

definition assetBook :: "evm_config \<Rightarrow> string \<Rightarrow> (rail_error, asset_slot) result" where
  "assetBook cfg asset = (let s = asset_slot cfg asset in if s = NoAsset then Inl (NoTokenFor asset) else Inr s)"

text \<open>The write, its receipt, and the error put in \<open>tclk: \<dots>\<close>.\<close>

definition sent_and_mined :: "outside \<Rightarrow> rail_handle \<Rightarrow> write_kind \<Rightarrow> contract_call rail_act \<Rightarrow> unit rail_act" where
  "sent_and_mined W H kind built =
     catching
       (seq built (\<lambda>w.
        seq (writeContract W w) (\<lambda>hash.
        seq (waitForReceipt W H hash) (\<lambda>ok.
          raise_res (throw_if (\<not> ok) (MinedReverted kind hash))))))
       (\<lambda>e. throw (Rewrapped e))"

definition vendored_lock :: "outside \<Rightarrow> rail_handle \<Rightarrow> lock_terms \<Rightarrow> unit rail_act" where
  "vendored_lock W H t =
     seq (raise_res (throw_if (lt_lock t \<noteq> ''hash'') (VendoredOnlyHash (lt_lock t)))) (\<lambda>_.
     seq (clock W) (\<lambda>now.
     seq (raise_res (throw_if (lt_refundAfterMs t \<le> now) VendoredWindowOpen)) (\<lambda>_.
     seq (raise_res (said (ou_addressBook W (lt_payee t)))) (\<lambda>payee.
     seq (raise_res (assetBook (rh_config H) (lt_asset t))) (\<lambda>token.
       sent_and_mined W H LockWrite
         (seq (bigIntText (lt_amount t)) (\<lambda>amount.
            give (CallLock (lt_statement t) payee amount token (lt_claimByMs t) (lt_refundAfterMs t)))))))))"

text \<open>\<open>verifyLock\<close>: what throws is not a lock.\<close>

definition same_as :: "viem \<Rightarrow> string \<Rightarrow> (string, string) result \<Rightarrow> bool" where
  "same_as V seen a \<longleftrightarrow> (case a of Inl m \<Rightarrow> False | Inr b \<Rightarrow> vi_isAddressEqual V seen b = Inr True)"

definition token_of :: "(rail_error, asset_slot) result \<Rightarrow> (string, string) result" where
  "token_of x = (case x of Inr (OwnAsset a) \<Rightarrow> Inr a | _ \<Rightarrow> Inl [])"

definition vendored_verifyLock :: "viem \<Rightarrow> outside \<Rightarrow> rail_handle \<Rightarrow> lock_terms \<Rightarrow> string \<Rightarrow> bool rail_act" where
  "vendored_verifyLock V W H t ref =
     (if lt_lock t \<noteq> ''hash'' \<or> ref \<noteq> lt_statement t then give False
      else catching
        (seq (locks W ref None) (\<lambda>row.
           give (lk_status row = 1
             \<and> same_as V (lk_payer row) (ou_addressBook W (lt_payer t)) \<and> same_as V (lk_payee row) (ou_addressBook W (lt_payee t))
             \<and> same_as V (lk_token row) (token_of (assetBook (rh_config H) (lt_asset t)))
             \<and> bigint_of (lt_amount t) = Some (lk_amount row)
             \<and> lk_claimByMs row = lt_claimByMs t \<and> lk_refundAfterMs row = lt_refundAfterMs t)))
        (\<lambda>e. give False))"

definition vendored_claim :: "outside \<Rightarrow> rail_handle \<Rightarrow> string \<Rightarrow> string \<Rightarrow> unit rail_act" where
  "vendored_claim W H ref secret = sent_and_mined W H ClaimWrite (give (CallClaim ref secret))"

definition vendored_refund :: "outside \<Rightarrow> rail_handle \<Rightarrow> string \<Rightarrow> unit rail_act" where
  "vendored_refund W H ref = sent_and_mined W H RefundWrite (give (CallRefund ref))"

definition viaVendoredRail :: "unit rail_act \<Rightarrow> write_kind \<Rightarrow> unit rail_act" where
  "viaVendoredRail run_write kind =
     seq (change (\<lambda>r. r\<lparr>rr_timeout := None, rr_receiptBlock := None, rr_refused := None, rr_write := Some kind\<rparr>)) (\<lambda>_.
       lastly
         (catching run_write (\<lambda>e r.
            case rr_refused r of
              Some refusal \<Rightarrow> (Inl (SignerRefused refusal), r)
            | None \<Rightarrow>
                (case rr_timeout r of
                   Some (hash, ms) \<Rightarrow> (Inl (ReceiptTimeout hash ms (Some kind)), r)
                 | None \<Rightarrow> (Inl e, r))))
         (\<lambda>r. r\<lparr>rr_write := None\<rparr>))"

section \<open>The plan of a log scan\<close>

record log_scan_plan =
  ps_ranges :: "(int \<times> int option) list"
  ps_tip :: "int option"
  ps_unread :: "(int \<times> int) option"
  ps_limit :: "int option"

text \<open>The loop: at most \<open>n\<close> more ranges of \<open>w\<close> blocks from \<open>low\<close>, and the first
  block that is left.\<close>

fun cut_ranges :: "nat \<Rightarrow> int \<Rightarrow> int \<Rightarrow> int \<Rightarrow> (int \<times> int option) list \<times> int" where
  "cut_ranges 0 w tip low = ([], low)"
| "cut_ranges (Suc n) w tip low =
     (if low \<le> tip then
        (let high = (if low + w - 1 < tip then low + w - 1 else tip);
             (rest, left) = cut_ranges n w tip (high + 1)
         in ((low, Some high) # rest, left))
      else ([], low))"

definition plan_from :: "int \<Rightarrow> int \<Rightarrow> int \<Rightarrow> log_scan_plan" where
  "plan_from w fromBlock tip =
     (let (ranges, low) = cut_ranges MAX_LOG_SCAN_CHUNKS w tip fromBlock
      in \<lparr>ps_ranges = ranges, ps_tip = Some tip, ps_unread = (if low \<le> tip then Some (low, tip) else None), ps_limit = Some w\<rparr>)"

definition hex_bigint :: "jsval \<Rightarrow> int option" where
  "hex_bigint v = (case v of Str s \<Rightarrow> if HEX_VALUE s then bigint_of s else None | _ \<Rightarrow> None)"

definition planLogScan :: "outside \<Rightarrow> rail_handle \<Rightarrow> int \<Rightarrow> int option \<Rightarrow> log_scan_plan rail_act" where
  "planLogScan W H fromBlock minTip =
     (case effectiveMaxLogRange (rh_config H) of
        None \<Rightarrow> give \<lparr>ps_ranges = [(fromBlock, None)], ps_tip = None, ps_unread = None, ps_limit = None\<rparr>
      | Some w \<Rightarrow>
          seq (node W ''eth_blockNumber'' []) (\<lambda>raw.
          seq (raise_res (or_throw (hex_bigint raw) TipNotHex)) (\<lambda>read.
            give (plan_from w fromBlock (case minTip of Some m \<Rightarrow> if read < m then m else read | None \<Rightarrow> read)))))"

definition logScanBoundError :: "int \<Rightarrow> log_scan_plan \<Rightarrow> rail_error" where
  "logScanBoundError fromBlock plan =
     (case (ps_unread plan, ps_tip plan, ps_limit plan) of
        (Some (lo, hi), Some tip, Some w) \<Rightarrow> ScanBound fromBlock tip lo hi w MAX_LOG_SCAN_CHUNKS
      | _ \<Rightarrow> ScanBoundWithoutPlan)"

section \<open>The evidence of a write\<close>

record evm_write_evidence =
  we_ref :: string
  we_event :: write_event
  we_txHash :: string
  we_blockNumber :: int
  we_blockHash :: string
  we_logIndex :: int
  we_raw :: "string list"

fun read_ranges :: "outside \<Rightarrow> write_event \<Rightarrow> string \<Rightarrow> (int \<times> int option) list \<Rightarrow> evm_log list rail_act" where
  "read_ranges W ev hashLock [] = give []"
| "read_ranges W ev hashLock (rg # rest) =
     seq (getLogs W ev hashLock rg) (\<lambda>logs.
     seq (read_ranges W ev hashLock rest) (\<lambda>more. give (logs @ more)))"

definition readWriteLogs :: "outside \<Rightarrow> write_event \<Rightarrow> string \<Rightarrow> log_scan_plan \<Rightarrow> evm_log list rail_act" where
  "readWriteLogs W ev hashLock plan = read_ranges W ev hashLock (ps_ranges plan)"

text \<open>A plan that must be covered, and its logs. The watch gives the block of the write's receipt.\<close>

definition looked_up :: "outside \<Rightarrow> rail_handle \<Rightarrow> write_event \<Rightarrow> string \<Rightarrow> int \<Rightarrow> (log_scan_plan \<times> evm_log list) rail_act" where
  "looked_up W H ev hashLock fromBlock r =
     seq (planLogScan W H fromBlock (rr_receiptBlock r)) (\<lambda>plan.
     seq (raise_res (throw_if (ps_unread plan \<noteq> None) (logScanBoundError fromBlock plan))) (\<lambda>_.
     seq (readWriteLogs W ev hashLock plan) (\<lambda>logs. give (plan, logs)))) r"

text \<open>The re-plans of a lookup that found nothing.\<close>

fun replanned :: "nat \<Rightarrow> outside \<Rightarrow> rail_handle \<Rightarrow> write_event \<Rightarrow> string \<Rightarrow> int \<Rightarrow> log_scan_plan \<times> evm_log list
    \<Rightarrow> (log_scan_plan \<times> evm_log list) rail_act" where
  "replanned 0 W H ev hashLock fromBlock found = give found"
| "replanned (Suc n) W H ev hashLock fromBlock found =
     (if snd found \<noteq> [] then give found
      else
        seq (if 0 < rh_lookupPauseMs H then asks W (Rest (rh_lookupPauseMs H)) (\<lambda>h. Inr ()) else give ()) (\<lambda>_.
        seq (looked_up W H ev hashLock fromBlock) (\<lambda>again. replanned n W H ev hashLock fromBlock again)))"

definition log_identity :: "evm_log \<Rightarrow> (int \<times> string \<times> string \<times> int) option" where
  "log_identity l =
     (case (el_blockNumber l, el_blockHash l, el_transactionHash l, el_logIndex l) of
        (Some b, Some bh, Some tx, Some i) \<Rightarrow> Some (b, bh, tx, i)
      | _ \<Rightarrow> None)"

definition captureWriteEvidence ::
    "outside \<Rightarrow> rail_handle \<Rightarrow> write_event \<Rightarrow> string \<Rightarrow> int \<Rightarrow> nat \<Rightarrow> evm_write_evidence rail_act" where
  "captureWriteEvidence W H ev hashLock fromBlock before =
     seq (looked_up W H ev hashLock fromBlock) (\<lambda>first.
     seq (replanned EVM_WRITE_LOOKUP_REPLANS W H ev hashLock fromBlock first) (\<lambda>(plan, logs).
     case logs of
       [l] \<Rightarrow>
         (case log_identity l of
            None \<Rightarrow> throw (LogWithoutIdentity ev hashLock)
          | Some (b, bh, tx, i) \<Rightarrow>
              (\<lambda>r. give \<lparr>we_ref = hashLock, we_event = ev, we_txHash = tx, we_blockNumber = b, we_blockHash = bh,
                 we_logIndex = i, we_raw = drop before (rr_log r)\<rparr> r))
     | _ \<Rightarrow> throw (LogsFound ev hashLock fromBlock (ps_tip plan) (length logs))))"

section \<open>Approve, lock, claim, refund\<close>

definition assertPinnedChainId :: "outside \<Rightarrow> rail_handle \<Rightarrow> unit rail_act" where
  "assertPinnedChainId W H =
     (let pin = cf_pin (rh_config H) in
      seq (node W ''eth_chainId'' []) (\<lambda>hex.
      seq (hexToNumber W hex) (\<lambda>n.
        raise_res (throw_if (n \<noteq> int_jsnum (pin_chainId pin)) (ChainIdMoved n (pin_name pin) (pin_chainId pin))))))"

text \<open>The id namespace of one write: what it is for, its subject and the time.\<close>

definition in_namespace :: "outside \<Rightarrow> string \<Rightarrow> string \<Rightarrow> 'a rail_act \<Rightarrow> 'a rail_act" where
  "in_namespace W purpose subject act =
     seq (clock W) (\<lambda>now.
     seq (change (\<lambda>r. r\<lparr>rr_namespace := Some (''write-'' @ purpose @ '':'' @ subject @ '':'' @ show_int now)\<rparr>)) (\<lambda>_.
       lastly act (\<lambda>r. r\<lparr>rr_namespace := None\<rparr>)))"

definition log_length :: "nat rail_act" where
  "log_length r = (Inr (length (rr_log r)), r)"

definition approve :: "outside \<Rightarrow> rail_handle \<Rightarrow> string \<Rightarrow> string \<Rightarrow> (string \<times> string list) rail_act" where
  "approve W H asset amount =
     seq (raise_res (assetBook (rh_config H) asset)) (\<lambda>token.
     seq (assertPinnedChainId W H) (\<lambda>_.
     seq log_length (\<lambda>before.
     seq (in_namespace W ''approve'' asset
            (seq (change (\<lambda>r. r\<lparr>rr_refused := None\<rparr>)) (\<lambda>_.
             catching
               (seq (bigIntText amount) (\<lambda>n. writeContract W (CallApprove token (cf_contract (rh_config H)) n)))
               (\<lambda>e r. case rr_refused r of Some refusal \<Rightarrow> (Inl (SignerRefused refusal), r) | None \<Rightarrow> (Inl e, r))))) (\<lambda>hash.
     seq (change (\<lambda>r. r\<lparr>rr_write := Some ApproveWrite\<rparr>)) (\<lambda>_.
     seq (lastly
            (catching (waitForReceipt W H hash) (\<lambda>e.
               case e of ReceiptTimeout h ms k \<Rightarrow> throw (ReceiptTimeout h ms (Some ApproveWrite)) | _ \<Rightarrow> throw e))
            (\<lambda>r. r\<lparr>rr_write := None\<rparr>)) (\<lambda>ok.
     seq (raise_res (throw_if (\<not> ok) (ApproveReverted hash))) (\<lambda>_ r.
       give (hash, drop before (rr_log r)) r)))))))"

definition lock_write :: "outside \<Rightarrow> rail_handle \<Rightarrow> lock_terms \<Rightarrow> int \<Rightarrow> evm_write_evidence rail_act" where
  "lock_write W H t fee =
     seq (raise_res (throw_if (lt_lock t \<noteq> ''hash'') (OnlyHashLocks (lt_lock t)))) (\<lambda>_.
     seq (raise_res (throw_if (fee \<noteq> 0) FeeDeclared)) (\<lambda>_.
     seq (assertPinnedChainId W H) (\<lambda>_.
     seq log_length (\<lambda>before.
       in_namespace W ''lock'' (lt_statement t)
         (seq (blockNumber W) (\<lambda>fromBlock.
          seq (viaVendoredRail (vendored_lock W H t) LockWrite) (\<lambda>_.
            captureWriteEvidence W H LockedEvent (lt_statement t) fromBlock before)))))))"

definition NOT_OPEN_TEXT :: string where
  "NOT_OPEN_TEXT = ''EvmHashRail: secret does not open the statement''"

definition extractShortMessage :: "rail_error \<Rightarrow> string" where
  "extractShortMessage e = (case e of OutsideError m \<Rightarrow> m | NodeError f \<Rightarrow> failure_message f | _ \<Rightarrow> [])"

text \<open>The simulated claim with a zero preimage has to revert for that reason.\<close>

definition zero_preimage_reverts :: "outside \<Rightarrow> string \<Rightarrow> unit rail_act" where
  "zero_preimage_reverts W hashLock r =
     (case tryClaim W hashLock ZERO_BYTES32 r of
        (Inr _, r') \<Rightarrow> (Inl PreCheckNoRevert, r')
      | (Inl e, r') \<Rightarrow>
          (let m = extractShortMessage e
           in if sublist NOT_OPEN_TEXT m then (Inr (), r') else (Inl (PreCheckNotOpen m), r')))"

definition simulateClaimPreChecksOrThrow :: "outside \<Rightarrow> string \<Rightarrow> unit rail_act" where
  "simulateClaimPreChecksOrThrow W hashLock =
     seq (zero_preimage_reverts W hashLock) (\<lambda>_.
     seq (locks W hashLock None) (\<lambda>row.
       catching (tryTransfer W (lk_token row) (lk_payee row) (lk_amount row))
         (\<lambda>e. throw (PayoutReverts (extractShortMessage e)))))"

text \<open>\<open>hexToNumber(timestamp) * 1000\<close> of the head of a tag.\<close>

definition times_1000 :: "jsnum \<Rightarrow> jsnum" where
  "times_1000 x = (case x of Fin q \<Rightarrow> Fin (js_mul q 1000) | _ \<Rightarrow> x)"

definition blockTimestampMs :: "outside \<Rightarrow> string \<Rightarrow> jsnum rail_act" where
  "blockTimestampMs W tag =
     seq (node W ''eth_getBlockByNumber'' [Str tag, Bool False]) (\<lambda>v.
       if v = Undefined then throw TypeError
       else if v = Null then throw (NoTimestamp tag)
       else (case prop_of v ''timestamp'' of
               Str s \<Rightarrow> seq (hexToNumber W (Str s)) (\<lambda>n. give (times_1000 n))
             | _ \<Rightarrow> throw (NoTimestamp tag)))"

definition pendingBlockTimestampMsOrThrow :: "outside \<Rightarrow> jsnum rail_act" where
  "pendingBlockTimestampMsOrThrow W = blockTimestampMs W ''pending''"

definition latestBlockTimestampMs :: "outside \<Rightarrow> jsnum rail_act" where
  "latestBlockTimestampMs W = blockTimestampMs W ''latest''"

text \<open>\<open>Math.max\<close> with a clock reading, and \<open>\<ge>\<close>, which is false for NaN.\<close>

definition later_of :: "jsnum \<Rightarrow> int \<Rightarrow> jsnum" where
  "later_of x now = (case x of Fin q \<Rightarrow> Fin (max q (of_int now)) | NegInf \<Rightarrow> int_jsnum now | _ \<Rightarrow> x)"

definition reached :: "jsnum \<Rightarrow> int \<Rightarrow> bool" where
  "reached x limit \<longleftrightarrow> (case x of Fin q \<Rightarrow> of_int limit \<le> q | PosInf \<Rightarrow> True | _ \<Rightarrow> False)"

definition assertBeforeNotAfterMsOrThrow :: "outside \<Rightarrow> int \<Rightarrow> unit rail_act" where
  "assertBeforeNotAfterMsOrThrow W notAfterMs =
     seq (pendingBlockTimestampMsOrThrow W) (\<lambda>pendingMs.
     seq (clock W) (\<lambda>now.
       raise_res (throw_if (reached (later_of pendingMs now) notAfterMs) (AtOrPastDeadline (later_of pendingMs now) notAfterMs))))"

definition claim_write :: "outside \<Rightarrow> rail_handle \<Rightarrow> string \<Rightarrow> string \<Rightarrow> int \<Rightarrow> evm_write_evidence rail_act" where
  "claim_write W H hashLock secret notAfterMs =
     seq (assertPinnedChainId W H) (\<lambda>_.
     seq (simulateClaimPreChecksOrThrow W hashLock) (\<lambda>_.
     seq log_length (\<lambda>before.
       in_namespace W ''claim'' hashLock
         (seq (blockNumber W) (\<lambda>fromBlock.
          seq (assertBeforeNotAfterMsOrThrow W notAfterMs) (\<lambda>_.
          seq (viaVendoredRail (vendored_claim W H hashLock secret) ClaimWrite) (\<lambda>_.
            captureWriteEvidence W H ClaimedEvent hashLock fromBlock before)))))))"

definition refund_write :: "outside \<Rightarrow> rail_handle \<Rightarrow> string \<Rightarrow> evm_write_evidence rail_act" where
  "refund_write W H hashLock =
     seq (assertPinnedChainId W H) (\<lambda>_.
     seq log_length (\<lambda>before.
       in_namespace W ''refund'' hashLock
         (seq (blockNumber W) (\<lambda>fromBlock.
          seq (viaVendoredRail (vendored_refund W H hashLock) RefundWrite) (\<lambda>_.
            captureWriteEvidence W H RefundedEvent hashLock fromBlock before)))))"

end
