(* ===== verification/Evm_Reads.thy ===== *)
theory Evm_Reads
  imports Evm_Writes
begin

text \<open>
  The reads of \<open>EvmHtlcRail\<close> (\<open>src/rails/evm-htlc.ts\<close>) a recovering party decides
  by: the row of a lock, the fate of a transaction, the finalized block, whether an attempted lock can
  still land, and the scan for the preimage a claim revealed.
\<close>

section \<open>The row of a lock\<close>

datatype evm_lock_status = LockLocked | LockClaimed | LockRefunded

record evm_lock_record =
  lr_status :: evm_lock_status
  lr_payer :: string
  lr_payee :: string
  lr_token :: string
  lr_amount :: int
  lr_claimByMs :: int
  lr_refundAfterMs :: int

definition lock_status_of :: "int \<Rightarrow> evm_lock_status option" where
  "lock_status_of n =
     (if n = 1 then Some LockLocked else if n = 2 then Some LockClaimed else if n = 3 then Some LockRefunded else None)"

definition lock_record_of :: "locks_row \<Rightarrow> (rail_error, evm_lock_record option) result" where
  "lock_record_of row =
     (if lk_status row = 0 then Inr None
      else case lock_status_of (lk_status row) of
             None \<Rightarrow> Inl (UnknownStatusByte (lk_status row))
           | Some st \<Rightarrow>
               Inr (Some \<lparr>lr_status = st, lr_payer = lk_payer row, lr_payee = lk_payee row, lr_token = lk_token row,
                 lr_amount = lk_amount row, lr_claimByMs = lk_claimByMs row, lr_refundAfterMs = lk_refundAfterMs row\<rparr>))"

definition readLock :: "outside \<Rightarrow> string \<Rightarrow> int option \<Rightarrow> evm_lock_record option rail_act" where
  "readLock W hashLock atBlock = seq (locks W hashLock atBlock) (\<lambda>row. raise_res (lock_record_of row))"

section \<open>The fate of a transaction\<close>

datatype transaction_status = TxPending | TxSuccess | TxReverted | TxUnknown

definition hex_text :: "jsval \<Rightarrow> bool" where
  "hex_text v \<longleftrightarrow> (case v of Str s \<Rightarrow> HEX_VALUE s | _ \<Rightarrow> False)"

definition is_plain_object :: "jsval \<Rightarrow> bool" where
  "is_plain_object v \<longleftrightarrow> (case v of Obj kvs \<Rightarrow> True | _ \<Rightarrow> False)"

definition receipt_status :: "jsval \<Rightarrow> (rail_error, transaction_status) result" where
  "receipt_status v =
     (if v = Null then Inr TxPending
      else if prop_of v ''status'' = Str ''0x1'' then Inr TxSuccess
      else if prop_of v ''status'' = Str ''0x0'' then Inr TxReverted
      else Inl ReceiptWithoutStatus)"

definition transactionStatus :: "outside \<Rightarrow> string \<Rightarrow> transaction_status rail_act" where
  "transactionStatus W txHash =
     seq (node W ''eth_getTransactionByHash'' [Str txHash]) (\<lambda>found.
     if found = Null then give TxUnknown
     else if \<not> is_plain_object found then throw NotATransaction
     else if map_option toLowerCase (text_of (prop_of found ''hash'')) \<noteq> Some (toLowerCase txHash) then throw AnotherTransaction
     else if prop_of found ''blockNumber'' \<in> {Null, Undefined} then give TxPending
     else if \<not> hex_text (prop_of found ''blockNumber'') then throw BlockNumberNotHex
     else seq (node W ''eth_getTransactionReceipt'' [Str txHash]) (\<lambda>receipt. raise_res (receipt_status receipt)))"

section \<open>The finalized block\<close>

record block_head =
  bh_number :: int
  bh_timestampMs :: rat

text \<open>\<open>blockHeadOf\<close>; the timestamp is the double nearest to the milliseconds.\<close>

definition blockHeadOf :: "jsval \<Rightarrow> block_head option" where
  "blockHeadOf v =
     (case (hex_bigint (prop_of v ''number''), hex_bigint (prop_of v ''timestamp'')) of
        (Some n, Some t) \<Rightarrow> Some \<lparr>bh_number = n, bh_timestampMs = fl (of_int (t * 1000))\<rparr>
      | _ \<Rightarrow> None)"

definition numberedBlock :: "outside \<Rightarrow> int \<Rightarrow> block_head option rail_act" where
  "numberedBlock W confirmations =
     seq (node W ''eth_blockNumber'' []) (\<lambda>raw.
       case hex_bigint raw of
         None \<Rightarrow> give None
       | Some tip \<Rightarrow>
           if tip - confirmations < 0 then give None
           else seq (node W ''eth_getBlockByNumber'' [Str (ou_numberToHex W (tip - confirmations)), Bool False]) (\<lambda>v.
                  give (blockHeadOf v)))"

definition fallback_head :: "outside \<Rightarrow> int option \<Rightarrow> block_head option rail_act" where
  "fallback_head W k = (case k of None \<Rightarrow> give None | Some n \<Rightarrow> numberedBlock W n)"

definition finalizedBlock :: "outside \<Rightarrow> rail_handle \<Rightarrow> block_head option rail_act" where
  "finalizedBlock W H =
     (case pin_finality (cf_pin (rh_config H)) of
        ByConfirmations n \<Rightarrow> numberedBlock W n
      | ByTag t k \<Rightarrow>
          seq (catching (seq (node W ''eth_getBlockByNumber'' [Str t, Bool False]) (\<lambda>v. give (blockHeadOf v)))
                 (\<lambda>e. give None)) (\<lambda>tagged.
            case tagged of Some b \<Rightarrow> give (Some b) | None \<Rightarrow> fallback_head W k))"

text \<open>The node said it does not serve the tag.\<close>

definition not_served :: "rail_error \<Rightarrow> bool" where
  "not_served e \<longleftrightarrow>
     (case e of NodeError (RpcCaptureError code m n c d) \<Rightarrow> code \<in> {int_jsnum (- 32601), int_jsnum (- 32602)} | _ \<Rightarrow> False)"

definition finalizedBlockForVerdict :: "outside \<Rightarrow> rail_handle \<Rightarrow> block_head option rail_act" where
  "finalizedBlockForVerdict W H =
     (case pin_finality (cf_pin (rh_config H)) of
        ByConfirmations n \<Rightarrow> numberedBlock W n
      | ByTag t k \<Rightarrow>
          (\<lambda>r. case node W ''eth_getBlockByNumber'' [Str t, Bool False] r of
                 (Inl e, r') \<Rightarrow> if not_served e then fallback_head W k r' else (Inr None, r')
               | (Inr v, r') \<Rightarrow> if v = Null then fallback_head W k r' else (Inr (blockHeadOf v), r')))"

section \<open>Whether an attempted lock can still land\<close>

datatype lock_absence = Landed evm_lock_record | NeverLocked block_head | NotFinal

definition absence_of ::
    "int \<Rightarrow> block_head \<Rightarrow> evm_lock_record option \<Rightarrow> evm_lock_record option \<Rightarrow> lock_absence" where
  "absence_of refundAfterMs finalized latest at_final =
     (case at_final of
        Some row \<Rightarrow> Landed row
      | None \<Rightarrow>
          if bh_timestampMs finalized < of_int refundAfterMs then NotFinal
          else if latest \<noteq> None then NotFinal
          else NeverLocked finalized)"

definition readLockAbsence :: "outside \<Rightarrow> rail_handle \<Rightarrow> string \<Rightarrow> int \<Rightarrow> lock_absence rail_act" where
  "readLockAbsence W H hashLock refundAfterMs =
     seq (finalizedBlockForVerdict W H) (\<lambda>head.
       case head of
         None \<Rightarrow> give NotFinal
       | Some finalized \<Rightarrow>
           seq (readLock W hashLock None) (\<lambda>latest.
           seq (readLock W hashLock (Some (bh_number finalized))) (\<lambda>at_final.
             give (absence_of refundAfterMs finalized latest at_final))))"

section \<open>The preimage a claim revealed\<close>

definition opened_by :: "outside \<Rightarrow> string \<Rightarrow> evm_log list \<Rightarrow> string option" where
  "opened_by W hashLock logs =
     List.find (ou_verifyHashPreimage W hashLock) (List.map_filter el_preimage logs)"

fun scan_claims :: "outside \<Rightarrow> string \<Rightarrow> (int \<times> int option) list \<Rightarrow> string option rail_act" where
  "scan_claims W hashLock [] = give None"
| "scan_claims W hashLock (rg # rest) =
     seq (getLogs W ClaimedEvent hashLock rg) (\<lambda>logs.
       case opened_by W hashLock logs of Some p \<Rightarrow> give (Some p) | None \<Rightarrow> scan_claims W hashLock rest)"

definition findClaimedPreimage :: "outside \<Rightarrow> rail_handle \<Rightarrow> string \<Rightarrow> int \<Rightarrow> string option rail_act" where
  "findClaimedPreimage W H hashLock fromBlock =
     seq (planLogScan W H fromBlock None) (\<lambda>plan.
     seq (scan_claims W hashLock (ps_ranges plan)) (\<lambda>found.
       case found of
         Some p \<Rightarrow> give (Some p)
       | None \<Rightarrow>
           seq (raise_res (throw_if (ps_unread plan \<noteq> None) (logScanBoundError fromBlock plan))) (\<lambda>_. give None)))"

end
