(* ===== verification/Evm_Contract.thy ===== *)
theory Evm_Contract
  imports Evm_Config
begin

text \<open>
  \<open>contracts/EvmHashRail.sol\<close>, the escrow the EVM rail is pinned to, as a function of its
  storage, and a chain as the list of its blocks. A \<open>require\<close> that fails reverts the whole call.
  What a token's transfer answers is an argument; a token that calls back into the escrow is not
  modelled. An address or a hash is its text.
\<close>

section \<open>The escrow\<close>

text \<open>The storage; a row with status 0 is the default. Statuses are None, Locked, Claimed, Refunded.\<close>

type_synonym escrow = "string \<Rightarrow> locks_row"

definition no_row :: locks_row where
  "no_row = \<lparr>lk_payer = [], lk_payee = [], lk_token = [], lk_amount = 0, lk_claimByMs = 0, lk_refundAfterMs = 0, lk_status = 0\<rparr>"

definition ZERO_ADDRESS :: string where
  "ZERO_ADDRESS = ''0x'' @ replicate 40 (CHR ''0'')"

datatype revert =
    LockExists | PayeeZero | AmountZero | DeadlineOrder | WindowOpen | TransferFromFailed
  | UnknownLock | NotLocked | ClaimTooLate | SecretDoesNotOpen | TransferFailed
  | OnlyPayer | RefundTooEarly | Overflow

text \<open>\<open>block.timestamp * 1000\<close> in checked 256-bit arithmetic.\<close>

definition now_ms :: "int \<Rightarrow> (revert, int) result" where
  "now_ms timestamp = (if timestamp * 1000 < 2 ^ 256 then Inr (timestamp * 1000) else Inl Overflow)"

definition escrow_lock ::
    "int \<Rightarrow> string \<Rightarrow> string \<Rightarrow> string \<Rightarrow> int \<Rightarrow> string \<Rightarrow> int \<Rightarrow> int \<Rightarrow> bool \<Rightarrow> escrow \<Rightarrow> (revert, escrow) result" where
  "escrow_lock timestamp sender hashLock payee amount token claimByMs refundAfterMs transferred st =
     bind_res (throw_if (lk_status (st hashLock) \<noteq> 0) LockExists) (\<lambda>_.
     bind_res (throw_if (payee = ZERO_ADDRESS) PayeeZero) (\<lambda>_.
     bind_res (throw_if (amount \<le> 0) AmountZero) (\<lambda>_.
     bind_res (throw_if (refundAfterMs \<le> claimByMs) DeadlineOrder) (\<lambda>_.
     bind_res (now_ms timestamp) (\<lambda>now.
     bind_res (throw_if (refundAfterMs \<le> now) WindowOpen) (\<lambda>_.
     bind_res (throw_if (\<not> transferred) TransferFromFailed) (\<lambda>_.
       Inr (st(hashLock := \<lparr>lk_payer = sender, lk_payee = payee, lk_token = token, lk_amount = amount,
              lk_claimByMs = claimByMs, lk_refundAfterMs = refundAfterMs, lk_status = 1\<rparr>)))))))))"

definition escrow_claim ::
    "(string \<Rightarrow> string) \<Rightarrow> int \<Rightarrow> string \<Rightarrow> string \<Rightarrow> bool \<Rightarrow> escrow \<Rightarrow> (revert, escrow) result" where
  "escrow_claim sha256 timestamp hashLock preimage transferred st =
     (let held = st hashLock in
      bind_res (throw_if (lk_status held = 0) UnknownLock) (\<lambda>_.
      bind_res (throw_if (lk_status held \<noteq> 1) NotLocked) (\<lambda>_.
      bind_res (now_ms timestamp) (\<lambda>now.
      bind_res (throw_if (lk_refundAfterMs held \<le> now) ClaimTooLate) (\<lambda>_.
      bind_res (throw_if (sha256 preimage \<noteq> hashLock) SecretDoesNotOpen) (\<lambda>_.
      bind_res (throw_if (\<not> transferred) TransferFailed) (\<lambda>_.
        Inr (st(hashLock := held\<lparr>lk_status := 2\<rparr>)))))))))"

definition escrow_refund :: "int \<Rightarrow> string \<Rightarrow> string \<Rightarrow> bool \<Rightarrow> escrow \<Rightarrow> (revert, escrow) result" where
  "escrow_refund timestamp sender hashLock transferred st =
     (let held = st hashLock in
      bind_res (throw_if (lk_status held = 0) UnknownLock) (\<lambda>_.
      bind_res (throw_if (lk_status held \<noteq> 1) NotLocked) (\<lambda>_.
      bind_res (throw_if (sender \<noteq> lk_payer held) OnlyPayer) (\<lambda>_.
      bind_res (now_ms timestamp) (\<lambda>now.
      bind_res (throw_if (now < lk_refundAfterMs held) RefundTooEarly) (\<lambda>_.
      bind_res (throw_if (\<not> transferred) TransferFailed) (\<lambda>_.
        Inr (st(hashLock := held\<lparr>lk_status := 3\<rparr>)))))))))"

section \<open>Blocks\<close>

text \<open>A call of the escrow, with its sender where the escrow reads it and what the token answers.\<close>

datatype escrow_call =
    LockBy string string string int string int int bool
  | ClaimWith string string bool
  | RefundBy string string bool

fun perform :: "(string \<Rightarrow> string) \<Rightarrow> int \<Rightarrow> escrow_call \<Rightarrow> escrow \<Rightarrow> (revert, escrow) result" where
  "perform sha256 t (LockBy sender h payee amount token c r ok) st = escrow_lock t sender h payee amount token c r ok st"
| "perform sha256 t (ClaimWith h preimage ok) st = escrow_claim sha256 t h preimage ok st"
| "perform sha256 t (RefundBy sender h ok) st = escrow_refund t sender h ok st"

record chain_block =
  cb_timestamp :: int
  cb_calls :: "escrow_call list"

definition after_call :: "(string \<Rightarrow> string) \<Rightarrow> int \<Rightarrow> escrow_call \<Rightarrow> escrow \<Rightarrow> escrow" where
  "after_call sha256 t c st = (case perform sha256 t c st of Inl e \<Rightarrow> st | Inr st' \<Rightarrow> st')"

definition after_block :: "(string \<Rightarrow> string) \<Rightarrow> chain_block \<Rightarrow> escrow \<Rightarrow> escrow" where
  "after_block sha256 b st = fold (after_call sha256 (cb_timestamp b)) (cb_calls b) st"

text \<open>The storage after the block with a given number, and the \<open>Claimed\<close> events of a block.\<close>

definition escrow_at :: "(string \<Rightarrow> string) \<Rightarrow> chain_block list \<Rightarrow> nat \<Rightarrow> escrow" where
  "escrow_at sha256 bs n = fold (after_block sha256) (take (Suc n) bs) (\<lambda>h. no_row)"

fun claims_of :: "(string \<Rightarrow> string) \<Rightarrow> int \<Rightarrow> escrow_call list \<Rightarrow> escrow \<Rightarrow> (string \<times> string) list" where
  "claims_of sha256 t [] st = []"
| "claims_of sha256 t (c # cs) st =
     (case (c, perform sha256 t c st) of (ClaimWith h p ok, Inr _) \<Rightarrow> [(h, p)] | _ \<Rightarrow> [])
     @ claims_of sha256 t cs (after_call sha256 t c st)"

definition claims_in :: "(string \<Rightarrow> string) \<Rightarrow> chain_block list \<Rightarrow> nat \<Rightarrow> (string \<times> string) list" where
  "claims_in sha256 bs n =
     (if n < length bs then
        claims_of sha256 (cb_timestamp (bs ! n)) (cb_calls (bs ! n)) (fold (after_block sha256) (take n bs) (\<lambda>h. no_row))
      else [])"

text \<open>The rule of the chain: every block is later than the one before it.\<close>

definition chain_ok :: "chain_block list \<Rightarrow> bool" where
  "chain_ok bs \<longleftrightarrow> (\<forall>i j. i < j \<and> j < length bs \<longrightarrow> cb_timestamp (bs ! i) < cb_timestamp (bs ! j))"

section \<open>What the escrow keeps\<close>

text \<open>A row never goes away, its terms never change, and it leaves Locked once.\<close>

definition row_follows :: "locks_row \<Rightarrow> locks_row \<Rightarrow> bool" where
  "row_follows a b \<longleftrightarrow>
     a = b \<or> lk_status a = 0 \<and> lk_status b \<noteq> 0
     \<or> lk_status a = 1 \<and> (b = a\<lparr>lk_status := 2\<rparr> \<or> b = a\<lparr>lk_status := 3\<rparr>)"

lemma row_follows_trans [trans]: "row_follows a b \<Longrightarrow> row_follows b c \<Longrightarrow> row_follows a c"
  by (auto simp: row_follows_def)

lemma row_follows_kept:
  assumes "row_follows a b" "lk_status a \<noteq> 0"
  shows "lk_status b \<noteq> 0" "lk_status b = lk_status a \<or> lk_status a = 1 \<and> lk_status b \<in> {2, 3}"
    "b\<lparr>lk_status := s\<rparr> = a\<lparr>lk_status := s\<rparr>"
  using assms by (auto simp: row_follows_def)

lemma escrow_lock_Inr:
  assumes "escrow_lock t s h p a k c r ok st = Inr st'"
  shows "lk_status (st h) = 0 \<and> t * 1000 < r
    \<and> st' = st(h := \<lparr>lk_payer = s, lk_payee = p, lk_token = k, lk_amount = a, lk_claimByMs = c, lk_refundAfterMs = r, lk_status = 1\<rparr>)"
  using assms by (auto simp: escrow_lock_def now_ms_def result_simps split: if_splits)

lemma escrow_claim_Inr:
  assumes "escrow_claim sha t h p ok st = Inr st'"
  shows "lk_status (st h) = 1 \<and> sha p = h \<and> st' = st(h := (st h)\<lparr>lk_status := 2\<rparr>)"
  using assms by (auto simp: escrow_claim_def now_ms_def result_simps Let_def split: if_splits)

lemma escrow_refund_Inr:
  assumes "escrow_refund t s h ok st = Inr st'"
  shows "lk_status (st h) = 1 \<and> st' = st(h := (st h)\<lparr>lk_status := 3\<rparr>)"
  using assms by (auto simp: escrow_refund_def now_ms_def result_simps Let_def split: if_splits)

lemmas escrow_Inr = escrow_lock_Inr escrow_claim_Inr escrow_refund_Inr

lemma after_call_follows: "row_follows (st h) (after_call sha t c st h)"
proof (cases "perform sha t c st")
  case (Inl e)
  then show ?thesis by (simp add: after_call_def row_follows_def)
next
  case (Inr st')
  then show ?thesis by (cases c) (auto simp: after_call_def row_follows_def dest!: escrow_Inr split: if_splits)
qed

text \<open>A row that appears was locked by that call, before its refund time.\<close>

lemma after_call_new:
  assumes "lk_status (st h) = 0" "lk_status (after_call sha t c st h) \<noteq> 0"
  shows "t * 1000 < lk_refundAfterMs (after_call sha t c st h)"
proof (cases "perform sha t c st")
  case (Inl e)
  with assms show ?thesis by (simp add: after_call_def)
next
  case (Inr st')
  with assms show ?thesis by (cases c) (auto simp: after_call_def dest!: escrow_Inr split: if_splits)
qed

lemma calls_follow: "row_follows (st h) (fold (after_call sha t) cs st h)"
proof (induction cs arbitrary: st)
  case Nil
  show ?case by (simp add: row_follows_def)
next
  case (Cons c cs)
  show ?case using row_follows_trans [OF after_call_follows Cons.IH] by simp
qed

lemma calls_new:
  assumes "lk_status (st h) = 0" "lk_status (fold (after_call sha t) cs st h) \<noteq> 0"
  shows "t * 1000 < lk_refundAfterMs (fold (after_call sha t) cs st h)"
  using assms
proof (induction cs arbitrary: st)
  case (Cons c cs)
  show ?case
  proof (cases "lk_status (after_call sha t c st h) = 0")
    case True
    then show ?thesis using Cons.IH Cons.prems by simp
  next
    case False
    note k = row_follows_kept(3) [OF calls_follow [of "after_call sha t c st" h sha t cs] False, of 0]
    have "lk_refundAfterMs (fold (after_call sha t) cs (after_call sha t c st) h) = lk_refundAfterMs (after_call sha t c st h)"
      using arg_cong [OF k, of lk_refundAfterMs] by simp
    then show ?thesis using after_call_new [OF Cons.prems(1) False] by simp
  qed
qed simp

definition escrow_before :: "(string \<Rightarrow> string) \<Rightarrow> chain_block list \<Rightarrow> nat \<Rightarrow> escrow" where
  "escrow_before sha256 bs n = fold (after_block sha256) (take n bs) (\<lambda>h. no_row)"

lemma escrow_at_before: "escrow_at sha bs n = escrow_before sha bs (Suc n)"
  by (simp add: escrow_at_def escrow_before_def)

lemma escrow_before_Suc:
  "n < length bs \<Longrightarrow> escrow_before sha bs (Suc n) = after_block sha (bs ! n) (escrow_before sha bs n)"
  "length bs \<le> n \<Longrightarrow> escrow_before sha bs (Suc n) = escrow_before sha bs n"
  by (simp_all add: escrow_before_def take_Suc_conv_app_nth)

lemma before_follows:
  assumes "m \<le> n"
  shows "row_follows (escrow_before sha bs m h) (escrow_before sha bs n h)"
  using assms
proof (induction n rule: dec_induct)
  case base
  show ?case by (simp add: row_follows_def)
next
  case (step n)
  have "row_follows (escrow_before sha bs n h) (escrow_before sha bs (Suc n) h)"
    by (cases "n < length bs")
      (auto simp: escrow_before_Suc after_block_def calls_follow, simp add: row_follows_def)
  with step.IH show ?case by (rule row_follows_trans)
qed

text \<open>A row that is missing at one block and there later was locked in between, before its refund time.\<close>

lemma before_new:
  assumes "m \<le> n" "lk_status (escrow_before sha bs m h) = 0" "lk_status (escrow_before sha bs n h) \<noteq> 0"
  shows "\<exists>k. m \<le> k \<and> k < n \<and> k < length bs \<and> cb_timestamp (bs ! k) * 1000 < lk_refundAfterMs (escrow_before sha bs n h)"
  using assms
proof (induction n rule: dec_induct)
  case (step n)
  show ?case
  proof (cases "lk_status (escrow_before sha bs n h) = 0")
    case True
    then have n: "n < length bs" using step.prems(2) by (metis escrow_before_Suc(2) not_less)
    have "cb_timestamp (bs ! n) * 1000 < lk_refundAfterMs (escrow_before sha bs (Suc n) h)"
      using calls_new [of "escrow_before sha bs n" h] True step.prems(2) by (simp add: escrow_before_Suc(1) [OF n] after_block_def)
    with n step.hyps show ?thesis by auto
  next
    case False
    have "lk_refundAfterMs (escrow_before sha bs (Suc n) h) = lk_refundAfterMs (escrow_before sha bs n h)"
      using arg_cong [OF row_follows_kept(3) [OF before_follows [OF le_SucI [OF order_refl]] False, of 0], of lk_refundAfterMs] by simp
    with step.IH [OF step.prems(1) False] show ?thesis by (metis less_SucI)
  qed
qed simp

text \<open>Blocks that two chains share leave the same storage.\<close>

lemma escrow_before_shared: "take n bs = take n cs \<Longrightarrow> escrow_before sha bs n = escrow_before sha cs n"
  by (simp add: escrow_before_def)

text \<open>What is claimed opens its lock.\<close>

lemma claims_of_open: "(h, p) \<in> set (claims_of sha t cs st) \<Longrightarrow> sha p = h"
  by (induction sha t cs st rule: claims_of.induct)
    (auto split: escrow_call.splits sum.splits dest: escrow_claim_Inr [OF sym])

lemma claims_in_open: "(h, p) \<in> set (claims_in sha bs n) \<Longrightarrow> sha p = h"
  by (auto simp: claims_in_def dest!: claims_of_open split: if_splits)

end
