(* ===== verification/Evm_Write_Order.thy ===== *)
theory Evm_Write_Order
  imports Evm_Writes
begin

text \<open>
  The order of what the writes of the EVM rail do. \<open>calls_only\<close> and \<open>calls_first\<close> are
  rules on the calls a method adds to the history, proved once per combinator; the property is about
  \<open>claim_write\<close>: what happened before the secret left the process.
\<close>

section \<open>Rules for methods\<close>

named_theorems calls_intro \<open>what a rail_act adds to the history\<close>

definition adds :: "(history \<Rightarrow> bool) \<Rightarrow> 'a rail_act \<Rightarrow> bool" where
  "adds Q m \<longleftrightarrow> (\<forall>r. \<exists>cs. rr_calls (snd (m r)) = rr_calls r @ cs \<and> Q cs)"

abbreviation calls_only :: "(evm_call \<Rightarrow> bool) \<Rightarrow> 'a rail_act \<Rightarrow> bool" where
  "calls_only P m \<equiv> adds (list_all P) m"

definition calls_first :: "evm_call \<Rightarrow> (evm_call \<Rightarrow> bool) \<Rightarrow> 'a rail_act \<Rightarrow> bool" where
  "calls_first c P m \<longleftrightarrow> adds (\<lambda>cs. \<exists>tail. cs = c # tail \<and> list_all P tail) m"

definition same_calls :: "(rail_run \<Rightarrow> rail_run) \<Rightarrow> bool" where
  "same_calls f \<longleftrightarrow> (\<forall>r. rr_calls (f r) = rr_calls r)"

lemma adds_mono: "adds Q m \<Longrightarrow> (\<And>cs. Q cs \<Longrightarrow> R cs) \<Longrightarrow> adds R m"
  unfolding adds_def by blast

lemma adds_seq:
  assumes "adds Q m" "\<And>a. adds R (f a)" "\<And>cs ds. Q cs \<Longrightarrow> R ds \<Longrightarrow> S (cs @ ds)" "\<And>cs. Q cs \<Longrightarrow> S cs"
  shows "adds S (seq m f)"
  unfolding adds_def
proof
  fix r
  obtain cs where m: "rr_calls (snd (m r)) = rr_calls r @ cs" "Q cs" using assms(1) by (auto simp: adds_def)
  show "\<exists>ds. rr_calls (snd (seq m f r)) = rr_calls r @ ds \<and> S ds"
  proof (cases "m r")
    case (Pair x q)
    show ?thesis
    proof (cases x)
      case (Inl e)
      with m Pair assms(4) show ?thesis by (auto simp: seq_def)
    next
      case (Inr a)
      obtain ds where "rr_calls (snd (f a q)) = rr_calls q @ ds" "R ds" using assms(2) [of a] by (auto simp: adds_def)
      with m Pair Inr assms(3) [of cs ds] show ?thesis by (auto simp: seq_def)
    qed
  qed
qed

lemma only_seq [calls_intro]:
  "calls_only P m \<Longrightarrow> (\<And>a. calls_only P (f a)) \<Longrightarrow> calls_only P (seq m f)"
  by (rule adds_seq [where Q = "list_all P" and R = "list_all P"]) auto

lemma first_seq: "calls_first c P m \<Longrightarrow> (\<And>a. calls_only P (f a)) \<Longrightarrow> calls_first c P (seq m f)"
  unfolding calls_first_def by (erule adds_seq [where R = "list_all P"]) auto

lemma catching_seq: "rr_calls (snd (catching m h r)) =
    (case m r of (Inl e, q) \<Rightarrow> rr_calls (snd (h e q)) | (Inr a, q) \<Rightarrow> rr_calls q)"
  by (auto simp: catching_def split: prod.splits sum.splits)

lemma adds_catching:
  assumes "adds Q m" "\<And>e. adds R (h e)" "\<And>cs ds. Q cs \<Longrightarrow> R ds \<Longrightarrow> Q (cs @ ds)"
  shows "adds Q (catching m h)"
  unfolding adds_def
proof
  fix r
  obtain cs where m: "rr_calls (snd (m r)) = rr_calls r @ cs" "Q cs" using assms(1) by (auto simp: adds_def)
  show "\<exists>ds. rr_calls (snd (catching m h r)) = rr_calls r @ ds \<and> Q ds"
  proof (cases "m r")
    case (Pair x q)
    show ?thesis
    proof (cases x)
      case (Inl e)
      obtain ds where "rr_calls (snd (h e q)) = rr_calls q @ ds" "R ds" using assms(2) [of e] by (auto simp: adds_def)
      with m Pair Inl assms(3) [of cs ds] show ?thesis by (auto simp: catching_seq)
    next
      case (Inr a)
      with m Pair show ?thesis by (auto simp: catching_seq)
    qed
  qed
qed

lemma only_catching [calls_intro]:
  "calls_only P m \<Longrightarrow> (\<And>e. calls_only P (h e)) \<Longrightarrow> calls_only P (catching m h)"
  by (rule adds_catching [where R = "list_all P"]) auto

lemma first_catching:
  "calls_first c P m \<Longrightarrow> (\<And>e. calls_only P (h e)) \<Longrightarrow> calls_first c P (catching m h)"
  unfolding calls_first_def by (erule adds_catching [where R = "list_all P"]) auto

lemma adds_lastly: "adds Q m \<Longrightarrow> same_calls g \<Longrightarrow> adds Q (lastly m g)"
  by (simp add: adds_def same_calls_def lastly_def split: prod.splits) (metis snd_conv)

lemma only_lastly [calls_intro]: "calls_only P m \<Longrightarrow> same_calls g \<Longrightarrow> calls_only P (lastly m g)"
  by (rule adds_lastly)

lemma quiet_change [calls_intro]:
  "same_calls (\<lambda>r. r\<lparr>rr_log := a r\<rparr>)" "same_calls (\<lambda>r. r\<lparr>rr_namespace := b r\<rparr>)" "same_calls (\<lambda>r. r\<lparr>rr_write := c r\<rparr>)"
  "same_calls (\<lambda>r. r\<lparr>rr_refused := d r\<rparr>)" "same_calls (\<lambda>r. r\<lparr>rr_receiptBlock := e r\<rparr>)" "same_calls (\<lambda>r. r\<lparr>rr_timeout := f r\<rparr>)"
  "same_calls (\<lambda>r. r\<lparr>rr_timeout := g r, rr_receiptBlock := i r, rr_refused := j r, rr_write := k r\<rparr>)"
  by (simp_all add: same_calls_def)

lemma only_change [calls_intro]: "same_calls f \<Longrightarrow> calls_only P (change f)"
  by (simp add: adds_def change_def same_calls_def)

lemma only_plain [calls_intro]:
  "calls_only P (give a)" "calls_only P (throw e)" "calls_only P (raise_res x)" "calls_only P log_length"
  by (simp_all add: adds_def give_def throw_def raise_res_def log_length_def)

lemma only_asks [calls_intro]: "P c \<Longrightarrow> calls_only P (asks W c f)"
  by (simp add: adds_def asks_def Let_def)

lemma first_asks: "calls_first c P (asks W c f)"
  by (simp add: calls_first_def adds_def asks_def Let_def)

lemma first_change: "same_calls g \<Longrightarrow> calls_first c P m \<Longrightarrow> calls_first c P (seq (change g) (\<lambda>_. m))"
  by (auto simp: calls_first_def adds_def seq_def change_def same_calls_def) metis

lemma first_lastly: "calls_first c P m \<Longrightarrow> same_calls g \<Longrightarrow> calls_first c P (lastly m g)"
  unfolding calls_first_def by (rule adds_lastly)

lemma first_give: "calls_first c P (f a) \<Longrightarrow> calls_first c P (seq (give a) f)"
  by (simp add: calls_first_def adds_def seq_def give_def)

section \<open>Calls that hold the secret\<close>

definition reveals :: "evm_call \<Rightarrow> bool" where
  "reveals c \<longleftrightarrow>
     (case c of SendWrite (CallClaim ref secret) \<Rightarrow> True | TryClaim ref preimage \<Rightarrow> preimage \<noteq> ZERO_BYTES32 | _ \<Rightarrow> False)"

abbreviation hides :: "evm_call \<Rightarrow> bool" where
  "hides c \<equiv> \<not> reveals c"

lemma only_calls [calls_intro]:
  "calls_only hides (node W m ps)" "calls_only hides (clock W)" "calls_only hides (blockNumber W)"
  "calls_only hides (locks W hl b)" "calls_only hides (tryClaim W hl ZERO_BYTES32)" "calls_only hides (tryTransfer W k a n)"
  "calls_only hides (getLogs W ev hl rg)" "calls_only hides (hexToNumber W v)"
  by (auto simp: node_def clock_def blockNumber_def locks_def tryClaim_def tryTransfer_def getLogs_def hexToNumber_def
      reveals_def intro!: calls_intro)

lemma only_tell_all [calls_intro]: "calls_only hides (tell_all W ls kind hash)"
  by (induction ls) (auto simp: reveals_def intro!: calls_intro)

lemma receipt_split:
  assumes "\<And>ok b. calls_only P (f ok b)" "calls_only P g" "\<And>m. calls_only P (h m)"
  shows "calls_only P (case a of Receipt ok b \<Rightarrow> f ok b | WaitTimedOut \<Rightarrow> g | WaitFailed m \<Rightarrow> h m)"
  using assms by (cases a) auto

lemma only_wait [calls_intro]: "calls_only hides (waitForReceipt W H hash)"
proof -
  have "calls_only hides (\<lambda>r. (seq (tell_all W ls kind h) (\<lambda>_.
      seq (asks W (AwaitReceipt hash limit) (\<lambda>h. Inr (ou_receipt W h hash limit))) (\<lambda>a.
           case a of
             Receipt ok block \<Rightarrow> seq (change (\<lambda>r'. r'\<lparr>rr_receiptBlock := Some block\<rparr>)) (\<lambda>_. give ok)
           | WaitTimedOut \<Rightarrow>
               (let ms = (case limit of None \<Rightarrow> VIEM_RECEIPT_TIMEOUT_MS | Some t \<Rightarrow> t)
                in seq (change (\<lambda>r'. r'\<lparr>rr_timeout := Some (h, ms)\<rparr>)) (\<lambda>_. throw (ReceiptTimeout h ms None)))
           | WaitFailed m \<Rightarrow> throw (OutsideError m)))) r)" for ls kind h limit
    unfolding Let_def by (intro calls_intro receipt_split) (simp_all add: reveals_def)
  then show ?thesis unfolding waitForReceipt_def Let_def adds_def by blast
qed

lemma only_scan [calls_intro]:
  "calls_only hides (planLogScan W H from_block minTip)"
  "calls_only hides (read_ranges W ev hl ranges)"
proof -
  show "calls_only hides (planLogScan W H from_block minTip)"
    unfolding planLogScan_def by (cases "effectiveMaxLogRange (rh_config H)") (simp_all, (intro calls_intro)+)
  show "calls_only hides (read_ranges W ev hl ranges)"
    by (induction ranges) (simp_all, (intro calls_intro | assumption)+)
qed

lemma only_looked_up [calls_intro]: "calls_only hides (looked_up W H ev hl from_block)"
proof -
  have "calls_only hides (\<lambda>r. seq (planLogScan W H from_block m) (\<lambda>plan.
     seq (raise_res (throw_if (ps_unread plan \<noteq> None) (logScanBoundError from_block plan))) (\<lambda>_.
     seq (readWriteLogs W ev hl plan) (\<lambda>logs. give (plan, logs)))) r)" for m
    unfolding readWriteLogs_def by (intro calls_intro)
  then show ?thesis unfolding looked_up_def adds_def by blast
qed

lemma only_replanned [calls_intro]: "calls_only hides (replanned n W H ev hl from_block found)"
proof (induction n arbitrary: found)
  case (Suc n)
  have "calls_only hides (if b then asks W (Rest k) (\<lambda>h. Inr ()) else give ())" for b k
    by (cases b) (auto intro: only_asks only_plain simp: reveals_def)
  then have "calls_only hides (seq (if b then asks W (Rest k) (\<lambda>h. Inr ()) else give ()) (\<lambda>_.
      seq (looked_up W H ev hl from_block) (replanned n W H ev hl from_block)))" for b k
    by (intro only_seq only_looked_up Suc.IH)
  then show ?case unfolding replanned.simps by (cases "snd found = []") (simp_all add: only_plain)
qed (simp add: only_plain)

lemma only_capture [calls_intro]: "calls_only hides (captureWriteEvidence W H ev hl from_block before)"
proof -
  have "calls_only hides (\<lambda>r. give (k r) r)" for k :: "rail_run \<Rightarrow> evm_write_evidence" by (simp add: adds_def give_def)
  then show ?thesis
    unfolding captureWriteEvidence_def
    by (intro calls_intro) (auto split: list.splits option.splits intro: only_plain)
qed

section \<open>Before the claim is sent\<close>

text \<open>The part of \<open>claim_write\<close> that runs before the send, which is not given the secret.\<close>

definition claim_guards :: "outside \<Rightarrow> rail_handle \<Rightarrow> string \<Rightarrow> int \<Rightarrow> (nat \<times> int) rail_act" where
  "claim_guards W H hashLock notAfterMs =
     seq (assertPinnedChainId W H) (\<lambda>_.
     seq (simulateClaimPreChecksOrThrow W hashLock) (\<lambda>_.
     seq log_length (\<lambda>before.
     seq (clock W) (\<lambda>now.
     seq (change (\<lambda>r. r\<lparr>rr_namespace := Some (''write-'' @ ''claim'' @ '':'' @ hashLock @ '':'' @ show_int now)\<rparr>)) (\<lambda>_.
       catching
         (seq (blockNumber W) (\<lambda>fromBlock.
          seq (assertBeforeNotAfterMsOrThrow W notAfterMs) (\<lambda>_. give (before, fromBlock))))
         (\<lambda>e. seq (change (\<lambda>r. r\<lparr>rr_namespace := None\<rparr>)) (\<lambda>_. throw e)))))))"

definition claim_send :: "outside \<Rightarrow> rail_handle \<Rightarrow> string \<Rightarrow> string \<Rightarrow> nat \<times> int \<Rightarrow> evm_write_evidence rail_act" where
  "claim_send W H hashLock secret g =
     lastly
       (seq (viaVendoredRail (vendored_claim W H hashLock secret) ClaimWrite) (\<lambda>_.
          captureWriteEvidence W H ClaimedEvent hashLock (snd g) (fst g)))
       (\<lambda>r. r\<lparr>rr_namespace := None\<rparr>)"

lemma seq_assoc: "seq (seq m f) g = seq m (\<lambda>a. seq (f a) g)"
  by (rule ext) (auto simp: seq_def split: prod.splits sum.splits)

lemma seq_give [simp]: "seq (give a) f = f a"
  by (rule ext) (simp add: seq_def give_def)

text \<open>A \<open>finally\<close> around three parts, cut before the last.\<close>

lemma lastly_cut:
  assumes "\<And>a. k' (b, a) = k a"
  shows "lastly (seq m (\<lambda>a. seq n (\<lambda>_. k a))) g
    = seq (catching (seq m (\<lambda>a. seq n (\<lambda>_. give (b, a)))) (\<lambda>e. seq (change g) (\<lambda>_. throw e))) (\<lambda>x. lastly (k' x) g)"
  by (rule ext) (auto simp: assms lastly_def seq_def catching_def change_def throw_def give_def split: prod.splits sum.splits)

lemma claim_write_split: "claim_write W H hl secret limit = seq (claim_guards W H hl limit) (claim_send W H hl secret)"
  unfolding claim_write_def claim_guards_def claim_send_def in_namespace_def seq_assoc
  by (rule arg_cong2 [where f = seq, OF refl], rule ext)+ (rule lastly_cut, simp)

section \<open>What the guards established\<close>

text \<open>
  \<open>cleared W H hl limit h0 h\<close>: the calls from \<open>h0\<close> to \<open>h\<close> are the reads of a
  claim, in this order, and their answers let it through: the pinned chain; a lock that is open and in
  its window (the zero preimage was refused for being wrong, and for nothing else); a payout that would
  go through; the pending block and the clock before the limit, read last.
\<close>

definition cleared :: "outside \<Rightarrow> rail_handle \<Rightarrow> string \<Rightarrow> int \<Rightarrow> history \<Rightarrow> history \<Rightarrow> bool" where
  "cleared W H hl limit h0 h \<longleftrightarrow>
     (\<exists>row live m v stamp ms h1 h2 h3 h4 h5 h6 h7.
        h1 = h0 @ [AskNode ''eth_chainId'' (Arr [])] \<and> ou_node W h0 ''eth_chainId'' (Arr []) = Inr live
          \<and> ou_hexToNumber W live = Some (int_jsnum (pin_chainId (cf_pin (rh_config H))))
      \<and> h2 = h1 @ [TryClaim hl ZERO_BYTES32] \<and> ou_tryClaim W h1 hl ZERO_BYTES32 = Inl m \<and> sublist NOT_OPEN_TEXT m
      \<and> h3 = h2 @ [ReadLocks hl None] \<and> ou_locks W h2 hl None = Inr row
      \<and> h4 = h3 @ [TryTransfer (lk_token row) (lk_payee row) (lk_amount row)]
          \<and> ou_tryTransfer W h3 (lk_token row) (lk_payee row) (lk_amount row) = Inr ()
      \<and> h5 = h4 @ [ReadClock] \<and> h6 = h5 @ [AskBlockNumber]
      \<and> h7 = h6 @ [AskNode ''eth_getBlockByNumber'' (Arr [Str ''pending'', Bool False])]
          \<and> ou_node W h6 ''eth_getBlockByNumber'' (Arr [Str ''pending'', Bool False]) = Inr v
          \<and> prop_of v ''timestamp'' = Str stamp \<and> ou_hexToNumber W (Str stamp) = Some ms
      \<and> h = h7 @ [ReadClock] \<and> \<not> reached (later_of (times_1000 ms) (ou_clock W h7)) limit)"

lemma seq_Inr: "seq m f r = (Inr b, q) \<longleftrightarrow> (\<exists>a p. m r = (Inr a, p) \<and> f a p = (Inr b, q))"
  by (auto simp: seq_def split: prod.splits sum.splits)

lemma catching_throws_Inr: "catching m (\<lambda>e. seq (change g) (\<lambda>_. throw e)) r = (Inr a, q) \<longleftrightarrow> m r = (Inr a, q)"
  by (auto simp: catching_def seq_def change_def throw_def split: prod.splits sum.splits)

lemma asks_Inr: "asks W c f r = (Inr a, q) \<longleftrightarrow>
    f (rr_calls r) = Inr a \<and> q = r\<lparr>rr_calls := rr_calls r @ [c], rr_log := rr_log r @ ou_digests W (rr_calls r @ [c])\<rparr>"
  by (auto simp: asks_def Let_def)

lemma plain_Inr:
  "give x r = (Inr a, q) \<longleftrightarrow> a = x \<and> q = r"
  "raise_res y r = (Inr a, q) \<longleftrightarrow> y = Inr a \<and> q = r"
  "change g r = (Inr u, q) \<longleftrightarrow> q = g r"
  "log_length r = (Inr n, q) \<longleftrightarrow> n = length (rr_log r) \<and> q = r"
  by (auto simp: give_def raise_res_def change_def log_length_def)

lemma said_Inr: "said x = Inr a \<longleftrightarrow> x = Inr a" "node_said y = Inr b \<longleftrightarrow> y = Inr b"
  by (cases x; auto simp: said_def) (cases y; auto simp: node_said_def)

lemma call_Inr:
  "clock W r = (Inr now, q) \<Longrightarrow> now = ou_clock W (rr_calls r) \<and> rr_calls q = rr_calls r @ [ReadClock]"
  "blockNumber W r = (Inr n, q) \<Longrightarrow> ou_blockNumber W (rr_calls r) = Inr n \<and> rr_calls q = rr_calls r @ [AskBlockNumber]"
  "locks W hl b r = (Inr row, q) \<Longrightarrow> ou_locks W (rr_calls r) hl b = Inr row \<and> rr_calls q = rr_calls r @ [ReadLocks hl b]"
  "node W m ps r = (Inr v, q) \<Longrightarrow> ou_node W (rr_calls r) m (Arr ps) = Inr v \<and> rr_calls q = rr_calls r @ [AskNode m (Arr ps)]"
  by (auto simp: clock_def blockNumber_def locks_def node_def asks_Inr said_Inr)

lemma assertPinned_Inr:
  "assertPinnedChainId W H r = (Inr u, q) \<Longrightarrow>
     rr_calls q = rr_calls r @ [AskNode ''eth_chainId'' (Arr [])]
     \<and> (\<exists>live. ou_node W (rr_calls r) ''eth_chainId'' (Arr []) = Inr live
          \<and> ou_hexToNumber W live = Some (int_jsnum (pin_chainId (cf_pin (rh_config H)))))"
  by (auto simp: assertPinnedChainId_def seq_Inr node_def asks_Inr hexToNumber_def plain_Inr said_Inr result_simps Let_def)

lemma zero_preimage_Inr:
  "zero_preimage_reverts W hl r = (Inr u, q) \<Longrightarrow>
     rr_calls q = rr_calls r @ [TryClaim hl ZERO_BYTES32]
     \<and> (\<exists>m. ou_tryClaim W (rr_calls r) hl ZERO_BYTES32 = Inl m \<and> sublist NOT_OPEN_TEXT m)"
  by (auto simp: zero_preimage_reverts_def tryClaim_def asks_def said_def extractShortMessage_def Let_def
      split: prod.splits sum.splits if_splits)

lemma payout_Inr:
  "catching (tryTransfer W k p n) (\<lambda>e. throw (g e)) r = (Inr u, q) \<Longrightarrow>
     rr_calls q = rr_calls r @ [TryTransfer k p n] \<and> ou_tryTransfer W (rr_calls r) k p n = Inr ()"
  by (auto simp: catching_def tryTransfer_def throw_def asks_def said_def Let_def split: prod.splits sum.splits)

lemma pending_Inr:
  "blockTimestampMs W tag r = (Inr x, q) \<Longrightarrow>
     rr_calls q = rr_calls r @ [AskNode ''eth_getBlockByNumber'' (Arr [Str tag, Bool False])]
     \<and> (\<exists>v stamp ms. ou_node W (rr_calls r) ''eth_getBlockByNumber'' (Arr [Str tag, Bool False]) = Inr v
          \<and> prop_of v ''timestamp'' = Str stamp \<and> ou_hexToNumber W (Str stamp) = Some ms \<and> x = times_1000 ms)"
  by (auto simp: blockTimestampMs_def seq_Inr node_def asks_Inr said_Inr throw_def hexToNumber_def plain_Inr result_simps
      split: if_splits jsval.splits)

lemma claim_guards_Inr:
  assumes "claim_guards W H hl limit r = (Inr g, q)"
  shows "cleared W H hl limit (rr_calls r) (rr_calls q)"
proof -
  let ?ns = "\<lambda>now s. s\<lparr>rr_namespace := Some (''write-'' @ ''claim'' @ '':'' @ hl @ '':'' @ show_int now)\<rparr>"
  from assms obtain u1 r1 u2 r2 row r3 u4 r4 now r5 n r6 x r7 now' u8 where
    a: "assertPinnedChainId W H r = (Inr u1, r1)" and b: "zero_preimage_reverts W hl r1 = (Inr u2, r2)"
    and c: "locks W hl None r2 = (Inr row, r3)"
    and d: "catching (tryTransfer W (lk_token row) (lk_payee row) (lk_amount row))
        (\<lambda>e. throw (PayoutReverts (extractShortMessage e))) r3 = (Inr u4, r4)"
    and e: "clock W r4 = (Inr now, r5)" "blockNumber W (?ns now r5) = (Inr n, r6)"
    and f: "blockTimestampMs W ''pending'' r6 = (Inr x, r7)" "clock W r7 = (Inr now', q)"
    and z: "throw_if (reached (later_of x now') limit) (AtOrPastDeadline (later_of x now') limit) = Inr u8"
    unfolding claim_guards_def simulateClaimPreChecksOrThrow_def assertBeforeNotAfterMsOrThrow_def
      pendingBlockTimestampMsOrThrow_def seq_Inr catching_throws_Inr plain_Inr by blast
  have ns: "rr_calls (?ns now r5) = rr_calls r5" by simp
  show ?thesis
    using assertPinned_Inr [OF a] zero_preimage_Inr [OF b] call_Inr(3) [OF c] payout_Inr [OF d] call_Inr(1) [OF e(1)]
      call_Inr(2) [OF e(2)] pending_Inr [OF f(1)] call_Inr(1) [OF f(2)] z
    unfolding cleared_def ns throw_if_Inr_iff by auto
qed

lemma only_guards: "calls_only hides (claim_guards W H hl limit)"
proof -
  have "calls_only hides (zero_preimage_reverts W hl)"
    by (simp add: adds_def zero_preimage_reverts_def tryClaim_def asks_def reveals_def Let_def split: sum.splits)
  moreover have "calls_only hides (blockTimestampMs W tag)" for tag
    unfolding blockTimestampMs_def by (intro calls_intro) (auto intro!: calls_intro split: jsval.splits)
  ultimately show ?thesis
    unfolding claim_guards_def assertPinnedChainId_def simulateClaimPreChecksOrThrow_def assertBeforeNotAfterMsOrThrow_def
      pendingBlockTimestampMsOrThrow_def Let_def
    by (intro calls_intro | assumption)+
qed

lemma claim_sends_first: "calls_first (SendWrite (CallClaim hl secret)) hides (claim_send W H hl secret g)"
proof -
  have w: "calls_first (SendWrite w) hides (writeContract W w)" for w
    by (auto simp: calls_first_def adds_def writeContract_def asks_def lastly_def Let_def split: sent.splits)
  have h: "calls_only hides (\<lambda>r. case rr_refused r of Some a \<Rightarrow> (Inl (f a), r)
      | None \<Rightarrow> (case rr_timeout r of Some (b, ms) \<Rightarrow> (Inl (k b ms), r) | None \<Rightarrow> (Inl e, r)))" for f k e
    by (auto simp: adds_def split: option.splits prod.splits)
  have "calls_first (SendWrite (CallClaim hl secret)) hides (vendored_claim W H hl secret)"
    unfolding vendored_claim_def sent_and_mined_def seq_give
    by (intro first_catching first_seq w calls_intro)
  then have "calls_first (SendWrite (CallClaim hl secret)) hides (viaVendoredRail (vendored_claim W H hl secret) ClaimWrite)"
    unfolding viaVendoredRail_def by (intro first_change first_lastly first_catching h calls_intro)
  then show ?thesis unfolding claim_send_def by (intro first_lastly first_seq calls_intro)
qed

text \<open>C13. Whatever the node, the token and the clock answer, a claim shows its preimage to nobody
  before its last read: up to the send it makes the same calls whatever the secret is, none of them a
  claim or a simulation with a preimage, and it either stops there with an error or sends the one claim,
  after the pinned chain id, an open lock in its window, a payout that would go through, and a pending
  block and a clock before the caller's limit have been read in that order. After the send nothing
  carries a preimage again.\<close>

theorem claim_reveals_last:
  "\<exists>pre. list_all (\<lambda>c. \<not> reveals c) pre
    \<and> (\<forall>secret. case claim_write W H hl secret limit r of (res, r') \<Rightarrow>
         (\<exists>e. res = Inl e) \<and> rr_calls r' = rr_calls r @ pre
         \<or> cleared W H hl limit (rr_calls r) (rr_calls r @ pre)
           \<and> (\<exists>tail. rr_calls r' = rr_calls r @ pre @ SendWrite (CallClaim hl secret) # tail
                \<and> list_all (\<lambda>c. \<not> reveals c) tail))"
proof -
  obtain x q where g: "claim_guards W H hl limit r = (x, q)" by fastforce
  obtain pre where pre: "rr_calls q = rr_calls r @ pre" "list_all hides pre"
    using only_guards [of W H hl limit] g by (auto simp: adds_def) (metis snd_conv)
  show ?thesis
  proof (cases x)
    case (Inl e)
    then show ?thesis using g pre by (auto simp: claim_write_split seq_def)
  next
    case (Inr a)
    have c: "cleared W H hl limit (rr_calls r) (rr_calls r @ pre)" using claim_guards_Inr g Inr pre(1) by metis
    have "\<exists>tail. rr_calls (snd (claim_write W H hl secret limit r)) = rr_calls r @ pre @ SendWrite (CallClaim hl secret) # tail
        \<and> list_all hides tail" for secret
    proof -
      have "\<exists>cs. rr_calls (snd (claim_send W H hl secret a q)) = rr_calls q @ cs
          \<and> (\<exists>tail. cs = SendWrite (CallClaim hl secret) # tail \<and> list_all hides tail)"
        using claim_sends_first [of hl secret W H a] by (simp add: calls_first_def adds_def)
      then show ?thesis using g pre(1) Inr by (auto simp: claim_write_split seq_def)
    qed
    then show ?thesis using pre(2) c unfolding split_beta by blast
  qed
qed

text \<open>An outside that lets a claim through, for the witness.\<close>

definition willing_outside :: outside where
  "willing_outside =
     \<lparr>ou_node = (\<lambda>h m ps. if m = ''eth_chainId'' then Inr (Str ''0x7a69'') else Inr (Obj [(''timestamp'', Str ''0x1'')])),
      ou_clock = (\<lambda>h. 0), ou_blockNumber = (\<lambda>h. Inr 0), ou_locks = (\<lambda>h hl b. Inr demo_row),
      ou_tryClaim = (\<lambda>h hl p. Inl NOT_OPEN_TEXT), ou_tryTransfer = (\<lambda>h k a n. Inr ()),
      ou_logs = (\<lambda>h ev hl a b. Inr [\<lparr>el_preimage = None, el_blockNumber = Some 1, el_blockHash = Some ''0xb'',
         el_transactionHash = Some ''0xt'', el_logIndex = Some 0\<rparr>]),
      ou_send = (\<lambda>h w. Sent ''0xt''), ou_receipt = (\<lambda>h x t. Receipt True 1), ou_digests = (\<lambda>h. []),
      ou_addressBook = (\<lambda>d. Inl ''no''), ou_hexToNumber = (\<lambda>v. Some (int_jsnum (if v = Str ''0x7a69'' then 31337 else 1))),
      ou_numberToHex = (\<lambda>n. ''0x0''), ou_verifyHashPreimage = (\<lambda>hl p. False)\<rparr>"

definition anvil_handle :: rail_handle where
  "anvil_handle =
     \<lparr>rh_config = \<lparr>cf_pin = ANVIL_LOCAL_PIN, cf_endpoint = ''http://node'', cf_contract = demo_address (CHR ''a''), cf_assets = [],
        cf_receiptTimeoutMs = None, cf_contractCodeHash = None, cf_maxLogRange = None, cf_maxFeePerGasWei = None\<rparr>,
      rh_claimWaitCapMs = None, rh_limits = None, rh_lookupPauseMs = 0\<rparr>"

definition first_run :: rail_run where
  "first_run = \<lparr>rr_calls = [], rr_log = [], rr_namespace = None, rr_listeners = [], rr_timeout = None, rr_receiptBlock = None,
     rr_write = None, rr_refused = None\<rparr>"

lemma js_mul_second: "js_mul 1 1000 = 1000"
  using js_mul_int [of 1 1000] by (simp add: max_safe_def)

lemma replanned_found: "snd found \<noteq> [] \<Longrightarrow> replanned n W H ev hl b found = give found"
  by (cases n) simp_all

lemma willing_claim: "\<exists>e. fst (claim_write willing_outside anvil_handle hl secret 5000 first_run) = Inr e"
  using js_mul_second
    by (simp add: claim_write_def assertPinnedChainId_def simulateClaimPreChecksOrThrow_def zero_preimage_reverts_def
        assertBeforeNotAfterMsOrThrow_def pendingBlockTimestampMsOrThrow_def blockTimestampMs_def in_namespace_def
        viaVendoredRail_def vendored_claim_def sent_and_mined_def waitForReceipt_def receipt_limit_def writeContract_def
        captureWriteEvidence_def looked_up_def planLogScan_def readWriteLogs_def replanned_found log_identity_def log_length_def
        seq_def give_def throw_def raise_res_def change_def catching_def lastly_def asks_def said_def node_said_def node_def
        clock_def blockNumber_def locks_def tryClaim_def tryTransfer_def getLogs_def hexToNumber_def
        extractShortMessage_def later_of_def reached_def times_1000_def prop_of_def field_of_def
        willing_outside_def anvil_handle_def ANVIL_LOCAL_PIN_def effectiveMaxLogRange_def BASE_SEPOLIA_CHAIN_ID_def
        first_run_def Let_def int_jsnum_def or_throw_def throw_if_def)

theorem claim_reveals_last_witness:
  "\<exists>pre. cleared willing_outside anvil_handle ''0xh'' 5000 [] pre \<and> list_all (\<lambda>c. \<not> reveals c) pre"
proof -
  obtain e where e: "fst (claim_write willing_outside anvil_handle ''0xh'' ''0xs'' 5000 first_run) = Inr e"
    using willing_claim by blast
  obtain pre where pre: "list_all (\<lambda>c. \<not> reveals c) pre"
    and k: "\<forall>secret. case claim_write willing_outside anvil_handle ''0xh'' secret 5000 first_run of (res, r') \<Rightarrow>
         (\<exists>e. res = Inl e) \<and> rr_calls r' = rr_calls first_run @ pre
         \<or> cleared willing_outside anvil_handle ''0xh'' 5000 (rr_calls first_run) (rr_calls first_run @ pre)
           \<and> (\<exists>tail. rr_calls r' = rr_calls first_run @ pre @ SendWrite (CallClaim ''0xh'' secret) # tail
                \<and> list_all (\<lambda>c. \<not> reveals c) tail)"
    using claim_reveals_last [where W = willing_outside and H = anvil_handle and hl = "''0xh''" and limit = 5000 and r = first_run]
    by (elim exE conjE)
  have "cleared willing_outside anvil_handle ''0xh'' 5000 (rr_calls first_run) (rr_calls first_run @ pre)"
    using spec [OF k, of "''0xs''"] e by (simp add: split_beta)
  with pre show ?thesis by (auto simp: first_run_def)
qed

end
