(* ===== verification/Evm_Absence.thy ===== *)
theory Evm_Absence
  imports Evm_Reads Evm_Contract Evm_Write_Order
begin

text \<open>
  What the reads of the EVM rail say of the chain. The node answers about one chain of blocks that run
  the escrow (\<open>reads_chain\<close>, \<open>logs_of_chain\<close>); the future is any chain with the same
  finalized blocks.
\<close>

section \<open>A node that answers about a chain\<close>

text \<open>A block it answers is a block of the chain; a row read at a block is the escrow's row there. It
  may answer any error at any time, and any of its blocks when it is asked for one.\<close>

definition head_of :: "chain_block list \<Rightarrow> nat \<Rightarrow> block_head" where
  "head_of bs n = \<lparr>bh_number = int n, bh_timestampMs = fl (of_int (cb_timestamp (bs ! n) * 1000))\<rparr>"

definition reads_chain :: "(string \<Rightarrow> string) \<Rightarrow> chain_block list \<Rightarrow> outside \<Rightarrow> bool" where
  "reads_chain sha256 bs W \<longleftrightarrow>
     (\<forall>h ps v b. ou_node W h ''eth_getBlockByNumber'' ps = Inr v \<and> blockHeadOf v = Some b \<longrightarrow> (\<exists>n < length bs. b = head_of bs n))
     \<and> (\<forall>h hl n row. n < length bs \<and> ou_locks W h hl (Some (int n)) = Inr row \<longrightarrow> row = escrow_at sha256 bs n hl)"

section \<open>The finalized block\<close>

lemma numberedBlock_head:
  assumes "reads_chain sha bs W" "numberedBlock W k r = (Inr (Some b), q)"
  shows "\<exists>n < length bs. b = head_of bs n"
  using assms unfolding reads_chain_def
  by (fastforce simp: numberedBlock_def seq_Inr plain_Inr dest!: call_Inr(4) split: option.splits if_splits)

lemma verdict_head:
  assumes "reads_chain sha bs W" "finalizedBlockForVerdict W H r = (Inr (Some b), q)"
  shows "\<exists>n < length bs. b = head_of bs n"
proof (cases "pin_finality (cf_pin (rh_config H))")
  case (ByConfirmations n)
  with assms show ?thesis by (auto simp: finalizedBlockForVerdict_def dest: numberedBlock_head)
next
  case (ByTag t k)
  have fb: "fallback_head W k q1 = (Inr (Some b), q) \<Longrightarrow> ?thesis" for q1
    using numberedBlock_head [OF assms(1)] by (auto simp: fallback_head_def plain_Inr split: option.splits)
  obtain x q1 where n: "node W ''eth_getBlockByNumber'' [Str t, Bool False] r = (x, q1)" by fastforce
  have b: "x = Inr v \<Longrightarrow> blockHeadOf v = Some b \<Longrightarrow> ?thesis" for v
    using assms(1) call_Inr(4) [of W _ _ r v q1] n unfolding reads_chain_def by blast
  show ?thesis using assms(2) n fb b
    by (auto simp: finalizedBlockForVerdict_def ByTag split: sum.splits if_splits)
qed

lemma readLock_Inr:
  "readLock W hl b r = (Inr x, q) \<longleftrightarrow> (\<exists>row. locks W hl b r = (Inr row, q) \<and> lock_record_of row = Inr x)"
  by (auto simp: readLock_def seq_Inr plain_Inr)

lemma readLockAbsence_Inr:
  assumes "readLockAbsence W H hl limit r = (Inr a, q)" "a \<noteq> NotFinal"
  shows "\<exists>b q1 latest q2 at_final. finalizedBlockForVerdict W H r = (Inr (Some b), q1)
    \<and> readLock W hl (Some (bh_number b)) q2 = (Inr at_final, q) \<and> a = absence_of limit b latest at_final"
  using assms by (auto simp: readLockAbsence_def seq_Inr plain_Inr split: option.splits) blast

section \<open>The verdict on an attempted lock\<close>

lemma lock_record_None: "lock_record_of row = Inr None \<longleftrightarrow> lk_status row = 0"
  by (auto simp: lock_record_of_def split: option.splits)

lemma lock_record_follows:
  assumes "lock_record_of a = Inr (Some rec)" "row_follows a b"
  shows "\<exists>st. lock_record_of b = Inr (Some (rec\<lparr>lr_status := st\<rparr>))"
proof -
  have s: "lk_status a \<in> {1, 2, 3}" using assms(1) by (auto simp: lock_record_of_def lock_status_of_def split: if_splits)
  then have "b = a \<or> b = a\<lparr>lk_status := 2\<rparr> \<or> b = a\<lparr>lk_status := 3\<rparr>" using assms(2) by (auto simp: row_follows_def)
  then show ?thesis using assms(1) s by (auto simp: lock_record_of_def lock_status_of_def split: if_splits)
qed

lemma rounded_below:
  assumes "t < r" "0 \<le> t" "r \<le> max_safe"
  shows "fl (of_int t) < of_int r"
  using fl_of_int [of t] assms by simp

text \<open>No row with that refund time, at any block of any chain with the same blocks up to the finalized
  one, when that block has no row and is past it.\<close>

lemma never_lands:
  assumes "chain_ok cs" "take (Suc n) cs = take (Suc n) bs" "n < length bs"
    and "lk_status (escrow_at sha bs n hl) = 0" "limit \<le> cb_timestamp (bs ! n) * 1000"
    and "lk_status (escrow_at sha cs m hl) \<noteq> 0"
  shows "limit < lk_refundAfterMs (escrow_at sha cs m hl)"
proof -
  have gone: "lk_status (escrow_before sha cs (Suc n) hl) = 0"
    using assms(4) escrow_before_shared [OF assms(2)] by (simp add: escrow_at_before)
  have nm: "Suc n \<le> Suc m"
  proof (rule ccontr)
    assume "\<not> Suc n \<le> Suc m"
    then have "row_follows (escrow_before sha cs (Suc m) hl) (escrow_before sha cs (Suc n) hl)" by (intro before_follows) simp
    from row_follows_kept(1) [OF this] show False using gone assms(6) by (simp add: escrow_at_before)
  qed
  obtain k where k: "Suc n \<le> k" "k < length cs" "cb_timestamp (cs ! k) * 1000 < lk_refundAfterMs (escrow_at sha cs m hl)"
    using before_new [OF nm gone] assms(6) by (auto simp: escrow_at_before)
  have "cs ! n = bs ! n" using assms(2) by (metis lessI nth_take)
  then have "cb_timestamp (bs ! n) < cb_timestamp (cs ! k)" using assms(1) k(1,2) by (metis Suc_le_lessD chain_ok_def)
  then show ?thesis using assms(5) k(3) by linarith
qed

text \<open>C14. The verdict of \<open>readLockAbsence\<close> is final: it names a block the node answered as
  finalized, and in every chain that keeps the blocks up to that one, an attempt called never locked has
  no row with its refund time at any block, now or later, and a lock called landed is in the row from that
  block on, with the terms that were read, whatever its status becomes.\<close>

theorem lock_absence_is_final:
  assumes "reads_chain sha256 bs W" "\<forall>b \<in> set bs. 0 \<le> cb_timestamp b" "limit \<le> max_safe"
    and "readLockAbsence W H hl limit r = (Inr a, r')" "a \<noteq> NotFinal"
  shows "\<exists>n < length bs. (\<exists>q. finalizedBlockForVerdict W H r = (Inr (Some (head_of bs n)), q))
    \<and> (\<forall>cs m. chain_ok cs \<and> take (Suc n) cs = take (Suc n) bs \<longrightarrow>
         (case a of
            Landed row \<Rightarrow> n \<le> m \<longrightarrow> (\<exists>st. lock_record_of (escrow_at sha256 cs m hl) = Inr (Some (row\<lparr>lr_status := st\<rparr>)))
          | _ \<Rightarrow> lk_status (escrow_at sha256 cs m hl) = 0 \<or> limit < lk_refundAfterMs (escrow_at sha256 cs m hl)))"
proof -
  obtain b q1 latest q2 at_final where f: "finalizedBlockForVerdict W H r = (Inr (Some b), q1)"
    and l: "readLock W hl (Some (bh_number b)) q2 = (Inr at_final, r')" and a: "a = absence_of limit b latest at_final"
    using readLockAbsence_Inr [OF assms(4,5)] by blast
  obtain n where n: "n < length bs" "b = head_of bs n" using verdict_head [OF assms(1) f] by blast
  have row: "lock_record_of (escrow_at sha256 bs n hl) = Inr at_final"
    using l assms(1) n unfolding reads_chain_def by (auto simp: readLock_Inr head_of_def dest!: call_Inr(3))
  have "case a of
        Landed row \<Rightarrow> n \<le> m \<longrightarrow> (\<exists>st. lock_record_of (escrow_at sha256 cs m hl) = Inr (Some (row\<lparr>lr_status := st\<rparr>)))
      | _ \<Rightarrow> lk_status (escrow_at sha256 cs m hl) = 0 \<or> limit < lk_refundAfterMs (escrow_at sha256 cs m hl)"
    if cs: "chain_ok cs" "take (Suc n) cs = take (Suc n) bs" for cs m
  proof (cases at_final)
    case (Some rec)
    have "\<exists>st. lock_record_of (escrow_at sha256 cs m hl) = Inr (Some (rec\<lparr>lr_status := st\<rparr>))" if "n \<le> m"
      using lock_record_follows [OF row [unfolded Some]] before_follows [of "Suc n" "Suc m" sha256 cs hl] that
        escrow_before_shared [OF cs(2), of sha256] by (simp add: escrow_at_before)
    then show ?thesis using a Some by (simp add: absence_of_def)
  next
    case None
    have "0 \<le> cb_timestamp (bs ! n) * 1000" using assms(2) n(1) by simp
    moreover have "\<not> fl (of_int (cb_timestamp (bs ! n) * 1000)) < of_int limit"
      using a None assms(5) n(2) by (auto simp: absence_of_def head_of_def split: if_splits)
    ultimately have "limit \<le> cb_timestamp (bs ! n) * 1000"
      using rounded_below [of "cb_timestamp (bs ! n) * 1000" limit] assms(3) by linarith
    moreover have "lk_status (escrow_at sha256 bs n hl) = 0" using row None by (simp add: lock_record_None)
    ultimately show ?thesis
      using never_lands [OF cs n(1), of sha256 hl limit m] a None by (auto simp: absence_of_def)
  qed
  then show ?thesis using f n by blast
qed

section \<open>The scan for a preimage\<close>

text \<open>The preimages claimed for a hash lock in some blocks, in their order.\<close>

definition claimed_in :: "(string \<Rightarrow> string) \<Rightarrow> chain_block list \<Rightarrow> string \<Rightarrow> nat list \<Rightarrow> string list" where
  "claimed_in sha256 bs hl ns = concat (map (\<lambda>n. map snd (filter (\<lambda>(h, p). h = hl) (claims_in sha256 bs n))) ns)"

text \<open>A node that answers the tip and the logs of the chain; the library's check is the hash.\<close>

definition logs_of_chain :: "(string \<Rightarrow> string) \<Rightarrow> chain_block list \<Rightarrow> string \<Rightarrow> outside \<Rightarrow> bool" where
  "logs_of_chain sha256 bs hl W \<longleftrightarrow>
     (\<forall>h. \<exists>v. ou_node W h ''eth_blockNumber'' (Arr []) = Inr v \<and> hex_bigint v = Some (int (length bs) - 1))
     \<and> (\<forall>h a b. 0 \<le> a \<and> a \<le> b \<and> b < int (length bs) \<longrightarrow>
          (\<exists>ls. ou_logs W h ClaimedEvent hl a (Some b) = Inr ls
             \<and> List.map_filter el_preimage ls = claimed_in sha256 bs hl [nat a ..< nat (b + 1)]))
     \<and> (\<forall>p. ou_verifyHashPreimage W hl p \<longleftrightarrow> sha256 p = hl)"

definition head_if :: "'a list \<Rightarrow> 'a option" where
  "head_if xs = (case xs of [] \<Rightarrow> None | x # _ \<Rightarrow> Some x)"

lemma head_if_simps [simp]: "head_if [] = None" "head_if (x # xs) = Some x"
  by (simp_all add: head_if_def)

lemma head_if_append: "head_if (xs @ ys) = (case head_if xs of None \<Rightarrow> head_if ys | Some x \<Rightarrow> Some x)"
  by (cases xs) simp_all

lemma find_all: "\<forall>x \<in> set xs. P x \<Longrightarrow> List.find P xs = head_if xs"
  by (cases xs) simp_all

lemma claimed_in_opens: "p \<in> set (claimed_in sha bs hl ns) \<Longrightarrow> sha p = hl"
  by (auto simp: claimed_in_def dest: claims_in_open)

lemma claimed_in_append: "claimed_in sha bs hl (ms @ ns) = claimed_in sha bs hl ms @ claimed_in sha bs hl ns"
  by (simp add: claimed_in_def)

lemma opened_by_chain:
  assumes "logs_of_chain sha bs hl W" "0 \<le> a" "a \<le> b" "b < int (length bs)"
  shows "\<exists>ls. ou_logs W h ClaimedEvent hl a (Some b) = Inr ls
    \<and> opened_by W hl ls = head_if (claimed_in sha bs hl [nat a ..< nat (b + 1)])"
proof -
  obtain ls where ls: "ou_logs W h ClaimedEvent hl a (Some b) = Inr ls"
    "List.map_filter el_preimage ls = claimed_in sha bs hl [nat a ..< nat (b + 1)]"
    using assms unfolding logs_of_chain_def by blast
  have "opened_by W hl ls = head_if (claimed_in sha bs hl [nat a ..< nat (b + 1)])"
    unfolding opened_by_def ls(2)
    by (rule find_all) (use assms(1) claimed_in_opens in \<open>auto simp: logs_of_chain_def\<close>)
  with ls(1) show ?thesis by blast
qed

lemma scan_cut:
  assumes "logs_of_chain sha bs hl W" "0 < w" "tip < int (length bs)" "0 \<le> low" "cut_ranges n w tip low = (rs, left)"
  shows "left = (if low \<le> tip then min (tip + 1) (low + int n * w) else low)
    \<and> fst (scan_claims W hl rs r) = Inr (head_if (claimed_in sha bs hl [nat low ..< nat left]))"
  using assms(4,5)
proof (induction n arbitrary: low rs left r)
  case 0
  then show ?case by (auto simp: give_def claimed_in_def)
next
  case (Suc n)
  show ?case
  proof (cases "low \<le> tip")
    case False
    then show ?thesis using Suc.prems by (auto simp: give_def claimed_in_def)
  next
    case True
    define high where "high = min (low + w - 1) tip"
    obtain rest left' where c: "cut_ranges n w tip (high + 1) = (rest, left')" by fastforce
    have e: "(if low + w - 1 < tip then low + w - 1 else tip) = high" by (simp add: high_def min_def)
    have rs: "rs = (low, Some high) # rest" "left = left'" using Suc.prems(2) True c by (simp_all add: e Let_def)
    have h: "low \<le> high" "high \<le> tip" using True assms(2) by (auto simp: high_def)
    obtain ls where ls: "ou_logs W (rr_calls r) ClaimedEvent hl low (Some high) = Inr ls"
      "opened_by W hl ls = head_if (claimed_in sha bs hl [nat low ..< nat (high + 1)])"
      using opened_by_chain [OF assms(1) Suc.prems(1) h(1)] h(2) assms(3) by fastforce
    have IH: "left' = (if high + 1 \<le> tip then min (tip + 1) (high + 1 + int n * w) else high + 1)"
      "fst (scan_claims W hl rest q) = Inr (head_if (claimed_in sha bs hl [nat (high + 1) ..< nat left']))" for q
      using Suc.IH [OF _ c] Suc.prems(1) h(1) by auto
    have left: "left = min (tip + 1) (low + int (Suc n) * w)"
    proof -
      obtain z where z: "int n * w = z" "int (Suc n) * w = w + z" "0 \<le> z" using assms(2) by (simp add: algebra_simps)
      show ?thesis using IH(1) rs(2) True assms(2) z(3) unfolding z(1,2) by (auto simp: high_def min_def)
    qed
    have z: "0 \<le> int n * w" using assms(2) by (rule mult_nonneg_nonneg [OF of_nat_0_le_iff less_imp_le])
    have "nat low \<le> nat (high + 1)" "nat (high + 1) \<le> nat left"
      using h IH(1) rs(2) z by (simp_all add: min_def nat_le_eq_zle split: if_splits) linarith?
    then have "[nat low ..< nat left] = [nat low ..< nat (high + 1)] @ [nat (high + 1) ..< nat left]"
      by (metis le_Suc_ex upt_add_eq_append)
    then have "head_if (claimed_in sha bs hl [nat low ..< nat left])
        = (case opened_by W hl ls of None \<Rightarrow> head_if (claimed_in sha bs hl [nat (high + 1) ..< nat left]) | Some p \<Rightarrow> Some p)"
      by (simp only: claimed_in_append head_if_append ls(2))
    then show ?thesis
      using ls(1) IH(2) rs True left
      by (auto simp: seq_def getLogs_def asks_def said_def Let_def give_def split: option.splits)
  qed
qed

text \<open>C15. Against a node that answers the logs of one chain, \<open>findClaimedPreimage\<close> reads its
  window whole: the answer is the first preimage claimed for the hash lock from the marker up to the tip,
  as far as 100 calls of the endpoint's range reach; none only when the chain up to the tip holds none;
  and when blocks were left unread and nothing was found in the others, the error that names them.\<close>

theorem preimage_scan_exact:
  assumes "logs_of_chain sha256 bs hl W" "effectiveMaxLogRange (rh_config H) = Some w" "0 < w" "0 \<le> marker"
  shows "fst (findClaimedPreimage W H hl marker r) =
    (let tip = int (length bs) - 1; reach = marker + 100 * w
     in case claimed_in sha256 bs hl [nat marker ..< nat (min (tip + 1) reach)] of
          p # _ \<Rightarrow> Inr (Some p)
        | [] \<Rightarrow> if reach \<le> tip then Inl (ScanBound marker tip reach tip w 100) else Inr None)"
proof -
  define tip where "tip = int (length bs) - 1"
  obtain rs left where c: "cut_ranges 100 w tip marker = (rs, left)" by fastforce
  have cut: "left = (if marker \<le> tip then min (tip + 1) (marker + 100 * w) else marker)"
    "fst (scan_claims W hl rs q) = Inr (head_if (claimed_in sha256 bs hl [nat marker ..< nat left]))" for q
    using scan_cut [OF assms(1,3) _ assms(4) c] by (auto simp: tip_def)
  have win: "[nat marker ..< nat left] = [nat marker ..< nat (min (tip + 1) (marker + 100 * w))]"
    using cut(1) assms(3,4) by (auto simp: min_def)
  obtain v where v: "ou_node W (rr_calls r) ''eth_blockNumber'' (Arr []) = Inr v" "hex_bigint v = Some tip"
    using assms(1) unfolding logs_of_chain_def tip_def by blast
  obtain q where plan: "planLogScan W H marker None r = (Inr (plan_from w marker tip), q)"
    using v assms(2) by (auto simp: planLogScan_def seq_def node_def asks_def node_said_def raise_res_def give_def Let_def)
  have p: "ps_ranges (plan_from w marker tip) = rs" "ps_unread (plan_from w marker tip) = (if left \<le> tip then Some (left, tip) else None)"
    "ps_tip (plan_from w marker tip) = Some tip" "ps_limit (plan_from w marker tip) = Some w"
    using c by (simp_all add: plan_from_def MAX_LOG_SCAN_CHUNKS_def)
  obtain q' where s: "scan_claims W hl rs q = (Inr (head_if (claimed_in sha256 bs hl [nat marker ..< nat left])), q')"
    using cut(2) [of q] by (metis prod.collapse)
  have unread: "left \<le> tip \<longleftrightarrow> marker + 100 * w \<le> tip" "left \<le> tip \<Longrightarrow> left = marker + 100 * w"
    using cut(1) assms(3) by (auto simp: min_def split: if_splits)
  show ?thesis
    using plan s p unread unfolding win [symmetric] tip_def [symmetric] Let_def
    by (cases "claimed_in sha256 bs hl [nat marker ..< nat left]")
      (auto simp: findClaimedPreimage_def seq_def raise_res_def give_def logScanBoundError_def MAX_LOG_SCAN_CHUNKS_def)
qed

section \<open>A concrete chain, for the witnesses\<close>

definition chain_digest :: "string \<Rightarrow> string" where
  "chain_digest p = CHR ''h'' # p"

definition demo_blocks :: "chain_block list" where
  "demo_blocks =
     [\<lparr>cb_timestamp = 0, cb_calls = [LockBy ''b'' ''hp'' ''c'' 5 ''d'' 2000 3000 True]\<rparr>,
      \<lparr>cb_timestamp = 1, cb_calls = [ClaimWith ''hp'' ''p'' True]\<rparr>, \<lparr>cb_timestamp = 10, cb_calls = []\<rparr>]"

definition demo_outside :: outside where
  "demo_outside =
     \<lparr>ou_node = (\<lambda>h m ps.
        if m = ''eth_getBlockByNumber'' then Inr (Obj [(''number'', Str ''0x2''), (''timestamp'', Str ''0xa'')])
        else if m = ''eth_blockNumber'' then Inr (Str ''0x2'') else Inl (PlainError ''no'')),
      ou_clock = (\<lambda>h. 0), ou_blockNumber = (\<lambda>h. Inr 2),
      ou_locks = (\<lambda>h hl b. Inr (escrow_at chain_digest demo_blocks (case b of Some n \<Rightarrow> nat n | None \<Rightarrow> 2) hl)),
      ou_tryClaim = (\<lambda>h hl p. Inl NOT_OPEN_TEXT), ou_tryTransfer = (\<lambda>h k a n. Inr ()),
      ou_logs = (\<lambda>h ev hl a b. Inr (map (\<lambda>p. \<lparr>el_preimage = Some p, el_blockNumber = None, el_blockHash = None,
          el_transactionHash = None, el_logIndex = None\<rparr>)
        (claimed_in chain_digest demo_blocks hl [nat a ..< (case b of Some n \<Rightarrow> nat (n + 1) | None \<Rightarrow> 3)]))),
      ou_send = (\<lambda>h w. Sent ''0x''), ou_receipt = (\<lambda>h x t. Receipt True 1), ou_digests = (\<lambda>h. []),
      ou_addressBook = (\<lambda>d. Inr d), ou_hexToNumber = (\<lambda>v. None), ou_numberToHex = (\<lambda>n. ''0x2''),
      ou_verifyHashPreimage = (\<lambda>hl p. chain_digest p = hl)\<rparr>"

definition demo_handle :: rail_handle where
  "demo_handle = \<lparr>rh_config = base_sepolia_config, rh_claimWaitCapMs = None, rh_limits = None, rh_lookupPauseMs = 0\<rparr>"

definition demo_run :: rail_run where
  "demo_run = \<lparr>rr_calls = [], rr_log = [], rr_namespace = None, rr_listeners = [], rr_timeout = None, rr_receiptBlock = None,
     rr_write = None, rr_refused = None\<rparr>"

lemma demo_numbers: "HEX_VALUE ''0x2''" "HEX_VALUE ''0xa''" "bigint_of ''0x2'' = Some 2" "bigint_of ''0xa'' = Some 10"
  by code_simp+

lemma demo_head: "blockHeadOf (Obj [(''number'', Str ''0x2''), (''timestamp'', Str ''0xa'')]) = Some (head_of demo_blocks 2)"
  by (simp add: blockHeadOf_def prop_of_def field_of_def hex_bigint_def demo_numbers head_of_def demo_blocks_def)

lemma demo_length: "length demo_blocks = 3"
  by (simp add: demo_blocks_def)

lemma demo_reads: "reads_chain chain_digest demo_blocks demo_outside"
  using demo_head by (auto simp: reads_chain_def demo_outside_def demo_length intro!: exI [of _ 2])

lemma map_filter_shown: "List.map_filter f (map (\<lambda>p. g p) xs) = List.map_filter (\<lambda>p. f (g p)) xs"
  by (induction xs) (simp_all add: List.map_filter_simps split: option.splits)

lemma map_filter_Some: "List.map_filter Some xs = xs"
  by (induction xs) (simp_all add: List.map_filter_simps)

lemma demo_logs: "logs_of_chain chain_digest demo_blocks hl demo_outside"
  by (simp add: logs_of_chain_def demo_outside_def hex_bigint_def demo_numbers demo_length map_filter_shown map_filter_Some)

lemma demo_rows:
  "lk_status (escrow_at chain_digest demo_blocks 2 ''hx'') = 0"
  "claimed_in chain_digest demo_blocks ''hp'' [0, Suc 0, 2] = [''p'']"
  by code_simp+

lemma demo_final: "fl (10000 :: rat) = 10000"
  using fl_of_int [of 10000] by (simp add: max_safe_def)

lemma demo_absence:
  "readLockAbsence demo_outside demo_handle ''hx'' 5000 demo_run =
     (Inr (NeverLocked (head_of demo_blocks 2)), snd (readLockAbsence demo_outside demo_handle ''hx'' 5000 demo_run))"
  using demo_rows(1) demo_head demo_final
  by (simp add: readLockAbsence_def finalizedBlockForVerdict_def demo_handle_def base_sepolia_config_def BASE_SEPOLIA_PIN_def
      seq_def node_def asks_def node_said_def readLock_def locks_def said_def raise_res_def give_def lock_record_of_def
      demo_outside_def demo_run_def absence_of_def head_of_def demo_blocks_def Let_def)

theorem lock_absence_is_final_witness:
  "\<forall>m. lk_status (escrow_at chain_digest (demo_blocks @ [\<lparr>cb_timestamp = 11, cb_calls = []\<rparr>]) m ''hx'') = 0
     \<or> 5000 < lk_refundAfterMs (escrow_at chain_digest (demo_blocks @ [\<lparr>cb_timestamp = 11, cb_calls = []\<rparr>]) m ''hx'')"
proof -
  let ?cs = "demo_blocks @ [\<lparr>cb_timestamp = 11, cb_calls = []\<rparr>]"
  have t: "\<forall>b \<in> set demo_blocks. 0 \<le> cb_timestamp b" by (simp add: demo_blocks_def)
  obtain n q where n: "n < length demo_blocks" "finalizedBlockForVerdict demo_outside demo_handle demo_run = (Inr (Some (head_of demo_blocks n)), q)"
    and k: "\<forall>cs m. chain_ok cs \<and> take (Suc n) cs = take (Suc n) demo_blocks \<longrightarrow>
        lk_status (escrow_at chain_digest cs m ''hx'') = 0 \<or> 5000 < lk_refundAfterMs (escrow_at chain_digest cs m ''hx'')"
    using lock_absence_is_final [OF demo_reads t _ demo_absence] by (auto simp: max_safe_def)
  have ok: "chain_ok ?cs" by (auto simp: chain_ok_def demo_blocks_def nth_Cons' less_Suc_eq numeral_eq_Suc)
  have "take (Suc n) ?cs = take (Suc n) demo_blocks" using n(1) by simp
  with k ok show ?thesis by blast
qed

theorem preimage_scan_exact_witness:
  "fst (findClaimedPreimage demo_outside demo_handle ''hp'' 0 demo_run) = Inr (Some ''p'')"
proof -
  have w: "effectiveMaxLogRange (rh_config demo_handle) = Some 500"
    by (simp add: effectiveMaxLogRange_def demo_handle_def base_sepolia_config_def BASE_SEPOLIA_PIN_def BASE_SEPOLIA_CHAIN_ID_def
        BASE_SEPOLIA_MAX_LOG_RANGE_def)
  have l: "int (length demo_blocks) - 1 = 2" "[nat 0 ..< nat (min (2 + 1) (0 + 100 * 500))] = [0, Suc 0, 2]"
    by (simp_all add: demo_blocks_def upt_rec numeral_eq_Suc)
  show ?thesis
    using preimage_scan_exact [OF demo_logs w, of 0 "''hp''" demo_run] unfolding l Let_def demo_rows(2) by simp
qed

end
