(* ===== verification/Evm_Connect.thy ===== *)
theory Evm_Connect
  imports Evm_Write_Order
begin

text \<open>
  What a connected handle of the EVM rail rests on: \<open>EvmHtlcRail.connect\<close> with the guarded
  account of \<open>src/rails/evm-signer.ts\<close>.
\<close>

abbreviation sends :: "evm_call \<Rightarrow> bool" where
  "sends c \<equiv> (\<exists>w. c = SendWrite w)"

lemma prefix_length: "take 2 s = ''0x'' \<Longrightarrow> length s \<noteq> 2 \<Longrightarrow> 2 < length s"
  by (cases s; cases "tl s") auto

lemma pinned_code_Inr:
  assumes "pinned_code V W cfg r = (Inr u, q)" "cf_contractCodeHash cfg = Some pinned"
  shows "\<exists>code. ou_node W (rr_calls r) ''eth_getCode'' (Arr [Str (cf_contract cfg), Str ''latest'']) = Inr (Str code)
      \<and> 2 < length code \<and> toLowerCase (vi_keccak256 V code) = toLowerCase pinned"
  using assms
  by (auto simp: pinned_code_def seq_Inr plain_Inr throw_def judgeRuntimeCode_def HEX_BYTES_def Let_def
      dest!: call_Inr(4) prefix_length split: sum.splits jsval.splits if_splits)

lemma pinned_code_quiet: "calls_only (\<lambda>c. \<not> sends c) (pinned_code V W cfg)"
  unfolding pinned_code_def node_def
  by (cases "cf_contractCodeHash cfg") (auto intro!: calls_intro split: sum.splits)

lemma connect_quiet: "calls_only (\<lambda>c. \<not> sends c) (connect V W config account pause)"
  unfolding connect_def node_def hexToNumber_def by (intro calls_intro pinned_code_quiet) simp

lemma handle_of_simps [simp]:
  "rh_config (handle_of cfg account maxFee p) = cfg"
  "account = ObjectAccount kind address signs \<Longrightarrow> rh_limits (handle_of cfg account maxFee p) =
     Some \<lparr>sl_chainId = pin_chainId (cf_pin cfg), sl_maxGas = EVM_MAX_GAS_PER_WRITE, sl_maxFeePerGas = maxFee\<rparr>"
  by (simp_all add: handle_of_def)

lemma connect_Inr:
  assumes "connect V W config account pause r = (Inr H, r')"
  shows "checkEvmRailConfig V config = Inr (rh_config H)"
    "\<exists>live. ou_node W (rr_calls r) ''eth_chainId'' (Arr []) = Inr live
       \<and> ou_hexToNumber W live = Some (int_jsnum (pin_chainId (cf_pin (rh_config H))))"
    "\<exists>maxFee p. effectiveMaxFeePerGasWei (rh_config H) = Some maxFee \<and> H = handle_of (rh_config H) account maxFee p"
    "\<exists>q q' u. rr_calls q = rr_calls r @ [AskNode ''eth_chainId'' (Arr [])] \<and> pinned_code V W (rh_config H) q = (Inr u, q')"
proof -
  from assms obtain cfg p maxFee hex q1 live u q2 where
    c: "map_sum ConfigRefused (\<lambda>c. c) (checkEvmRailConfig V config) = Inr cfg"
    and f: "effectiveMaxFeePerGasWei cfg = Some maxFee"
    and n: "node W ''eth_chainId'' [] r = (Inr hex, q1)" and x: "ou_hexToNumber W hex = Some live"
    and l: "live = int_jsnum (pin_chainId (cf_pin cfg))" and k: "pinned_code V W cfg q1 = (Inr u, q2)"
    and H: "H = handle_of cfg account maxFee p"
    unfolding connect_def seq_Inr plain_Inr hexToNumber_def or_throw_Inr_iff throw_if_Inr_iff by blast
  have "checkEvmRailConfig V config = Inr cfg" using c by (cases "checkEvmRailConfig V config") simp_all
  then show "checkEvmRailConfig V config = Inr (rh_config H)" using H by simp
  show "\<exists>live. ou_node W (rr_calls r) ''eth_chainId'' (Arr []) = Inr live
       \<and> ou_hexToNumber W live = Some (int_jsnum (pin_chainId (cf_pin (rh_config H))))"
    using call_Inr(4) [OF n] x l H by simp
  show "\<exists>maxFee p. effectiveMaxFeePerGasWei (rh_config H) = Some maxFee \<and> H = handle_of (rh_config H) account maxFee p"
    using f H by auto
  show "\<exists>q q' u. rr_calls q = rr_calls r @ [AskNode ''eth_chainId'' (Arr [])] \<and> pinned_code V W (rh_config H) q = (Inr u, q')"
    using call_Inr(4) [OF n] k H by auto
qed

text \<open>C16. A handle that connects rests on a checked configuration; the node has answered the pinned
  chain id, one of the two test chains, and, always on Base Sepolia, code at the contract that hashes to
  the pin, before anything was sent; and with a local account whatever that handle signs, whatever the
  endpoint filled in, names the pinned chain, at most 500,000 gas, and a fee cap with every fee field at
  most the ceiling in force.\<close>

theorem connected_rail_is_pinned:
  assumes "viem_addresses_ok V" "connect V W config (ObjectAccount kind address signs) pause r = (Inr H, r')"
  shows "let cfg = rh_config H in checkEvmRailConfig V config = Inr cfg \<and> pin_chainId (cf_pin cfg) \<in> {31337, 84532}
    \<and> (\<exists>live. ou_node W (rr_calls r) ''eth_chainId'' (Arr []) = Inr live
         \<and> ou_hexToNumber W live = Some (int_jsnum (pin_chainId (cf_pin cfg))))
    \<and> (pin_chainId (cf_pin cfg) = 84532 \<longrightarrow> cf_contractCodeHash cfg \<noteq> None)
    \<and> (\<forall>pinned. cf_contractCodeHash cfg = Some pinned \<longrightarrow>
         (\<exists>code. ou_node W (rr_calls r @ [AskNode ''eth_chainId'' (Arr [])]) ''eth_getCode''
                   (Arr [Str (cf_contract cfg), Str ''latest'']) = Inr (Str code)
               \<and> 2 < length code \<and> toLowerCase (vi_keccak256 V code) = toLowerCase pinned))
    \<and> (\<exists>cs. rr_calls r' = rr_calls r @ cs \<and> list_all (\<lambda>c. \<not> (\<exists>w. c = SendWrite w)) cs)
    \<and> (\<exists>L ceiling_wei. rh_limits H = Some L \<and> effectiveMaxFeePerGasWei cfg = Some ceiling_wei
         \<and> (\<forall>(sign :: transaction \<Rightarrow> (string, string) result) tx watch.
              case guardLocalAccount L sign tx watch of
                (Inl _, _) \<Rightarrow> True
              | (Inr raw, _) \<Rightarrow>
                  within_limits \<lparr>sl_chainId = pin_chainId (cf_pin cfg), sl_maxGas = 500000, sl_maxFeePerGas = ceiling_wei\<rparr> tx))"
proof -
  let ?cfg = "rh_config H"
  note k = connect_Inr [OF assms(2)]
  obtain fee p where h: "effectiveMaxFeePerGasWei ?cfg = Some fee" "H = handle_of ?cfg (ObjectAccount kind address signs) fee p"
    using k(3) by blast
  have L: "rh_limits H = Some \<lparr>sl_chainId = pin_chainId (cf_pin ?cfg), sl_maxGas = 500000, sl_maxFeePerGas = fee\<rparr>"
    by (subst h(2)) (simp add: EVM_MAX_GAS_PER_WRITE_def)
  have chain: "pin_chainId (cf_pin ?cfg) \<in> {31337, 84532}" using validate_Inr [of V ?cfg] checkEvmRailConfig_Inr [OF k(1)]
    by (auto simp: ALLOWED_CHAIN_IDS_def BASE_SEPOLIA_CHAIN_ID_def)
  have pin: "pin_chainId (cf_pin ?cfg) = 84532 \<Longrightarrow> cf_contractCodeHash ?cfg \<noteq> None"
    using validate_Inr [of V ?cfg] checkEvmRailConfig_Inr [OF k(1)] by (auto simp: BASE_SEPOLIA_CHAIN_ID_def)
  have code: "\<exists>code. ou_node W (rr_calls r @ [AskNode ''eth_chainId'' (Arr [])]) ''eth_getCode''
                   (Arr [Str (cf_contract ?cfg), Str ''latest'']) = Inr (Str code)
               \<and> 2 < length code \<and> toLowerCase (vi_keccak256 V code) = toLowerCase pinned"
    if "cf_contractCodeHash ?cfg = Some pinned" for pinned
    using k(4) pinned_code_Inr [OF _ that] by metis
  have calls: "\<exists>cs. rr_calls r' = rr_calls r @ cs \<and> list_all (\<lambda>c. \<not> sends c) cs"
    using connect_quiet [of V W config "ObjectAccount kind address signs" pause] assms(2) unfolding adds_def by (metis snd_conv)
  have guard: "case guardLocalAccount L sign tx watch of (Inl _, _) \<Rightarrow> True | (Inr raw, _) \<Rightarrow> within_limits L tx"
    for L tx watch and sign :: "transaction \<Rightarrow> (string, string) result"
    using guardLocalAccount_signed [of L sign tx watch] by (auto split: prod.splits sum.splits)
  show ?thesis
    unfolding Let_def
    by (intro conjI exI [of _ fee] exI [of _ "\<lparr>sl_chainId = pin_chainId (cf_pin ?cfg), sl_maxGas = 500000, sl_maxFeePerGas = fee\<rparr>"]
        allI impI k(1,2) chain L h(1) calls guard pin code)
qed

text \<open>A node of Base Sepolia with the pinned code, for the witness.\<close>

definition sepolia_outside :: outside where
  "sepolia_outside =
     \<lparr>ou_node = (\<lambda>h m ps. if m = ''eth_chainId'' then Inr (Str ''0x14a34'') else if m = ''eth_getCode'' then Inr (Str ''0x60'')
        else Inl (PlainError ''no'')),
      ou_clock = (\<lambda>h. 0), ou_blockNumber = (\<lambda>h. Inr 0), ou_locks = (\<lambda>h hl b. Inl ''no''), ou_tryClaim = (\<lambda>h hl p. Inl ''no''),
      ou_tryTransfer = (\<lambda>h k a n. Inl ''no''), ou_logs = (\<lambda>h ev hl a b. Inl ''no''), ou_send = (\<lambda>h w. NotSent ''no'' None),
      ou_receipt = (\<lambda>h x t. WaitTimedOut), ou_digests = (\<lambda>h. []), ou_addressBook = (\<lambda>d. Inl ''no''),
      ou_hexToNumber = (\<lambda>v. if v = Str ''0x14a34'' then Some (int_jsnum 84532) else None), ou_numberToHex = (\<lambda>n. ''0x0''),
      ou_verifyHashPreimage = (\<lambda>hl p. False)\<rparr>"

definition fresh_run :: rail_run where
  "fresh_run = \<lparr>rr_calls = [], rr_log = [], rr_namespace = None, rr_listeners = [], rr_timeout = None, rr_receiptBlock = None,
     rr_write = None, rr_refused = None\<rparr>"

lemma sepolia_connects:
  "connect demo_viem sepolia_outside base_sepolia_value (ObjectAccount (Str ''local'') (Str (demo_address (CHR ''b''))) True)
     Undefined fresh_run =
   (Inr (handle_of base_sepolia_config (ObjectAccount (Str ''local'') (Str (demo_address (CHR ''b''))) True) 50000000000 0),
    snd (connect demo_viem sepolia_outside base_sepolia_value (ObjectAccount (Str ''local'') (Str (demo_address (CHR ''b''))) True)
     Undefined fresh_run))"
proof -
  have code: "judgeRuntimeCode demo_viem (Str ''0x60'') (demo_hash_text (CHR ''E'')) = Inr (demo_hash_text (CHR ''e''), 1)"
    by code_simp
  have account: "account_ok demo_viem (ObjectAccount (Str ''local'') (Str (demo_address (CHR ''b''))) True)"
    using demo_shapes by (simp add: account_ok_def isValidAddressShape_def demo_viem_def)
  show ?thesis
    using code account base_sepolia_checks
    by (simp add: connect_def pinned_code_def seq_def raise_res_def give_def change_def pause_of_def MAX_LOOKUP_PAUSE_MS_def
        node_def asks_def node_said_def hexToNumber_def sepolia_outside_def fresh_run_def base_sepolia_config_def
        BASE_SEPOLIA_PIN_def effectiveMaxFeePerGasWei_def BASE_SEPOLIA_CHAIN_ID_def BASE_SEPOLIA_DEFAULT_MAX_FEE_PER_GAS_WEI_def
        Let_def or_throw_def throw_if_def)
qed

theorem connected_rail_is_pinned_witness:
  "\<exists>code. ou_node sepolia_outside [AskNode ''eth_chainId'' (Arr [])] ''eth_getCode''
       (Arr [Str (cf_contract base_sepolia_config), Str ''latest'']) = Inr (Str code)
     \<and> toLowerCase (vi_keccak256 demo_viem code) = toLowerCase (demo_hash_text (CHR ''E''))"
  using connected_rail_is_pinned [OF demo_viem_addresses sepolia_connects]
  unfolding Let_def by (auto simp: base_sepolia_config_def fresh_run_def)

end
