(* ===== verification/Spec2Isabelle.thy ===== *)
theory Spec2Isabelle
  imports Swap_Properties Board_Properties Account_Properties Profile_Properties Client_Policy Near_Borsh Near_Ref Flow_Seller_Begin Evm_Replay Rail_Readers Evm_Absence Evm_Connect
begin

text \<open>
  A verification development of the atomic swap desk (\<open>flop-swap-desk\<close>, the
  TypeScript sources under \<open>src/\<close>). The desk reads signed \<open>tclk/1\<close>
  transcripts of chat rooms and evidence from chains, folds them into a view of each swap, and runs
  the two parties' flows over chain rails.

  \<^bold>\<open>The program and its parts.\<close>

  A swap has two legs. Leg A pays a counter-asset (EVM, Bitcoin, NEAR, Solana) from the Buyer to the
  Seller, leg B pays FLOP from the Seller to the Buyer, both under one hash. An offer declares itself
  a leg in its signed \<open>job\<close> field (\<open>profile.ts\<close>); the board
  (\<open>board.ts\<close>) authenticates the frames of the offers room, pairs leg B with leg A and
  calls the fold (\<open>swap.ts\<close>) on the records of the two legs; the fold uses evidence
  (\<open>paper-evidence.ts\<close> and the chain readers) only when it is bound to the leg's accepted
  lock. The deadline check (\<open>deadlines.ts\<close>) decides before any lock whether two offers
  leave each party time, under the policies of \<open>client/policy.ts\<close>. The account and pubkey
  lines (\<open>rails/account-line.ts\<close>) with their proofs (\<open>rails/account-proof.ts\<close>)
  say which chain account a party is paid at. \<open>rails/btc-script.ts\<close> and the fee rule of
  \<open>rails/btc-htlc.ts\<close> build and price the Bitcoin escrow and its spends.
  \<open>rails/near-borsh.ts\<close> builds the bytes of the NEAR transactions. The parties keep one
  record per flow in a store with compare-and-set saves (\<open>client/flow-store.ts\<close>): in memory
  for tests, and in a directory of files with one lock file, for a party that must survive a crash
  and a second process on the same seat. The EVM rail (\<open>rails/evm-htlc.ts\<close>) is configured
  against a pinned deployment; its evidence reader (\<open>rails/evm-evidence.ts\<close>,
  \<open>rails/evm-code-pin.ts\<close>) judges a lock from the exact bytes of JSON-RPC exchanges, which
  \<open>rails/rpc-capture.ts\<close> records, stores with an index and replays.

  \<^bold>\<open>Theories.\<close>

  \<^item> \<open>Desk_Prelude\<close>: values of type unknown, functions that throw, character classes,
    splitting and joining, decimal numerals. \<open>Js_Numbers\<close>: doubles, as rationals with
    rounding to 53 bits, and the exactness lemmas (sums of safe integers; the ceiling of a quotient).
    Rounding keeps the exponent unbounded; every operand of the modelled code is below the range where
    a double overflows, and where it may not be (an estimate of a node) the two agree on the branch.
  \<^item> \<open>Tclk\<close>: the surface of the library \<open>@flop-labs/tclk\<close>, a git submodule
    that is not part of the repository. Its functions are the fields of the record \<open>tclk\<close>,
    an argument of every definition that calls them. \<open>tclk_rails_ok\<close> (canonical rail ids
    are fixed points), \<open>tclk_lock_ok\<close> (terms exist once an accept is reached) and
    \<open>tclk_rooms_ok\<close> (a derived contract id has a deal room) are what some theorems rely on.
  \<^item> \<open>Desk_Types\<close> (\<open>types.ts\<close>), \<open>Profile\<close> (\<open>profile.ts\<close>),
    \<open>Custom_Rails\<close> (\<open>rails/custom-rails.ts\<close>, \<open>rails/pin-text.ts\<close>),
    \<open>Deadlines\<close> (\<open>deadlines.ts\<close>), \<open>Paper_Evidence\<close>
    (\<open>paper-evidence.ts\<close>), \<open>Swap_Fold\<close> (\<open>swap.ts\<close>), \<open>Board\<close>
    (\<open>board.ts\<close>), \<open>Account_Proof\<close> and \<open>Account_Line\<close>
    (\<open>rails/account-proof.ts\<close>, \<open>rails/account-line.ts\<close>), \<open>Btc_Script\<close>
    (\<open>rails/btc-script.ts\<close>), \<open>Btc_Fees\<close> (the fee rule of
    \<open>rails/btc-htlc.ts\<close>), \<open>Client_Policy\<close> (\<open>client/policy.ts\<close>): the
    definitions carry the names of the source. A long function of the source is a chain of
    definitions in the order of its statements: \<open>foldSwap\<close> is
    \<open>initial_view\<close>, \<open>fold_leg_a\<close>, \<open>fold_without_b\<close>,
    \<open>fold_leg_b\<close>, \<open>fold_paired\<close>, \<open>fold_crossed\<close>,
    \<open>fold_refunds\<close>, \<open>fold_claims\<close>, \<open>fold_locks\<close>,
    \<open>fold_lock_a\<close>; \<open>buildBoard\<close> is a scan, a pairing (\<open>winner\<close>) and
    one \<open>board_swap\<close> per leg A.
  \<^item> \<open>Desk_Bytes\<close> (bytes, character encodings, and the locale \<open>prefix_code\<close>
    of self-delimiting encodings with its combinators), \<open>Near_Ref\<close>
    (\<open>rails/near-ref.ts\<close>, the reference strings) and \<open>Near_Borsh\<close>
    (\<open>rails/near-borsh.ts\<close>, one encoder per Borsh type in the order of the file).
  \<^item> \<open>Flow_Store\<close>: the errors, the keys, the compare of \<open>client/flow-store.ts\<close>
    and \<open>MemoryFlowStore\<close>. \<open>Flow_Disk\<close>: a POSIX directory with volatile and
    durable contents, one definition per system call the store makes, a crash, and actions over them
    (a list of scripted outcomes says which call fails and how). \<open>Flow_File\<close>:
    \<open>FileFlowStore\<close>, one definition per method, with its try/catch/finally blocks.
    \<open>Flow_Durable\<close>, \<open>Flow_Live\<close>, \<open>Flow_Register\<close>: its
    properties under crashes, when nothing fails, and as a refinement of a register per key.
  \<^item> \<open>Json_Text\<close>: \<open>JSON.parse\<close>, \<open>JSON.stringify\<close> of a primitive and the key-sorted
    printing of the records. \<open>Flow_Types\<close>, \<open>Flow_Reader\<close>, \<open>Flow_Record\<close>
    (\<open>client/flow-record.ts\<close>): the types, the class \<open>Reader\<close> with one definition per
    method and \<open>parseRecord\<close>, then construction, updates, redaction and the bytes of a record.
    \<open>Flow_Readback\<close> and \<open>Flow_Reader_Errors\<close> hold the two relations on the reader's
    methods the properties in \<open>Flow_Record_Properties\<close> rest on: what it answers on the JSON form
    of a typed value, and how the read side and the write side differ.
  \<^item> \<open>Flow_Journal\<close> (\<open>client/flow-resume.ts\<close>): the journal through which a flow saves its
    record and posts its lines, cut at its awaits: a turn of its queue is \<open>commit\<close>, a post is
    the phases of an attempt. \<open>Flow_Journal_Runs\<close>: any number of journals over one store as
    an inductive step relation, with the venue's answers, the callers and the deaths of processes left
    open. \<open>Flow_Journal_Safe\<close>: the invariant of those runs, against the contract
    \<open>journal_store\<close>. \<open>Flow_Journal_Properties\<close>, \<open>Flow_Seller_Begin\<close>: the
    properties, over the file store and the in-memory store.
  \<^item> \<open>Json_Stringify\<close>: \<open>JSON.stringify\<close> in insertion order, as the RPC bytes use it.
    \<open>Evm_Config\<close> (the configuration of \<open>rails/evm-htlc.ts\<close> and its three
    built-in chains), \<open>Evm_Evidence\<close> (the types, the reasons and the binding of one exchange of
    \<open>rails/evm-evidence.ts\<close>, the code pin), \<open>Evm_Reader\<close> (its reader: block call,
    finalized block, row, one definition per check, in the order of the code, down to
    \<open>evmEvidence\<close> and \<open>verifyLockFinal\<close>), \<open>Evm_Capture\<close>
    (\<open>rails/rpc-capture.ts\<close>: the recorder, its stored exchanges and index) and
    \<open>Evm_Replay\<close> (loading a stored capture, choosing an index). \<open>Evm_Properties\<close>: what
    each check of the reader established when it passed. \<open>Evm_Honest\<close>: a node that answers from
    one chain, and what the reader reads from it. \<open>Evm_Claims\<close>: the properties.
  \<^item> \<open>Evm_Signer\<close> (\<open>rails/evm-signer.ts\<close>), \<open>Evm_Actions\<close> (what
    \<open>EvmHtlcRail\<close> asks of the outside and how its methods compose), \<open>Evm_Writes\<close>
    (connect, the receipt waits, the plan of a log scan, approve, lock, claim, refund, and the vendored
    \<open>EvmHashRail\<close> they go through) and \<open>Evm_Reads\<close> (the row of a lock, the fate of a
    transaction, the finalized block, \<open>readLockAbsence\<close>, \<open>findClaimedPreimage\<close>).
    \<open>Evm_Contract\<close>: \<open>contracts/EvmHashRail.sol\<close> over blocks.
    \<open>Evm_Write_Order\<close>, \<open>Evm_Connect\<close>, \<open>Evm_Absence\<close>: the properties. The outside
    answers every await from the whole history of calls, so no order or consistency of its answers is
    assumed where a theorem does not say so.
  \<^item> \<open>Rail_Readers\<close>: the reader of the EVM rail and that of the paper rail behind one
    interface, composed with the fold.
  \<^item> \<open>Desk_Demo\<close>: one concrete instance of the library's functions and a pair of
    offers, for the witnesses only.
  \<^item> \<open>Swap_Properties\<close>, \<open>Board_Properties\<close>, \<open>Account_Properties\<close>,
    \<open>Profile_Properties\<close>: the properties; those of the other components stand at the end of
    their own theory.

  \<^bold>\<open>Conventions.\<close> A function that throws answers a sum (\<open>Inl\<close> the error) or an
  option where no caller reads the error. A text the code builds for a human (a reason, a violation,
  a refusal) is a constructor that carries the interpolated values, so two texts are equal when the
  code's are built from equal values. Validated integers are \<open>int\<close>, unvalidated ones
  \<open>jsval\<close> or \<open>jsnum\<close>, BigInts \<open>int\<close>, bytes \<open>8 word\<close>.
  Mutable maps are functions or association lists in insertion order where the order is read.

  \<^bold>\<open>Interfaces.\<close> The locale \<open>wire_format\<close> states what a printer that may
  refuse and its parser promise each other (the parser recovers the view of what was printed); its
  lemmas (a text determines the view, distinct views print differently) are proved once. It is
  interpreted on the two contexts of the profile, the proof field, the account line and the pubkey
  line. The locale \<open>prefix_code\<close> states that an encoding can be read back from the front of a
  longer text; it is interpreted on every Borsh type of the NEAR transaction, each from the codes of
  its fields. The locale \<open>cas_store\<close> states what a client of the flow store relies on
  (a save replaces exactly the content it names, a refused save stores nothing, a load reads the
  content back) and proves once that no update is lost; it is interpreted on
  \<open>MemoryFlowStore\<close> and on \<open>FileFlowStore\<close>. The locale \<open>journal_store\<close> extends it
  with room for any record that encodes; what the journals promise is proved in it once, and it is
  interpreted on the same two stores. The locale \<open>json_printer\<close> is what \<open>JSON.parse\<close>
  needs of a printer to read its texts back; it is interpreted on the key-sorted printer of the records
  and on \<open>JSON.stringify\<close>. The locale \<open>evidence_reader\<close> is what the fold relies on
  (an observation a reader gives about a leg rests on a row of the rail); it is interpreted on
  \<open>evmEvidence\<close> and on \<open>paperEvidence\<close>.

  \<^bold>\<open>What the lemmas show.\<close> The fold: settled, locked and refunded verdicts are sound
  with respect to bound evidence, evidence that is not bound cannot matter, time can only abandon, an
  accusation is proven, every verdict on two legs is over a crossing pair, and over two accepted, crossing
  legs each status is answered exactly when its condition holds (with the library's terms defined past an
  accept). The board: authentication, every offer once (the positions of the paired leg B offers and the
  unpaired list make up the authenticated ones), the crossing rule against strangers in the swaps that are
  returned, evidence isolation, totality. Deadlines: the check over doubles orders the four deadlines for
  every input; within \<open>exact_range\<close> it is exactly the three rules over integers and leaves the
  FLOP margins; the known-good sets pass under their chains' policies. Accounts: lines and proof messages
  are unambiguous, a resolved address
  was claimed and proven by its party before the cut, independently of the venue's order. Profile:
  contexts are canonical both ways, no offer is both legs, registries never shadow a known rail.
  NEAR: distinct transactions have distinct bytes, and the header read back from built bytes is the
  header that was built. The store: whatever call fails and wherever the power is lost, a record's
  file holds the record from before the save or the new one, whole; a save that returned survives a
  crash (off Windows, in a directory whose own entry is on disk and that can be synced); a damaged file is
  reported and never read as a record; the lock of a live process is never broken; a save that is due goes through when nothing
  fails; over any history the files behave as one register per key with compare-and-set.
  Records: what was encoded decodes to the same record under its key, a record that loads is well
  formed, errors name the side that failed, a Buyer's record holds no secret, the redacted form of a
  Seller's shows none.
  Journals: what was posted is durable in the ledger, one text per kind of line, a landed line that
  every live instance has seen, with no attempt of its kind short of its post, is never posted again, a
  journal is never ahead of its store, a failed journal does nothing, one attempt per kind; over all
  interleavings of instances and processes (deaths of processes, no power cuts, which the theorems on the
  store cover). A Seller's begin keeps one record per offer, over the file store with any of its calls
  failing, as the one section its lock makes of it. They rest on
  the digest having no collision among the bytes handed to the store (\<open>inj_on\<close>), and on updates
  and projectors that keep the key and the ledger (\<open>keeps_ledger\<close>), as those of the flows do.
  EVM: a configuration that is accepted is safe (every address, the finality depth and every limit is
  in range); a lock the reader calls verified, and an observation it gives, rest on a row of the pinned
  contract with the lock's fields, at the finalized block of one chain id; one response serves one
  capture; the reader answers with a verdict or a reason whatever bytes it is given, when its asset is
  one a configuration may hold; against a node that tells the truth the live verdict is exactly what the
  chain holds; a capture replayed from disk gives the live verdict; and a settled or locked verdict of
  the fold over such readers is a fact of their chains. The handle: a claim shows its preimage to nobody
  before its last read has passed; a connected handle rests on a checked test chain and the pinned code
  and signs only within its ceilings; the verdict that a lock can never land (or has landed) holds in
  every later chain of the escrow that keeps the finalized blocks; the scan for a preimage is exact over
  its window. They rest on the decoders of viem answering
  addresses in one form (\<open>viem_addresses_ok\<close>, \<open>decoded_addresses_ok\<close>) and, for
  the stored captures, on the digest having no collision among the bytes recorded.
  Bitcoin: locktimes are exact, the script has the size the fee rule assumes, an accepted leg can always
  pay for its own claim or refund, and a refund carries the script's time.

  \<^bold>\<open>Bounds and fuel.\<close> The loops of the store that poll are bounded in the code itself:
  \<open>acquire_loop\<close> makes at most \<open>LOCK_MAX_ITERATIONS\<close> turns (4000) and
  \<open>readPayload\<close> six attempts, and those numbers are the recursion's argument; running out
  is the code's own error, and \<open>due_save_goes_through\<close> shows the first turn is enough when no
  other process holds the lock. \<open>json_parse\<close> runs on twice the length of
  its input, and \<open>json_fuel\<close> shows that more fuel changes no answer. No other definition runs
  on fuel: every loop of the modelled code is a
  fold over a list or recursion with a measure (\<open>split_spaces\<close>, \<open>show_nat\<close>,
  \<open>bits\<close>, \<open>script_num_bytes\<close>) or counts down a bound of the code
  (\<open>MAX_LOG_SCAN_CHUNKS\<close> ranges, \<open>EVM_WRITE_LOOKUP_REPLANS\<close> looks). \<open>exact_range\<close> bounds the operands of the
  deadline check by the safe integers; epoch milliseconds and the policies of the desk are far inside.

  \<^bold>\<open>Not modelled.\<close> The library functions (tclk, noble, viem, scure), which are arguments;
  text with characters above U+00FF, which the decoders of the model refuse;
  of the store, the queue inside one process (\<open>withProcessMutex\<close>), the entry of the store's own
  directory in its parent, and the text encoding of lock files (one character per byte);
  of the EVM rail, what viem does inside one of its calls (encoding, filling a transaction, polling),
  two methods of one handle at the same time, and a token that calls back into the escrow; the evidence readers and
  adapters of Bitcoin, NEAR and Solana, the frames of custom rails, the flows of the two parties above
  their journals, the replay of whole bundles, the watcher and the rehearsal runner: they are mostly
  sequences of network calls over libraries that are not part of the repository, and what they decide
  is decided by the components above. Command line tools, file and network I/O; the contracts of the
  other chains.
\<close>

end
